(* ===== verification/Prelude.thy ===== *)
theory Prelude
  imports Main "HOL-Library.Word"
begin

text \<open>
  The JavaScript values and operators that the modules of \<^verbatim>\<open>src/defaults/JSXTransformer.js\<close>
  use, and the lemmas every component shares.

  A JavaScript string is a sequence of 16-bit code units, so it is a list of naturals
  (\<open>jsstring\<close>); \<open>js ''abc''\<close> is the literal \<^verbatim>\<open>"abc"\<close>. A number that the code only
  uses as an integer is an \<open>int\<close>; the bitwise operators first reduce their operands to
  32 bits, so they are written over \<^typ>\<open>32 word\<close>. A statement that can throw returns
  a value of \<open>'a res\<close>, whose left side is the thrown error.
\<close>

unbundle bit_operations_syntax

type_synonym code_unit = nat
type_synonym jsstring = "code_unit list"

datatype js_error =
    Error jsstring
  | TypeError jsstring
  | RangeError jsstring

type_synonym 'a res = "js_error + 'a"

named_theorems res_simps \<open>evaluation of code that may throw\<close>
named_theorems js_eval \<open>string literals to code units, on demand\<close>
named_theorems bit_simps \<open>32-bit operators on integer-valued numbers\<close>

subsection \<open>Results and exceptions\<close>

definition bindR :: "'a res \<Rightarrow> ('a \<Rightarrow> 'b res) \<Rightarrow> 'b res" where
  "bindR m f = (case m of Inl e \<Rightarrow> Inl e | Inr x \<Rightarrow> f x)"

definition mapR :: "('a \<Rightarrow> 'b) \<Rightarrow> 'a res \<Rightarrow> 'b res" where
  "mapR f m = (case m of Inl e \<Rightarrow> Inl e | Inr x \<Rightarrow> Inr (f x))"

lemma bindR_simps [simp, res_simps]:
  "bindR (Inl e) f = Inl e"
  "bindR (Inr x) f = f x"
  by (simp_all add: bindR_def)

lemma mapR_simps [simp, res_simps]:
  "mapR f (Inl e) = Inl e"
  "mapR f (Inr x) = Inr (f x)"
  by (simp_all add: mapR_def)

lemma bindR_Inr_iff: "bindR m f = Inr y \<longleftrightarrow> (\<exists>x. m = Inr x \<and> f x = Inr y)"
  by (cases m) auto

lemma bindR_InrE:
  assumes "bindR m f = Inr y"
  obtains x where "m = Inr x" and "f x = Inr y"
  using assms by (auto simp: bindR_Inr_iff)

lemma bindR_cong [fundef_cong]:
  assumes "m = m'" and "\<And>x. m' = Inr x \<Longrightarrow> f x = f' x"
  shows "bindR m f = bindR m' f'"
  using assms by (cases m') auto

lemma bindR_assoc: "bindR (bindR m f) g = bindR m (\<lambda>x. bindR (f x) g)"
  by (cases m) auto

text \<open>A loop over an array whose body may throw stops at the first throw.\<close>

fun foldR :: "('a \<Rightarrow> 's \<Rightarrow> 's res) \<Rightarrow> 'a list \<Rightarrow> 's \<Rightarrow> 's res" where
  "foldR f [] s = Inr s"
| "foldR f (x # xs) s = bindR (f x s) (foldR f xs)"

lemma foldR_append: "foldR f (xs @ ys) s = bindR (foldR f xs s) (foldR f ys)"
proof (induction xs arbitrary: s)
  case (Cons x xs)
  then show ?case by (cases "f x s") auto
qed simp

lemma foldR_invariant:
  assumes "foldR f xs s = Inr s'" and "I s"
    and "\<And>x s s'. \<lbrakk>x \<in> set xs; I s; f x s = Inr s'\<rbrakk> \<Longrightarrow> I s'"
  shows "I s'"
  using assms
proof (induction xs arbitrary: s)
  case Nil
  then show ?case by simp
next
  case (Cons x xs)
  from Cons.prems(1) obtain t where t: "f x s = Inr t" "foldR f xs t = Inr s'"
    by (auto elim: bindR_InrE)
  have "I t" using Cons.prems(2,3) t(1) by (meson list.set_intros(1))
  then show ?case using Cons.IH [OF t(2)] Cons.prems(3) by (meson list.set_intros(2))
qed

subsection \<open>Strings\<close>

definition js :: "string \<Rightarrow> jsstring" where
  "js s = map of_char s"

lemma js_simps [js_eval]:
  "js [] = []"
  "js (c # cs) = of_char c # js cs"
  by (simp_all add: js_def)

lemma length_js [simp]: "length (js s) = length s"
  by (simp add: js_def)

lemma js_eq_iff [simp]: "js a = js b \<longleftrightarrow> a = b"
proof -
  have "inj (of_char :: char \<Rightarrow> nat)" by (rule injI) simp
  then show ?thesis by (simp add: js_def)
qed

text \<open>\<^verbatim>\<open>s.charAt(i)\<close>: a string of length one, or the empty string out of range.\<close>

definition charAt :: "jsstring \<Rightarrow> nat \<Rightarrow> jsstring" where
  "charAt s i = (if i < length s then [s ! i] else [])"

text \<open>\<^verbatim>\<open>s.slice(i)\<close> and \<^verbatim>\<open>s.substr(i)\<close> for a start inside or past the string.\<close>

abbreviation slice_from :: "nat \<Rightarrow> 'a list \<Rightarrow> 'a list" where
  "slice_from i s \<equiv> drop i s"

text \<open>\<^verbatim>\<open>s.substring(i, j)\<close> with \<open>i \<le> j\<close>, and \<^verbatim>\<open>s.slice(i, j)\<close> on non-negative indices.\<close>

definition substring :: "nat \<Rightarrow> nat \<Rightarrow> 'a list \<Rightarrow> 'a list" where
  "substring i j s = take (j - i) (drop i s)"

lemma length_substring [simp]: "length (substring i j s) = min (j - i) (length s - i)"
  by (simp add: substring_def)

lemma substring_append [simp]:
  assumes "i \<le> j" and "j \<le> k"
  shows "substring i j s @ substring j k s = substring i k s"
proof -
  have "substring i k s = take ((j - i) + (k - j)) (drop i s)"
    using assms by (simp add: substring_def)
  also have "\<dots> = take (j - i) (drop i s) @ take (k - j) (drop (j - i) (drop i s))"
    by (rule take_add)
  also have "\<dots> = substring i j s @ substring j k s"
    using assms by (simp add: substring_def)
  finally show ?thesis by simp
qed

lemma substring_same [simp]: "substring i i s = []"
  by (simp add: substring_def)

lemma substring_0 [simp]: "substring 0 j s = take j s"
  by (simp add: substring_def)

text \<open>\<^verbatim>\<open>a + b + c\<close> over an array of strings, and \<^verbatim>\<open>arr.join(sep)\<close>.\<close>

fun join_with :: "jsstring \<Rightarrow> jsstring list \<Rightarrow> jsstring" where
  "join_with sep [] = []"
| "join_with sep [x] = x"
| "join_with sep (x # y # ys) = x @ sep @ join_with sep (y # ys)"

text \<open>\<^verbatim>\<open>s.split(c)\<close> for a separator of one code unit.\<close>

fun split_on :: "code_unit \<Rightarrow> jsstring \<Rightarrow> jsstring list" where
  "split_on c [] = [[]]"
| "split_on c (x # xs) =
     (if x = c then [] # split_on c xs
      else (case split_on c xs of [] \<Rightarrow> [[x]] | w # ws \<Rightarrow> (x # w) # ws))"

lemma split_on_not_Nil [simp]: "split_on c s \<noteq> []"
  by (induction s) (auto split: list.splits)

lemma join_with_Cons: "ws \<noteq> [] \<Longrightarrow> join_with sep (w # ws) = w @ sep @ join_with sep ws"
  by (cases ws) auto

lemma join_split [simp]: "join_with [c] (split_on c s) = s"
proof (induction s)
  case Nil
  then show ?case by simp
next
  case (Cons x xs)
  then show ?case
  proof (cases "split_on c xs")
    case (Cons w ws)
    then have "join_with [c] ((x # w) # ws) = x # join_with [c] (w # ws)"
      by (cases ws) auto
    with Cons \<open>join_with [c] (split_on c xs) = xs\<close> show ?thesis
      by (simp add: join_with_Cons)
  qed simp
qed

lemma split_on_no_sep: "w \<in> set (split_on c s) \<Longrightarrow> c \<notin> set w"
  by (induction s arbitrary: w) (auto split: list.splits if_splits)

lemma split_on_word [simp]: "c \<notin> set w \<Longrightarrow> split_on c w = [w]"
  by (induction w) auto

lemma split_on_append: "c \<notin> set w \<Longrightarrow> split_on c (w @ c # s) = w # split_on c s"
  by (induction w) auto

lemma split_join:
  assumes "ws \<noteq> []" and "\<forall>w \<in> set ws. c \<notin> set w"
  shows "split_on c (join_with [c] ws) = ws"
  using assms
proof (induction ws)
  case (Cons w ws)
  then show ?case by (cases ws) (auto simp: split_on_append)
qed simp

text \<open>The relational operators compare strings by code units.\<close>

fun str_less :: "jsstring \<Rightarrow> jsstring \<Rightarrow> bool" where
  "str_less xs [] = False"
| "str_less [] (y # ys) = True"
| "str_less (x # xs) (y # ys) = (x < y \<or> (x = y \<and> str_less xs ys))"

lemma str_less_irrefl [simp]: "\<not> str_less s s"
  by (induction s) auto

lemma str_less_trans: "str_less a b \<Longrightarrow> str_less b c \<Longrightarrow> str_less a c"
proof (induction a b arbitrary: c rule: str_less.induct)
  case (2 y ys)
  then show ?case by (cases c) auto
next
  case (3 x xs y ys)
  then show ?case by (cases c) auto
qed auto

lemma str_less_asym: "str_less a b \<Longrightarrow> \<not> str_less b a"
  using str_less_trans str_less_irrefl by blast

lemma str_less_linear: "str_less a b \<or> a = b \<or> str_less b a"
proof (induction a b rule: str_less.induct)
  case (1 xs)
  then show ?case by (cases xs) auto
qed auto

subsection \<open>Arrays\<close>

text \<open>\<^verbatim>\<open>arr[i]\<close> with an integer index: undefined out of range.\<close>

definition js_index :: "'a list \<Rightarrow> int \<Rightarrow> 'a option" where
  "js_index xs i = (if 0 \<le> i \<and> i < int (length xs) then Some (xs ! nat i) else None)"

lemma js_index_nat [simp]: "i < length xs \<Longrightarrow> js_index xs (int i) = Some (xs ! i)"
  by (simp add: js_index_def)

text \<open>\<^verbatim>\<open>arr.indexOf(x)\<close>: the first index.\<close>

fun index_of :: "'a list \<Rightarrow> 'a \<Rightarrow> nat option" where
  "index_of [] x = None"
| "index_of (y # ys) x = (if y = x then Some 0 else map_option Suc (index_of ys x))"

lemma index_of_nth: "distinct xs \<Longrightarrow> i < length xs \<Longrightarrow> index_of xs (xs ! i) = Some i"
proof (induction xs arbitrary: i)
  case (Cons x xs)
  then show ?case by (cases i) auto
qed simp

lemma index_of_Some: "index_of xs x = Some i \<Longrightarrow> i < length xs \<and> xs ! i = x"
  by (induction xs arbitrary: i) (auto split: if_splits)

lemma index_of_None: "index_of xs x = None \<longleftrightarrow> x \<notin> set xs"
  by (induction xs) auto

lemma index_of_take_notin: "index_of xs x = Some i \<Longrightarrow> x \<notin> set (take i xs)"
proof (induction xs arbitrary: i)
  case (Cons y ys)
  then show ?case by (cases i) (auto split: if_splits)
qed simp

lemma index_of_append:
  "index_of (xs @ ys) x =
     (case index_of xs x of Some i \<Rightarrow> Some i | None \<Rightarrow> map_option ((+) (length xs)) (index_of ys x))"
  by (induction xs; cases "index_of ys x") (auto split: option.splits)

subsection \<open>Decimal rendering of integers\<close>

text \<open>\<^verbatim>\<open>"" + n\<close> for an integer-valued number.\<close>

fun dec_digits :: "nat \<Rightarrow> jsstring" where
  "dec_digits n = (if n < 10 then [48 + n] else dec_digits (n div 10) @ [48 + n mod 10])"

declare dec_digits.simps [simp del]

definition js_of_int :: "int \<Rightarrow> jsstring" where
  "js_of_int i = (if i < 0 then js ''-'' @ dec_digits (nat (- i)) else dec_digits (nat i))"

fun dec_value :: "jsstring \<Rightarrow> nat" where
  "dec_value ds = foldl (\<lambda>acc d. acc * 10 + (d - 48)) 0 ds"

lemma dec_value_digits: "dec_value (dec_digits n) = n"
proof (induction n rule: dec_digits.induct)
  case (1 n)
  then show ?case
    by (cases "n < 10") (simp_all add: dec_digits.simps [of n])
qed

lemma dec_digits_inj: "dec_digits m = dec_digits n \<Longrightarrow> m = n"
  using dec_value_digits by metis

lemma dec_digits_range: "\<forall>d \<in> set (dec_digits n). 48 \<le> d \<and> d \<le> 57"
proof (induction n rule: dec_digits.induct)
  case (1 n)
  then show ?case
    by (cases "n < 10") (auto simp: dec_digits.simps [of n])
qed

subsection \<open>Bitwise operators\<close>

text \<open>
  \<^verbatim>\<open>a & b\<close>, \<^verbatim>\<open>a | b\<close>, \<^verbatim>\<open>a << n\<close>, \<^verbatim>\<open>a >> n\<close> and \<^verbatim>\<open>a >>> n\<close> (ECMAScript 5.1, 11.7 and
  11.10): ToInt32 on the operands, five bits of the shift count, a signed result except for
  \<^verbatim>\<open>>>>\<close>.
\<close>

definition int32 :: "int \<Rightarrow> 32 word" where
  "int32 a = word_of_int a"

definition js_and :: "int \<Rightarrow> int \<Rightarrow> int" where
  "js_and a b = sint (int32 a AND int32 b)"

definition js_or :: "int \<Rightarrow> int \<Rightarrow> int" where
  "js_or a b = sint (int32 a OR int32 b)"

definition js_shl :: "int \<Rightarrow> nat \<Rightarrow> int" where
  "js_shl a n = sint (push_bit (n mod 32) (int32 a))"

definition js_sar :: "int \<Rightarrow> nat \<Rightarrow> int" where
  "js_sar a n = sint (signed_drop_bit (n mod 32) (int32 a))"

definition js_shr :: "int \<Rightarrow> nat \<Rightarrow> int" where
  "js_shr a n = uint (drop_bit (n mod 32) (int32 a))"

lemmas js_bit_defs = js_and_def js_or_def js_shl_def js_sar_def js_shr_def int32_def

lemma int32_eq_iff: "int32 a = int32 b \<longleftrightarrow> a mod 2 ^ 32 = b mod 2 ^ 32"
  by (simp add: int32_def word_of_int_eq_iff take_bit_eq_mod)

lemma uint_int32 [bit_simps]: "uint (int32 a) = a mod 2 ^ 32"
  by (simp add: int32_def unsigned_of_int take_bit_eq_mod)

lemma sint_int32 [bit_simps]: "sint (int32 a) = signed_take_bit 31 a"
  by (simp add: int32_def signed_of_int)

lemma int32_sint [simp]: "int32 (sint w) = w"
  by (simp add: int32_def)

lemma int32_uint [simp]: "int32 (uint w) = w"
  by (simp add: int32_def)

lemma int32_add: "int32 (a + b) = int32 a + int32 b"
  by (simp add: int32_def)

lemma int32_mult: "int32 (a * b) = int32 a * int32 b"
  by (simp add: int32_def)

lemma sint_int32_small:
  assumes "- (2 ^ 31) \<le> a" and "a < 2 ^ 31"
  shows "sint (int32 a) = a"
  using assms by (simp add: sint_int32 signed_take_bit_int_eq_self)

lemma js_shr_eq [bit_simps]: "js_shr a n = (a mod 2 ^ 32) div 2 ^ (n mod 32)"
proof -
  have "js_shr a n = drop_bit (n mod 32) (take_bit 32 (uint (int32 a)))"
    by (simp only: js_shr_def unsigned_drop_bit_eq) simp
  then show ?thesis by (simp add: uint_int32 drop_bit_eq_div take_bit_eq_mod)
qed

lemma js_shl_eq [bit_simps]: "js_shl a n = sint (int32 (a * 2 ^ (n mod 32)))"
  by (simp add: js_shl_def int32_def push_bit_eq_mult)

lemma js_and_mask:
  assumes "n \<le> 31"
  shows "js_and a (2 ^ n - 1) = a mod 2 ^ n"
proof -
  have "int32 a AND int32 (2 ^ n - 1) = take_bit n (int32 a)"
    by (simp add: int32_def take_bit_eq_mask mask_eq_exp_minus_1)
  also have "\<dots> = int32 (a mod 2 ^ n)"
    by (simp add: int32_def take_bit_of_int flip: take_bit_eq_mod)
  finally have "js_and a (2 ^ n - 1) = sint (int32 (a mod 2 ^ n))"
    by (simp add: js_and_def)
  also have "\<dots> = a mod 2 ^ n"
  proof (rule sint_int32_small)
    have "(2::int) ^ n \<le> 2 ^ 31" using assms by (intro power_increasing) auto
    then show "a mod 2 ^ n < 2 ^ 31"
      by (meson pos_mod_bound less_le_trans zero_less_numeral zero_less_power)
    show "- (2 ^ 31) \<le> a mod 2 ^ n"
      by (meson neg_le_0_iff_le order_trans pos_mod_sign zero_le_numeral zero_le_power
          zero_less_numeral zero_less_power)
  qed
  finally show ?thesis .
qed

lemma js_or_comm: "js_or a b = js_or b a"
  by (simp add: js_or_def or.commute)

lemma int_or_disjoint:
  fixes a b :: int
  assumes "0 \<le> a" and "a < 2 ^ k" and "2 ^ k dvd b"
  shows "a OR b = a + b"
proof -
  have "a AND b = 0"
  proof (rule bit_eqI)
    fix n
    have "\<not> (bit a n \<and> bit b n)"
    proof (cases "n < k")
      case True
      obtain c where "b = push_bit k c" using assms(3) by (auto simp: push_bit_eq_mult mult.commute)
      then show ?thesis using True by (simp add: bit_push_bit_iff)
    next
      case False
      have "take_bit k a = a" using assms(1,2) by (simp add: take_bit_int_eq_self)
      then show ?thesis using False by (metis bit_take_bit_iff)
    qed
    then show "bit (a AND b) n \<longleftrightarrow> bit (0 :: int) n" by (simp add: bit_and_iff)
  qed
  then show ?thesis by (metis add_0 plus_and_or)
qed

lemma js_or_disjoint:
  assumes "0 \<le> a" and "a < 2 ^ k" and "2 ^ k dvd b"
  shows "js_or a b = sint (int32 (a + b))"
proof -
  have "int32 a OR int32 b = int32 (a OR b)"
    by (rule bit_word_eqI) (simp add: int32_def bit_or_iff bit_word_of_int_iff)
  then show ?thesis using int_or_disjoint [OF assms] by (simp add: js_or_def)
qed

lemma js_or_cong [simp]: "js_or (sint (int32 a)) b = js_or a b" "js_or a (sint (int32 b)) = js_or a b"
  by (simp_all add: js_or_def)

lemma js_and_bit:
  assumes "n < 32"
  shows "js_and a (2 ^ n) = 0 \<longleftrightarrow> even (a div 2 ^ n)"
proof -
  have "js_and a (2 ^ n) = 0 \<longleftrightarrow> int32 a AND 2 ^ n = 0"
    by (simp add: js_and_def int32_def signed_eq_0_iff)
  also have "\<dots> \<longleftrightarrow> \<not> bit (int32 a) n" by (rule and_exp_eq_0_iff_not_bit)
  also have "bit (int32 a) n = odd (a div 2 ^ n)"
    using assms by (simp add: int32_def bit_word_of_int_iff bit_iff_odd [of a])
  finally show ?thesis by simp
qed

lemma js_sar_eq:
  assumes "- (2 ^ 31) \<le> a" and "a < 2 ^ 31" and "n < 32"
  shows "js_sar a n = a div 2 ^ n"
proof -
  have "js_sar a n = drop_bit n (sint (int32 a))"
    using assms(3) by (simp add: js_sar_def sint_signed_drop_bit_eq)
  then show ?thesis using assms by (simp add: sint_int32_small drop_bit_eq_div)
qed

lemma js_and_int:
  assumes "0 \<le> a" and "a < 2 ^ 31" and "0 \<le> b" and "b < 2 ^ 31"
  shows "js_and a b = a AND b"
proof -
  have "int32 a AND int32 b = int32 (a AND b)"
    by (rule bit_word_eqI) (simp add: int32_def bit_and_iff bit_word_of_int_iff)
  moreover have "0 \<le> a AND b" using assms by simp
  moreover have "a AND b \<le> a" using assms by (simp add: AND_upper1)
  ultimately have "int32 a AND int32 b = int32 (a AND b)" "- (2 ^ 31) \<le> a AND b" "a AND b < 2 ^ 31"
    using assms by linarith+
  then show ?thesis unfolding js_and_def by (simp only: sint_int32_small)
qed

text \<open>\<^verbatim>\<open>(a & (mask << k)) >> k\<close> picks the \<open>n\<close> bits of \<open>a\<close> from bit \<open>k\<close> on.\<close>

lemma and_shifted_mask:
  fixes a :: int
  shows "(a AND (2 ^ n - 1) * 2 ^ k) div 2 ^ k = a div 2 ^ k mod 2 ^ n"
proof -
  have "drop_bit k (push_bit k (mask n)) = (mask n :: int)"
    by (simp add: drop_bit_eq_div push_bit_eq_mult)
  then have "drop_bit k (a AND push_bit k (mask n)) = drop_bit k a AND mask n"
    by (simp only: drop_bit_and)
  also have "\<dots> = take_bit n (drop_bit k a)" by (simp add: take_bit_eq_mask)
  finally show ?thesis
    by (simp add: drop_bit_eq_div push_bit_eq_mult mask_eq_exp_minus_1 take_bit_eq_mod)
qed

end
