(* ===== verification/JsRegexp.thy ===== *)
theory JsRegexp
  imports Prelude
begin

text \<open>
  The fragment of JavaScript regular expressions the modules use: character classes, greedy
  repetition of a class, optional groups, captures and the two anchors, matched by backtracking
  in the order ECMAScript prescribes (15.10.2). A match is a continuation-passing recursion over
  the expression, as in the standard; \<open>matches\<close> is the relation it computes.
\<close>

datatype regexp =
    REmpty
  | RSet "code_unit \<Rightarrow> bool"
  | RStar "code_unit \<Rightarrow> bool"
  | RPlus "code_unit \<Rightarrow> bool"
  | ROpt regexp
  | RSeq regexp regexp
  | RGroup nat regexp
  | RBegin
  | REnd
  | RAlt regexp regexp
  | RStarLazy "code_unit \<Rightarrow> bool"
  | RPlusLazy "code_unit \<Rightarrow> bool"

type_synonym captures = "nat \<rightharpoonup> jsstring"

text \<open>The longest run first, then one unit less, down to none.\<close>

fun try_down :: "(nat \<Rightarrow> 'r option) \<Rightarrow> nat \<Rightarrow> nat \<Rightarrow> 'r option" where
  "try_down k i 0 = k i"
| "try_down k i (Suc n) = (case k (i + Suc n) of Some r \<Rightarrow> Some r | None \<Rightarrow> try_down k i n)"

text \<open>The lazy order: no unit first, then one more each time.\<close>

fun try_up :: "(nat \<Rightarrow> 'r option) \<Rightarrow> nat \<Rightarrow> nat \<Rightarrow> 'r option" where
  "try_up k i 0 = k i"
| "try_up k i (Suc n) = (case k i of Some r \<Rightarrow> Some r | None \<Rightarrow> try_up k (Suc i) n)"

primrec rmatch :: "regexp \<Rightarrow> jsstring \<Rightarrow> nat \<Rightarrow> captures \<Rightarrow> (nat \<Rightarrow> captures \<Rightarrow> 'r option) \<Rightarrow> 'r option"
where
  "rmatch REmpty s i c k = k i c"
| "rmatch (RSet p) s i c k = (if i < length s \<and> p (s ! i) then k (Suc i) c else None)"
| "rmatch (RStar p) s i c k = try_down (\<lambda>j. k j c) i (length (takeWhile p (drop i s)))"
| "rmatch (RPlus p) s i c k =
     (case length (takeWhile p (drop i s)) of
        0 \<Rightarrow> None
      | Suc n \<Rightarrow> try_down (\<lambda>j. k j c) (Suc i) n)"
| "rmatch (ROpt r) s i c k = (case rmatch r s i c k of Some x \<Rightarrow> Some x | None \<Rightarrow> k i c)"
| "rmatch (RSeq a b) s i c k = rmatch a s i c (\<lambda>j c'. rmatch b s j c' k)"
| "rmatch (RGroup n r) s i c k = rmatch r s i c (\<lambda>j c'. k j (c'(n \<mapsto> substring i j s)))"
| "rmatch RBegin s i c k = (if i = 0 then k i c else None)"
| "rmatch REnd s i c k = (if i = length s then k i c else None)"
| "rmatch (RAlt a b) s i c k = (case rmatch a s i c k of Some x \<Rightarrow> Some x | None \<Rightarrow> rmatch b s i c k)"
| "rmatch (RStarLazy p) s i c k = try_up (\<lambda>j. k j c) i (length (takeWhile p (drop i s)))"
| "rmatch (RPlusLazy p) s i c k =
     (case length (takeWhile p (drop i s)) of
        0 \<Rightarrow> None
      | Suc n \<Rightarrow> try_up (\<lambda>j. k j c) (Suc i) n)"

definition RLit :: "jsstring \<Rightarrow> regexp" where
  "RLit w = foldr (\<lambda>c r. RSeq (RSet (\<lambda>x. x = c)) r) w REmpty"

text \<open>\<^verbatim>\<open>s.match(r)\<close> without the global flag: the leftmost start at which the expression matches.\<close>

fun search_from :: "regexp \<Rightarrow> jsstring \<Rightarrow> nat \<Rightarrow> nat \<Rightarrow> (nat \<times> nat \<times> captures) option" where
  "search_from r s i 0 = rmatch r s i Map.empty (\<lambda>j c. Some (i, j, c))"
| "search_from r s i (Suc n) =
     (case rmatch r s i Map.empty (\<lambda>j c. Some (i, j, c)) of
        Some m \<Rightarrow> Some m
      | None \<Rightarrow> search_from r s (Suc i) n)"

definition regexp_match :: "regexp \<Rightarrow> jsstring \<Rightarrow> (nat \<times> nat \<times> captures) option" where
  "regexp_match r s = search_from r s 0 (length s)"

definition regexp_test :: "regexp \<Rightarrow> jsstring \<Rightarrow> bool" where
  "regexp_test r s \<longleftrightarrow> regexp_match r s \<noteq> None"

subsection \<open>Character classes\<close>

definition is_digit :: "code_unit \<Rightarrow> bool" where
  "is_digit c \<longleftrightarrow> 48 \<le> c \<and> c \<le> 57"

definition is_word :: "code_unit \<Rightarrow> bool" where
  "is_word c \<longleftrightarrow> is_digit c \<or> (65 \<le> c \<and> c \<le> 90) \<or> (97 \<le> c \<and> c \<le> 122) \<or> c = 95"

definition is_line_terminator :: "code_unit \<Rightarrow> bool" where
  "is_line_terminator c \<longleftrightarrow> c = 10 \<or> c = 13 \<or> c = 0x2028 \<or> c = 0x2029"

definition is_space :: "code_unit \<Rightarrow> bool" where
  "is_space c \<longleftrightarrow> is_line_terminator c \<or> c = 9 \<or> c = 11 \<or> c = 12 \<or> c = 32 \<or> c = 0xA0 \<or> c = 0x1680
     \<or> c = 0x180E \<or> (0x2000 \<le> c \<and> c \<le> 0x200A) \<or> c = 0x202F \<or> c = 0x205F \<or> c = 0x3000 \<or> c = 0xFEFF"

lemmas class_defs = is_digit_def is_word_def is_line_terminator_def is_space_def

subsection \<open>What a match means\<close>

primrec matches :: "regexp \<Rightarrow> jsstring \<Rightarrow> nat \<Rightarrow> nat \<Rightarrow> captures \<Rightarrow> captures \<Rightarrow> bool" where
  "matches REmpty s i j c c' \<longleftrightarrow> j = i \<and> c' = c"
| "matches (RSet p) s i j c c' \<longleftrightarrow> i < length s \<and> p (s ! i) \<and> j = Suc i \<and> c' = c"
| "matches (RStar p) s i j c c' \<longleftrightarrow> i \<le> j \<and> (\<forall>m. i \<le> m \<and> m < j \<longrightarrow> m < length s \<and> p (s ! m)) \<and> c' = c"
| "matches (RPlus p) s i j c c' \<longleftrightarrow> i < j \<and> (\<forall>m. i \<le> m \<and> m < j \<longrightarrow> m < length s \<and> p (s ! m)) \<and> c' = c"
| "matches (ROpt r) s i j c c' \<longleftrightarrow> matches r s i j c c' \<or> (j = i \<and> c' = c)"
| "matches (RSeq a b) s i j c c' \<longleftrightarrow> (\<exists>m d. matches a s i m c d \<and> matches b s m j d c')"
| "matches (RGroup n r) s i j c c' \<longleftrightarrow> (\<exists>d. matches r s i j c d \<and> c' = d(n \<mapsto> substring i j s))"
| "matches RBegin s i j c c' \<longleftrightarrow> i = 0 \<and> j = i \<and> c' = c"
| "matches REnd s i j c c' \<longleftrightarrow> i = length s \<and> j = i \<and> c' = c"
| "matches (RAlt a b) s i j c c' \<longleftrightarrow> matches a s i j c c' \<or> matches b s i j c c'"
| "matches (RStarLazy p) s i j c c' \<longleftrightarrow>
     i \<le> j \<and> (\<forall>m. i \<le> m \<and> m < j \<longrightarrow> m < length s \<and> p (s ! m)) \<and> c' = c"
| "matches (RPlusLazy p) s i j c c' \<longleftrightarrow>
     i < j \<and> (\<forall>m. i \<le> m \<and> m < j \<longrightarrow> m < length s \<and> p (s ! m)) \<and> c' = c"

lemma try_down_Some: "try_down k i n = Some r \<Longrightarrow> \<exists>m \<le> n. k (i + m) = Some r"
proof (induction n)
  case (Suc n)
  then show ?case by (auto split: option.splits intro: le_SucI)
qed auto

lemma try_down_complete: "\<lbrakk>m \<le> n; k (i + m) \<noteq> None\<rbrakk> \<Longrightarrow> try_down k i n \<noteq> None"
proof (induction n)
  case (Suc n)
  then show ?case by (cases "m = Suc n") (auto split: option.splits simp: le_Suc_eq)
qed simp

text \<open>The lazy search stops at the first end that works.\<close>

lemma try_up_Some:
  "try_up k i n = Some r \<Longrightarrow> \<exists>m \<le> n. k (i + m) = Some r \<and> (\<forall>l < m. k (i + l) = None)"
proof (induction n arbitrary: i)
  case (Suc n)
  show ?case
  proof (cases "k i")
    case None
    then obtain m where m: "m \<le> n" "k (Suc i + m) = Some r" "\<forall>l < m. k (Suc i + l) = None"
      using Suc.IH [of "Suc i"] Suc.prems by auto
    then have "\<forall>l < Suc m. k (i + l) = None" using None by (auto simp: less_Suc_eq_0_disj)
    with m show ?thesis by (intro exI [of _ "Suc m"]) auto
  next
    case (Some x)
    then show ?thesis using Suc.prems by (intro exI [of _ 0]) auto
  qed
qed auto

lemma try_up_complete: "\<lbrakk>m \<le> n; k (i + m) \<noteq> None\<rbrakk> \<Longrightarrow> try_up k i n \<noteq> None"
proof (induction n arbitrary: i m)
  case (Suc n)
  show ?case
  proof (cases m)
    case 0
    then show ?thesis using Suc.prems by (auto split: option.splits)
  next
    case (Suc m')
    then show ?thesis using Suc.IH [of m' "Suc i"] Suc.prems by (auto split: option.splits)
  qed
qed simp

lemma takeWhile_drop_le:
  assumes "\<forall>m. i \<le> m \<and> m < j \<longrightarrow> m < length s \<and> p (s ! m)" and "i \<le> j"
  shows "j - i \<le> length (takeWhile p (drop i s))"
proof (rule ccontr)
  let ?t = "takeWhile p (drop i s)"
  assume "\<not> ?thesis"
  then have n: "length ?t < j - i" by simp
  then have "i \<le> i + length ?t \<and> i + length ?t < j" using assms(2) by linarith
  with assms(1) have m: "i + length ?t < length s" "p (s ! (i + length ?t))" by blast+
  then have "length ?t < length (drop i s)" by simp
  with nth_length_takeWhile [OF this] m show False by simp
qed

lemma takeWhile_drop_nth:
  assumes "i \<le> m" and "m < i + length (takeWhile p (drop i s))"
  shows "m < length s" and "p (s ! m)"
proof -
  let ?t = "takeWhile p (drop i s)"
  have "length ?t \<le> length (drop i s)" by (rule length_takeWhile_le)
  then show ml: "m < length s" using assms by simp
  have "?t ! (m - i) = drop i s ! (m - i)" using assms by (intro takeWhile_nth) linarith
  moreover have "?t ! (m - i) \<in> set ?t" using assms by (intro nth_mem) linarith
  ultimately show "p (s ! m)" using assms ml by (auto dest: set_takeWhileD)
qed

lemma rmatch_sound:
  "rmatch r s i c k = Some x \<Longrightarrow> \<exists>j c'. matches r s i j c c' \<and> k j c' = Some x"
proof (induction r arbitrary: i c k)
  case (RStar p)
  then obtain m where m: "m \<le> length (takeWhile p (drop i s))" "k (i + m) c = Some x"
    by (auto dest: try_down_Some)
  then have "matches (RStar p) s i (i + m) c c"
    using takeWhile_drop_nth [of i _ p s] by fastforce
  with m(2) show ?case by blast
next
  case (RPlus p)
  let ?n = "length (takeWhile p (drop i s))"
  from RPlus obtain n where n: "?n = Suc n" "try_down (\<lambda>j. k j c) (Suc i) n = Some x"
    by (auto split: nat.splits)
  then obtain m where m: "m \<le> n" "k (Suc i + m) c = Some x"
    by (auto dest: try_down_Some)
  then have "matches (RPlus p) s i (Suc i + m) c c"
    using takeWhile_drop_nth [of i _ p s] n(1) by fastforce
  with m(2) show ?case by blast
next
  case (RStarLazy p)
  then obtain m where m: "m \<le> length (takeWhile p (drop i s))" "k (i + m) c = Some x"
    by (auto dest: try_up_Some)
  then have "matches (RStarLazy p) s i (i + m) c c"
    using takeWhile_drop_nth [of i _ p s] by fastforce
  with m(2) show ?case by blast
next
  case (RPlusLazy p)
  let ?n = "length (takeWhile p (drop i s))"
  from RPlusLazy obtain n where n: "?n = Suc n" "try_up (\<lambda>j. k j c) (Suc i) n = Some x"
    by (auto split: nat.splits)
  then obtain m where m: "m \<le> n" "k (Suc i + m) c = Some x"
    by (auto dest: try_up_Some)
  then have "matches (RPlusLazy p) s i (Suc i + m) c c"
    using takeWhile_drop_nth [of i _ p s] n(1) by fastforce
  with m(2) show ?case by blast
next
  case (RAlt r1 r2)
  then show ?case by (fastforce split: option.splits)
next
  case (ROpt r)
  then show ?case by (fastforce split: option.splits)
next
  case (RSeq r1 r2)
  then show ?case by fastforce
next
  case (RGroup n r)
  then show ?case by fastforce
qed (auto split: if_splits)

text \<open>Backtracking misses nothing: if some way to match lets the continuation succeed, so does the search.\<close>

lemma rmatch_complete:
  "\<lbrakk>matches r s i j c c'; k j c' \<noteq> None\<rbrakk> \<Longrightarrow> rmatch r s i c k \<noteq> None"
proof (induction r arbitrary: i j c c' k)
  case (RStar p)
  then show ?case
    using takeWhile_drop_le [of i j s p] try_down_complete [of "j - i" _ "\<lambda>j. k j c" i] by auto
next
  case (RPlus p)
  then have "j - i \<le> length (takeWhile p (drop i s))" by (intro takeWhile_drop_le) auto
  moreover have "i < j" using RPlus by simp
  ultimately show ?case
    using RPlus try_down_complete [of "j - Suc i" _ "\<lambda>j. k j c" "Suc i"] by (auto split: nat.split)
next
  case (RStarLazy p)
  then show ?case
    using takeWhile_drop_le [of i j s p] try_up_complete [of "j - i" _ "\<lambda>j. k j c" i] by auto
next
  case (RPlusLazy p)
  then have "j - i \<le> length (takeWhile p (drop i s))" by (intro takeWhile_drop_le) auto
  moreover have "i < j" using RPlusLazy by simp
  ultimately show ?case
    using RPlusLazy try_up_complete [of "j - Suc i" _ "\<lambda>j. k j c" "Suc i"] by (auto split: nat.split)
next
  case (ROpt r)
  from ROpt.prems(1) consider "matches r s i j c c'" | "j = i" "c' = c" by auto
  then show ?case
  proof cases
    case 1
    from ROpt.IH [OF this, of k] ROpt.prems(2) show ?thesis by (auto split: option.splits)
  next
    case 2
    then show ?thesis using ROpt.prems(2) by (auto split: option.splits)
  qed
next
  case (RAlt r1 r2)
  from RAlt.prems(1) consider "matches r1 s i j c c'" | "matches r2 s i j c c'" by auto
  then show ?case
  proof cases
    case 1
    from RAlt.IH(1) [OF this, of k] RAlt.prems(2) show ?thesis by (auto split: option.splits)
  next
    case 2
    from RAlt.IH(2) [OF this, of k] RAlt.prems(2) show ?thesis by (auto split: option.splits)
  qed
next
  case (RSeq r1 r2)
  from RSeq.prems(1) obtain m d where m: "matches r1 s i m c d" "matches r2 s m j d c'" by auto
  have "rmatch r2 s m d k \<noteq> None" using RSeq.IH(2) [OF m(2), of k] RSeq.prems(2) by simp
  with RSeq.IH(1) [OF m(1), of "\<lambda>j c'. rmatch r2 s j c' k"] show ?case by simp
next
  case (RGroup n r)
  then obtain d where d: "matches r s i j c d" "c' = d(n \<mapsto> substring i j s)" by auto
  have "k j (d(n \<mapsto> substring i j s)) \<noteq> None" using RGroup.prems(2) unfolding d(2) .
  with RGroup.IH [OF d(1), of "\<lambda>j c'. k j (c'(n \<mapsto> substring i j s))"] show ?case by simp
qed auto

lemma matches_mono: "matches r s i j c c' \<Longrightarrow> i \<le> j"
proof (induction r arbitrary: i j c c')
  case (RSeq r1 r2)
  then show ?case by (meson matches.simps(6) order_trans)
qed auto

lemma matches_le_length: "matches r s i j c c' \<Longrightarrow> i \<le> length s \<Longrightarrow> j \<le> length s"
proof (induction r arbitrary: i j c c')
  case (RStar p)
  then have "\<not> length s < j"
    by (metis matches.simps(3) less_irrefl)
  then show ?case by simp
next
  case (RPlus p)
  then have "\<not> length s < j"
    by (metis matches.simps(4) less_irrefl order_less_le_trans less_imp_le)
  then show ?case by simp
next
  case (RStarLazy p)
  then have "\<not> length s < j"
    by (metis matches.simps(11) less_irrefl)
  then show ?case by simp
next
  case (RPlusLazy p)
  then have "\<not> length s < j"
    by (metis matches.simps(12) less_irrefl order_less_le_trans less_imp_le)
  then show ?case by simp
qed auto

lemma search_from_sound:
  "search_from r s i n = Some (a, b, c) \<Longrightarrow> i \<le> a \<and> a \<le> i + n \<and> matches r s a b Map.empty c"
proof (induction n arbitrary: i)
  case 0
  then show ?case by (auto dest: rmatch_sound)
next
  case (Suc n)
  show ?case
  proof (cases "rmatch r s i Map.empty (\<lambda>j c. Some (i, j, c))")
    case None
    with Suc show ?thesis by fastforce
  next
    case (Some m)
    with Suc.prems rmatch_sound [OF Some] show ?thesis by auto
  qed
qed

lemma regexp_match_sound:
  assumes "regexp_match r s = Some (a, b, c)"
  shows "a \<le> b" and "b \<le> length s" and "matches r s a b Map.empty c"
  using search_from_sound [of r s 0 "length s" a b c] assms matches_mono matches_le_length
  by (auto simp: regexp_match_def)

end
