(* ===== verification/Comparators.thy ===== *)
theory Comparators
  imports Prelude "HOL-Library.Multiset"
begin

text \<open>
  Comparison functions, \<^verbatim>\<open>Array.prototype.sort\<close> and the module
  \<^verbatim>\<open>source-map/binary-search\<close>. A comparison function returns a number whose sign orders its
  arguments; \<open>None\<close> is the number \<^verbatim>\<open>NaN\<close>, which subtraction of a missing field gives. The
  interface \<open>comparator\<close> is what the sort and the search rely on: on the values of its
  carrier the function never returns \<^verbatim>\<open>NaN\<close> and orders them totally.
\<close>

type_synonym number = "int option"
type_synonym 'a compare = "'a \<Rightarrow> 'a \<Rightarrow> number"

text \<open>\<^verbatim>\<open>if (cmp)\<close>: zero and \<^verbatim>\<open>NaN\<close> are false.\<close>

definition truthy_num :: "number \<Rightarrow> bool" where
  "truthy_num n \<longleftrightarrow> (case n of None \<Rightarrow> False | Some i \<Rightarrow> i \<noteq> 0)"

lemma truthy_num_simps [simp]:
  "\<not> truthy_num None"
  "truthy_num (Some i) \<longleftrightarrow> i \<noteq> 0"
  by (simp_all add: truthy_num_def)

lemma truthy_num_iff: "truthy_num n \<longleftrightarrow> (\<exists>i. n = Some i \<and> i \<noteq> 0)"
  by (cases n) simp_all

subsection \<open>Sorting\<close>

text \<open>
  The order \<^verbatim>\<open>sort\<close> imposes: a \<^verbatim>\<open>NaN\<close> counts as zero. The sort is the stable one.
\<close>

definition cmp_le :: "'a compare \<Rightarrow> 'a \<Rightarrow> 'a \<Rightarrow> bool" where
  "cmp_le cmp a b \<longleftrightarrow> (case cmp a b of None \<Rightarrow> True | Some i \<Rightarrow> i \<le> 0)"

fun insert_by :: "'a compare \<Rightarrow> 'a \<Rightarrow> 'a list \<Rightarrow> 'a list" where
  "insert_by cmp x [] = [x]"
| "insert_by cmp x (y # ys) = (if cmp_le cmp x y then x # y # ys else y # insert_by cmp x ys)"

fun js_sort :: "'a compare \<Rightarrow> 'a list \<Rightarrow> 'a list" where
  "js_sort cmp [] = []"
| "js_sort cmp (x # xs) = insert_by cmp x (js_sort cmp xs)"

lemma mset_insert_by [simp]: "mset (insert_by cmp x xs) = add_mset x (mset xs)"
  by (induction xs) auto

lemma mset_js_sort [simp]: "mset (js_sort cmp xs) = mset xs"
  by (induction xs) auto

lemma set_js_sort [simp]: "set (js_sort cmp xs) = set xs"
  by (metis mset_js_sort set_mset_mset)

lemma length_js_sort [simp]: "length (js_sort cmp xs) = length xs"
  by (metis mset_js_sort size_mset)

subsection \<open>The interface\<close>

locale comparator =
  fixes cmp :: "'a compare" and C :: "'a \<Rightarrow> bool"
  assumes never_nan: "\<lbrakk>C a; C b\<rbrakk> \<Longrightarrow> cmp a b \<noteq> None"
    and antisym: "\<lbrakk>C a; C b; cmp a b = Some i; cmp b a = Some j\<rbrakk> \<Longrightarrow> sgn j = - sgn i"
    and trans: "\<lbrakk>C a; C b; C c; cmp_le cmp a b; cmp_le cmp b c\<rbrakk> \<Longrightarrow> cmp_le cmp a c"
begin

lemma cmp_number:
  assumes "C a" and "C b"
  obtains i where "cmp a b = Some i"
  using never_nan [OF assms] by auto

lemma le_refl: "C a \<Longrightarrow> cmp_le cmp a a"
proof -
  assume "C a"
  then obtain i where "cmp a a = Some i" using cmp_number by blast
  moreover from antisym [OF \<open>C a\<close> \<open>C a\<close> this this] have "i = 0"
    by (simp add: sgn_if split: if_splits)
  ultimately show ?thesis by (simp add: cmp_le_def)
qed

lemma le_total: "\<lbrakk>C a; C b\<rbrakk> \<Longrightarrow> cmp_le cmp a b \<or> cmp_le cmp b a"
proof -
  assume C: "C a" "C b"
  obtain i where i: "cmp a b = Some i" using cmp_number [OF C] .
  obtain j where j: "cmp b a = Some j" using cmp_number [OF C(2,1)] .
  from antisym [OF C i j] i j show ?thesis
    by (auto simp: cmp_le_def sgn_if split: if_splits)
qed

lemma eq_iff_zero: "\<lbrakk>C a; C b\<rbrakk> \<Longrightarrow> cmp a b = Some 0 \<longleftrightarrow> cmp_le cmp a b \<and> cmp_le cmp b a"
proof -
  assume C: "C a" "C b"
  obtain i where i: "cmp a b = Some i" using cmp_number [OF C] .
  obtain j where j: "cmp b a = Some j" using cmp_number [OF C(2,1)] .
  from antisym [OF C i j] i j show ?thesis
    by (auto simp: cmp_le_def sgn_if split: if_splits)
qed

text \<open>Sorting gives a sorted permutation.\<close>

lemma sorted_insert_by:
  "\<lbrakk>C x; \<forall>y \<in> set xs. C y; sorted_wrt (cmp_le cmp) xs\<rbrakk>
    \<Longrightarrow> sorted_wrt (cmp_le cmp) (insert_by cmp x xs)"
proof (induction xs)
  case (Cons y ys)
  have set: "set (insert_by cmp x ys) = insert x (set ys)"
    by (metis mset_insert_by set_mset_add_mset_insert set_mset_mset)
  show ?case
  proof (cases "cmp_le cmp x y")
    case True
    then show ?thesis using Cons.prems trans [of x y] by auto
  next
    case False
    then have "cmp_le cmp y x" using le_total Cons.prems by auto
    with False Cons set show ?thesis by auto
  qed
qed simp

lemma sorted_js_sort: "\<forall>x \<in> set xs. C x \<Longrightarrow> sorted_wrt (cmp_le cmp) (js_sort cmp xs)"
  by (induction xs) (auto intro!: sorted_insert_by)

text \<open>A sorted list is left as it is.\<close>

lemma js_sort_sorted: "sorted_wrt (cmp_le cmp) xs \<Longrightarrow> js_sort cmp xs = xs"
proof (induction xs)
  case (Cons x xs)
  then show ?case by (cases xs) auto
qed simp

text \<open>
  Whatever sorting algorithm an engine uses, the result agrees with this one position by
  position up to elements the comparison cannot tell apart.
\<close>

lemma eq_trans: "\<lbrakk>C a; C b; C c; cmp a b = Some 0; cmp b c = Some 0\<rbrakk> \<Longrightarrow> cmp a c = Some 0"
  using trans [of a b c] trans [of c b a] by (simp add: eq_iff_zero)

lemma sorted_hd_replace:
  assumes "\<forall>z \<in> set (x # as @ y # bs). C z" and "sorted_wrt (cmp_le cmp) (x # as @ y # bs)"
    and "cmp_le cmp y x"
  shows "sorted_wrt (cmp_le cmp) (as @ x # bs)"
    and "list_all2 (\<lambda>a b. cmp a b = Some 0) (as @ y # bs) (as @ x # bs)"
proof -
  have "cmp_le cmp a x" if "a \<in> set as" for a
    using that assms trans [of a y x] by (auto simp: sorted_wrt_append)
  then show "sorted_wrt (cmp_le cmp) (as @ x # bs)"
    using assms(2) by (auto simp: sorted_wrt_append)
  have "cmp y x = Some 0" using assms eq_iff_zero by auto
  moreover have "list_all2 (\<lambda>a b. cmp a b = Some 0) zs zs" if "\<forall>z \<in> set zs. C z" for zs
    using that by (intro list.rel_refl_strong) (simp add: eq_iff_zero le_refl)
  ultimately show "list_all2 (\<lambda>a b. cmp a b = Some 0) (as @ y # bs) (as @ x # bs)"
    using assms(1) by (simp add: list_all2_appendI)
qed

lemma list_all2_eq_trans:
  assumes "list_all2 (\<lambda>a b. cmp a b = Some 0) xs ys" and "list_all2 (\<lambda>a b. cmp a b = Some 0) ys zs"
    and "\<forall>z \<in> set xs \<union> set ys \<union> set zs. C z"
  shows "list_all2 (\<lambda>a b. cmp a b = Some 0) xs zs"
  using assms
proof (induction xs ys arbitrary: zs rule: list_all2_induct)
  case (Cons x xs y ys)
  then obtain z zs' where "zs = z # zs'" by (cases zs) auto
  with Cons show ?case by (auto intro: eq_trans [of x y z])
qed simp

lemma sorted_perm_equiv:
  assumes "mset xs = mset ys" and "\<forall>x \<in> set xs. C x"
    and "sorted_wrt (cmp_le cmp) xs" and "sorted_wrt (cmp_le cmp) ys"
  shows "list_all2 (\<lambda>a b. cmp a b = Some 0) xs ys"
  using assms
proof (induction "length xs" arbitrary: xs ys)
  case 0
  then show ?case by simp
next
  case (Suc n)
  then obtain x xs' where xs: "xs = x # xs'" by (cases xs) auto
  have sets: "set ys = set xs" using Suc.prems(1) by (metis set_mset_mset)
  then obtain y ys' where ys: "ys = y # ys'" using xs by (cases ys) auto
  have C: "C x" "C y" "\<forall>z \<in> set ys. C z" using Suc.prems(2) sets xs ys by auto
  have "x \<in> set (y # ys')" "y \<in> set (x # xs')" using sets xs ys by auto
  then have yx: "cmp_le cmp y x" "cmp_le cmp x y"
    using Suc.prems(3,4) xs ys C le_refl by auto
  then have hd: "cmp x y = Some 0" using C eq_iff_zero by blast
  have "list_all2 (\<lambda>a b. cmp a b = Some 0) xs' ys'"
  proof (cases "x = y")
    case True
    then show ?thesis using Suc xs ys by simp
  next
    case False
    then have "y \<in> set xs'" using sets xs ys by auto
    then obtain as bs where xs': "xs' = as @ y # bs" by (meson split_list)
    have sorted': "sorted_wrt (cmp_le cmp) (as @ x # bs)"
      and rep: "list_all2 (\<lambda>a b. cmp a b = Some 0) xs' (as @ x # bs)"
      using sorted_hd_replace [of x as y bs] Suc.prems(2,3) xs xs' yx by auto
    have perm: "mset (as @ x # bs) = mset ys'" using Suc.prems(1) xs xs' ys False by simp
    have "list_all2 (\<lambda>a b. cmp a b = Some 0) (as @ x # bs) ys'"
      using Suc.hyps(2) Suc.prems(2,4) xs xs' ys sorted'
      by (intro Suc.hyps(1) perm) auto
    then show ?thesis
      using rep Suc.prems(2) C(3) xs xs' ys by (intro list_all2_eq_trans [OF rep]) auto
  qed
  with hd xs ys show ?case by simp
qed

end

text \<open>
  Comparison functions are built by trying one key after the other:
  \<^verbatim>\<open>cmp = f(a, b); if (cmp) { return cmp; } return g(a, b);\<close>
\<close>

definition then_cmp :: "'a compare \<Rightarrow> 'a compare \<Rightarrow> 'a compare" where
  "then_cmp f g a b = (if truthy_num (f a b) then f a b else g a b)"

lemma comparator_then:
  assumes "comparator f C" and "comparator g C"
  shows "comparator (then_cmp f g) C"
proof -
  have le: "cmp_le (then_cmp f g) a b \<longleftrightarrow>
      cmp_le f a b \<and> (cmp_le f b a \<longrightarrow> cmp_le g a b)" if C: "C a" "C b" for a b
  proof -
    obtain i j where ij: "f a b = Some i" "f b a = Some j"
      using C comparator.cmp_number [OF assms(1)] by metis
    have "sgn j = - sgn i" using comparator.antisym [OF assms(1) C ij] .
    with ij show ?thesis
      by (auto simp: cmp_le_def then_cmp_def sgn_if split: if_splits option.splits)
  qed
  show ?thesis
  proof
    fix a b assume "C a" "C b"
    then show "then_cmp f g a b \<noteq> None"
      using assms comparator.never_nan unfolding then_cmp_def by metis
  next
    fix a b i j
    assume C: "C a" "C b" and ij: "then_cmp f g a b = Some i" "then_cmp f g b a = Some j"
    obtain i' j' where f: "f a b = Some i'" "f b a = Some j'"
      using C comparator.cmp_number [OF assms(1)] by metis
    have "sgn j' = - sgn i'" using comparator.antisym [OF assms(1) C f] .
    then show "sgn j = - sgn i"
      using f ij comparator.antisym [OF assms(2) C, of i j]
      by (auto simp: then_cmp_def sgn_if split: if_splits)
  next
    fix a b c
    assume C: "C a" "C b" "C c" and l: "cmp_le (then_cmp f g) a b" "cmp_le (then_cmp f g) b c"
    then have f: "cmp_le f a c"
      using le comparator.trans [OF assms(1)] by meson
    have "cmp_le g a c" if "cmp_le f c a"
    proof -
      have "cmp_le f b a" "cmp_le f c b"
        using that C l le comparator.trans [OF assms(1)] by meson+
      then show ?thesis using C l le comparator.trans [OF assms(2)] by meson
    qed
    with f le C show "cmp_le (then_cmp f g) a c" by simp
  qed
qed

lemma comparator_diff: "comparator (\<lambda>a b. Some (f a - f b)) C"
  by unfold_locales (auto simp: cmp_le_def sgn_if)

end
