(* ===== verification/BinarySearch.thy ===== *)
theory BinarySearch
  imports Comparators
begin

text \<open>
  The module \<^verbatim>\<open>source-map/binary-search\<close>. The comparison function it is given compares a needle
  with an element; the array is sorted by a finer comparison (the interface
  \<open>needle_comparator\<close>), so several elements can compare equal to the needle.
\<close>

function recursiveSearch ::
    "int \<Rightarrow> int \<Rightarrow> 'n \<Rightarrow> 'a list \<Rightarrow> ('n \<Rightarrow> 'a \<Rightarrow> number) \<Rightarrow> 'a option" where
  "recursiveSearch aLow aHigh aNeedle aHaystack aCompare =
     (let mid = (aHigh - aLow) div 2 + aLow in
      case js_index aHaystack mid of
        None \<Rightarrow> None
      | Some x \<Rightarrow>
          let cmp = aCompare aNeedle x in
          if cmp = Some 0 then Some x
          else if (case cmp of None \<Rightarrow> False | Some i \<Rightarrow> i > 0) then
            if aHigh - mid > 1 then recursiveSearch mid aHigh aNeedle aHaystack aCompare
            else Some x
          else
            if mid - aLow > 1 then recursiveSearch aLow mid aNeedle aHaystack aCompare
            else if aLow < 0 then None else js_index aHaystack aLow)"
  by pat_completeness auto
termination
  by (relation "measure (\<lambda>(l, h, n, hay, c). nat (h - l))") auto

declare recursiveSearch.simps [simp del]

definition search :: "'n \<Rightarrow> 'a list \<Rightarrow> ('n \<Rightarrow> 'a \<Rightarrow> number) \<Rightarrow> 'a option" where
  "search aNeedle aHaystack aCompare =
     (if length aHaystack > 0
      then recursiveSearch (- 1) (int (length aHaystack)) aNeedle aHaystack aCompare
      else None)"

text \<open>
  What the search is for: an element equal to the needle if there is one, otherwise the last
  element before the needle, and nothing when every element is after the needle.
\<close>

definition search_result :: "('a \<Rightarrow> int) \<Rightarrow> 'a list \<Rightarrow> 'a option \<Rightarrow> bool" where
  "search_result s hay r \<longleftrightarrow>
     (case r of
        None \<Rightarrow> \<forall>x \<in> set hay. s x < 0
      | Some x \<Rightarrow> x \<in> set hay \<and>
          (s x = 0 \<or>
           s x > 0 \<and> (\<exists>i < length hay. hay ! i = x \<and> (\<forall>j. i < j \<longrightarrow> j < length hay \<longrightarrow> s (hay ! j) < 0))))"

text \<open>
  The loop invariant: everything up to \<open>l\<close> is before the needle, everything from \<open>h\<close> on is
  after it.
\<close>

definition window :: "('a \<Rightarrow> int) \<Rightarrow> 'a list \<Rightarrow> int \<Rightarrow> int \<Rightarrow> bool" where
  "window s hay l h \<longleftrightarrow> - 1 \<le> l \<and> l + 1 < h \<and> h \<le> int (length hay)
     \<and> (\<forall>i < length hay. int i \<le> l \<longrightarrow> s (hay ! i) > 0)
     \<and> (\<forall>i < length hay. h \<le> int i \<longrightarrow> s (hay ! i) < 0)"

lemma recursiveSearch_mid:
  assumes "\<forall>x \<in> set hay. cmp n x = Some (s x)" and "window s hay l h"
  obtains m where "l < int m" and "int m < h" and "m < length hay"
    and "recursiveSearch l h n hay cmp =
      (if s (hay ! m) = 0 then Some (hay ! m)
       else if s (hay ! m) > 0 then
         if h - int m > 1 then recursiveSearch (int m) h n hay cmp else Some (hay ! m)
       else if int m - l > 1 then recursiveSearch l (int m) n hay cmp
       else if l < 0 then None else js_index hay l)"
proof -
  define mid where "mid = (h - l) div 2 + l"
  have range: "l < mid" "mid < h" "0 \<le> mid" "mid < int (length hay)"
    using assms(2) by (auto simp: window_def mid_def)
  then obtain m where m: "mid = int m" "m < length hay" by (metis nat_0_le nat_less_iff)
  with assms(1) have "cmp n (hay ! m) = Some (s (hay ! m))" by auto
  then show thesis
    using m range that [of m] recursiveSearch.simps [of l h n hay cmp]
    by (simp add: Let_def flip: mid_def)
qed

lemma recursiveSearch_result:
  assumes "\<forall>x \<in> set hay. cmp n x = Some (s x)"
    and mono: "\<And>i j. \<lbrakk>i < j; j < length hay\<rbrakk> \<Longrightarrow>
      (s (hay ! j) > 0 \<longrightarrow> s (hay ! i) > 0) \<and> (s (hay ! i) < 0 \<longrightarrow> s (hay ! j) < 0)"
    and "window s hay l h"
  shows "search_result s hay (recursiveSearch l h n hay cmp)"
  using assms(3)
proof (induction "nat (h - l)" arbitrary: l h rule: less_induct)
  case less
  obtain m where range: "l < int m" "int m < h" and m: "m < length hay"
    and unfold: "recursiveSearch l h n hay cmp =
      (if s (hay ! m) = 0 then Some (hay ! m)
       else if s (hay ! m) > 0 then
         if h - int m > 1 then recursiveSearch (int m) h n hay cmp else Some (hay ! m)
       else if int m - l > 1 then recursiveSearch l (int m) n hay cmp
       else if l < 0 then None else js_index hay l)"
    using assms(1) less.prems by (rule recursiveSearch_mid)
  let ?x = "hay ! m"
  have x: "?x \<in> set hay" using m by simp
  have "- 1 \<le> l" using less.prems by (simp add: window_def)
  then consider (zero) "s ?x = 0" | (up) "s ?x > 0" "h - int m > 1" | (here) "s ?x > 0" "h = int m + 1"
    | (down) "s ?x < 0" "int m - l > 1" | (none) "s ?x < 0" "int m = l + 1" "l = - 1"
    | (low) "s ?x < 0" "int m = l + 1" "0 \<le> l"
    using range by linarith
  then show ?case
  proof cases
    case zero
    then show ?thesis using unfold x by (simp add: search_result_def)
  next
    case up
    have "window s hay (int m) h"
      using less.prems up range mono [of _ m] m by (auto simp: window_def order_le_less)
    then show ?thesis using less.hyps [of h "int m"] unfold up range by simp
  next
    case here
    have "\<forall>j. m < j \<longrightarrow> j < length hay \<longrightarrow> s (hay ! j) < 0"
      using less.prems here m by (auto simp: window_def)
    then show ?thesis using unfold here x m by (auto simp: search_result_def)
  next
    case down
    have "window s hay l (int m)"
      using less.prems down range mono [of m] m by (auto simp: window_def order_le_less)
    then show ?thesis using less.hyps [of "int m" l] unfold down range by simp
  next
    case none
    have "s (hay ! i) < 0" if "i < length hay" for i
      using that none mono [of m i] m by (cases "i = m") auto
    then show ?thesis using unfold none by (auto simp: search_result_def in_set_conv_nth)
  next
    case low
    then obtain k where k: "l = int k" "k < length hay" using range m by (metis nat_0_le nat_less_iff order_less_trans)
    have "s (hay ! j) < 0" if "k < j" "j < length hay" for j
      using that low mono [of m j] m k by (cases "j = m") auto
    moreover have "s (hay ! k) > 0" using less.prems k by (simp add: window_def)
    ultimately show ?thesis using unfold low k by (auto simp: search_result_def)
  qed
qed

locale needle_comparator = comparator cmp C
  for cmp :: "'a compare" and C :: "'a \<Rightarrow> bool" +
  fixes ncmp :: "'n \<Rightarrow> 'a \<Rightarrow> number" and N :: "'n \<Rightarrow> bool"
  assumes needle_number: "\<lbrakk>N n; C x\<rbrakk> \<Longrightarrow> ncmp n x \<noteq> None"
    and needle_mono: "\<lbrakk>N n; C x; C y; cmp_le cmp x y; ncmp n x = Some i; ncmp n y = Some j\<rbrakk>
      \<Longrightarrow> (j > 0 \<longrightarrow> i > 0) \<and> (i < 0 \<longrightarrow> j < 0)"
begin

lemma search_correct:
  assumes "N n" and "\<forall>x \<in> set hay. C x" and "sorted_wrt (cmp_le cmp) hay"
  shows "search_result (\<lambda>x. the (ncmp n x)) hay (search n hay ncmp)"
proof (cases "hay = []")
  case False
  let ?s = "\<lambda>x. the (ncmp n x)"
  have num: "\<forall>x \<in> set hay. ncmp n x = Some (?s x)"
    using needle_number assms by auto
  have "(?s (hay ! j) > 0 \<longrightarrow> ?s (hay ! i) > 0) \<and> (?s (hay ! i) < 0 \<longrightarrow> ?s (hay ! j) < 0)"
    if "i < j" "j < length hay" for i j
    using that num assms sorted_wrt_nth_less [OF assms(3) that]
    by (intro needle_mono [of n "hay ! i" "hay ! j"]) auto
  moreover have "window ?s hay (- 1) (int (length hay))"
    using False by (auto simp: window_def)
  ultimately show ?thesis
    using recursiveSearch_result [of hay ncmp n ?s, OF num] False by (auto simp: search_def)
qed (simp add: search_def search_result_def)

end

end
