(* ===== verification/SmUtil.thy ===== *)
theory SmUtil
  imports JsRegexp BinarySearch
begin

text \<open>
  The module \<^verbatim>\<open>source-map/util\<close>: argument lookup, URLs, paths relative to a source root, and
  the two orders on mappings. \<open>join\<close> and \<open>relative\<close> are called \<open>sm_join\<close> and
  \<open>sm_relative\<close> here, to keep them apart from the functions of the \<^verbatim>\<open>path\<close> module.
\<close>

subsection \<open>Definitions\<close>

text \<open>
  \<^verbatim>\<open>getArg(aArgs, aName, aDefaultValue)\<close>. The first argument is the property \<^verbatim>\<open>aArgs[aName]\<close>,
  \<open>None\<close> when it is missing; the default is \<open>None\<close> when the call has two arguments.
\<close>

definition getArg :: "'v option \<Rightarrow> string \<Rightarrow> 'v option \<Rightarrow> 'v res" where
  "getArg prop aName aDefaultValue =
     (case prop of
        Some v \<Rightarrow> Inr v
      | None \<Rightarrow>
          (case aDefaultValue of
             Some d \<Rightarrow> Inr d
           | None \<Rightarrow> Inl (Error (js ''\"'' @ js aName @ js ''\" is a required argument.''))))"

text \<open>A string that is missing, \<^verbatim>\<open>null\<close> or empty is false in a condition.\<close>

definition truthy :: "jsstring option \<Rightarrow> bool" where
  "truthy s \<longleftrightarrow> s \<noteq> None \<and> s \<noteq> Some []"

definition or_empty :: "jsstring option \<Rightarrow> jsstring" where
  "or_empty s = (case s of None \<Rightarrow> [] | Some t \<Rightarrow> t)"

record url =
  scheme :: "jsstring option"
  auth :: "jsstring option"
  host :: "jsstring option"
  port :: "jsstring option"
  upath :: "jsstring option"

definition urlRegexp :: regexp where
  "urlRegexp =
     RSeq (RGroup 1 (RPlus (\<lambda>c. is_word c \<or> c = 43 \<or> c = 45 \<or> c = 46)))
    (RSeq (RLit (js ''://''))
    (RSeq (ROpt (RGroup 2 (RSeq (RGroup 3 (RSeq (RPlus is_word) (RSeq (RLit (js '':'')) (RPlus is_word))))
                                (RLit (js ''@'')))))
    (RSeq (ROpt (RGroup 4 (RPlus (\<lambda>c. is_word c \<or> c = 46))))
    (RSeq (ROpt (RGroup 5 (RSeq (RLit (js '':'')) (RGroup 6 (RPlus is_digit)))))
          (ROpt (RGroup 7 (RPlus (\<lambda>c. \<not> is_space c))))))))"

definition dataUrlRegexp :: regexp where
  "dataUrlRegexp =
     RSeq RBegin
    (RSeq (RLit (js ''data:''))
    (RSeq (RPlus (\<lambda>c. \<not> is_line_terminator c))
    (RSeq (RLit (js '','')) (RPlus (\<lambda>c. \<not> is_line_terminator c)))))"

definition urlParse :: "jsstring \<Rightarrow> url option" where
  "urlParse aUrl =
     map_option (\<lambda>(i, j, c). \<lparr>scheme = c 1, auth = c 3, host = c 4, port = c 6, upath = c 7\<rparr>)
       (regexp_match urlRegexp aUrl)"

definition urlGenerate :: "url \<Rightarrow> jsstring" where
  "urlGenerate aParsedUrl =
     (let u = or_empty (scheme aParsedUrl) @ js ''://'';
          u = (if truthy (auth aParsedUrl) then u @ or_empty (auth aParsedUrl) @ js ''@'' else u);
          u = (if truthy (host aParsedUrl) then u @ or_empty (host aParsedUrl) else u);
          u = (if truthy (port aParsedUrl) then u @ js '':'' @ or_empty (port aParsedUrl) else u);
          u = (if truthy (upath aParsedUrl) then u @ or_empty (upath aParsedUrl) else u)
      in u)"

text \<open>\<^verbatim>\<open>s.replace(/\/$/, '')\<close>.\<close>

definition strip_slash :: "jsstring \<Rightarrow> jsstring" where
  "strip_slash s = (if s \<noteq> [] \<and> last s = 47 then butlast s else s)"

definition sm_join :: "jsstring \<Rightarrow> jsstring \<Rightarrow> jsstring" where
  "sm_join aRoot aPath =
     (if regexp_test urlRegexp aPath \<or> regexp_test dataUrlRegexp aPath then aPath
      else if charAt aPath 0 = js ''/'' \<and> urlParse aRoot \<noteq> None
      then urlGenerate ((the (urlParse aRoot))\<lparr>upath := Some aPath\<rparr>)
      else strip_slash aRoot @ js ''/'' @ aPath)"

definition toSetString :: "jsstring \<Rightarrow> jsstring" where
  "toSetString aStr = js ''$'' @ aStr"

definition fromSetString :: "jsstring \<Rightarrow> jsstring" where
  "fromSetString aStr = slice_from 1 aStr"

definition starts_with :: "jsstring \<Rightarrow> jsstring \<Rightarrow> bool" where
  "starts_with p s \<longleftrightarrow> take (length p) s = p"

definition sm_relative :: "jsstring \<Rightarrow> jsstring \<Rightarrow> jsstring" where
  "sm_relative aRoot aPath =
     (let aRoot = strip_slash aRoot;
          url = urlParse aRoot
      in if charAt aPath 0 = js ''/'' \<and> url \<noteq> None \<and> upath (the url) = Some (js ''/'')
         then slice_from 1 aPath
         else if starts_with (aRoot @ js ''/'') aPath then slice_from (length aRoot + 1) aPath
         else aPath)"

definition strcmp :: "jsstring option \<Rightarrow> jsstring option \<Rightarrow> int" where
  "strcmp aStr1 aStr2 =
     (let s1 = or_empty aStr1; s2 = or_empty aStr2
      in of_bool (str_less s2 s1) - of_bool (str_less s1 s2))"

text \<open>
  A mapping object. The original position of a mapping that has none is \<^verbatim>\<open>false\<close> when
  \<^verbatim>\<open>addMapping\<close> built the object, and the field is missing when \<^verbatim>\<open>_parseMappings\<close> did; \<^verbatim>\<open>null\<close>
  is what a lookup with a default gives.
\<close>

datatype jsnum = JUndef | JNull | JFalse | JNum int

record mapping =
  generatedLine :: int
  generatedColumn :: int
  originalLine :: jsnum
  originalColumn :: jsnum
  msource :: "jsstring option"
  mname :: "jsstring option"

text \<open>Subtraction converts its operands: \<^verbatim>\<open>false\<close> and \<^verbatim>\<open>null\<close> to 0, a missing value to \<^verbatim>\<open>NaN\<close>.\<close>

fun to_number :: "jsnum \<Rightarrow> number" where
  "to_number JUndef = None"
| "to_number JNull = Some 0"
| "to_number JFalse = Some 0"
| "to_number (JNum n) = Some n"

definition num_sub :: "jsnum \<Rightarrow> jsnum \<Rightarrow> number" where
  "num_sub a b =
     (case (to_number a, to_number b) of (Some x, Some y) \<Rightarrow> Some (x - y) | _ \<Rightarrow> None)"

definition compareByOriginalPositions :: "mapping \<Rightarrow> mapping \<Rightarrow> bool \<Rightarrow> number" where
  "compareByOriginalPositions mappingA mappingB onlyCompareOriginal =
     (let cmp = Some (strcmp (msource mappingA) (msource mappingB)) in
      if truthy_num cmp then cmp else
      let cmp = num_sub (originalLine mappingA) (originalLine mappingB) in
      if truthy_num cmp then cmp else
      let cmp = num_sub (originalColumn mappingA) (originalColumn mappingB) in
      if truthy_num cmp \<or> onlyCompareOriginal then cmp else
      let cmp = Some (strcmp (mname mappingA) (mname mappingB)) in
      if truthy_num cmp then cmp else
      let cmp = Some (generatedLine mappingA - generatedLine mappingB) in
      if truthy_num cmp then cmp else
      Some (generatedColumn mappingA - generatedColumn mappingB))"

definition compareByGeneratedPositions :: "mapping \<Rightarrow> mapping \<Rightarrow> bool \<Rightarrow> number" where
  "compareByGeneratedPositions mappingA mappingB onlyCompareGenerated =
     (let cmp = Some (generatedLine mappingA - generatedLine mappingB) in
      if truthy_num cmp then cmp else
      let cmp = Some (generatedColumn mappingA - generatedColumn mappingB) in
      if truthy_num cmp \<or> onlyCompareGenerated then cmp else
      let cmp = Some (strcmp (msource mappingA) (msource mappingB)) in
      if truthy_num cmp then cmp else
      let cmp = num_sub (originalLine mappingA) (originalLine mappingB) in
      if truthy_num cmp then cmp else
      let cmp = num_sub (originalColumn mappingA) (originalColumn mappingB) in
      if truthy_num cmp then cmp else
      Some (strcmp (mname mappingA) (mname mappingB)))"

subsection \<open>Strings\<close>

lemma truthy_iff: "truthy s \<longleftrightarrow> (\<exists>c cs. s = Some (c # cs))"
  by (cases s) (auto simp: truthy_def neq_Nil_conv)

lemma from_toSetString [simp]: "fromSetString (toSetString s) = s"
  by (simp add: fromSetString_def toSetString_def)

lemma toSetString_inj [simp]: "toSetString s = toSetString t \<longleftrightarrow> s = t"
  by (simp add: toSetString_def)

lemma strcmp_cases:
  "strcmp a b = (if or_empty a = or_empty b then 0
                 else if str_less (or_empty b) (or_empty a) then 1 else - 1)"
  using str_less_asym str_less_linear [of "or_empty a" "or_empty b"]
  by (auto simp: strcmp_def)

lemma strcmp_zero [simp]: "strcmp a b = 0 \<longleftrightarrow> or_empty a = or_empty b"
  by (simp add: strcmp_cases)

lemma str_less_negtrans: "str_less c a \<Longrightarrow> str_less c b \<or> str_less b a"
  using str_less_linear [of b c] str_less_trans [of b c a] by blast

lemma strcmp_le: "strcmp a b \<le> 0 \<longleftrightarrow> \<not> str_less (or_empty b) (or_empty a)"
  by (auto simp: strcmp_cases)

lemma comparator_strcmp: "comparator (\<lambda>a b. Some (strcmp (f a) (f b))) C"
proof
  fix a b i j
  assume "Some (strcmp (f a) (f b)) = Some i" "Some (strcmp (f b) (f a)) = Some j"
  then show "sgn j = - sgn i"
    using str_less_asym [of "or_empty (f a)" "or_empty (f b)"]
      str_less_linear [of "or_empty (f a)" "or_empty (f b)"]
    by (auto simp: strcmp_cases split: if_splits)
qed (use str_less_negtrans in \<open>auto simp: cmp_le_def strcmp_le\<close>)

subsection \<open>The two orders on mappings\<close>

text \<open>
  A mapping whose original position is a number or \<^verbatim>\<open>false\<close>: what \<^verbatim>\<open>addMapping\<close> stores. On
  these the comparison functions are total orders; a missing position gives \<^verbatim>\<open>NaN\<close>.
\<close>

definition comparable :: "mapping \<Rightarrow> bool" where
  "comparable m \<longleftrightarrow> originalLine m \<noteq> JUndef \<and> originalColumn m \<noteq> JUndef"

lemma comparator_num_sub:
  assumes "\<And>m. C m \<Longrightarrow> f m \<noteq> JUndef"
  shows "comparator (\<lambda>a b. num_sub (f a) (f b)) C"
proof -
  have num: "\<exists>n. to_number (f m) = Some n" if "C m" for m
    using assms [OF that] by (cases "f m") auto
  have sub: "num_sub (f a) (f b) = Some (the (to_number (f a)) - the (to_number (f b)))"
    if "C a" "C b" for a b
    using num [OF that(1)] num [OF that(2)] by (auto simp: num_sub_def)
  show ?thesis
    by unfold_locales (auto simp: sub cmp_le_def sgn_if)
qed

definition gen_order :: "mapping compare" where
  "gen_order a b = compareByGeneratedPositions a b False"

definition orig_order :: "mapping compare" where
  "orig_order a b = compareByOriginalPositions a b False"

lemma gen_order_chain:
  "gen_order =
     then_cmp (\<lambda>a b. Some (generatedLine a - generatedLine b))
    (then_cmp (\<lambda>a b. Some (generatedColumn a - generatedColumn b))
    (then_cmp (\<lambda>a b. Some (strcmp (msource a) (msource b)))
    (then_cmp (\<lambda>a b. num_sub (originalLine a) (originalLine b))
    (then_cmp (\<lambda>a b. num_sub (originalColumn a) (originalColumn b))
              (\<lambda>a b. Some (strcmp (mname a) (mname b)))))))"
  by (rule ext)+ (simp only: gen_order_def compareByGeneratedPositions_def then_cmp_def Let_def
      simp_thms)

lemma orig_order_chain:
  "orig_order =
     then_cmp (\<lambda>a b. Some (strcmp (msource a) (msource b)))
    (then_cmp (\<lambda>a b. num_sub (originalLine a) (originalLine b))
    (then_cmp (\<lambda>a b. num_sub (originalColumn a) (originalColumn b))
    (then_cmp (\<lambda>a b. Some (strcmp (mname a) (mname b)))
    (then_cmp (\<lambda>a b. Some (generatedLine a - generatedLine b))
              (\<lambda>a b. Some (generatedColumn a - generatedColumn b))))))"
  by (rule ext)+ (simp only: orig_order_def compareByOriginalPositions_def then_cmp_def Let_def
      simp_thms)

interpretation gen: comparator gen_order comparable
  unfolding gen_order_chain
  by (intro comparator_then comparator_diff comparator_strcmp comparator_num_sub)
    (simp_all add: comparable_def)

interpretation orig: comparator orig_order comparable
  unfolding orig_order_chain
  by (intro comparator_then comparator_diff comparator_strcmp comparator_num_sub)
    (simp_all add: comparable_def)

text \<open>
  The search passes \<^verbatim>\<open>true\<close>, which stops the comparison at the position: the sorted order
  refines it.
\<close>

lemma then_cmp_assoc: "then_cmp (then_cmp f g) h = then_cmp f (then_cmp g h)"
  by (rule ext)+ (simp add: then_cmp_def)

lemma needle_then:
  assumes f: "comparator f C" and g: "comparator g C"
  shows "needle_comparator (then_cmp f g) C f C"
proof (rule needle_comparator.intro [OF comparator_then [OF assms] needle_comparator_axioms.intro])
  fix n x assume "C n" "C x"
  then show "f n x \<noteq> None" by (rule comparator.never_nan [OF f])
next
  fix n x y i j
  assume C: "C n" "C x" "C y" and le: "cmp_le (then_cmp f g) x y"
    and ij: "f n x = Some i" "f n y = Some j"
  obtain k where "f x y = Some k" using comparator.cmp_number [OF f C(2,3)] .
  with le have xy: "cmp_le f x y" by (auto simp: cmp_le_def then_cmp_def split: if_splits)
  have neg: "0 < k \<longleftrightarrow> \<not> cmp_le f n z" "k < 0 \<longleftrightarrow> \<not> cmp_le f z n"
    if z: "C z" and k: "f n z = Some k" for z k
  proof -
    obtain l where "f z n = Some l" using comparator.cmp_number [OF f z C(1)] .
    with comparator.antisym [OF f C(1) z k] k show
      "0 < k \<longleftrightarrow> \<not> cmp_le f n z" "k < 0 \<longleftrightarrow> \<not> cmp_le f z n"
      by (auto simp: cmp_le_def sgn_if split: if_splits)
  qed
  show "(0 < j \<longrightarrow> 0 < i) \<and> (i < 0 \<longrightarrow> j < 0)"
    using neg [OF C(2) ij(1)] neg [OF C(3) ij(2)] xy C comparator.trans [OF f] by blast
qed

definition gen_needle :: "mapping compare" where
  "gen_needle a b = compareByGeneratedPositions a b True"

definition orig_needle :: "mapping compare" where
  "orig_needle a b = compareByOriginalPositions a b True"

lemma gen_needle_chain:
  "gen_needle = then_cmp (\<lambda>a b. Some (generatedLine a - generatedLine b))
                         (\<lambda>a b. Some (generatedColumn a - generatedColumn b))"
  by (rule ext)+ (simp only: gen_needle_def compareByGeneratedPositions_def then_cmp_def Let_def
      simp_thms if_True)

lemma orig_needle_chain:
  "orig_needle = then_cmp (\<lambda>a b. Some (strcmp (msource a) (msource b)))
    (then_cmp (\<lambda>a b. num_sub (originalLine a) (originalLine b))
              (\<lambda>a b. num_sub (originalColumn a) (originalColumn b)))"
  by (rule ext)+ (simp only: orig_needle_def compareByOriginalPositions_def then_cmp_def Let_def
      simp_thms if_True)

interpretation gen_search: needle_comparator gen_order comparable gen_needle comparable
proof -
  have "gen_order = then_cmp gen_needle
      (then_cmp (\<lambda>a b. Some (strcmp (msource a) (msource b)))
      (then_cmp (\<lambda>a b. num_sub (originalLine a) (originalLine b))
      (then_cmp (\<lambda>a b. num_sub (originalColumn a) (originalColumn b))
                (\<lambda>a b. Some (strcmp (mname a) (mname b))))))"
    by (simp add: gen_order_chain gen_needle_chain then_cmp_assoc)
  moreover have "needle_comparator (then_cmp gen_needle
      (then_cmp (\<lambda>a b. Some (strcmp (msource a) (msource b)))
      (then_cmp (\<lambda>a b. num_sub (originalLine a) (originalLine b))
      (then_cmp (\<lambda>a b. num_sub (originalColumn a) (originalColumn b))
                (\<lambda>a b. Some (strcmp (mname a) (mname b))))))) comparable gen_needle comparable"
    by (intro needle_then comparator_then comparator_strcmp comparator_num_sub)
      (simp_all add: comparable_def gen_needle_chain comparator_then comparator_diff)
  ultimately show "needle_comparator gen_order comparable gen_needle comparable" by simp
qed

interpretation orig_search: needle_comparator orig_order comparable orig_needle comparable
proof -
  have "orig_order = then_cmp orig_needle
      (then_cmp (\<lambda>a b. Some (strcmp (mname a) (mname b)))
      (then_cmp (\<lambda>a b. Some (generatedLine a - generatedLine b))
                (\<lambda>a b. Some (generatedColumn a - generatedColumn b))))"
    by (simp add: orig_order_chain orig_needle_chain then_cmp_assoc)
  moreover have "needle_comparator (then_cmp orig_needle
      (then_cmp (\<lambda>a b. Some (strcmp (mname a) (mname b)))
      (then_cmp (\<lambda>a b. Some (generatedLine a - generatedLine b))
                (\<lambda>a b. Some (generatedColumn a - generatedColumn b))))) comparable orig_needle comparable"
    unfolding orig_needle_chain
    by (intro needle_then comparator_then comparator_diff comparator_strcmp comparator_num_sub)
      (simp_all add: comparable_def)
  ultimately show "needle_comparator orig_order comparable orig_needle comparable" by simp
qed

subsection \<open>URLs and paths under a source root\<close>

lemma substring_Cons:
  assumes "i < length s" and "Suc i \<le> j"
  shows "substring i j s = s ! i # substring (Suc i) j s"
proof -
  obtain n where "j = Suc i + n" using assms(2) le_Suc_ex by blast
  then show ?thesis using assms(1) by (simp add: substring_def Cons_nth_drop_Suc [symmetric])
qed

lemma matches_RLit:
  "matches (RLit w) s i j c c' \<Longrightarrow> i \<le> j \<and> substring i j s = w \<and> c' = c"
proof (induction w arbitrary: i)
  case Nil
  then show ?case by (simp add: RLit_def)
next
  case (Cons x w)
  from Cons.prems have i: "i < length s" "s ! i = x" "matches (RLit w) s (Suc i) j c c'"
    by (auto simp: RLit_def)
  from Cons.IH [OF i(3)] i show ?case by (simp add: substring_Cons)
qed

lemma substring_nonempty: "\<lbrakk>i < j; i < length s\<rbrakk> \<Longrightarrow> substring i j s \<noteq> []"
  by (simp add: substring_def)

lemma matches_RPlus:
  assumes "matches (RPlus p) s i j c c'"
  shows "i < j" and "c' = c" and "substring i j s \<noteq> []"
proof -
  show "i < j" "c' = c" using assms by simp_all
  moreover have "i < length s" using assms by auto
  ultimately show "substring i j s \<noteq> []" by (simp add: substring_nonempty)
qed

text \<open>The pieces of the URL expression: what each captures and which part of the string it is.\<close>

lemma opt_piece:
  assumes "matches (ROpt (RGroup n (RPlus p))) s i j c c'"
  shows "(c' = c \<and> j = i) \<or> (c' = c(n \<mapsto> substring i j s) \<and> i < j \<and> substring i j s \<noteq> [])"
proof -
  consider "j = i" "c' = c" | d where "matches (RPlus p) s i j c d" "c' = d(n \<mapsto> substring i j s)"
    using assms by (auto simp del: matches.simps(4))
  then show ?thesis by cases (use matches_RPlus in \<open>blast+\<close>)
qed

lemma auth_piece:
  assumes "matches (ROpt (RGroup 2 (RSeq (RGroup 3 (RSeq (RPlus is_word) (RSeq (RLit (js '':''))
      (RPlus is_word)))) (RLit (js ''@''))))) s i j c c'"
  shows "(c' = c \<and> j = i) \<or> (\<exists>m. i < m \<and> m \<le> j \<and> substring i j s = substring i m s @ js ''@''
      \<and> substring i m s \<noteq> [] \<and> c' = c(3 \<mapsto> substring i m s, 2 \<mapsto> substring i j s))"
proof -
  let ?a = "RSeq (RPlus is_word) (RSeq (RLit (js '':'')) (RPlus is_word))"
  have inner: "d = c \<and> i < m \<and> substring i m s \<noteq> []" if "matches ?a s i m c d" for m d
  proof -
    from that obtain k e l f where
      k: "matches (RPlus is_word) s i k c e" "matches (RLit (js '':'')) s k l e f"
         "matches (RPlus is_word) s l m f d"
      by (auto simp del: matches.simps(4))
    note k1 = matches_RPlus [OF k(1)] and k2 = matches_RLit [OF k(2)] and k3 = matches_RPlus [OF k(3)]
    then have "i < m" "d = c" by auto
    moreover have "i < length s" using k1(3) by (auto simp: substring_def)
    ultimately show ?thesis by (simp add: substring_nonempty)
  qed
  define A where "A = ?a"
  from assms consider "j = i" "c' = c"
    | m d e where "matches A s i m c d" "matches (RLit (js ''@'')) s m j (d(3 \<mapsto> substring i m s)) e"
        "c' = e(2 \<mapsto> substring i j s)"
    unfolding A_def [symmetric] by auto
  then show ?thesis
  proof cases
    case (2 m d e)
    with inner [of m d] matches_RLit [OF 2(2)] substring_append [of i m j s] show ?thesis
      by (intro disjI2 exI [of _ m]) (auto simp: A_def simp del: substring_append)
  qed simp
qed

lemma port_piece:
  assumes "matches (ROpt (RGroup 5 (RSeq (RLit (js '':'')) (RGroup 6 (RPlus is_digit))))) s i j c c'"
  shows "(c' = c \<and> j = i) \<or> (\<exists>m. i \<le> m \<and> m < j \<and> substring i j s = js '':'' @ substring m j s
      \<and> substring m j s \<noteq> [] \<and> c' = c(6 \<mapsto> substring m j s, 5 \<mapsto> substring i j s))"
proof -
  consider "j = i" "c' = c"
    | m d e where "matches (RLit (js '':'')) s i m c d" "matches (RPlus is_digit) s m j d e"
        "c' = e(6 \<mapsto> substring m j s, 5 \<mapsto> substring i j s)"
    using assms by (auto simp del: matches.simps(4))
  then show ?thesis
  proof cases
    case (2 m d e)
    with matches_RLit [OF 2(1)] matches_RPlus [OF 2(2)] substring_append [of i m j s] show ?thesis
      by (intro disjI2 exI [of _ m]) (auto simp del: matches.simps(4) substring_append)
  qed simp
qed

lemma urlRegexp_pieces:
  assumes "matches urlRegexp s i j Map.empty c"
  shows "urlGenerate \<lparr>scheme = c 1, auth = c 3, host = c 4, port = c 6, upath = c 7\<rparr> = substring i j s"
proof -
  from assms obtain i1 c1 i2 c2 i3 c3 i4 c4 i5 c5 where
    m: "matches (RGroup 1 (RPlus (\<lambda>c. is_word c \<or> c = 43 \<or> c = 45 \<or> c = 46))) s i i1 Map.empty c1"
       "matches (RLit (js ''://'')) s i1 i2 c1 c2"
       "matches (ROpt (RGroup 2 (RSeq (RGroup 3 (RSeq (RPlus is_word) (RSeq (RLit (js '':''))
          (RPlus is_word)))) (RLit (js ''@''))))) s i2 i3 c2 c3"
       "matches (ROpt (RGroup 4 (RPlus (\<lambda>c. is_word c \<or> c = 46)))) s i3 i4 c3 c4"
       "matches (ROpt (RGroup 5 (RSeq (RLit (js '':'')) (RGroup 6 (RPlus is_digit))))) s i4 i5 c4 c5"
       "matches (ROpt (RGroup 7 (RPlus (\<lambda>c. \<not> is_space c)))) s i5 j c5 c"
    unfolding urlRegexp_def by (simp only: matches.simps(6)) blast
  have p1: "c1 = Map.empty(1 \<mapsto> substring i i1 s)" "i < i1"
    using m(1) by auto
  note p2 = matches_RLit [OF m(2)]
  note p3 = auth_piece [OF m(3)] and p4 = opt_piece [OF m(4)] and p5 = port_piece [OF m(5)]
    and p6 = opt_piece [OF m(6)]
  have le: "i2 \<le> i3" "i3 \<le> i4" "i4 \<le> i5" "i5 \<le> j" using p3 p4 p5 p6 by auto
  have auth: "(if truthy (c3 3) then or_empty (c3 3) @ js ''@'' else []) = substring i2 i3 s"
    using p3 p1 p2 by (auto simp: truthy_def or_empty_def)
  have host: "(if truthy (c4 4) then or_empty (c4 4) else []) = substring i3 i4 s"
    using p4 p3 p1 p2 by (auto simp: truthy_def or_empty_def)
  have port: "(if truthy (c5 6) then js '':'' @ or_empty (c5 6) else []) = substring i4 i5 s"
    using p5 p4 p3 p1 p2 by (auto simp: truthy_def or_empty_def)
  have path: "(if truthy (c 7) then or_empty (c 7) else []) = substring i5 j s"
    using p6 p5 p4 p3 p1 p2 by (auto simp: truthy_def or_empty_def)
  have keep: "c 1 = Some (substring i i1 s)" "c 3 = c3 3" "c 4 = c4 4" "c 6 = c5 6"
    using p6 p5 p4 p3 p1 p2 by auto
  have "urlGenerate \<lparr>scheme = c 1, auth = c 3, host = c 4, port = c 6, upath = c 7\<rparr>
      = substring i i1 s @ substring i1 i2 s @ substring i2 i3 s @ substring i3 i4 s
        @ substring i4 i5 s @ substring i5 j s"
    unfolding auth [symmetric] host [symmetric] port [symmetric] path [symmetric]
    using p2 by (simp add: urlGenerate_def Let_def keep keep [simplified] or_empty_def)
  also have "\<dots> = substring i j s" using le p1(2) conjunct1 [OF p2] by simp
  finally show ?thesis .
qed

lemma urlGenerate_urlParse:
  assumes "urlParse u = Some p"
  obtains i j where "i \<le> j" and "j \<le> length u" and "urlGenerate p = substring i j u"
proof -
  from assms obtain i j c where m: "regexp_match urlRegexp u = Some (i, j, c)"
    and p: "p = \<lparr>scheme = c 1, auth = c 3, host = c 4, port = c 6, upath = c 7\<rparr>"
    by (auto simp: urlParse_def)
  from regexp_match_sound [OF m] urlRegexp_pieces p that show thesis by blast
qed

lemma relative_join:
  assumes "\<not> regexp_test urlRegexp p" and "\<not> regexp_test dataUrlRegexp p"
    and "charAt p 0 \<noteq> js ''/''" and "charAt root 0 \<noteq> js ''/''"
  shows "sm_relative root (sm_join root p) = p"
proof -
  let ?r = "strip_slash root"
  have join: "sm_join root p = ?r @ js ''/'' @ p"
    using assms by (simp add: sm_join_def)
  show ?thesis
  proof (cases "?r = []")
    case True
    then have "urlParse ?r = None"
      by (simp add: urlParse_def urlRegexp_def regexp_match_def)
    with True show ?thesis
      by (simp add: join sm_relative_def Let_def starts_with_def)
  next
    case False
    then have "charAt (?r @ js ''/'' @ p) 0 = charAt root 0"
      by (cases root) (auto simp: charAt_def strip_slash_def nth_append nth_butlast split: if_splits)
    with assms(4) show ?thesis
      by (simp add: join sm_relative_def Let_def starts_with_def)
  qed
qed

subsection \<open>Properties\<close>

lemma num_sub_zero: "num_sub a b = Some 0 \<Longrightarrow> to_number a = to_number b"
  by (auto simp: num_sub_def split: option.splits)

lemma gen_order_zero:
  assumes "gen_order a b = Some 0" and "comparable a" and "comparable b"
  shows "generatedLine a = generatedLine b \<and> generatedColumn a = generatedColumn b
    \<and> or_empty (msource a) = or_empty (msource b)
    \<and> to_number (originalLine a) = to_number (originalLine b)
    \<and> to_number (originalColumn a) = to_number (originalColumn b)
    \<and> or_empty (mname a) = or_empty (mname b)"
proof -
  have num: "n \<noteq> JUndef \<Longrightarrow> \<exists>i. to_number n = Some i" for n by (cases n) auto
  have "num_sub (originalLine a) (originalLine b) \<noteq> None"
    "num_sub (originalColumn a) (originalColumn b) \<noteq> None"
    using assms(2,3) num [of "originalLine a"] num [of "originalLine b"]
      num [of "originalColumn a"] num [of "originalColumn b"]
    by (auto simp: comparable_def num_sub_def)
  then show ?thesis
    using assms(1) num_sub_zero [of "originalLine a" "originalLine b"]
      num_sub_zero [of "originalColumn a" "originalColumn b"]
    by (auto simp: gen_order_chain then_cmp_def truthy_num_iff split: if_splits)
qed


definition demo_mapping :: "int \<Rightarrow> int \<Rightarrow> mapping" where
  "demo_mapping l c = \<lparr>generatedLine = l, generatedColumn = c, originalLine = JNum l,
     originalColumn = JNum c, msource = Some (js ''a.js''), mname = None\<rparr>"


text \<open>
  Parsing a URL loses nothing of the part that matched: generating the parsed URL gives back
  that part of the string.
\<close>

theorem url_roundtrip:
  assumes "urlParse u = Some p"
  shows "\<exists>i j. i \<le> j \<and> j \<le> length u \<and> urlGenerate p = substring i j u"
  using urlGenerate_urlParse [OF assms] by blast

theorem url_roundtrip_witness:
  "\<exists>p i j. urlParse (js ''a://b'') = Some p \<and> i \<le> j \<and> j \<le> length (js ''a://b'')
     \<and> urlGenerate p = substring i j (js ''a://b'')"
proof -
  have "urlParse (js ''a://b'') \<noteq> None" by code_simp
  then obtain p where p: "urlParse (js ''a://b'') = Some p" by blast
  from url_roundtrip [OF p] p show ?thesis by blast
qed

text \<open>
  C30: a source path that was joined to a source root is recovered from it, when it is not itself
  absolute (a URL, a data URL or a path from \<^verbatim>\<open>/\<close>) and the root is not a path from \<^verbatim>\<open>/\<close>.
\<close>

theorem relative_undoes_join:
  assumes "\<not> regexp_test urlRegexp p" and "\<not> regexp_test dataUrlRegexp p"
    and "charAt p 0 \<noteq> js ''/''" and "charAt root 0 \<noteq> js ''/''"
  shows "sm_relative root (sm_join root p) = p"
  using assms by (rule relative_join)

theorem relative_undoes_join_witness:
  "sm_relative (js ''http://h/src/'') (sm_join (js ''http://h/src/'') (js ''a.js'')) = js ''a.js''"
  by (rule relative_undoes_join) code_simp+

end
