(* ===== verification/ArraySets.thy ===== *)
theory ArraySets
  imports SmUtil
begin

text \<open>
  The module \<^verbatim>\<open>source-map/array-set\<close>: an array of strings with a table from each string to its
  first index. Its clients, the generator and the consumer, only rely on the interface
  \<open>indexed_set\<close>.
\<close>

subsection \<open>Definitions\<close>

record array_set =
  as_array :: "jsstring list"
  as_set :: "jsstring \<rightharpoonup> nat"

definition ArraySet_new :: array_set where
  "ArraySet_new = \<lparr>as_array = [], as_set = Map.empty\<rparr>"

definition ArraySet_has :: "array_set \<Rightarrow> jsstring \<Rightarrow> bool" where
  "ArraySet_has this aStr \<longleftrightarrow> toSetString aStr \<in> dom (as_set this)"

definition ArraySet_add :: "jsstring \<Rightarrow> bool \<Rightarrow> array_set \<Rightarrow> array_set" where
  "ArraySet_add aStr aAllowDuplicates this =
     (let isDuplicate = ArraySet_has this aStr;
          idx = length (as_array this);
          this = (if \<not> isDuplicate \<or> aAllowDuplicates
                  then this\<lparr>as_array := as_array this @ [aStr]\<rparr> else this)
      in if \<not> isDuplicate then this\<lparr>as_set := (as_set this)(toSetString aStr \<mapsto> idx)\<rparr> else this)"

definition ArraySet_fromArray :: "jsstring list \<Rightarrow> bool \<Rightarrow> array_set" where
  "ArraySet_fromArray aArray aAllowDuplicates =
     fold (\<lambda>s set. ArraySet_add s aAllowDuplicates set) aArray ArraySet_new"

definition ArraySet_indexOf :: "array_set \<Rightarrow> jsstring \<Rightarrow> int res" where
  "ArraySet_indexOf this aStr =
     (if ArraySet_has this aStr then Inr (int (the (as_set this (toSetString aStr))))
      else Inl (Error (js ''\"'' @ aStr @ js ''\" is not in the set.'')))"

definition ArraySet_at :: "array_set \<Rightarrow> int \<Rightarrow> jsstring res" where
  "ArraySet_at this aIdx =
     (if aIdx \<ge> 0 \<and> aIdx < int (length (as_array this)) then Inr (as_array this ! nat aIdx)
      else Inl (Error (js ''No element indexed by '' @ js_of_int aIdx)))"

definition ArraySet_toArray :: "array_set \<Rightarrow> jsstring list" where
  "ArraySet_toArray this = as_array this"

subsection \<open>The interface\<close>

locale indexed_set =
  fixes empty :: "'s" and add :: "'k \<Rightarrow> bool \<Rightarrow> 's \<Rightarrow> 's" and has :: "'s \<Rightarrow> 'k \<Rightarrow> bool"
    and indexOf :: "'s \<Rightarrow> 'k \<Rightarrow> int res" and at :: "'s \<Rightarrow> int \<Rightarrow> 'k res"
    and toArray :: "'s \<Rightarrow> 'k list" and inv :: "'s \<Rightarrow> bool"
  assumes inv_empty: "inv empty" and toArray_empty: "toArray empty = []"
    and inv_add: "inv s \<Longrightarrow> inv (add x d s)"
    and toArray_add: "inv s \<Longrightarrow>
      toArray (add x d s) = (if x \<in> set (toArray s) \<and> \<not> d then toArray s else toArray s @ [x])"
    and has_iff: "inv s \<Longrightarrow> has s x \<longleftrightarrow> x \<in> set (toArray s)"
    and indexOf_iff: "inv s \<Longrightarrow> indexOf s x = Inr i \<longleftrightarrow> (\<exists>n. index_of (toArray s) x = Some n \<and> i = int n)"
    and at_iff: "inv s \<Longrightarrow> at s i = Inr x \<longleftrightarrow> js_index (toArray s) i = Some x"
begin

lemma indexOf_total: "\<lbrakk>inv s; x \<in> set (toArray s)\<rbrakk> \<Longrightarrow> \<exists>i. indexOf s x = Inr i"
  using index_of_None [of "toArray s" x] by (auto simp: indexOf_iff)

lemma at_indexOf: "\<lbrakk>inv s; indexOf s x = Inr i\<rbrakk> \<Longrightarrow> at s i = Inr x"
  by (auto simp: indexOf_iff at_iff dest: index_of_Some)

lemma indexOf_bounds: "\<lbrakk>inv s; indexOf s x = Inr i\<rbrakk> \<Longrightarrow> 0 \<le> i \<and> i < int (length (toArray s))"
  by (auto simp: indexOf_iff dest: index_of_Some)

lemma at_array: "\<lbrakk>inv s; inv t; toArray s = toArray t\<rbrakk> \<Longrightarrow> at s i = Inr x \<longleftrightarrow> at t i = Inr x"
  by (simp add: at_iff)

lemma indexOf_stable:
  assumes "inv s" and "indexOf s x = Inr i"
  shows "indexOf (add y d s) x = Inr i"
  using assms by (auto simp: indexOf_iff inv_add toArray_add index_of_append)

lemma indexOf_stable_fold:
  "\<lbrakk>inv s; indexOf s x = Inr i\<rbrakk> \<Longrightarrow> indexOf (fold (\<lambda>y. add y d) ys s) x = Inr i"
  by (induction ys arbitrary: s) (simp_all add: inv_add indexOf_stable)

lemma inv_fold: "inv s \<Longrightarrow> inv (fold (\<lambda>x. add x d) xs s)"
  by (induction xs arbitrary: s) (auto simp: inv_add)

lemma toArray_fold_duplicates: "inv s \<Longrightarrow> toArray (fold (\<lambda>x. add x True) xs s) = toArray s @ xs"
  by (induction xs arbitrary: s) (auto simp: inv_add toArray_add)

lemma distinct_fold:
  "\<lbrakk>inv s; distinct (toArray s)\<rbrakk> \<Longrightarrow> distinct (toArray (fold (\<lambda>x. add x False) xs s))"
  by (induction xs arbitrary: s) (auto simp: inv_add toArray_add)

lemma toArray_fold_unique:
  assumes "inv s" and "toArray s = []"
  shows "toArray (fold (\<lambda>x. add x False) xs s) = rev (remdups (rev xs))"
proof (induction xs rule: rev_induct)
  case (snoc x xs)
  then have "set (toArray (fold (\<lambda>x. add x False) xs s)) = set xs" by simp
  then show ?case using snoc assms(1) by (auto simp: inv_fold toArray_add)
qed (simp add: assms(2))

lemma set_fold:
  "inv s \<Longrightarrow> set (toArray (fold (\<lambda>x. add x d) xs s)) = set (toArray s) \<union> set xs"
  by (induction xs arbitrary: s) (auto simp: inv_add toArray_add)

end

subsection \<open>The array set implements it\<close>

text \<open>The table holds, for each member, its first index in the array, and nothing else.\<close>

definition as_inv :: "array_set \<Rightarrow> bool" where
  "as_inv this \<longleftrightarrow> (\<forall>s. as_set this (toSetString s) = index_of (as_array this) s)
     \<and> dom (as_set this) \<subseteq> range toSetString"

lemma as_inv_has: "as_inv this \<Longrightarrow> ArraySet_has this s \<longleftrightarrow> s \<in> set (as_array this)"
  using index_of_None [of "as_array this" s] by (auto simp: as_inv_def ArraySet_has_def dom_def)

lemma as_inv_add:
  assumes "as_inv this"
  shows "as_inv (ArraySet_add s d this)"
proof -
  have idx: "as_set this (toSetString t) = index_of (as_array this) t" for t
    using assms by (simp add: as_inv_def)
  have dom: "dom (as_set this) \<subseteq> range toSetString" using assms by (simp add: as_inv_def)
  show ?thesis
  proof (cases "s \<in> set (as_array this)")
    case True
    then obtain n where n: "index_of (as_array this) s = Some n"
      using index_of_None [of "as_array this" s] by auto
    have "index_of (as_array this @ [s]) t = index_of (as_array this) t" for t
      using n by (auto simp: index_of_append split: option.splits)
    then show ?thesis
      using True assms idx dom by (simp add: ArraySet_add_def as_inv_has as_inv_def Let_def)
  next
    case False
    then have "index_of (as_array this) s = None" by (simp add: index_of_None)
    then have "((as_set this)(toSetString s \<mapsto> length (as_array this))) (toSetString t)
        = index_of (as_array this @ [s]) t" for t
      using idx [of t] by (auto simp: index_of_append split: option.splits)
    then show ?thesis
      using False assms dom by (simp add: ArraySet_add_def as_inv_has as_inv_def Let_def)
  qed
qed

interpretation aset: indexed_set ArraySet_new ArraySet_add ArraySet_has ArraySet_indexOf
  ArraySet_at ArraySet_toArray as_inv
proof
  show "as_inv ArraySet_new" by (simp add: as_inv_def ArraySet_new_def)
  show "ArraySet_toArray ArraySet_new = []" by (simp add: ArraySet_new_def ArraySet_toArray_def)
next
  fix s x d
  assume inv: "as_inv s"
  show "as_inv (ArraySet_add x d s)" using inv by (rule as_inv_add)
  show "ArraySet_toArray (ArraySet_add x d s) =
      (if x \<in> set (ArraySet_toArray s) \<and> \<not> d then ArraySet_toArray s else ArraySet_toArray s @ [x])"
    using inv by (auto simp: ArraySet_add_def ArraySet_toArray_def as_inv_has Let_def)
  show "ArraySet_has s x \<longleftrightarrow> x \<in> set (ArraySet_toArray s)"
    using inv by (simp add: as_inv_has ArraySet_toArray_def)
next
  fix s x i
  assume inv: "as_inv s"
  then show "ArraySet_indexOf s x = Inr i \<longleftrightarrow>
      (\<exists>n. index_of (ArraySet_toArray s) x = Some n \<and> i = int n)"
    by (auto simp: ArraySet_indexOf_def ArraySet_toArray_def ArraySet_has_def as_inv_def dom_def)
  show "ArraySet_at s i = Inr x \<longleftrightarrow> js_index (ArraySet_toArray s) i = Some x"
    by (simp add: ArraySet_at_def ArraySet_toArray_def js_index_def)
qed

lemma toArray_fromArray: "ArraySet_toArray (ArraySet_fromArray xs True) = xs"
  unfolding ArraySet_fromArray_def
  by (simp add: aset.toArray_fold_duplicates aset.inv_empty aset.toArray_empty)

lemma inv_fromArray: "as_inv (ArraySet_fromArray xs d)"
  unfolding ArraySet_fromArray_def by (simp add: aset.inv_fold aset.inv_empty)

subsection \<open>Properties\<close>

text \<open>
  C31: an array set built without duplicates holds the strings of the array in the order in which
  they first occur, and the index of a string is its place there.
\<close>

theorem fromArray_no_duplicates:
  "ArraySet_toArray (ArraySet_fromArray xs False) = rev (remdups (rev xs))
   \<and> (\<forall>x i. ArraySet_indexOf (ArraySet_fromArray xs False) x = Inr (int i) \<longleftrightarrow>
        i < length (remdups (rev xs)) \<and> rev (remdups (rev xs)) ! i = x)"
proof -
  let ?s = "ArraySet_fromArray xs False" and ?a = "rev (remdups (rev xs))"
  have a: "ArraySet_toArray ?s = ?a"
    unfolding ArraySet_fromArray_def by (rule aset.toArray_fold_unique [OF aset.inv_empty aset.toArray_empty])
  have "index_of ?a x = Some i \<longleftrightarrow> i < length ?a \<and> ?a ! i = x" for x i
    using index_of_Some index_of_nth [of ?a i] by fastforce
  then show ?thesis using a aset.indexOf_iff [OF inv_fromArray, of xs False] by simp
qed

text \<open>
  For every string added, with or without duplicates, the lookups are inverse to each other,
  and an index once given out never changes.
\<close>

theorem index_roundtrip:
  assumes "x \<in> set xs"
  shows "\<exists>i. ArraySet_indexOf (ArraySet_fromArray xs d) x = Inr i
    \<and> ArraySet_at (ArraySet_fromArray xs d) i = Inr x
    \<and> ArraySet_indexOf (ArraySet_fromArray (xs @ ys) d) x = Inr i"
proof -
  let ?s = "ArraySet_fromArray xs d"
  have "x \<in> set (ArraySet_toArray ?s)"
    unfolding ArraySet_fromArray_def using assms by (simp add: aset.set_fold aset.inv_empty)
  then obtain i where i: "ArraySet_indexOf ?s x = Inr i"
    using aset.indexOf_total [OF inv_fromArray] by blast
  have "ArraySet_fromArray (xs @ ys) d = fold (\<lambda>y. ArraySet_add y d) ys ?s"
    by (simp add: ArraySet_fromArray_def)
  then show ?thesis
    using i aset.at_indexOf [OF inv_fromArray i] aset.indexOf_stable_fold [OF inv_fromArray i] by simp
qed

theorem index_roundtrip_witness:
  "\<exists>i. ArraySet_indexOf (ArraySet_fromArray [js ''a'', js ''b'', js ''a''] False) (js ''b'') = Inr i
    \<and> ArraySet_at (ArraySet_fromArray [js ''a'', js ''b'', js ''a''] False) i = Inr (js ''b'')
    \<and> ArraySet_indexOf (ArraySet_fromArray ([js ''a'', js ''b'', js ''a''] @ [js ''c'']) False) (js ''b'') = Inr i"
  using index_roundtrip [of "js ''b''" "[js ''a'', js ''b'', js ''a'']" False "[js ''c'']"] by simp

end
