(* ===== verification/Base64Vlq.thy ===== *)
theory Base64Vlq
  imports Prelude
begin

text \<open>
  The modules \<^verbatim>\<open>source-map/base64\<close> and \<^verbatim>\<open>source-map/base64-vlq\<close>: one base 64 digit, and
  the variable length quantities a source map is written in. The digit codec is the interface
  \<open>digit_codec\<close>; the loops of the quantity codec are verified against it and then used at
  the module's own digits.
\<close>

subsection \<open>base64: a single digit\<close>

definition base64_alphabet :: jsstring where
  "base64_alphabet =
     js ''ABCDEFGHIJKLMNOPQRSTUVWXYZabcdefghijklmnopqrstuvwxyz0123456789+/''"

text \<open>The two tables the module fills when it is loaded.\<close>

definition intToCharMap :: "int \<Rightarrow> jsstring option" where
  "intToCharMap i =
     (if 0 \<le> i \<and> nat i < length base64_alphabet then Some [base64_alphabet ! nat i] else None)"

definition charToIntMap :: "jsstring \<Rightarrow> int option" where
  "charToIntMap s =
     (case s of [c] \<Rightarrow> map_option int (index_of base64_alphabet c) | _ \<Rightarrow> None)"

definition base64_encode :: "int \<Rightarrow> jsstring res" where
  "base64_encode aNumber =
     (case intToCharMap aNumber of
        Some ch \<Rightarrow> Inr ch
      | None \<Rightarrow> Inl (TypeError (js ''Must be between 0 and 63: '' @ js_of_int aNumber)))"

definition base64_decode :: "jsstring \<Rightarrow> int res" where
  "base64_decode aChar =
     (case charToIntMap aChar of
        Some i \<Rightarrow> Inr i
      | None \<Rightarrow> Inl (TypeError (js ''Not a valid base 64 digit: '' @ aChar)))"

subsection \<open>base64-vlq\<close>

definition VLQ_BASE_SHIFT :: nat where
  "VLQ_BASE_SHIFT = 5"

definition VLQ_BASE :: int where
  "VLQ_BASE = js_shl 1 VLQ_BASE_SHIFT"

definition VLQ_BASE_MASK :: int where
  "VLQ_BASE_MASK = VLQ_BASE - 1"

definition VLQ_CONTINUATION_BIT :: int where
  "VLQ_CONTINUATION_BIT = VLQ_BASE"

definition toVLQSigned :: "int \<Rightarrow> int" where
  "toVLQSigned aValue = (if aValue < 0 then js_shl (- aValue) 1 + 1 else js_shl aValue 1 + 0)"

definition fromVLQSigned :: "int \<Rightarrow> int" where
  "fromVLQSigned aValue =
     (let isNegative = (js_and aValue 1 = 1); shifted = js_sar aValue 1
      in if isNegative then - shifted else shifted)"

text \<open>
  The \<^verbatim>\<open>do ... while\<close> loops, over the imported digit codec. The encoder's loop variable is the
  remaining quantity; the decoder's is the unread rest of the string.
\<close>

function encode_loop :: "(int \<Rightarrow> jsstring res) \<Rightarrow> int \<Rightarrow> jsstring \<Rightarrow> jsstring res" where
  "encode_loop enc vlq encoded =
     (let digit = js_and vlq VLQ_BASE_MASK;
          vlq' = js_shr vlq VLQ_BASE_SHIFT;
          digit' = (if vlq' > 0 then js_or digit VLQ_CONTINUATION_BIT else digit)
      in bindR (enc digit')
           (\<lambda>ch. if vlq' > 0 then encode_loop enc vlq' (encoded @ ch) else Inr (encoded @ ch)))"
  by pat_completeness auto
termination
proof (relation "measure (\<lambda>(enc, vlq, encoded). nat (vlq mod 2 ^ 32))", goal_cases)
  case (2 enc vlq encoded x xa xb y)
  then have pos: "0 < js_shr vlq VLQ_BASE_SHIFT" by simp
  let ?u = "vlq mod 2 ^ 32"
  have eq: "js_shr vlq VLQ_BASE_SHIFT = ?u div 32"
    by (simp add: js_shr_eq VLQ_BASE_SHIFT_def)
  have bounds: "0 \<le> ?u" "?u < 2 ^ 32" by simp_all
  from pos eq have "32 \<le> ?u" by linarith
  then have "?u div 32 < ?u" by linarith
  moreover have "(?u div 32) mod 2 ^ 32 = ?u div 32"
    using bounds by (intro mod_pos_pos_trivial) linarith+
  ultimately have "nat ((?u div 32) mod 2 ^ 32) < nat ?u"
    using bounds by linarith
  with 2(2) eq show ?case by simp
qed simp

definition base64VLQ_encode :: "int \<Rightarrow> jsstring res" where
  "base64VLQ_encode aValue = encode_loop base64_encode (toVLQSigned aValue) []"

fun decode_loop :: "(jsstring \<Rightarrow> int res) \<Rightarrow> jsstring \<Rightarrow> int \<Rightarrow> nat \<Rightarrow> (int \<times> jsstring) res" where
  "decode_loop dec [] result shift =
     Inl (Error (js ''Expected more digits in base 64 VLQ value.''))"
| "decode_loop dec (c # rest) result shift =
     bindR (dec [c])
       (\<lambda>digit.
          let continuation = (js_and digit VLQ_CONTINUATION_BIT \<noteq> 0);
              digit' = js_and digit VLQ_BASE_MASK;
              result' = result + js_shl digit' shift
          in if continuation then decode_loop dec rest result' (shift + VLQ_BASE_SHIFT)
             else Inr (result', rest))"

definition base64VLQ_decode :: "jsstring \<Rightarrow> (int \<times> jsstring) res" where
  "base64VLQ_decode aStr =
     mapR (\<lambda>(result, rest). (fromVLQSigned result, rest)) (decode_loop base64_decode aStr 0 0)"

declare encode_loop.simps [simp del]

lemmas VLQ_defs = VLQ_BASE_SHIFT_def VLQ_BASE_def VLQ_BASE_MASK_def VLQ_CONTINUATION_BIT_def

lemma VLQ_constants [simp]:
  "VLQ_BASE_SHIFT = 5" "VLQ_BASE = 32" "VLQ_BASE_MASK = 31" "VLQ_CONTINUATION_BIT = 32"
  by (simp_all add: VLQ_defs js_shl_def int32_def)

subsection \<open>The digit tables\<close>

lemma length_base64_alphabet [simp]: "length base64_alphabet = 64"
  by (simp add: base64_alphabet_def js_eval)

lemma distinct_base64_alphabet: "distinct base64_alphabet"
  by (simp add: base64_alphabet_def js_eval)

lemma base64_encode_digit:
  assumes "0 \<le> d" and "d < 64"
  shows "base64_encode d = Inr [base64_alphabet ! nat d]"
  using assms by (simp add: base64_encode_def intToCharMap_def nat_less_iff)

lemma base64_decode_digit:
  assumes "0 \<le> d" and "d < 64"
  shows "base64_decode [base64_alphabet ! nat d] = Inr d"
  using assms
  by (simp add: base64_decode_def charToIntMap_def index_of_nth distinct_base64_alphabet
      nat_less_iff)

text \<open>The bits of a digit: below 32 the continuation bit is clear, and setting it adds 32.\<close>

lemma vlq_digit_bits:
  assumes "0 \<le> d" and "d < 32"
  shows "js_or d 32 = d + 32" and "js_and (d + 32) 32 \<noteq> 0" and "js_and d 32 = 0"
    and "js_and (d + 32) 31 = d" and "js_and d 31 = d"
proof -
  have "d \<in> set (map int [0..<32])"
    using assms by (auto simp: image_iff intro!: bexI [of _ "nat d"])
  moreover have "\<forall>d \<in> set (map int [0..<32]). js_or d 32 = d + 32 \<and> js_and (d + 32) 32 \<noteq> 0
      \<and> js_and d 32 = 0"
    by (simp add: js_bit_defs upt_rec)
  ultimately show "js_or d 32 = d + 32" "js_and (d + 32) 32 \<noteq> 0" "js_and d 32 = 0"
    by blast+
  show "js_and (d + 32) 31 = d" "js_and d 31 = d"
    using assms js_and_mask [of 5 "d + 32"] js_and_mask [of 5 d] by simp_all
qed

lemma js_and_31 [simp]: "js_and v 31 = v mod 32"
  using js_and_mask [of 5 v] by simp

subsection \<open>The loops, over any digit codec\<close>

locale digit_codec =
  fixes enc :: "int \<Rightarrow> jsstring res" and dec :: "jsstring \<Rightarrow> int res"
  assumes enc_digit: "\<lbrakk>0 \<le> d; d < 64\<rbrakk> \<Longrightarrow> \<exists>c. enc d = Inr [c]"
    and dec_enc: "\<lbrakk>0 \<le> d; d < 64; enc d = Inr [c]\<rbrakk> \<Longrightarrow> dec [c] = Inr d"
begin

definition digits :: "jsstring \<Rightarrow> bool" where
  "digits w \<longleftrightarrow> (\<forall>c \<in> set w. \<exists>d. 0 \<le> d \<and> d < 64 \<and> enc d = Inr [c])"

lemma encode_loop_step:
  fixes v :: int
  defines "u \<equiv> v mod 2 ^ 32"
  obtains c where "enc (if 32 \<le> u then u mod 32 + 32 else u mod 32) = Inr [c]"
    and "encode_loop enc v acc =
           (if 32 \<le> u then encode_loop enc (u div 32) (acc @ [c]) else Inr (acc @ [c]))"
proof -
  let ?d = "if 32 \<le> u then u mod 32 + 32 else u mod 32"
  have u: "0 \<le> u" "u < 2 ^ 32" by (simp_all add: u_def)
  have vm: "v mod 32 = u mod 32" unfolding u_def by (simp add: mod_mod_cancel)
  have shr: "js_shr v 5 = u div 32" unfolding u_def by (simp add: js_shr_eq)
  have gt: "0 < u div 32 \<longleftrightarrow> 32 \<le> u" using u by linarith
  have "0 \<le> ?d" "?d < 64" using pos_mod_bound [of 32 u] by auto
  then obtain c where c: "enc ?d = Inr [c]" using enc_digit by blast
  have "encode_loop enc v acc =
      (if 32 \<le> u then encode_loop enc (u div 32) (acc @ [c]) else Inr (acc @ [c]))"
    using c by (cases "32 \<le> u")
      (simp_all add: encode_loop.simps [of enc v acc] Let_def vm shr gt vlq_digit_bits)
  with c that show thesis by blast
qed

lemma decode_loop_step:
  assumes "0 \<le> d" and "d < 64" and "enc d = Inr [c]"
  shows "decode_loop dec (c # rest) r s =
           (if 32 \<le> d then decode_loop dec rest (r + js_shl (d - 32) s) (s + 5)
            else Inr (r + js_shl d s, rest))"
proof -
  have "d mod 32 = (if 32 \<le> d then d - 32 else d)"
    using assms mod_pos_pos_trivial [of "d - 32" 32] minus_mod_self2 [of d 32] by auto
  moreover have "js_and d 32 \<noteq> 0 \<longleftrightarrow> 32 \<le> d"
    using assms vlq_digit_bits(2) [of "d - 32"] vlq_digit_bits(3) [of d]
    by (cases "32 \<le> d") auto
  ultimately show ?thesis
    using dec_enc [OF assms] by (simp add: Let_def)
qed

text \<open>
  Encoding a quantity and decoding it again, from any digit position: the decoder stops
  exactly at the end of the digits and its accumulator grows by the quantity, modulo
  \<open>2 ^ 32\<close>. On a proper prefix of the digits it runs out of input.
\<close>

definition decodes_to :: "jsstring \<Rightarrow> nat \<Rightarrow> int \<Rightarrow> bool" where
  "decodes_to w k u \<longleftrightarrow> (\<forall>r rest. \<exists>r'. decode_loop dec (w @ rest) r (5 * k) = Inr (r', rest)
      \<and> int32 r' = int32 (r + u * 2 ^ (5 * k)))"

definition prefix_fails :: "jsstring \<Rightarrow> bool" where
  "prefix_fails w \<longleftrightarrow> (\<forall>p q r s. w = p @ q \<longrightarrow> q \<noteq> [] \<longrightarrow>
      decode_loop dec p r s = Inl (Error (js ''Expected more digits in base 64 VLQ value.'')))"

lemma prefix_fails_last: "prefix_fails [c]"
  by (auto simp: prefix_fails_def Cons_eq_append_conv)

lemma prefix_fails_more:
  assumes "0 \<le> d" and "d < 32" and "enc (d + 32) = Inr [c]" and "prefix_fails w"
  shows "prefix_fails (c # w)"
  unfolding prefix_fails_def
proof (intro allI impI)
  fix p q r s
  assume eq: "c # w = p @ q" and q: "q \<noteq> []"
  show "decode_loop dec p r s = Inl (Error (js ''Expected more digits in base 64 VLQ value.''))"
  proof (cases p)
    case (Cons x p')
    with eq have "x = c" "w = p' @ q" by auto
    with Cons q assms show ?thesis
      by (simp add: decode_loop_step [of "d + 32"] prefix_fails_def del: decode_loop.simps(2))
  qed simp
qed

lemma decodes_to_last:
  assumes "0 \<le> u" and "u < 32" and "5 * k < 32" and "enc u = Inr [c]"
  shows "decodes_to [c] k u"
  using assms by (simp add: decodes_to_def decode_loop_step [of u] js_shl_eq int32_add
      del: decode_loop.simps(2))

lemma decodes_to_more:
  assumes "0 \<le> u" and "5 * k < 32" and "enc (u mod 32 + 32) = Inr [c]"
    and w: "decodes_to w (Suc k) (u div 32)"
  shows "decodes_to (c # w) k u"
  unfolding decodes_to_def
proof (intro allI)
  fix r rest
  let ?s = "r + js_shl (u mod 32) (5 * k)"
  obtain r' where r': "decode_loop dec (w @ rest) ?s (5 * Suc k) = Inr (r', rest)"
    "int32 r' = int32 (?s + (u div 32) * 2 ^ (5 * Suc k))"
    using w unfolding decodes_to_def by blast
  have "int32 r' = int32 (r + (u mod 32) * 2 ^ (5 * k) + (u div 32) * 2 ^ (5 * Suc k))"
    using r'(2) assms(2) by (simp add: int32_add js_shl_eq)
  also have "(2::int) ^ (5 * Suc k) = 32 * 2 ^ (5 * k)" by (simp add: power_add)
  also have "r + (u mod 32) * 2 ^ (5 * k) + (u div 32) * (32 * 2 ^ (5 * k))
      = r + (u mod 32 + u div 32 * 32) * 2 ^ (5 * k)"
    by (simp only: distrib_right mult.assoc add.assoc)
  finally have "int32 r' = int32 (r + u * 2 ^ (5 * k))" by simp
  moreover have "decode_loop dec ((c # w) @ rest) r (5 * k) = Inr (r', rest)"
    using r'(1) decode_loop_step [OF _ _ assms(3), of "w @ rest" r "5 * k"]
    by (simp add: add.commute)
  ultimately show "\<exists>r'. decode_loop dec ((c # w) @ rest) r (5 * k) = Inr (r', rest)
      \<and> int32 r' = int32 (r + u * 2 ^ (5 * k))" by blast
qed

lemma next_digit_bound:
  fixes u :: int
  assumes "u * 2 ^ (5 * k) < 2 ^ 32" and "32 \<le> u"
  shows "(u div 32) * 2 ^ (5 * Suc k) < 2 ^ 32" and "5 * Suc k < 32"
proof -
  have "(u div 32 * 32) * 2 ^ (5 * k) \<le> u * 2 ^ (5 * k)" by (rule mult_right_mono) simp_all
  then have le: "(u div 32) * 2 ^ (5 * Suc k) \<le> u * 2 ^ (5 * k)"
    by (simp add: power_add mult.assoc)
  then show "(u div 32) * 2 ^ (5 * Suc k) < 2 ^ 32" using assms(1) by linarith
  have "(2::int) ^ (5 * Suc k) \<le> (u div 32) * 2 ^ (5 * Suc k)" using assms(2) by simp
  with le assms(1) have "(2::int) ^ (5 * Suc k) < 2 ^ 32" by linarith
  then show "5 * Suc k < 32" by (rule power_less_imp_less_exp [rotated]) simp
qed

lemma encode_decode:
  fixes v :: int
  assumes "(v mod 2 ^ 32) * 2 ^ (5 * k) < 2 ^ 32" and "5 * k < 32"
  shows "\<exists>w. encode_loop enc v acc = Inr (acc @ w) \<and> w \<noteq> [] \<and> digits w
      \<and> k + length w \<le> 7 \<and> decodes_to w k (v mod 2 ^ 32) \<and> prefix_fails w"
  using assms
proof (induction "nat (v mod 2 ^ 32)" arbitrary: v k acc rule: less_induct)
  case less
  define u where "u = v mod 2 ^ 32"
  have u: "0 \<le> u" "u < 2 ^ 32" by (simp_all add: u_def)
  note prem = less.prems(1) [folded u_def]
  obtain c where c: "enc (if 32 \<le> u then u mod 32 + 32 else u mod 32) = Inr [c]"
    and step: "encode_loop enc v acc =
           (if 32 \<le> u then encode_loop enc (u div 32) (acc @ [c]) else Inr (acc @ [c]))"
    unfolding u_def by (rule encode_loop_step)
  have dig: "digits [c]"
    unfolding digits_def using c
    by (intro ballI exI [of _ "if 32 \<le> u then u mod 32 + 32 else u mod 32"]) auto
  show ?case
  proof (cases "32 \<le> u")
    case False
    with u c have "decodes_to [c] k u" by (intro decodes_to_last less.prems(2)) auto
    then show ?thesis
      using step False dig less.prems(2) unfolding u_def
      by (intro exI [of _ "[c]"]) (simp add: prefix_fails_last)
  next
    case True
    let ?q = "u div 32"
    have q: "?q mod 2 ^ 32 = ?q" "?q < u"
      using u True by (auto intro!: mod_pos_pos_trivial)
    then have "nat (?q mod 2 ^ 32) < nat (v mod 2 ^ 32)"
      unfolding q(1) u_def [symmetric] using u by linarith
    from less.hyps [OF this, unfolded q(1), OF next_digit_bound [OF prem True], of "acc @ [c]"]
    obtain w where w: "encode_loop enc ?q (acc @ [c]) = Inr ((acc @ [c]) @ w)" "digits w"
      "Suc k + length w \<le> 7" "decodes_to w (Suc k) ?q" "prefix_fails w" by blast
    have "decodes_to (c # w) k u"
      using u(1) less.prems(2) c True w(4) by (intro decodes_to_more) simp_all
    moreover have "prefix_fails (c # w)"
      using c True w(5) by (intro prefix_fails_more [of "u mod 32"]) simp_all
    moreover have "digits (c # w)" using dig w(2) by (simp add: digits_def)
    ultimately show ?thesis
      using step True w unfolding u_def by (intro exI [of _ "c # w"]) simp
  qed
qed

end

interpretation base64: digit_codec base64_encode base64_decode
  by unfold_locales (auto simp: base64_encode_digit base64_decode_digit)

lemma base64_digits_alphabet: "base64.digits w \<Longrightarrow> set w \<subseteq> set base64_alphabet"
  by (fastforce simp: base64.digits_def base64_encode_def intToCharMap_def split: if_splits)

subsection \<open>The signed encoding\<close>

lemma fromVLQSigned_eq:
  "fromVLQSigned r = (if odd r then - (sint (int32 r) div 2) else sint (int32 r) div 2)"
proof -
  have "js_and r 1 = r mod 2" using js_and_mask [of 1 r] by simp
  moreover have "js_sar r 1 = sint (int32 r) div 2"
    by (simp add: js_sar_def sint_signed_drop_bit_eq drop_bit_eq_div)
  ultimately show ?thesis by (simp add: fromVLQSigned_def odd_iff_mod_2_eq_one)
qed

lemma even_int32: "int32 a = int32 b \<Longrightarrow> even a \<longleftrightarrow> even b"
proof -
  assume "int32 a = int32 b"
  then have "a mod 2 ^ 32 mod 2 = b mod 2 ^ 32 mod 2" by (simp add: int32_eq_iff)
  then have "a mod 2 = b mod 2" by (simp add: mod_mod_cancel)
  then show ?thesis by presburger
qed

lemma fromVLQSigned_int32: "int32 a = int32 b \<Longrightarrow> fromVLQSigned a = fromVLQSigned b"
  using even_int32 [of a b] by (simp add: fromVLQSigned_eq)

lemma signed_take_bit_double:
  "signed_take_bit 31 (2 * a :: int) div 2 = signed_take_bit 30 a"
  "signed_take_bit 31 (2 * a + 1 :: int) div 2 = signed_take_bit 30 a"
  by (simp_all add: signed_take_bit_rec [of 31])

lemma from_toVLQSigned:
  "fromVLQSigned (toVLQSigned v) =
     (if v < 0 then - signed_take_bit 30 (- v) else signed_take_bit 30 v)"
proof (cases "v < 0")
  case True
  have "int32 (toVLQSigned v) = int32 (- v * 2) + int32 1"
    using True by (simp add: toVLQSigned_def js_shl_eq int32_add)
  also have "\<dots> = int32 (2 * (- v) + 1)"
    by (simp add: mult.commute flip: int32_add)
  finally have "int32 (toVLQSigned v) = int32 (2 * (- v) + 1)" .
  then have "fromVLQSigned (toVLQSigned v) = fromVLQSigned (2 * (- v) + 1)"
    by (rule fromVLQSigned_int32)
  also have "\<dots> = - (signed_take_bit 31 (2 * (- v) + 1) div 2)"
    by (simp add: fromVLQSigned_eq sint_int32 del: mult_minus_right)
  finally show ?thesis using True by (simp only: signed_take_bit_double) simp
next
  case False
  have "int32 (toVLQSigned v) = int32 (2 * v)"
    using False by (simp add: toVLQSigned_def js_shl_eq mult.commute)
  then have "fromVLQSigned (toVLQSigned v) = fromVLQSigned (2 * v)"
    by (rule fromVLQSigned_int32)
  also have "\<dots> = signed_take_bit 31 (2 * v) div 2"
    by (simp add: fromVLQSigned_eq sint_int32)
  finally show ?thesis using False by (simp only: signed_take_bit_double) simp
qed

lemma from_toVLQSigned_iff: "fromVLQSigned (toVLQSigned v) = v \<longleftrightarrow> - (2 ^ 30) < v \<and> v < 2 ^ 30"
proof -
  have "signed_take_bit 30 x = x \<longleftrightarrow> - (2 ^ 30) \<le> x \<and> x < 2 ^ 30" for x :: int
    by (rule signed_take_bit_int_eq_self_iff)
  from this [of v] this [of "- v"] show ?thesis
    by (simp add: from_toVLQSigned equation_minus_iff [of v]) linarith
qed

text \<open>What the rest of the development needs of the codec: every encoding succeeds and decodes.\<close>

lemma base64VLQ_encode_total:
  obtains w where "base64VLQ_encode v = Inr w" and "w \<noteq> []" and "set w \<subseteq> set base64_alphabet"
    and "length w \<le> 7" and "base64.prefix_fails w"
    and "\<And>rest. base64VLQ_decode (w @ rest) = Inr (fromVLQSigned (toVLQSigned v), rest)"
proof -
  let ?u = "toVLQSigned v"
  have "(?u mod 2 ^ 32) * 2 ^ (5 * 0) < 2 ^ 32" by simp
  from base64.encode_decode [OF this, of "[]"] obtain w where
    w: "encode_loop base64_encode ?u [] = Inr w" "w \<noteq> []" "base64.digits w" "length w \<le> 7"
      "base64.prefix_fails w" and dec: "base64.decodes_to w 0 (?u mod 2 ^ 32)"
    by (auto simp del: power_numeral)
  have "base64VLQ_decode (w @ rest) = Inr (fromVLQSigned ?u, rest)" for rest
  proof -
    from dec obtain r' where r': "decode_loop base64_decode (w @ rest) 0 0 = Inr (r', rest)"
      "int32 r' = int32 (?u mod 2 ^ 32)"
      by (fastforce simp: base64.decodes_to_def)
    then have "int32 r' = int32 ?u" by (simp add: int32_eq_iff)
    then have "fromVLQSigned r' = fromVLQSigned ?u" by (rule fromVLQSigned_int32)
    with r'(1) show ?thesis by (simp add: base64VLQ_decode_def)
  qed
  with w show thesis
    by (intro that [of w]) (simp_all add: base64VLQ_encode_def base64_digits_alphabet)
qed

lemma base64VLQ_decode_encode:
  assumes "- (2 ^ 30) < v" and "v < 2 ^ 30"
  obtains w where "base64VLQ_encode v = Inr w" and "w \<noteq> []" and "set w \<subseteq> set base64_alphabet"
    and "\<And>rest. base64VLQ_decode (w @ rest) = Inr (v, rest)"
proof -
  have "fromVLQSigned (toVLQSigned v) = v" using assms from_toVLQSigned_iff by blast
  then show thesis using base64VLQ_encode_total [of v] that by metis
qed

subsection \<open>Properties\<close>

text \<open>
  C25: an integer is written as a quantity that reads back as itself, whatever follows it in the
  string, exactly when its absolute value is below \<open>2 ^ 30\<close>.
\<close>

theorem vlq_roundtrip:
  "(\<exists>w. base64VLQ_encode v = Inr w \<and> (\<forall>rest. base64VLQ_decode (w @ rest) = Inr (v, rest)))
     \<longleftrightarrow> - (2 ^ 30) < v \<and> v < 2 ^ 30"
proof -
  obtain w where w: "base64VLQ_encode v = Inr w"
    "\<And>rest. base64VLQ_decode (w @ rest) = Inr (fromVLQSigned (toVLQSigned v), rest)"
    using base64VLQ_encode_total [of v] by metis
  then have "(\<exists>w. base64VLQ_encode v = Inr w \<and> (\<forall>rest. base64VLQ_decode (w @ rest) = Inr (v, rest)))
      \<longleftrightarrow> fromVLQSigned (toVLQSigned v) = v" by simp
  then show ?thesis by (simp only: from_toVLQSigned_iff)
qed

text \<open>
  Writing never throws; a quantity takes one to seven digits of the alphabet.
\<close>

theorem vlq_digits:
  "\<exists>w. base64VLQ_encode v = Inr w \<and> 1 \<le> length w \<and> length w \<le> 7 \<and> set w \<subseteq> set base64_alphabet"
  by (rule base64VLQ_encode_total [of v]) (auto simp: Suc_le_eq)

text \<open>
  A quantity that was cut short is never read as another number: decoding any proper prefix of
  an encoding throws.
\<close>

theorem vlq_truncated:
  assumes "base64VLQ_encode v = Inr w" and "k < length w"
  shows "base64VLQ_decode (take k w) = Inl (Error (js ''Expected more digits in base 64 VLQ value.''))"
proof -
  have "base64.prefix_fails w" using assms(1) by (metis base64VLQ_encode_total sum.inject(2))
  moreover have "w = take k w @ drop k w" "drop k w \<noteq> []" using assms(2) by simp_all
  ultimately have "decode_loop base64_decode (take k w) 0 0 =
      Inl (Error (js ''Expected more digits in base 64 VLQ value.''))"
    unfolding base64.prefix_fails_def by blast
  then show ?thesis by (simp add: base64VLQ_decode_def)
qed

theorem vlq_truncated_witness:
  "base64VLQ_decode (js ''g'') = Inl (Error (js ''Expected more digits in base 64 VLQ value.''))"
proof -
  have "base64VLQ_encode 16 = Inr (js ''gB'')" by code_simp
  from vlq_truncated [OF this, of 1] show ?thesis by (simp add: js_eval)
qed

end
