(* ===== verification/SmGenerator.thy ===== *)
theory SmGenerator
  imports ArraySets Base64Vlq "HOL-Library.AList"
begin

text \<open>
  The module \<^verbatim>\<open>source-map/source-map-generator\<close>, except for the two operations that take a
  consumer (theory \<open>SmCompose\<close>). A generator collects mappings and writes them as the
  \<^verbatim>\<open>mappings\<close> string of a source map.
\<close>

subsection \<open>State\<close>

record generator =
  g_file :: "jsstring option"
  g_sourceRoot :: "jsstring option"
  g_sources :: array_set
  g_names :: array_set
  g_mappings :: "mapping list"
  g_sourcesContents :: "(jsstring \<times> jsstring) list option"

text \<open>The argument objects; a property that is missing or \<^verbatim>\<open>null\<close> is \<open>None\<close>.\<close>

record position =
  pline :: "int option"
  pcolumn :: "int option"

record mapping_args =
  a_generated :: "position option"
  a_original :: "position option"
  a_source :: "jsstring option"
  a_name :: "jsstring option"

definition SourceMapGenerator :: "jsstring option \<Rightarrow> jsstring option \<Rightarrow> generator res" where
  "SourceMapGenerator file sourceRoot =
     bindR (getArg file ''file'' None)
       (\<lambda>f. Inr \<lparr>g_file = Some f, g_sourceRoot = sourceRoot, g_sources = ArraySet_new,
                  g_names = ArraySet_new, g_mappings = [], g_sourcesContents = None\<rparr>)"

subsection \<open>Adding mappings and contents\<close>

definition positive_position :: "position \<Rightarrow> bool" where
  "positive_position p \<longleftrightarrow>
     (case (pline p, pcolumn p) of (Some l, Some c) \<Rightarrow> l > 0 \<and> c \<ge> 0 | _ \<Rightarrow> False)"

definition validateMapping ::
    "position \<Rightarrow> position option \<Rightarrow> jsstring option \<Rightarrow> jsstring option \<Rightarrow> unit res" where
  "validateMapping aGenerated aOriginal aSource aName =
     (if positive_position aGenerated \<and> aOriginal = None \<and> \<not> truthy aSource \<and> \<not> truthy aName
      then Inr ()
      else if positive_position aGenerated
           \<and> (case aOriginal of None \<Rightarrow> False | Some o' \<Rightarrow> positive_position o') \<and> truthy aSource
      then Inr ()
      else Inl (Error (js ''Invalid mapping: '')))"

text \<open>\<^verbatim>\<open>if (s && !set.has(s)) set.add(s)\<close>.\<close>

definition add_once :: "jsstring option \<Rightarrow> array_set \<Rightarrow> array_set" where
  "add_once s t =
     (if truthy s \<and> \<not> ArraySet_has t (the s) then ArraySet_add (the s) False t else t)"

definition num_prop :: "int option \<Rightarrow> jsnum" where
  "num_prop v = (case v of None \<Rightarrow> JUndef | Some n \<Rightarrow> JNum n)"

definition addMapping :: "mapping_args \<Rightarrow> generator \<Rightarrow> generator res" where
  "addMapping aArgs this =
     bindR (getArg (a_generated aArgs) ''generated'' None)
       (\<lambda>generated.
          let original = a_original aArgs; source = a_source aArgs; name = a_name aArgs in
          bindR (validateMapping generated original source name)
            (\<lambda>_. Inr (this\<lparr>
               g_sources := add_once source (g_sources this),
               g_names := add_once name (g_names this),
               g_mappings := g_mappings this @
                 [\<lparr>generatedLine = the (pline generated), generatedColumn = the (pcolumn generated),
                   originalLine = (case original of None \<Rightarrow> JFalse | Some p \<Rightarrow> num_prop (pline p)),
                   originalColumn = (case original of None \<Rightarrow> JFalse | Some p \<Rightarrow> num_prop (pcolumn p)),
                   msource = source, mname = name\<rparr>]\<rparr>)))"

definition setSourceContent :: "jsstring \<Rightarrow> jsstring option \<Rightarrow> generator \<Rightarrow> generator res" where
  "setSourceContent aSourceFile aSourceContent this =
     (let source = (if truthy (g_sourceRoot this)
                    then sm_relative (the (g_sourceRoot this)) aSourceFile else aSourceFile)
      in case aSourceContent of
           Some content \<Rightarrow>
             let contents = (case g_sourcesContents this of None \<Rightarrow> [] | Some cs \<Rightarrow> cs)
             in Inr (this\<lparr>g_sourcesContents := Some (AList.update (toSetString source) content contents)\<rparr>)
         | None \<Rightarrow>
             (case g_sourcesContents this of
                None \<Rightarrow> Inl (TypeError (js ''Cannot convert undefined or null to object''))
              | Some cs \<Rightarrow>
                  let cs' = AList.delete (toSetString source) cs
                  in Inr (this\<lparr>g_sourcesContents := (if length cs' = 0 then None else Some cs')\<rparr>)))"

subsection \<open>Writing the mappings\<close>

record ser_state =
  s_genColumn :: int
  s_genLine :: int
  s_origColumn :: int
  s_origLine :: int
  s_name :: int
  s_source :: int
  s_result :: jsstring

definition ser_init :: ser_state where
  "ser_init = \<lparr>s_genColumn = 0, s_genLine = 1, s_origColumn = 0, s_origLine = 0, s_name = 0,
               s_source = 0, s_result = []\<rparr>"

text \<open>
  \<^verbatim>\<open>while (mapping.generatedLine !== previousGeneratedLine) { result += ';'; ... }\<close>. On a line
  before the previous one the loop would not end, so it is a partial function; the sorted order
  excludes that case (lemma \<open>emit_lines_Some\<close>).
\<close>

partial_function (option) emit_lines :: "int \<Rightarrow> int \<Rightarrow> jsstring \<Rightarrow> jsstring option" where
  "emit_lines line previousGeneratedLine result =
     (if line \<noteq> previousGeneratedLine
      then emit_lines line (previousGeneratedLine + 1) (result @ js '';'')
      else Some result)"

text \<open>A stored original position as an operand of a subtraction that ends in \<^verbatim>\<open>base64VLQ.encode\<close>.\<close>

definition num_of :: "jsnum \<Rightarrow> int" where
  "num_of n = (case to_number n of None \<Rightarrow> 0 | Some i \<Rightarrow> i)"

definition put_vlq :: "int \<Rightarrow> ser_state \<Rightarrow> ser_state res" where
  "put_vlq v st = bindR (base64VLQ_encode v) (\<lambda>w. Inr (st\<lparr>s_result := s_result st @ w\<rparr>))"

definition serialize_name :: "generator \<Rightarrow> mapping \<Rightarrow> ser_state \<Rightarrow> ser_state res" where
  "serialize_name this mapping st =
     (if truthy (mname mapping) then
        bindR (ArraySet_indexOf (g_names this) (the (mname mapping)))
          (\<lambda>n. bindR (put_vlq (n - s_name st) st) (\<lambda>st. Inr (st\<lparr>s_name := n\<rparr>)))
      else Inr st)"

definition serialize_source :: "generator \<Rightarrow> mapping \<Rightarrow> ser_state \<Rightarrow> ser_state res" where
  "serialize_source this mapping st =
     (if truthy (msource mapping) then
        bindR (ArraySet_indexOf (g_sources this) (the (msource mapping)))
          (\<lambda>i. bindR (put_vlq (i - s_source st) st)
          (\<lambda>st. let st = st\<lparr>s_source := i\<rparr>; line = num_of (originalLine mapping) - 1
                in bindR (put_vlq (line - s_origLine st) st)
          (\<lambda>st. let st = st\<lparr>s_origLine := line\<rparr>; column = num_of (originalColumn mapping)
                in bindR (put_vlq (column - s_origColumn st) st)
          (\<lambda>st. serialize_name this mapping (st\<lparr>s_origColumn := column\<rparr>)))))
      else Inr st)"

definition serialize_mapping :: "generator \<Rightarrow> mapping \<Rightarrow> ser_state \<Rightarrow> ser_state res" where
  "serialize_mapping this mapping st =
     bindR (put_vlq (generatedColumn mapping - s_genColumn st) st)
       (\<lambda>st. serialize_source this mapping (st\<lparr>s_genColumn := generatedColumn mapping\<rparr>))"

text \<open>
  The loop over the sorted mappings. The second argument is \<^verbatim>\<open>this._mappings[i - 1]\<close>; the result
  is \<open>None\<close> if the inner loop does not end, and otherwise a string or a thrown error.
\<close>

fun serialize_loop ::
    "generator \<Rightarrow> mapping option \<Rightarrow> mapping list \<Rightarrow> ser_state \<Rightarrow> jsstring res option" where
  "serialize_loop this prev [] st = Some (Inr (s_result st))"
| "serialize_loop this prev (mapping # rest) st =
     (let body = (\<lambda>st. case serialize_mapping this mapping st of
                         Inl e \<Rightarrow> Some (Inl e)
                       | Inr st' \<Rightarrow> serialize_loop this (Some mapping) rest st')
      in if generatedLine mapping \<noteq> s_genLine st then
           (case emit_lines (generatedLine mapping) (s_genLine st) (s_result st) of
              None \<Rightarrow> None
            | Some r \<Rightarrow> body (st\<lparr>s_genColumn := 0, s_genLine := generatedLine mapping, s_result := r\<rparr>))
         else
           (case prev of
              None \<Rightarrow> body st
            | Some p \<Rightarrow>
                if \<not> truthy_num (compareByGeneratedPositions mapping p False)
                then serialize_loop this (Some mapping) rest st
                else body (st\<lparr>s_result := s_result st @ js '',''\<rparr>)))"

text \<open>\<^verbatim>\<open>_serializeMappings\<close> sorts the generator's own array.\<close>

definition sort_mappings :: "generator \<Rightarrow> generator" where
  "sort_mappings this = this\<lparr>g_mappings := js_sort gen_order (g_mappings this)\<rparr>"

definition serializeMappings :: "generator \<Rightarrow> jsstring res option" where
  "serializeMappings this =
     (let this = sort_mappings this in serialize_loop this None (g_mappings this) ser_init)"

definition generateSourcesContent ::
    "generator \<Rightarrow> jsstring list \<Rightarrow> jsstring option \<Rightarrow> jsstring option list" where
  "generateSourcesContent this aSources aSourceRoot =
     map (\<lambda>source.
            case g_sourcesContents this of
              None \<Rightarrow> None
            | Some cs \<Rightarrow>
                let source = (if truthy aSourceRoot then sm_relative (the aSourceRoot) source else source)
                in map_of cs (toSetString source))
       aSources"

text \<open>The source map as an object.\<close>

record raw_map =
  r_version :: "int option"
  r_sources :: "jsstring list option"
  r_names :: "jsstring list option"
  r_sourceRoot :: "jsstring option"
  r_sourcesContent :: "jsstring option list option"
  r_mappings :: "jsstring option"
  r_file :: "jsstring option"

definition toJSON :: "generator \<Rightarrow> (generator \<times> raw_map res) option" where
  "toJSON this =
     map_option
       (\<lambda>m. (sort_mappings this,
             mapR (\<lambda>str.
               let root = (if truthy (g_sourceRoot this) then g_sourceRoot this else None);
                   sources = ArraySet_toArray (g_sources this)
               in \<lparr>r_version = Some 3, r_sources = Some sources,
                    r_names = Some (ArraySet_toArray (g_names this)), r_sourceRoot = root,
                    r_sourcesContent =
                      (if g_sourcesContents this = None then None
                       else Some (generateSourcesContent this sources root)),
                    r_mappings = Some str, r_file = g_file this\<rparr>) m))
       (serializeMappings this)"

subsection \<open>The generator's invariant\<close>

text \<open>
  The three levels of data the code documents: a mapping has just a generated position, or an
  original position and a source as well, with or without a name.
\<close>

definition has_original :: "mapping \<Rightarrow> bool" where
  "has_original m \<longleftrightarrow> truthy (msource m) \<and>
     (\<exists>l c. originalLine m = JNum l \<and> l > 0 \<and> originalColumn m = JNum c \<and> c \<ge> 0)"

definition lacks_original :: "mapping \<Rightarrow> bool" where
  "lacks_original m \<longleftrightarrow> \<not> truthy (msource m) \<and> \<not> truthy (mname m)
     \<and> originalLine m = JFalse \<and> originalColumn m = JFalse"

definition valid_mapping :: "mapping \<Rightarrow> bool" where
  "valid_mapping m \<longleftrightarrow> generatedLine m > 0 \<and> generatedColumn m \<ge> 0
     \<and> (has_original m \<or> lacks_original m)"

definition registered :: "array_set \<Rightarrow> jsstring option \<Rightarrow> bool" where
  "registered t s \<longleftrightarrow> (truthy s \<longrightarrow> the s \<in> set (ArraySet_toArray t))"

definition gen_inv :: "generator \<Rightarrow> bool" where
  "gen_inv g \<longleftrightarrow> as_inv (g_sources g) \<and> as_inv (g_names g)
     \<and> distinct (ArraySet_toArray (g_sources g)) \<and> distinct (ArraySet_toArray (g_names g))
     \<and> (\<forall>m \<in> set (g_mappings g). valid_mapping m \<and> registered (g_sources g) (msource m)
          \<and> registered (g_names g) (mname m))"

lemma valid_comparable: "valid_mapping m \<Longrightarrow> comparable m"
  by (auto simp: valid_mapping_def has_original_def lacks_original_def comparable_def)

lemma positive_position_iff:
  "positive_position p \<longleftrightarrow> (\<exists>l c. pline p = Some l \<and> pcolumn p = Some c \<and> l > 0 \<and> c \<ge> 0)"
  by (auto simp: positive_position_def split: option.splits)

lemma add_once_inv: "as_inv t \<Longrightarrow> as_inv (add_once s t)"
  by (simp add: add_once_def aset.inv_add)

lemma add_once_array:
  "as_inv t \<Longrightarrow> ArraySet_toArray (add_once s t) =
     (if truthy s \<and> the s \<notin> set (ArraySet_toArray t) then ArraySet_toArray t @ [the s]
      else ArraySet_toArray t)"
  by (simp add: add_once_def aset.has_iff aset.toArray_add)

lemma registered_add_once:
  "as_inv t \<Longrightarrow> registered (add_once s t) s"
  "as_inv t \<Longrightarrow> registered t r \<Longrightarrow> registered (add_once s t) r"
  by (auto simp: registered_def add_once_array)

lemma distinct_add_once:
  "\<lbrakk>as_inv t; distinct (ArraySet_toArray t)\<rbrakk> \<Longrightarrow> distinct (ArraySet_toArray (add_once s t))"
  by (simp add: add_once_array)

lemma gen_inv_new: "SourceMapGenerator file root = Inr g \<Longrightarrow> gen_inv g"
  by (auto simp: SourceMapGenerator_def gen_inv_def aset.inv_empty aset.toArray_empty
      elim!: bindR_InrE)

text \<open>What a successful \<^verbatim>\<open>addMapping\<close> stores, and when it succeeds.\<close>

definition args_valid :: "mapping_args \<Rightarrow> bool" where
  "args_valid a \<longleftrightarrow>
     (case a_generated a of None \<Rightarrow> False | Some p \<Rightarrow> positive_position p)
     \<and> (case a_original a of
          None \<Rightarrow> \<not> truthy (a_source a) \<and> \<not> truthy (a_name a)
        | Some p \<Rightarrow> positive_position p \<and> truthy (a_source a))"

lemma addMapping_ok_iff: "(\<exists>g'. addMapping a g = Inr g') \<longleftrightarrow> args_valid a"
  by (auto simp: addMapping_def args_valid_def getArg_def validateMapping_def Let_def
      split: option.splits)

lemma addMapping_Inr:
  assumes "addMapping a g = Inr g'"
  obtains m where "valid_mapping m" and "msource m = a_source a" and "mname m = a_name a"
    and "g' = g\<lparr>g_sources := add_once (a_source a) (g_sources g),
                  g_names := add_once (a_name a) (g_names g), g_mappings := g_mappings g @ [m]\<rparr>"
proof -
  from assms have "args_valid a" using addMapping_ok_iff by blast
  then obtain p l c where p: "a_generated a = Some p" "pline p = Some l" "pcolumn p = Some c"
    "l > 0" "c \<ge> 0"
    by (auto simp: args_valid_def positive_position_iff split: option.splits)
  define m where "m = \<lparr>generatedLine = l, generatedColumn = c,
      originalLine = (case a_original a of None \<Rightarrow> JFalse | Some p \<Rightarrow> num_prop (pline p)),
      originalColumn = (case a_original a of None \<Rightarrow> JFalse | Some p \<Rightarrow> num_prop (pcolumn p)),
      msource = a_source a, mname = a_name a\<rparr>"
  have "valid_mapping m"
    using \<open>args_valid a\<close> p
    by (auto simp: m_def valid_mapping_def has_original_def lacks_original_def args_valid_def
        positive_position_iff num_prop_def split: option.splits)
  moreover have "g' = g\<lparr>g_sources := add_once (a_source a) (g_sources g),
      g_names := add_once (a_name a) (g_names g), g_mappings := g_mappings g @ [m]\<rparr>"
    using assms p by (auto simp: addMapping_def m_def getArg_def Let_def elim!: bindR_InrE)
  ultimately show thesis using that [of m] by (simp add: m_def)
qed

lemma gen_inv_addMapping:
  assumes "gen_inv g" and "addMapping a g = Inr g'"
  shows "gen_inv g'"
proof -
  obtain m where "valid_mapping m" "msource m = a_source a" "mname m = a_name a"
    "g' = g\<lparr>g_sources := add_once (a_source a) (g_sources g),
              g_names := add_once (a_name a) (g_names g), g_mappings := g_mappings g @ [m]\<rparr>"
    using addMapping_Inr [OF assms(2)] .
  with assms(1) show ?thesis
    by (auto simp: gen_inv_def add_once_inv registered_add_once distinct_add_once)
qed

lemma gen_inv_sort [simp]: "gen_inv (sort_mappings g) = gen_inv g"
  by (simp add: gen_inv_def sort_mappings_def)

lemma gen_inv_setSourceContent:
  "\<lbrakk>gen_inv g; setSourceContent f content g = Inr g'\<rbrakk> \<Longrightarrow> gen_inv g'"
  by (auto simp: setSourceContent_def gen_inv_def Let_def split: option.splits if_splits)

lemma gen_inv_all_comparable: "gen_inv g \<Longrightarrow> \<forall>m \<in> set (g_mappings g). comparable m"
  by (simp add: gen_inv_def valid_comparable)

lemma emit_lines_Some:
  "line \<ge> prev \<Longrightarrow> emit_lines line prev r = Some (r @ replicate (nat (line - prev)) 59)"
proof (induction "nat (line - prev)" arbitrary: prev r)
  case 0
  then show ?case by (subst emit_lines.simps) simp
next
  case (Suc n)
  then have n: "n = nat (line - (prev + 1))" "prev + 1 \<le> line" by linarith+
  have "emit_lines line prev r = emit_lines line (prev + 1) (r @ js '';'')"
    using Suc by (subst emit_lines.simps) auto
  also have "\<dots> = Some ((r @ js '';'') @ replicate n 59)"
    using Suc.hyps(1) n by blast
  finally show ?case using Suc.hyps(2) by (simp add: js_eval flip: Suc.hyps(2))
qed

subsection \<open>Writing always ends\<close>

lemma put_vlq_total: "\<exists>w. put_vlq v st = Inr (st\<lparr>s_result := s_result st @ w\<rparr>)"
  by (rule base64VLQ_encode_total [of v]) (auto simp: put_vlq_def)

lemma serialize_mapping_total:
  assumes "gen_inv g" and "m \<in> set (g_mappings g)"
  shows "\<exists>st'. serialize_mapping g m st = Inr st' \<and> s_genLine st' = s_genLine st"
proof -
  have idx: "\<exists>i. ArraySet_indexOf t (the s) = Inr i" if "as_inv t" "registered t s" "truthy s" for t s
    using that aset.indexOf_total by (auto simp: registered_def)
  have name: "\<exists>st'. serialize_name g m s = Inr st' \<and> s_genLine st' = s_genLine s" for s
    using idx [of "g_names g" "mname m"] put_vlq_total assms
    by (fastforce simp: serialize_name_def gen_inv_def bindR_Inr_iff)
  have source: "\<exists>st'. serialize_source g m s = Inr st' \<and> s_genLine st' = s_genLine s" for s
  proof (cases "truthy (msource m)")
    case True
    then obtain i where i: "ArraySet_indexOf (g_sources g) (the (msource m)) = Inr i"
      using idx [of "g_sources g" "msource m"] assms by (auto simp: gen_inv_def)
    obtain w1 where w1: "put_vlq (i - s_source s) s = Inr (s\<lparr>s_result := s_result s @ w1\<rparr>)"
      using put_vlq_total by blast
    obtain s2 where s2: "put_vlq (num_of (originalLine m) - 1 - s_origLine s)
        (s\<lparr>s_result := s_result s @ w1, s_source := i\<rparr>) = Inr s2" "s_genLine s2 = s_genLine s"
      "s_origColumn s2 = s_origColumn s"
      using put_vlq_total by fastforce
    obtain s3 where s3: "put_vlq (num_of (originalColumn m) - s_origColumn s)
        (s2\<lparr>s_origLine := num_of (originalLine m) - 1\<rparr>) = Inr s3" "s_genLine s3 = s_genLine s"
      using put_vlq_total s2(2) by fastforce
    show ?thesis
      using True i w1 s2 s3 name [of "s3\<lparr>s_origColumn := num_of (originalColumn m)\<rparr>"]
      by (simp add: serialize_source_def Let_def)
  qed (simp add: serialize_source_def)
  obtain w where "put_vlq (generatedColumn m - s_genColumn st) st = Inr (st\<lparr>s_result := s_result st @ w\<rparr>)"
    using put_vlq_total by blast
  then show ?thesis
    using source [of "st\<lparr>s_result := s_result st @ w, s_genColumn := generatedColumn m\<rparr>"]
    by (simp add: serialize_mapping_def)
qed

lemma serialize_loop_total:
  assumes "gen_inv g"
  shows "\<lbrakk>set ms \<subseteq> set (g_mappings g); sorted_wrt (\<lambda>a b. generatedLine a \<le> generatedLine b) ms;
      \<forall>m \<in> set ms. s_genLine st \<le> generatedLine m\<rbrakk> \<Longrightarrow> \<exists>r. serialize_loop g prev ms st = Some (Inr r)"
proof (induction ms arbitrary: prev st)
  case (Cons m ms)
  have body: "\<exists>r. (case serialize_mapping g m s of Inl e \<Rightarrow> Some (Inl e)
      | Inr st' \<Rightarrow> serialize_loop g (Some m) ms st') = Some (Inr r)"
    if line: "s_genLine s = generatedLine m" for s
  proof -
    obtain st' where "serialize_mapping g m s = Inr st'" "s_genLine st' = generatedLine m"
      using serialize_mapping_total [OF assms, of m s] Cons.prems(1) line by auto
    then show ?thesis using Cons.IH [of st' "Some m"] Cons.prems by auto
  qed
  have skip: "generatedLine m = s_genLine st \<Longrightarrow> \<exists>r. serialize_loop g (Some m) ms st = Some (Inr r)"
    using Cons.IH [of st "Some m"] Cons.prems by auto
  have lines: "emit_lines (generatedLine m) (s_genLine st) (s_result st) =
      Some (s_result st @ replicate (nat (generatedLine m - s_genLine st)) 59)"
    using Cons.prems(3) by (intro emit_lines_Some) simp
  show ?case
    using body skip lines by (auto simp: Let_def split: option.split)
qed simp

lemma gen_order_line: "cmp_le gen_order a b \<Longrightarrow> generatedLine a \<le> generatedLine b"
  by (auto simp: cmp_le_def gen_order_chain then_cmp_def split: if_splits)

lemma sorted_lines:
  assumes "gen_inv g"
  shows "sorted_wrt (\<lambda>a b. generatedLine a \<le> generatedLine b) (js_sort gen_order (g_mappings g))"
  using gen.sorted_js_sort [OF gen_inv_all_comparable [OF assms]] gen_order_line
  by (rule sorted_wrt_mono_rel [rotated])

lemma serializeMappings_total:
  assumes "gen_inv g"
  shows "\<exists>str. serializeMappings g = Some (Inr str)"
proof -
  have "gen_inv (sort_mappings g)" using assms by simp
  moreover have "\<forall>m \<in> set (js_sort gen_order (g_mappings g)). s_genLine ser_init \<le> generatedLine m"
    using assms by (fastforce simp: ser_init_def gen_inv_def valid_mapping_def)
  moreover have "set (js_sort gen_order (g_mappings g)) \<subseteq> set (g_mappings (sort_mappings g))"
    by (simp add: sort_mappings_def)
  ultimately have "\<exists>r. serialize_loop (sort_mappings g) None (js_sort gen_order (g_mappings g)) ser_init = Some (Inr r)"
    using sorted_lines [OF assms] by (intro serialize_loop_total)
  then show ?thesis by (simp add: serializeMappings_def sort_mappings_def)
qed

subsection \<open>Properties\<close>

text \<open>The operations that change a generator, as steps.\<close>

inductive generator_step :: "generator \<Rightarrow> generator \<Rightarrow> bool" where
  step_addMapping: "addMapping a g = Inr g' \<Longrightarrow> generator_step g g'"
| step_setSourceContent: "setSourceContent f content g = Inr g' \<Longrightarrow> generator_step g g'"
| step_toJSON: "toJSON g = Some (g', r) \<Longrightarrow> generator_step g g'"

inductive_cases generator_stepE: "generator_step g g'"


definition demo_args :: mapping_args where
  "demo_args = \<lparr>a_generated = Some \<lparr>pline = Some 1, pcolumn = Some 4\<rparr>,
     a_original = Some \<lparr>pline = Some 2, pcolumn = Some 8\<rparr>, a_source = Some (js ''a.js''),
     a_name = Some (js ''x'')\<rparr>"

definition demo_generator :: generator where
  "demo_generator = projr (SourceMapGenerator (Some (js ''out.js'')) None)"


text \<open>
  \<^verbatim>\<open>addMapping\<close> accepts a mapping exactly when it has a generated position with a positive
  line and a column that is not negative, and either nothing else, or an original position of
  that kind with a source; otherwise it throws and the generator is as before.
\<close>

theorem addMapping_accepts:
  "(case addMapping a g of
      Inl e \<Rightarrow> \<not> args_valid a
    | Inr g' \<Rightarrow> args_valid a \<and>
        (\<exists>m. valid_mapping m \<and> msource m = a_source a \<and> mname m = a_name a
           \<and> generatedLine m = the (pline (the (a_generated a)))
           \<and> generatedColumn m = the (pcolumn (the (a_generated a)))
           \<and> g_mappings g' = g_mappings g @ [m]))"
proof (cases "addMapping a g")
  case (Inl e)
  then have "\<not> args_valid a" using addMapping_ok_iff [of a g] by simp
  then show ?thesis using Inl by simp
next
  case (Inr g')
  obtain m where m': "valid_mapping m" "msource m = a_source a" "mname m = a_name a"
    "g' = g\<lparr>g_sources := add_once (a_source a) (g_sources g),
              g_names := add_once (a_name a) (g_names g), g_mappings := g_mappings g @ [m]\<rparr>"
    using addMapping_Inr [OF Inr] .
  then have m: "valid_mapping m" "msource m = a_source a" "mname m = a_name a"
    "g_mappings g' = g_mappings g @ [m]" by simp_all
  moreover have "generatedLine m = the (pline (the (a_generated a)))
      \<and> generatedColumn m = the (pcolumn (the (a_generated a)))"
    using Inr m(4) by (auto simp: addMapping_def getArg_def Let_def split: option.splits elim!: bindR_InrE)
  moreover have "args_valid a" using Inr addMapping_ok_iff by blast
  ultimately show ?thesis using Inr by auto
qed

text \<open>
  Removing the content of a source from a generator that has no contents throws a
  \<^verbatim>\<open>TypeError\<close> instead of doing nothing; when there are contents, it removes that entry.
\<close>

theorem setSourceContent_null:
  "setSourceContent f None g =
     (case g_sourcesContents g of
        None \<Rightarrow> Inl (TypeError (js ''Cannot convert undefined or null to object''))
      | Some cs \<Rightarrow> Inr (g\<lparr>g_sourcesContents :=
          (let key = toSetString (if truthy (g_sourceRoot g) then sm_relative (the (g_sourceRoot g)) f else f);
               rest = filter (\<lambda>kv. fst kv \<noteq> key) cs
           in if rest = [] then None else Some rest)\<rparr>))"
proof (cases "g_sourcesContents g")
  case (Some cs)
  have "AList.delete k cs = filter (\<lambda>kv. fst kv \<noteq> k) cs" for k
    unfolding AList.delete_eq by (rule filter_cong) auto
  then show ?thesis using Some by (simp add: setSourceContent_def Let_def)
qed (simp add: setSourceContent_def Let_def)

end
