(* ===== verification/SmConsumer.thy ===== *)
theory SmConsumer
  imports SmGenerator
begin

text \<open>
  The module \<^verbatim>\<open>source-map/source-map-consumer\<close>. A consumer parses the \<^verbatim>\<open>mappings\<close> string the
  first time a position is asked for and keeps the two sorted arrays; a parse that throws leaves
  the mappings it had read, so an operation returns the consumer's new state beside its result.
\<close>

subsection \<open>State\<close>

record consumer =
  c_names :: array_set
  c_sources :: array_set
  c_sourceRoot :: "jsstring option"
  c_sourcesContent :: "jsstring option list option"
  c_mappings :: jsstring
  c_file :: "jsstring option"
  c_generated :: "mapping list option"
  c_original :: "mapping list option"

text \<open>
  The constructor, on a source map that is already an object; \<^verbatim>\<open>null\<close> and a missing property are
  both \<open>None\<close>.
\<close>

definition SourceMapConsumer :: "raw_map \<Rightarrow> consumer res" where
  "SourceMapConsumer sourceMap =
     bindR (getArg (r_version sourceMap) ''version'' None) (\<lambda>version.
     bindR (getArg (r_sources sourceMap) ''sources'' None) (\<lambda>sources.
     bindR (getArg (r_names sourceMap) ''names'' (Some [])) (\<lambda>names.
     bindR (getArg (r_mappings sourceMap) ''mappings'' None) (\<lambda>mappings.
       if version \<noteq> 3 then Inl (Error (js ''Unsupported version: '' @ js_of_int version))
       else Inr \<lparr>c_names = ArraySet_fromArray names True, c_sources = ArraySet_fromArray sources True,
                 c_sourceRoot = r_sourceRoot sourceMap, c_sourcesContent = r_sourcesContent sourceMap,
                 c_mappings = mappings, c_file = r_file sourceMap, c_generated = None,
                 c_original = None\<rparr>))))"

definition SourceMapConsumer_fromSourceMap :: "generator \<Rightarrow> consumer" where
  "SourceMapConsumer_fromSourceMap g =
     (let names = ArraySet_fromArray (ArraySet_toArray (g_names g)) True;
          sources = ArraySet_fromArray (ArraySet_toArray (g_sources g)) True
      in \<lparr>c_names = names, c_sources = sources, c_sourceRoot = g_sourceRoot g,
          c_sourcesContent =
            Some (generateSourcesContent g (ArraySet_toArray sources) (g_sourceRoot g)),
          c_mappings = [], c_file = g_file g,
          c_generated = Some (js_sort gen_order (g_mappings g)),
          c_original = Some (js_sort orig_order (g_mappings g))\<rparr>)"

definition join_root :: "jsstring option \<Rightarrow> jsstring option \<Rightarrow> jsstring option" where
  "join_root root s = (if truthy s \<and> truthy root then Some (sm_join (the root) (the s)) else s)"

definition consumer_sources :: "consumer \<Rightarrow> jsstring list" where
  "consumer_sources this =
     map (\<lambda>s. if truthy (c_sourceRoot this) then sm_join (the (c_sourceRoot this)) s else s)
       (ArraySet_toArray (c_sources this))"

subsection \<open>Parsing\<close>

record parse_state =
  p_genLine :: int
  p_genColumn :: int
  p_origLine :: int
  p_origColumn :: int
  p_source :: int
  p_name :: int
  p_generated :: "mapping list"
  p_original :: "mapping list"

definition parse_init :: parse_state where
  "parse_init = \<lparr>p_genLine = 1, p_genColumn = 0, p_origLine = 0, p_origColumn = 0, p_source = 0,
                 p_name = 0, p_generated = [], p_original = []\<rparr>"

text \<open>\<^verbatim>\<open>mappingSeparator.test(str.charAt(0))\<close>, and the test that a field follows.\<close>

definition at_separator :: "jsstring \<Rightarrow> bool" where
  "at_separator str \<longleftrightarrow> charAt str 0 = js '','' \<or> charAt str 0 = js '';''"

definition parse_name ::
    "consumer \<Rightarrow> jsstring \<Rightarrow> mapping \<Rightarrow> parse_state \<Rightarrow> (jsstring \<times> mapping \<times> parse_state) res" where
  "parse_name this str mapping st =
     (if length str > 0 \<and> \<not> at_separator str then
        bindR (base64VLQ_decode str) (\<lambda>(v, rest).
        bindR (ArraySet_at (c_names this) (p_name st + v)) (\<lambda>n.
          Inr (rest, mapping\<lparr>mname := Some n\<rparr>, st\<lparr>p_name := p_name st + v\<rparr>)))
      else Inr (str, mapping, st))"

definition parse_source ::
    "consumer \<Rightarrow> jsstring \<Rightarrow> mapping \<Rightarrow> parse_state \<Rightarrow> (jsstring \<times> mapping \<times> parse_state) res" where
  "parse_source this str mapping st =
     (if length str > 0 \<and> \<not> at_separator str then
        bindR (base64VLQ_decode str) (\<lambda>(v, str).
        bindR (ArraySet_at (c_sources this) (p_source st + v)) (\<lambda>s.
          let mapping = mapping\<lparr>msource := Some s\<rparr>; st = st\<lparr>p_source := p_source st + v\<rparr> in
          if length str = 0 \<or> at_separator str
          then Inl (Error (js ''Found a source, but no line and column''))
          else bindR (base64VLQ_decode str) (\<lambda>(v, str).
            let st = st\<lparr>p_origLine := p_origLine st + v\<rparr>;
                mapping = mapping\<lparr>originalLine := JNum (p_origLine st + 1)\<rparr> in
            if length str = 0 \<or> at_separator str
            then Inl (Error (js ''Found a source and line, but no column''))
            else bindR (base64VLQ_decode str) (\<lambda>(v, str).
              let st = st\<lparr>p_origColumn := p_origColumn st + v\<rparr>;
                  mapping = mapping\<lparr>originalColumn := JNum (p_origColumn st)\<rparr>
              in parse_name this str mapping st))))
      else Inr (str, mapping, st))"

definition is_number :: "jsnum \<Rightarrow> bool" where
  "is_number n \<longleftrightarrow> (case n of JNum _ \<Rightarrow> True | _ \<Rightarrow> False)"

definition push_mapping :: "mapping \<Rightarrow> parse_state \<Rightarrow> parse_state" where
  "push_mapping mapping st =
     st\<lparr>p_generated := p_generated st @ [mapping],
        p_original := (if is_number (originalLine mapping) then p_original st @ [mapping]
                       else p_original st)\<rparr>"

definition parse_segment :: "consumer \<Rightarrow> jsstring \<Rightarrow> parse_state \<Rightarrow> (jsstring \<times> parse_state) res" where
  "parse_segment this str st =
     bindR (base64VLQ_decode str) (\<lambda>(v, rest).
       let st = st\<lparr>p_genColumn := p_genColumn st + v\<rparr>;
           mapping = \<lparr>generatedLine = p_genLine st, generatedColumn = p_genColumn st,
                      originalLine = JUndef, originalColumn = JUndef, msource = None, mname = None\<rparr>
       in bindR (parse_source this rest mapping st)
            (\<lambda>(rest, mapping, st). Inr (rest, push_mapping mapping st)))"

text \<open>Each quantity takes at least one character, so the loop ends.\<close>

lemma decode_loop_shorter: "decode_loop dec s r k = Inr (v, rest) \<Longrightarrow> length rest < length s"
proof (induction s arbitrary: r k)
  case (Cons c s)
  then obtain d where "dec [c] = Inr d" by (auto elim: bindR_InrE)
  with Cons show ?case by (fastforce simp: Let_def split: if_splits dest: less_SucI)
qed simp

lemma vlq_shorter: "base64VLQ_decode s = Inr (v, rest) \<Longrightarrow> length rest < length s"
  using decode_loop_shorter
  by (fastforce simp: base64VLQ_decode_def mapR_def split: sum.splits)

lemma parse_name_shorter: "parse_name c s m st = Inr (s', m', st') \<Longrightarrow> length s' \<le> length s"
  using vlq_shorter
  by (fastforce simp: parse_name_def bindR_Inr_iff split: if_splits)

lemma parse_source_shorter: "parse_source c s m st = Inr (s', m', st') \<Longrightarrow> length s' \<le> length s"
  by (fastforce simp: parse_source_def bindR_Inr_iff Let_def split: if_splits
      dest!: vlq_shorter parse_name_shorter)

lemma parse_segment_shorter: "parse_segment c s st = Inr (s', st') \<Longrightarrow> length s' < length s"
  by (fastforce simp: parse_segment_def bindR_Inr_iff Let_def dest!: vlq_shorter parse_source_shorter)

text \<open>The loop gives the state it stopped in, and the error if it threw.\<close>

function parse_loop :: "consumer \<Rightarrow> jsstring \<Rightarrow> parse_state \<Rightarrow> parse_state \<times> js_error option" where
  "parse_loop this str st =
     (if length str > 0 then
        if charAt str 0 = js '';'' then
          parse_loop this (slice_from 1 str) (st\<lparr>p_genLine := p_genLine st + 1, p_genColumn := 0\<rparr>)
        else if charAt str 0 = js '','' then parse_loop this (slice_from 1 str) st
        else case parse_segment this str st of
               Inl e \<Rightarrow> (st, Some e)
             | Inr (str', st') \<Rightarrow> parse_loop this str' st'
      else (st, None))"
  by pat_completeness auto
termination
  by (relation "measure (\<lambda>(c, s, st). length s)") (auto dest: parse_segment_shorter)

declare parse_loop.simps [simp del]

text \<open>
  \<^verbatim>\<open>_parseMappings\<close> and the two lazy getters. The original mappings are sorted only when the whole
  string has been read.
\<close>

definition parseMappings :: "consumer \<Rightarrow> consumer \<times> js_error option" where
  "parseMappings this =
     (let (st, err) = parse_loop this (c_mappings this) parse_init
      in (this\<lparr>c_generated := Some (p_generated st),
               c_original := Some (if err = None then js_sort orig_order (p_original st)
                                   else p_original st)\<rparr>, err))"

definition generatedMappings :: "consumer \<Rightarrow> consumer \<times> mapping list res" where
  "generatedMappings this =
     (case c_generated this of
        Some ms \<Rightarrow> (this, Inr ms)
      | None \<Rightarrow>
          (case parseMappings this of
             (this', None) \<Rightarrow> (this', Inr (the (c_generated this')))
           | (this', Some e) \<Rightarrow> (this', Inl e)))"

definition originalMappings :: "consumer \<Rightarrow> consumer \<times> mapping list res" where
  "originalMappings this =
     (case c_original this of
        Some ms \<Rightarrow> (this, Inr ms)
      | None \<Rightarrow>
          (case parseMappings this of
             (this', None) \<Rightarrow> (this', Inr (the (c_original this')))
           | (this', Some e) \<Rightarrow> (this', Inl e)))"

subsection \<open>Queries\<close>

definition findMapping ::
    "mapping \<Rightarrow> mapping list \<Rightarrow> int \<Rightarrow> int \<Rightarrow> mapping compare \<Rightarrow> mapping option res" where
  "findMapping aNeedle aMappings line column aComparator =
     (if line \<le> 0
      then Inl (TypeError (js ''Line must be greater than or equal to 1, got '' @ js_of_int line))
      else if column < 0
      then Inl (TypeError (js ''Column must be greater than or equal to 0, got '' @ js_of_int column))
      else Inr (search aNeedle aMappings aComparator))"

record original_position =
  op_source :: "jsstring option"
  op_line :: jsnum
  op_column :: jsnum
  op_name :: "jsstring option"

definition or_null :: "jsnum \<Rightarrow> jsnum" where
  "or_null n = (if n = JUndef then JNull else n)"

definition null_position :: original_position where
  "null_position = \<lparr>op_source = None, op_line = JNull, op_column = JNull, op_name = None\<rparr>"

text \<open>
  \<^verbatim>\<open>originalPositionFor({line, column})\<close>. The needle has only a generated position; the comparison
  reads nothing else of it.
\<close>

definition generated_needle :: "int \<Rightarrow> int \<Rightarrow> mapping" where
  "generated_needle line column =
     \<lparr>generatedLine = line, generatedColumn = column, originalLine = JNull, originalColumn = JNull,
      msource = None, mname = None\<rparr>"

definition originalPositionFor ::
    "int option \<Rightarrow> int option \<Rightarrow> consumer \<Rightarrow> consumer \<times> original_position res" where
  "originalPositionFor aLine aColumn this =
     (case bindR (getArg aLine ''line'' None) (\<lambda>l. mapR (Pair l) (getArg aColumn ''column'' None)) of
        Inl e \<Rightarrow> (this, Inl e)
      | Inr (line, column) \<Rightarrow>
          let (this', ms) = generatedMappings this in
          (this', bindR ms (\<lambda>ms.
             bindR (findMapping (generated_needle line column) ms line column gen_needle) (\<lambda>m.
               Inr (case m of
                 None \<Rightarrow> null_position
               | Some mapping \<Rightarrow>
                   \<lparr>op_source = join_root (c_sourceRoot this) (msource mapping),
                    op_line = or_null (originalLine mapping),
                    op_column = or_null (originalColumn mapping),
                    op_name = mname mapping\<rparr>)))))"

text \<open>\<^verbatim>\<open>generatedPositionFor({source, line, column})\<close>; a result of \<open>None\<close> is \<^verbatim>\<open>{line: null, column: null}\<close>.\<close>

definition original_needle :: "jsstring option \<Rightarrow> int \<Rightarrow> int \<Rightarrow> mapping" where
  "original_needle src line column =
     \<lparr>generatedLine = 0, generatedColumn = 0, originalLine = JNum line, originalColumn = JNum column,
      msource = src, mname = None\<rparr>"

definition generatedPositionFor ::
    "jsstring option \<Rightarrow> int option \<Rightarrow> int option \<Rightarrow> consumer \<Rightarrow> consumer \<times> (int \<times> int) option res" where
  "generatedPositionFor aSource aLine aColumn this =
     (case bindR (getArg aSource ''source'' None) (\<lambda>s.
           bindR (getArg aLine ''line'' None) (\<lambda>l. mapR (\<lambda>c. (s, l, c)) (getArg aColumn ''column'' None))) of
        Inl e \<Rightarrow> (this, Inl e)
      | Inr (src, line, column) \<Rightarrow>
          let src = (if truthy (c_sourceRoot this) then sm_relative (the (c_sourceRoot this)) src else src);
              (this', ms) = originalMappings this in
          (this', bindR ms (\<lambda>ms.
             bindR (findMapping (original_needle (Some src) line column) ms line column orig_needle) (\<lambda>m.
               Inr (map_option (\<lambda>mapping. (generatedLine mapping, generatedColumn mapping)) m)))))"

text \<open>\<^verbatim>\<open>sourceContentFor\<close>: \<open>None\<close> is \<^verbatim>\<open>null\<close>; an index past the contents array gives no content.\<close>

definition content_at :: "consumer \<Rightarrow> jsstring \<Rightarrow> jsstring option res" where
  "content_at this s =
     mapR (\<lambda>i. case js_index (the (c_sourcesContent this)) i of None \<Rightarrow> None | Some c \<Rightarrow> c)
       (ArraySet_indexOf (c_sources this) s)"

definition sourceContentFor :: "jsstring \<Rightarrow> consumer \<Rightarrow> jsstring option res" where
  "sourceContentFor aSource this =
     (if c_sourcesContent this = None then Inr None
      else
        let aSource = (if truthy (c_sourceRoot this) then sm_relative (the (c_sourceRoot this)) aSource
                       else aSource);
            missing = Inl (Error (js ''\"'' @ aSource @ js ''\" is not in the SourceMap.''))
        in if ArraySet_has (c_sources this) aSource then content_at this aSource
           else case (if truthy (c_sourceRoot this) then urlParse (the (c_sourceRoot this)) else None) of
                  None \<Rightarrow> missing
                | Some url \<Rightarrow>
                    let fileUriAbsPath = (if starts_with (js ''file://'') aSource
                                          then slice_from 7 aSource else aSource)
                    in if scheme url = Some (js ''file'') \<and> ArraySet_has (c_sources this) fileUriAbsPath
                       then content_at this fileUriAbsPath
                       else if (\<not> truthy (upath url) \<or> upath url = Some (js ''/''))
                               \<and> ArraySet_has (c_sources this) (js ''/'' @ aSource)
                       then content_at this (js ''/'' @ aSource)
                       else missing)"

datatype iteration_order = GENERATED_ORDER | ORIGINAL_ORDER

text \<open>\<^verbatim>\<open>eachMapping\<close>: the objects passed to the callback, in order.\<close>

definition eachMapping :: "iteration_order \<Rightarrow> consumer \<Rightarrow> consumer \<times> mapping list res" where
  "eachMapping order this =
     (let (this', ms) = (case order of
            GENERATED_ORDER \<Rightarrow> generatedMappings this
          | ORIGINAL_ORDER \<Rightarrow> originalMappings this)
      in (this', mapR (map (\<lambda>m. m\<lparr>msource := join_root (c_sourceRoot this) (msource m)\<rparr>)) ms))"

subsection \<open>Properties of the queries\<close>

text \<open>
  The searches compare positions only, so they need the array sorted by position and nothing of
  the other fields; in particular a mapping without an original position may be among them.
\<close>

interpretation gen_position: comparator gen_needle "\<lambda>_. True"
  unfolding gen_needle_chain by (intro comparator_then comparator_diff)

lemma comparator_needle: "comparator f C \<Longrightarrow> needle_comparator f C f C"
proof (rule needle_comparator.intro, assumption, rule needle_comparator_axioms.intro)
  fix n x assume "comparator f C" "C n" "C x"
  then show "f n x \<noteq> None" by (rule comparator.never_nan)
next
  fix n x y i j
  assume c: "comparator f C" and C: "C n" "C x" "C y" and le: "cmp_le f x y"
    and ij: "f n x = Some i" "f n y = Some j"
  obtain k where k: "f x n = Some k" using comparator.cmp_number [OF c C(2,1)] .
  obtain l where l: "f y n = Some l" using comparator.cmp_number [OF c C(3,1)] .
  note s = comparator.antisym [OF c C(1,2) ij(1) k] comparator.antisym [OF c C(1,3) ij(2) l]
  have "cmp_le f n x \<Longrightarrow> cmp_le f n y" "cmp_le f y n \<Longrightarrow> cmp_le f x n"
    using comparator.trans [OF c] C le by blast+
  then show "(0 < j \<longrightarrow> 0 < i) \<and> (i < 0 \<longrightarrow> j < 0)"
    using s ij k l by (auto simp: cmp_le_def sgn_if split: if_splits)
qed

interpretation gen_closest: needle_comparator gen_needle "\<lambda>_. True" gen_needle "\<lambda>_. True"
  by (rule comparator_needle) (rule gen_position.comparator_axioms)

text \<open>Positions in the generated file, in reading order.\<close>

definition at_or_before :: "int \<times> int \<Rightarrow> int \<times> int \<Rightarrow> bool" where
  "at_or_before p q \<longleftrightarrow> fst p < fst q \<or> (fst p = fst q \<and> snd p \<le> snd q)"

abbreviation gen_pos :: "mapping \<Rightarrow> int \<times> int" where
  "gen_pos m \<equiv> (generatedLine m, generatedColumn m)"

lemma gen_needle_cases:
  obtains i where "gen_needle n x = Some i" and "i \<ge> 0 \<longleftrightarrow> at_or_before (gen_pos x) (gen_pos n)"
    and "i \<le> 0 \<longleftrightarrow> at_or_before (gen_pos n) (gen_pos x)"
  by (cases "generatedLine n < generatedLine x"; cases "generatedLine n = generatedLine x")
    (auto simp: gen_needle_chain then_cmp_def at_or_before_def)

lemma gen_needle_le: "cmp_le gen_needle a b \<longleftrightarrow> at_or_before (gen_pos a) (gen_pos b)"
proof -
  obtain i where "gen_needle a b = Some i" "i \<le> 0 \<longleftrightarrow> at_or_before (gen_pos a) (gen_pos b)"
    using gen_needle_cases [of a b] by metis
  then show ?thesis by (simp add: cmp_le_def)
qed

text \<open>What a query for the closest mapping promises.\<close>

definition closest :: "mapping list \<Rightarrow> int \<times> int \<Rightarrow> mapping option \<Rightarrow> bool" where
  "closest ms pos r \<longleftrightarrow>
     (case r of
        None \<Rightarrow> \<forall>m \<in> set ms. \<not> at_or_before (gen_pos m) pos
      | Some m \<Rightarrow> m \<in> set ms \<and> at_or_before (gen_pos m) pos
          \<and> (\<forall>m' \<in> set ms. at_or_before (gen_pos m') pos \<longrightarrow> at_or_before (gen_pos m') (gen_pos m)))"

lemma search_closest:
  assumes "sorted_wrt (\<lambda>a b. at_or_before (gen_pos a) (gen_pos b)) ms"
  shows "closest ms (gen_pos n) (search n ms gen_needle)"
proof -
  let ?s = "\<lambda>x. the (gen_needle n x)" and ?r = "search n ms gen_needle"
  have s: "(?s x \<ge> 0 \<longleftrightarrow> at_or_before (gen_pos x) (gen_pos n))
      \<and> (?s x \<le> 0 \<longleftrightarrow> at_or_before (gen_pos n) (gen_pos x))" for x
    by (rule gen_needle_cases [of n x]) simp
  have "sorted_wrt (cmp_le gen_needle) ms"
    using assms by (simp add: gen_needle_le [abs_def])
  then have r: "search_result ?s ms ?r" using gen_closest.search_correct [of ms n] by simp
  show ?thesis
  proof (cases ?r)
    case None
    then show ?thesis using r s by (auto simp: search_result_def closest_def simp flip: s)
  next
    case (Some x)
    then have x: "x \<in> set ms" "at_or_before (gen_pos x) (gen_pos n)"
      using r s [of x] by (auto simp: search_result_def)
    have "at_or_before (gen_pos y) (gen_pos x)"
      if y: "y \<in> set ms" "at_or_before (gen_pos y) (gen_pos n)" for y
    proof (cases "?s x = 0")
      case True
      then have "at_or_before (gen_pos n) (gen_pos x)" using s [of x] by simp
      with y(2) show ?thesis by (auto simp: at_or_before_def)
    next
      case False
      then obtain i where i: "i < length ms" "ms ! i = x"
        "\<forall>j. i < j \<longrightarrow> j < length ms \<longrightarrow> ?s (ms ! j) < 0"
        using r Some by (auto simp: search_result_def)
      obtain j where j: "j < length ms" "ms ! j = y" using y(1) by (auto simp: in_set_conv_nth)
      have "\<not> i < j" using i(3) j s [of y] y(2) by force
      then consider "j = i" | "j < i" by linarith
      then show ?thesis
      proof cases
        case 1
        then show ?thesis using i j by (auto simp: at_or_before_def)
      next
        case 2
        then show ?thesis using sorted_wrt_nth_less [OF assms 2 i(1)] i j by simp
      qed
    qed
    with x Some show ?thesis by (simp add: closest_def)
  qed
qed


definition demo_consumer :: "string \<Rightarrow> consumer" where
  "demo_consumer mappings = projr (SourceMapConsumer
     \<lparr>r_version = Some 3, r_sources = Some [js ''a.js''], r_names = None, r_sourceRoot = None,
      r_sourcesContent = None, r_mappings = Some (js mappings), r_file = None\<rparr>)"

lemma demo_consumer_simps [simp]:
  "c_generated (demo_consumer s) = None" "c_sourceRoot (demo_consumer s) = None"
  by (simp_all add: demo_consumer_def SourceMapConsumer_def getArg_def)


text \<open>
  A query on a position that is not in the file throws: a line below 1 or a column below 0
  is never searched for.
\<close>

theorem query_outside_file:
  assumes "c_generated c = Some ms" and "line \<le> 0 \<or> column < 0"
  shows "\<exists>msg. originalPositionFor (Some line) (Some column) c = (c, Inl (TypeError msg))"
  using assms by (auto simp: originalPositionFor_def getArg_def generatedMappings_def findMapping_def)

theorem query_outside_file_witness:
  "\<exists>msg. originalPositionFor (Some 0) (Some 3) (demo_consumer ''A''\<lparr>c_generated := Some []\<rparr>)
     = (demo_consumer ''A''\<lparr>c_generated := Some []\<rparr>, Inl (TypeError msg))"
  by (rule query_outside_file [where ms = "[]"]) simp_all



end
