(* ===== verification/SmRoundtrip.thy ===== *)
theory SmRoundtrip
  imports SmConsumer
begin

text \<open>
  What the generator writes the consumer reads. The proof is a simulation: the writer's running
  state and the reader's running state stay equal field by field, segment by segment.
\<close>

subsection \<open>Statement\<close>

text \<open>A mapping as the consumer sees it: fields that were not written are missing.\<close>

definition read_back :: "mapping \<Rightarrow> mapping" where
  "read_back m =
     (if truthy (msource m) then m\<lparr>mname := (if truthy (mname m) then mname m else None)\<rparr>
      else m\<lparr>originalLine := JUndef, originalColumn := JUndef, msource := None, mname := None\<rparr>)"

text \<open>The writer skips a mapping that compares equal to the one before it.\<close>

fun drop_repeats :: "mapping option \<Rightarrow> mapping list \<Rightarrow> mapping list" where
  "drop_repeats prev [] = []"
| "drop_repeats prev (m # ms) =
     (if (case prev of None \<Rightarrow> False | Some p \<Rightarrow> gen_order m p = Some 0)
      then drop_repeats (Some m) ms else m # drop_repeats (Some m) ms)"

text \<open>
  The quantities a source map can carry: below \<open>2 ^ 30\<close>, where the quantity codec is exact.
\<close>

definition in_range :: "int \<Rightarrow> bool" where
  "in_range v \<longleftrightarrow> 0 \<le> v \<and> v < 2 ^ 30"

definition mapping_in_range :: "mapping \<Rightarrow> bool" where
  "mapping_in_range m \<longleftrightarrow> in_range (generatedColumn m) \<and>
     (truthy (msource m) \<longrightarrow>
        in_range (num_of (originalLine m) - 1) \<and> in_range (num_of (originalColumn m)))"

definition gen_in_range :: "generator \<Rightarrow> bool" where
  "gen_in_range g \<longleftrightarrow> (\<forall>m \<in> set (g_mappings g). mapping_in_range m)
     \<and> length (ArraySet_toArray (g_sources g)) \<le> 2 ^ 30
     \<and> length (ArraySet_toArray (g_names g)) \<le> 2 ^ 30"

subsection \<open>One segment\<close>

text \<open>The consumer and the generator agree on the tables of sources and names.\<close>

definition same_tables :: "generator \<Rightarrow> consumer \<Rightarrow> bool" where
  "same_tables g c \<longleftrightarrow> as_inv (c_sources c) \<and> as_inv (c_names c)
     \<and> ArraySet_toArray (c_sources c) = ArraySet_toArray (g_sources g)
     \<and> ArraySet_toArray (c_names c) = ArraySet_toArray (g_names g)"

definition ser_range :: "ser_state \<Rightarrow> bool" where
  "ser_range st \<longleftrightarrow> in_range (s_genColumn st) \<and> in_range (s_origColumn st) \<and> in_range (s_origLine st)
     \<and> in_range (s_name st) \<and> in_range (s_source st)"

definition in_step :: "ser_state \<Rightarrow> parse_state \<Rightarrow> bool" where
  "in_step st p \<longleftrightarrow> p_genLine p = s_genLine st \<and> p_genColumn p = s_genColumn st
     \<and> p_origLine p = s_origLine st \<and> p_origColumn p = s_origColumn st
     \<and> p_source p = s_source st \<and> p_name p = s_name st"

definition ends_segment :: "jsstring \<Rightarrow> bool" where
  "ends_segment rest \<longleftrightarrow> rest = [] \<or> at_separator rest"

lemma separators_not_digits: "44 \<notin> set base64_alphabet" "59 \<notin> set base64_alphabet"
  by (simp_all add: base64_alphabet_def js_eval)

lemma digit_not_separator:
  "\<lbrakk>w \<noteq> []; set w \<subseteq> set base64_alphabet\<rbrakk> \<Longrightarrow> \<not> at_separator (w @ rest)"
  using separators_not_digits
  by (cases w) (auto simp: at_separator_def charAt_def js_eval)

text \<open>\<open>w\<close> is the digits of \<open>v\<close>: written for it, read back as it, and not a separator.\<close>

definition spells :: "jsstring \<Rightarrow> int \<Rightarrow> bool" where
  "spells w v \<longleftrightarrow> (\<forall>st. put_vlq v st = Inr (st\<lparr>s_result := s_result st @ w\<rparr>)) \<and> w \<noteq> []
     \<and> (\<forall>rest. \<not> at_separator (w @ rest) \<and> base64VLQ_decode (w @ rest) = Inr (v, rest))"

lemma delta_spelled:
  assumes "in_range a" and "in_range b"
  shows "\<exists>w. spells w (a - b)"
proof -
  have "- (2 ^ 30) < a - b" "a - b < 2 ^ 30" using assms by (auto simp: in_range_def)
  from base64VLQ_decode_encode [OF this] obtain w where
    "base64VLQ_encode (a - b) = Inr w" "w \<noteq> []" "set w \<subseteq> set base64_alphabet"
    "\<And>rest. base64VLQ_decode (w @ rest) = Inr (a - b, rest)" by blast
  then have "spells w (a - b)" by (simp add: spells_def put_vlq_def digit_not_separator)
  then show ?thesis ..
qed

lemma registered_index:
  assumes "as_inv t" and "as_inv t'" and "ArraySet_toArray t' = ArraySet_toArray t"
    and "registered t s" and "truthy s" and "length (ArraySet_toArray t) \<le> 2 ^ 30"
  obtains i where "ArraySet_indexOf t (the s) = Inr i" and "ArraySet_at t' i = Inr (the s)"
    and "in_range i"
proof -
  obtain i where i: "ArraySet_indexOf t (the s) = Inr i"
    using assms(1,4,5) aset.indexOf_total by (auto simp: registered_def)
  have "ArraySet_at t' i = Inr (the s)"
    using aset.at_indexOf [OF assms(1) i] aset.at_array [of t' t] assms by simp
  moreover have "in_range i"
    using aset.indexOf_bounds [OF assms(1) i] assms(6) by (auto simp: in_range_def)
  ultimately show thesis using that i by blast
qed

text \<open>
  The name of a mapping: the writer appends \<open>w\<close> and remembers index \<open>n\<close>; the reader consumes
  \<open>w\<close>, stores the name and remembers \<open>n\<close>.
\<close>

definition name_step :: "generator \<Rightarrow> consumer \<Rightarrow> mapping \<Rightarrow> ser_state \<Rightarrow> jsstring \<Rightarrow> int \<Rightarrow> bool" where
  "name_step g c m st w n \<longleftrightarrow>
     serialize_name g m st = Inr (st\<lparr>s_result := s_result st @ w, s_name := n\<rparr>) \<and>
     (\<forall>rest mp p. ends_segment rest \<longrightarrow> p_name p = s_name st \<longrightarrow>
        parse_name c (w @ rest) mp p =
          Inr (rest, mp\<lparr>mname := (if truthy (mname m) then mname m else mname mp)\<rparr>, p\<lparr>p_name := n\<rparr>))"

lemma name_segment:
  assumes "gen_inv g" and "same_tables g c" and "registered (g_names g) (mname m)"
    and "length (ArraySet_toArray (g_names g)) \<le> 2 ^ 30" and "in_range (s_name st)"
  shows "\<exists>w n. name_step g c m st w n \<and> in_range n"
proof (cases "truthy (mname m)")
  case True
  obtain n where n: "ArraySet_indexOf (g_names g) (the (mname m)) = Inr n"
    "ArraySet_at (c_names c) n = Inr (the (mname m))" "in_range n"
    using assms True by (auto simp: gen_inv_def same_tables_def elim: registered_index)
  obtain w where "spells w (n - s_name st)" using delta_spelled [OF n(3) assms(5)] by blast
  then have "name_step g c m st w n"
    using True n by (auto simp: name_step_def serialize_name_def parse_name_def truthy_def spells_def)
  then show ?thesis using n(3) by blast
next
  case False
  then have "name_step g c m st [] (s_name st)"
    by (auto simp: name_step_def serialize_name_def parse_name_def ends_segment_def)
  then show ?thesis using assms(5) by blast
qed

text \<open>The fields after the generated column, for a mapping with a source.\<close>

definition source_step ::
    "generator \<Rightarrow> consumer \<Rightarrow> mapping \<Rightarrow> ser_state \<Rightarrow> jsstring \<Rightarrow> int \<Rightarrow> int \<Rightarrow> int \<Rightarrow> int \<Rightarrow> bool" where
  "source_step g c m st w i l co n \<longleftrightarrow>
     serialize_source g m st = Inr (st\<lparr>s_result := s_result st @ w, s_source := i, s_origLine := l,
       s_origColumn := co, s_name := n\<rparr>) \<and>
     (\<forall>rest mp p. ends_segment rest \<longrightarrow> in_step st p \<longrightarrow>
        parse_source c (w @ rest) mp p =
          Inr (rest, mp\<lparr>originalLine := originalLine m, originalColumn := originalColumn m,
                 msource := msource m, mname := (if truthy (mname m) then mname m else mname mp)\<rparr>,
               p\<lparr>p_source := i, p_origLine := l, p_origColumn := co, p_name := n\<rparr>))"

lemma source_segment:
  assumes "gen_inv g" and "same_tables g c" and "valid_mapping m" and "mapping_in_range m"
    and "registered (g_sources g) (msource m)" and "registered (g_names g) (mname m)"
    and "gen_in_range g" and "ser_range st" and "truthy (msource m)"
  shows "\<exists>w i l co n. source_step g c m st w i l co n
           \<and> in_range i \<and> in_range l \<and> in_range co \<and> in_range n"
proof -
  obtain ol oc where o: "originalLine m = JNum ol" "originalColumn m = JNum oc"
    using assms(3,9) by (auto simp: valid_mapping_def has_original_def lacks_original_def)
  then have rng: "in_range (ol - 1)" "in_range oc"
    using assms(4,9) by (auto simp: mapping_in_range_def num_of_def)
  obtain i where i: "ArraySet_indexOf (g_sources g) (the (msource m)) = Inr i"
    "ArraySet_at (c_sources c) i = Inr (the (msource m))" "in_range i"
    using assms by (auto simp: gen_inv_def same_tables_def gen_in_range_def elim: registered_index)
  have st: "in_range (s_source st)" "in_range (s_origLine st)" "in_range (s_origColumn st)"
    "in_range (s_name st)" using assms(8) by (simp_all add: ser_range_def)
  obtain w1 where w1: "spells w1 (i - s_source st)" using delta_spelled [OF i(3) st(1)] by blast
  obtain w2 where w2: "spells w2 (ol - 1 - s_origLine st)" using delta_spelled [OF rng(1) st(2)] by blast
  obtain w3 where w3: "spells w3 (oc - s_origColumn st)" using delta_spelled [OF rng(2) st(3)] by blast
  let ?st = "st\<lparr>s_source := i, s_origLine := ol - 1, s_result := s_result st @ w1 @ w2 @ w3,
      s_origColumn := oc\<rparr>"
  obtain w4 n where w4: "name_step g c m ?st w4 n" "in_range n"
    using name_segment [OF assms(1,2,6), of ?st] assms(7) st(4) by (auto simp: gen_in_range_def)
  have "serialize_source g m st = Inr (st\<lparr>s_result := s_result st @ w1 @ w2 @ w3 @ w4, s_source := i,
      s_origLine := ol - 1, s_origColumn := oc, s_name := n\<rparr>)"
    using assms(9) i(1) w1 w2 w3 w4(1) o
    by (simp add: serialize_source_def num_of_def Let_def spells_def name_step_def)
  moreover have "parse_source c ((w1 @ w2 @ w3 @ w4) @ rest) mp p =
        Inr (rest, mp\<lparr>originalLine := originalLine m, originalColumn := originalColumn m,
               msource := msource m, mname := (if truthy (mname m) then mname m else mname mp)\<rparr>,
             p\<lparr>p_source := i, p_origLine := ol - 1, p_origColumn := oc, p_name := n\<rparr>)"
    if "ends_segment rest" "in_step st p" for rest mp p
    using that assms(9) i(2) w1 w2 w3 w4(1) o
    by (simp add: parse_source_def Let_def truthy_def spells_def name_step_def in_step_def)
  ultimately have "source_step g c m st (w1 @ w2 @ w3 @ w4) i (ol - 1) oc n"
    by (simp add: source_step_def)
  then show ?thesis using i(3) rng w4(2) by blast
qed

text \<open>A whole segment.\<close>

definition segment_step ::
    "generator \<Rightarrow> consumer \<Rightarrow> mapping \<Rightarrow> ser_state \<Rightarrow> jsstring \<Rightarrow> ser_state \<Rightarrow> bool" where
  "segment_step g c m st w st' \<longleftrightarrow>
     serialize_mapping g m st = Inr st' \<and> s_result st' = s_result st @ w \<and> w \<noteq> []
     \<and> s_genLine st' = s_genLine st \<and> ser_range st' \<and>
     (\<forall>rest p. ends_segment rest \<longrightarrow> in_step st p \<longrightarrow> \<not> at_separator (w @ rest) \<and>
        (\<exists>p'. parse_segment c (w @ rest) p = Inr (rest, p') \<and> in_step st' p'
           \<and> p_generated p' = p_generated p @ [(read_back m)\<lparr>generatedLine := s_genLine st\<rparr>]
           \<and> p_original p' = p_original p @ (if truthy (msource m)
               then [(read_back m)\<lparr>generatedLine := s_genLine st\<rparr>] else [])))"

lemma mapping_segment:
  assumes "gen_inv g" and "same_tables g c" and "gen_in_range g" and "m \<in> set (g_mappings g)"
    and "ser_range st"
  shows "\<exists>w st'. segment_step g c m st w st'"
proof -
  have m: "valid_mapping m" "registered (g_sources g) (msource m)" "registered (g_names g) (mname m)"
    "mapping_in_range m"
    using assms by (auto simp: gen_inv_def gen_in_range_def)
  have gc: "in_range (generatedColumn m)" "in_range (s_genColumn st)"
    using m(4) assms(5) by (simp_all add: mapping_in_range_def ser_range_def)
  obtain w0 where w0: "spells w0 (generatedColumn m - s_genColumn st)"
    using delta_spelled [OF gc] by blast
  let ?st = "st\<lparr>s_result := s_result st @ w0, s_genColumn := generatedColumn m\<rparr>"
  have r: "ser_range ?st" using assms(5) gc by (simp add: ser_range_def)
  have ser: "serialize_mapping g m st = serialize_source g m ?st"
    using w0 by (simp add: serialize_mapping_def spells_def)
  show ?thesis
  proof (cases "truthy (msource m)")
    case True
    obtain w i l co n where s: "source_step g c m ?st w i l co n"
      "in_range i" "in_range l" "in_range co" "in_range n"
      using source_segment [OF assms(1,2) m(1,4,2,3) assms(3) r True] by blast
    have "is_number (originalLine m)"
      using m(1) True by (auto simp: valid_mapping_def has_original_def lacks_original_def is_number_def)
    then have "segment_step g c m st (w0 @ w)
        (?st\<lparr>s_result := s_result st @ w0 @ w, s_source := i, s_origLine := l, s_origColumn := co,
             s_name := n\<rparr>)"
      using s w0 ser r True
      by (auto simp: segment_step_def source_step_def spells_def ser_range_def in_step_def
          parse_segment_def push_mapping_def read_back_def Let_def)
    then show ?thesis by blast
  next
    case False
    then have "segment_step g c m st w0 ?st"
      using w0 ser r
      by (auto simp: segment_step_def serialize_source_def spells_def in_step_def parse_segment_def
          push_mapping_def read_back_def parse_source_def is_number_def ends_segment_def Let_def)
    then show ?thesis by blast
  qed
qed

subsection \<open>The loops\<close>

lemma parse_separators:
  "parse_loop c (replicate n 59 @ out) p =
     parse_loop c out (if n = 0 then p else p\<lparr>p_genLine := p_genLine p + int n, p_genColumn := 0\<rparr>)"
proof (induction n arbitrary: p)
  case (Suc n)
  have "parse_loop c (replicate (Suc n) 59 @ out) p =
      parse_loop c (replicate n 59 @ out) (p\<lparr>p_genLine := p_genLine p + 1, p_genColumn := 0\<rparr>)"
    by (subst parse_loop.simps) (simp add: charAt_def js_eval)
  then show ?case using Suc by (simp add: add.assoc)
qed simp

lemma parse_comma: "parse_loop c (44 # out) p = parse_loop c out p"
  by (subst parse_loop.simps) (simp add: charAt_def js_eval)

lemma parse_nil: "parse_loop c [] p = (p, None)"
  by (subst parse_loop.simps) simp

lemma parse_one_segment:
  assumes "s \<noteq> []" and "\<not> at_separator s" and "parse_segment c s p = Inr (rest, p')"
  shows "parse_loop c s p = parse_loop c rest p'"
  using assms by (subst parse_loop.simps) (simp add: at_separator_def)

definition with_original :: "mapping list \<Rightarrow> mapping list" where
  "with_original ms = filter (\<lambda>m. truthy (msource m)) ms"

lemma truthy_read_back [simp]: "truthy (msource (read_back m)) = truthy (msource m)"
  by (simp add: read_back_def truthy_def)

lemma read_back_line [simp]: "generatedLine (read_back m) = generatedLine m"
  by (simp add: read_back_def)

text \<open>What the reader makes of \<open>out\<close> is \<open>ms\<close>, from any state in step with the writer's.\<close>

definition reads_as :: "consumer \<Rightarrow> jsstring \<Rightarrow> ser_state \<Rightarrow> mapping list \<Rightarrow> bool" where
  "reads_as c out st ms \<longleftrightarrow> (\<forall>p. in_step st p \<longrightarrow>
     (\<exists>p'. parse_loop c out p = (p', None) \<and> p_generated p' = p_generated p @ ms
        \<and> p_original p' = p_original p @ with_original ms))"

lemma reads_segment:
  assumes "segment_step g c m st w st'" and "s_genLine st = generatedLine m"
    and "ends_segment out" and "reads_as c out st' ms"
  shows "reads_as c (w @ out) st (read_back m # ms)"
  unfolding reads_as_def
proof (intro allI impI)
  fix p assume p: "in_step st p"
  have w: "w \<noteq> []" "\<not> at_separator (w @ out)"
    using assms(1,3) p by (auto simp: segment_step_def)
  have rb: "(read_back m)\<lparr>generatedLine := s_genLine st\<rparr> = read_back m"
    using assms(2) by simp
  obtain p1 where p1: "parse_segment c (w @ out) p = Inr (out, p1)" "in_step st' p1"
    "p_generated p1 = p_generated p @ [read_back m]"
    "p_original p1 = p_original p @ (if truthy (msource m) then [read_back m] else [])"
    using assms(1,3) p unfolding segment_step_def rb by auto
  obtain p' where "parse_loop c out p1 = (p', None)" "p_generated p' = p_generated p1 @ ms"
    "p_original p' = p_original p1 @ with_original ms"
    using assms(4) p1(2) unfolding reads_as_def by blast
  then show "\<exists>p'. parse_loop c (w @ out) p = (p', None)
      \<and> p_generated p' = p_generated p @ read_back m # ms
      \<and> p_original p' = p_original p @ with_original (read_back m # ms)"
    using parse_one_segment [OF _ w(2) p1(1)] w(1) p1(3,4)
    by (intro exI [of _ p']) (simp add: with_original_def)
qed

lemma gen_order_zero_line: "gen_order m p = Some 0 \<Longrightarrow> generatedLine m = generatedLine p"
  by (auto simp: gen_order_chain then_cmp_def split: if_splits)

definition loop_result ::
    "generator \<Rightarrow> consumer \<Rightarrow> mapping option \<Rightarrow> mapping list \<Rightarrow> ser_state \<Rightarrow> jsstring \<Rightarrow> bool" where
  "loop_result g c prev ms st out \<longleftrightarrow>
     serialize_loop g prev ms st = Some (Inr (s_result st @ out))
     \<and> (prev \<noteq> None \<longrightarrow> ends_segment out)
     \<and> reads_as c out st (map read_back (drop_repeats prev ms))"

text \<open>The four ways the loop continues at a mapping.\<close>

lemma loop_new_line:
  assumes "segment_step g c m (st\<lparr>s_genColumn := 0, s_genLine := generatedLine m,
      s_result := s_result st @ replicate n 59\<rparr>) w st'"
    and "loop_result g c (Some m) ms st' out"
    and "n > 0" and "generatedLine m = s_genLine st + int n"
    and "\<forall>p. prev = Some p \<longrightarrow> s_genLine st = generatedLine p"
  shows "loop_result g c prev (m # ms) st (replicate n 59 @ w @ out)"
proof -
  let ?s = "st\<lparr>s_genColumn := 0, s_genLine := generatedLine m, s_result := s_result st @ replicate n 59\<rparr>"
  have keep: "drop_repeats prev (m # ms) = m # drop_repeats (Some m) ms"
    using assms(3-5) by (auto split: option.splits dest!: gen_order_zero_line)
  have r: "reads_as c (w @ out) ?s (read_back m # map read_back (drop_repeats (Some m) ms))"
    using assms(1,2) by (intro reads_segment) (auto simp: loop_result_def)
  have "reads_as c (replicate n 59 @ w @ out) st (map read_back (drop_repeats prev (m # ms)))"
    unfolding reads_as_def
  proof (intro allI impI)
    fix p assume "in_step st p"
    then have "in_step ?s (p\<lparr>p_genLine := p_genLine p + int n, p_genColumn := 0\<rparr>)"
      using assms(4) by (simp add: in_step_def)
    then show "\<exists>p'. parse_loop c (replicate n 59 @ w @ out) p = (p', None)
        \<and> p_generated p' = p_generated p @ map read_back (drop_repeats prev (m # ms))
        \<and> p_original p' = p_original p @ with_original (map read_back (drop_repeats prev (m # ms)))"
      using r assms(3) unfolding reads_as_def keep parse_separators by fastforce
  qed
  moreover have "ends_segment (replicate n 59 @ w @ out)"
    using assms(3) by (cases n) (auto simp: ends_segment_def at_separator_def charAt_def js_eval)
  moreover have "serialize_loop g prev (m # ms) st = Some (Inr (s_result st @ replicate n 59 @ w @ out))"
    using assms emit_lines_Some [of "s_genLine st" "generatedLine m" "s_result st"]
    by (simp add: segment_step_def loop_result_def)
  ultimately show ?thesis by (simp add: loop_result_def)
qed

lemma loop_first:
  assumes "segment_step g c m st w st'" and "loop_result g c (Some m) ms st' out"
    and "generatedLine m = s_genLine st"
  shows "loop_result g c None (m # ms) st (w @ out)"
proof -
  have "reads_as c (w @ out) st (read_back m # map read_back (drop_repeats (Some m) ms))"
    using assms by (intro reads_segment) (auto simp: loop_result_def)
  then show ?thesis using assms by (simp add: loop_result_def segment_step_def)
qed

lemma loop_repeated:
  assumes "loop_result g c (Some m) ms st out" and "generatedLine m = s_genLine st"
    and "gen_order m p = Some 0"
  shows "loop_result g c (Some p) (m # ms) st out"
  using assms by (simp add: loop_result_def gen_order_def)

lemma loop_comma:
  assumes "segment_step g c m (st\<lparr>s_result := s_result st @ js '',''\<rparr>) w st'"
    and "loop_result g c (Some m) ms st' out" and "generatedLine m = s_genLine st"
    and "gen_order m p \<noteq> None" and "gen_order m p \<noteq> Some 0"
  shows "loop_result g c (Some p) (m # ms) st (44 # w @ out)"
proof -
  let ?s = "st\<lparr>s_result := s_result st @ js '',''\<rparr>"
  have "reads_as c (w @ out) ?s (read_back m # map read_back (drop_repeats (Some m) ms))"
    using assms by (intro reads_segment) (auto simp: loop_result_def)
  moreover have "in_step ?s q = in_step st q" for q by (simp add: in_step_def)
  ultimately have "reads_as c (44 # w @ out) st (map read_back (drop_repeats (Some p) (m # ms)))"
    using assms(5) by (simp add: reads_as_def parse_comma)
  moreover have "truthy_num (compareByGeneratedPositions m p False)"
    using assms(4,5) by (auto simp: gen_order_def truthy_num_iff)
  ultimately show ?thesis
    using assms by (simp add: loop_result_def segment_step_def ends_segment_def at_separator_def
        charAt_def js_eval)
qed

lemma loop_roundtrip:
  assumes "gen_inv g" and "same_tables g c" and "gen_in_range g"
    and "set ms \<subseteq> set (g_mappings g)" and "sorted_wrt (\<lambda>a b. generatedLine a \<le> generatedLine b) ms"
    and "\<forall>m \<in> set ms. s_genLine st \<le> generatedLine m" and "ser_range st"
    and "\<forall>p. prev = Some p \<longrightarrow> p \<in> set (g_mappings g) \<and> s_genLine st = generatedLine p"
  shows "\<exists>out. loop_result g c prev ms st out"
  using assms(4-)
proof (induction ms arbitrary: prev st)
  case Nil
  have "loop_result g c prev [] st []"
    by (auto simp: loop_result_def ends_segment_def reads_as_def parse_nil with_original_def)
  then show ?case ..
next
  case (Cons m ms)
  have m: "m \<in> set (g_mappings g)" and le: "s_genLine st \<le> generatedLine m"
    using Cons.prems by simp_all
  have rest: "\<exists>out. loop_result g c (Some m) ms s out"
    if "ser_range s" "s_genLine s = generatedLine m" for s
    using Cons.IH [of s "Some m"] Cons.prems(1,2) that m by auto
  have body: "\<exists>st' w out. segment_step g c m s w st' \<and> loop_result g c (Some m) ms st' out"
    if s: "ser_range s" "s_genLine s = generatedLine m" for s
    using mapping_segment [OF assms(1-3) m s(1)] rest s(2) by (metis segment_step_def)
  consider (line) n where "n > 0" "generatedLine m = s_genLine st + int n"
    | (first) "generatedLine m = s_genLine st" "prev = None"
    | (same) p where "generatedLine m = s_genLine st" "prev = Some p" "gen_order m p = Some 0"
    | (comma) p where "generatedLine m = s_genLine st" "prev = Some p" "gen_order m p \<noteq> Some 0"
  proof (cases "generatedLine m = s_genLine st")
    case True
    then show thesis using first same comma by (cases prev) auto
  next
    case False
    then show thesis using le line [of "nat (generatedLine m - s_genLine st)"] by simp
  qed
  then show ?case
  proof cases
    case (line n)
    have "ser_range (st\<lparr>s_genColumn := 0, s_genLine := generatedLine m,
        s_result := s_result st @ replicate n 59\<rparr>)"
      using Cons.prems(4) by (simp add: ser_range_def in_range_def)
    then obtain st' w out where b: "segment_step g c m (st\<lparr>s_genColumn := 0,
        s_genLine := generatedLine m, s_result := s_result st @ replicate n 59\<rparr>) w st'"
      "loop_result g c (Some m) ms st' out" using body by fastforce
    show ?thesis using loop_new_line [OF b line] Cons.prems(5) by blast
  next
    case first
    then obtain st' w out where b: "segment_step g c m st w st'" "loop_result g c (Some m) ms st' out"
      using body [of st] Cons.prems(4) by auto
    show ?thesis using loop_first [OF b first(1)] first(2) by blast
  next
    case (same p)
    obtain out where "loop_result g c (Some m) ms st out"
      using rest [of st] same(1) Cons.prems(4) by auto
    then show ?thesis using loop_repeated same by blast
  next
    case (comma p)
    have "gen_order m p \<noteq> None"
      using gen.never_nan gen_inv_all_comparable [OF assms(1)] m comma(2) Cons.prems(5) by blast
    moreover have "ser_range (st\<lparr>s_result := s_result st @ js '',''\<rparr>)"
      using Cons.prems(4) by (simp add: ser_range_def)
    then obtain st' w out where b: "segment_step g c m (st\<lparr>s_result := s_result st @ js '',''\<rparr>) w st'"
      "loop_result g c (Some m) ms st' out" using body comma(1) by fastforce
    ultimately show ?thesis using loop_comma [OF b comma(1) _ comma(3)] comma(2) by blast
  qed
qed

subsection \<open>The whole map\<close>

definition kept_mappings :: "generator \<Rightarrow> mapping list" where
  "kept_mappings g = map read_back (drop_repeats None (js_sort gen_order (g_mappings g)))"

lemma serialize_reads:
  assumes "gen_inv g" and "gen_in_range g" and "same_tables g c"
  shows "\<exists>out. serializeMappings g = Some (Inr out) \<and> reads_as c out ser_init (kept_mappings g)"
proof -
  have "gen_inv (sort_mappings g)" "gen_in_range (sort_mappings g)" "same_tables (sort_mappings g) c"
    using assms by simp_all (simp_all add: gen_in_range_def sort_mappings_def same_tables_def)
  then have "\<exists>out. loop_result (sort_mappings g) c None (js_sort gen_order (g_mappings g)) ser_init out"
    using sorted_lines [OF assms(1)] assms(1)
    by (intro loop_roundtrip)
      (auto simp: sort_mappings_def ser_init_def ser_range_def in_range_def gen_inv_def valid_mapping_def)
  then show ?thesis
    by (auto simp: loop_result_def serializeMappings_def ser_init_def kept_mappings_def sort_mappings_def)
qed

lemma serialize_parse:
  assumes "gen_inv g" and "gen_in_range g" and "same_tables g c"
  obtains out where "serializeMappings g = Some (Inr out)"
    and "parseMappings (c\<lparr>c_mappings := out\<rparr>) =
      (c\<lparr>c_mappings := out, c_generated := Some (kept_mappings g),
         c_original := Some (js_sort orig_order (with_original (kept_mappings g)))\<rparr>, None)"
proof -
  obtain out where out: "serializeMappings g = Some (Inr out)" using serialize_reads [OF assms] by blast
  have "same_tables g (c\<lparr>c_mappings := out\<rparr>)" using assms(3) by (simp add: same_tables_def)
  then have "reads_as (c\<lparr>c_mappings := out\<rparr>) out ser_init (kept_mappings g)"
    using serialize_reads [OF assms(1,2)] out by fastforce
  moreover have "in_step ser_init parse_init" by (simp add: in_step_def ser_init_def parse_init_def)
  ultimately obtain p where "parse_loop (c\<lparr>c_mappings := out\<rparr>) out parse_init = (p, None)"
    "p_generated p = kept_mappings g" "p_original p = with_original (kept_mappings g)"
    by (auto simp: reads_as_def parse_init_def)
  then have "parseMappings (c\<lparr>c_mappings := out\<rparr>) =
      (c\<lparr>c_mappings := out, c_generated := Some (kept_mappings g),
         c_original := Some (js_sort orig_order (with_original (kept_mappings g)))\<rparr>, None)"
    by (simp add: parseMappings_def)
  with out that show thesis by blast
qed

text \<open>A generator after a sequence of calls of \<^verbatim>\<open>addMapping\<close>.\<close>

definition generator_of :: "jsstring \<Rightarrow> jsstring option \<Rightarrow> mapping_args list \<Rightarrow> generator res" where
  "generator_of file root calls =
     bindR (SourceMapGenerator (Some file) root) (\<lambda>g. foldR addMapping calls g)"

lemma gen_inv_generator_of: "generator_of file root calls = Inr g \<Longrightarrow> gen_inv g"
  by (auto simp: generator_of_def elim!: bindR_InrE
      intro: foldR_invariant [where I = gen_inv] gen_inv_new gen_inv_addMapping)

lemma toJSON_consumer:
  assumes "gen_inv g" and "gen_in_range g"
  shows "\<exists>raw c. toJSON g = Some (sort_mappings g, Inr raw) \<and> SourceMapConsumer raw = Inr c
    \<and> c_generated c = None \<and> c_original c = None
    \<and> c_sourceRoot c = (if truthy (g_sourceRoot g) then g_sourceRoot g else None) \<and> c_file c = g_file g
    \<and> (g_sourcesContents g = None \<longrightarrow> c_sourcesContent c = None)
    \<and> consumer_sources c = map (\<lambda>s. if truthy (g_sourceRoot g) then sm_join (the (g_sourceRoot g)) s else s)
        (ArraySet_toArray (g_sources g))
    \<and> parseMappings c = (c\<lparr>c_generated := Some (kept_mappings g),
        c_original := Some (js_sort orig_order (with_original (kept_mappings g)))\<rparr>, None)"
proof -
  let ?root = "if truthy (g_sourceRoot g) then g_sourceRoot g else None"
  let ?raw = "\<lambda>str. \<lparr>r_version = Some 3, r_sources = Some (ArraySet_toArray (g_sources g)),
      r_names = Some (ArraySet_toArray (g_names g)), r_sourceRoot = ?root,
      r_sourcesContent = (if g_sourcesContents g = None then None
        else Some (generateSourcesContent g (ArraySet_toArray (g_sources g)) ?root)),
      r_mappings = Some str, r_file = g_file g\<rparr>"
  define c where "c = \<lparr>c_names = ArraySet_fromArray (ArraySet_toArray (g_names g)) True,
      c_sources = ArraySet_fromArray (ArraySet_toArray (g_sources g)) True,
      c_sourceRoot = ?root, c_sourcesContent = r_sourcesContent (?raw []), c_mappings = [],
      c_file = g_file g, c_generated = None, c_original = None\<rparr>"
  have "same_tables g c" by (simp add: same_tables_def c_def toArray_fromArray inv_fromArray)
  from serialize_parse [OF assms this] obtain out where
    out: "serializeMappings g = Some (Inr out)" "parseMappings (c\<lparr>c_mappings := out\<rparr>) =
      (c\<lparr>c_mappings := out, c_generated := Some (kept_mappings g),
         c_original := Some (js_sort orig_order (with_original (kept_mappings g)))\<rparr>, None)" .
  have "toJSON g = Some (sort_mappings g, Inr (?raw out))"
    by (simp add: toJSON_def out(1) Let_def)
  moreover have "SourceMapConsumer (?raw out) = Inr (c\<lparr>c_mappings := out\<rparr>)"
    by (simp add: SourceMapConsumer_def getArg_def c_def)
  moreover have "consumer_sources (c\<lparr>c_mappings := out\<rparr>) =
      map (\<lambda>s. if truthy (g_sourceRoot g) then sm_join (the (g_sourceRoot g)) s else s)
        (ArraySet_toArray (g_sources g))"
    by (simp add: consumer_sources_def c_def toArray_fromArray truthy_def)
  ultimately show ?thesis using out(2) by (intro exI conjI) (auto simp: c_def)
qed

subsection \<open>What is kept\<close>

lemma gen_order_zero_pos: "gen_order m p = Some 0 \<Longrightarrow> gen_pos m = gen_pos p"
  by (auto simp: gen_order_chain then_cmp_def split: if_splits)

lemma gen_order_pos: "cmp_le gen_order a b \<Longrightarrow> at_or_before (gen_pos a) (gen_pos b)"
  by (auto simp: cmp_le_def gen_order_chain then_cmp_def at_or_before_def split: if_splits)

lemma drop_repeats_subset: "set (drop_repeats prev ms) \<subseteq> set ms"
  by (induction prev ms rule: drop_repeats.induct) auto

lemma drop_repeats_sorted: "sorted_wrt P ms \<Longrightarrow> sorted_wrt P (drop_repeats prev ms)"
proof (induction prev ms rule: drop_repeats.induct)
  case (2 prev m ms)
  then show ?case using drop_repeats_subset [of "Some m" ms] by (auto split: if_splits)
qed simp

lemma drop_repeats_covers:
  "m \<in> set ms \<Longrightarrow> (\<exists>m' \<in> set (drop_repeats prev ms). gen_pos m' = gen_pos m)
     \<or> (\<exists>p. prev = Some p \<and> gen_pos p = gen_pos m)"
proof (induction ms arbitrary: prev)
  case (Cons x ms)
  show ?case
  proof (cases "\<exists>p. prev = Some p \<and> gen_order x p = Some 0")
    case True
    then obtain p where p: "prev = Some p" "gen_order x p = Some 0" by blast
    then have "gen_pos x = gen_pos p" by (blast dest: gen_order_zero_pos)
    with p Cons.IH [of "Some x"] Cons.prems show ?thesis by auto
  next
    case False
    then have "drop_repeats prev (x # ms) = x # drop_repeats (Some x) ms" by (auto split: option.splits)
    with Cons.IH [of "Some x"] Cons.prems show ?thesis by auto
  qed
qed simp

lemma read_back_column [simp]: "generatedColumn (read_back m) = generatedColumn m"
  by (simp add: read_back_def)

lemma kept_sorted:
  assumes "gen_inv g"
  shows "sorted_wrt (\<lambda>a b. at_or_before (gen_pos a) (gen_pos b)) (kept_mappings g)"
proof -
  have "sorted_wrt (\<lambda>a b. at_or_before (gen_pos a) (gen_pos b)) (js_sort gen_order (g_mappings g))"
    using gen.sorted_js_sort [OF gen_inv_all_comparable [OF assms]] gen_order_pos
    by (rule sorted_wrt_mono_rel [rotated])
  from drop_repeats_sorted [OF this] show ?thesis
    by (simp add: kept_mappings_def sorted_wrt_map)
qed

lemma closest_exact:
  assumes "closest ms pos r" and "k \<in> set ms" and "gen_pos k = pos"
  shows "\<exists>x. r = Some x \<and> x \<in> set ms \<and> gen_pos x = pos"
proof (cases r)
  case None
  with assms show ?thesis by (auto simp: closest_def at_or_before_def)
next
  case (Some x)
  with assms(1) have x: "x \<in> set ms" "at_or_before (gen_pos x) pos"
    and all: "\<forall>m' \<in> set ms. at_or_before (gen_pos m') pos \<longrightarrow> at_or_before (gen_pos m') (gen_pos x)"
    by (simp_all add: closest_def)
  have "at_or_before (gen_pos k) pos" using assms(3) by (simp add: at_or_before_def)
  with all assms(2,3) have "at_or_before pos (gen_pos x)" by blast
  with x(2) have "gen_pos x = pos" by (cases pos) (auto simp: at_or_before_def)
  with Some x(1) show ?thesis by blast
qed

lemma kept_covers:
  assumes "m \<in> set (g_mappings g)"
  shows "\<exists>m' \<in> set (g_mappings g). read_back m' \<in> set (kept_mappings g) \<and> gen_pos m' = gen_pos m"
  using assms drop_repeats_covers [of m "js_sort gen_order (g_mappings g)" None]
    drop_repeats_subset [of None "js_sort gen_order (g_mappings g)"]
  by (fastforce simp: kept_mappings_def)

subsection \<open>Properties\<close>

text \<open>
  C1: every source map the generator writes is read back by the consumer: for any sequence of
  accepted \<^verbatim>\<open>addMapping\<close> calls with numbers below \<open>2 ^ 30\<close>, \<^verbatim>\<open>toJSON\<close> ends, the constructor
  accepts the object, and the parsed mappings are the added ones in order of generated
  position, without repetitions; those with a source also form the original-order array.
\<close>

theorem source_map_roundtrip:
  assumes "generator_of file root calls = Inr g" and "gen_in_range g"
  shows "\<exists>raw c. toJSON g = Some (sort_mappings g, Inr raw) \<and> SourceMapConsumer raw = Inr c
    \<and> snd (generatedMappings c) =
        Inr (map read_back (drop_repeats None (js_sort gen_order (g_mappings g))))
    \<and> snd (originalMappings c) =
        Inr (js_sort orig_order (with_original
          (map read_back (drop_repeats None (js_sort gen_order (g_mappings g))))))"
  using toJSON_consumer [OF gen_inv_generator_of [OF assms(1)] assms(2)]
  by (auto simp: generatedMappings_def originalMappings_def kept_mappings_def)

definition demo_calls :: "mapping_args list" where
  "demo_calls = [demo_args\<lparr>a_generated := Some \<lparr>pline = Some 3, pcolumn = Some 1\<rparr>\<rparr>, demo_args, demo_args]"

lemma demo_calls_in_range:
  "\<exists>g. generator_of (js ''o'') None demo_calls = Inr g \<and> gen_in_range g
     \<and> map gen_pos (g_mappings g) = [(3, 1), (1, 4), (1, 4)]"
proof -
  have "case generator_of (js ''o'') None demo_calls of Inl e \<Rightarrow> False
      | Inr g \<Rightarrow> map gen_pos (g_mappings g) = [(3, 1), (1, 4), (1, 4)] \<and> list_all mapping_in_range (g_mappings g)
        \<and> length (ArraySet_toArray (g_sources g)) \<le> 1 \<and> length (ArraySet_toArray (g_names g)) \<le> 1"
    by code_simp
  then show ?thesis by (auto simp: gen_in_range_def list_all_iff split: sum.splits)
qed

theorem source_map_roundtrip_witness:
  "\<exists>g raw c ms. generator_of (js ''o'') None demo_calls = Inr g \<and> toJSON g = Some (sort_mappings g, Inr raw)
     \<and> SourceMapConsumer raw = Inr c \<and> snd (generatedMappings c) = Inr ms"
proof -
  obtain g where g: "generator_of (js ''o'') None demo_calls = Inr g" "gen_in_range g"
    using demo_calls_in_range by blast
  from source_map_roundtrip [OF g] g(1) show ?thesis by blast
qed

text \<open>
  C12: looking up, in the written map, the generated position of any added mapping answers with
  the source, line, column and name of an added mapping at exactly that position.
\<close>

theorem lookup_finds_added_mapping:
  assumes "generator_of file root calls = Inr g" and "gen_in_range g" and "m \<in> set (g_mappings g)"
  shows "\<exists>raw c m'. toJSON g = Some (sort_mappings g, Inr raw) \<and> SourceMapConsumer raw = Inr c
    \<and> m' \<in> set (g_mappings g) \<and> gen_pos m' = gen_pos m
    \<and> snd (originalPositionFor (Some (generatedLine m)) (Some (generatedColumn m)) c) =
        Inr \<lparr>op_source = join_root (c_sourceRoot c) (msource (read_back m')),
             op_line = or_null (originalLine (read_back m')),
             op_column = or_null (originalColumn (read_back m')), op_name = mname (read_back m')\<rparr>"
proof -
  have inv: "gen_inv g" using assms(1) by (rule gen_inv_generator_of)
  obtain raw c where c: "toJSON g = Some (sort_mappings g, Inr raw)" "SourceMapConsumer raw = Inr c"
    "c_generated c = None" "parseMappings c = (c\<lparr>c_generated := Some (kept_mappings g),
        c_original := Some (js_sort orig_order (with_original (kept_mappings g)))\<rparr>, None)"
    using toJSON_consumer [OF inv assms(2)] by blast
  have pos: "generatedLine m > 0" "generatedColumn m \<ge> 0"
    using inv assms(3) by (auto simp: gen_inv_def valid_mapping_def)
  let ?r = "search (generated_needle (generatedLine m) (generatedColumn m)) (kept_mappings g) gen_needle"
  have cl: "closest (kept_mappings g) (gen_pos m) ?r"
    using search_closest [OF kept_sorted [OF inv], of "generated_needle (generatedLine m) (generatedColumn m)"]
    by (simp add: generated_needle_def)
  obtain k where "read_back k \<in> set (kept_mappings g)" "gen_pos k = gen_pos m"
    using kept_covers [OF assms(3)] by blast
  from closest_exact [OF cl this(1)] this(2)
  obtain r where r: "?r = Some r" "r \<in> set (kept_mappings g)" "gen_pos r = gen_pos m" by auto
  then obtain m' where m': "m' \<in> set (g_mappings g)" "r = read_back m'"
    using drop_repeats_subset [of None "js_sort gen_order (g_mappings g)"] by (auto simp: kept_mappings_def)
  then have "gen_pos m' = gen_pos m" using r(3) by simp
  then show ?thesis
    using c pos r(1) m' by (intro exI conjI)
      (auto simp: originalPositionFor_def getArg_def generatedMappings_def findMapping_def)
qed

theorem lookup_finds_added_mapping_witness:
  "\<exists>g raw c r. generator_of (js ''o'') None demo_calls = Inr g \<and> toJSON g = Some (sort_mappings g, Inr raw)
     \<and> SourceMapConsumer raw = Inr c \<and> snd (originalPositionFor (Some 3) (Some 1) c) = Inr r"
proof -
  obtain g where g: "generator_of (js ''o'') None demo_calls = Inr g" "gen_in_range g"
    and pos: "map gen_pos (g_mappings g) = [(3, 1), (1, 4), (1, 4)]"
    using demo_calls_in_range by (elim exE conjE)
  have "set (map gen_pos (g_mappings g)) = {(3, 1), (1, 4)}" unfolding pos by simp
  then have "(3, 1) \<in> gen_pos ` set (g_mappings g)" by simp
  then obtain m where m: "m \<in> set (g_mappings g)" "gen_pos m = (3, 1)" by auto
  then have "generatedLine m = 3" "generatedColumn m = 1" by simp_all
  note found = lookup_finds_added_mapping [OF g(1,2) m(1), unfolded this]
  obtain raw c r where "toJSON g = Some (sort_mappings g, Inr raw)" "SourceMapConsumer raw = Inr c"
    "snd (originalPositionFor (Some 3) (Some 1) c) = Inr r" using found by blast
  with g(1) show ?thesis by blast
qed

end
