(* ===== verification/SmCompose.thy ===== *)
theory SmCompose
  imports SmRoundtrip
begin

text \<open>
  The two operations of the generator that take a consumer: \<^verbatim>\<open>fromSourceMap\<close>, a copy of a map, and
  \<^verbatim>\<open>applySourceMap\<close>, the composition of two maps.
\<close>

subsection \<open>A generator from a consumer\<close>

definition new_generator :: "jsstring option \<Rightarrow> jsstring option \<Rightarrow> generator" where
  "new_generator file sourceRoot =
     \<lparr>g_file = file, g_sourceRoot = sourceRoot, g_sources = ArraySet_new, g_names = ArraySet_new,
      g_mappings = [], g_sourcesContents = None\<rparr>"

text \<open>A stored position as a member of an argument object; one that is no number is refused there.\<close>

definition position_number :: "jsnum \<Rightarrow> int option" where
  "position_number n = (case n of JNum i \<Rightarrow> Some i | _ \<Rightarrow> None)"

definition copied_mapping :: "jsstring option \<Rightarrow> mapping \<Rightarrow> mapping_args" where
  "copied_mapping sourceRoot mapping =
     (let generated = Some \<lparr>pline = Some (generatedLine mapping), pcolumn = Some (generatedColumn mapping)\<rparr>
      in if truthy (msource mapping) then
           \<lparr>a_generated = generated,
            a_original = Some \<lparr>pline = position_number (originalLine mapping), pcolumn = position_number (originalColumn mapping)\<rparr>,
            a_source = (if truthy sourceRoot then Some (sm_relative (the sourceRoot) (the (msource mapping)))
                        else msource mapping),
            a_name = (if truthy (mname mapping) then mname mapping else None)\<rparr>
         else \<lparr>a_generated = generated, a_original = None, a_source = None, a_name = None\<rparr>)"

definition copy_content :: "consumer \<Rightarrow> jsstring \<Rightarrow> generator \<Rightarrow> generator res" where
  "copy_content aSourceMapConsumer sourceFile generator =
     bindR (sourceContentFor sourceFile aSourceMapConsumer) (\<lambda>content.
       if truthy content then setSourceContent sourceFile content generator else Inr generator)"

definition SourceMapGenerator_fromSourceMap :: "consumer \<Rightarrow> consumer \<times> generator res" where
  "SourceMapGenerator_fromSourceMap aSourceMapConsumer =
     (let sourceRoot = c_sourceRoot aSourceMapConsumer;
          generator = new_generator (c_file aSourceMapConsumer) sourceRoot;
          (aSourceMapConsumer, mappings) = eachMapping GENERATED_ORDER aSourceMapConsumer
      in (aSourceMapConsumer,
          bindR mappings (\<lambda>mappings.
          bindR (foldR (\<lambda>mapping. addMapping (copied_mapping sourceRoot mapping)) mappings generator) (\<lambda>generator.
            foldR (copy_content aSourceMapConsumer) (consumer_sources aSourceMapConsumer) generator))))"

subsection \<open>Applying a source map\<close>

definition rewritten :: "jsstring option \<Rightarrow> original_position \<Rightarrow> mapping \<Rightarrow> mapping" where
  "rewritten sourceRoot original mapping =
     mapping\<lparr>msource := (if truthy sourceRoot then Some (sm_relative (the sourceRoot) (the (op_source original)))
                          else op_source original),
             originalLine := op_line original, originalColumn := op_column original,
             mname := (if op_name original \<noteq> None \<and> mname mapping \<noteq> None then op_name original else mname mapping)\<rparr>"

text \<open>
  One call of the first callback, up to its update of the mapping. \<^verbatim>\<open>mapping.originalLine\<close> is false for
  the number 0 and for a missing value.
\<close>

definition apply_to_mapping ::
    "jsstring option \<Rightarrow> jsstring option \<Rightarrow> mapping \<Rightarrow> consumer \<Rightarrow> consumer \<times> mapping res" where
  "apply_to_mapping sourceRoot aSourceFile mapping aSourceMapConsumer =
     (if msource mapping = aSourceFile \<and> truthy_num (to_number (originalLine mapping)) then
        let (aSourceMapConsumer, original) =
              originalPositionFor (Some (num_of (originalLine mapping))) (Some (num_of (originalColumn mapping)))
                aSourceMapConsumer
        in (aSourceMapConsumer,
            mapR (\<lambda>original. if op_source original \<noteq> None then rewritten sourceRoot original mapping else mapping) original)
      else (aSourceMapConsumer, Inr mapping))"

text \<open>
  The loop over the mappings, which are updated in place: what it leaves of them when a lookup
  throws is part of the result. The consumer is one that shares no mapping objects with the generator.
\<close>

primrec apply_mappings ::
    "jsstring option \<Rightarrow> jsstring option \<Rightarrow> mapping list \<Rightarrow> consumer \<times> array_set \<times> array_set
      \<Rightarrow> (consumer \<times> array_set \<times> array_set) \<times> mapping list \<times> js_error option" where
  "apply_mappings sourceRoot aSourceFile [] st = (st, [], None)"
| "apply_mappings sourceRoot aSourceFile (mapping # rest) st =
     (case st of (c, newSources, newNames) \<Rightarrow>
        case apply_to_mapping sourceRoot aSourceFile mapping c of
          (c, Inl e) \<Rightarrow> ((c, newSources, newNames), mapping # rest, Some e)
        | (c, Inr mapping) \<Rightarrow>
            (case apply_mappings sourceRoot aSourceFile rest
                    (c, add_once (msource mapping) newSources, add_once (mname mapping) newNames) of
               (st, rest, err) \<Rightarrow> (st, mapping # rest, err)))"

primrec apply_contents ::
    "jsstring option \<Rightarrow> consumer \<Rightarrow> jsstring list \<Rightarrow> generator \<Rightarrow> generator \<times> js_error option" where
  "apply_contents sourceRoot aSourceMapConsumer [] this = (this, None)"
| "apply_contents sourceRoot aSourceMapConsumer (sourceFile # rest) this =
     (case bindR (sourceContentFor sourceFile aSourceMapConsumer) (\<lambda>content.
             if truthy content then
               setSourceContent (if truthy sourceRoot then sm_relative (the sourceRoot) sourceFile else sourceFile) content this
             else Inr this) of
        Inl e \<Rightarrow> (this, Some e)
      | Inr this \<Rightarrow> apply_contents sourceRoot aSourceMapConsumer rest this)"

definition applySourceMap :: "consumer \<Rightarrow> jsstring option \<Rightarrow> generator \<Rightarrow> consumer \<times> generator \<times> js_error option" where
  "applySourceMap aSourceMapConsumer aSourceFile this =
     (let aSourceFile = (if truthy aSourceFile then aSourceFile else c_file aSourceMapConsumer);
          sourceRoot = g_sourceRoot this
      in if truthy sourceRoot \<and> aSourceFile = None
         then (aSourceMapConsumer, this, Some (TypeError (js ''Cannot read property 'charAt' of null'')))
         else
           let aSourceFile = (if truthy sourceRoot then Some (sm_relative (the sourceRoot) (the aSourceFile)) else aSourceFile)
           in case apply_mappings sourceRoot aSourceFile (g_mappings this) (aSourceMapConsumer, ArraySet_new, ArraySet_new) of
                ((c, newSources, newNames), mappings, Some e) \<Rightarrow> (c, this\<lparr>g_mappings := mappings\<rparr>, Some e)
              | ((c, newSources, newNames), mappings, None) \<Rightarrow>
                  (c, apply_contents sourceRoot c (consumer_sources c)
                        (this\<lparr>g_mappings := mappings, g_sources := newSources, g_names := newNames\<rparr>)))"

subsection \<open>Storing a list of mappings\<close>

definition stored :: "mapping_args \<Rightarrow> mapping" where
  "stored a =
     \<lparr>generatedLine = the (pline (the (a_generated a))), generatedColumn = the (pcolumn (the (a_generated a))),
      originalLine = (case a_original a of None \<Rightarrow> JFalse | Some p \<Rightarrow> num_prop (pline p)),
      originalColumn = (case a_original a of None \<Rightarrow> JFalse | Some p \<Rightarrow> num_prop (pcolumn p)),
      msource = a_source a, mname = a_name a\<rparr>"

lemma addMapping_valid:
  "args_valid a \<Longrightarrow> addMapping a g = Inr (g\<lparr>g_sources := add_once (a_source a) (g_sources g),
     g_names := add_once (a_name a) (g_names g), g_mappings := g_mappings g @ [stored a]\<rparr>)"
  by (auto simp: addMapping_def args_valid_def getArg_def validateMapping_def Let_def stored_def split: option.splits)

lemma addMapping_all:
  assumes "\<forall>a \<in> set as. args_valid a \<and> registered S (a_source a) \<and> registered N (a_name a)" and "gen_inv g"
    and "set (ArraySet_toArray (g_sources g)) \<subseteq> set (ArraySet_toArray S)"
    and "set (ArraySet_toArray (g_names g)) \<subseteq> set (ArraySet_toArray N)"
  shows "\<exists>g'. foldR addMapping as g = Inr g' \<and> gen_inv g' \<and> g_mappings g' = g_mappings g @ map stored as
    \<and> g_sourceRoot g' = g_sourceRoot g \<and> g_sourcesContents g' = g_sourcesContents g \<and> g_file g' = g_file g
    \<and> set (ArraySet_toArray (g_sources g')) \<subseteq> set (ArraySet_toArray S)
    \<and> set (ArraySet_toArray (g_names g')) \<subseteq> set (ArraySet_toArray N)"
  using assms
proof (induction as arbitrary: g)
  case (Cons a as)
  let ?g = "g\<lparr>g_sources := add_once (a_source a) (g_sources g),
     g_names := add_once (a_name a) (g_names g), g_mappings := g_mappings g @ [stored a]\<rparr>"
  have a: "addMapping a g = Inr ?g" using Cons.prems(1) by (simp add: addMapping_valid)
  have inv: "as_inv (g_sources g)" "as_inv (g_names g)" using Cons.prems(2) by (simp_all add: gen_inv_def)
  have "\<exists>g'. foldR addMapping as ?g = Inr g' \<and> gen_inv g' \<and> g_mappings g' = g_mappings ?g @ map stored as
    \<and> g_sourceRoot g' = g_sourceRoot ?g \<and> g_sourcesContents g' = g_sourcesContents ?g \<and> g_file g' = g_file ?g
    \<and> set (ArraySet_toArray (g_sources g')) \<subseteq> set (ArraySet_toArray S)
    \<and> set (ArraySet_toArray (g_names g')) \<subseteq> set (ArraySet_toArray N)"
  proof (rule Cons.IH)
    show "gen_inv ?g" using gen_inv_addMapping [OF Cons.prems(2) a] .
  qed (use Cons.prems inv in \<open>auto simp: add_once_array registered_def split: if_splits\<close>)
  then show ?case using a by simp
qed simp

subsection \<open>The order of read mappings\<close>

text \<open>What a generator stores of a mapping it gets from a consumer.\<close>

definition renormed :: "mapping \<Rightarrow> mapping" where
  "renormed m = stored (copied_mapping None (read_back m))"

lemma args_valid_copied: "valid_mapping m \<Longrightarrow> args_valid (copied_mapping None (read_back m))"
  by (auto simp: valid_mapping_def has_original_def lacks_original_def args_valid_def copied_mapping_def read_back_def
      position_number_def positive_position_def Let_def truthy_def)

lemma renormed_simps:
  "generatedLine (renormed m) = generatedLine m" "generatedColumn (renormed m) = generatedColumn m"
  by (simp_all add: renormed_def stored_def copied_mapping_def read_back_def Let_def truthy_def)

lemma renormed_original:
  assumes "valid_mapping m"
  shows "originalLine (renormed m) = originalLine m" "originalColumn (renormed m) = originalColumn m"
    "or_empty (msource (renormed m)) = or_empty (msource m)" "or_empty (mname (renormed m)) = or_empty (mname m)"
  using assms
  by (auto simp: valid_mapping_def has_original_def lacks_original_def renormed_def stored_def copied_mapping_def
      read_back_def position_number_def num_prop_def Let_def truthy_def or_empty_def split: option.splits)

lemma read_back_renormed: "valid_mapping m \<Longrightarrow> read_back (renormed m) = read_back m"
  by (auto simp: valid_mapping_def has_original_def lacks_original_def renormed_def stored_def copied_mapping_def
      read_back_def position_number_def num_prop_def Let_def truthy_def)

lemma strcmp_or_empty: "or_empty a = or_empty a' \<Longrightarrow> or_empty b = or_empty b' \<Longrightarrow> strcmp a b = strcmp a' b'"
  by (simp add: strcmp_cases)

lemma gen_order_renormed:
  "\<lbrakk>valid_mapping a; valid_mapping b\<rbrakk> \<Longrightarrow> gen_order (renormed a) (renormed b) = gen_order a b"
  by (simp add: gen_order_chain then_cmp_def renormed_simps renormed_original
      strcmp_or_empty [of "msource (renormed a)" "msource a" "msource (renormed b)" "msource b"]
      strcmp_or_empty [of "mname (renormed a)" "mname a" "mname (renormed b)" "mname b"])

lemma drop_repeats_renormed:
  "\<forall>m \<in> set ms. valid_mapping m \<Longrightarrow> (\<And>p. prev = Some p \<Longrightarrow> valid_mapping p) \<Longrightarrow>
     drop_repeats (map_option renormed prev) (map renormed ms) = map renormed (drop_repeats prev ms)"
proof (induction ms arbitrary: prev)
  case (Cons m ms)
  then have "drop_repeats (Some (renormed m)) (map renormed ms) = map renormed (drop_repeats (Some m) ms)"
    using Cons.IH [of "Some m"] by simp
  then show ?case using Cons.prems by (auto simp: gen_order_renormed split: option.splits)
qed simp

lemma drop_repeats_again:
  assumes "\<forall>m \<in> set ms. comparable m" and "comparable p" and "comparable q" and "gen_order p q = Some 0"
  shows "drop_repeats (Some q) (drop_repeats (Some p) ms) = drop_repeats (Some p) ms"
  using assms
proof (induction ms arbitrary: p q)
  case (Cons m ms)
  have m: "gen_order m m = Some 0" "comparable m" using Cons.prems(1) gen.eq_iff_zero gen.le_refl by auto
  show ?case
  proof (cases "gen_order m p = Some 0")
    case True
    then have "gen_order m q = Some 0" using gen.eq_trans [of m p q] Cons.prems m by blast
    then show ?thesis using Cons.IH [of m q] Cons.prems True m by simp
  next
    case False
    have "gen_order q p = Some 0" using Cons.prems gen.eq_iff_zero by blast
    then have "gen_order m q \<noteq> Some 0" using gen.eq_trans [of m q p] Cons.prems m False by blast
    then show ?thesis using Cons.IH [of m m] Cons.prems False m by simp
  qed
qed simp

lemma drop_repeats_idem:
  assumes "\<forall>m \<in> set ms. comparable m"
  shows "drop_repeats None (drop_repeats None ms) = drop_repeats None ms"
proof (cases ms)
  case (Cons m ms')
  then have "gen_order m m = Some 0" using assms gen.eq_iff_zero gen.le_refl by auto
  then show ?thesis using drop_repeats_again [of ms' m m] assms Cons by simp
qed simp

subsection \<open>Copying a map\<close>

lemma sources_length:
  assumes "gen_inv g'" and "set (ArraySet_toArray (g_sources g')) \<subseteq> set (ArraySet_toArray (g_sources g))"
    and "set (ArraySet_toArray (g_names g')) \<subseteq> set (ArraySet_toArray (g_names g))"
  shows "length (ArraySet_toArray (g_sources g')) \<le> length (ArraySet_toArray (g_sources g))"
    and "length (ArraySet_toArray (g_names g')) \<le> length (ArraySet_toArray (g_names g))"
proof -
  have le: "length xs \<le> length ys" if "distinct xs" "set xs \<subseteq> set ys" for xs ys :: "jsstring list"
    using that card_mono [of "set ys" "set xs"] card_length [of ys] by (simp add: distinct_card)
  show "length (ArraySet_toArray (g_sources g')) \<le> length (ArraySet_toArray (g_sources g))"
    "length (ArraySet_toArray (g_names g')) \<le> length (ArraySet_toArray (g_names g))"
    using assms by (simp_all add: le gen_inv_def)
qed

lemma contents_not_kept:
  "c_sourcesContent c = None \<Longrightarrow> foldR (copy_content c) files g = Inr g"
  by (induction files arbitrary: g) (simp_all add: copy_content_def sourceContentFor_def truthy_def)

lemma generator_of_keeps:
  assumes "generator_of file root calls = Inr g"
  shows "g_sourceRoot g = root \<and> g_sourcesContents g = None \<and> g_file g = Some file"
proof -
  obtain g0 where g0: "SourceMapGenerator (Some file) root = Inr g0" "foldR addMapping calls g0 = Inr g"
    using assms by (auto simp: generator_of_def elim: bindR_InrE)
  show ?thesis
    by (rule foldR_invariant [OF g0(2)])
      (use g0(1) in \<open>auto simp: SourceMapGenerator_def getArg_def elim!: addMapping_Inr\<close>)
qed

lemma args_registered:
  "registered S (msource m) \<Longrightarrow> registered S (a_source (copied_mapping None (read_back m)))"
  "registered S (mname m) \<Longrightarrow> registered S (a_name (copied_mapping None (read_back m)))"
  by (auto simp: registered_def copied_mapping_def read_back_def Let_def truthy_def)

lemma kept_renormed:
  assumes "gen_inv g" and "g_mappings g' = map renormed (drop_repeats None (js_sort gen_order (g_mappings g)))"
  shows "kept_mappings g' = kept_mappings g"
proof -
  let ?L = "drop_repeats None (js_sort gen_order (g_mappings g))"
  have v: "\<forall>m \<in> set ?L. valid_mapping m"
    using assms(1) drop_repeats_subset [of None "js_sort gen_order (g_mappings g)"] by (auto simp: gen_inv_def)
  have "sorted_wrt (cmp_le gen_order) ?L"
    by (rule drop_repeats_sorted [OF gen.sorted_js_sort [OF gen_inv_all_comparable [OF assms(1)]]])
  then have "sorted_wrt (\<lambda>a b. cmp_le gen_order (renormed a) (renormed b)) ?L"
    by (rule sorted_wrt_mono_rel [rotated]) (use v in \<open>simp add: cmp_le_def gen_order_renormed\<close>)
  then have "sorted_wrt (cmp_le gen_order) (g_mappings g')" using assms(2) by (simp add: sorted_wrt_map)
  then have "js_sort gen_order (g_mappings g') = g_mappings g'" by (rule gen.js_sort_sorted)
  moreover have "drop_repeats None (map renormed ?L) = map renormed (drop_repeats None ?L)"
    using drop_repeats_renormed [of ?L None] v by simp
  moreover have "drop_repeats None ?L = ?L"
    using gen_inv_all_comparable [OF assms(1)] by (intro drop_repeats_idem) simp
  ultimately show ?thesis using v assms(2) by (simp add: kept_mappings_def read_back_renormed)
qed

text \<open>
  C40: a generator made from the consumer of a written map writes a map with the same mappings: for
  any sequence of accepted calls (without source root, numbers below \<open>2 ^ 30\<close>) the map is
  written, read, copied with \<^verbatim>\<open>fromSourceMap\<close>, written and read again without an error, and both
  consumers have the same mappings, in generated and in original order.
\<close>

theorem fromSourceMap_roundtrip:
  assumes "generator_of file None calls = Inr g" and "gen_in_range g"
  shows "\<exists>raw c g' raw' c'. toJSON g = Some (sort_mappings g, Inr raw) \<and> SourceMapConsumer raw = Inr c
    \<and> snd (SourceMapGenerator_fromSourceMap c) = Inr g'
    \<and> toJSON g' = Some (sort_mappings g', Inr raw') \<and> SourceMapConsumer raw' = Inr c' \<and> c_file c' = c_file c
    \<and> snd (generatedMappings c') = snd (generatedMappings c) \<and> snd (originalMappings c') = snd (originalMappings c)"
proof -
  have inv: "gen_inv g" using assms(1) by (rule gen_inv_generator_of)
  have root: "g_sourceRoot g = None" "g_sourcesContents g = None" using generator_of_keeps [OF assms(1)] by auto
  obtain raw c where c: "toJSON g = Some (sort_mappings g, Inr raw)" "SourceMapConsumer raw = Inr c"
    "c_generated c = None" "c_original c = None" "c_sourceRoot c = None" "c_file c = g_file g" "c_sourcesContent c = None"
    and parse: "parseMappings c = (c\<lparr>c_generated := Some (kept_mappings g),
        c_original := Some (js_sort orig_order (with_original (kept_mappings g)))\<rparr>, None)"
    using toJSON_consumer [OF inv assms(2)] root by (auto simp: truthy_def)
  let ?L = "drop_repeats None (js_sort gen_order (g_mappings g))"
  let ?args = "map (copied_mapping None) (kept_mappings g)"
  have L: "m \<in> set (g_mappings g)" if "m \<in> set ?L" for m
    using that drop_repeats_subset [of None "js_sort gen_order (g_mappings g)"] by auto
  have valid: "\<forall>a \<in> set ?args. args_valid a \<and> registered (g_sources g) (a_source a) \<and> registered (g_names g) (a_name a)"
    using inv L by (auto simp: kept_mappings_def gen_inv_def args_valid_copied args_registered)
  let ?g0 = "new_generator (g_file g) None"
  have g0: "gen_inv ?g0" by (simp add: new_generator_def gen_inv_def aset.inv_empty aset.toArray_empty)
  obtain g' where g': "foldR addMapping ?args ?g0 = Inr g'" "gen_inv g'" "g_mappings g' = map stored ?args"
    "g_sourceRoot g' = None" "g_sourcesContents g' = None" "g_file g' = g_file g"
    "set (ArraySet_toArray (g_sources g')) \<subseteq> set (ArraySet_toArray (g_sources g))"
    "set (ArraySet_toArray (g_names g')) \<subseteq> set (ArraySet_toArray (g_names g))"
    using addMapping_all [OF valid g0] by (auto simp: new_generator_def aset.toArray_empty)
  have m': "g_mappings g' = map renormed ?L" using g'(3) by (simp add: kept_mappings_def renormed_def)
  have kept: "kept_mappings g' = kept_mappings g" using kept_renormed [OF inv m'] .
  have "mapping_in_range (renormed m)" if "m \<in> set (g_mappings g)" for m
  proof -
    have "valid_mapping m" "mapping_in_range m" using that inv assms(2) by (auto simp: gen_inv_def gen_in_range_def)
    moreover have "truthy (msource (renormed m)) = truthy (msource m)"
      using renormed_original(3) [OF \<open>valid_mapping m\<close>] by (auto simp: truthy_def or_empty_def split: option.splits)
    ultimately show ?thesis by (simp add: mapping_in_range_def renormed_simps renormed_original)
  qed
  then have "gen_in_range g'"
    using sources_length [OF g'(2,7,8)] assms(2) L by (auto simp: gen_in_range_def m')
  from toJSON_consumer [OF g'(2) this] obtain raw' c' where c': "toJSON g' = Some (sort_mappings g', Inr raw')"
    "SourceMapConsumer raw' = Inr c'" "c_generated c' = None" "c_original c' = None" "c_file c' = g_file g"
    and parse': "parseMappings c' = (c'\<lparr>c_generated := Some (kept_mappings g),
        c_original := Some (js_sort orig_order (with_original (kept_mappings g)))\<rparr>, None)"
    using kept g'(6) by auto
  have "foldR (\<lambda>m. addMapping (copied_mapping None m)) ms g = foldR addMapping (map (copied_mapping None) ms) g" for ms g
    by (induction ms arbitrary: g) (simp_all add: bindR_def split: sum.splits)
  moreover have "join_root None s = s" for s by (simp add: join_root_def truthy_def)
  ultimately have "snd (SourceMapGenerator_fromSourceMap c) = Inr g'"
    using g'(1) c(7)
    by (simp add: SourceMapGenerator_fromSourceMap_def eachMapping_def generatedMappings_def c(3,5,6) parse Let_def mapR_def
        contents_not_kept)
  then show ?thesis
    using c c'
    by (intro exI [of _ raw] exI [of _ c] exI [of _ g'] exI [of _ raw'] exI [of _ c'])
      (simp add: generatedMappings_def originalMappings_def parse parse')
qed

theorem fromSourceMap_roundtrip_witness:
  "\<exists>g raw c g'. generator_of (js ''o'') None demo_calls = Inr g \<and> toJSON g = Some (sort_mappings g, Inr raw)
     \<and> SourceMapConsumer raw = Inr c \<and> snd (SourceMapGenerator_fromSourceMap c) = Inr g'"
proof -
  obtain g where g: "generator_of (js ''o'') None demo_calls = Inr g" "gen_in_range g"
    using demo_calls_in_range by blast
  from fromSourceMap_roundtrip [OF g] g(1) show ?thesis by blast
qed


subsection \<open>Composing maps\<close>

text \<open>
  What the composition of two maps says of a mapping: where its original position, in the file that
  the other map is for, comes from, according to the closest mapping at or before it. Names are taken
  over only where both maps have one.
\<close>

definition comes_from :: "mapping \<Rightarrow> mapping option \<Rightarrow> mapping" where
  "comes_from m r =
     (case r of
        None \<Rightarrow> m
      | Some x \<Rightarrow>
          if truthy (msource x) then
            m\<lparr>msource := msource x, originalLine := originalLine x, originalColumn := originalColumn x,
              mname := (if truthy (mname x) \<and> mname m \<noteq> None then mname x else mname m)\<rparr>
          else m)"

definition composed :: "jsstring \<Rightarrow> mapping list \<Rightarrow> mapping \<Rightarrow> mapping \<Rightarrow> bool" where
  "composed file ms m m' \<longleftrightarrow>
     (if msource m = Some file
      then \<exists>r. closest ms (num_of (originalLine m), num_of (originalColumn m)) r \<and> m' = comes_from m r
      else m' = m)"

lemma closest_kept:
  assumes "closest (kept_mappings g) pos r"
  shows "\<exists>x. closest (g_mappings g) pos x \<and> r = map_option read_back x"
proof (cases r)
  case None
  have "\<not> at_or_before (gen_pos m) pos" if m: "m \<in> set (g_mappings g)" for m
  proof -
    obtain m' where "read_back m' \<in> set (kept_mappings g)" "gen_pos m' = gen_pos m" using kept_covers [OF m] by blast
    then show ?thesis using assms None by (auto simp: closest_def)
  qed
  then show ?thesis using None by (auto simp: closest_def)
next
  case (Some y)
  then have y: "y \<in> set (kept_mappings g)" "at_or_before (gen_pos y) pos"
    "\<forall>m' \<in> set (kept_mappings g). at_or_before (gen_pos m') pos \<longrightarrow> at_or_before (gen_pos m') (gen_pos y)"
    using assms by (simp_all add: closest_def)
  obtain x where x: "x \<in> set (g_mappings g)" "y = read_back x"
    using y(1) drop_repeats_subset [of None "js_sort gen_order (g_mappings g)"] by (auto simp: kept_mappings_def)
  have "at_or_before (gen_pos m) (gen_pos x)" if m: "m \<in> set (g_mappings g)" "at_or_before (gen_pos m) pos" for m
  proof -
    obtain m' where "read_back m' \<in> set (kept_mappings g)" "gen_pos m' = gen_pos m" using kept_covers [OF m(1)] by blast
    then show ?thesis using y(3) m(2) x(2) by (metis read_back_line read_back_column)
  qed
  then show ?thesis using x y(2) Some by (auto simp: closest_def intro!: exI [of _ "Some x"])
qed

text \<open>A consumer that will read, or has read, what the generator wrote.\<close>

definition reads_map :: "generator \<Rightarrow> consumer \<Rightarrow> bool" where
  "reads_map g c \<longleftrightarrow> c_sourceRoot c = None \<and> c_sourcesContent c = None
     \<and> (\<exists>c'. generatedMappings c = (c', Inr (kept_mappings g)) \<and> c_generated c' = Some (kept_mappings g)
          \<and> c_sourceRoot c' = None \<and> c_sourcesContent c' = None)"

lemma lookup_in_map:
  assumes "gen_inv g" and "reads_map g c" and "line > 0" and "column \<ge> 0"
  shows "\<exists>c' x. originalPositionFor (Some line) (Some column) c = (c', Inr (case map_option read_back x of
        None \<Rightarrow> null_position
      | Some m \<Rightarrow> \<lparr>op_source = msource m, op_line = or_null (originalLine m), op_column = or_null (originalColumn m),
                  op_name = mname m\<rparr>))
    \<and> closest (g_mappings g) (line, column) x \<and> reads_map g c'"
proof -
  let ?r = "search (generated_needle line column) (kept_mappings g) gen_needle"
  have "closest (kept_mappings g) (line, column) ?r"
    using search_closest [OF kept_sorted [OF assms(1)], of "generated_needle line column"] by (simp add: generated_needle_def)
  then obtain x where x: "closest (g_mappings g) (line, column) x" "?r = map_option read_back x" using closest_kept by blast
  obtain c' where c': "generatedMappings c = (c', Inr (kept_mappings g))" "c_generated c' = Some (kept_mappings g)"
    "c_sourceRoot c' = None" "c_sourcesContent c' = None" "c_sourceRoot c = None" "c_sourcesContent c = None"
    using assms(2) by (auto simp: reads_map_def)
  then have "reads_map g c'" by (simp add: reads_map_def generatedMappings_def)
  then show ?thesis
    using x c' assms(3,4)
    by (intro exI [of _ c'] exI [of _ x]) (auto simp: originalPositionFor_def getArg_def findMapping_def join_root_def truthy_def
      split: option.splits)
qed


lemma apply_to_mapping_composed:
  assumes "gen_inv g" and "reads_map g c" and "valid_mapping m" and "file \<noteq> []"
  shows "\<exists>c' m'. apply_to_mapping None (Some file) m c = (c', Inr m') \<and> reads_map g c' \<and> valid_mapping m'
    \<and> composed file (g_mappings g) m m'"
proof (cases "msource m = Some file")
  case True
  then have "truthy (msource m)" using assms(4) by (simp add: truthy_def)
  then obtain l k where m: "originalLine m = JNum l" "l > 0" "originalColumn m = JNum k" "k \<ge> 0"
    using assms(3) by (auto simp: valid_mapping_def has_original_def lacks_original_def)
  obtain c' x where look: "originalPositionFor (Some l) (Some k) c = (c', Inr (case map_option read_back x of
        None \<Rightarrow> null_position
      | Some m \<Rightarrow> \<lparr>op_source = msource m, op_line = or_null (originalLine m), op_column = or_null (originalColumn m),
                  op_name = mname m\<rparr>))"
    and x: "closest (g_mappings g) (l, k) x" and c': "reads_map g c'"
    using lookup_in_map [OF assms(1,2) m(2,4)] by blast
  have v: "valid_mapping y" if "x = Some y" for y using x that assms(1) by (auto simp: closest_def gen_inv_def)
  have "apply_to_mapping None (Some file) m c = (c', Inr (comes_from m x))"
  proof (cases x)
    case None
    then show ?thesis using look True m(1-3)
      by (simp add: apply_to_mapping_def num_of_def mapR_def comes_from_def null_position_def)
  next
    case (Some y)
    show ?thesis
    proof (cases "truthy (msource y)")
      case t: True
      then obtain l' k' where "originalLine y = JNum l'" "originalColumn y = JNum k'"
        using v [OF Some] by (auto simp: valid_mapping_def has_original_def lacks_original_def)
      then show ?thesis using look True m(1-3) Some t
        by (auto simp: apply_to_mapping_def num_of_def mapR_def comes_from_def rewritten_def or_null_def read_back_def truthy_def)
    next
      case False
      then show ?thesis using look True m(1-3) Some
        by (simp add: apply_to_mapping_def num_of_def mapR_def comes_from_def read_back_def)
    qed
  qed
  moreover have "valid_mapping (comes_from m x)"
  proof (cases x)
    case (Some y)
    then show ?thesis using v [OF Some] assms(3)
      by (auto simp: comes_from_def valid_mapping_def has_original_def lacks_original_def)
  qed (use assms(3) in \<open>simp add: comes_from_def\<close>)
  moreover have "composed file (g_mappings g) m (comes_from m x)"
    using True x m by (auto simp: composed_def num_of_def)
  ultimately show ?thesis using c' by blast
qed (use assms in \<open>simp add: apply_to_mapping_def composed_def\<close>)

lemma apply_mappings_composed:
  assumes "gen_inv g" and "reads_map g c" and "\<forall>m \<in> set ms. valid_mapping m" and "file \<noteq> []"
    and "as_inv S" and "as_inv N" and "distinct (ArraySet_toArray S)" and "distinct (ArraySet_toArray N)"
  shows "\<exists>c' S' N' ms'. apply_mappings None (Some file) ms (c, S, N) = ((c', S', N'), ms', None) \<and> reads_map g c'
    \<and> list_all2 (composed file (g_mappings g)) ms ms' \<and> as_inv S' \<and> as_inv N'
    \<and> distinct (ArraySet_toArray S') \<and> distinct (ArraySet_toArray N')
    \<and> (\<forall>m \<in> set ms'. valid_mapping m \<and> registered S' (msource m) \<and> registered N' (mname m))
    \<and> (\<forall>s. registered S s \<longrightarrow> registered S' s) \<and> (\<forall>n. registered N n \<longrightarrow> registered N' n)"
  using assms
proof (induction ms arbitrary: c S N)
  case (Cons m ms)
  obtain d m' where d: "apply_to_mapping None (Some file) m c = (d, Inr m')" "reads_map g d" "valid_mapping m'"
    "composed file (g_mappings g) m m'"
    using apply_to_mapping_composed [OF Cons.prems(1,2) _ Cons.prems(4)] Cons.prems(3) by (metis list.set_intros(1))
  let ?S = "add_once (msource m') S" and ?N = "add_once (mname m') N"
  have st: "as_inv ?S" "as_inv ?N" "distinct (ArraySet_toArray ?S)" "distinct (ArraySet_toArray ?N)"
    using Cons.prems by (simp_all add: add_once_inv distinct_add_once)
  obtain c' S' N' ms' where r: "apply_mappings None (Some file) ms (d, ?S, ?N) = ((c', S', N'), ms', None)" "reads_map g c'"
    "list_all2 (composed file (g_mappings g)) ms ms'" "as_inv S'" "as_inv N'"
    "distinct (ArraySet_toArray S')" "distinct (ArraySet_toArray N')"
    "\<forall>m \<in> set ms'. valid_mapping m \<and> registered S' (msource m) \<and> registered N' (mname m)"
    "\<forall>s. registered ?S s \<longrightarrow> registered S' s" "\<forall>n. registered ?N n \<longrightarrow> registered N' n"
    using Cons.IH [OF Cons.prems(1) d(2) _ Cons.prems(4) st] Cons.prems(3) by auto
  have "registered S' (msource m')" "registered N' (mname m')"
    "\<forall>s. registered S s \<longrightarrow> registered S' s" "\<forall>n. registered N n \<longrightarrow> registered N' n"
    using r(9,10) registered_add_once Cons.prems(5,6) by blast+
  then show ?case using r d by simp
qed simp

lemma no_contents: "c_sourcesContent c = None \<Longrightarrow> apply_contents root c files g = (g, None)"
  by (induction files) (simp_all add: sourceContentFor_def truthy_def)

text \<open>
  C13: \<^verbatim>\<open>applySourceMap\<close> composes two maps: applied to a generator, the consumer of a written map (numbers
  below \<open>2 ^ 30\<close>, no source root) throws nothing; each mapping into the file of that map then has
  the original position of the closest mapping there at or before its position, and stays as it is
  if there is none or that has no source; all other mappings stay; and the generator is again one that
  can be written.
\<close>

theorem applySourceMap_composes:
  assumes "generator_of file None calls = Inr g1" and "gen_in_range g1" and "file \<noteq> []"
    and "generator_of out None calls' = Inr g2"
  shows "\<exists>raw c c' g'. toJSON g1 = Some (sort_mappings g1, Inr raw) \<and> SourceMapConsumer raw = Inr c
    \<and> applySourceMap c None g2 = (c', g', None)
    \<and> list_all2 (composed file (g_mappings g1)) (g_mappings g2) (g_mappings g')
    \<and> (\<exists>str. serializeMappings g' = Some (Inr str))"
proof -
  have inv: "gen_inv g1" "gen_inv g2" using assms(1,4) gen_inv_generator_of by blast+
  have root: "g_sourceRoot g1 = None" "g_sourcesContents g1 = None" "g_file g1 = Some file" "g_sourceRoot g2 = None"
    using generator_of_keeps [OF assms(1)] generator_of_keeps [OF assms(4)] by auto
  obtain raw c where c: "toJSON g1 = Some (sort_mappings g1, Inr raw)" "SourceMapConsumer raw = Inr c"
    "c_generated c = None" "c_sourceRoot c = None" "c_file c = Some file" "c_sourcesContent c = None"
    and parse: "parseMappings c = (c\<lparr>c_generated := Some (kept_mappings g1),
        c_original := Some (js_sort orig_order (with_original (kept_mappings g1)))\<rparr>, None)"
    using toJSON_consumer [OF inv(1) assms(2)] root by (auto simp: truthy_def)
  have reads: "reads_map g1 c" using c by (simp add: reads_map_def generatedMappings_def parse)
  obtain c' S' N' ms' where r: "apply_mappings None (Some file) (g_mappings g2) (c, ArraySet_new, ArraySet_new)
      = ((c', S', N'), ms', None)" "reads_map g1 c'" "list_all2 (composed file (g_mappings g1)) (g_mappings g2) ms'"
    "as_inv S'" "as_inv N'" "distinct (ArraySet_toArray S')" "distinct (ArraySet_toArray N')"
    "\<forall>m \<in> set ms'. valid_mapping m \<and> registered S' (msource m) \<and> registered N' (mname m)"
    using apply_mappings_composed [OF inv(1) reads _ assms(3) aset.inv_empty aset.inv_empty, of "g_mappings g2"] inv(2)
    by (auto simp: gen_inv_def aset.toArray_empty)
  let ?g = "g2\<lparr>g_mappings := ms', g_sources := S', g_names := N'\<rparr>"
  have "gen_inv ?g" using r(4-8) by (simp add: gen_inv_def)
  then have "\<exists>str. serializeMappings ?g = Some (Inr str)" by (rule serializeMappings_total)
  moreover have "applySourceMap c None g2 = (c', ?g, None)"
    using r(1,2) c(5) root(4) by (simp add: applySourceMap_def truthy_def no_contents reads_map_def)
  ultimately show ?thesis using c(1,2) r(3) by fastforce
qed

theorem applySourceMap_composes_witness:
  "\<exists>g1 g2 raw c c' g'. generator_of (js ''a.js'') None demo_calls = Inr g1
     \<and> generator_of (js ''b'') None demo_calls = Inr g2 \<and> toJSON g1 = Some (sort_mappings g1, Inr raw)
     \<and> SourceMapConsumer raw = Inr c \<and> applySourceMap c None g2 = (c', g', None)"
proof -
  have "case generator_of (js ''a.js'') None demo_calls of Inl e \<Rightarrow> False
      | Inr g \<Rightarrow> list_all mapping_in_range (g_mappings g)
        \<and> length (ArraySet_toArray (g_sources g)) \<le> 1 \<and> length (ArraySet_toArray (g_names g)) \<le> 1"
    by code_simp
  then obtain g1 where g1: "generator_of (js ''a.js'') None demo_calls = Inr g1" "gen_in_range g1"
    by (auto simp: gen_in_range_def list_all_iff split: sum.splits)
  have "case generator_of (js ''b'') None demo_calls of Inl e \<Rightarrow> False | Inr g \<Rightarrow> True" by code_simp
  then obtain g2 where g2: "generator_of (js ''b'') None demo_calls = Inr g2" by (auto split: sum.splits)
  have "js ''a.js'' \<noteq> []" by code_simp
  from applySourceMap_composes [OF g1 this g2] g1(1) g2 show ?thesis by blast
qed

end
