(* ===== verification/PathModule.thy ===== *)
theory PathModule
  imports JsRegexp
begin

text \<open>
  The \<^verbatim>\<open>path\<close> module (POSIX version). An argument that is not a string is \<open>None\<close>. The
  reference is \<open>walk\<close>: reading a path from left to right as a sequence of steps in a
  directory tree; the code reads it from right to left with a counter.
\<close>

subsection \<open>Definitions\<close>

text \<open>The loop of \<^verbatim>\<open>normalizeArray\<close>: the parts from the last to the first, and the kept ones.\<close>

fun normalize_loop :: "jsstring list \<Rightarrow> nat \<Rightarrow> jsstring list \<Rightarrow> jsstring list \<times> nat" where
  "normalize_loop [] up kept = (kept, up)"
| "normalize_loop (part # rest) up kept =
     (if part = js ''.'' then normalize_loop rest up kept
      else if part = js ''..'' then normalize_loop rest (up + 1) kept
      else if up > 0 then normalize_loop rest (up - 1) kept
      else normalize_loop rest up (part # kept))"

definition normalizeArray :: "jsstring list \<Rightarrow> bool \<Rightarrow> jsstring list" where
  "normalizeArray parts allowAboveRoot =
     (let (kept, up) = normalize_loop (rev parts) 0 []
      in if allowAboveRoot then replicate up (js ''..'') @ kept else kept)"

definition non_empty :: "jsstring list \<Rightarrow> jsstring list" where
  "non_empty parts = filter (\<lambda>p. p \<noteq> []) parts"

definition process_cwd :: jsstring where
  "process_cwd = js ''/''"

text \<open>The arguments from the last to the first, then the working directory, up to an absolute one.\<close>

fun resolve_loop :: "jsstring option list \<Rightarrow> jsstring \<Rightarrow> bool \<Rightarrow> (jsstring \<times> bool) res" where
  "resolve_loop [] resolvedPath resolvedAbsolute = Inr (resolvedPath, resolvedAbsolute)"
| "resolve_loop (arg # args) resolvedPath resolvedAbsolute =
     (if resolvedAbsolute then Inr (resolvedPath, resolvedAbsolute)
      else case arg of
             None \<Rightarrow> Inl (TypeError (js ''Arguments to path.resolve must be strings''))
           | Some path \<Rightarrow>
               if path = [] then resolve_loop args resolvedPath resolvedAbsolute
               else resolve_loop args (path @ js ''/'' @ resolvedPath) (charAt path 0 = js ''/''))"

definition path_resolve :: "jsstring option list \<Rightarrow> jsstring res" where
  "path_resolve arguments =
     bindR (resolve_loop (rev arguments @ [Some process_cwd]) [] False)
       (\<lambda>(resolvedPath, resolvedAbsolute).
          let resolvedPath = join_with (js ''/'')
                (normalizeArray (non_empty (split_on 47 resolvedPath)) (\<not> resolvedAbsolute));
              r = (if resolvedAbsolute then js ''/'' else []) @ resolvedPath
          in Inr (if r = [] then js ''.'' else r))"

definition path_isAbsolute :: "jsstring \<Rightarrow> bool" where
  "path_isAbsolute path \<longleftrightarrow> charAt path 0 = js ''/''"

text \<open>\<^verbatim>\<open>substr(path, -1)\<close>: the last character, empty for the empty string.\<close>

definition last_char :: "jsstring \<Rightarrow> jsstring" where
  "last_char s = (if s = [] then [] else [last s])"

definition path_normalize :: "jsstring \<Rightarrow> jsstring" where
  "path_normalize path =
     (let isAbsolute = path_isAbsolute path;
          trailingSlash = (last_char path = js ''/'');
          p = join_with (js ''/'') (normalizeArray (non_empty (split_on 47 path)) (\<not> isAbsolute));
          p = (if p = [] \<and> \<not> isAbsolute then js ''.'' else p);
          p = (if p \<noteq> [] \<and> trailingSlash then p @ js ''/'' else p)
      in (if isAbsolute then js ''/'' else []) @ p)"

definition path_join :: "jsstring option list \<Rightarrow> jsstring res" where
  "path_join arguments =
     (if None \<in> set arguments then Inl (TypeError (js ''Arguments to path.join must be strings''))
      else Inr (path_normalize (join_with (js ''/'') (non_empty (map the arguments)))))"

text \<open>\<^verbatim>\<open>arr.slice(start, end - start + 1)\<close>: the second argument is an end, not a length.\<close>

definition trim :: "jsstring list \<Rightarrow> jsstring list" where
  "trim arr =
     (let start = length (takeWhile (\<lambda>p. p = []) arr);
          end' = int (length arr) - 1 - int (length (takeWhile (\<lambda>p. p = []) (rev arr)))
      in if int start > end' then [] else substring start (nat (end' - int start + 1)) arr)"

fun same_parts :: "jsstring list \<Rightarrow> jsstring list \<Rightarrow> nat" where
  "same_parts (f # fs) (t # ts) = (if f \<noteq> t then 0 else Suc (same_parts fs ts))"
| "same_parts _ _ = 0"

definition path_relative :: "jsstring option \<Rightarrow> jsstring option \<Rightarrow> jsstring res" where
  "path_relative from to =
     bindR (path_resolve [from]) (\<lambda>from.
     bindR (path_resolve [to]) (\<lambda>to.
       let fromParts = trim (split_on 47 (slice_from 1 from));
           toParts = trim (split_on 47 (slice_from 1 to));
           samePartsLength = same_parts fromParts toParts;
           outputParts = replicate (length fromParts - samePartsLength) (js ''..'')
             @ slice_from samePartsLength toParts
       in Inr (join_with (js ''/'') outputParts)))"

definition splitPathRe :: regexp where
  "splitPathRe =
     RSeq RBegin
    (RSeq (RGroup 1 (RAlt (ROpt (RSet (\<lambda>c. c = 47))) REmpty))
    (RSeq (RGroup 2 (RStarLazy (\<lambda>c. True)))
    (RSeq (RGroup 3 (RSeq (RAlt (RSeq (RSet (\<lambda>c. c = 46)) (ROpt (RSet (\<lambda>c. c = 46))))
                          (RAlt (RPlusLazy (\<lambda>c. c \<noteq> 47)) REmpty))
                    (RGroup 4 (RAlt (RSeq (RSet (\<lambda>c. c = 46)) (RStar (\<lambda>c. c \<noteq> 46 \<and> c \<noteq> 47))) REmpty))))
    (RSeq (RStar (\<lambda>c. c = 47)) REnd))))"

text \<open>The captures \<^verbatim>\<open>[root, dir, base, ext]\<close>; a failed match would throw when it is sliced.\<close>

definition splitPath :: "jsstring \<Rightarrow> (jsstring \<times> jsstring \<times> jsstring \<times> jsstring) res" where
  "splitPath filename =
     (case regexp_match splitPathRe filename of
        None \<Rightarrow> Inl (TypeError (js ''Cannot read property 'slice' of null''))
      | Some (i, j, c) \<Rightarrow> Inr (the (c 1), the (c 2), the (c 3), the (c 4)))"

definition path_dirname :: "jsstring \<Rightarrow> jsstring res" where
  "path_dirname path =
     mapR (\<lambda>(root, dir, _, _).
       if root = [] \<and> dir = [] then js ''.'' else root @ (if dir \<noteq> [] then butlast dir else dir))
       (splitPath path)"

definition path_basename :: "jsstring \<Rightarrow> jsstring option \<Rightarrow> jsstring res" where
  "path_basename path ext =
     mapR (\<lambda>(_, _, f, _).
       case ext of
         None \<Rightarrow> f
       | Some e \<Rightarrow> if e \<noteq> [] \<and> drop (length f - length e) f = e then take (length f - length e) f else f)
       (splitPath path)"

definition path_extname :: "jsstring \<Rightarrow> jsstring res" where
  "path_extname path = mapR (\<lambda>(_, _, _, ext). ext) (splitPath path)"

subsection \<open>The reference: walking the directory tree\<close>

text \<open>How far above the start the walk went, and the directories entered since, innermost first.\<close>

definition walk_step :: "jsstring \<Rightarrow> nat \<times> jsstring list \<Rightarrow> nat \<times> jsstring list" where
  "walk_step p s =
     (case s of (u, ds) \<Rightarrow>
        if p = js ''.'' then (u, ds)
        else if p = js ''..'' then (case ds of [] \<Rightarrow> (u + 1, []) | d # ds' \<Rightarrow> (u, ds'))
        else (u, p # ds))"

definition walk :: "jsstring list \<Rightarrow> nat \<times> jsstring list" where
  "walk ps = fold walk_step ps (0, [])"

lemma walk_snoc: "walk (ps @ [p]) = walk_step p (walk ps)"
  by (simp add: walk_def)

lemma normalize_loop_walk:
  "walk ps = (u, ds) \<Longrightarrow>
     normalize_loop (rev ps) up kept = (rev (drop up ds) @ kept, u + (up - length ds))"
proof (induction ps arbitrary: u ds up kept rule: rev_induct)
  case Nil
  then show ?case by (simp add: walk_def)
next
  case (snoc p ps)
  obtain u' ds' where w: "walk ps = (u', ds')" by fastforce
  note IH = snoc.IH [OF w]
  consider (dot) "p = js ''.''" | (up) "p = js ''..''" | (name) "p \<noteq> js ''.''" "p \<noteq> js ''..''" by blast
  then show ?case
  proof cases
    case dot
    then show ?thesis using snoc.prems w IH [of up kept] by (simp add: walk_snoc walk_step_def)
  next
    case up
    then show ?thesis
      using snoc.prems w IH [of "up + 1" kept]
      by (cases ds') (simp_all add: walk_snoc walk_step_def)
  next
    case name
    then show ?thesis
      using snoc.prems w IH [of "up - 1" kept] IH [of 0 "p # kept"]
      by (cases up) (auto simp: walk_snoc walk_step_def)
  qed
qed

lemma normalizeArray_eq:
  "normalizeArray ps allow = replicate (if allow then fst (walk ps) else 0) (js ''..'') @ rev (snd (walk ps))"
proof -
  obtain u ds where "walk ps = (u, ds)" by fastforce
  then show ?thesis using normalize_loop_walk [of ps u ds 0 "[]"] by (simp add: normalizeArray_def)
qed

definition is_name :: "jsstring \<Rightarrow> bool" where
  "is_name p \<longleftrightarrow> p \<noteq> js ''.'' \<and> p \<noteq> js ''..''"

lemma walk_step_names: "\<forall>d \<in> set (snd s). is_name d \<Longrightarrow> \<forall>d \<in> set (snd (walk_step p s)). is_name d"
  by (cases s) (auto simp: walk_step_def is_name_def split: list.splits)

lemma walk_names: "\<forall>d \<in> set (snd (walk ps)). is_name d"
proof (induction ps rule: rev_induct)
  case (snoc p ps)
  then show ?case by (simp add: walk_snoc walk_step_names)
qed (simp add: walk_def)

lemma walk_subset: "set (snd (walk ps)) \<subseteq> set ps"
proof (induction ps rule: rev_induct)
  case (snoc p ps)
  then show ?case
    by (cases "walk ps") (auto simp: walk_snoc walk_step_def split: list.splits)
qed (simp add: walk_def)

lemma fold_names: "\<forall>d \<in> set ns. is_name d \<Longrightarrow> fold walk_step ns (u, ds) = (u, rev ns @ ds)"
  by (induction ns arbitrary: ds) (auto simp: walk_step_def is_name_def)

lemma fold_ups:
  "k \<le> length ds \<Longrightarrow> fold walk_step (replicate k (js ''..'')) (u, ds) = (u, drop k ds)"
proof (induction k arbitrary: ds)
  case (Suc k)
  then show ?case by (cases ds) (auto simp: walk_step_def)
qed simp

lemma fold_ups_root: "fold walk_step (replicate k (js ''..'')) (u, []) = (u + k, [])"
  by (induction k arbitrary: u) (auto simp: walk_step_def)

text \<open>Normalizing twice is normalizing once, and a normalized path has only names after the \<^verbatim>\<open>..\<close>s.\<close>

lemma walk_normal:
  "\<forall>d \<in> set ds. is_name d \<Longrightarrow> walk (replicate u (js ''..'') @ rev ds) = (u, ds)"
  by (simp add: walk_def fold_ups_root fold_names del: fold_replicate)

lemma normalizeArray_idem: "normalizeArray (normalizeArray ps allow) allow = normalizeArray ps allow"
proof -
  obtain u ds where w: "walk ps = (u, ds)" by fastforce
  then have "\<forall>d \<in> set ds. is_name d" using walk_names [of ps] by simp
  then have "walk (replicate (if allow then u else 0) (js ''..'') @ rev ds) = (if allow then u else 0, ds)"
    by (rule walk_normal)
  then show ?thesis using w by (simp add: normalizeArray_eq [of ps] normalizeArray_eq split: if_splits)
qed

subsection \<open>Strings and parts\<close>

abbreviation parts :: "jsstring \<Rightarrow> jsstring list" where
  "parts p \<equiv> non_empty (split_on 47 p)"

definition part_like :: "jsstring \<Rightarrow> bool" where
  "part_like p \<longleftrightarrow> p \<noteq> [] \<and> 47 \<notin> set p"

lemma split_on_sep: "split_on c (a @ c # b) = split_on c a @ split_on c b"
  by (induction a) (auto split: list.splits simp: split_on_not_Nil)

lemma non_empty_simps [simp]:
  "non_empty [] = []" "non_empty (p # ps) = (if p = [] then non_empty ps else p # non_empty ps)"
  "non_empty (ps @ qs) = non_empty ps @ non_empty qs"
  by (simp_all add: non_empty_def)

lemma parts_append: "parts (a @ 47 # b) = parts a @ parts b"
  by (simp add: split_on_sep)


lemma parts_slash: "parts (47 # p) = parts p" "parts (p @ [47]) = parts p"
  using parts_append [of "[]" p] parts_append [of p "[]"] by simp_all

lemma parts_like: "w \<in> set (parts p) \<Longrightarrow> part_like w"
  by (auto simp: non_empty_def part_like_def dest: split_on_no_sep)

lemma parts_join:
  assumes "\<forall>w \<in> set ws. part_like w"
  shows "parts (join_with [47] ws) = ws"
proof (cases "ws = []")
  case False
  then have "split_on 47 (join_with [47] ws) = ws" using assms by (intro split_join) (auto simp: part_like_def)
  then show ?thesis using assms by (simp add: non_empty_def part_like_def)
qed simp

lemma slash: "js ''/'' = [47]"
  by (simp add: js_eval)

lemma dots_part_like [simp]: "part_like (js ''..'')" "part_like (js ''.'')"
  by (simp_all add: part_like_def js_eval)

lemma normalized_like:
  assumes "\<forall>w \<in> set ws. part_like w"
  shows "\<forall>w \<in> set (normalizeArray ws allow). part_like w"
  using assms walk_subset [of ws] by (auto simp: normalizeArray_eq)

lemma join_eq_Nil: "\<forall>w \<in> set ws. part_like w \<Longrightarrow> join_with [47] ws = [] \<longleftrightarrow> ws = []"
  by (cases ws rule: remdups_adj.cases) (auto simp: part_like_def)

lemma join_hd:
  "\<lbrakk>\<forall>w \<in> set ws. part_like w; ws \<noteq> []\<rbrakk> \<Longrightarrow> join_with [47] ws \<noteq> [] \<and> hd (join_with [47] ws) \<noteq> 47"
  by (cases ws rule: remdups_adj.cases) (auto simp: part_like_def neq_Nil_conv)

lemma join_last:
  "\<lbrakk>\<forall>w \<in> set ws. part_like w; ws \<noteq> []\<rbrakk> \<Longrightarrow> last (join_with [47] ws) \<noteq> 47"
proof (induction ws rule: remdups_adj.induct)
  case (2 x)
  then have "x \<noteq> []" "47 \<notin> set x" by (auto simp: part_like_def)
  then show ?case by (metis join_with.simps(2) last_in_set)
next
  case (3 x y xs)
  then show ?case using join_eq_Nil [of "y # xs"] by auto
qed simp

subsection \<open>Absolute paths\<close>

text \<open>Every resolved path is absolute and determined by the parts it is made of.\<close>

definition abs_path :: "jsstring list \<Rightarrow> jsstring" where
  "abs_path ws = 47 # join_with [47] (normalizeArray ws False)"

lemma charAt_0: "charAt p 0 = [47] \<longleftrightarrow> (\<exists>q. p = 47 # q)"
  by (cases p) (auto simp: charAt_def)

lemma resolve_one: "path_resolve [Some p] = Inr (abs_path (parts p))"
proof (cases "p = [] \<or> charAt p 0 = [47]")
  case True
  then show ?thesis
    using parts_slash
    by (auto simp: path_resolve_def process_cwd_def slash charAt_def abs_path_def Let_def)
next
  case False
  then show ?thesis
    using parts_slash
    by (simp add: path_resolve_def process_cwd_def slash charAt_def abs_path_def Let_def)
qed

lemma resolve_two:
  assumes "charAt q 0 \<noteq> [47]"
  shows "path_resolve [Some p, Some q] = Inr (abs_path (parts p @ parts q))"
proof -
  have pq: "parts (p @ 47 # q @ [47]) = parts p @ parts q"
    using parts_append [of p "q @ [47]"] parts_slash(2) [of q] by simp
  consider "q = []" | "q \<noteq> []" "p = []" | "q \<noteq> []" "charAt p 0 = [47]"
    | "q \<noteq> []" "p \<noteq> []" "charAt p 0 \<noteq> [47]" by blast
  then show ?thesis
  proof cases
    case 1
    then have "path_resolve [Some p, Some q] = path_resolve [Some p]"
      by (simp add: path_resolve_def)
    then show ?thesis using 1 by (simp add: resolve_one)
  next
    case 2
    then show ?thesis
      using assms parts_slash
      by (simp add: path_resolve_def process_cwd_def slash charAt_def abs_path_def Let_def)
  next
    case 3
    then show ?thesis
      using assms pq by (auto simp: path_resolve_def process_cwd_def slash charAt_0 abs_path_def Let_def)
  next
    case 4
    then show ?thesis
      using assms pq parts_slash(1)
      by (simp add: path_resolve_def process_cwd_def slash charAt_def abs_path_def Let_def)
  qed
qed

lemma trim_names:
  assumes "\<forall>w \<in> set ws. w \<noteq> []"
  shows "trim ws = ws"
proof (cases "ws = []")
  case False
  have "takeWhile (\<lambda>p. p = []) ws = []" "takeWhile (\<lambda>p. p = []) (rev ws) = []"
    using assms False by (auto simp: takeWhile_eq_Nil_iff hd_rev)
  then show ?thesis using False by (simp add: trim_def)
qed (simp add: trim_def)

lemma trim_split_join:
  assumes "\<forall>w \<in> set ws. part_like w"
  shows "trim (split_on 47 (join_with [47] ws)) = ws"
proof (cases "ws = []")
  case False
  then have "split_on 47 (join_with [47] ws) = ws" using assms by (intro split_join) (auto simp: part_like_def)
  then show ?thesis using assms by (simp add: trim_names part_like_def)
qed (simp add: trim_def)

lemma same_parts_take: "take (same_parts fs ts) fs = take (same_parts fs ts) ts"
  by (induction fs ts rule: same_parts.induct) auto

lemma same_parts_le: "same_parts fs ts \<le> length fs" "same_parts fs ts \<le> length ts"
  by (induction fs ts rule: same_parts.induct) auto

lemma walk_append: "walk (ps @ qs) = fold walk_step qs (walk ps)"
  by (simp add: walk_def)

text \<open>Going up from \<open>from\<close> to the common directory and down again ends in \<open>to\<close>.\<close>

lemma up_and_down:
  assumes "n \<le> length f" and "take n f = take n t" and "rev (snd (walk ps)) = f" and "\<forall>d \<in> set t. is_name d"
  shows "normalizeArray (ps @ replicate (length f - n) (js ''..'') @ drop n t) False = t"
proof -
  obtain u ds where w: "walk ps = (u, ds)" by fastforce
  then have ds: "f = rev ds" using assms(3) by simp
  have "walk (ps @ replicate (length f - n) (js ''..'') @ drop n t) =
      fold walk_step (drop n t) (u, drop (length f - n) ds)"
    using w ds by (simp add: walk_append fold_ups del: fold_replicate)
  also have "\<dots> = (u, rev (drop n t) @ drop (length f - n) ds)"
    using assms(4) by (intro fold_names) (auto dest: in_set_dropD)
  finally have "normalizeArray (ps @ replicate (length f - n) (js ''..'') @ drop n t) False =
      rev (drop (length f - n) ds) @ drop n t"
    by (simp add: normalizeArray_eq)
  also have "rev (drop (length f - n) ds) = take n f"
    using ds assms(1) by (simp add: rev_drop)
  finally show ?thesis using assms(2) by simp
qed

subsection \<open>Properties\<close>

text \<open>
  C27: \<^verbatim>\<open>normalizeArray\<close>, which scans from the end with a counter, gives the directory reached by
  walking the parts from the start: the names entered and not left again, after one \<^verbatim>\<open>..\<close> for
  each step above the start when those are allowed.
\<close>

theorem normalizeArray_walk:
  "normalizeArray ps allow =
     (case walk ps of (ups, dirs) \<Rightarrow> (if allow then replicate ups (js ''..'') else []) @ rev dirs)
   \<and> (\<forall>d \<in> set (snd (walk ps)). d \<in> set ps \<and> d \<noteq> js ''.'' \<and> d \<noteq> js ''..'')"
  using walk_names [of ps] walk_subset [of ps]
  by (auto simp: normalizeArray_eq is_name_def split: prod.split)

theorem normalizeArray_walk_witness:
  "normalizeArray [js ''a'', js ''..'', js ''..'', js ''b''] True = [js ''..'', js ''b'']
   \<and> walk [js ''a'', js ''..'', js ''..'', js ''b''] = (1, [js ''b''])"
proof -
  have w: "walk [js ''a'', js ''..'', js ''..'', js ''b''] = (1, [js ''b''])" by code_simp
  show ?thesis
    using normalizeArray_walk [of "[js ''a'', js ''..'', js ''..'', js ''b'']" True] unfolding w by simp
qed

text \<open>Normalizing a path twice is normalizing it once.\<close>

theorem path_normalize_idem: "path_normalize (path_normalize p) = path_normalize p"
proof -
  let ?a = "path_isAbsolute p" and ?t = "last_char p = [47]"
  let ?ws = "normalizeArray (parts p) (\<not> ?a)"
  have like: "\<forall>w \<in> set ?ws. part_like w" using normalized_like parts_like by blast
  have idem: "normalizeArray ?ws (\<not> ?a) = ?ws" by (rule normalizeArray_idem)
  have dot: "normalizeArray (parts (js ''.'')) True = []"
    "normalizeArray (parts (js ''.'' @ [47])) True = []" by code_simp+
  show ?thesis
  proof (cases "?ws = []")
    case True
    then show ?thesis
      using dot by (cases ?a; cases ?t)
        (auto simp: path_normalize_def path_isAbsolute_def last_char_def slash charAt_def js_eval Let_def
          normalizeArray_def)
  next
    case False
    note nonempty = join_eq_Nil [OF like] join_hd [OF like False] join_last [OF like False]
    have p: "parts (join_with [47] ?ws) = ?ws" using like by (rule parts_join)
    have abs: "path_isAbsolute (join_with [47] ?ws @ x) = False" for x
      using nonempty by (cases "join_with [47] ?ws") (auto simp: path_isAbsolute_def charAt_def slash)
    show ?thesis
      using nonempty False p idem abs [of "[]"] abs [of "[47]"] parts_slash
      by (cases ?a; cases ?t)
        (simp_all add: path_normalize_def Let_def slash last_char_def, simp_all add: path_isAbsolute_def charAt_def slash)
  qed
qed

text \<open>
  C19: \<^verbatim>\<open>relative\<close> gives the way from one path to the other: resolving its result against the
  first path is resolving the second one.
\<close>

theorem relative_leads_to:
  "bindR (path_relative (Some from) (Some to)) (\<lambda>rel. path_resolve [Some from, Some rel])
     = path_resolve [Some to]"
proof -
  let ?f = "normalizeArray (parts from) False" and ?t = "normalizeArray (parts to) False"
  let ?n = "same_parts ?f ?t"
  let ?out = "replicate (length ?f - ?n) (js ''..'') @ drop ?n ?t"
  have like: "\<forall>w \<in> set ?f. part_like w" "\<forall>w \<in> set ?t. part_like w"
    using normalized_like parts_like by blast+
  then have rel: "path_relative (Some from) (Some to) = Inr (join_with [47] ?out)"
    by (simp add: path_relative_def resolve_one abs_path_def trim_split_join slash Let_def)
  have out: "\<forall>w \<in> set ?out. part_like w" using like(2) by (auto dest: in_set_dropD)
  then have "charAt (join_with [47] ?out) 0 \<noteq> [47]"
    using join_hd [OF out] by (cases "?out = []"; cases "join_with [47] ?out") (auto simp: charAt_def)
  then have "path_resolve [Some from, Some (join_with [47] ?out)] = Inr (abs_path (parts from @ ?out))"
    using parts_join [OF out] by (simp add: resolve_two)
  also have "normalizeArray (parts from @ ?out) False = ?t"
    using walk_names [of "parts to"]
    by (intro up_and_down [OF same_parts_le(1) same_parts_take]) (simp_all add: normalizeArray_eq)
  then have "abs_path (parts from @ ?out) = abs_path (parts to)" by (simp add: abs_path_def)
  finally show ?thesis by (simp add: rel resolve_one)
qed

subsection \<open>Directory and base name\<close>

text \<open>What is left after the directory: a base without slashes, and slashes to the end.\<close>

definition stem_re :: regexp where
  "stem_re = RAlt (RSeq (RSet (\<lambda>c. c = 46)) (ROpt (RSet (\<lambda>c. c = 46))))
                  (RAlt (RPlusLazy (\<lambda>c. c \<noteq> 47)) REmpty)"

definition ext_re :: regexp where
  "ext_re = RAlt (RSeq (RSet (\<lambda>c. c = 46)) (RStar (\<lambda>c. c \<noteq> 46 \<and> c \<noteq> 47))) REmpty"

definition base_re :: regexp where
  "base_re = RGroup 3 (RSeq stem_re (RGroup 4 ext_re))"

definition tail_re :: regexp where
  "tail_re = RSeq base_re (RSeq (RStar (\<lambda>c. c = 47)) REnd)"

lemma splitPathRe_eq:
  "splitPathRe = RSeq RBegin (RSeq (RGroup 1 (RAlt (ROpt (RSet (\<lambda>c. c = 47))) REmpty))
     (RSeq (RGroup 2 (RStarLazy (\<lambda>c. True))) tail_re))"
  by (simp add: splitPathRe_def tail_re_def base_re_def stem_re_def ext_re_def)

definition no_slash :: "jsstring \<Rightarrow> nat \<Rightarrow> nat \<Rightarrow> bool" where
  "no_slash s i j \<longleftrightarrow> (\<forall>m. i \<le> m \<and> m < j \<longrightarrow> m < length s \<and> s ! m \<noteq> 47)"

definition all_slash :: "jsstring \<Rightarrow> nat \<Rightarrow> bool" where
  "all_slash s j \<longleftrightarrow> (\<forall>m. j \<le> m \<and> m < length s \<longrightarrow> s ! m = 47)"

lemma no_slash_append: "\<lbrakk>no_slash s i e; no_slash s e j\<rbrakk> \<Longrightarrow> no_slash s i j"
  unfolding no_slash_def by (meson not_le)

lemma stem_matches:
  assumes "matches stem_re s i e c c'"
  shows "i \<le> e \<and> no_slash s i e \<and> c' = c"
  using assms by (auto simp: stem_re_def no_slash_def less_Suc_eq)

lemma stem_complete: "\<lbrakk>no_slash s i e; i \<le> e\<rbrakk> \<Longrightarrow> matches stem_re s i e c c"
  by (cases "i = e") (auto simp: stem_re_def no_slash_def)

lemma ext_matches:
  assumes "matches ext_re s e j c c'"
  shows "e \<le> j \<and> no_slash s e j \<and> c' = c \<and> (e = j \<or> (s ! e = 46 \<and> (\<forall>m. e < m \<and> m < j \<longrightarrow> s ! m \<noteq> 46)))"
proof -
  from assms consider "j = e" "c' = c"
    | "e < length s" "s ! e = 46" "Suc e \<le> j" "c' = c"
      "\<forall>m. Suc e \<le> m \<and> m < j \<longrightarrow> m < length s \<and> s ! m \<noteq> 46 \<and> s ! m \<noteq> 47"
    by (auto simp: ext_re_def)
  then show ?thesis
  proof cases
    case 2
    have "m < length s \<and> s ! m \<noteq> 47" if "e \<le> m" "m < j" for m
      using 2 that by (cases "m = e") auto
    then show ?thesis using 2 by (auto simp: no_slash_def)
  qed (simp add: no_slash_def)
qed

lemma base_matches:
  assumes "matches base_re s i j c c'"
  obtains e where "i \<le> e" and "e \<le> j" and "no_slash s i j" and "c' = c(4 \<mapsto> substring e j s, 3 \<mapsto> substring i j s)"
    and "e = j \<or> (s ! e = 46 \<and> (\<forall>m. e < m \<and> m < j \<longrightarrow> s ! m \<noteq> 46))"
proof -
  from assms obtain e d d' where m: "matches stem_re s i e c d" "matches ext_re s e j d d'"
    "c' = d'(4 \<mapsto> substring e j s, 3 \<mapsto> substring i j s)"
    by (auto simp: base_re_def)
  from stem_matches [OF m(1)] ext_matches [OF m(2)] m(3) show thesis
    by (intro that [of e]) (auto intro: no_slash_append)
qed

lemma tail_matches:
  assumes "matches tail_re s i j c c'"
  obtains b e where "i \<le> e" and "e \<le> b" and "no_slash s i b" and "all_slash s b" and "b \<le> length s"
    and "c' = c(4 \<mapsto> substring e b s, 3 \<mapsto> substring i b s)"
    and "e = b \<or> (s ! e = 46 \<and> (\<forall>m. e < m \<and> m < b \<longrightarrow> s ! m \<noteq> 46))"
proof -
  from assms obtain b d where b: "matches base_re s i b c d" "matches (RStar (\<lambda>c. c = 47)) s b j d c'"
    "j = length s"
    by (auto simp: tail_re_def simp del: matches.simps(3))
  then have "c' = d" "b \<le> length s" "all_slash s b" by (auto simp: all_slash_def)
  with base_matches [OF b(1)] that show thesis by metis
qed

lemma tail_complete:
  assumes "no_slash s i b" and "all_slash s b" and "i \<le> b" and "b \<le> length s"
  shows "\<exists>c'. matches tail_re s i (length s) c c'"
proof -
  have "matches base_re s i b c (c(4 \<mapsto> [], 3 \<mapsto> substring i b s))"
    using stem_complete [OF assms(1,3)] by (force simp: base_re_def ext_re_def)
  then show ?thesis using assms(2,4) by (auto simp: tail_re_def all_slash_def)
qed

lemma no_slash_none: "no_slash s i i" by (simp add: no_slash_def)

text \<open>The last run of slashes ends the path; before it, everything after the last slash is the base.\<close>

lemma tail_somewhere: "\<exists>i b. i \<le> b \<and> b \<le> length s \<and> no_slash s i b \<and> all_slash s b"
  by (intro exI [of _ "length s"]) (auto simp: all_slash_def no_slash_def)

lemma split_dir:
  assumes "try_up (\<lambda>j. rmatch tail_re s j (c(2 \<mapsto> substring i j s)) k) i n = Some r"
    and "\<And>c' j. k j c' \<noteq> None" and "i + n = length s"
  obtains b e j where "i \<le> b" and "b \<le> e" and "e \<le> j" and "j \<le> length s" and "no_slash s b j" and "all_slash s j"
    and "b = i \<or> s ! (b - 1) = 47" and "e = j \<or> (s ! e = 46 \<and> (\<forall>m. e < m \<and> m < j \<longrightarrow> s ! m \<noteq> 46))"
    and "k (length s) (c(2 \<mapsto> substring i b s, 4 \<mapsto> substring e j s, 3 \<mapsto> substring b j s)) = Some r"
proof -
  from try_up_Some [OF assms(1)] obtain m where m: "m \<le> n"
    "rmatch tail_re s (i + m) (c(2 \<mapsto> substring i (i + m) s)) k = Some r"
    "\<forall>l < m. rmatch tail_re s (i + l) (c(2 \<mapsto> substring i (i + l) s)) k = None" by blast
  from rmatch_sound [OF m(2)] obtain f c' where
    f: "matches tail_re s (i + m) f (c(2 \<mapsto> substring i (i + m) s)) c'" "k f c' = Some r" by blast
  have fl: "f = length s" using f(1) by (auto simp: tail_re_def)
  from tail_matches [OF f(1)] obtain j e where je: "i + m \<le> e" "e \<le> j" "no_slash s (i + m) j"
    "all_slash s j" "j \<le> length s"
    "c' = c(2 \<mapsto> substring i (i + m) s, 4 \<mapsto> substring e j s, 3 \<mapsto> substring (i + m) j s)"
    "e = j \<or> (s ! e = 46 \<and> (\<forall>m. e < m \<and> m < j \<longrightarrow> s ! m \<noteq> 46))" by metis
  have "s ! (i + l) = 47" if l: "m = Suc l" for l
  proof (rule ccontr)
    assume c: "s ! (i + l) \<noteq> 47"
    have "i + l < length s" using l m(1) assms(3) by simp
    then have "no_slash s (i + l) (i + m)"
      unfolding no_slash_def using c l by (metis Suc_leI add_Suc_right le_antisym less_Suc_eq_le)
    then have "no_slash s (i + l) j" using je(3) by (rule no_slash_append)
    moreover have "i + l \<le> j" using je(1,2) l by simp
    ultimately obtain d where "matches tail_re s (i + l) (length s) (c(2 \<mapsto> substring i (i + l) s)) d"
      using tail_complete [OF _ je(4) _ je(5), of "i + l"] by blast
    from rmatch_complete [OF this, of k] assms(2) [of "length s" d] m(3) l show False by simp
  qed
  then have "i + m = i \<or> s ! (i + m - 1) = 47" by (cases m) auto
  then show thesis using that [of "i + m" e j] je f(2) fl by simp
qed

lemma splitPathRe_search:
  fixes K :: "nat \<Rightarrow> captures \<Rightarrow> 'r option"
  assumes "\<And>j c. K j c \<noteq> None"
  obtains r i where "rmatch splitPathRe s 0 Map.empty K = Some r"
    and "i = 0 \<or> (i = 1 \<and> s \<noteq> [] \<and> s ! 0 = 47)"
    and "try_up (\<lambda>j. rmatch tail_re s j ([1 \<mapsto> substring 0 i s, 2 \<mapsto> substring i j s]) K) i (length s - i) = Some r"
proof -
  let ?k = "\<lambda>i. try_up (\<lambda>j. rmatch tail_re s j ([1 \<mapsto> substring 0 i s, 2 \<mapsto> substring i j s]) K) i (length s - i)"
  have eq: "rmatch splitPathRe s 0 Map.empty K =
      (case (if s \<noteq> [] \<and> s ! 0 = 47 then ?k 1 else None) of Some x \<Rightarrow> Some x | None \<Rightarrow> ?k 0)"
    by (cases "s \<noteq> [] \<and> s ! 0 = 47") (auto simp: splitPathRe_eq takeWhile_eq_all_conv [THEN iffD2] split: option.split)
  obtain c' where "matches tail_re s (length s) (length s) ([1 \<mapsto> [], 2 \<mapsto> substring 0 (length s) s]) c'"
    using tail_complete [of s "length s" "length s"] by (auto simp: no_slash_none all_slash_def)
  then have "rmatch tail_re s (0 + length s) ([1 \<mapsto> [], 2 \<mapsto> substring 0 (0 + length s) s]) K \<noteq> None"
    using rmatch_complete [OF _ assms] by fastforce
  then have "?k 0 \<noteq> None"
    using try_up_complete [of "length s" "length s" "\<lambda>j. rmatch tail_re s j ([1 \<mapsto> [], 2 \<mapsto> substring 0 j s]) K" 0]
    by simp
  then obtain r0 where "?k 0 = Some r0" by blast
  then show thesis
    using that [of _ 0] that [of _ 1] eq
    by (cases "s \<noteq> [] \<and> s ! 0 = 47"; cases "?k 1") (auto split: option.splits)
qed

lemma substring_nth: "\<lbrakk>j \<le> length s; m < j - i\<rbrakk> \<Longrightarrow> substring i j s ! m = s ! (i + m)"
  by (simp add: substring_def)

lemma set_substring: "j \<le> length s \<Longrightarrow> x \<in> set (substring i j s) \<longleftrightarrow> (\<exists>m. i \<le> m \<and> m < j \<and> s ! m = x)"
proof
  assume j: "j \<le> length s"
  assume "x \<in> set (substring i j s)"
  then obtain m where "m < j - i" "substring i j s ! m = x" using j by (auto simp: in_set_conv_nth)
  then show "\<exists>m. i \<le> m \<and> m < j \<and> s ! m = x"
    using j by (intro exI [of _ "i + m"]) (auto simp: substring_nth)
next
  assume j: "j \<le> length s"
  assume "\<exists>m. i \<le> m \<and> m < j \<and> s ! m = x"
  then obtain m where "i \<le> m" "m < j" "s ! m = x" by blast
  then show "x \<in> set (substring i j s)"
    using j by (auto simp: in_set_conv_nth substring_nth intro!: exI [of _ "m - i"])
qed

text \<open>
  \<^verbatim>\<open>splitPath\<close> always matches and cuts a path into a root, a directory that is empty or ends in
  a slash, a base name without slashes that ends in the extension, and trailing slashes.
\<close>

theorem splitPath_parts:
  "\<exists>root dir base ext slashes. splitPath p = Inr (root, dir, base, ext)
     \<and> p = root @ dir @ base @ slashes \<and> set slashes \<subseteq> {47} \<and> (root = [] \<or> root = [47])
     \<and> (dir = [] \<or> last dir = 47) \<and> 47 \<notin> set base
     \<and> (\<exists>stem. base = stem @ ext) \<and> (ext = [] \<or> hd ext = 46 \<and> 46 \<notin> set (tl ext))"
proof -
  let ?K = "\<lambda>j c. Some (0::nat, j, c :: captures)"
  obtain r i where r: "rmatch splitPathRe p 0 Map.empty ?K = Some r"
    and i: "i = 0 \<or> (i = 1 \<and> p \<noteq> [] \<and> p ! 0 = 47)"
    and up: "try_up (\<lambda>j. rmatch tail_re p j ([1 \<mapsto> substring 0 i p, 2 \<mapsto> substring i j p]) ?K) i (length p - i) = Some r"
    using splitPathRe_search [of ?K p] by blast
  have "i + (length p - i) = length p" using i by (cases p) auto
  from split_dir [OF up _ this] obtain b e j where be: "i \<le> b" "b \<le> e" "e \<le> j" "j \<le> length p"
    "no_slash p b j" "all_slash p j" "b = i \<or> p ! (b - 1) = 47"
    "e = j \<or> (p ! e = 46 \<and> (\<forall>m. e < m \<and> m < j \<longrightarrow> p ! m \<noteq> 46))"
    "Some (0, length p, [1 \<mapsto> substring 0 i p, 2 \<mapsto> substring i b p, 4 \<mapsto> substring e j p, 3 \<mapsto> substring b j p])
      = Some r"
    by (metis option.distinct(1))
  have "regexp_match splitPathRe p = Some r"
    using r by (cases "length p") (simp_all add: regexp_match_def)
  then have "splitPath p = Inr (substring 0 i p, substring i b p, substring b j p, substring e j p)"
    by (simp add: splitPath_def flip: be(9))
  moreover have "substring 0 i p @ substring i b p @ substring b j p @ substring j (length p) p
      = substring 0 (length p) p" using be(1-4) by (simp del: substring_0)
  then have "p = substring 0 i p @ substring i b p @ substring b j p @ substring j (length p) p" by simp
  moreover have "set (substring j (length p) p) \<subseteq> {47}"
    using be(6) by (auto simp: set_substring all_slash_def)
  moreover have "substring 0 i p = [] \<or> substring 0 i p = [47]"
    using i by (cases p) auto
  moreover have "substring i b p = [] \<or> last (substring i b p) = 47"
  proof (cases "i < b")
    case True
    then have "last (substring i b p) = substring i b p ! (b - i - 1)"
      using be(2-4) by (subst last_conv_nth) (auto simp flip: length_greater_0_conv)
    also have "\<dots> = p ! (b - 1)" using True be(2-4) by (simp add: substring_nth)
    finally show ?thesis using be(7) True by simp
  qed (simp add: substring_def)
  moreover have "47 \<notin> set (substring b j p)"
    using be(4,5) by (auto simp: set_substring no_slash_def)
  moreover have "substring b j p = substring b e p @ substring e j p"
    using be(2,3) by simp
  moreover have "substring e j p = [] \<or> hd (substring e j p) = 46 \<and> 46 \<notin> set (tl (substring e j p))"
  proof (cases "e = j")
    case False
    then have "substring e j p = p ! e # substring (Suc e) j p"
      using be(3,4) by (simp add: substring_def Cons_nth_drop_Suc [symmetric] take_Cons' Suc_diff_le)
    then show ?thesis using False be(4,8) by (auto simp: set_substring)
  qed simp
  ultimately show ?thesis by blast
qed

end
