(* ===== verification/ProcessShim.thy ===== *)
theory ProcessShim
  imports Prelude "HOL-Library.Sublist"
begin

text \<open>
  The browser shim for \<^verbatim>\<open>process\<close>. A callback is a task; what the queue sees of running it is
  the sequence of tasks it passes to \<^verbatim>\<open>nextTick\<close> and whether it then throws, which the
  parameter \<open>run\<close> gives. \<open>timers\<close> counts the pending \<^verbatim>\<open>setTimeout(drainQueue, 0)\<close>. The
  histories \<open>calls\<close> (tasks passed to \<^verbatim>\<open>nextTick\<close>) and \<open>started\<close> are not
  part of the code; they are what the properties speak about.
\<close>

record 'task process =
  queue :: "'task list"
  draining :: bool
  timers :: nat
  calls :: "'task list"
  started :: "'task list"

definition process_init :: "'task process" where
  "process_init = \<lparr>queue = [], draining = False, timers = 0, calls = [], started = []\<rparr>"

definition nextTick :: "'task \<Rightarrow> 'task process \<Rightarrow> 'task process" where
  "nextTick f st =
     (let st = st\<lparr>queue := queue st @ [f], calls := calls st @ [f]\<rparr>
      in if \<not> draining st then st\<lparr>timers := timers st + 1\<rparr> else st)"

text \<open>The inner loop \<^verbatim>\<open>while (++i < len) currentQueue[i]()\<close>; the flag is a throw.\<close>

fun run_batch :: "('task \<Rightarrow> 'task list \<times> bool) \<Rightarrow> 'task list \<Rightarrow> 'task process \<Rightarrow> 'task process \<times> bool" where
  "run_batch run [] st = (st, False)"
| "run_batch run (t # ts) st =
     (let st = fold nextTick (fst (run t)) (st\<lparr>started := started st @ [t]\<rparr>)
      in if snd (run t) then (st, True) else run_batch run ts st)"

text \<open>The outer loop. It does not end when tasks keep scheduling tasks.\<close>

partial_function (option) drain_loop ::
    "('task \<Rightarrow> 'task list \<times> bool) \<Rightarrow> 'task process \<Rightarrow> ('task process \<times> bool) option" where
  "drain_loop run st =
     (if queue st = [] then Some (st\<lparr>draining := False\<rparr>, False)
      else case run_batch run (queue st) (st\<lparr>queue := []\<rparr>) of
             (st', threw) \<Rightarrow> if threw then Some (st', True) else drain_loop run st')"

definition drainQueue ::
    "('task \<Rightarrow> 'task list \<times> bool) \<Rightarrow> 'task process \<Rightarrow> ('task process \<times> bool) option" where
  "drainQueue run st =
     (if draining st then Some (st, False) else drain_loop run (st\<lparr>draining := True\<rparr>))"

text \<open>What the program around it can do: call \<^verbatim>\<open>nextTick\<close>, or let a timer fire.\<close>

inductive process_step ::
    "('task \<Rightarrow> 'task list \<times> bool) \<Rightarrow> 'task process \<Rightarrow> 'task process \<Rightarrow> bool" for run where
  tick: "process_step run st (nextTick f st)"
| fire: "\<lbrakk>timers st > 0; drainQueue run (st\<lparr>timers := timers st - 1\<rparr>) = Some (st', threw)\<rbrakk>
    \<Longrightarrow> process_step run st st'"

inductive_cases process_stepE: "process_step run st st'"

text \<open>Parts of the shim that do nothing or refuse.\<close>

definition process_binding :: "jsstring \<Rightarrow> unit res" where
  "process_binding name = Inl (Error (js ''process.binding is not supported''))"

definition process_chdir :: "jsstring \<Rightarrow> unit res" where
  "process_chdir dir = Inl (Error (js ''process.chdir is not supported''))"

subsection \<open>Order\<close>

lemma nextTick_draining:
  "draining st \<Longrightarrow> nextTick f st = st\<lparr>queue := queue st @ [f], calls := calls st @ [f]\<rparr>"
  by (simp add: nextTick_def)

lemma fold_nextTick:
  "draining st \<Longrightarrow> fold nextTick fs st = st\<lparr>queue := queue st @ fs, calls := calls st @ fs\<rparr>"
  by (induction fs arbitrary: st) (simp_all add: nextTick_draining)

lemma run_batch_eq:
  assumes "draining st" and "run_batch run ts st = (st', threw)"
  shows "\<exists>ds fs. st' = st\<lparr>queue := queue st @ fs, calls := calls st @ fs, started := started st @ ds\<rparr>
    \<and> (\<not> threw \<longrightarrow> ds = ts \<and> fs = concat (map (\<lambda>t. fst (run t)) ts))
    \<and> (threw \<longrightarrow> (\<exists>t \<in> set ts. snd (run t)))"
  using assms
proof (induction ts arbitrary: st)
  case Nil
  then show ?case by (intro exI [of _ "[]"]) auto
next
  case (Cons t ts)
  let ?s = "st\<lparr>queue := queue st @ fst (run t), calls := calls st @ fst (run t), started := started st @ [t]\<rparr>"
  have s: "fold nextTick (fst (run t)) (st\<lparr>started := started st @ [t]\<rparr>) = ?s"
    using Cons.prems(1) by (simp add: fold_nextTick)
  show ?case
  proof (cases "snd (run t)")
    case True
    then have "st' = ?s" "threw" using Cons.prems(2) s by (auto simp: Let_def)
    with True show ?thesis by (intro exI [of _ "[t]"] exI [of _ "fst (run t)"]) auto
  next
    case False
    then have "run_batch run ts ?s = (st', threw)" using Cons.prems(2) s by (simp add: Let_def)
    from Cons.IH [OF _ this] Cons.prems(1) obtain ds fs where
      "st' = ?s\<lparr>queue := queue ?s @ fs, calls := calls ?s @ fs, started := started ?s @ ds\<rparr>"
      "\<not> threw \<longrightarrow> ds = ts \<and> fs = concat (map (\<lambda>t. fst (run t)) ts)"
      "threw \<longrightarrow> (\<exists>t \<in> set ts. snd (run t))" by auto
    then show ?thesis
      by (intro exI [of _ "t # ds"] exI [of _ "fst (run t) @ fs"]) auto
  qed
qed

text \<open>While nothing throws, every task is started once, in the order of the calls.\<close>

definition in_order :: "'task process \<Rightarrow> bool" where
  "in_order st \<longleftrightarrow> calls st = started st @ queue st"

definition drained :: "'task process \<Rightarrow> 'task process \<times> bool \<Rightarrow> bool" where
  "drained st r \<longleftrightarrow> \<not> snd r \<and> in_order (fst r) \<and> queue (fst r) = [] \<and> \<not> draining (fst r)
     \<and> timers (fst r) = timers st \<and> prefix (calls st) (calls (fst r))"

lemma drain_loop_in_order:
  assumes "drain_loop run st = Some r" and "draining st" and "in_order st" and "\<forall>t. \<not> snd (run t)"
  shows "drained st r"
proof -
  have "draining st \<longrightarrow> in_order st \<longrightarrow> (\<forall>t. \<not> snd (run t)) \<longrightarrow> drained st r"
  proof (rule drain_loop.raw_induct [OF _ assms(1)], intro impI)
    fix loop run st r
    assume IH: "\<And>run st r. loop run st = Some r \<Longrightarrow>
        draining st \<longrightarrow> in_order st \<longrightarrow> (\<forall>t. \<not> snd (run t)) \<longrightarrow> drained st r"
      and body: "(if queue st = [] then Some (st\<lparr>draining := False\<rparr>, False)
        else case run_batch run (queue st) (st\<lparr>queue := []\<rparr>) of
          (st', threw) \<Rightarrow> if threw then Some (st', True) else loop run st') = Some r"
      and st: "draining (st :: 'task process)" "in_order st" "\<forall>t. \<not> snd (run t)"
    show "drained st r"
    proof (cases "queue st = []")
      case True
      with body st show ?thesis by (auto simp: drained_def in_order_def)
    next
      case False
      obtain s th where b: "run_batch run (queue st) (st\<lparr>queue := []\<rparr>) = (s, th)" by fastforce
      from run_batch_eq [OF _ b] st obtain fs where
        s: "\<not> th" "s = st\<lparr>queue := fs, calls := calls st @ fs, started := started st @ queue st\<rparr>"
        by auto
      with body False b have "loop run s = Some r" by simp
      from IH [OF this] s(2) st show ?thesis by (auto simp: in_order_def drained_def append_assoc [symmetric] dest: append_prefixD simp del: append_assoc)
    qed
  qed
  with assms(2-4) show ?thesis by blast
qed

text \<open>A throw leaves \<^verbatim>\<open>draining\<close> set.\<close>

lemma drain_loop_throw:
  assumes "drain_loop run st = Some r" and "draining st"
  shows "draining (fst r) = snd r"
proof -
  have "draining st \<longrightarrow> draining (fst r) = snd r"
  proof (rule drain_loop.raw_induct [OF _ assms(1)], intro impI)
    fix loop run st r
    assume IH: "\<And>run st r. loop run st = Some r \<Longrightarrow> draining st \<longrightarrow> draining (fst r) = snd r"
      and body: "(if queue st = [] then Some (st\<lparr>draining := False\<rparr>, False)
        else case run_batch run (queue st) (st\<lparr>queue := []\<rparr>) of
          (st', threw) \<Rightarrow> if threw then Some (st', True) else loop run st') = Some r"
      and st: "draining (st :: 'task process)"
    obtain s th where b: "run_batch run (queue st) (st\<lparr>queue := []\<rparr>) = (s, th)" by fastforce
    from run_batch_eq [OF _ b] st have "draining s" by auto
    note s = this
    consider "queue st = []" | "queue st \<noteq> []" th | "queue st \<noteq> []" "\<not> th" by blast
    then show "draining (fst r) = snd r"
    proof cases
      case 1
      with body show ?thesis by auto
    next
      case 2
      with body b have "r = (s, True)" by simp
      with s show ?thesis by simp
    next
      case 3
      with body b have "loop run s = Some r" by simp
      from IH [OF this] s show ?thesis by blast
    qed
  qed
  with assms(2) show ?thesis by blast
qed

text \<open>Tasks that only schedule tasks of lower rank: the loop ends.\<close>

lemma drain_loop_total:
  fixes rank :: "'task \<Rightarrow> nat"
  assumes "\<forall>t. \<forall>u \<in> set (fst (run t)). rank u < rank t" and "draining st"
    and "\<forall>t \<in> set (queue st). rank t < n"
  shows "\<exists>r. drain_loop run st = Some r"
  using assms(2,3)
proof (induction n arbitrary: st)
  case 0
  then have "queue st = []" by (cases "queue st") auto
  then have "drain_loop run st = Some (st\<lparr>draining := False\<rparr>, False)" by (subst drain_loop.simps) simp
  then show ?case ..
next
  case (Suc n)
  obtain s th where b: "run_batch run (queue st) (st\<lparr>queue := []\<rparr>) = (s, th)" by fastforce
  from run_batch_eq [OF _ b] Suc.prems(1) have s: "draining s"
    "\<not> th \<longrightarrow> queue s = concat (map (\<lambda>t. fst (run t)) (queue st))" by auto
  have "\<exists>r. drain_loop run s = Some r" if "\<not> th"
  proof (rule Suc.IH [OF s(1)])
    show "\<forall>t \<in> set (queue s). rank t < n"
      using s(2) that assms(1) Suc.prems(2) by (fastforce simp: less_Suc_eq_le)
  qed
  then show ?case using b by (subst drain_loop.simps) auto
qed

text \<open>What holds whenever the program is between two steps, as long as no callback throws.\<close>

definition settled :: "'task process \<Rightarrow> bool" where
  "settled st \<longleftrightarrow> in_order st \<and> \<not> draining st \<and> (queue st \<noteq> [] \<longrightarrow> timers st > 0)"

lemma drainQueue_settled:
  assumes "drainQueue run st = Some r" and "in_order st" and "\<not> draining st" and "\<forall>t. \<not> snd (run t)"
  shows "drained st r"
proof -
  have "drained (st\<lparr>draining := True\<rparr>) r"
    using assms by (intro drain_loop_in_order) (simp_all add: drainQueue_def in_order_def)
  then show ?thesis by (simp add: drained_def)
qed

lemma reachable_settled:
  assumes "(process_step run)\<^sup>*\<^sup>* process_init st" and "\<forall>t. \<not> snd (run t)"
  shows "settled st"
  using assms(1)
proof (induction rule: rtranclp_induct)
  case base
  show ?case by (simp add: settled_def in_order_def process_init_def)
next
  case (step st st')
  from step(2) show ?case
  proof cases
    case (tick f)
    with step(3) show ?thesis by (simp add: settled_def in_order_def nextTick_def Let_def)
  next
    case (fire threw)
    then have "drained (st\<lparr>timers := timers st - 1\<rparr>) (st', threw)" using step(3) assms(2)
      by (intro drainQueue_settled) (simp_all add: settled_def in_order_def)
    then show ?thesis by (simp add: settled_def drained_def)
  qed
qed

lemma drainQueue_ends:
  fixes rank :: "'task \<Rightarrow> nat"
  assumes "\<forall>t. \<forall>u \<in> set (fst (run t)). rank u < rank t"
  shows "\<exists>st' threw. drainQueue run st = Some (st', threw)"
proof -
  have "\<exists>n. \<forall>t \<in> set (queue st). rank t < n"
    by (meson finite_nat_set_iff_bounded finite_imageI finite_set imageI)
  then obtain n where "\<forall>t \<in> set (queue st). rank t < n" ..
  then have "\<exists>r. drain_loop run (st\<lparr>draining := True\<rparr>) = Some r"
    using assms by (intro drain_loop_total [of run rank _ n]) simp_all
  then show ?thesis by (auto simp: drainQueue_def)
qed

subsection \<open>Properties\<close>

text \<open>
  C20: as long as no callback throws, the callbacks are started exactly in the order in which they
  were passed to \<^verbatim>\<open>nextTick\<close>, each once, no drain is left open, and whenever something is waiting
  a timer that will drain the queue is pending.
\<close>

theorem nextTick_order:
  assumes "(process_step run)\<^sup>*\<^sup>* process_init st" and "\<forall>t. \<not> snd (run t)"
  shows "calls st = started st @ queue st \<and> \<not> draining st \<and> (queue st \<noteq> [] \<longrightarrow> timers st > 0)"
  using reachable_settled [OF assms] by (simp add: settled_def in_order_def)

definition demo_run :: "nat \<Rightarrow> nat list \<times> bool" where
  "demo_run t = (if t = 0 then [] else [t - 1], False)"

theorem nextTick_order_witness:
  "calls (nextTick 2 (nextTick 1 process_init)) =
     started (nextTick 2 (nextTick 1 process_init)) @ queue (nextTick 2 (nextTick (1 :: nat) process_init))"
proof -
  have "(process_step demo_run)\<^sup>*\<^sup>* process_init (nextTick 2 (nextTick 1 process_init))"
    by (rule rtranclp.rtrancl_into_rtrancl [OF r_into_rtranclp]) (rule process_step.tick)+
  from nextTick_order [OF this] show ?thesis by (simp add: demo_run_def)
qed

text \<open>
  C8: a callback that was passed to \<^verbatim>\<open>nextTick\<close> runs in the end: when none throws and they cannot schedule
  each other forever (each schedules only callbacks of a lower rank), then from every state the program can
  be in there is a step after which each callback passed so far has been started, and none waits.
\<close>

theorem callbacks_run_eventually:
  fixes rank :: "'task \<Rightarrow> nat"
  assumes "(process_step run)\<^sup>*\<^sup>* process_init st" and "\<forall>t. \<not> snd (run t)"
    and "\<forall>t. \<forall>u \<in> set (fst (run t)). rank u < rank t"
  shows "\<exists>st'. (process_step run)\<^sup>*\<^sup>* st st' \<and> queue st' = [] \<and> started st' = calls st'
    \<and> prefix (calls st) (started st')"
proof (cases "queue st = []")
  case True
  with reachable_settled [OF assms(1,2)] show ?thesis
    by (intro exI [of _ st]) (simp add: settled_def in_order_def)
next
  case False
  note settled = reachable_settled [OF assms(1,2)]
  let ?s = "st\<lparr>timers := timers st - 1\<rparr>"
  obtain st' threw where r: "drainQueue run ?s = Some (st', threw)" using drainQueue_ends [OF assms(3)] by blast
  then have "drained ?s (st', threw)" using settled assms(2)
    by (intro drainQueue_settled) (simp_all add: settled_def in_order_def)
  moreover have "process_step run st st'" using False settled r by (auto simp: settled_def intro: process_step.fire)
  ultimately show ?thesis by (intro exI [of _ st']) (auto simp: drained_def in_order_def)
qed

theorem callbacks_run_eventually_witness:
  "\<exists>st'. (process_step demo_run)\<^sup>*\<^sup>* (nextTick 3 process_init) st' \<and> queue st' = [] \<and> started st' = calls st'
    \<and> prefix (calls (nextTick 3 process_init)) (started st')"
  by (rule callbacks_run_eventually [of _ _ id])
    (auto simp: demo_run_def intro: process_step.tick)

text \<open>
  C34: a callback that throws wedges the queue for good: after it no callback is ever started
  again, whatever is passed to \<^verbatim>\<open>nextTick\<close>.
\<close>

theorem throw_wedges_queue:
  assumes "\<not> draining st" and "drainQueue run st = Some (st1, True)" and "(process_step run)\<^sup>*\<^sup>* st1 st2"
  shows "started st2 = started st1 \<and> draining st2"
  using assms(3)
proof (induction rule: rtranclp_induct)
  case base
  show ?case
    using drain_loop_throw [of run "st\<lparr>draining := True\<rparr>" "(st1, True)"] assms(1,2)
    by (simp add: drainQueue_def)
next
  case (step s s')
  from step(2) show ?case
    by cases (use step(3) in \<open>auto simp: nextTick_def drainQueue_def\<close>)
qed

definition throwing_run :: "nat \<Rightarrow> nat list \<times> bool" where
  "throwing_run t = ([], t = 0)"

theorem throw_wedges_queue_witness:
  "\<exists>st1. drainQueue throwing_run (nextTick 0 process_init) = Some (st1, True)
     \<and> started (nextTick 7 st1) = [0] \<and> draining (nextTick 7 st1)"
proof -
  obtain st1 where st1: "drainQueue throwing_run (nextTick 0 process_init) = Some (st1, True)"
    "started st1 = [0]"
    by (simp add: drainQueue_def nextTick_def process_init_def throwing_run_def drain_loop.simps)
  have "(process_step throwing_run)\<^sup>*\<^sup>* st1 (nextTick 7 st1)"
    by (simp add: process_step.tick r_into_rtranclp)
  from throw_wedges_queue [OF _ st1(1) this] st1 show ?thesis
    by (simp add: nextTick_def process_init_def)
qed

end
