(* ===== verification/BufferInts.thy ===== *)
theory BufferInts
  imports Prelude
begin

text \<open>
  The integer accessors of \<^verbatim>\<open>Buffer\<close>. A buffer is the sequence of its bytes, as the typed-array
  representation (\<^verbatim>\<open>Buffer.TYPED_ARRAY_SUPPORT\<close>) stores them: a stored number is reduced modulo 256
  and a store past the end does nothing. A read past the end gives \<^verbatim>\<open>undefined\<close>, which is \<open>None\<close>
  here; arithmetic makes it \<^verbatim>\<open>NaN\<close> and the bitwise operators make it 0. Numbers are exact
  integers, which JavaScript's are up to \<open>2 ^ 53\<close>: enough for the six bytes the variable-width
  accessors are made for; \<^verbatim>\<open>writeIntLE\<close> and \<^verbatim>\<open>writeIntBE\<close> are modelled for at least one byte. The object representation's writers (\<open>objectWriteUInt16\<close>,
  \<open>objectWriteUInt32\<close>) are modelled beside the typed ones and shown to agree with them.
\<close>

type_synonym buffer = "int list"
type_synonym jsvalue = "int option"

definition wf_buffer :: "buffer \<Rightarrow> bool" where
  "wf_buffer b \<longleftrightarrow> (\<forall>x \<in> set b. 0 \<le> x \<and> x < 256)"

subsection \<open>Elements and arithmetic\<close>

abbreviation get :: "buffer \<Rightarrow> int \<Rightarrow> jsvalue" where
  "get b i \<equiv> js_index b i"

definition put :: "int \<Rightarrow> int \<Rightarrow> buffer \<Rightarrow> buffer" where
  "put i v b = (if 0 \<le> i \<and> i < int (length b) then b[nat i := v mod 256] else b)"

definition nadd :: "jsvalue \<Rightarrow> jsvalue \<Rightarrow> jsvalue" where
  "nadd x y = (case (x, y) of (Some a, Some b) \<Rightarrow> Some (a + b) | _ \<Rightarrow> None)"

definition nmul :: "jsvalue \<Rightarrow> int \<Rightarrow> jsvalue" where
  "nmul x k = map_option (\<lambda>a. a * k) x"

text \<open>The operand of a bitwise operator.\<close>

definition bits :: "jsvalue \<Rightarrow> int" where
  "bits x = (case x of None \<Rightarrow> 0 | Some a \<Rightarrow> a)"

text \<open>\<^verbatim>\<open>(value / mul) >> 0\<close>: the quotient with its fraction dropped.\<close>

definition trunc_div :: "int \<Rightarrow> int \<Rightarrow> int" where
  "trunc_div v m = (if v \<ge> 0 then v div m else - ((- v) div m))"

subsection \<open>Reading\<close>

definition checkOffset :: "int \<Rightarrow> int \<Rightarrow> int \<Rightarrow> unit res" where
  "checkOffset offset ext len =
     (if offset < 0 then Inl (RangeError (js ''offset is not uint''))
      else if offset + ext > len then Inl (RangeError (js ''Trying to access beyond buffer length''))
      else Inr ())"

definition check_read :: "bool \<Rightarrow> int \<Rightarrow> int \<Rightarrow> buffer \<Rightarrow> unit res" where
  "check_read noAssert offset ext this =
     (if noAssert then Inr () else checkOffset offset ext (int (length this)))"

text \<open>\<^verbatim>\<open>while (++i < byteLength && (mul *= 0x100)) val += this[offset + i] * mul\<close>.\<close>

function read_le_loop :: "buffer \<Rightarrow> int \<Rightarrow> nat \<Rightarrow> nat \<Rightarrow> int \<Rightarrow> jsvalue \<Rightarrow> jsvalue \<times> int" where
  "read_le_loop this offset byteLength i mul val =
     (if Suc i < byteLength
      then read_le_loop this offset byteLength (Suc i) (mul * 0x100)
             (nadd val (nmul (get this (offset + int (Suc i))) (mul * 0x100)))
      else (val, mul))"
  by pat_completeness auto
termination
  by (relation "measure (\<lambda>(b, off, n, i, m, v). n - i)") auto

declare read_le_loop.simps [simp del]

text \<open>\<^verbatim>\<open>while (byteLength > 0 && (mul *= 0x100)) val += this[offset + --byteLength] * mul\<close>.\<close>

primrec read_be_loop :: "buffer \<Rightarrow> int \<Rightarrow> nat \<Rightarrow> int \<Rightarrow> jsvalue \<Rightarrow> jsvalue \<times> int" where
  "read_be_loop this offset 0 mul val = (val, mul)"
| "read_be_loop this offset (Suc n) mul val =
     read_be_loop this offset n (mul * 0x100) (nadd val (nmul (get this (offset + int n)) (mul * 0x100)))"

definition readUIntLE :: "int \<Rightarrow> int \<Rightarrow> bool \<Rightarrow> buffer \<Rightarrow> jsvalue res" where
  "readUIntLE offset byteLength noAssert this =
     (let offset = js_shr offset 0; byteLength = js_shr byteLength 0
      in bindR (check_read noAssert offset byteLength this) (\<lambda>_.
           Inr (fst (read_le_loop this offset (nat byteLength) 0 1 (get this offset)))))"

definition readUIntBE :: "int \<Rightarrow> int \<Rightarrow> bool \<Rightarrow> buffer \<Rightarrow> jsvalue res" where
  "readUIntBE offset byteLength noAssert this =
     (let offset = js_shr offset 0; byteLength = js_shr byteLength 0
      in bindR (check_read noAssert offset byteLength this) (\<lambda>_.
           Inr (fst (read_be_loop this offset (nat (byteLength - 1)) 1 (get this (offset + (byteLength - 1)))))))"

definition readUInt8 :: "int \<Rightarrow> bool \<Rightarrow> buffer \<Rightarrow> jsvalue res" where
  "readUInt8 offset noAssert this =
     bindR (check_read noAssert offset 1 this) (\<lambda>_. Inr (get this offset))"

abbreviation byte_at :: "buffer \<Rightarrow> int \<Rightarrow> int" where
  "byte_at this i \<equiv> bits (get this i)"

definition readUInt16LE :: "int \<Rightarrow> bool \<Rightarrow> buffer \<Rightarrow> jsvalue res" where
  "readUInt16LE offset noAssert this =
     bindR (check_read noAssert offset 2 this) (\<lambda>_.
       Inr (Some (js_or (byte_at this offset) (js_shl (byte_at this (offset + 1)) 8))))"

definition readUInt16BE :: "int \<Rightarrow> bool \<Rightarrow> buffer \<Rightarrow> jsvalue res" where
  "readUInt16BE offset noAssert this =
     bindR (check_read noAssert offset 2 this) (\<lambda>_.
       Inr (Some (js_or (js_shl (byte_at this offset) 8) (byte_at this (offset + 1)))))"

definition readUInt32LE :: "int \<Rightarrow> bool \<Rightarrow> buffer \<Rightarrow> jsvalue res" where
  "readUInt32LE offset noAssert this =
     bindR (check_read noAssert offset 4 this) (\<lambda>_.
       Inr (nadd (Some (js_or (js_or (byte_at this offset) (js_shl (byte_at this (offset + 1)) 8))
                              (js_shl (byte_at this (offset + 2)) 16)))
                 (nmul (get this (offset + 3)) 0x1000000)))"

definition readUInt32BE :: "int \<Rightarrow> bool \<Rightarrow> buffer \<Rightarrow> jsvalue res" where
  "readUInt32BE offset noAssert this =
     bindR (check_read noAssert offset 4 this) (\<lambda>_.
       Inr (nadd (nmul (get this offset) 0x1000000)
                 (Some (js_or (js_or (js_shl (byte_at this (offset + 1)) 16) (js_shl (byte_at this (offset + 2)) 8))
                              (byte_at this (offset + 3))))))"

text \<open>\<^verbatim>\<open>mul *= 0x80; if (val >= mul) val -= Math.pow(2, 8 * byteLength)\<close>; a comparison with \<^verbatim>\<open>NaN\<close> is false.\<close>

definition fold_sign :: "jsvalue \<times> int \<Rightarrow> int \<Rightarrow> jsvalue" where
  "fold_sign r byteLength =
     (case r of (val, mul) \<Rightarrow>
        case val of None \<Rightarrow> None
        | Some v \<Rightarrow> Some (if v \<ge> mul * 0x80 then v - 2 ^ nat (8 * byteLength) else v))"

definition readIntLE :: "int \<Rightarrow> int \<Rightarrow> bool \<Rightarrow> buffer \<Rightarrow> jsvalue res" where
  "readIntLE offset byteLength noAssert this =
     (let offset = js_shr offset 0; byteLength = js_shr byteLength 0
      in bindR (check_read noAssert offset byteLength this) (\<lambda>_.
           Inr (fold_sign (read_le_loop this offset (nat byteLength) 0 1 (get this offset)) byteLength)))"

definition readIntBE :: "int \<Rightarrow> int \<Rightarrow> bool \<Rightarrow> buffer \<Rightarrow> jsvalue res" where
  "readIntBE offset byteLength noAssert this =
     (let offset = js_shr offset 0; byteLength = js_shr byteLength 0
      in bindR (check_read noAssert offset byteLength this) (\<lambda>_.
           Inr (fold_sign (read_be_loop this offset (nat (byteLength - 1)) 1 (get this (offset + (byteLength - 1))))
                  byteLength)))"

definition readInt8 :: "int \<Rightarrow> bool \<Rightarrow> buffer \<Rightarrow> jsvalue res" where
  "readInt8 offset noAssert this =
     bindR (check_read noAssert offset 1 this) (\<lambda>_.
       Inr (if js_and (byte_at this offset) 0x80 = 0 then get this offset
            else map_option (\<lambda>x. (0xff - x + 1) * -1) (get this offset)))"

definition sign_extend16 :: "int \<Rightarrow> int" where
  "sign_extend16 val = (if js_and val 0x8000 \<noteq> 0 then js_or val 0xFFFF0000 else val)"

definition readInt16LE :: "int \<Rightarrow> bool \<Rightarrow> buffer \<Rightarrow> jsvalue res" where
  "readInt16LE offset noAssert this =
     bindR (check_read noAssert offset 2 this) (\<lambda>_.
       Inr (Some (sign_extend16 (js_or (byte_at this offset) (js_shl (byte_at this (offset + 1)) 8)))))"

definition readInt16BE :: "int \<Rightarrow> bool \<Rightarrow> buffer \<Rightarrow> jsvalue res" where
  "readInt16BE offset noAssert this =
     bindR (check_read noAssert offset 2 this) (\<lambda>_.
       Inr (Some (sign_extend16 (js_or (byte_at this (offset + 1)) (js_shl (byte_at this offset) 8)))))"

definition readInt32LE :: "int \<Rightarrow> bool \<Rightarrow> buffer \<Rightarrow> jsvalue res" where
  "readInt32LE offset noAssert this =
     bindR (check_read noAssert offset 4 this) (\<lambda>_.
       Inr (Some (js_or (js_or (js_or (byte_at this offset) (js_shl (byte_at this (offset + 1)) 8))
                               (js_shl (byte_at this (offset + 2)) 16))
                        (js_shl (byte_at this (offset + 3)) 24))))"

definition readInt32BE :: "int \<Rightarrow> bool \<Rightarrow> buffer \<Rightarrow> jsvalue res" where
  "readInt32BE offset noAssert this =
     bindR (check_read noAssert offset 4 this) (\<lambda>_.
       Inr (Some (js_or (js_or (js_or (js_shl (byte_at this offset) 24) (js_shl (byte_at this (offset + 1)) 16))
                               (js_shl (byte_at this (offset + 2)) 8))
                        (byte_at this (offset + 3)))))"

subsection \<open>Writing\<close>

definition checkInt :: "buffer \<Rightarrow> int \<Rightarrow> int \<Rightarrow> int \<Rightarrow> int \<Rightarrow> int \<Rightarrow> unit res" where
  "checkInt buf value offset ext max_value min_value =
     (if value > max_value \<or> value < min_value then Inl (RangeError (js ''value is out of bounds''))
      else if offset + ext > int (length buf) then Inl (RangeError (js ''index out of range''))
      else Inr ())"

definition check_write :: "bool \<Rightarrow> buffer \<Rightarrow> int \<Rightarrow> int \<Rightarrow> int \<Rightarrow> int \<Rightarrow> int \<Rightarrow> unit res" where
  "check_write noAssert buf value offset ext max_value min_value =
     (if noAssert then Inr () else checkInt buf value offset ext max_value min_value)"

text \<open>
  The two byte loops; the argument \<open>digit\<close> gives the byte for a multiplier. The little-endian one
  is \<^verbatim>\<open>while (++i < byteLength && (mul *= 0x100)) this[offset + i] = ...\<close>.
\<close>

function write_le_loop :: "(int \<Rightarrow> int) \<Rightarrow> int \<Rightarrow> nat \<Rightarrow> nat \<Rightarrow> int \<Rightarrow> buffer \<Rightarrow> buffer" where
  "write_le_loop digit offset byteLength i mul this =
     (if Suc i < byteLength
      then write_le_loop digit offset byteLength (Suc i) (mul * 0x100)
             (put (offset + int (Suc i)) (digit (mul * 0x100)) this)
      else this)"
  by pat_completeness auto
termination
  by (relation "measure (\<lambda>(d, off, n, i, m, b). n - i)") auto

declare write_le_loop.simps [simp del]

primrec write_be_loop :: "(int \<Rightarrow> int) \<Rightarrow> int \<Rightarrow> nat \<Rightarrow> int \<Rightarrow> buffer \<Rightarrow> buffer" where
  "write_be_loop digit offset 0 mul this = this"
| "write_be_loop digit offset (Suc n) mul this =
     write_be_loop digit offset n (mul * 0x100) (put (offset + int n) (digit (mul * 0x100)) this)"

text \<open>\<^verbatim>\<open>(value / mul) >>> 0 & 0xFF\<close> and \<^verbatim>\<open>((value / mul) >> 0) - sub & 0xFF\<close>.\<close>

definition unsigned_digit :: "int \<Rightarrow> int \<Rightarrow> int" where
  "unsigned_digit value mul = js_and (js_shr (trunc_div value mul) 0) 0xFF"

definition signed_digit :: "int \<Rightarrow> int \<Rightarrow> int" where
  "signed_digit value mul = js_and (js_sar (trunc_div value mul) 0 - (if value < 0 then 1 else 0)) 0xFF"

definition writeUIntLE :: "int \<Rightarrow> int \<Rightarrow> int \<Rightarrow> bool \<Rightarrow> buffer \<Rightarrow> (buffer \<times> int) res" where
  "writeUIntLE value offset byteLength noAssert this =
     (let offset = js_shr offset 0; byteLength = js_shr byteLength 0
      in bindR (check_write noAssert this value offset byteLength (2 ^ nat (8 * byteLength)) 0) (\<lambda>_.
           let this = put offset (js_and value 0xFF) this
           in Inr (write_le_loop (unsigned_digit value) offset (nat byteLength) 0 1 this, offset + byteLength)))"

definition writeUIntBE :: "int \<Rightarrow> int \<Rightarrow> int \<Rightarrow> bool \<Rightarrow> buffer \<Rightarrow> (buffer \<times> int) res" where
  "writeUIntBE value offset byteLength noAssert this =
     (let offset = js_shr offset 0; byteLength = js_shr byteLength 0
      in bindR (check_write noAssert this value offset byteLength (2 ^ nat (8 * byteLength)) 0) (\<lambda>_.
           let this = put (offset + (byteLength - 1)) (js_and value 0xFF) this
           in Inr (write_be_loop (unsigned_digit value) offset (nat (byteLength - 1)) 1 this, offset + byteLength)))"

definition writeUInt8 :: "int \<Rightarrow> int \<Rightarrow> bool \<Rightarrow> buffer \<Rightarrow> (buffer \<times> int) res" where
  "writeUInt8 value offset noAssert this =
     (let offset = js_shr offset 0
      in bindR (check_write noAssert this value offset 1 0xff 0) (\<lambda>_. Inr (put offset value this, offset + 1)))"

definition writeUInt16LE :: "int \<Rightarrow> int \<Rightarrow> bool \<Rightarrow> buffer \<Rightarrow> (buffer \<times> int) res" where
  "writeUInt16LE value offset noAssert this =
     (let offset = js_shr offset 0
      in bindR (check_write noAssert this value offset 2 0xffff 0) (\<lambda>_.
           Inr (put (offset + 1) (js_shr value 8) (put offset value this), offset + 2)))"

definition writeUInt16BE :: "int \<Rightarrow> int \<Rightarrow> bool \<Rightarrow> buffer \<Rightarrow> (buffer \<times> int) res" where
  "writeUInt16BE value offset noAssert this =
     (let offset = js_shr offset 0
      in bindR (check_write noAssert this value offset 2 0xffff 0) (\<lambda>_.
           Inr (put (offset + 1) value (put offset (js_shr value 8) this), offset + 2)))"

definition writeUInt32LE :: "int \<Rightarrow> int \<Rightarrow> bool \<Rightarrow> buffer \<Rightarrow> (buffer \<times> int) res" where
  "writeUInt32LE value offset noAssert this =
     (let offset = js_shr offset 0
      in bindR (check_write noAssert this value offset 4 0xffffffff 0) (\<lambda>_.
           Inr (put offset value (put (offset + 1) (js_shr value 8) (put (offset + 2) (js_shr value 16)
                  (put (offset + 3) (js_shr value 24) this))), offset + 4)))"

definition writeUInt32BE :: "int \<Rightarrow> int \<Rightarrow> bool \<Rightarrow> buffer \<Rightarrow> (buffer \<times> int) res" where
  "writeUInt32BE value offset noAssert this =
     (let offset = js_shr offset 0
      in bindR (check_write noAssert this value offset 4 0xffffffff 0) (\<lambda>_.
           Inr (put (offset + 3) value (put (offset + 2) (js_shr value 8) (put (offset + 1) (js_shr value 16)
                  (put offset (js_shr value 24) this))), offset + 4)))"

definition writeIntLE :: "int \<Rightarrow> int \<Rightarrow> nat \<Rightarrow> bool \<Rightarrow> buffer \<Rightarrow> (buffer \<times> int) res" where
  "writeIntLE value offset byteLength noAssert this =
     (let offset = js_shr offset 0
      in bindR (check_write noAssert this value offset (int byteLength)
                  (2 ^ (8 * byteLength - 1) - 1) (- (2 ^ (8 * byteLength - 1)))) (\<lambda>_.
           let this = put offset (js_and value 0xFF) this
           in Inr (write_le_loop (signed_digit value) offset byteLength 0 1 this, offset + int byteLength)))"

definition writeIntBE :: "int \<Rightarrow> int \<Rightarrow> nat \<Rightarrow> bool \<Rightarrow> buffer \<Rightarrow> (buffer \<times> int) res" where
  "writeIntBE value offset byteLength noAssert this =
     (let offset = js_shr offset 0
      in bindR (check_write noAssert this value offset (int byteLength)
                  (2 ^ (8 * byteLength - 1) - 1) (- (2 ^ (8 * byteLength - 1)))) (\<lambda>_.
           let this = put (offset + (int byteLength - 1)) (js_and value 0xFF) this
           in Inr (write_be_loop (signed_digit value) offset (byteLength - 1) 1 this, offset + int byteLength)))"

definition writeInt8 :: "int \<Rightarrow> int \<Rightarrow> bool \<Rightarrow> buffer \<Rightarrow> (buffer \<times> int) res" where
  "writeInt8 value offset noAssert this =
     (let offset = js_shr offset 0
      in bindR (check_write noAssert this value offset 1 0x7f (- 0x80)) (\<lambda>_.
           Inr (put offset (if value < 0 then 0xff + value + 1 else value) this, offset + 1)))"

definition writeInt16LE :: "int \<Rightarrow> int \<Rightarrow> bool \<Rightarrow> buffer \<Rightarrow> (buffer \<times> int) res" where
  "writeInt16LE value offset noAssert this =
     (let offset = js_shr offset 0
      in bindR (check_write noAssert this value offset 2 0x7fff (- 0x8000)) (\<lambda>_.
           Inr (put (offset + 1) (js_shr value 8) (put offset value this), offset + 2)))"

definition writeInt16BE :: "int \<Rightarrow> int \<Rightarrow> bool \<Rightarrow> buffer \<Rightarrow> (buffer \<times> int) res" where
  "writeInt16BE value offset noAssert this =
     (let offset = js_shr offset 0
      in bindR (check_write noAssert this value offset 2 0x7fff (- 0x8000)) (\<lambda>_.
           Inr (put (offset + 1) value (put offset (js_shr value 8) this), offset + 2)))"

definition writeInt32LE :: "int \<Rightarrow> int \<Rightarrow> bool \<Rightarrow> buffer \<Rightarrow> (buffer \<times> int) res" where
  "writeInt32LE value offset noAssert this =
     (let offset = js_shr offset 0
      in bindR (check_write noAssert this value offset 4 0x7fffffff (- 0x80000000)) (\<lambda>_.
           Inr (put (offset + 3) (js_shr value 24) (put (offset + 2) (js_shr value 16) (put (offset + 1) (js_shr value 8)
                  (put offset value this))), offset + 4)))"

definition writeInt32BE :: "int \<Rightarrow> int \<Rightarrow> bool \<Rightarrow> buffer \<Rightarrow> (buffer \<times> int) res" where
  "writeInt32BE value offset noAssert this =
     (let offset = js_shr offset 0
      in bindR (check_write noAssert this value offset 4 0x7fffffff (- 0x80000000)) (\<lambda>_.
           let value = (if value < 0 then 0xffffffff + value + 1 else value)
           in Inr (put (offset + 3) value (put (offset + 2) (js_shr value 8) (put (offset + 1) (js_shr value 16)
                     (put offset (js_shr value 24) this))), offset + 4)))"

text \<open>The writers of the object representation: \<open>put\<close> of a byte, up to the end of the buffer.\<close>

definition objectWriteUInt16 :: "buffer \<Rightarrow> int \<Rightarrow> int \<Rightarrow> bool \<Rightarrow> buffer" where
  "objectWriteUInt16 buf value offset littleEndian =
     (let value = (if value < 0 then 0xffff + value + 1 else value);
          j = min (int (length buf) - offset) 2
      in fold (\<lambda>i b. let k = (if littleEndian then i else 1 - i)
                      in put (offset + int i) (js_shr (js_and value (js_shl 0xff (8 * k))) (k * 8)) b)
           [0..<nat j] buf)"

definition objectWriteUInt32 :: "buffer \<Rightarrow> int \<Rightarrow> int \<Rightarrow> bool \<Rightarrow> buffer" where
  "objectWriteUInt32 buf value offset littleEndian =
     (let value = (if value < 0 then 0xffffffff + value + 1 else value);
          j = min (int (length buf) - offset) 4
      in fold (\<lambda>i b. let k = (if littleEndian then i else 3 - i)
                      in put (offset + int i) (js_and (js_shr value (k * 8)) 0xff) b)
           [0..<nat j] buf)"

subsection \<open>Bytes of a number\<close>

fun le_val :: "int list \<Rightarrow> int" where
  "le_val [] = 0"
| "le_val (x # xs) = x + 256 * le_val xs"

definition le_bytes :: "nat \<Rightarrow> int \<Rightarrow> int list" where
  "le_bytes n v = map (\<lambda>i. v div 256 ^ i mod 256) [0..<n]"

lemma length_le_bytes [simp]: "length (le_bytes n v) = n"
  by (simp add: le_bytes_def)

lemma le_bytes_Suc: "le_bytes (Suc n) v = v mod 256 # le_bytes n (v div 256)"
proof -
  have "[0..<Suc n] = 0 # map Suc [0..<n]" by (simp add: map_Suc_upt upt_conv_Cons)
  then show ?thesis by (simp add: le_bytes_def zdiv_zmult2_eq comp_def)
qed

lemma le_val_bytes: "le_val (le_bytes n v) = v mod 256 ^ n"
proof (induction n arbitrary: v)
  case (Suc n)
  have "le_val (le_bytes (Suc n) v) = v mod 256 + 256 * (v div 256 mod 256 ^ n)"
    by (simp add: le_bytes_Suc Suc.IH)
  also have "\<dots> = v mod (256 * 256 ^ n)" by (simp add: zmod_zmult2_eq)
  finally show ?case by simp
qed (simp add: le_bytes_def)

lemma le_val_append: "le_val (xs @ ys) = le_val xs + 256 ^ length xs * le_val ys"
  by (induction xs) (simp_all add: algebra_simps)

lemma le_val_bounds: "\<forall>x \<in> set xs. 0 \<le> x \<and> x < 256 \<Longrightarrow> 0 \<le> le_val xs \<and> le_val xs < 256 ^ length xs"
  by (induction xs) fastforce+

lemma le_bytes_val: "\<forall>x \<in> set xs. 0 \<le> x \<and> x < 256 \<Longrightarrow> le_bytes (length xs) (le_val xs) = xs"
proof (induction xs)
  case Nil
  show ?case by (simp add: le_bytes_def)
next
  case (Cons x xs)
  then show ?case by (simp add: le_bytes_Suc)
qed

lemma le_bytes_mod: "le_bytes n (v mod 256 ^ n) = le_bytes n v"
  using le_bytes_val [of "le_bytes n v"] le_val_bytes [of n v] by (auto simp: le_bytes_def)

text \<open>Part of a buffer replaced by other bytes.\<close>

definition splice :: "nat \<Rightarrow> int list \<Rightarrow> buffer \<Rightarrow> buffer" where
  "splice k xs b = take k b @ xs @ drop (k + length xs) b"

definition chunk :: "nat \<Rightarrow> nat \<Rightarrow> buffer \<Rightarrow> int list" where
  "chunk k n b = take n (drop k b)"

lemma length_splice [simp]: "k + length xs \<le> length b \<Longrightarrow> length (splice k xs b) = length b"
  by (simp add: splice_def)

lemma chunk_splice [simp]: "k + length xs \<le> length b \<Longrightarrow> n = length xs \<Longrightarrow> chunk k n (splice k xs b) = xs"
  by (simp add: chunk_def splice_def)

lemma chunk_splice_other:
  assumes "k + length xs \<le> length b" and "j + n \<le> k \<or> k + length xs \<le> j"
  shows "chunk j n (splice k xs b) = chunk j n b"
  using assms by (auto simp: chunk_def splice_def drop_take min_def)

lemma nth_splice:
  assumes "k + length xs \<le> length b" and "i < length b"
  shows "splice k xs b ! i = (if k \<le> i \<and> i < k + length xs then xs ! (i - k) else b ! i)"
  using assms by (auto simp: splice_def nth_append min_def)

lemma length_put [simp]: "length (put i v b) = length b"
  by (simp add: put_def)

lemma nth_put: "put (int i) v b ! k = (if k = i \<and> i < length b then v mod 256 else b ! k)"
  by (auto simp: put_def nth_list_update)

lemma wf_put: "wf_buffer b \<Longrightarrow> wf_buffer (put i v b)"
  by (auto simp: wf_buffer_def put_def dest!: subsetD [OF set_update_subset_insert])

lemma get_sum: "k + i < length b \<Longrightarrow> get b (int k + int i) = Some (b ! (k + i))"
  by (simp add: js_index_def nat_add_distrib)

lemma nth_put_sum:
  "put (int k + int i) v b ! j = (if j = k + i \<and> k + i < length b then v mod 256 else b ! j)"
  using nth_put [of "k + i"] by simp

subsection \<open>The loops\<close>

lemma read_le_loop_eq:
  "\<lbrakk>i < n; k + n \<le> length b\<rbrakk> \<Longrightarrow>
     read_le_loop b (int k) n i m (Some v) =
       (Some (v + m * 256 * le_val (chunk (k + Suc i) (n - Suc i) b)), m * 256 ^ (n - Suc i))"
proof (induction "n - i" arbitrary: i m v)
  case (Suc d)
  show ?case
  proof (cases "Suc i < n")
    case False
    then show ?thesis using Suc.prems by (subst read_le_loop.simps) (simp add: chunk_def)
  next
    case True
    then have "read_le_loop b (int k) n i m (Some v) =
        read_le_loop b (int k) n (Suc i) (m * 256) (Some (v + b ! (k + Suc i) * (m * 256)))"
      using Suc.prems get_sum [of k "Suc i" b]
      by (subst read_le_loop.simps) (simp add: nadd_def nmul_def del: of_nat_Suc add_Suc_right)
    also have "\<dots> = (Some (v + b ! (k + Suc i) * (m * 256)
        + m * 256 * 256 * le_val (chunk (k + Suc (Suc i)) (n - Suc (Suc i)) b)), m * 256 * 256 ^ (n - Suc (Suc i)))"
      using Suc True by (intro Suc.hyps(1)) auto
    also have "chunk (k + Suc i) (n - Suc i) b = b ! (k + Suc i) # chunk (k + Suc (Suc i)) (n - Suc (Suc i)) b"
      using True Suc.prems
      by (simp add: chunk_def Cons_nth_drop_Suc [symmetric] take_Cons' numeral_2_eq_2)
    then have "v + b ! (k + Suc i) * (m * 256)
        + m * 256 * 256 * le_val (chunk (k + Suc (Suc i)) (n - Suc (Suc i)) b)
        = v + m * 256 * le_val (chunk (k + Suc i) (n - Suc i) b)" by (simp add: algebra_simps)
    finally show ?thesis using True by (simp add: Suc_diff_Suc [symmetric] mult.assoc)
  qed
qed simp

lemma chunk_Suc: "k + Suc n \<le> length b \<Longrightarrow> chunk k (Suc n) b = b ! k # chunk (Suc k) n b"
  by (simp add: chunk_def Cons_nth_drop_Suc [symmetric])

lemma chunk_snoc: "k + Suc n \<le> length b \<Longrightarrow> chunk k (Suc n) b = chunk k n b @ [b ! (k + n)]"
  by (simp add: chunk_def take_Suc_conv_app_nth)

lemma read_be_loop_eq:
  "k + n \<le> length b \<Longrightarrow> read_be_loop b (int k) n m (Some v) =
     (Some (v + m * 256 * le_val (rev (chunk k n b))), m * 256 ^ n)"
proof (induction n arbitrary: m v)
  case (Suc n)
  then show ?case
    using get_sum [of k n b] by (simp add: nadd_def nmul_def chunk_snoc algebra_simps)
qed (simp add: chunk_def)

lemma length_write_le [simp]: "length (write_le_loop d off n i m b) = length b"
  by (induction d off n i m b rule: write_le_loop.induct) (subst write_le_loop.simps, simp)

lemma nth_write_le:
  "k + n \<le> length b \<Longrightarrow> write_le_loop d (int k) n i m b ! j =
     (if k + i < j \<and> j < k + n then d (m * 256 ^ (j - k - i)) mod 256 else b ! j)"
proof (induction "n - i" arbitrary: i m b)
  case 0
  then show ?case by (subst write_le_loop.simps) simp
next
  case (Suc d')
  show ?case
  proof (cases "Suc i < n")
    case False
    then show ?thesis by (subst write_le_loop.simps) auto
  next
    case True
    let ?b = "put (int k + int (Suc i)) (d (m * 256)) b"
    have "write_le_loop d (int k) n i m b = write_le_loop d (int k) n (Suc i) (m * 256) ?b"
      using True by (subst write_le_loop.simps) simp
    moreover have "write_le_loop d (int k) n (Suc i) (m * 256) ?b ! j =
        (if k + Suc i < j \<and> j < k + n then d (m * 256 * 256 ^ (j - k - Suc i)) mod 256 else ?b ! j)"
      using Suc True by (intro Suc.hyps(1)) auto
    moreover have "(256 :: int) * 256 ^ (j - k - Suc i) = 256 ^ (j - k - i)" if "k + Suc i < j"
    proof -
      have "j - k - i = Suc (j - k - Suc i)" using that by simp
      then show ?thesis by simp
    qed
    ultimately show ?thesis using True Suc.prems by (auto simp: nth_put_sum mult.assoc less_Suc_eq not_less_eq simp del: of_nat_Suc)
  qed
qed

lemma length_write_be [simp]: "length (write_be_loop d off n m b) = length b"
  by (induction n arbitrary: m b) simp_all

lemma nth_write_be:
  "k + n \<le> length b \<Longrightarrow> write_be_loop d (int k) n m b ! j =
     (if k \<le> j \<and> j < k + n then d (m * 256 ^ (k + n - j)) mod 256 else b ! j)"
proof (induction n arbitrary: m b)
  case (Suc n)
  have "(256 :: int) * 256 ^ (k + n - j) = 256 ^ (k + Suc n - j)" if "j \<le> k + n"
    using that by (simp add: Suc_diff_le)
  then show ?case
    using Suc.IH [of "put (int k + int n) (d (m * 256)) b" "m * 256"] Suc.prems
    by (auto simp: nth_put_sum mult.assoc less_Suc_eq)
qed simp

subsection \<open>Combining and splitting bytes\<close>

lemma shr_byte:
  assumes "k + 8 \<le> 32"
  shows "js_shr v k mod 256 = v div 2 ^ k mod 256"
proof -
  have "(2 :: int) ^ 32 = 2 ^ k * 2 ^ (32 - k)" using assms by (simp flip: power_add)
  then have "v mod 2 ^ 32 = 2 ^ k * (v div 2 ^ k mod 2 ^ (32 - k)) + v mod 2 ^ k"
    by (simp only: zmod_zmult2_eq zero_le_power zero_le_numeral)
  then have "(v mod 2 ^ 32) div 2 ^ k = v div 2 ^ k mod 2 ^ (32 - k)" by simp
  moreover have "(2 :: int) ^ 8 dvd 2 ^ (32 - k)" using assms by (intro le_imp_power_dvd) simp
  ultimately have "(v mod 2 ^ 32) div 2 ^ k mod 2 ^ 8 = v div 2 ^ k mod 2 ^ 8" by (simp add: mod_mod_cancel)
  then show ?thesis using assms by (simp add: js_shr_eq)
qed

lemma shr_0: "\<lbrakk>0 \<le> v; v < 2 ^ 32\<rbrakk> \<Longrightarrow> js_shr v 0 = v"
  by (simp add: js_shr_eq)

lemma or_16:
  assumes "0 \<le> x" "x < 256" "0 \<le> y" "y < 256"
  shows "js_or x (js_shl y 8) = x + 256 * y" "js_or (js_shl y 8) x = x + 256 * y"
proof -
  have "js_or x (js_shl y 8) = sint (int32 (x + y * 2 ^ 8))"
    using assms js_or_disjoint [of x 8 "y * 2 ^ 8"] by (simp add: js_shl_eq)
  also have "\<dots> = x + 256 * y" using assms by (subst sint_int32_small) auto
  finally show "js_or x (js_shl y 8) = x + 256 * y" .
  then show "js_or (js_shl y 8) x = x + 256 * y" by (simp add: js_or_comm)
qed

lemma or_24:
  assumes "0 \<le> x" "x < 256" "0 \<le> y" "y < 256" "0 \<le> z" "z < 256"
  shows "js_or (js_or x (js_shl y 8)) (js_shl z 16) = x + 256 * y + 65536 * z"
    and "js_or (js_or (js_shl z 16) (js_shl y 8)) x = x + 256 * y + 65536 * z"
proof -
  have "js_or (js_or x (js_shl y 8)) (js_shl z 16) = sint (int32 (x + 256 * y + z * 2 ^ 16))"
    using assms js_or_disjoint [of "x + 256 * y" 16 "z * 2 ^ 16"] by (simp add: or_16 js_shl_eq [of z])
  also have "\<dots> = x + 256 * y + 65536 * z" using assms by (subst sint_int32_small) auto
  finally show "js_or (js_or x (js_shl y 8)) (js_shl z 16) = x + 256 * y + 65536 * z" .
  have "js_or (js_shl z 16) (js_shl y 8) = sint (int32 (y * 2 ^ 8 + z * 2 ^ 16))"
    using assms js_or_disjoint [of "y * 2 ^ 8" 16 "z * 2 ^ 16"] by (simp add: js_shl_eq js_or_comm)
  then have "js_or (js_or (js_shl z 16) (js_shl y 8)) x = js_or x (y * 2 ^ 8 + z * 2 ^ 16)"
    by (simp add: js_or_comm)
  also have "\<dots> = sint (int32 (x + (y * 2 ^ 8 + z * 2 ^ 16)))"
    using assms by (intro js_or_disjoint [of x 8]) auto
  also have "\<dots> = x + 256 * y + 65536 * z" using assms by (subst sint_int32_small) auto
  finally show "js_or (js_or (js_shl z 16) (js_shl y 8)) x = x + 256 * y + 65536 * z" .
qed

lemma or_32:
  assumes "0 \<le> x" "x < 256" "0 \<le> y" "y < 256" "0 \<le> z" "z < 256" "0 \<le> w" "w < 256"
  shows "js_or (js_or (js_or x (js_shl y 8)) (js_shl z 16)) (js_shl w 24)
      = sint (int32 (x + 256 * y + 65536 * z + 16777216 * w))"
    and "js_or (js_or (js_or (js_shl w 24) (js_shl z 16)) (js_shl y 8)) x
      = sint (int32 (x + 256 * y + 65536 * z + 16777216 * w))"
proof -
  show "js_or (js_or (js_or x (js_shl y 8)) (js_shl z 16)) (js_shl w 24)
      = sint (int32 (x + 256 * y + 65536 * z + 16777216 * w))"
    using assms js_or_disjoint [of "x + 256 * y + 65536 * z" 24 "w * 2 ^ 24"]
    by (simp add: or_24 js_shl_eq [of w] mult.commute)
  have 1: "js_or (js_shl w 24) (js_shl z 16) = sint (int32 (z * 2 ^ 16 + w * 2 ^ 24))"
    using assms js_or_disjoint [of "z * 2 ^ 16" 24 "w * 2 ^ 24"] by (simp add: js_shl_eq js_or_comm)
  have d: "(2 :: int) ^ 16 dvd z * 2 ^ 16 + w * 2 ^ 24" "(2 :: int) ^ 8 dvd y * 2 ^ 8 + (z * 2 ^ 16 + w * 2 ^ 24)"
    by (auto intro!: dvd_add)
  have 2: "js_or (js_or (js_shl w 24) (js_shl z 16)) (js_shl y 8) = sint (int32 (y * 2 ^ 8 + (z * 2 ^ 16 + w * 2 ^ 24)))"
    unfolding 1 js_shl_eq [of y]
    using assms js_or_disjoint [OF _ _ d(1), of "y * 2 ^ 8"] by (simp add: js_or_comm)
  show "js_or (js_or (js_or (js_shl w 24) (js_shl z 16)) (js_shl y 8)) x
      = sint (int32 (x + 256 * y + 65536 * z + 16777216 * w))"
    unfolding 2
    using assms js_or_disjoint [OF _ _ d(2), of x] by (simp add: js_or_comm algebra_simps)
qed

lemma sign_extend16_eq:
  assumes "- 0x8000 \<le> v" and "v \<le> 0x7fff"
  shows "sign_extend16 (v mod 65536) = v"
proof -
  have bit: "js_and u 0x8000 = 0 \<longleftrightarrow> even (u div 2 ^ 15)" for u using js_and_bit [of 15 u] by simp
  show ?thesis
  proof (cases "v \<ge> 0")
    case True
    then show ?thesis using assms bit [of v] by (simp add: sign_extend16_def)
  next
    case False
    then have u: "v mod 65536 = v + 65536" using assms by (intro mod_pos_pos_trivial [of "v + 65536" 65536, simplified])  auto
    have "(v + 65536) div 2 ^ 15 = 1" using assms False by (simp add: div_pos_geq)
    then have "js_and (v + 65536) 0x8000 \<noteq> 0" using bit by simp
    moreover have "js_or (v + 65536) 0xFFFF0000 = sint (int32 (v + 65536 + 0xFFFF0000))"
      using assms False by (intro js_or_disjoint [of _ 16]) auto
    moreover have "int32 (v + 65536 + 0xFFFF0000) = int32 v" by (simp add: int32_eq_iff)
    ultimately show ?thesis using assms u by (simp add: sign_extend16_def sint_int32_small)
  qed
qed

text \<open>Storing two or four bytes.\<close>

lemma put_2:
  assumes "k + 2 \<le> length b"
  shows "put (int k + 1) y (put (int k) x b) = splice k [x mod 256, y mod 256] b"
proof (rule nth_equalityI)
  fix i assume "i < length (put (int k + 1) y (put (int k) x b))"
  then show "put (int k + 1) y (put (int k) x b) ! i = splice k [x mod 256, y mod 256] b ! i"
    using assms nth_put_sum [of k 1 y "put (int k) x b" i] nth_put [of k x b i]
    by (auto simp: nth_splice less_Suc_eq nth_Cons')
qed (use assms in simp)

lemma put_4:
  assumes "k + 4 \<le> length b"
  shows "put (int k + 3) w (put (int k + 2) z (put (int k + 1) y (put (int k) x b)))
      = splice k [x mod 256, y mod 256, z mod 256, w mod 256] b"
    and "put (int k) x (put (int k + 1) y (put (int k + 2) z (put (int k + 3) w b)))
      = splice k [x mod 256, y mod 256, z mod 256, w mod 256] b"
proof -
  have n: "put (int k + 3) v c ! i = (if i = k + 3 \<and> k + 3 < length c then v mod 256 else c ! i)"
    "put (int k + 2) v c ! i = (if i = k + 2 \<and> k + 2 < length c then v mod 256 else c ! i)"
    "put (int k + 1) v c ! i = (if i = k + 1 \<and> k + 1 < length c then v mod 256 else c ! i)" for v c i
    using nth_put_sum [of k 3] nth_put_sum [of k 2] nth_put_sum [of k 1] by simp_all
  have s: "splice k [x mod 256, y mod 256, z mod 256, w mod 256] b ! i =
      (if i = k then x mod 256 else if i = k + 1 then y mod 256 else if i = k + 2 then z mod 256
       else if i = k + 3 then w mod 256 else b ! i)" if "i < length b" for i
    using that assms by (auto simp: nth_splice nth_Cons' less_Suc_eq numeral_eq_Suc)
  show "put (int k + 3) w (put (int k + 2) z (put (int k + 1) y (put (int k) x b)))
      = splice k [x mod 256, y mod 256, z mod 256, w mod 256] b"
    "put (int k) x (put (int k + 1) y (put (int k + 2) z (put (int k + 3) w b)))
      = splice k [x mod 256, y mod 256, z mod 256, w mod 256] b"
    using assms by (auto intro!: nth_equalityI simp: n s nth_put)
qed

subsection \<open>The interface of the fixed-width accessors\<close>

text \<open>The largest buffer the constructor makes.\<close>

definition kMaxLength :: nat where
  "kMaxLength = 0x3fffffff"

text \<open>
  A pair of accessors for numbers between \<open>lo\<close> and \<open>hi\<close> that take \<open>width\<close> bytes, written as
  \<open>enc\<close> says; both refuse to leave the buffer, and the writer refuses other numbers.
\<close>

locale int_accessors =
  fixes rd :: "int \<Rightarrow> bool \<Rightarrow> buffer \<Rightarrow> jsvalue res"
    and wr :: "int \<Rightarrow> int \<Rightarrow> bool \<Rightarrow> buffer \<Rightarrow> (buffer \<times> int) res"
    and width :: nat and enc :: "int \<Rightarrow> int list" and lo hi :: int
  assumes enc_length: "length (enc v) = width"
    and write_ok: "\<lbrakk>lo \<le> v; v \<le> hi; k + width \<le> length b; length b \<le> kMaxLength\<rbrakk> \<Longrightarrow>
      wr v (int k) False b = Inr (splice k (enc v) b, int (k + width))"
    and read_ok: "\<lbrakk>lo \<le> v; v \<le> hi; k + width \<le> length b; chunk k width b = enc v\<rbrakk> \<Longrightarrow>
      rd (int k) False b = Inr (Some v)"
    and write_refuses: "\<lbrakk>v < lo \<or> v > hi \<or> k + width > length b; k \<le> kMaxLength\<rbrakk> \<Longrightarrow>
      \<exists>msg. wr v (int k) False b = Inl (RangeError msg)"
    and read_refuses: "k + width > length b \<Longrightarrow> \<exists>msg. rd (int k) False b = Inl (RangeError msg)"
begin

lemma read_write:
  assumes "lo \<le> v" and "v \<le> hi" and "k + width \<le> length b" and "length b \<le> kMaxLength"
  shows "\<exists>b'. wr v (int k) False b = Inr (b', int (k + width)) \<and> length b' = length b
    \<and> rd (int k) False b' = Inr (Some v)
    \<and> (\<forall>j n. j + n \<le> k \<or> k + width \<le> j \<longrightarrow> chunk j n b' = chunk j n b)"
  using assms
  by (intro exI [of _ "splice k (enc v) b"] conjI allI impI)
    (auto simp: write_ok enc_length chunk_splice_other intro!: read_ok)

text \<open>Writing an array of numbers, one after the other, and reading it again.\<close>

fun write_all :: "int list \<Rightarrow> int \<Rightarrow> buffer \<Rightarrow> buffer res" where
  "write_all [] off b = Inr b"
| "write_all (v # vs) off b = bindR (wr v off False b) (\<lambda>(b, off). write_all vs off b)"

fun read_all :: "nat \<Rightarrow> int \<Rightarrow> buffer \<Rightarrow> jsvalue list res" where
  "read_all 0 off b = Inr []"
| "read_all (Suc n) off b = bindR (rd off False b) (\<lambda>v. mapR ((#) v) (read_all n (off + int width) b))"

lemma read_all_splice:
  assumes "\<forall>v \<in> set vs. lo \<le> v \<and> v \<le> hi" and "chunk k (width * length vs) b = concat (map enc vs)"
    and "k + width * length vs \<le> length b"
  shows "read_all (length vs) (int k) b = Inr (map Some vs)"
  using assms
proof (induction vs arbitrary: k)
  case (Cons v vs)
  have c: "chunk k width b = enc v" "chunk (k + width) (width * length vs) b = concat (map enc vs)"
    using Cons.prems(2) enc_length
    by (simp_all add: chunk_def take_add append_eq_append_conv add.commute)
      (metis append_eq_append_conv length_take length_drop min.absorb2 add_leD1 le_diff_conv2 Cons.prems(3)
        add.commute le_add1 length_Cons mult_Suc_right order_trans)+
  then have "rd (int k) False b = Inr (Some v)" using Cons.prems by (intro read_ok) auto
  moreover have "read_all (length vs) (int (k + width)) b = Inr (map Some vs)"
    using Cons.prems c(2) by (intro Cons.IH) (simp_all add: add.assoc)
  ultimately show ?case by simp
qed simp

lemma write_all_splice:
  assumes "\<forall>v \<in> set vs. lo \<le> v \<and> v \<le> hi" and "k + width * length vs \<le> length b" and "length b \<le> kMaxLength"
  shows "write_all vs (int k) b = Inr (splice k (concat (map enc vs)) b)"
  using assms
proof (induction vs arbitrary: k b)
  case (Cons v vs)
  have l: "k + width \<le> length b" using Cons.prems(2) by simp
  then have "wr v (int k) False b = Inr (splice k (enc v) b, int (k + width))"
    using Cons.prems by (intro write_ok) auto
  moreover have "write_all vs (int (k + width)) (splice k (enc v) b) =
      Inr (splice (k + width) (concat (map enc vs)) (splice k (enc v) b))"
    using Cons.prems l by (intro Cons.IH) (simp_all add: enc_length add.assoc)
  moreover have "splice (k + width) (concat (map enc vs)) (splice k (enc v) b) =
      splice k (enc v @ concat (map enc vs)) b"
    using l enc_length by (simp add: splice_def min_def ac_simps)
  ultimately show ?case by simp
qed (simp add: splice_def)

lemma length_concat_enc: "length (concat (map enc vs)) = width * length vs"
  by (induction vs) (simp_all add: enc_length)

lemma array_roundtrip:
  assumes "\<forall>v \<in> set vs. lo \<le> v \<and> v \<le> hi" and "k + width * length vs \<le> length b" and "length b \<le> kMaxLength"
  shows "bindR (write_all vs (int k) b) (read_all (length vs) (int k)) = Inr (map Some vs)"
  using assms by (simp add: write_all_splice read_all_splice length_concat_enc)

end

subsection \<open>The ten accessors implement it\<close>

lemma kMax: "k \<le> kMaxLength \<Longrightarrow> js_shr (int k) 0 = int k"
  by (simp add: kMaxLength_def shr_0)

lemma chunk_nth: "\<lbrakk>k + n \<le> length b; i < n\<rbrakk> \<Longrightarrow> chunk k n b ! i = b ! (k + i)"
  by (simp add: chunk_def)

lemma byte_nth:
  assumes "chunk k n b = xs" and "k + n \<le> length b" and "i < n"
  shows "get b (int k + int i) = Some (xs ! i)"
  using assms get_sum [of k i b] chunk_nth [OF assms(2,3)] by simp

lemma le_bytes_nth: "i < n \<Longrightarrow> le_bytes n v ! i = v div 256 ^ i mod 256"
  by (simp add: le_bytes_def)

lemma bytes_2:
  assumes "chunk k 2 b = [x, y]" and "k + 2 \<le> length b"
  shows "get b (int k) = Some x" "get b (int k + 1) = Some y"
  using byte_nth [OF assms, of 0] byte_nth [OF assms, of 1] by simp_all

lemma bytes_4:
  assumes "chunk k 4 b = [x, y, z, w]" and "k + 4 \<le> length b"
  shows "get b (int k) = Some x" "get b (int k + 1) = Some y" "get b (int k + 2) = Some z"
    "get b (int k + 3) = Some w"
  using byte_nth [OF assms, of 0] byte_nth [OF assms, of 1] byte_nth [OF assms, of 2] byte_nth [OF assms, of 3]
  by simp_all

lemma le_bytes_numeral:
  "le_bytes (Suc 0) v = [v mod 256]"
  "le_bytes 2 v = [v mod 256, v div 256 mod 256]"
  "le_bytes 4 v = [v mod 256, v div 256 mod 256, v div 65536 mod 256, v div 16777216 mod 256]"
  by (simp_all add: le_bytes_def upt_rec [of _ "Suc _"] upt_rec numeral_2_eq_2 [symmetric] flip: power_mult)

lemma join_2: "v mod 256 + 256 * (v div 256 mod 256) = v mod (65536 :: int)"
  using le_val_bytes [of 2 v] by (simp add: le_bytes_numeral)

lemma le_val_4: "le_val [x, y, z, w] = x + 256 * y + 65536 * z + 16777216 * w"
  by simp

lemma join_4:
  "v mod 256 + 256 * (v div 256 mod 256) + 65536 * (v div 65536 mod 256) + 16777216 * (v div 16777216 mod 256)
     = v mod (4294967296 :: int)"
proof -
  have p: "(256 :: int) ^ 4 = 4294967296" by simp
  show ?thesis using le_val_bytes [of 4 v] unfolding le_bytes_numeral le_val_4 p .
qed

lemmas shr_bytes = shr_byte [of 8, simplified] shr_byte [of 16, simplified] shr_byte [of 24, simplified]

lemma byte_1:
  assumes "chunk k (Suc 0) b = [x]" and "Suc k \<le> length b"
  shows "get b (int k) = Some x"
  using byte_nth [of k "Suc 0" b "[x]" 0] assms by simp

lemma put_1: "Suc k \<le> length b \<Longrightarrow> put (int k) x b = splice k [x mod 256] b"
  by (auto intro!: nth_equalityI simp: nth_put nth_splice)

lemma bits_Some [simp]: "bits (Some x) = x"
  by (simp add: bits_def)

lemma mod_256 [simp]: "0 \<le> x mod (256 :: int)" "x mod 256 < (256 :: int)"
  by simp_all

text \<open>What the readers make of the bytes of a number.\<close>

lemma read_1:
  assumes "chunk k 1 b = le_bytes 1 v" and "k + 1 \<le> length b"
  shows "readUInt8 (int k) False b = Inr (Some (v mod 256))"
    and "readInt8 (int k) False b =
      Inr (Some (if even (v mod 256 div 128) then v mod 256 else v mod 256 - 256))"
proof -
  have g: "get b (int k) = Some (v mod 256)" using assms byte_1 by (simp add: le_bytes_numeral)
  have "js_and (v mod 256) 0x80 = 0 \<longleftrightarrow> even (v mod 256 div 128)"
    using js_and_bit [of 7 "v mod 256"] by simp
  with g show "readUInt8 (int k) False b = Inr (Some (v mod 256))"
    "readInt8 (int k) False b = Inr (Some (if even (v mod 256 div 128) then v mod 256 else v mod 256 - 256))"
    using assms(2) by (auto simp: readUInt8_def readInt8_def check_read_def checkOffset_def simp del: js_index_nat)
qed

lemma read_2:
  assumes "chunk k 2 b = le_bytes 2 v" and "k + 2 \<le> length b"
  shows "readUInt16LE (int k) False b = Inr (Some (v mod 65536))"
    and "readInt16LE (int k) False b = Inr (Some (sign_extend16 (v mod 65536)))"
  using bytes_2 [OF assms(1) [unfolded le_bytes_numeral] assms(2)] assms(2)
    or_16 [of "v mod 256" "v div 256 mod 256"]
  by (simp_all add: readUInt16LE_def readInt16LE_def check_read_def checkOffset_def join_2 del: js_index_nat)

lemma read_2_be:
  assumes "chunk k 2 b = rev (le_bytes 2 v)" and "k + 2 \<le> length b"
  shows "readUInt16BE (int k) False b = Inr (Some (v mod 65536))"
    and "readInt16BE (int k) False b = Inr (Some (sign_extend16 (v mod 65536)))"
proof -
  have "chunk k 2 b = [v div 256 mod 256, v mod 256]" using assms(1) by (simp add: le_bytes_numeral)
  from bytes_2 [OF this assms(2)] assms(2) or_16 [of "v mod 256" "v div 256 mod 256"]
  show "readUInt16BE (int k) False b = Inr (Some (v mod 65536))"
    "readInt16BE (int k) False b = Inr (Some (sign_extend16 (v mod 65536)))"
    by (simp_all add: readUInt16BE_def readInt16BE_def check_read_def checkOffset_def join_2 del: js_index_nat)
qed

lemma read_4_bytes:
  assumes "chunk k 4 b = [x, y, z, w]" and "k + 4 \<le> length b"
    and "0 \<le> x" "x < 256" "0 \<le> y" "y < 256" "0 \<le> z" "z < 256" "0 \<le> w" "w < 256"
  shows "readUInt32LE (int k) False b = Inr (Some (x + 256 * y + 65536 * z + 16777216 * w))"
    and "readInt32LE (int k) False b = Inr (Some (sint (int32 (x + 256 * y + 65536 * z + 16777216 * w))))"
    and "readUInt32BE (int k) False b = Inr (Some (w + 256 * z + 65536 * y + 16777216 * x))"
    and "readInt32BE (int k) False b = Inr (Some (sint (int32 (w + 256 * z + 65536 * y + 16777216 * x))))"
  using bytes_4 [OF assms(1,2)] assms(2-) or_24 [of x y z] or_32 [of x y z w] or_24 [of w z y] or_32 [of w z y x]
  by (simp_all add: readUInt32LE_def readInt32LE_def readUInt32BE_def readInt32BE_def check_read_def
      checkOffset_def nadd_def nmul_def del: js_index_nat)

lemma read_4:
  assumes "chunk k 4 b = le_bytes 4 v" and "k + 4 \<le> length b"
  shows "readUInt32LE (int k) False b = Inr (Some (v mod 4294967296))"
    and "readInt32LE (int k) False b = Inr (Some (sint (int32 (v mod 4294967296))))"
  using read_4_bytes(1,2) [OF assms(1) [unfolded le_bytes_numeral] assms(2)] unfolding join_4 by simp_all

lemma read_4_be:
  assumes "chunk k 4 b = rev (le_bytes 4 v)" and "k + 4 \<le> length b"
  shows "readUInt32BE (int k) False b = Inr (Some (v mod 4294967296))"
    and "readInt32BE (int k) False b = Inr (Some (sint (int32 (v mod 4294967296))))"
proof -
  have "chunk k 4 b = [v div 16777216 mod 256, v div 65536 mod 256, v div 256 mod 256, v mod 256]"
    using assms(1) by (simp add: le_bytes_numeral)
  from read_4_bytes(3,4) [OF this assms(2)]
  show "readUInt32BE (int k) False b = Inr (Some (v mod 4294967296))"
    "readInt32BE (int k) False b = Inr (Some (sint (int32 (v mod 4294967296))))"
    unfolding join_4 by simp_all
qed

text \<open>What the writers store.\<close>

lemma store_2:
  assumes "k + 2 \<le> length b"
  shows "put (int k + 1) (js_shr v 8) (put (int k) v b) = splice k (le_bytes 2 v) b"
    and "put (int k + 1) v (put (int k) (js_shr v 8) b) = splice k (rev (le_bytes 2 v)) b"
  using put_2 [OF assms] by (simp_all add: le_bytes_numeral shr_bytes)

lemma store_4:
  assumes "k + 4 \<le> length b"
  shows "put (int k) v (put (int k + 1) (js_shr v 8) (put (int k + 2) (js_shr v 16) (put (int k + 3) (js_shr v 24) b)))
      = splice k (le_bytes 4 v) b"
    and "put (int k + 3) (js_shr v 24) (put (int k + 2) (js_shr v 16) (put (int k + 1) (js_shr v 8) (put (int k) v b)))
      = splice k (le_bytes 4 v) b"
    and "put (int k + 3) v (put (int k + 2) (js_shr v 8) (put (int k + 1) (js_shr v 16) (put (int k) (js_shr v 24) b)))
      = splice k (rev (le_bytes 4 v)) b"
  using put_4 [OF assms] by (simp_all add: le_bytes_numeral shr_bytes)

lemma store_4_negative:
  fixes v :: int
  shows "js_shr (if v < 0 then 0xffffffff + v + 1 else v) n = js_shr v n"
    "put i (if v < 0 then 0xffffffff + v + 1 else v) b = put i v b"
proof -
  have m: "(v + 4294967296) mod 2 ^ 32 = v mod 2 ^ 32" by simp
  then show "js_shr (if v < 0 then 0xffffffff + v + 1 else v) n = js_shr v n"
    by (simp add: js_shr_eq add.commute)
  have "(v + 256 * 16777216) mod 256 = v mod 256" by (rule mod_mult_self2)
  then show "put i (if v < 0 then 0xffffffff + v + 1 else v) b = put i v b"
    by (simp add: put_def add.commute)
qed

lemma sint_mod_32: "\<lbrakk>- 0x80000000 \<le> v; v \<le> 0x7fffffff\<rbrakk> \<Longrightarrow> sint (int32 (v mod 4294967296)) = v"
proof -
  have "int32 (v mod 4294967296) = int32 v" by (simp add: int32_eq_iff)
  then show "\<lbrakk>- 0x80000000 \<le> v; v \<le> 0x7fffffff\<rbrakk> \<Longrightarrow> ?thesis" by (simp add: sint_int32_small)
qed

lemma mod_256_neg:
  assumes "- 256 \<le> v" and "v < (0 :: int)"
  shows "v mod 256 = v + 256"
proof -
  have "(v + 256) mod 256 = v + 256" using assms by (intro mod_pos_pos_trivial) auto
  then show ?thesis by simp
qed

lemmas accessor_checks = Let_def check_read_def checkOffset_def check_write_def checkInt_def kMax

interpretation uint8: int_accessors readUInt8 writeUInt8 1 "le_bytes 1" 0 "0xff"
proof unfold_locales
  fix v :: int and k and b :: buffer
  assume v: "0 \<le> v" "v \<le> 0xff" and k: "k + 1 \<le> length b"
  show "length b \<le> kMaxLength \<Longrightarrow> writeUInt8 v (int k) False b = Inr (splice k (le_bytes 1 v) b, int (k + 1))"
    using v k by (simp add: writeUInt8_def accessor_checks put_1 le_bytes_numeral)
  show "chunk k 1 b = le_bytes 1 v \<Longrightarrow> readUInt8 (int k) False b = Inr (Some v)"
    using v k read_1(1) by simp
qed (auto simp: readUInt8_def writeUInt8_def accessor_checks)

interpretation int8: int_accessors readInt8 writeInt8 1 "le_bytes 1" "- 0x80" "0x7f"
proof unfold_locales
  fix v :: int and k and b :: buffer
  assume v: "- 0x80 \<le> v" "v \<le> 0x7f" and k: "k + 1 \<le> length b"
  have "v < 0 \<Longrightarrow> v mod 256 = v + 256" using v by (simp add: mod_256_neg)
  then show "length b \<le> kMaxLength \<Longrightarrow> writeInt8 v (int k) False b = Inr (splice k (le_bytes 1 v) b, int (k + 1))"
    using v k by (simp add: writeInt8_def accessor_checks put_1 le_bytes_numeral add.commute)
  have "(if even (v mod 256 div 128) then v mod 256 else v mod 256 - 256) = v"
  proof (cases "v < 0")
    case True
    then have "v mod 256 = v + 256" "(v + 256) div 128 = 1" using v by (simp_all add: mod_256_neg div_pos_geq)
    then show ?thesis by simp
  next
    case False
    then have "v mod 256 = v" "v div 128 = 0" using v by simp_all
    then show ?thesis by simp
  qed
  then show "chunk k 1 b = le_bytes 1 v \<Longrightarrow> readInt8 (int k) False b = Inr (Some v)"
    using k read_1(2) by simp
qed (auto simp: readInt8_def writeInt8_def accessor_checks)

interpretation uint16le: int_accessors readUInt16LE writeUInt16LE 2 "le_bytes 2" 0 "0xffff"
proof unfold_locales
  fix v :: int and k and b :: buffer
  assume v: "0 \<le> v" "v \<le> 0xffff" and k: "k + 2 \<le> length b"
  show "length b \<le> kMaxLength \<Longrightarrow> writeUInt16LE v (int k) False b = Inr (splice k (le_bytes 2 v) b, int (k + 2))"
    using v k by (simp add: writeUInt16LE_def accessor_checks store_2)
  show "chunk k 2 b = le_bytes 2 v \<Longrightarrow> readUInt16LE (int k) False b = Inr (Some v)"
    using v k read_2(1) by simp
qed (auto simp: readUInt16LE_def writeUInt16LE_def accessor_checks)

interpretation uint16be: int_accessors readUInt16BE writeUInt16BE 2 "\<lambda>v. rev (le_bytes 2 v)" 0 "0xffff"
proof unfold_locales
  fix v :: int and k and b :: buffer
  assume v: "0 \<le> v" "v \<le> 0xffff" and k: "k + 2 \<le> length b"
  show "length b \<le> kMaxLength \<Longrightarrow> writeUInt16BE v (int k) False b = Inr (splice k (rev (le_bytes 2 v)) b, int (k + 2))"
    using v k by (simp add: writeUInt16BE_def accessor_checks store_2)
  show "chunk k 2 b = rev (le_bytes 2 v) \<Longrightarrow> readUInt16BE (int k) False b = Inr (Some v)"
    using v k read_2_be(1) by simp
qed (auto simp: readUInt16BE_def writeUInt16BE_def accessor_checks)

interpretation int16le: int_accessors readInt16LE writeInt16LE 2 "le_bytes 2" "- 0x8000" "0x7fff"
proof unfold_locales
  fix v :: int and k and b :: buffer
  assume v: "- 0x8000 \<le> v" "v \<le> 0x7fff" and k: "k + 2 \<le> length b"
  show "length b \<le> kMaxLength \<Longrightarrow> writeInt16LE v (int k) False b = Inr (splice k (le_bytes 2 v) b, int (k + 2))"
    using v k by (simp add: writeInt16LE_def accessor_checks store_2)
  show "chunk k 2 b = le_bytes 2 v \<Longrightarrow> readInt16LE (int k) False b = Inr (Some v)"
    using v k read_2(2) sign_extend16_eq by simp
qed (auto simp: readInt16LE_def writeInt16LE_def accessor_checks)

interpretation int16be: int_accessors readInt16BE writeInt16BE 2 "\<lambda>v. rev (le_bytes 2 v)" "- 0x8000" "0x7fff"
proof unfold_locales
  fix v :: int and k and b :: buffer
  assume v: "- 0x8000 \<le> v" "v \<le> 0x7fff" and k: "k + 2 \<le> length b"
  show "length b \<le> kMaxLength \<Longrightarrow> writeInt16BE v (int k) False b = Inr (splice k (rev (le_bytes 2 v)) b, int (k + 2))"
    using v k by (simp add: writeInt16BE_def accessor_checks store_2)
  show "chunk k 2 b = rev (le_bytes 2 v) \<Longrightarrow> readInt16BE (int k) False b = Inr (Some v)"
    using v k read_2_be(2) sign_extend16_eq by simp
qed (auto simp: readInt16BE_def writeInt16BE_def accessor_checks)

interpretation uint32le: int_accessors readUInt32LE writeUInt32LE 4 "le_bytes 4" 0 "0xffffffff"
proof unfold_locales
  fix v :: int and k and b :: buffer
  assume v: "0 \<le> v" "v \<le> 0xffffffff" and k: "k + 4 \<le> length b"
  show "length b \<le> kMaxLength \<Longrightarrow> writeUInt32LE v (int k) False b = Inr (splice k (le_bytes 4 v) b, int (k + 4))"
    using v k by (simp add: writeUInt32LE_def accessor_checks store_4)
  show "chunk k 4 b = le_bytes 4 v \<Longrightarrow> readUInt32LE (int k) False b = Inr (Some v)"
    using v k read_4(1) by simp
qed (auto simp: readUInt32LE_def writeUInt32LE_def accessor_checks)

interpretation uint32be: int_accessors readUInt32BE writeUInt32BE 4 "\<lambda>v. rev (le_bytes 4 v)" 0 "0xffffffff"
proof unfold_locales
  fix v :: int and k and b :: buffer
  assume v: "0 \<le> v" "v \<le> 0xffffffff" and k: "k + 4 \<le> length b"
  show "length b \<le> kMaxLength \<Longrightarrow> writeUInt32BE v (int k) False b = Inr (splice k (rev (le_bytes 4 v)) b, int (k + 4))"
    using v k by (simp add: writeUInt32BE_def accessor_checks store_4)
  show "chunk k 4 b = rev (le_bytes 4 v) \<Longrightarrow> readUInt32BE (int k) False b = Inr (Some v)"
    using v k read_4_be(1) by simp
qed (auto simp: readUInt32BE_def writeUInt32BE_def accessor_checks)

interpretation int32le: int_accessors readInt32LE writeInt32LE 4 "le_bytes 4" "- 0x80000000" "0x7fffffff"
proof unfold_locales
  fix v :: int and k and b :: buffer
  assume v: "- 0x80000000 \<le> v" "v \<le> 0x7fffffff" and k: "k + 4 \<le> length b"
  show "length b \<le> kMaxLength \<Longrightarrow> writeInt32LE v (int k) False b = Inr (splice k (le_bytes 4 v) b, int (k + 4))"
    using v k by (simp add: writeInt32LE_def accessor_checks store_4)
  show "chunk k 4 b = le_bytes 4 v \<Longrightarrow> readInt32LE (int k) False b = Inr (Some v)"
    using v k read_4(2) sint_mod_32 by simp
qed (auto simp: readInt32LE_def writeInt32LE_def accessor_checks)

interpretation int32be: int_accessors readInt32BE writeInt32BE 4 "\<lambda>v. rev (le_bytes 4 v)" "- 0x80000000" "0x7fffffff"
proof unfold_locales
  fix v :: int and k and b :: buffer
  assume v: "- 0x80000000 \<le> v" "v \<le> 0x7fffffff" and k: "k + 4 \<le> length b"
  show "length b \<le> kMaxLength \<Longrightarrow> writeInt32BE v (int k) False b = Inr (splice k (rev (le_bytes 4 v)) b, int (k + 4))"
    using v k unfolding writeInt32BE_def Let_def store_4_negative by (simp add: accessor_checks store_4)
  show "chunk k 4 b = rev (le_bytes 4 v) \<Longrightarrow> readInt32BE (int k) False b = Inr (Some v)"
    using v k read_4_be(2) sint_mod_32 by simp
qed (auto simp: readInt32BE_def writeInt32BE_def accessor_checks)

subsection \<open>The variable-width accessors\<close>

lemma and_255: "js_and a 255 = a mod 256"
  using js_and_mask [of 8 a] by simp

lemma mod_256_32: "a mod 2 ^ 32 = b mod 2 ^ 32 \<Longrightarrow> a mod 256 = b mod (256 :: int)"
proof -
  assume "a mod 2 ^ 32 = b mod 2 ^ 32"
  then have "a mod 2 ^ 32 mod 2 ^ 8 = b mod 2 ^ 32 mod 2 ^ 8" by (rule arg_cong)
  moreover have "(2 :: int) ^ 8 dvd 2 ^ 32" by (rule le_imp_power_dvd) simp
  ultimately show ?thesis by (simp only: mod_mod_cancel) simp
qed

lemma unsigned_digit_eq: "unsigned_digit v m = trunc_div v m mod 256"
  using mod_256_32 [of "trunc_div v m mod 2 ^ 32" "trunc_div v m"]
  by (simp add: unsigned_digit_def and_255 js_shr_eq)

lemma signed_digit_eq: "signed_digit v m = (trunc_div v m - (if v < 0 then 1 else 0)) mod 256"
proof -
  have s: "js_sar t 0 mod 256 = t mod 256" for t
  proof (rule mod_256_32)
    have "int32 (js_sar t 0) = int32 t" by (simp add: js_sar_def)
    then show "js_sar t 0 mod 2 ^ 32 = t mod 2 ^ 32" by (simp only: int32_eq_iff)
  qed
  have "(js_sar t 0 - d) mod 256 = (t - d) mod 256" for t d
    using s [of t] by (metis mod_diff_left_eq)
  then show ?thesis by (simp add: signed_digit_def and_255)
qed

definition le_digits :: "(int \<Rightarrow> int) \<Rightarrow> int \<Rightarrow> nat \<Rightarrow> int list" where
  "le_digits digit v n = map (\<lambda>i. (if i = 0 then v else digit (256 ^ i)) mod 256) [0..<n]"

lemma write_le_splice:
  assumes "n > 0" and "k + n \<le> length b"
  shows "write_le_loop d (int k) n 0 1 (put (int k) (v mod 256) b) = splice k (le_digits d v n) b"
proof (rule nth_equalityI)
  fix i assume "i < length (write_le_loop d (int k) n 0 1 (put (int k) (v mod 256) b))"
  then show "write_le_loop d (int k) n 0 1 (put (int k) (v mod 256) b) ! i = splice k (le_digits d v n) b ! i"
    using assms by (auto simp: nth_write_le nth_put nth_splice le_digits_def not_less)
qed (use assms in \<open>simp add: le_digits_def\<close>)

lemma write_be_splice:
  assumes "n > 0" and "k + n \<le> length b"
  shows "write_be_loop d (int k) (n - 1) 1 (put (int k + (int n - 1)) (v mod 256) b)
    = splice k (rev (le_digits d v n)) b"
proof (rule nth_equalityI)
  have "int k + (int n - 1) = int k + int (n - 1)" using assms by (simp add: of_nat_diff)
  moreover have "k + (n - 1) < length b" using assms by linarith
  ultimately have p: "put (int k + (int n - 1)) x b ! i = (if i = k + (n - 1) then x mod 256 else b ! i)" for x i
    using nth_put_sum [of k "n - 1" x b i] by (simp only: simp_thms)
  fix i assume i: "i < length (write_be_loop d (int k) (n - 1) 1 (put (int k + (int n - 1)) (v mod 256) b))"
  have "rev (le_digits d v n) ! (i - k) = (if i = k + (n - 1) then v mod 256 else d (256 ^ (k + (n - 1) - i)) mod 256)"
    if "k \<le> i" "i < k + n"
    using that assms by (auto simp: rev_nth le_digits_def Suc_diff_Suc add.commute)
  then show "write_be_loop d (int k) (n - 1) 1 (put (int k + (int n - 1)) (v mod 256) b) ! i
      = splice k (rev (le_digits d v n)) b ! i"
    using assms i by (auto simp: nth_write_be p nth_splice le_digits_def [of _ _ n, THEN arg_cong [of _ _ length]])
qed (use assms in \<open>simp add: le_digits_def\<close>)

lemma readUInt_chunk:
  assumes "0 < n" and "n \<le> 6" and "k + n \<le> length b" and "length b \<le> kMaxLength"
  shows "readUIntLE (int k) (int n) False b = Inr (Some (le_val (chunk k n b)))"
    and "readUIntBE (int k) (int n) False b = Inr (Some (le_val (rev (chunk k n b))))"
proof -
  obtain m where m: "n = Suc m" using assms(1) by (cases n) auto
  have "js_shr (int n) 0 = int n" "js_shr (int k) 0 = int k"
    using assms kMax [of n] kMax [of k] by (auto simp: kMaxLength_def)
  note n = this this(1) [unfolded m of_nat_Suc]
  have n': "nat (1 + int m) = Suc m" by linarith
  show "readUIntLE (int k) (int n) False b = Inr (Some (le_val (chunk k n b)))"
    using assms m read_le_loop_eq [of 0 n k b 1 "b ! k"] chunk_Suc [of k m b]
    by (simp add: readUIntLE_def accessor_checks n n')
  show "readUIntBE (int k) (int n) False b = Inr (Some (le_val (rev (chunk k n b))))"
    using assms m read_be_loop_eq [of k m b 1 "b ! (k + m)"] chunk_snoc [of k m b] get_sum [of k m b]
    by (simp add: readUIntBE_def accessor_checks n n')
qed

lemma readInt_chunk:
  assumes "0 < n" and "n \<le> 6" and "k + n \<le> length b" and "length b \<le> kMaxLength"
  shows "readIntLE (int k) (int n) False b =
      Inr (Some (let u = le_val (chunk k n b) in if u \<ge> 128 * 256 ^ (n - 1) then u - 256 ^ n else u))"
    and "readIntBE (int k) (int n) False b =
      Inr (Some (let u = le_val (rev (chunk k n b)) in if u \<ge> 128 * 256 ^ (n - 1) then u - 256 ^ n else u))"
proof -
  obtain m where m: "n = Suc m" using assms(1) by (cases n) auto
  have "js_shr (int n) 0 = int n" "js_shr (int k) 0 = int k" "nat (8 * int n) = 8 * n"
    using assms kMax [of n] kMax [of k] by (auto simp: kMaxLength_def)
  note n = this this(1,3) [unfolded m of_nat_Suc]
  have n8: "nat (8 + 8 * int m) = 8 + 8 * m" by linarith
  have n': "nat (1 + int m) = Suc m" "(2 :: int) ^ nat (8 + 8 * int m) = 256 * 256 ^ m"
    unfolding n8 power_add power_mult by simp_all
  have p: "(2 :: int) ^ (8 * n) = 256 ^ n" by (simp add: power_mult)
  note p = p p [unfolded m]
  show "readIntLE (int k) (int n) False b =
      Inr (Some (let u = le_val (chunk k n b) in if u \<ge> 128 * 256 ^ (n - 1) then u - 256 ^ n else u))"
    using assms m read_le_loop_eq [of 0 n k b 1 "b ! k"] chunk_Suc [of k m b]
    by (simp add: readIntLE_def accessor_checks n n' p fold_sign_def mult.commute [of _ "128 :: int"])
  show "readIntBE (int k) (int n) False b =
      Inr (Some (let u = le_val (rev (chunk k n b)) in if u \<ge> 128 * 256 ^ (n - 1) then u - 256 ^ n else u))"
    using assms m read_be_loop_eq [of k m b 1 "b ! (k + m)"] chunk_snoc [of k m b] get_sum [of k m b]
    by (simp add: readIntBE_def accessor_checks n n' p fold_sign_def mult.commute [of _ "128 :: int"])
qed

lemma le_digits_unsigned:
  assumes "0 \<le> v"
  shows "le_digits (unsigned_digit v) v n = le_bytes n v"
  using assms by (auto simp: le_digits_def le_bytes_def unsigned_digit_eq trunc_div_def)

lemma writeUInt_splice:
  assumes "0 < n" and "n \<le> 6" and "k + n \<le> length b" and "length b \<le> kMaxLength"
    and "0 \<le> v" and "v \<le> 256 ^ n"
  shows "writeUIntLE v (int k) (int n) False b = Inr (splice k (le_bytes n v) b, int (k + n))"
    and "writeUIntBE v (int k) (int n) False b = Inr (splice k (rev (le_bytes n v)) b, int (k + n))"
proof -
  have n: "js_shr (int n) 0 = int n" "js_shr (int k) 0 = int k" "nat (8 * int n) = 8 * n" "nat (int n - 1) = n - 1"
    using assms kMax [of n] kMax [of k] by (auto simp: kMaxLength_def)
  have p: "(2 :: int) ^ (8 * n) = 256 ^ n" by (simp add: power_mult)
  show "writeUIntLE v (int k) (int n) False b = Inr (splice k (le_bytes n v) b, int (k + n))"
    using assms write_le_splice [OF assms(1,3), of "unsigned_digit v" v] le_digits_unsigned [OF assms(5)]
    by (simp add: writeUIntLE_def accessor_checks n p and_255 not_less)
  show "writeUIntBE v (int k) (int n) False b = Inr (splice k (rev (le_bytes n v)) b, int (k + n))"
    using assms write_be_splice [OF assms(1,3), of "unsigned_digit v" v] le_digits_unsigned [OF assms(5)]
    by (simp add: writeUIntBE_def accessor_checks n p and_255 not_less)
qed

lemma writeInt_splice:
  assumes "0 < n" and "n \<le> 6" and "k + n \<le> length b" and "length b \<le> kMaxLength"
    and "- (128 * 256 ^ (n - 1)) \<le> v" and "v < 128 * 256 ^ (n - 1)"
  shows "writeIntLE v (int k) n False b = Inr (splice k (le_digits (signed_digit v) v n) b, int (k + n))"
    and "writeIntBE v (int k) n False b = Inr (splice k (rev (le_digits (signed_digit v) v n)) b, int (k + n))"
proof -
  have n: "js_shr (int k) 0 = int k" using assms kMax [of k] by simp
  have "8 * n - 1 = 7 + 8 * (n - 1)" using assms(1) by simp
  then have p: "(2 :: int) ^ (8 * n - 1) = 128 * 256 ^ (n - 1)" by (simp add: power_add power_mult)
  note p = p p [unfolded One_nat_def]
  show "writeIntLE v (int k) n False b = Inr (splice k (le_digits (signed_digit v) v n) b, int (k + n))"
    using assms write_le_splice [OF assms(1,3), of "signed_digit v" v]
    by (simp add: writeIntLE_def accessor_checks n p and_255 not_less)
  show "writeIntBE v (int k) n False b = Inr (splice k (rev (le_digits (signed_digit v) v n)) b, int (k + n))"
    using assms write_be_splice [OF assms(1,3), of "signed_digit v" v]
    by (simp add: writeIntBE_def accessor_checks n p and_255 not_less)
qed

text \<open>
  The byte of a negative number at a multiplier: one less than the truncated quotient is the
  floor of the quotient, unless the division is exact.
\<close>

lemma signed_digit_floor:
  assumes "m > 0"
  shows "signed_digit v m = (v div m - (if v < 0 \<and> m dvd v then 1 else 0)) mod 256"
proof (cases "v < 0")
  case True
  have "- ((- v) div m) - 1 = v div m - (if m dvd v then 1 else 0)"
    using assms by (simp add: zdiv_zminus1_eq_if mod_eq_0_iff_dvd dvd_neg_div)
  then show ?thesis using True by (simp add: signed_digit_eq trunc_div_def)
next
  case False
  then show ?thesis by (simp add: signed_digit_eq trunc_div_def)
qed

lemma le_digits_signed:
  assumes "0 < n" and "n = 1 \<or> 0 \<le> v \<or> \<not> 256 dvd v"
  shows "le_digits (signed_digit v) v n = le_bytes n v"
proof -
  have "signed_digit v (256 ^ i) = v div 256 ^ i mod 256" if "0 < i" "i < n" for i
  proof -
    have "256 dvd (256 :: int) ^ i" using that by (cases i) auto
    then have "\<not> (v < 0 \<and> 256 ^ i dvd v)" using assms(2) that dvd_trans [of 256 "256 ^ i" v] by auto
    then show ?thesis using signed_digit_floor [of "256 ^ i" v] by (simp only: if_False) simp
  qed
  then show ?thesis by (auto simp: le_digits_def le_bytes_def)
qed

lemma le_digits_signed_wrong:
  assumes "1 < n" and "v < 0" and "256 dvd v"
  shows "le_digits (signed_digit v) v n \<noteq> le_bytes n v"
proof
  assume "le_digits (signed_digit v) v n = le_bytes n v"
  then have "le_digits (signed_digit v) v n ! 1 = le_bytes n v ! 1" by simp
  then have "(v div 256 - 1) mod 256 = v div 256 mod 256"
    using assms by (simp add: le_digits_def le_bytes_def signed_digit_floor)
  then have "256 dvd (v div 256 - 1) - v div 256" by (simp only: mod_eq_dvd_iff)
  then show False by simp
qed

lemma signed_value:
  fixes v :: int
  assumes "0 < n" and "- (128 * 256 ^ (n - 1)) \<le> v" and "v < 128 * 256 ^ (n - 1)"
  shows "(let u = v mod 256 ^ n in if u \<ge> 128 * 256 ^ (n - 1) then u - 256 ^ n else u) = v"
proof -
  have p: "(256 :: int) ^ n = 256 * 256 ^ (n - 1)" using assms(1) by (cases n) auto
  show ?thesis
  proof (cases "v < 0")
    case True
    then have "(v + 256 ^ n) mod 256 ^ n = v + 256 ^ n" using assms p by (intro mod_pos_pos_trivial) auto
    then have "v mod 256 ^ n = v + 256 ^ n" by simp
    then show ?thesis using assms p True by (simp add: Let_def)
  next
    case False
    then have "v mod 256 ^ n = v" using assms p by (intro mod_pos_pos_trivial) auto
    then show ?thesis using assms by (simp add: Let_def)
  qed
qed

lemma le_digits_bytes: "\<forall>x \<in> set (le_digits d v n). 0 \<le> x \<and> x < 256"
  by (auto simp: le_digits_def)

lemma length_le_digits [simp]: "length (le_digits d v n) = n"
  by (simp add: le_digits_def)

subsection \<open>Properties\<close>

text \<open>The ten pairs of fixed-width accessors, by name.\<close>

datatype int_type =
    UInt8 | UInt16LE | UInt16BE | UInt32LE | UInt32BE | Int8 | Int16LE | Int16BE | Int32LE | Int32BE

fun read_of :: "int_type \<Rightarrow> int \<Rightarrow> bool \<Rightarrow> buffer \<Rightarrow> jsvalue res" where
  "read_of UInt8 = readUInt8" | "read_of UInt16LE = readUInt16LE" | "read_of UInt16BE = readUInt16BE"
| "read_of UInt32LE = readUInt32LE" | "read_of UInt32BE = readUInt32BE" | "read_of Int8 = readInt8"
| "read_of Int16LE = readInt16LE" | "read_of Int16BE = readInt16BE" | "read_of Int32LE = readInt32LE"
| "read_of Int32BE = readInt32BE"

fun write_of :: "int_type \<Rightarrow> int \<Rightarrow> int \<Rightarrow> bool \<Rightarrow> buffer \<Rightarrow> (buffer \<times> int) res" where
  "write_of UInt8 = writeUInt8" | "write_of UInt16LE = writeUInt16LE" | "write_of UInt16BE = writeUInt16BE"
| "write_of UInt32LE = writeUInt32LE" | "write_of UInt32BE = writeUInt32BE" | "write_of Int8 = writeInt8"
| "write_of Int16LE = writeInt16LE" | "write_of Int16BE = writeInt16BE" | "write_of Int32LE = writeInt32LE"
| "write_of Int32BE = writeInt32BE"

fun width_of :: "int_type \<Rightarrow> nat" where
  "width_of UInt8 = 1" | "width_of Int8 = 1" | "width_of UInt16LE = 2" | "width_of UInt16BE = 2"
| "width_of Int16LE = 2" | "width_of Int16BE = 2" | "width_of UInt32LE = 4" | "width_of UInt32BE = 4"
| "width_of Int32LE = 4" | "width_of Int32BE = 4"

fun min_of :: "int_type \<Rightarrow> int" where
  "min_of Int8 = - 0x80" | "min_of Int16LE = - 0x8000" | "min_of Int16BE = - 0x8000"
| "min_of Int32LE = - 0x80000000" | "min_of Int32BE = - 0x80000000" | "min_of _ = 0"

fun max_of :: "int_type \<Rightarrow> int" where
  "max_of UInt8 = 0xff" | "max_of Int8 = 0x7f" | "max_of UInt16LE = 0xffff" | "max_of UInt16BE = 0xffff"
| "max_of Int16LE = 0x7fff" | "max_of Int16BE = 0x7fff" | "max_of UInt32LE = 0xffffffff"
| "max_of UInt32BE = 0xffffffff" | "max_of Int32LE = 0x7fffffff" | "max_of Int32BE = 0x7fffffff"

text \<open>
  C26: every fixed-width accessor pair keeps its contract: a number in the type's range written inside
  the buffer is read back as the same number, the writer returns the offset after it, and no
  byte outside the written ones changes.
\<close>

theorem fixed_width_roundtrip:
  assumes "min_of ty \<le> v" and "v \<le> max_of ty" and "k + width_of ty \<le> length b"
    and "length b \<le> kMaxLength"
  shows "\<exists>b'. write_of ty v (int k) False b = Inr (b', int (k + width_of ty)) \<and> length b' = length b
    \<and> read_of ty (int k) False b' = Inr (Some v)
    \<and> (\<forall>j n. j + n \<le> k \<or> k + width_of ty \<le> j \<longrightarrow> chunk j n b' = chunk j n b)"
proof (cases ty)
  case UInt8
  show ?thesis using assms uint8.read_write unfolding UInt8 by simp
next
  case UInt16LE
  show ?thesis using assms uint16le.read_write unfolding UInt16LE by simp
next
  case UInt16BE
  show ?thesis using assms uint16be.read_write unfolding UInt16BE by simp
next
  case UInt32LE
  show ?thesis using assms uint32le.read_write unfolding UInt32LE by simp
next
  case UInt32BE
  show ?thesis using assms uint32be.read_write unfolding UInt32BE by simp
next
  case Int8
  show ?thesis using assms int8.read_write unfolding Int8 by simp
next
  case Int16LE
  show ?thesis using assms int16le.read_write unfolding Int16LE by simp
next
  case Int16BE
  show ?thesis using assms int16be.read_write unfolding Int16BE by simp
next
  case Int32LE
  show ?thesis using assms int32le.read_write unfolding Int32LE by simp
next
  case Int32BE
  show ?thesis using assms int32be.read_write unfolding Int32BE by simp
qed

theorem fixed_width_roundtrip_witness:
  "\<exists>b'. write_of Int32BE (- 5) (int 1) False [7, 0, 0, 0, 0, 9] = Inr (b', int 5)
    \<and> read_of Int32BE (int 1) False b' = Inr (Some (- 5)) \<and> chunk 5 1 b' = [9]"
proof -
  have c: "chunk 5 1 [7, 0, 0, 0, 0, 9] = [9]" by (simp add: chunk_def)
  obtain b' where "write_of Int32BE (- 5) (int 1) False [7, 0, 0, 0, 0, 9] = Inr (b', int 5)"
    "read_of Int32BE (int 1) False b' = Inr (Some (- 5))"
    "\<forall>j n. j + n \<le> 1 \<or> 5 \<le> j \<longrightarrow> chunk j n b' = chunk j n [7, 0, 0, 0, 0, 9]"
    using fixed_width_roundtrip [of Int32BE "- 5" 1 "[7, 0, 0, 0, 0, 9]"]
    by (auto simp: kMaxLength_def)
  with c show ?thesis by auto
qed

text \<open>
  With its checks on, an accessor never touches memory outside the buffer: at an offset where
  its bytes do not fit, reading and writing throw a \<^verbatim>\<open>RangeError\<close>, and so does writing a number
  outside the type's range.
\<close>

theorem fixed_width_refuses:
  assumes "k \<le> kMaxLength"
  shows "(k + width_of ty > length b \<longrightarrow> (\<exists>msg. read_of ty (int k) False b = Inl (RangeError msg)))
    \<and> (v < min_of ty \<or> v > max_of ty \<or> k + width_of ty > length b \<longrightarrow>
        (\<exists>msg. write_of ty v (int k) False b = Inl (RangeError msg)))"
proof (cases ty)
  case UInt8
  show ?thesis unfolding UInt8 using assms uint8.read_refuses [where b = b and k = k] uint8.write_refuses [where v = v and b = b and k = k] by simp
next
  case UInt16LE
  show ?thesis unfolding UInt16LE using assms uint16le.read_refuses [where b = b and k = k] uint16le.write_refuses [where v = v and b = b and k = k] by simp
next
  case UInt16BE
  show ?thesis unfolding UInt16BE using assms uint16be.read_refuses [where b = b and k = k] uint16be.write_refuses [where v = v and b = b and k = k] by simp
next
  case UInt32LE
  show ?thesis unfolding UInt32LE using assms uint32le.read_refuses [where b = b and k = k] uint32le.write_refuses [where v = v and b = b and k = k] by simp
next
  case UInt32BE
  show ?thesis unfolding UInt32BE using assms uint32be.read_refuses [where b = b and k = k] uint32be.write_refuses [where v = v and b = b and k = k] by simp
next
  case Int8
  show ?thesis unfolding Int8 using assms int8.read_refuses [where b = b and k = k] int8.write_refuses [where v = v and b = b and k = k] by simp
next
  case Int16LE
  show ?thesis unfolding Int16LE using assms int16le.read_refuses [where b = b and k = k] int16le.write_refuses [where v = v and b = b and k = k] by simp
next
  case Int16BE
  show ?thesis unfolding Int16BE using assms int16be.read_refuses [where b = b and k = k] int16be.write_refuses [where v = v and b = b and k = k] by simp
next
  case Int32LE
  show ?thesis unfolding Int32LE using assms int32le.read_refuses [where b = b and k = k] int32le.write_refuses [where v = v and b = b and k = k] by simp
next
  case Int32BE
  show ?thesis unfolding Int32BE using assms int32be.read_refuses [where b = b and k = k] int32be.write_refuses [where v = v and b = b and k = k] by simp
qed

theorem fixed_width_refuses_witness:
  "\<exists>msg. write_of UInt16LE 70000 (int 0) False [1, 2, 3] = Inl (RangeError msg)"
  using fixed_width_refuses [where k = 0 and ty = UInt16LE and b = "[1, 2, 3]" and v = 70000] by (simp add: kMaxLength_def)

text \<open>
  C35: the variable-width unsigned accessors, for one to six bytes: a number that fits is read back as
  itself; and the writer's bound is one too large: it accepts \<open>256 ^ n\<close> itself and stores zero.
\<close>

theorem uint_roundtrip:
  assumes "0 < n" and "n \<le> 6" and "k + n \<le> length b" and "length b \<le> kMaxLength" and "0 \<le> v"
    and "v \<le> 256 ^ n"
  shows "\<exists>b1 b2. writeUIntLE v (int k) (int n) False b = Inr (b1, int (k + n))
    \<and> writeUIntBE v (int k) (int n) False b = Inr (b2, int (k + n))
    \<and> readUIntLE (int k) (int n) False b1 = Inr (Some (if v = 256 ^ n then 0 else v))
    \<and> readUIntBE (int k) (int n) False b2 = Inr (Some (if v = 256 ^ n then 0 else v))"
proof -
  have m: "v mod 256 ^ n = (if v = 256 ^ n then 0 else v)"
    using assms(5,6) mod_pos_pos_trivial [of v "256 ^ n"] by auto
  let ?b1 = "splice k (le_bytes n v) b" and ?b2 = "splice k (rev (le_bytes n v)) b"
  have "readUIntLE (int k) (int n) False ?b1 = Inr (Some (v mod 256 ^ n))"
    "readUIntBE (int k) (int n) False ?b2 = Inr (Some (v mod 256 ^ n))"
    using assms(1-4) by (simp_all add: readUInt_chunk le_val_bytes)
  then show ?thesis using writeUInt_splice [OF assms] unfolding m by blast
qed

theorem uint_roundtrip_witness:
  "\<exists>b1. writeUIntLE 65536 (int 0) (int 2) False [9, 9] = Inr (b1, int 2)
     \<and> readUIntLE (int 0) (int 2) False b1 = Inr (Some 0)"
  using uint_roundtrip [of 2 0 "[9, 9]" 65536] by (auto simp: kMaxLength_def)

text \<open>
  The variable-width signed accessors: a number that fits is read back as itself exactly when it is
  not negative, or takes one byte, or is not a multiple of 256. On the other negative numbers
  the writer stores a wrong byte.
\<close>

theorem int_roundtrip:
  assumes "0 < n" and "n \<le> 6" and "k + n \<le> length b" and "length b \<le> kMaxLength"
    and "- (128 * 256 ^ (n - 1)) \<le> v" and "v < 128 * 256 ^ (n - 1)"
  shows "\<exists>b1 b2. writeIntLE v (int k) n False b = Inr (b1, int (k + n))
    \<and> writeIntBE v (int k) n False b = Inr (b2, int (k + n))
    \<and> (readIntLE (int k) (int n) False b1 = Inr (Some v) \<longleftrightarrow> n = 1 \<or> 0 \<le> v \<or> \<not> 256 dvd v)
    \<and> (readIntBE (int k) (int n) False b2 = Inr (Some v) \<longleftrightarrow> n = 1 \<or> 0 \<le> v \<or> \<not> 256 dvd v)"
proof -
  let ?ds = "le_digits (signed_digit v) v n" and ?val = "\<lambda>u. if u \<ge> 128 * 256 ^ (n - 1) then u - 256 ^ n else u :: int"
  let ?b1 = "splice k ?ds b" and ?b2 = "splice k (rev ?ds) b"
  have r: "readIntLE (int k) (int n) False ?b1 = Inr (Some (?val (le_val ?ds)))"
    "readIntBE (int k) (int n) False ?b2 = Inr (Some (?val (le_val ?ds)))"
    using assms(1-4) by (simp_all add: readInt_chunk Let_def)
  have "?val (le_val ?ds) = v \<longleftrightarrow> n = 1 \<or> 0 \<le> v \<or> \<not> 256 dvd v"
  proof
    assume "n = 1 \<or> 0 \<le> v \<or> \<not> 256 dvd v"
    then show "?val (le_val ?ds) = v"
      using signed_value [OF assms(1,5,6)] le_digits_signed [OF assms(1), of v]
      unfolding Let_def by (simp only: le_val_bytes)
  next
    assume e: "?val (le_val ?ds) = v"
    have b: "0 \<le> le_val ?ds" "le_val ?ds < 256 ^ n"
      using le_val_bounds [OF le_digits_bytes, of "signed_digit v" v n] by simp_all
    have "?val (le_val ?ds) mod 256 ^ n = le_val ?ds mod 256 ^ n" by simp
    then have "v mod 256 ^ n = le_val ?ds mod 256 ^ n" unfolding e .
    then have "le_val ?ds = v mod 256 ^ n" using b by simp
    then have "?ds = le_bytes n (v mod 256 ^ n)"
      using le_bytes_val [OF le_digits_bytes, of "signed_digit v" v n] by simp
    also have "\<dots> = le_bytes n v" by (rule le_bytes_mod)
    finally show "n = 1 \<or> 0 \<le> v \<or> \<not> 256 dvd v" using le_digits_signed_wrong [of n v] assms(1) by force
  qed
  then show ?thesis using writeInt_splice [OF assms] r by simp
qed

theorem int_roundtrip_witness:
  "\<exists>b1. writeIntLE (- 256) (int 0) 2 False [0, 0] = Inr (b1, int 2)
     \<and> readIntLE (int 0) (int 2) False b1 \<noteq> Inr (Some (- 256))"
  using int_roundtrip [of 2 0 "[0, 0]" "- 256"] by (auto simp: kMaxLength_def)

subsection \<open>The object representation\<close>

lemma masked_shr:
  assumes "k + 8 \<le> 32"
  shows "js_shr (js_and v (js_shl 255 k)) k = v div 2 ^ k mod 256"
proof -
  let ?w = "int32 v"
  have m: "drop_bit k (?w AND push_bit k (mask 8)) = drop_bit k ?w AND mask 8"
    using assms by (intro bit_word_eqI)
      (auto simp: bit_and_iff bit_drop_bit_eq bit_push_bit_iff bit_mask_iff simp del: drop_bit_and dest: bit_imp_le_length)
  have "js_shr (js_and v (js_shl 255 k)) k = uint (drop_bit k (?w AND push_bit k (mask 8)))"
    using assms by (simp add: js_bit_defs mask_numeral)
  also have "\<dots> = uint (drop_bit k ?w) mod 2 ^ 8"
    unfolding m by (simp add: take_bit_eq_mask [symmetric] unsigned_take_bit_eq take_bit_eq_mod uint_mod)
  also have "\<dots> = js_shr v k mod 256" using assms by (simp add: js_shr_def)
  finally show ?thesis using shr_byte [OF assms] by simp
qed

lemma object_range:
  assumes "k + n \<le> length b"
  shows "[0..<nat (min (int (length b) - int k) (int n))] = [0..<n]"
proof -
  have "min (int (length b) - int k) (int n) = int n" using assms by linarith
  then show ?thesis by simp
qed

lemma put_mod: "put i (v mod 256) b = put i v b"
  by (simp add: put_def)

lemma object_16:
  assumes "k + 2 \<le> length b"
  shows "objectWriteUInt16 b v (int k) little = splice k (if little then le_bytes 2 v else rev (le_bytes 2 v)) b"
proof -
  let ?v = "if v < 0 then 0xffff + v + 1 else v"
  have m: "js_shr (js_and ?v (js_shl 255 n)) n = v div 2 ^ n mod 256" if "n \<in> {0, 8}" for n
  proof -
    have "(v + 65536) div 2 ^ n mod 256 = v div 2 ^ n mod 256"
    proof -
      have "(v + 256 * 256) mod 256 = v mod 256" by (rule mod_mult_self2)
      moreover have "(v + 256 * 256) div 256 = 256 + v div 256" by (rule div_mult_self2) simp
      ultimately show ?thesis using that by auto
    qed
    then show ?thesis using masked_shr [of n ?v] that by (auto simp: add.commute)
  qed
  show ?thesis
    using object_range [OF assms] put_2 [OF assms] m [of 0] m [of 8]
    by (simp add: objectWriteUInt16_def Let_def upt_rec le_bytes_numeral put_mod)
qed

lemma object_32:
  assumes "k + 4 \<le> length b"
  shows "objectWriteUInt32 b v (int k) little = splice k (if little then le_bytes 4 v else rev (le_bytes 4 v)) b"
proof -
  have "js_and (js_shr v n) 255 = v div 2 ^ n mod 256" if "n \<le> 24" for n
    using shr_byte [of n v] that by (simp add: and_255)
  then show ?thesis
    using object_range [OF assms] put_4 [OF assms]
    by (simp add: objectWriteUInt32_def Let_def store_4_negative upt_rec le_bytes_numeral put_mod)
qed

text \<open>
  The two representations of a buffer agree: each 16- and 32-bit writer stores in the typed
  array what \<^verbatim>\<open>objectWriteUInt16\<close> or \<^verbatim>\<open>objectWriteUInt32\<close> stores in the object the writer falls back
  to without typed arrays, for every number, negative and too large ones included.
\<close>

theorem object_writers_agree:
  assumes "k + 4 \<le> length b" and "length b \<le> kMaxLength"
  shows "writeUInt16LE v (int k) True b = Inr (objectWriteUInt16 b v (int k) True, int k + 2)
    \<and> writeInt16LE v (int k) True b = Inr (objectWriteUInt16 b v (int k) True, int k + 2)
    \<and> writeUInt16BE v (int k) True b = Inr (objectWriteUInt16 b v (int k) False, int k + 2)
    \<and> writeInt16BE v (int k) True b = Inr (objectWriteUInt16 b v (int k) False, int k + 2)
    \<and> writeUInt32LE v (int k) True b = Inr (objectWriteUInt32 b v (int k) True, int k + 4)
    \<and> writeInt32LE v (int k) True b = Inr (objectWriteUInt32 b v (int k) True, int k + 4)
    \<and> writeUInt32BE v (int k) True b = Inr (objectWriteUInt32 b v (int k) False, int k + 4)
    \<and> writeInt32BE v (int k) True b = Inr (objectWriteUInt32 b v (int k) False, int k + 4)"
proof -
  have k: "js_shr (int k) 0 = int k" using assms kMax [of k] by simp
  have 2: "k + 2 \<le> length b" using assms by simp
  have w: "writeInt32LE v (int k) True b = Inr (splice k (le_bytes 4 v) b, int k + 4)"
    "writeUInt32LE v (int k) True b = Inr (splice k (le_bytes 4 v) b, int k + 4)"
    "writeUInt32BE v (int k) True b = Inr (splice k (rev (le_bytes 4 v)) b, int k + 4)"
    "writeInt32BE v (int k) True b = Inr (splice k (rev (le_bytes 4 v)) b, int k + 4)"
    by (simp_all only: writeUInt32LE_def writeInt32LE_def writeUInt32BE_def writeInt32BE_def Let_def k
        check_write_def if_True bindR_simps store_4_negative store_4 [OF assms(1)])
  show ?thesis
    by (simp only: writeUInt16LE_def writeInt16LE_def writeUInt16BE_def writeInt16BE_def w Let_def k
        check_write_def if_True bindR_simps store_2 [OF 2] object_16 [OF 2] object_32 [OF assms(1)]
        if_False simp_thms)
qed

theorem object_writers_agree_witness:
  "writeInt16BE (- 2) (int 1) True [0, 0, 0, 0, 0] = Inr (objectWriteUInt16 [0, 0, 0, 0, 0] (- 2) (int 1) False, int 1 + 2)"
  using object_writers_agree [of 1 "[0, 0, 0, 0, 0]" "- 2"] by (simp add: kMaxLength_def)

end
