(* ===== verification/Base64Js.thy ===== *)
theory Base64Js
  imports BufferInts
begin

text \<open>
  The module \<^verbatim>\<open>base64-js\<close>, which \<^verbatim>\<open>Buffer\<close> uses for its \<^verbatim>\<open>base64\<close> encoding. Its digits are the
  same as those of the source-map codec; it also accepts the URL-safe ones.
\<close>

definition lookup :: jsstring where
  "lookup = js ''ABCDEFGHIJKLMNOPQRSTUVWXYZabcdefghijklmnopqrstuvwxyz0123456789+/''"

text \<open>
  \<^verbatim>\<open>decode(elt)\<close>. The code of the empty string is \<^verbatim>\<open>NaN\<close>, for which every test fails; then, and
  for codes above the letters, the result is \<^verbatim>\<open>undefined\<close>.
\<close>

definition b64_decode :: "jsstring \<Rightarrow> jsvalue" where
  "b64_decode elt =
     (case elt of
        [] \<Rightarrow> None
      | code # _ \<Rightarrow>
          if code = 43 \<or> code = 45 then Some 62
          else if code = 47 \<or> code = 95 then Some 63
          else if code < 48 then Some (- 1)
          else if code < 48 + 10 then Some (int code - 48 + 26 + 26)
          else if code < 65 + 26 then Some (int code - 65)
          else if code < 97 + 26 then Some (int code - 97 + 26)
          else None)"

abbreviation digit_at :: "jsstring \<Rightarrow> nat \<Rightarrow> int" where
  "digit_at b64 i \<equiv> bits (b64_decode (charAt b64 i))"

text \<open>The loop over complete groups: three bytes from the four digits at \<open>i\<close>, while \<open>i < l\<close>.\<close>

definition group_bytes :: "jsstring \<Rightarrow> nat \<Rightarrow> buffer" where
  "group_bytes b64 i =
     (let tmp = js_or (js_or (js_or (js_shl (digit_at b64 i) 18) (js_shl (digit_at b64 (i + 1)) 12))
                             (js_shl (digit_at b64 (i + 2)) 6)) (digit_at b64 (i + 3))
      in [js_sar (js_and tmp 0xFF0000) 16, js_sar (js_and tmp 0xFF00) 8, js_and tmp 0xFF])"

function groups_loop :: "jsstring \<Rightarrow> nat \<Rightarrow> nat \<Rightarrow> buffer" where
  "groups_loop b64 l i = (if i < l then group_bytes b64 i @ groups_loop b64 l (i + 4) else [])"
  by pat_completeness auto
termination
  by (relation "measure (\<lambda>(s, l, i). l - i)") auto

declare groups_loop.simps [simp del]

text \<open>The number of equal signs (placeholders) at the end: the last two characters are looked at.\<close>

definition placeHolders :: "jsstring \<Rightarrow> nat" where
  "placeHolders b64 =
     (let len = length b64 in
      if len \<ge> 2 \<and> charAt b64 (len - 2) = js ''='' then 2
      else if len \<ge> 1 \<and> charAt b64 (len - 1) = js ''='' then 1 else 0)"

text \<open>The bytes of an incomplete last group, which starts at \<open>i\<close>.\<close>

definition last_bytes :: "jsstring \<Rightarrow> nat \<Rightarrow> nat \<Rightarrow> buffer" where
  "last_bytes b64 holders i =
     (if holders = 2 then
        let tmp = js_or (js_shl (digit_at b64 i) 2) (js_sar (digit_at b64 (i + 1)) 4)
        in [js_and tmp 0xFF]
      else if holders = 1 then
        let tmp = js_or (js_or (js_shl (digit_at b64 i) 10) (js_shl (digit_at b64 (i + 1)) 4))
                        (js_sar (digit_at b64 (i + 2)) 2)
        in [js_and (js_sar tmp 8) 0xFF, js_and tmp 0xFF]
      else [])"

text \<open>
  \<^verbatim>\<open>b64ToByteArray\<close>. The result array is allocated with exactly the number of bytes that are
  pushed. After the loop \<^verbatim>\<open>i\<close> is \<open>l\<close>.
\<close>

definition b64ToByteArray :: "jsstring \<Rightarrow> buffer res" where
  "b64ToByteArray b64 =
     (let len = length b64 in
      if len mod 4 > 0 then Inl (Error (js ''Invalid string. Length must be a multiple of 4''))
      else
        let holders = placeHolders b64;
            l = (if holders > 0 then len - 4 else len)
        in Inr (groups_loop b64 l 0 @ last_bytes b64 holders l))"

definition b64_encode :: "int \<Rightarrow> jsstring" where
  "b64_encode num = (case js_index lookup num of None \<Rightarrow> [] | Some c \<Rightarrow> [c])"

definition tripletToBase64 :: "int \<Rightarrow> jsstring" where
  "tripletToBase64 num =
     b64_encode (js_and (js_sar num 18) 0x3F) @ b64_encode (js_and (js_sar num 12) 0x3F)
     @ b64_encode (js_and (js_sar num 6) 0x3F) @ b64_encode (js_and num 0x3F)"

text \<open>The loop over triples, and the one or two bytes that are left, as the array is traversed.\<close>

fun uint8ToBase64 :: "buffer \<Rightarrow> jsstring" where
  "uint8ToBase64 (x # y # z # rest) =
     tripletToBase64 (js_shl x 16 + js_shl y 8 + z) @ uint8ToBase64 rest"
| "uint8ToBase64 [x, y] =
     (let temp = js_shl x 8 + y
      in b64_encode (js_sar temp 10) @ b64_encode (js_and (js_sar temp 4) 0x3F)
         @ b64_encode (js_and (js_shl temp 2) 0x3F) @ js ''='')"
| "uint8ToBase64 [x] =
     b64_encode (js_sar x 2) @ b64_encode (js_and (js_shl x 4) 0x3F) @ js ''==''"
| "uint8ToBase64 [] = []"

subsection \<open>Digits\<close>

lemma length_lookup: "length lookup = 64"
  by (simp add: lookup_def)

lemma lookup_decode: "map (\<lambda>c. b64_decode [c]) lookup = map Some [0..63]"
  by (simp add: lookup_def js_eval b64_decode_def upto_rec_numeral upto_rec1)

lemma lookup_no_equals: "61 \<notin> set lookup"
  by (simp add: lookup_def js_eval)

definition digit :: "int \<Rightarrow> code_unit" where
  "digit d = lookup ! nat d"

lemma digit_decode: "\<lbrakk>0 \<le> d; d < 64\<rbrakk> \<Longrightarrow> b64_decode [digit d] = Some d"
  using arg_cong [OF lookup_decode, of "\<lambda>l. l ! nat d"]
  by (simp add: digit_def nat_less_iff length_lookup)

lemma digit_no_equals:
  assumes "0 \<le> d" and "d < 64"
  shows "digit d \<noteq> 61"
proof -
  have "nat d < length lookup" using assms by (simp add: length_lookup nat_less_iff)
  then have "digit d \<in> set lookup" unfolding digit_def by (rule nth_mem)
  then show ?thesis using lookup_no_equals by metis
qed

lemma encode_digit: "\<lbrakk>0 \<le> d; d < 64\<rbrakk> \<Longrightarrow> b64_encode d = [digit d]"
  by (simp add: b64_encode_def js_index_def length_lookup digit_def)

lemma and_63: "js_and a 63 = a mod 64"
  using js_and_mask [of 6 a] by simp

lemma shl_small:
  assumes "0 \<le> a" and "a * 2 ^ n < 2 ^ 31" and "n < 32"
  shows "js_shl a n = a * 2 ^ n"
proof -
  have "0 \<le> a * 2 ^ n" using assms(1) by simp
  then have "- (2 ^ 31) \<le> a * 2 ^ n" by (rule order_trans [rotated]) simp
  then show ?thesis using assms(2,3) by (simp only: js_shl_eq mod_less sint_int32_small)
qed

lemma sar_small: "\<lbrakk>0 \<le> a; a < 2 ^ 31; n < 32\<rbrakk> \<Longrightarrow> js_sar a n = a div 2 ^ n"
  by (rule js_sar_eq) auto

lemma or_small:
  assumes "0 \<le> a" and "a < 2 ^ k" and "0 \<le> b" and "2 ^ k dvd b" and "a + b < 2 ^ 31"
  shows "js_or b a = b + a"
proof -
  have "- (2 ^ 31) \<le> a + b" using assms by linarith
  then have "sint (int32 (a + b)) = a + b" using assms(5) by (rule sint_int32_small)
  then show ?thesis using js_or_disjoint [OF assms(1,2,4)] by (simp only: js_or_comm add.commute)
qed

lemma triplet_digits:
  assumes "0 \<le> t" and "t < 2 ^ 24"
  shows "tripletToBase64 t = [digit (t div 2 ^ 18 mod 64), digit (t div 2 ^ 12 mod 64),
    digit (t div 2 ^ 6 mod 64), digit (t mod 64)]"
  using assms by (simp add: tripletToBase64_def sar_small and_63 encode_digit)

text \<open>Four digits put together, and three bytes taken apart.\<close>

lemma or_digits:
  assumes "0 \<le> a" "a < 64" "0 \<le> b" "b < 64" "0 \<le> c" "c < 64" "0 \<le> d" "d < 64"
  shows "js_or (js_or (js_or (js_shl a 18) (js_shl b 12)) (js_shl c 6)) d = a * 2 ^ 18 + b * 2 ^ 12 + c * 2 ^ 6 + d"
proof -
  have s: "js_shl a 18 = a * 2 ^ 18" "js_shl b 12 = b * 2 ^ 12" "js_shl c 6 = c * 2 ^ 6"
    using assms by (simp_all add: shl_small)
  have 1: "js_or (a * 2 ^ 18) (b * 2 ^ 12) = a * 2 ^ 18 + b * 2 ^ 12"
    using assms by (intro or_small [where k = 18]) auto
  have "(2 :: int) ^ 12 dvd a * 2 ^ 18 + b * 2 ^ 12" by (intro dvd_add) auto
  then have 2: "js_or (a * 2 ^ 18 + b * 2 ^ 12) (c * 2 ^ 6) = a * 2 ^ 18 + b * 2 ^ 12 + c * 2 ^ 6"
    using assms by (intro or_small [where k = 12]) auto
  have "(2 :: int) ^ 6 dvd a * 2 ^ 18 + b * 2 ^ 12 + c * 2 ^ 6" by (intro dvd_add) auto
  then have 3: "js_or (a * 2 ^ 18 + b * 2 ^ 12 + c * 2 ^ 6) d = a * 2 ^ 18 + b * 2 ^ 12 + c * 2 ^ 6 + d"
    using assms by (intro or_small [where k = 6]) auto
  show ?thesis unfolding s 1 2 3 ..
qed

lemma masked_byte:
  assumes "0 \<le> t" and "t < 2 ^ 24" and "k < 32" and "(2 ^ 8 - 1) * 2 ^ k < (2 ^ 31 :: int)"
  shows "js_sar (js_and t ((2 ^ 8 - 1) * 2 ^ k)) k = t div 2 ^ k mod 2 ^ 8"
proof -
  have a: "js_and t ((2 ^ 8 - 1) * 2 ^ k) = t AND (2 ^ 8 - 1) * 2 ^ k"
    by (rule js_and_int) (use assms in auto)
  have "0 \<le> t AND (2 ^ 8 - 1) * 2 ^ k" using assms by simp
  moreover have "t AND (2 ^ 8 - 1) * 2 ^ k \<le> t" using assms by (simp add: AND_upper1)
  moreover have "t < 2 ^ 31" using assms(2) by simp
  ultimately have "js_sar (t AND (2 ^ 8 - 1) * 2 ^ k) k = (t AND (2 ^ 8 - 1) * 2 ^ k) div 2 ^ k"
    using assms(3) by (intro sar_small) linarith+
  then show ?thesis by (simp only: a and_shifted_mask)
qed

lemma take_bytes:
  assumes "0 \<le> t" and "t < 2 ^ 24"
  shows "[js_sar (js_and t 0xFF0000) 16, js_sar (js_and t 0xFF00) 8, js_and t 0xFF]
    = [t div 2 ^ 16 mod 2 ^ 8, t div 2 ^ 8 mod 2 ^ 8, t mod 256]"
proof -
  have m: "(2 ^ 8 - 1) * 2 ^ 16 = (0xFF0000 :: int)" "(2 ^ 8 - 1) * 2 ^ 8 = (0xFF00 :: int)" by simp_all
  have "js_sar (js_and t 0xFF0000) 16 = t div 2 ^ 16 mod 2 ^ 8"
    using masked_byte [OF assms, of 16] unfolding m by simp
  moreover have "js_sar (js_and t 0xFF00) 8 = t div 2 ^ 8 mod 2 ^ 8"
    using masked_byte [OF assms, of 8] unfolding m by simp
  ultimately show ?thesis by (simp only: and_255)
qed

lemma split_24:
  fixes t :: int
  assumes "0 \<le> t" and "t < 2 ^ 24"
  shows "t div 2 ^ 18 mod 64 * 2 ^ 18 + t div 2 ^ 12 mod 64 * 2 ^ 12 + t div 2 ^ 6 mod 64 * 2 ^ 6 + t mod 64 = t"
proof -
  have g: "v = v div 64 * 64 + v mod (64 :: int)" for v by simp
  have p: "(2 :: int) ^ 12 = 64 * 64" "(2 :: int) ^ 18 = 64 * 64 * 64" "(2 :: int) ^ 6 = 64" by simp_all
  have e: "t div 2 ^ 12 = t div 64 div 64" "t div 2 ^ 18 = t div 64 div 64 div 64" "t div 2 ^ 6 = t div 64"
    unfolding p by (simp_all only: zdiv_zmult2_eq)
  have j: "((a * 64 + b) * 64 + c) * 64 + d = a * (64 * 64 * 64) + b * (64 * 64) + c * 64 + d" for a b c d :: int
    by simp
  have "0 \<le> t div 2 ^ 18" "t div 2 ^ 18 < 64" using assms by simp_all
  then have m: "t div 2 ^ 18 mod 64 = t div 2 ^ 18" by (rule mod_pos_pos_trivial)
  show ?thesis unfolding m unfolding e unfolding p
    by (simp only: j [symmetric] g [of "t div 64 div 64", symmetric] g [of "t div 64", symmetric] g [of t, symmetric])
qed

subsection \<open>One group\<close>

definition joined :: "int \<Rightarrow> int \<Rightarrow> int \<Rightarrow> int" where
  "joined x y z = x * 2 ^ 16 + y * 2 ^ 8 + z"

lemma joined_bounds:
  assumes "x \<in> {0..255}" "y \<in> {0..255}" "z \<in> {0..255}"
  shows "0 \<le> joined x y z" and "joined x y z < 2 ^ 24"
  using assms by (auto simp: joined_def)

lemma joined_bytes:
  assumes "x \<in> {0..255}" "y \<in> {0..255}" "z \<in> {0..255}"
  shows "joined x y z div 2 ^ 16 mod 2 ^ 8 = x" and "joined x y z div 2 ^ 8 mod 2 ^ 8 = y"
    and "joined x y z mod 256 = z"
proof -
  have d: "joined x y z div 256 = x * 256 + y"
  proof -
    have "joined x y z = (x * 256 + y) * 256 + z" by (simp add: joined_def)
    then show ?thesis using assms(3) by (simp only: div_mult_self3) simp
  qed
  have dd: "(x * 256 + y) div 256 = x" using assms(2) by simp
  have p: "(2 :: int) ^ 16 = 256 * 256" "(2 :: int) ^ 8 = 256" by simp_all
  show "joined x y z div 2 ^ 16 mod 2 ^ 8 = x"
    unfolding p using assms(1) by (simp only: zdiv_zmult2_eq d dd) simp
  show "joined x y z div 2 ^ 8 mod 2 ^ 8 = y"
    unfolding p d using assms(2) by simp
  have "joined x y z = z + (x * 256 + y) * 256" by (simp add: joined_def)
  then show "joined x y z mod 256 = z" using assms(3) by (simp only: mod_mult_self1) simp
qed

lemma shl_joined:
  assumes "x \<in> {0..255}" "y \<in> {0..255}"
  shows "js_shl x 16 + js_shl y 8 + z = joined x y z"
proof -
  have "js_shl x 16 = x * 2 ^ 16" "js_shl y 8 = y * 2 ^ 8"
    using assms shl_small [of x 16] shl_small [of y 8] by simp_all
  then show ?thesis by (simp only: joined_def)
qed

lemma group_of_digits:
  assumes "0 \<le> t" and "t < 2 ^ 24"
  shows "group_bytes (tripletToBase64 t) 0 = [t div 2 ^ 16 mod 2 ^ 8, t div 2 ^ 8 mod 2 ^ 8, t mod 256]"
proof -
  have d: "bits (b64_decode [digit (v mod 64)]) = v mod 64" for v
    using digit_decode [of "v mod 64"] by (simp add: bits_def)
  have c: "charAt [p, q, r, s] 0 = [p]" "charAt [p, q, r, s] (0 + 1) = [q]"
    "charAt [p, q, r, s] (0 + 2) = [r]" "charAt [p, q, r, s] (0 + 3) = [s]" for p q r s
    by (simp_all add: charAt_def)
  have o: "js_or (js_or (js_or (js_shl (t div 2 ^ 18 mod 64) 18) (js_shl (t div 2 ^ 12 mod 64) 12))
      (js_shl (t div 2 ^ 6 mod 64) 6)) (t mod 64) = t"
    by (rule trans [OF or_digits split_24 [OF assms]]) (rule pos_mod_sign pos_mod_bound, simp)+
  show ?thesis
    unfolding group_bytes_def triplet_digits [OF assms] c d o Let_def by (rule take_bytes [OF assms])
qed

subsection \<open>The whole string\<close>

lemma charAt_shift: "charAt (u @ s) (length u + i) = charAt s i"
  by (simp add: charAt_def)

lemma charAt_left: "i < length u \<Longrightarrow> charAt (u @ s) i = charAt u i"
  by (simp add: charAt_def nth_append)

lemma groups_loop_shift: "groups_loop (u @ s) (length u + l) (length u + i) = groups_loop s l i"
proof (induction s l i rule: groups_loop.induct)
  case (1 s l i)
  have "group_bytes (u @ s) (length u + i) = group_bytes s i"
    by (simp only: group_bytes_def add.assoc charAt_shift)
  then show ?case using 1
    by (subst (1 2) groups_loop.simps) (simp add: add.assoc)
qed

lemma group_bytes_left: "length u = 4 \<Longrightarrow> group_bytes (u @ s) 0 = group_bytes u 0"
  by (simp add: group_bytes_def charAt_left)

lemma groups_loop_4:
  assumes "length u = 4"
  shows "groups_loop (u @ s) (4 + l) 0 = group_bytes u 0 @ groups_loop s l 0"
  using groups_loop_shift [of u s l 0] assms
  by (subst groups_loop.simps) (simp add: group_bytes_left)

text \<open>A complete group in front of the rest adds its three bytes in front of the result.\<close>

lemma b64ToByteArray_group:
  assumes u: "length u = 4" and e: "61 \<notin> set u" and r: "b64ToByteArray s = Inr r"
  shows "b64ToByteArray (u @ s) = Inr (group_bytes u 0 @ r)"
proof (cases "s = []")
  case True
  then have "r = []" using r by (simp add: b64ToByteArray_def placeHolders_def last_bytes_def groups_loop.simps)
  moreover have "u ! k \<noteq> 61" if "k < 4" for k using u e nth_mem [of k u] that by metis
  then have "charAt u (4 - 2) \<noteq> js ''=''" "charAt u (4 - 1) \<noteq> js ''=''"
    by (simp_all add: charAt_def js_eval)
  ultimately show ?thesis
    using True u groups_loop_4 [OF u, of s 0]
    by (simp add: b64ToByteArray_def placeHolders_def last_bytes_def groups_loop.simps [of "[]"])
next
  case False
  have m: "length s mod 4 = 0" using r by (auto simp: b64ToByteArray_def Let_def split: if_splits)
  then have l: "4 \<le> length s" using False by (cases "length s < 4") auto
  have c: "charAt (u @ s) (4 + length s - k) = charAt s (length s - k)" if "k \<le> 4" for k
    using charAt_shift [of u s "length s - k"] that l u by simp
  have p: "placeHolders (u @ s) = placeHolders s"
    using c [of 2] c [of 1] u l by (simp add: placeHolders_def Let_def)
  have d: "last_bytes (u @ s) h (4 + i) = last_bytes s h i" for h i
    using charAt_shift [of u s] u by (simp only: last_bytes_def add.assoc)
  define k where "k = (if placeHolders s > 0 then length s - 4 else length s)"
  have k: "(if placeHolders s > 0 then length (u @ s) - 4 else length (u @ s)) = 4 + k"
    using u l by (simp add: k_def)
  have "length (u @ s) mod 4 = 0" using u m by simp
  then show ?thesis using r m
    by (simp only: b64ToByteArray_def Let_def p k k_def [symmetric] groups_loop_4 [OF u] d) simp
qed

lemma last_group_2:
  "b64ToByteArray [a, b, 61, 61] =
     Inr [js_and (js_or (js_shl (bits (b64_decode [a])) 2) (js_sar (bits (b64_decode [b])) 4)) 255]"
  by (simp add: b64ToByteArray_def placeHolders_def last_bytes_def groups_loop.simps charAt_def js_eval)

lemma last_group_1:
  assumes "c \<noteq> 61"
  shows "b64ToByteArray [a, b, c, 61] =
     (let tmp = js_or (js_or (js_shl (bits (b64_decode [a])) 10) (js_shl (bits (b64_decode [b])) 4))
                      (js_sar (bits (b64_decode [c])) 2)
      in Inr [js_and (js_sar tmp 8) 255, js_and tmp 255])"
  using assms
  by (simp add: b64ToByteArray_def placeHolders_def last_bytes_def groups_loop.simps charAt_def js_eval Let_def)

lemma bits_digit: "\<lbrakk>0 \<le> d; d < 64\<rbrakk> \<Longrightarrow> bits (b64_decode [digit d]) = d"
  by (simp add: digit_decode bits_def)

lemma tail_1:
  assumes "x \<in> {0..255}"
  shows "b64ToByteArray (uint8ToBase64 [x]) = Inr [x]"
proof -
  have s: "js_sar x 2 = x div 4" "js_shl x 4 = x * 16"
    using assms sar_small [of x 2] shl_small [of x 4] by simp_all
  have m: "x * 16 mod 64 = x mod 4 * 16" using mult_mod_right [of 16 x 4] by (simp add: mult.commute)
  have b: "0 \<le> x div 4" "x div 4 < 64" "0 \<le> x mod 4 * 16" "x mod 4 * 16 < 64"
    using assms by auto
  have e: "uint8ToBase64 [x] = [digit (x div 4), digit (x mod 4 * 16), 61, 61]"
    using b by (simp add: s and_63 m encode_digit js_eval)
  have "js_shl (x div 4) 2 = x div 4 * 4" "js_sar (x mod 4 * 16) 4 = x mod 4"
    using b shl_small [of "x div 4" 2] sar_small [of "x mod 4 * 16" 4] by simp_all
  moreover have "js_or (x div 4 * 4) (x mod 4) = x div 4 * 4 + x mod 4"
    using b assms by (intro or_small [where k = 2]) auto
  ultimately have "js_or (js_shl (x div 4) 2) (js_sar (x mod 4 * 16) 4) = x" by simp
  then show ?thesis using assms
    unfolding e last_group_2 bits_digit [OF b(1,2)] bits_digit [OF b(3,4)] by (simp add: and_255)
qed

lemma tail_2:
  assumes "x \<in> {0..255}" "y \<in> {0..255}"
  shows "b64ToByteArray (uint8ToBase64 [x, y]) = Inr [x, y]"
proof -
  define t where "t = x * 256 + y"
  have t: "0 \<le> t" "t < 65536" using assms by (auto simp: t_def)
  have h: "js_shl x 8 + y = t" using assms shl_small [of x 8] by (simp add: t_def)
  have s: "js_sar t 10 = t div 1024" "js_sar t 4 = t div 16" "js_shl t 2 = t * 4"
    using t sar_small [of t 10] sar_small [of t 4] shl_small [of t 2] by simp_all
  have m: "t * 4 mod 64 = t mod 16 * 4" using mult_mod_right [of 4 t 16] by (simp add: mult.commute)
  have b: "0 \<le> t div 1024" "t div 1024 < 64" "0 \<le> t div 16 mod 64" "t div 16 mod 64 < 64"
    "0 \<le> t mod 16 * 4" "t mod 16 * 4 < 64"
    using t by simp_all
  have e: "uint8ToBase64 [x, y] = [digit (t div 1024), digit (t div 16 mod 64), digit (t mod 16 * 4), 61]"
    using b by (simp add: h s and_63 m encode_digit js_eval)
  have d: "js_shl (t div 1024) 10 = t div 1024 * 1024" "js_shl (t div 16 mod 64) 4 = t div 16 mod 64 * 16"
    "js_sar (t mod 16 * 4) 2 = t mod 16"
    using b shl_small [of "t div 1024" 10] shl_small [of "t div 16 mod 64" 4] sar_small [of "t mod 16 * 4" 2]
    by simp_all
  have o1: "js_or (t div 1024 * 1024) (t div 16 mod 64 * 16) = t div 1024 * 1024 + t div 16 mod 64 * 16"
    using b by (intro or_small [where k = 10]) auto
  have "(2 :: int) ^ 4 dvd t div 1024 * 1024 + t div 16 mod 64 * 16" by (intro dvd_add dvd_mult) simp_all
  then have o2: "js_or (t div 1024 * 1024 + t div 16 mod 64 * 16) (t mod 16)
      = t div 1024 * 1024 + t div 16 mod 64 * 16 + t mod 16"
    using b t by (intro or_small [where k = 4]) auto
  have "t div 1024 = t div 16 div 64" using zdiv_zmult2_eq [of 64 t 16] by simp
  then have "t div 1024 * 64 + t div 16 mod 64 = t div 16" by (simp only: div_mult_mod_eq)
  then have "t div 1024 * 1024 + t div 16 mod 64 * 16 + t mod 16 = t div 16 * 16 + t mod 16" by linarith
  then have o: "js_or (js_or (js_shl (t div 1024) 10) (js_shl (t div 16 mod 64) 4)) (js_sar (t mod 16 * 4) 2) = t"
    unfolding d o1 o2 by (simp only: div_mult_mod_eq)
  have "js_sar t 8 = x" "x mod 256 = x" "t mod 256 = y"
    using assms t sar_small [of t 8] by (simp_all add: t_def)
  then show ?thesis
    unfolding e last_group_1 [OF digit_no_equals [OF b(5,6)]] bits_digit [OF b(1,2)]
      bits_digit [OF b(3,4)] bits_digit [OF b(5,6)] o Let_def and_255 by simp
qed

text \<open>
  What \<^verbatim>\<open>uint8ToBase64\<close> writes for an array of bytes, \<^verbatim>\<open>b64ToByteArray\<close> reads back as the same
  array, for every length (with two, one or no padding characters).
\<close>

lemma base64_roundtrip:
  assumes "wf_buffer b"
  shows "b64ToByteArray (uint8ToBase64 b) = Inr b"
  using assms
proof (induction b rule: uint8ToBase64.induct)
  case (1 x y z rest)
  then have x: "x \<in> {0..255}" "y \<in> {0..255}" "z \<in> {0..255}" and r: "wf_buffer rest"
    by (auto simp: wf_buffer_def)
  note t = joined_bounds [OF x]
  have "61 \<notin> set (tripletToBase64 (joined x y z))" "length (tripletToBase64 (joined x y z)) = 4"
    unfolding triplet_digits [OF t] by (auto dest!: sym [of 61] simp: digit_no_equals)
  from b64ToByteArray_group [OF this(2,1) 1(1) [OF r]] show ?case
    unfolding group_of_digits [OF t] joined_bytes [OF x] by (simp add: shl_joined [OF x(1,2)])
next
  case (2 x y)
  then show ?case by (intro tail_2) (auto simp: wf_buffer_def)
next
  case (3 x)
  then show ?case by (intro tail_1) (auto simp: wf_buffer_def)
next
  case 4
  then show ?case by (simp add: b64ToByteArray_def placeHolders_def last_bytes_def groups_loop.simps)
qed

end
