(* ===== verification/BufferCodecs.thy ===== *)
theory BufferCodecs
  imports Base64Js
begin

text \<open>
  The encodings of \<^verbatim>\<open>Buffer\<close>: from strings to bytes and back, for \<^verbatim>\<open>utf8\<close>, \<^verbatim>\<open>utf16le\<close>, \<^verbatim>\<open>hex\<close>, \<^verbatim>\<open>binary\<close>,
  \<^verbatim>\<open>ascii\<close> and \<^verbatim>\<open>base64\<close>, on the contents of a buffer. Of the language, \<^verbatim>\<open>toString(16)\<close>, \<^verbatim>\<open>parseInt(s, 16)\<close>,
  \<^verbatim>\<open>trim\<close> and \<^verbatim>\<open>decodeURIComponent\<close> are modelled.
\<close>

subsection \<open>UTF-8, from strings\<close>

text \<open>\<open>units\<close> is the room that is left, \<open>None\<close> for \<^verbatim>\<open>Infinity\<close>. \<open>enough\<close> is the test for room after subtracting.\<close>

definition spend :: "int \<Rightarrow> int option \<Rightarrow> int option" where
  "spend k units = map_option (\<lambda>u. u - k) units"

definition enough :: "int option \<Rightarrow> bool" where
  "enough units = (case units of None \<Rightarrow> True | Some u \<Rightarrow> u > - 1)"

definition replacement :: "int option \<Rightarrow> buffer" where
  "replacement units = (if enough (spend 3 units) then [0xEF, 0xBF, 0xBD] else [])"

text \<open>The bytes of a code point.\<close>

definition encode_utf8 :: "int \<Rightarrow> buffer res" where
  "encode_utf8 codePoint =
     (if codePoint < 0x80 then Inr [codePoint]
      else if codePoint < 0x800 then
        Inr [js_or (js_sar codePoint 6) 0xC0, js_or (js_and codePoint 0x3F) 0x80]
      else if codePoint < 0x10000 then
        Inr [js_or (js_sar codePoint 12) 0xE0, js_or (js_and (js_sar codePoint 6) 0x3F) 0x80,
          js_or (js_and codePoint 0x3F) 0x80]
      else if codePoint < 0x200000 then
        Inr [js_or (js_sar codePoint 18) 0xF0, js_or (js_and (js_sar codePoint 12) 0x3F) 0x80,
          js_or (js_and (js_sar codePoint 6) 0x3F) 0x80, js_or (js_and codePoint 0x3F) 0x80]
      else Inl (Error (js ''Invalid code point'')))"

text \<open>A code point is pushed if there is room for all of its bytes; else the loop ends.\<close>

definition push_code :: "int option \<Rightarrow> int \<Rightarrow> (int option \<Rightarrow> buffer res) \<Rightarrow> buffer res" where
  "push_code units codePoint rest =
     bindR (encode_utf8 codePoint) (\<lambda>bytes.
       let left = spend (int (length bytes)) units
       in if enough left then mapR (append bytes) (rest left) else Inr [])"

text \<open>The loop; \<open>lead\<close> is \<^verbatim>\<open>leadSurrogate\<close>, and the characters from \<open>i\<close> on are the argument.\<close>

fun utf8_loop :: "int option \<Rightarrow> int option \<Rightarrow> jsstring \<Rightarrow> buffer res" where
  "utf8_loop units lead [] = Inr []"
| "utf8_loop units lead (c # cs) =
     (if c > 0xD7FF \<and> c < 0xE000 then
        (case lead of
           Some l \<Rightarrow>
             if c < 0xDC00 then mapR (append (replacement units)) (utf8_loop (spend 3 units) (Some (int c)) cs)
             else push_code units (js_or (js_or (js_shl (l - 0xD800) 10) (int c - 0xDC00)) 0x10000)
                    (\<lambda>units. utf8_loop units None cs)
         | None \<Rightarrow>
             if c > 0xDBFF \<or> cs = [] then mapR (append (replacement units)) (utf8_loop (spend 3 units) None cs)
             else utf8_loop units (Some (int c)) cs)
      else
        (case lead of
           Some l \<Rightarrow> mapR (append (replacement units))
             (push_code (spend 3 units) (int c) (\<lambda>units. utf8_loop units None cs))
         | None \<Rightarrow> push_code units (int c) (\<lambda>units. utf8_loop units None cs)))"

text \<open>\<^verbatim>\<open>units = units || Infinity\<close>: no limit, or a limit of 0, is no limit.\<close>

definition utf8ToBytes :: "jsstring \<Rightarrow> int option \<Rightarrow> buffer res" where
  "utf8ToBytes text units = utf8_loop (if units = Some 0 then None else units) None text"

subsection \<open>UTF-8, from bytes\<close>

definition byte_char :: "nat \<Rightarrow> code_unit" where
  "byte_char d = (if d < 10 then 48 + d else 87 + d)"

text \<open>\<^verbatim>\<open>n.toString(16)\<close> of a byte.\<close>

definition byte_to_string16 :: "int \<Rightarrow> jsstring" where
  "byte_to_string16 b = (if b < 16 then [byte_char (nat b)] else [byte_char (nat b div 16), byte_char (nat b mod 16)])"

definition byte_digit :: "code_unit \<Rightarrow> nat option" where
  "byte_digit c =
     (if 48 \<le> c \<and> c \<le> 57 then Some (c - 48) else if 97 \<le> c \<and> c \<le> 102 then Some (c - 87)
      else if 65 \<le> c \<and> c \<le> 70 then Some (c - 55) else None)"

text \<open>
  \<^verbatim>\<open>decodeURIComponent\<close> of the standard: an escape that begins a sequence of UTF-8 must be followed by the
  escapes of the whole sequence, which must be the shortest one for a code point that is no surrogate.
  \<open>None\<close> is the \<^verbatim>\<open>URIError\<close>.
\<close>

fun escaped_octet :: "jsstring \<Rightarrow> nat option" where
  "escaped_octet (c # h # l # cs) =
     (if c = 37 then
        (case (byte_digit h, byte_digit l) of (Some a, Some b) \<Rightarrow> Some (16 * a + b) | _ \<Rightarrow> None)
      else None)"
| "escaped_octet s = None"

definition sequence_length :: "nat \<Rightarrow> nat option" where
  "sequence_length b =
     (if b < 0x80 then Some 1 else if b < 0xC0 then None else if b < 0xE0 then Some 2 else if b < 0xF0 then Some 3
      else if b < 0xF8 then Some 4 else None)"

text \<open>The bits of \<open>n\<close> continuation octets, after the bits in front of them.\<close>

fun continuation :: "nat \<Rightarrow> nat \<Rightarrow> jsstring \<Rightarrow> nat option" where
  "continuation 0 v s = Some v"
| "continuation (Suc n) v s =
     (case escaped_octet s of
        Some b \<Rightarrow> if 0x80 \<le> b \<and> b < 0xC0 then continuation n (64 * v + (b - 0x80)) (drop 3 s) else None
      | None \<Rightarrow> None)"

definition shortest :: "nat \<Rightarrow> nat \<Rightarrow> bool" where
  "shortest n v =
     (if n = 1 then True else if n = 2 then 0x80 \<le> v
      else if n = 3 then 0x800 \<le> v \<and> \<not> (0xD800 \<le> v \<and> v < 0xE000) else 0x10000 \<le> v \<and> v < 0x110000)"

definition utf16_units :: "nat \<Rightarrow> jsstring" where
  "utf16_units v =
     (if v < 0x10000 then [v] else [0xD800 + (v - 0x10000) div 0x400, 0xDC00 + (v - 0x10000) mod 0x400])"

definition lead_bits :: "nat \<Rightarrow> nat \<Rightarrow> nat" where
  "lead_bits n b = (if n = 1 then b else if n = 2 then b - 0xC0 else if n = 3 then b - 0xE0 else b - 0xF0)"

definition decode_sequence :: "jsstring \<Rightarrow> (nat \<times> jsstring) option" where
  "decode_sequence s =
     (case escaped_octet s of
        None \<Rightarrow> None
      | Some b \<Rightarrow>
          (case sequence_length b of
             None \<Rightarrow> None
           | Some n \<Rightarrow>
               (case continuation (n - 1) (lead_bits n b) (drop 3 s) of
                  None \<Rightarrow> None
                | Some v \<Rightarrow> if shortest n v then Some (3 * n, utf16_units v) else None)))"

function decodeURIComponent :: "jsstring \<Rightarrow> jsstring option" where
  "decodeURIComponent [] = Some []"
| "decodeURIComponent (c # cs) =
     (if c \<noteq> 37 then map_option (append [c]) (decodeURIComponent cs)
      else case decode_sequence (c # cs) of
             None \<Rightarrow> None
           | Some (k, units) \<Rightarrow> map_option (append units) (decodeURIComponent (drop (k - 1) cs)))"
  by pat_completeness auto
termination
  by (relation "measure length") auto

definition decodeUtf8Char :: "jsstring \<Rightarrow> jsstring" where
  "decodeUtf8Char text = (case decodeURIComponent text of Some r \<Rightarrow> r | None \<Rightarrow> [0xFFFD])"

text \<open>The loop over the bytes; \<open>tmp\<close> holds the escapes of the bytes above 0x7F since the last other one.\<close>

fun utf8_slice_loop :: "jsstring \<Rightarrow> buffer \<Rightarrow> jsstring" where
  "utf8_slice_loop tmp [] = decodeUtf8Char tmp"
| "utf8_slice_loop tmp (b # bs) =
     (if b \<le> 0x7F then decodeUtf8Char tmp @ [nat b] @ utf8_slice_loop [] bs
      else utf8_slice_loop (tmp @ js ''%'' @ byte_to_string16 b) bs)"

definition utf8Slice :: "buffer \<Rightarrow> nat \<Rightarrow> nat \<Rightarrow> jsstring" where
  "utf8Slice buf start end = utf8_slice_loop [] (substring start (min (length buf) end) buf)"

subsection \<open>The other encodings\<close>

definition asciiToBytes :: "jsstring \<Rightarrow> buffer" where
  "asciiToBytes str = map (\<lambda>c. js_and (int c) 0xFF) str"

definition asciiSlice :: "buffer \<Rightarrow> nat \<Rightarrow> nat \<Rightarrow> jsstring" where
  "asciiSlice buf start end = map (\<lambda>b. nat (js_and b 0x7F)) (substring start (min (length buf) end) buf)"

definition binarySlice :: "buffer \<Rightarrow> nat \<Rightarrow> nat \<Rightarrow> jsstring" where
  "binarySlice buf start end = map nat (substring start (min (length buf) end) buf)"

text \<open>There is no default for \<^verbatim>\<open>units\<close> here: without a limit it is \<^verbatim>\<open>NaN\<close>, and \<^verbatim>\<open>NaN < 0\<close> is false.\<close>

fun utf16leToBytes :: "jsstring \<Rightarrow> int option \<Rightarrow> buffer" where
  "utf16leToBytes [] units = []"
| "utf16leToBytes (c # cs) units =
     (let left = spend 2 units
      in if enough left then [int c mod 256, js_sar (int c) 8] @ utf16leToBytes cs left else [])"

text \<open>
  The bytes from \<open>start\<close> to \<open>end\<close> in pairs. Behind the last byte of an odd number there is \<^verbatim>\<open>undefined\<close>, and
  \<^verbatim>\<open>String.fromCharCode(NaN)\<close> is the character 0.
\<close>

fun utf16le_units :: "buffer \<Rightarrow> jsstring" where
  "utf16le_units [] = []"
| "utf16le_units [x] = [0]"
| "utf16le_units (x # y # bs) = nat (x + y * 256) # utf16le_units bs"

definition utf16leSlice :: "buffer \<Rightarrow> nat \<Rightarrow> nat \<Rightarrow> jsstring" where
  "utf16leSlice buf start end = utf16le_units (substring start end buf)"

definition toHex :: "int \<Rightarrow> jsstring" where
  "toHex n = (if n < 16 then js ''0'' @ byte_to_string16 n else byte_to_string16 n)"

definition hexSlice :: "buffer \<Rightarrow> nat \<Rightarrow> nat \<Rightarrow> jsstring" where
  "hexSlice buf start end =
     (let len = length buf; end = (if end = 0 \<or> end > len then len else end)
      in concat (map toHex (substring start end buf)))"

text \<open>
  \<^verbatim>\<open>parseInt(s, 16)\<close>: white space, a sign and \<^verbatim>\<open>0x\<close> in front are skipped, and the longest sequence of digits
  is read; \<open>None\<close> is \<^verbatim>\<open>NaN\<close>.
\<close>

definition white :: "code_unit \<Rightarrow> bool" where
  "white c \<longleftrightarrow> (9 \<le> c \<and> c \<le> 13) \<or> c = 32 \<or> c = 160 \<or> c = 0x1680 \<or> (0x2000 \<le> c \<and> c \<le> 0x200A)
     \<or> c \<in> {0x2028, 0x2029, 0x202F, 0x205F, 0x3000, 0xFEFF}"

definition parsed_hex :: "jsstring \<Rightarrow> int option" where
  "parsed_hex s =
     (let s = (if take 2 s = js ''0x'' \<or> take 2 s = js ''0X'' then drop 2 s else s);
          digits = takeWhile (\<lambda>c. byte_digit c \<noteq> None) s
      in if digits = [] then None else Some (foldl (\<lambda>v c. 16 * v + int (the (byte_digit c))) 0 digits))"

definition parseInt16 :: "jsstring \<Rightarrow> int option" where
  "parseInt16 s =
     (let s = dropWhile white s
      in if take 1 s = js ''-'' then map_option uminus (parsed_hex (drop 1 s))
         else if take 1 s = js ''+'' then parsed_hex (drop 1 s) else parsed_hex s)"

text \<open>The bytes that a loop has stored before it throws stay stored: the result has the buffer beside it.\<close>

fun hex_write_loop :: "jsstring \<Rightarrow> nat \<Rightarrow> nat \<Rightarrow> nat \<Rightarrow> buffer \<Rightarrow> nat res \<times> buffer" where
  "hex_write_loop str offset 0 i buf = (Inr i, buf)"
| "hex_write_loop str offset (Suc n) i buf =
     (case parseInt16 (take 2 (drop (2 * i) str)) of
        None \<Rightarrow> (Inl (Error (js ''Invalid hex string'')), buf)
      | Some parsed \<Rightarrow> hex_write_loop str offset n (Suc i) (put (int (offset + i)) parsed buf))"

text \<open>A length, where \<open>None\<close> is \<^verbatim>\<open>NaN\<close> or not given.\<close>

definition hexWrite :: "buffer \<Rightarrow> jsstring \<Rightarrow> nat \<Rightarrow> nat option \<Rightarrow> nat res \<times> buffer" where
  "hexWrite buf str offset len =
     (let remaining = length buf - offset;
          len = (case len of None \<Rightarrow> remaining | Some n \<Rightarrow> if n = 0 then remaining else min n remaining);
          strLen = length str
      in if strLen mod 2 \<noteq> 0 then (Inl (Error (js ''Invalid hex string'')), buf)
         else hex_write_loop str offset (min len (strLen div 2)) 0 buf)"

subsection \<open>Copying bytes in\<close>

fun blit_loop :: "buffer \<Rightarrow> nat \<Rightarrow> nat \<Rightarrow> nat \<Rightarrow> buffer \<Rightarrow> nat \<times> buffer" where
  "blit_loop src offset 0 i dst = (i, dst)"
| "blit_loop src offset (Suc n) i dst =
     (if i + offset \<ge> length dst \<or> i \<ge> length src then (i, dst)
      else blit_loop src offset n (Suc i) (put (int (i + offset)) (src ! i) dst))"

definition blitBuffer :: "buffer \<Rightarrow> buffer \<Rightarrow> nat \<Rightarrow> nat option \<Rightarrow> nat \<times> buffer" where
  "blitBuffer src dst offset len = (case len of None \<Rightarrow> (0, dst) | Some n \<Rightarrow> blit_loop src offset n 0 dst)"

definition blit_result :: "buffer res \<Rightarrow> buffer \<Rightarrow> nat \<Rightarrow> nat option \<Rightarrow> nat res \<times> buffer" where
  "blit_result src buf offset len =
     (case src of Inl e \<Rightarrow> (Inl e, buf) | Inr bytes \<Rightarrow> let (n, dst) = blitBuffer bytes buf offset len in (Inr n, dst))"

definition utf8Write :: "buffer \<Rightarrow> jsstring \<Rightarrow> nat \<Rightarrow> nat option \<Rightarrow> nat res \<times> buffer" where
  "utf8Write buf str offset len =
     blit_result (utf8ToBytes str (Some (int (length buf) - int offset))) buf offset len"

definition asciiWrite :: "buffer \<Rightarrow> jsstring \<Rightarrow> nat \<Rightarrow> nat option \<Rightarrow> nat res \<times> buffer" where
  "asciiWrite buf str offset len = blit_result (Inr (asciiToBytes str)) buf offset len"

definition binaryWrite :: "buffer \<Rightarrow> jsstring \<Rightarrow> nat \<Rightarrow> nat option \<Rightarrow> nat res \<times> buffer" where
  "binaryWrite buf str offset len = asciiWrite buf str offset len"

definition utf16leWrite :: "buffer \<Rightarrow> jsstring \<Rightarrow> nat \<Rightarrow> nat option \<Rightarrow> nat res \<times> buffer" where
  "utf16leWrite buf str offset len =
     blit_result (Inr (utf16leToBytes str (Some (int (length buf) - int offset)))) buf offset len"

subsection \<open>Base 64\<close>

text \<open>The characters that are kept: the range \<^verbatim>\<open>A-z\<close> has more in it than letters.\<close>

definition base64_char :: "code_unit \<Rightarrow> bool" where
  "base64_char c \<longleftrightarrow> c = 43 \<or> c = 47 \<or> (48 \<le> c \<and> c \<le> 57) \<or> (65 \<le> c \<and> c \<le> 122) \<or> c = 45"

definition stringtrim :: "jsstring \<Rightarrow> jsstring" where
  "stringtrim str = rev (dropWhile white (rev (dropWhile white str)))"

definition pad_base64 :: "jsstring \<Rightarrow> jsstring" where
  "pad_base64 str = str @ replicate ((4 - length str mod 4) mod 4) 61"

definition base64clean :: "jsstring \<Rightarrow> jsstring" where
  "base64clean str =
     (let str = filter base64_char (stringtrim str) in if length str < 2 then [] else pad_base64 str)"

definition base64ToBytes :: "jsstring \<Rightarrow> buffer res" where
  "base64ToBytes str = b64ToByteArray (base64clean str)"

definition base64Write :: "buffer \<Rightarrow> jsstring \<Rightarrow> nat \<Rightarrow> nat option \<Rightarrow> nat res \<times> buffer" where
  "base64Write buf str offset len = blit_result (base64ToBytes str) buf offset len"

definition base64Slice :: "buffer \<Rightarrow> nat \<Rightarrow> nat \<Rightarrow> jsstring" where
  "base64Slice buf start end =
     (if start = 0 \<and> end = length buf then uint8ToBase64 buf else uint8ToBase64 (substring start end buf))"

end
