(* ===== verification/BufferUtf8.thy ===== *)
theory BufferUtf8
  imports BufferCodecs
begin

text \<open>
  What the codecs of \<open>BufferCodecs\<close> guarantee: the UTF-8 codec against the code points of a string, and round
  trips of the other encodings.
\<close>

subsection \<open>Code points\<close>

definition lead_unit :: "code_unit \<Rightarrow> bool" where "lead_unit c \<longleftrightarrow> 0xD800 \<le> c \<and> c < 0xDC00"
definition trail_unit :: "code_unit \<Rightarrow> bool" where "trail_unit c \<longleftrightarrow> 0xDC00 \<le> c \<and> c < 0xE000"

abbreviation surrogate :: "code_unit \<Rightarrow> bool" where "surrogate c \<equiv> lead_unit c \<or> trail_unit c"

definition lone :: "code_unit \<Rightarrow> nat" where "lone c = (if surrogate c then 0xFFFD else c)"

definition pair_point :: "code_unit \<Rightarrow> code_unit \<Rightarrow> nat" where
  "pair_point a b = 0x10000 + (a - 0xD800) * 0x400 + (b - 0xDC00)"

text \<open>The code points of a string, with U+FFFD for every surrogate that is not in a pair.\<close>

fun code_points :: "jsstring \<Rightarrow> nat list" where
  "code_points [] = []"
| "code_points [c] = [lone c]"
| "code_points (a # b # cs) =
     (if lead_unit a \<and> trail_unit b then pair_point a b # code_points cs else lone a # code_points (b # cs))"

text \<open>The string with U+FFFD in the place of every surrogate that is not in a pair.\<close>

fun toWellFormed :: "jsstring \<Rightarrow> jsstring" where
  "toWellFormed [] = []"
| "toWellFormed [c] = [lone c]"
| "toWellFormed (a # b # cs) =
     (if lead_unit a \<and> trail_unit b then a # b # toWellFormed cs else lone a # toWellFormed (b # cs))"

definition scalar :: "nat \<Rightarrow> bool" where "scalar v \<longleftrightarrow> v < 0x110000 \<and> \<not> surrogate v"

definition units16 :: "jsstring \<Rightarrow> bool" where "units16 s \<longleftrightarrow> (\<forall>c \<in> set s. c < 0x10000)"

lemma scalar_lone: "c < 0x10000 \<Longrightarrow> scalar (lone c)"
  by (auto simp: scalar_def lone_def lead_unit_def trail_unit_def)

lemma scalar_pair: "\<lbrakk>lead_unit a; trail_unit b\<rbrakk> \<Longrightarrow> scalar (pair_point a b) \<and> 0x10000 \<le> pair_point a b"
  by (auto simp: scalar_def pair_point_def lead_unit_def trail_unit_def)

lemma scalar_code_points: "units16 s \<Longrightarrow> \<forall>v \<in> set (code_points s). scalar v"
  by (induction s rule: code_points.induct) (auto simp: units16_def scalar_lone scalar_pair)

lemma utf16_lone: "c < 0x10000 \<Longrightarrow> utf16_units (lone c) = [lone c]"
  by (auto simp: utf16_units_def lone_def)

lemma utf16_pair:
  assumes "lead_unit a" and "trail_unit b"
  shows "utf16_units (pair_point a b) = [a, b]"
proof -
  have "pair_point a b - 0x10000 = (a - 0xD800) * 0x400 + (b - 0xDC00)" by (simp add: pair_point_def)
  moreover have b: "b - 0xDC00 < 0x400" using assms(2) by (auto simp: trail_unit_def)
  have "((a - 0xD800) * 0x400 + (b - 0xDC00)) div 0x400 = a - 0xD800"
    "((a - 0xD800) * 0x400 + (b - 0xDC00)) mod 0x400 = b - 0xDC00"
    using b by (subst add.commute, simp)+
  moreover have "\<not> pair_point a b < 0x10000" by (simp add: pair_point_def)
  ultimately show ?thesis using assms unfolding utf16_units_def by (simp only:) (simp add: lead_unit_def trail_unit_def)
qed

lemma code_points_utf16: "units16 s \<Longrightarrow> concat (map utf16_units (code_points s)) = toWellFormed s"
  by (induction s rule: code_points.induct) (auto simp: units16_def utf16_lone utf16_pair)

subsection \<open>The bytes of a code point\<close>

definition utf8 :: "nat \<Rightarrow> nat list" where
  "utf8 v =
     (if v < 0x80 then [v]
      else if v < 0x800 then [0xC0 + v div 64, 0x80 + v mod 64]
      else if v < 0x10000 then [0xE0 + v div 4096, 0x80 + v div 64 mod 64, 0x80 + v mod 64]
      else [0xF0 + v div 262144, 0x80 + v div 4096 mod 64, 0x80 + v div 64 mod 64, 0x80 + v mod 64])"

lemma or_mark: "\<lbrakk>0 \<le> x; x < 2 ^ k; 2 ^ k dvd m; 0 \<le> m; x + m < 2 ^ 31\<rbrakk> \<Longrightarrow> js_or x m = m + x"
  by (subst js_or_comm, rule or_small) auto

lemma or_continuation: "js_or (js_and x 0x3F) 0x80 = 0x80 + x mod 64"
proof -
  have "0 \<le> x mod 64" "x mod 64 < 64" by simp_all
  then show ?thesis unfolding and_63 by (intro or_mark [where k = 6]) auto
qed

lemma encode_utf8_eq:
  assumes "v < 0x110000"
  shows "encode_utf8 (int v) = Inr (map int (utf8 v))"
proof -
  have s: "js_sar (int v) n = int v div 2 ^ n" if "n < 32" for n
    using assms that by (intro sar_small) auto
  have c: "js_or (js_and (int x) 0x3F) 0x80 = int (0x80 + x mod 64)" for x
    unfolding or_continuation by (simp add: zmod_int)
  have d: "int v div 64 = int (v div 64)" "int v div 4096 = int (v div 4096)" "int v div 262144 = int (v div 262144)"
    by (simp_all add: zdiv_int)
  have l: "js_or (int x) 0xC0 = int (0xC0 + x)" if "x < 32" for x
    using that by (subst or_mark [where k = 5]) auto
  have m: "js_or (int x) 0xE0 = int (0xE0 + x)" if "x < 16" for x
    using that by (subst or_mark [where k = 4]) auto
  have n: "js_or (int x) 0xF0 = int (0xF0 + x)" if "x < 8" for x
    using that by (subst or_mark [where k = 3]) auto
  consider "v < 0x80" | "0x80 \<le> v" "v < 0x800" | "0x800 \<le> v" "v < 0x10000" | "0x10000 \<le> v" by linarith
  then show ?thesis
  proof cases
    case 2
    then have "v div 64 < 32" by auto
    with 2 show ?thesis unfolding encode_utf8_def utf8_def by (simp add: s d c l del: of_nat_add of_nat_mod)
  next
    case 3
    then have "v div 4096 < 16" by auto
    with 3 show ?thesis unfolding encode_utf8_def utf8_def by (simp add: s d c m del: of_nat_add of_nat_mod)
  next
    case 4
    then have "v div 262144 < 8" using assms by auto
    with 4 assms show ?thesis unfolding encode_utf8_def utf8_def by (simp add: s d c n del: of_nat_add of_nat_mod)
  qed (simp add: encode_utf8_def utf8_def)
qed

subsection \<open>Encoding a string\<close>

lemma no_limit [simp]: "spend k None = None" "enough None" "replacement None = [0xEF, 0xBF, 0xBD]"
  by (simp_all add: spend_def enough_def replacement_def)

lemma push_code_eq:
  "v < 0x110000 \<Longrightarrow> push_code None (int v) rest = mapR (append (map int (utf8 v))) (rest None)"
  by (simp add: push_code_def encode_utf8_eq)

lemma replacement_bytes: "[0xEF, 0xBF, 0xBD] = map int (utf8 0xFFFD)"
  by (simp add: utf8_def)

lemma or_bit16:
  fixes t :: int
  assumes "0 \<le> t" and "t < 2 ^ 20"
  shows "js_or t 0x10000 = t + (if even (t div 0x10000) then 0x10000 else 0)"
proof -
  let ?r = "t mod 2 ^ 16" and ?q = "t div 2 ^ 16"
  have join: "?r OR a * 2 ^ 16 = ?r + a * 2 ^ 16" for a by (rule int_or_disjoint [where k = 16]) auto
  have "t = ?r OR ?q * 2 ^ 16" unfolding join by simp
  then have "t OR 2 ^ 16 = ?r OR (?q * 2 ^ 16 OR 2 ^ 16)" by (metis or.assoc)
  also have "?q * 2 ^ 16 OR 2 ^ 16 = (?q OR 1) * 2 ^ 16"
    by (metis mult_1 push_bit_eq_mult push_bit_or)
  also have "?r OR (?q OR 1) * 2 ^ 16 = ?r + (?q OR 1) * 2 ^ 16" by (rule join)
  also have "?q OR 1 = ?q + (if even ?q then 1 else 0)" by (simp add: or_one_eq)
  also have "?r + (?q + (if even ?q then 1 else 0)) * 2 ^ 16 = t + (if even ?q then 2 ^ 16 else 0)"
    using div_mult_mod_eq [of t "2 ^ 16"] by (simp add: algebra_simps)
  finally have o: "t OR 2 ^ 16 = t + (if even ?q then 2 ^ 16 else 0)" .
  have "js_or t (2 ^ 16) = t OR 2 ^ 16"
  proof -
    have "int32 t OR int32 (2 ^ 16) = int32 (t OR 2 ^ 16)"
      by (rule bit_word_eqI) (simp add: int32_def bit_or_iff bit_word_of_int_iff)
    then show ?thesis unfolding js_or_def using assms by (simp only: o) (rule sint_int32_small, auto)
  qed
  with o show ?thesis by simp
qed

text \<open>
  A pair is put together with \<^verbatim>\<open>|\<close> where \<^verbatim>\<open>+\<close> is meant: in every other plane the bit of 0x10000 is already
  set, and the code point comes out one plane too low.
\<close>

definition encoded_as :: "nat \<Rightarrow> nat" where
  "encoded_as v = (if v < 0x10000 \<or> odd (v div 0x10000) then v else v - 0x10000)"

lemma surrogate_pair_point:
  assumes "lead_unit a" and "trail_unit b"
  shows "js_or (js_or (js_shl (int a - 0xD800) 10) (int b - 0xDC00)) 0x10000 = int (encoded_as (pair_point a b))"
proof -
  define t where "t = (a - 0xD800) * 0x400 + (b - 0xDC00)"
  let ?a = "int a - 0xD800" and ?b = "int b - 0xDC00"
  have b: "0 \<le> ?a" "?a < 1024" "0 \<le> ?b" "?b < 1024" using assms by (auto simp: lead_unit_def trail_unit_def)
  have s: "js_shl ?a 10 = ?a * 1024" using b shl_small [of ?a 10] by simp
  have o1: "js_or (?a * 1024) ?b = ?a * 1024 + ?b" using b by (intro or_small [where k = 10]) auto
  have t: "?a * 1024 + ?b = int t" "t < 2 ^ 20"
    using assms by (auto simp: t_def lead_unit_def trail_unit_def of_nat_diff)
  have v: "pair_point a b = 0x10000 + t" by (simp add: pair_point_def t_def)
  have p: "(0x10000 + t) div 0x10000 = Suc (t div 0x10000)" by simp
  have d: "int t div 0x10000 = int (t div 0x10000)" by (simp add: zdiv_int)
  have "js_or (int t) 0x10000 = int (encoded_as (0x10000 + t))"
    using or_bit16 [of "int t"] t(2) p d by (auto simp: encoded_as_def)
  then show ?thesis unfolding s o1 t(1) v .
qed

fun ends_in_leads :: "jsstring \<Rightarrow> bool" where
  "ends_in_leads [] = False"
| "ends_in_leads [c] = False"
| "ends_in_leads (a # b # cs) = (if cs = [] then lead_unit a \<and> lead_unit b else ends_in_leads (b # cs))"

lemma ends_in_leads_Cons: "ends_in_leads s \<Longrightarrow> ends_in_leads (c # s)"
  by (cases s rule: ends_in_leads.cases) auto

lemma units16_Cons: "units16 (c # s) \<longleftrightarrow> c < 0x10000 \<and> units16 s"
  by (auto simp: units16_def)

definition encoded :: "jsstring \<Rightarrow> buffer" where
  "encoded s = concat (map (\<lambda>v. map int (utf8 (encoded_as v))) (code_points s))"

lemma encoded_as_small [simp]: "v < 0x10000 \<Longrightarrow> encoded_as v = v"
  by (simp add: encoded_as_def)

lemma encoded_lone:
  assumes "c < 0x10000"
  shows "map int (utf8 (encoded_as (lone c))) = (if surrogate c then [0xEF, 0xBF, 0xBD] else map int (utf8 c))"
  using assms by (simp add: lone_def replacement_bytes)

lemma encoded_as_bound: "scalar v \<Longrightarrow> encoded_as v < 0x110000"
  by (auto simp: encoded_as_def scalar_def)

lemma encoded_Nil [simp]: "encoded [] = []"
  by (simp add: encoded_def)

lemma encoded_pair:
  "\<lbrakk>lead_unit a; trail_unit b\<rbrakk> \<Longrightarrow> encoded (a # b # cs) = map int (utf8 (encoded_as (pair_point a b))) @ encoded cs"
  by (simp add: encoded_def)

lemma encoded_unpaired:
  assumes "\<not> (lead_unit a \<and> cs \<noteq> [] \<and> trail_unit (hd cs))"
  shows "encoded (a # cs) = map int (utf8 (encoded_as (lone a))) @ encoded cs"
  using assms by (cases cs) (auto simp: encoded_def)

lemma trail_not_lead: "trail_unit c \<Longrightarrow> \<not> lead_unit c"
  by (simp add: lead_unit_def trail_unit_def)

lemma surrogate_range: "surrogate c \<longleftrightarrow> c > 0xD7FF \<and> c < 0xE000"
  by (auto simp: lead_unit_def trail_unit_def)

lemma push_pair:
  assumes "lead_unit a" and "trail_unit b"
  shows "push_code None (js_or (js_or (js_shl (int a - 0xD800) 10) (int b - 0xDC00)) 0x10000) rest
    = mapR (append (map int (utf8 (encoded_as (pair_point a b))))) (rest None)"
  unfolding surrogate_pair_point [OF assms]
  by (rule push_code_eq) (use scalar_pair [OF assms] encoded_as_bound in blast)

text \<open>The loop, with the tests for surrogates as such.\<close>

lemma utf8_loop_Cons:
  assumes "c < 0x10000"
  shows "utf8_loop None None (c # cs) =
      (if lead_unit c \<and> cs \<noteq> [] then utf8_loop None (Some (int c)) cs
       else mapR (append (map int (utf8 (lone c)))) (utf8_loop None None cs))"
    and "lead_unit l \<Longrightarrow> utf8_loop None (Some (int l)) (c # cs) =
      (if lead_unit c then mapR (append (map int (utf8 0xFFFD))) (utf8_loop None (Some (int c)) cs)
       else if trail_unit c then
         mapR (append (map int (utf8 (encoded_as (pair_point l c))))) (utf8_loop None None cs)
       else mapR (append (map int (utf8 0xFFFD @ utf8 c))) (utf8_loop None None cs))"
proof -
  have r: "surrogate c \<Longrightarrow> \<not> (c < 0xDC00) \<longleftrightarrow> trail_unit c" by (auto simp: lead_unit_def trail_unit_def)
  show "utf8_loop None None (c # cs) =
      (if lead_unit c \<and> cs \<noteq> [] then utf8_loop None (Some (int c)) cs
       else mapR (append (map int (utf8 (lone c)))) (utf8_loop None None cs))"
    using assms r trail_not_lead [of c]
    by (auto simp: surrogate_range [symmetric] lone_def push_code_eq replacement_bytes [symmetric])
  assume l: "lead_unit l"
  show "utf8_loop None (Some (int l)) (c # cs) =
      (if lead_unit c then mapR (append (map int (utf8 0xFFFD))) (utf8_loop None (Some (int c)) cs)
       else if trail_unit c then
         mapR (append (map int (utf8 (encoded_as (pair_point l c))))) (utf8_loop None None cs)
       else mapR (append (map int (utf8 0xFFFD @ utf8 c))) (utf8_loop None None cs))"
    using assms r trail_not_lead [of c] push_pair [OF l, of c]
    by (auto simp: surrogate_range [symmetric] push_code_eq replacement_bytes [symmetric] mapR_def split: sum.splits)
qed

declare utf8_loop.simps(2) [simp del]

text \<open>The loop with no limit gives the bytes of the code points, with or without a lead surrogate before.\<close>

lemma utf8_loop_encoded:
  assumes "units16 s"
  shows "\<not> ends_in_leads s \<Longrightarrow> utf8_loop None None s = Inr (encoded s)"
    and "\<lbrakk>lead_unit l; s \<noteq> []; \<not> ends_in_leads (l # s)\<rbrakk> \<Longrightarrow> utf8_loop None (Some (int l)) s = Inr (encoded (l # s))"
  using assms
proof (induction s arbitrary: l)
  case Nil
  { case 1 then show ?case by simp }
  { case 2 then show ?case by simp }
next
  case (Cons c cs)
  { case 1
    then have u: "c < 0x10000" "units16 cs" "\<not> ends_in_leads cs" using ends_in_leads_Cons by (auto simp: units16_Cons)
    show ?case
    proof (cases "lead_unit c \<and> cs \<noteq> []")
      case True
      then show ?thesis using Cons.IH(2) [of c] 1 u by (simp add: utf8_loop_Cons)
    next
      case False
      then have "encoded (c # cs) = map int (utf8 (lone c)) @ encoded cs"
        by (subst encoded_unpaired) (auto simp: lone_def u)
      then show ?thesis using Cons.IH(1) u False by (auto simp: utf8_loop_Cons)
    qed }
  { case 2
    then have u: "c < 0x10000" "units16 cs" "\<not> ends_in_leads cs" "\<not> ends_in_leads (c # cs)"
      using ends_in_leads_Cons [of cs c] ends_in_leads_Cons [of "c # cs" l]
      by (auto simp: units16_Cons simp del: ends_in_leads.simps)
    have e: "\<not> trail_unit c \<Longrightarrow> encoded (l # c # cs) = map int (utf8 0xFFFD) @ encoded (c # cs)"
      using 2 by (subst encoded_unpaired) (auto simp: lone_def)
    consider "lead_unit c" | "trail_unit c" | "\<not> surrogate c" by blast
    then show ?case
    proof cases
      case 1
      then have "cs \<noteq> []" "\<not> trail_unit c" using 2 trail_not_lead by auto
      then show ?thesis using Cons.IH(2) [of c] 1 2 u e by (simp add: utf8_loop_Cons)
    next
      case c: 2
      then show ?thesis using Cons.IH(1) 2 u trail_not_lead by (auto simp: utf8_loop_Cons encoded_pair)
    next
      case 3
      then have "encoded (c # cs) = map int (utf8 c) @ encoded cs"
        by (subst encoded_unpaired) (auto simp: lone_def u)
      then show ?thesis using Cons.IH(1) 2 u e 3 by (auto simp: utf8_loop_Cons)
    qed }
qed

lemma utf8ToBytes_encoded: "\<lbrakk>units16 s; \<not> ends_in_leads s\<rbrakk> \<Longrightarrow> utf8ToBytes s None = Inr (encoded s)"
  by (simp add: utf8ToBytes_def utf8_loop_encoded)

subsection \<open>Decoding\<close>

lemma byte_digit_char: "d < 16 \<Longrightarrow> byte_digit (byte_char d) = Some d"
  by (auto simp: byte_digit_def byte_char_def)

lemma escape_byte:
  "\<lbrakk>16 \<le> b; b < 256\<rbrakk> \<Longrightarrow> js ''%'' @ byte_to_string16 (int b) = [37, byte_char (b div 16), byte_char (b mod 16)]"
  by (simp add: byte_to_string16_def js_eval)

lemma escaped_octet_byte: "b < 256 \<Longrightarrow> escaped_octet (37 # byte_char (b div 16) # byte_char (b mod 16) # s) = Some b"
  by (simp add: byte_digit_char)

definition escapes :: "nat list \<Rightarrow> jsstring" where
  "escapes bs = concat (map (\<lambda>b. js ''%'' @ byte_to_string16 (int b)) bs)"

lemma escapes_simps [simp]:
  "escapes [] = []" "escapes (bs @ cs) = escapes bs @ escapes cs"
  "\<lbrakk>16 \<le> b; b < 256\<rbrakk> \<Longrightarrow> escapes (b # bs) = [37, byte_char (b div 16), byte_char (b mod 16)] @ escapes bs"
  by (simp_all add: escapes_def escape_byte [symmetric])

lemma utf8_above:
  "\<lbrakk>0x80 \<le> v; v < 0x110000; b \<in> set (utf8 v)\<rbrakk> \<Longrightarrow> 0x80 \<le> b \<and> b < 256"
  by (auto simp: utf8_def split: if_splits)

lemma continuation_octet:
  assumes "b < 64" and "0 < n"
  shows "continuation n v (37 # byte_char ((0x80 + b) div 16) # byte_char ((0x80 + b) mod 16) # s)
    = continuation (n - 1) (64 * v + b) s"
proof -
  obtain m where "n = Suc m" using assms(2) gr0_implies_Suc by blast
  then show ?thesis using assms(1) by (simp only: continuation.simps escaped_octet_byte) simp
qed

lemmas decode_octets = decode_sequence_def escaped_octet_byte continuation_octet sequence_length_def lead_bits_def shortest_def

lemma join_64: "64 * (v div 64) + v mod 64 = (v :: nat)"
  by simp

lemma decode_utf8:
  assumes "scalar v" and "0x80 \<le> v"
  shows "decode_sequence (escapes (utf8 v) @ s) = Some (length (escapes (utf8 v)), utf16_units v)"
proof -
  have v: "v < 0x110000" using assms by (simp add: scalar_def)
  have d: "v div 4096 = v div 64 div 64" "v div 262144 = v div 64 div 64 div 64" by (simp_all add: div_mult2_eq [symmetric])
  note simps = decode_octets utf8_def
  consider "v < 0x800" | "0x800 \<le> v" "v < 0x10000" | "0x10000 \<le> v" by linarith
  then show ?thesis
  proof cases
    case 1
    have "v div 64 < 32" using 1 by auto
    then show ?thesis using 1 assms(2)
      by (simp add: simps join_64 del: escaped_octet.simps continuation.simps(2))
  next
    case 2
    have "v div 4096 < 16" using 2 by auto
    moreover have "64 * (64 * (v div 4096) + v div 64 mod 64) + v mod 64 = v" unfolding d by (simp add: join_64)
    ultimately show ?thesis using 2 assms
      by (simp add: simps scalar_def surrogate_range del: escaped_octet.simps continuation.simps(2))
  next
    case 3
    have "v div 262144 < 8" using v by auto
    moreover have "64 * (64 * (64 * (v div 262144) + v div 4096 mod 64) + v div 64 mod 64) + v mod 64 = v"
      unfolding d by (simp add: join_64)
    ultimately show ?thesis using 3 v
      by (simp add: simps del: escaped_octet.simps continuation.simps(2))
  qed
qed

lemma decode_all:
  "\<forall>v \<in> set vs. scalar v \<and> 0x80 \<le> v \<Longrightarrow>
    decodeURIComponent (escapes (concat (map utf8 vs))) = Some (concat (map utf16_units vs))"
proof (induction vs)
  case (Cons v vs)
  let ?e = "escapes (utf8 v)" and ?r = "escapes (concat (map utf8 vs))"
  have v: "scalar v" "0x80 \<le> v" using Cons.prems by auto
  then have "v < 0x110000" by (simp add: scalar_def)
  then obtain b bs where "utf8 v = b # bs" "0x80 \<le> b" "b < 256"
    using utf8_above [OF v(2)] by (cases "utf8 v") (auto simp: utf8_def split: if_splits)
  then obtain e where e: "?e = 37 # e" by auto
  have "decodeURIComponent (?e @ ?r) = map_option (append (utf16_units v)) (decodeURIComponent (drop (length e) (e @ ?r)))"
    using decode_utf8 [OF v, of ?r] by (simp add: e del: utf16_units_def)
  then show ?case using Cons by simp
qed simp

lemma utf8_slice_loop_high:
  "\<forall>b \<in> set bs. 0x80 \<le> b \<and> b < 256 \<Longrightarrow> utf8_slice_loop tmp (map int bs @ rest) = utf8_slice_loop (tmp @ escapes bs) rest"
proof (induction bs arbitrary: tmp)
  case (Cons b bs)
  then show ?case by (auto simp: escape_byte)
qed simp

lemma utf8_slice_loop_encoded:
  assumes "\<forall>v \<in> set ws. scalar v" and "\<forall>v \<in> set vs. scalar v \<and> 0x80 \<le> v"
  shows "utf8_slice_loop (escapes (concat (map utf8 vs))) (concat (map (\<lambda>v. map int (utf8 v)) ws))
    = concat (map utf16_units (vs @ ws))"
  using assms
proof (induction ws arbitrary: vs)
  case Nil
  then show ?case by (simp add: decodeUtf8Char_def decode_all)
next
  case (Cons w ws)
  show ?case
  proof (cases "w < 0x80")
    case True
    then have "utf8 w = [w]" "utf16_units w = [w]" by (simp_all add: utf8_def utf16_units_def)
    then show ?thesis using Cons.IH [of "[]"] Cons.prems True by (simp add: decodeUtf8Char_def decode_all)
  next
    case False
    then have "\<forall>b \<in> set (utf8 w). 0x80 \<le> b \<and> b < 256" using Cons.prems utf8_above [of w] by (auto simp: scalar_def)
    then show ?thesis using Cons.IH [of "vs @ [w]"] Cons.prems False by (simp add: utf8_slice_loop_high)
  qed
qed

lemma scalar_encoded_as:
  assumes "scalar v"
  shows "scalar (encoded_as v)"
proof (cases "v < 0x10000 \<or> odd (v div 0x10000)")
  case False
  then obtain q where q: "v div 0x10000 = 2 * q" and "0x10000 \<le> v" by (auto elim: evenE)
  then have "1 \<le> q" by (cases q) auto
  with q have "0x20000 \<le> v" by linarith
  then show ?thesis using assms by (auto simp: encoded_as_def scalar_def lead_unit_def trail_unit_def)
qed (use assms in \<open>simp add: encoded_as_def\<close>)

text \<open>Encoding then decoding gives the code points as they were encoded.\<close>

lemma utf8Slice_encoded:
  assumes "units16 s"
  shows "utf8Slice (encoded s) 0 (length (encoded s)) = concat (map (\<lambda>v. utf16_units (encoded_as v)) (code_points s))"
proof -
  have "encoded s = concat (map (\<lambda>v. map int (utf8 v)) (map encoded_as (code_points s)))"
    by (simp add: encoded_def comp_def)
  moreover have "\<forall>v \<in> set (map encoded_as (code_points s)). scalar v"
    using scalar_code_points [OF assms] scalar_encoded_as by auto
  ultimately show ?thesis
    using utf8_slice_loop_encoded [of "map encoded_as (code_points s)" "[]"] by (simp add: utf8Slice_def comp_def)
qed

lemma utf8Slice_wellFormed:
  assumes "units16 s" and "\<forall>v \<in> set (code_points s). v < 0x10000 \<or> odd (v div 0x10000)"
  shows "utf8Slice (encoded s) 0 (length (encoded s)) = toWellFormed s"
proof -
  have "map (\<lambda>v. utf16_units (encoded_as v)) (code_points s) = map utf16_units (code_points s)"
    using assms(2) by (auto simp: encoded_as_def)
  then show ?thesis using utf8Slice_encoded [OF assms(1)] code_points_utf16 [OF assms(1)] by (simp del: map_eq_conv)
qed

lemma wf_utf8: "v < 0x110000 \<Longrightarrow> wf_buffer (map int (utf8 v))"
  using utf8_above [of v] by (cases "v < 0x80") (auto simp: wf_buffer_def utf8_def)

lemma wf_encoded:
  assumes "units16 s"
  shows "wf_buffer (encoded s)"
proof -
  have "wf_buffer (map int (utf8 (encoded_as v)))" if "v \<in> set (code_points s)" for v
    using scalar_code_points [OF assms] that encoded_as_bound wf_utf8 by blast
  then show ?thesis by (auto simp: encoded_def wf_buffer_def)
qed

text \<open>Two characters that are encoded alike: U+20000 comes out as U+10000.\<close>

lemma astral_planes_collide:
  "utf8ToBytes [0xD840, 0xDC00] None = Inr [0xF0, 0x90, 0x80, 0x80]"
  "utf8ToBytes [0xD800, 0xDC00] None = Inr [0xF0, 0x90, 0x80, 0x80]"
  by (simp_all add: utf8ToBytes_encoded units16_def lead_unit_def encoded_def trail_unit_def pair_point_def encoded_as_def utf8_def)

text \<open>Of two lead surrogates at the end, the second one is dropped.\<close>

lemma last_lead_dropped: "utf8ToBytes [0xD800, 0xD800] None = Inr [0xEF, 0xBF, 0xBD]"
  by (simp add: utf8ToBytes_def utf8_loop.simps(2))

subsection \<open>The other encodings\<close>

lemma put_within: "\<lbrakk>i < length b; 0 \<le> v; v < 256\<rbrakk> \<Longrightarrow> put (int i) v b = b[i := v]"
  by (simp add: put_def)

lemma fill_in: "length xs = i \<Longrightarrow> (xs @ replicate (Suc n) 0)[i := v] = (xs @ [v]) @ replicate n 0"
  by (simp add: list_update_append)

text \<open>Bytes that are written into a new buffer of their length fill it.\<close>

lemma blit_loop_all:
  assumes "wf_buffer src" and "i + n = length src"
  shows "blit_loop src 0 n i (take i src @ replicate n 0) = (length src, src)"
  using assms(2)
proof (induction n arbitrary: i)
  case (Suc n)
  have "0 \<le> src ! i" "src ! i < 256" using assms(1) Suc.prems by (auto simp: wf_buffer_def)
  then have "put (int i) (src ! i) (take i src @ replicate (Suc n) 0) = take (Suc i) src @ replicate n 0"
    using Suc.prems by (subst put_within) (auto simp: fill_in take_Suc_conv_app_nth simp del: replicate_Suc)
  then show ?case using Suc by simp
qed simp

lemma blit_all: "wf_buffer src \<Longrightarrow> blit_result (Inr src) (replicate (length src) 0) 0 (Some (length src)) = (Inr (length src), src)"
  using blit_loop_all [of src 0 "length src"] by (simp add: blit_result_def blitBuffer_def)

lemma toHex_chars: "\<lbrakk>0 \<le> b; b < 256\<rbrakk> \<Longrightarrow> toHex b = [byte_char (nat b div 16), byte_char (nat b mod 16)]"
  by (auto simp: toHex_def byte_to_string16_def js_eval byte_char_def)

lemma parseInt16_toHex:
  assumes "0 \<le> b" and "b < 256"
  shows "parseInt16 (toHex b) = Some b"
proof -
  define x y where "x = nat b div 16" and "y = nat b mod 16"
  have "nat b = 16 * x + y" by (simp add: x_def y_def)
  then have "b = int (16 * x + y)" using assms(1) by linarith
  then have xy: "16 * int x + int y = b" "x < 16" "y < 16" using assms by (simp, auto simp: x_def y_def)
  have h: "\<not> white (byte_char x)" "byte_char x \<noteq> 45" "byte_char x \<noteq> 43" "byte_char y \<noteq> 120" "byte_char y \<noteq> 88"
    using xy by (auto simp: white_def byte_char_def)
  show ?thesis
    unfolding toHex_chars [OF assms] x_def [symmetric] y_def [symmetric]
    using xy h by (simp add: parseInt16_def parsed_hex_def js_eval byte_digit_char)
qed

lemma length_hex_text: "wf_buffer bs \<Longrightarrow> length (concat (map toHex bs)) = 2 * length bs"
  by (induction bs) (auto simp: wf_buffer_def toHex_chars)

lemma nth_hex_text: "\<lbrakk>wf_buffer bs; i < length bs\<rbrakk> \<Longrightarrow> take 2 (drop (2 * i) (concat (map toHex bs))) = toHex (bs ! i)"
proof (induction bs arbitrary: i)
  case (Cons b bs)
  then show ?case by (cases i) (auto simp: wf_buffer_def toHex_chars)
qed simp

lemma hex_write_all:
  assumes "wf_buffer bs" and "i + n = length bs"
  shows "hex_write_loop (concat (map toHex bs)) 0 n i (take i bs @ replicate n 0) = (Inr (length bs), bs)"
  using assms(2)
proof (induction n arbitrary: i)
  case (Suc n)
  have b: "0 \<le> bs ! i" "bs ! i < 256" using assms(1) Suc.prems by (auto simp: wf_buffer_def)
  then have "put (int i) (bs ! i) (take i bs @ replicate (Suc n) 0) = take (Suc i) bs @ replicate n 0"
    using Suc.prems by (subst put_within) (auto simp: fill_in take_Suc_conv_app_nth simp del: replicate_Suc)
  then show ?case using Suc assms(1) b by (simp add: nth_hex_text parseInt16_toHex)
qed simp

lemma hexWrite_hexSlice:
  assumes "wf_buffer bs" and "bs \<noteq> []"
  shows "hexWrite (replicate (length bs) 0) (hexSlice bs 0 (length bs)) 0 (Some (length bs)) = (Inr (length bs), bs)"
  using hex_write_all [of bs 0 "length bs"] assms by (simp add: hexWrite_def hexSlice_def length_hex_text)

lemma binary_bytes: "wf_buffer bs \<Longrightarrow> asciiToBytes (binarySlice bs 0 (length bs)) = bs"
  by (induction bs) (auto simp: asciiToBytes_def binarySlice_def wf_buffer_def and_255)

lemma utf16le_bytes:
  assumes "wf_buffer bs" and "even (length bs)" and "units = None \<or> units = Some (int (length bs))"
  shows "utf16leToBytes (utf16le_units bs) units = bs"
  using assms
proof (induction bs arbitrary: units rule: utf16le_units.induct)
  case (3 x y bs)
  have b: "0 \<le> x" "x < 256" "0 \<le> y" "y < 256" using 3(2) by (auto simp: wf_buffer_def)
  have "js_sar (x + y * 256) 8 = y" using b sar_small [of "x + y * 256" 8] by simp
  moreover have "(x + y * 256) mod 256 = x" using b by simp
  ultimately show ?case using 3 b by (auto simp: spend_def enough_def wf_buffer_def)
qed auto

end
