(* ===== verification/BufferObjects.thy ===== *)
theory BufferObjects
  imports BufferCodecs
begin

text \<open>
  Buffers as objects. A buffer is a view of a part of an array of bytes (the augmented \<^verbatim>\<open>Uint8Array\<close> of
  \<^verbatim>\<open>Buffer.TYPED_ARRAY_SUPPORT\<close>); \<^verbatim>\<open>slice\<close> makes another view of the same array, so what is written through
  one is read through the other. The heap holds the arrays, and counts the buffers that were made, whose
  numbers stand for their identity.
\<close>

subsection \<open>Heap\<close>

datatype parent = No_parent | RootParent | Parent nat

record buf =
  identity :: nat
  storage :: nat
  byteOffset :: nat
  byteLength :: nat
  parent :: parent

record heap =
  arrays :: "buffer list"
  buffers :: nat

type_synonym 'a op = "heap \<Rightarrow> 'a res \<times> heap"

definition doneH :: "'a \<Rightarrow> 'a op" where "doneH x h = (Inr x, h)"
definition throwH :: "js_error \<Rightarrow> 'a op" where "throwH e h = (Inl e, h)"

definition bindH :: "'a op \<Rightarrow> ('a \<Rightarrow> 'b op) \<Rightarrow> 'b op" where
  "bindH m f h = (case m h of (Inl e, h) \<Rightarrow> (Inl e, h) | (Inr x, h) \<Rightarrow> f x h)"

definition contents :: "heap \<Rightarrow> buf \<Rightarrow> buffer" where
  "contents h b = substring (byteOffset b) (byteOffset b + byteLength b) (arrays h ! storage b)"

definition store_contents :: "buf \<Rightarrow> buffer \<Rightarrow> heap \<Rightarrow> heap" where
  "store_contents b c h =
     (let a = arrays h ! storage b
      in h\<lparr>arrays := (arrays h)[storage b := take (byteOffset b) a @ c @ drop (byteOffset b + byteLength b) a]\<rparr>)"

text \<open>\<^verbatim>\<open>buf[i] = v\<close>.\<close>

definition set_byte :: "buf \<Rightarrow> nat \<Rightarrow> int \<Rightarrow> heap \<Rightarrow> heap" where
  "set_byte b i v h =
     (if i < byteLength b
      then h\<lparr>arrays := (arrays h)[storage b := put (int (byteOffset b + i)) v (arrays h ! storage b)]\<rparr>
      else h)"

text \<open>\<^verbatim>\<open>Buffer._augment(new Uint8Array(n))\<close>, and \<^verbatim>\<open>Buffer._augment\<close> of a part of the array of a buffer.\<close>

definition allocate :: "nat \<Rightarrow> parent \<Rightarrow> buf op" where
  "allocate n p h =
     (Inr \<lparr>identity = buffers h, storage = length (arrays h), byteOffset = 0, byteLength = n, parent = p\<rparr>,
      h\<lparr>arrays := arrays h @ [replicate n 0], buffers := buffers h + 1\<rparr>)"

definition subarray :: "buf \<Rightarrow> nat \<Rightarrow> nat \<Rightarrow> parent \<Rightarrow> buf op" where
  "subarray b start end p h =
     (Inr \<lparr>identity = buffers h, storage = storage b, byteOffset = byteOffset b + start, byteLength = end - start,
        parent = p\<rparr>, h\<lparr>buffers := buffers h + 1\<rparr>)"

subsection \<open>Encodings by name\<close>

datatype encoding = Hex | Utf8 | Ascii | Binary | Base64 | Utf16le

definition encoding_named :: "jsstring \<Rightarrow> encoding option" where
  "encoding_named s =
     (if s = js ''hex'' then Some Hex
      else if s = js ''utf8'' \<or> s = js ''utf-8'' then Some Utf8
      else if s = js ''ascii'' then Some Ascii
      else if s = js ''binary'' then Some Binary
      else if s = js ''base64'' then Some Base64
      else if s = js ''ucs2'' \<or> s = js ''ucs-2'' \<or> s = js ''utf16le'' \<or> s = js ''utf-16le'' then Some Utf16le
      else None)"

text \<open>Lower case for the names: only ASCII letters are changed.\<close>

definition toLowerCase :: "jsstring \<Rightarrow> jsstring" where
  "toLowerCase s = map (\<lambda>c. if 65 \<le> c \<and> c \<le> 90 then c + 32 else c) s"

definition isEncoding :: "jsstring \<Rightarrow> bool" where
  "isEncoding encoding \<longleftrightarrow>
     encoding_named (toLowerCase encoding) \<noteq> None \<or> toLowerCase encoding = js ''raw''"

text \<open>\<open>encoding || 'utf8'\<close>.\<close>

definition encoding_or_utf8 :: "jsstring option \<Rightarrow> jsstring" where
  "encoding_or_utf8 e = (case e of None \<Rightarrow> js ''utf8'' | Some s \<Rightarrow> if s = [] then js ''utf8'' else s)"

definition buffer_byteLength :: "jsstring \<Rightarrow> jsstring option \<Rightarrow> nat res" where
  "buffer_byteLength str encoding =
     (case encoding_named (encoding_or_utf8 encoding) of
        Some Utf16le \<Rightarrow> Inr (length str * 2)
      | Some Hex \<Rightarrow> Inr (length str div 2)
      | Some Utf8 \<Rightarrow> mapR length (utf8ToBytes str None)
      | Some Base64 \<Rightarrow> mapR length (base64ToBytes str)
      | _ \<Rightarrow> Inr (length str))"

subsection \<open>Writing\<close>

text \<open>
  An argument that may be missing, a number, or a string that \<^verbatim>\<open>Number\<close> does not take for one, such as the
  name of an encoding.
\<close>

datatype arg = Missing | Number int | Text jsstring

definition isFinite :: "arg \<Rightarrow> bool" where
  "isFinite a = (case a of Number n \<Rightarrow> True | Text t \<Rightarrow> t = [] | Missing \<Rightarrow> False)"

text \<open>\<^verbatim>\<open>Number(a) || 0\<close>.\<close>

definition number_or_0 :: "arg \<Rightarrow> int" where
  "number_or_0 a = (case a of Number n \<Rightarrow> n | _ \<Rightarrow> 0)"

definition falsy :: "arg \<Rightarrow> bool" where
  "falsy a = (case a of Missing \<Rightarrow> True | Number n \<Rightarrow> n = 0 | Text t \<Rightarrow> t = [])"

definition arg_text :: "arg \<Rightarrow> jsstring" where
  "arg_text a = (if falsy a then js ''utf8'' else case a of Number n \<Rightarrow> js_of_int n | Text t \<Rightarrow> t | Missing \<Rightarrow> [])"

text \<open>The order of the arguments: the current one, or the legacy one with the encoding first.\<close>

definition write_arguments :: "arg \<Rightarrow> arg \<Rightarrow> arg \<Rightarrow> arg \<times> arg \<times> arg" where
  "write_arguments offset len encoding =
     (if isFinite offset then (if \<not> isFinite len then (offset, Missing, len) else (offset, len, encoding))
      else (len, encoding, offset))"

text \<open>\<^verbatim>\<open>length\<close> against the room that remains; \<open>None\<close> is \<^verbatim>\<open>NaN\<close>.\<close>

definition write_length :: "arg \<Rightarrow> nat \<Rightarrow> nat option" where
  "write_length len remaining =
     (if falsy len then Some remaining
      else case len of Number n \<Rightarrow> Some (min (nat n) remaining) | _ \<Rightarrow> None)"

definition write_encoded :: "encoding \<Rightarrow> buffer \<Rightarrow> jsstring \<Rightarrow> nat \<Rightarrow> nat option \<Rightarrow> nat res \<times> buffer" where
  "write_encoded e = (case e of Hex \<Rightarrow> hexWrite | Utf8 \<Rightarrow> utf8Write | Ascii \<Rightarrow> asciiWrite | Binary \<Rightarrow> binaryWrite
     | Base64 \<Rightarrow> base64Write | Utf16le \<Rightarrow> utf16leWrite)"

definition write_bytes :: "buffer \<Rightarrow> jsstring \<Rightarrow> arg \<Rightarrow> arg \<Rightarrow> arg \<Rightarrow> nat res \<times> buffer" where
  "write_bytes this str offset len encoding =
     (let (offset, len, encoding) = write_arguments offset len encoding;
          offset = number_or_0 offset
      in if (case len of Number n \<Rightarrow> n < 0 | _ \<Rightarrow> False) \<or> offset < 0 \<or> offset > int (length this)
         then (Inl (RangeError (js ''attempt to write outside buffer bounds'')), this)
         else
           let len = write_length len (length this - nat offset);
               encoding = toLowerCase (arg_text encoding)
           in case encoding_named encoding of
                None \<Rightarrow> (Inl (TypeError (js ''Unknown encoding: '' @ encoding)), this)
              | Some e \<Rightarrow> write_encoded e this str (nat offset) len)"

definition buffer_write :: "buf \<Rightarrow> jsstring \<Rightarrow> arg \<Rightarrow> arg \<Rightarrow> arg \<Rightarrow> nat op" where
  "buffer_write this str offset len encoding h =
     (let (r, c) = write_bytes (contents h this) str offset len encoding in (r, store_contents this c h))"

subsection \<open>Reading as text\<close>

definition slice_encoded :: "encoding \<Rightarrow> buffer \<Rightarrow> nat \<Rightarrow> nat \<Rightarrow> jsstring" where
  "slice_encoded e = (case e of Hex \<Rightarrow> hexSlice | Utf8 \<Rightarrow> utf8Slice | Ascii \<Rightarrow> asciiSlice | Binary \<Rightarrow> binarySlice
     | Base64 \<Rightarrow> base64Slice | Utf16le \<Rightarrow> utf16leSlice)"

text \<open>\<^verbatim>\<open>n >>> 0\<close>.\<close>

definition uint32 :: "int \<Rightarrow> nat" where "uint32 n = nat (js_shr n 0)"

definition bytes_toString :: "buffer \<Rightarrow> jsstring option \<Rightarrow> int option \<Rightarrow> int option \<Rightarrow> jsstring res" where
  "bytes_toString this encoding start end =
     (let start = (case start of None \<Rightarrow> 0 | Some n \<Rightarrow> uint32 n);
          end = (case end of None \<Rightarrow> length this | Some n \<Rightarrow> uint32 n);
          encoding = encoding_or_utf8 encoding;
          end = min end (length this)
      in if end \<le> start then Inr []
         else case encoding_named encoding of
           Some e \<Rightarrow> Inr (slice_encoded e this start end)
         | None \<Rightarrow>
             (case encoding_named (toLowerCase encoding) of
                Some e \<Rightarrow> Inr (slice_encoded e this start end)
              | None \<Rightarrow> Inl (TypeError (js ''Unknown encoding: '' @ toLowerCase encoding))))"

definition buffer_toString :: "buf \<Rightarrow> jsstring option \<Rightarrow> int option \<Rightarrow> int option \<Rightarrow> jsstring op" where
  "buffer_toString this encoding start end h = (bytes_toString (contents h this) encoding start end, h)"

definition INSPECT_MAX_BYTES :: nat where "INSPECT_MAX_BYTES = 50"

text \<open>\<^verbatim>\<open>match(/.{2}/g).join(' ')\<close>.\<close>

fun pairs_of :: "jsstring \<Rightarrow> jsstring list" where
  "pairs_of (a # b # s) = [a, b] # pairs_of s"
| "pairs_of s = []"

definition buffer_inspect :: "buf \<Rightarrow> jsstring op" where
  "buffer_inspect this h =
     (let c = contents h this
      in (bindR (if length c > 0
                 then mapR (\<lambda>s. join_with (js '' '') (pairs_of s)
                       @ (if length c > INSPECT_MAX_BYTES then js '' ... '' else []))
                   (bytes_toString c (Some (js ''hex'')) (Some 0) (Some (int INSPECT_MAX_BYTES)))
                 else Inr []) (\<lambda>str. Inr (js ''<Buffer '' @ str @ js ''>'')), h))"

definition buffer_toJSON :: "buf \<Rightarrow> (jsstring \<times> buffer) op" where
  "buffer_toJSON this h = (Inr (js ''Buffer'', contents h this), h)"

subsection \<open>Views\<close>

text \<open>\<^verbatim>\<open>~~n\<close>, and the index it gives: a negative one counts from the end, and it is kept within the buffer.\<close>

definition slice_index :: "int \<Rightarrow> nat \<Rightarrow> nat" where
  "slice_index n len =
     (let n = sint (int32 n)
      in if n < 0 then (if n + int len < 0 then 0 else nat (n + int len)) else if n > int len then len else nat n)"

definition slice_bounds :: "int option \<Rightarrow> int option \<Rightarrow> nat \<Rightarrow> nat \<times> nat" where
  "slice_bounds start end len =
     (let start = slice_index (case start of None \<Rightarrow> 0 | Some n \<Rightarrow> n) len;
          end = (case end of None \<Rightarrow> len | Some n \<Rightarrow> slice_index n len)
      in (start, if end < start then start else end))"

text \<open>\<open>newBuf.parent = this.parent || this\<close>, for a view that is not empty.\<close>

definition parent_or_this :: "buf \<Rightarrow> parent" where
  "parent_or_this this = (case parent this of No_parent \<Rightarrow> Parent (identity this) | p \<Rightarrow> p)"

definition buffer_slice :: "buf \<Rightarrow> int option \<Rightarrow> int option \<Rightarrow> buf op" where
  "buffer_slice this start end =
     (let (start, end) = slice_bounds start end (byteLength this)
      in subarray this start end (if end - start = 0 then No_parent else parent_or_this this))"

subsection \<open>Making buffers\<close>

text \<open>
  What the constructor is given. An element of an array may be no number (\<open>None\<close>), and so may the length of
  an object. \<open>Of_json\<close> is an object with the type \<^verbatim>\<open>'Buffer'\<close> and an array as data.
\<close>

datatype subject =
    Of_number int
  | Of_string jsstring
  | Of_buffer buf
  | Of_array "int option list"
  | Of_json "int option list"
  | Of_object "int option" "nat \<Rightarrow> int option"
  | Of_other

definition subject_length :: "subject \<Rightarrow> jsstring option \<Rightarrow> int option res" where
  "subject_length subject encoding =
     (case subject of
        Of_number n \<Rightarrow> Inr (Some n)
      | Of_string s \<Rightarrow> mapR (\<lambda>n. Some (int n)) (buffer_byteLength s encoding)
      | Of_buffer b \<Rightarrow> Inr (Some (int (byteLength b)))
      | Of_array xs \<Rightarrow> Inr (Some (int (length xs)))
      | Of_json xs \<Rightarrow> Inr (Some (int (length xs)))
      | Of_object n elems \<Rightarrow> Inr n
      | Of_other \<Rightarrow> Inl (TypeError (js ''must start with number, buffer, array or string'')))"

text \<open>The sign of a remainder is that of the dividend.\<close>

definition js_rem :: "int \<Rightarrow> int \<Rightarrow> int" where
  "js_rem a b = (if a < 0 then - ((- a) mod b) else a mod b)"

definition element_byte :: "int option \<Rightarrow> int" where
  "element_byte x = (case x of None \<Rightarrow> 0 | Some v \<Rightarrow> js_rem (js_rem v 256 + 256) 256)"

definition poolSize :: nat where "poolSize = 8192"

text \<open>What is stored in the new buffer.\<close>

definition init_buffer :: "subject \<Rightarrow> jsstring option \<Rightarrow> buf \<Rightarrow> unit op" where
  "init_buffer subject encoding b =
     (let put_all = (\<lambda>bs h. (Inr (), store_contents b bs h))
      in case subject of
           Of_buffer c \<Rightarrow> (\<lambda>h. put_all (contents h c) h)
         | Of_array xs \<Rightarrow> put_all (map element_byte xs)
         | Of_json xs \<Rightarrow> put_all (map element_byte xs)
         | Of_object (Some n) elems \<Rightarrow> put_all (map (element_byte \<circ> elems) [0..<byteLength b])
         | Of_string s \<Rightarrow>
             bindH (buffer_write b s (Number 0) (case encoding of None \<Rightarrow> Missing | Some e \<Rightarrow> Text e) Missing)
               (\<lambda>_. doneH ())
         | _ \<Rightarrow> doneH ())"

definition newBuffer :: "subject \<Rightarrow> jsstring option \<Rightarrow> buf op" where
  "newBuffer subject encoding h =
     (case subject_length subject encoding of
        Inl e \<Rightarrow> throwH e h
      | Inr len \<Rightarrow>
          let n = (case len of None \<Rightarrow> 0 | Some n \<Rightarrow> n) in
          if n > int kMaxLength
          then throwH (RangeError (js ''Attempt to allocate Buffer larger than maximum size: 0x3fffffff bytes'')) h
          else
            let size = nat n in
            bindH (allocate size (if 0 < size \<and> size \<le> poolSize then RootParent else No_parent))
              (\<lambda>b. bindH (init_buffer subject encoding b) (\<lambda>_. doneH b)) h)"

definition SlowBuffer :: "subject \<Rightarrow> jsstring option \<Rightarrow> buf op" where
  "SlowBuffer subject encoding = bindH (newBuffer subject encoding) (\<lambda>b. doneH (b\<lparr>parent := No_parent\<rparr>))"

text \<open>The array of the copy.\<close>

definition toArrayBuffer :: "buf \<Rightarrow> nat op" where
  "toArrayBuffer this = bindH (newBuffer (Of_buffer this) None) (\<lambda>b. doneH (storage b))"

subsection \<open>Copying and filling\<close>

text \<open>The loop reads from the array it writes to when both buffers are views of it.\<close>

fun copy_loop :: "buf \<Rightarrow> nat \<Rightarrow> buf \<Rightarrow> nat \<Rightarrow> nat \<Rightarrow> nat \<Rightarrow> heap \<Rightarrow> heap" where
  "copy_loop target target_start this start 0 i h = h"
| "copy_loop target target_start this start (Suc n) i h =
     copy_loop target target_start this start n (Suc i)
       (set_byte target (i + target_start) (contents h this ! (i + start)) h)"

definition copy_bytes :: "buf \<Rightarrow> nat \<Rightarrow> buf \<Rightarrow> nat \<Rightarrow> nat \<Rightarrow> heap \<Rightarrow> heap" where
  "copy_bytes target target_start this start len h =
     (if len < 1000 then copy_loop target target_start this start len 0 h
      else let c = contents h target
           in store_contents target
                (take target_start c @ substring start (start + len) (contents h this) @ drop (target_start + len) c) h)"

definition buffer_copy :: "buf \<Rightarrow> buf \<Rightarrow> int option \<Rightarrow> int option \<Rightarrow> int option \<Rightarrow> int op" where
  "buffer_copy this target target_start start end h =
     (let this_length = int (byteLength this); target_length = int (byteLength target);
          start = (case start of None \<Rightarrow> 0 | Some n \<Rightarrow> n);
          end = (case end of None \<Rightarrow> this_length | Some n \<Rightarrow> n);
          target_start = (case target_start of None \<Rightarrow> 0 | Some n \<Rightarrow> if n \<ge> target_length then target_length else n);
          end = (if end > 0 \<and> end < start then start else end)
      in if end = start \<or> target_length = 0 \<or> this_length = 0 then (Inr 0, h)
         else if target_start < 0 then throwH (RangeError (js ''targetStart out of bounds'')) h
         else if start < 0 \<or> start \<ge> this_length then throwH (RangeError (js ''sourceStart out of bounds'')) h
         else if end < 0 then throwH (RangeError (js ''sourceEnd out of bounds'')) h
         else
           let end = (if end > this_length then this_length else end);
               end = (if target_length - target_start < end - start then target_length - target_start + start else end);
               len = end - start
           in (Inr len, copy_bytes target (nat target_start) this (nat start) (nat len) h))"

definition bytes_length :: "buf list \<Rightarrow> nat" where
  "bytes_length list = sum_list (map byteLength list)"

fun concat_loop :: "buf \<Rightarrow> buf list \<Rightarrow> nat \<Rightarrow> buf op" where
  "concat_loop buf [] pos = doneH buf"
| "concat_loop buf (item # items) pos =
     bindH (buffer_copy item buf (Some (int pos)) None None) (\<lambda>_. concat_loop buf items (pos + byteLength item))"

definition buffer_concat :: "buf list \<Rightarrow> int option \<Rightarrow> buf op" where
  "buffer_concat list totalLength =
     (case list of
        [] \<Rightarrow> newBuffer (Of_number 0) None
      | [b] \<Rightarrow> doneH b
      | _ \<Rightarrow> bindH (newBuffer (Of_number (case totalLength of None \<Rightarrow> int (bytes_length list) | Some n \<Rightarrow> n)) None)
              (\<lambda>buf. concat_loop buf list 0))"

fun fill_loop :: "buf \<Rightarrow> (nat \<Rightarrow> int) \<Rightarrow> nat \<Rightarrow> nat \<Rightarrow> heap \<Rightarrow> heap" where
  "fill_loop this v 0 i h = h"
| "fill_loop this v (Suc n) i h = fill_loop this v n (Suc i) (set_byte this i (v i) h)"

text \<open>
  The bytes of the text are repeated, from the one at \<open>start\<close> on. The value is a number, or a text (which is
  0 when it is empty). \<open>None\<close> is the value \<^verbatim>\<open>undefined\<close> when nothing is filled.
\<close>

definition fill_value :: "arg \<Rightarrow> (nat \<Rightarrow> int) res" where
  "fill_value v =
     (if falsy v then Inr (\<lambda>i. 0)
      else case v of
             Text t \<Rightarrow> mapR (\<lambda>bytes i. bytes ! (i mod length bytes)) (utf8ToBytes t None)
           | _ \<Rightarrow> Inr (\<lambda>i. number_or_0 v))"

definition buffer_fill :: "buf \<Rightarrow> arg \<Rightarrow> int option \<Rightarrow> int option \<Rightarrow> buf option op" where
  "buffer_fill this v start end h =
     (let len = int (byteLength this);
          start = (case start of None \<Rightarrow> 0 | Some n \<Rightarrow> n);
          end = (case end of None \<Rightarrow> len | Some n \<Rightarrow> if n = 0 then len else n)
      in if end < start then throwH (RangeError (js ''end < start'')) h
         else if end = start \<or> len = 0 then (Inr None, h)
         else if start < 0 \<or> start \<ge> len then throwH (RangeError (js ''start out of bounds'')) h
         else if end < 0 \<or> end > len then throwH (RangeError (js ''end out of bounds'')) h
         else case fill_value v of
                Inl e \<Rightarrow> throwH e h
              | Inr f \<Rightarrow> (Inr (Some this), fill_loop this f (nat (end - start)) (nat start) h))"

subsection \<open>Comparing and searching\<close>

text \<open>The first position where two buffers differ, or the smaller length.\<close>

fun common_length :: "buffer \<Rightarrow> buffer \<Rightarrow> nat" where
  "common_length (a # as) (b # bs) = (if a = b then Suc (common_length as bs) else 0)"
| "common_length as bs = 0"

definition compare_bytes :: "buffer \<Rightarrow> buffer \<Rightarrow> int" where
  "compare_bytes a b =
     (let i = common_length a b;
          (x, y) = (if i \<noteq> min (length a) (length b) then (a ! i, b ! i) else (int (length a), int (length b)))
      in if x < y then - 1 else if y < x then 1 else 0)"

definition buffer_compare :: "buf \<Rightarrow> buf \<Rightarrow> int op" where
  "buffer_compare a b h =
     (Inr (if identity a = identity b then 0 else compare_bytes (contents h a) (contents h b)), h)"

definition buffer_equals :: "buf \<Rightarrow> buf \<Rightarrow> bool op" where
  "buffer_equals a b = bindH (buffer_compare a b) (\<lambda>c. doneH (c = 0))"

text \<open>The loop of \<^verbatim>\<open>arrayIndexOf\<close>; \<open>found\<close> is \<open>None\<close> where \<^verbatim>\<open>foundIndex\<close> is -1.\<close>

function find_loop :: "buffer \<Rightarrow> buffer \<Rightarrow> nat \<Rightarrow> nat \<Rightarrow> nat option \<Rightarrow> int" where
  "find_loop arr val off i found =
     (if off + i < length arr then
        (let k = (case found of None \<Rightarrow> 0 | Some f \<Rightarrow> i - f)
         in if k < length val \<and> arr ! (off + i) = val ! k then
              (let f = (case found of None \<Rightarrow> i | Some f \<Rightarrow> f)
               in if i - f + 1 = length val then int (off + f)
                  else find_loop arr val off (Suc i) (Some f))
            else find_loop arr val off (Suc i) None)
      else - 1)"
  by pat_completeness auto
termination
  by (relation "measure (\<lambda>(arr, val, off, i, found). length arr - (off + i))") auto

declare find_loop.simps [simp del]

text \<open>\<^verbatim>\<open>String.prototype.indexOf\<close>.\<close>

definition occurs_at :: "'a list \<Rightarrow> 'a list \<Rightarrow> nat \<Rightarrow> bool" where
  "occurs_at val xs i \<longleftrightarrow> take (length val) (drop i xs) = val"

definition string_indexOf :: "jsstring \<Rightarrow> jsstring \<Rightarrow> nat \<Rightarrow> int" where
  "string_indexOf str val from =
     (case filter (occurs_at val str) [min from (length str)..<Suc (length str)] of [] \<Rightarrow> - 1 | i # _ \<Rightarrow> int i)"

datatype needle = Needle_text jsstring | Needle_buffer buf | Needle_number int | Needle_other

definition clamp_offset :: "int option \<Rightarrow> int" where
  "clamp_offset n =
     (case n of None \<Rightarrow> 0
      | Some n \<Rightarrow> sint (int32 (if n > 0x7fffffff then 0x7fffffff else if n < - 0x80000000 then - 0x80000000 else n)))"

definition buffer_indexOf :: "buf \<Rightarrow> needle \<Rightarrow> int option \<Rightarrow> int op" where
  "buffer_indexOf this val offset h =
     (let len = int (byteLength this); offset = clamp_offset offset
      in if len = 0 \<or> offset \<ge> len then (Inr (- 1), h)
         else
           let offset = nat (if offset < 0 then max (len + offset) 0 else offset)
           in case val of
                Needle_text s \<Rightarrow>
                  (if s = [] then Inr (- 1)
                   else mapR (\<lambda>str. string_indexOf str s offset) (bytes_toString (contents h this) None None None), h)
              | Needle_buffer b \<Rightarrow> (Inr (find_loop (contents h this) (contents h b) offset 0 None), h)
              | Needle_number n \<Rightarrow> (Inr (find_loop (contents h this) [n] offset 0 None), h)
              | Needle_other \<Rightarrow> throwH (TypeError (js ''val must be string, number or Buffer'')) h)"

text \<open>The deprecated accessors; the message on the console is left out.\<close>

definition buffer_get :: "buf \<Rightarrow> int \<Rightarrow> int option op" where
  "buffer_get this offset h = (readUInt8 offset False (contents h this), h)"

definition buffer_set :: "buf \<Rightarrow> int \<Rightarrow> int \<Rightarrow> int op" where
  "buffer_set this v offset h =
     (case writeUInt8 v offset False (contents h this) of
        Inl e \<Rightarrow> (Inl e, h) | Inr (c, n) \<Rightarrow> (Inr n, store_contents this c h))"

end
