(* ===== verification/BufferFacts.thy ===== *)
theory BufferFacts
  imports BufferUtf8 BufferObjects
begin

text \<open>
  What the operations on buffers guarantee: round trips through every encoding, views of one array, copies,
  comparison and search.
\<close>

subsection \<open>Heap\<close>

definition in_heap :: "heap \<Rightarrow> buf \<Rightarrow> bool" where
  "in_heap h b \<longleftrightarrow> storage b < length (arrays h) \<and> byteOffset b + byteLength b \<le> length (arrays h ! storage b)"

definition heap_ok :: "heap \<Rightarrow> bool" where
  "heap_ok h \<longleftrightarrow> (\<forall>a \<in> set (arrays h). wf_buffer a)"

lemma length_contents [simp]: "in_heap h b \<Longrightarrow> length (contents h b) = byteLength b"
  by (auto simp: in_heap_def contents_def min_def)

lemma nth_contents: "\<lbrakk>in_heap h b; i < byteLength b\<rbrakk> \<Longrightarrow> contents h b ! i = arrays h ! storage b ! (byteOffset b + i)"
  by (simp add: in_heap_def contents_def substring_def)

lemma wf_contents:
  assumes "heap_ok h" and "in_heap h b"
  shows "wf_buffer (contents h b)"
proof -
  have "wf_buffer (arrays h ! storage b)" using assms by (simp add: heap_ok_def in_heap_def)
  then show ?thesis by (auto simp: wf_buffer_def contents_def substring_def dest!: in_set_takeD in_set_dropD)
qed

lemma contents_of_store:
  assumes "in_heap h b" and "length c = byteLength b"
  shows "contents (store_contents b c h) b = c"
  using assms by (auto simp: contents_def store_contents_def in_heap_def substring_def Let_def min_def)

lemma contents_buffers [simp]: "contents (h\<lparr>buffers := n\<rparr>) b = contents h b"
  by (simp add: contents_def)

lemma in_heap_buffers [simp]: "in_heap (h\<lparr>buffers := n\<rparr>) b = in_heap h b"
  by (simp add: in_heap_def)

subsection \<open>Round trips\<close>

text \<open>Base 64: nothing is stripped from what is written but the padding, which is put back.\<close>

lemma digit_base64: 
  assumes "0 \<le> d" and "d < 64"
  shows "base64_char (digit d) \<and> \<not> white (digit d)"
proof -
  have "\<forall>c \<in> set lookup. base64_char c \<and> \<not> white c" by (simp add: lookup_def js_eval base64_char_def white_def)
  moreover have "digit d \<in> set lookup"
    unfolding digit_def using assms by (intro nth_mem) (simp add: length_lookup nat_less_iff)
  ultimately show ?thesis by blast
qed

definition padded_digits :: "jsstring \<Rightarrow> bool" where
  "padded_digits s \<longleftrightarrow> (\<exists>ds k. s = ds @ replicate k 61 \<and> k \<le> 2 \<and> (length ds + k) mod 4 = 0
     \<and> (\<forall>c \<in> set ds. base64_char c \<and> \<not> white c))"

lemma padded_group:
  assumes "padded_digits s" and "length u = 4" and "\<forall>c \<in> set u. base64_char c \<and> \<not> white c"
  shows "padded_digits (u @ s)"
proof -
  obtain ds k where "s = ds @ replicate k 61" "k \<le> 2" "(length ds + k) mod 4 = 0"
    "\<forall>c \<in> set ds. base64_char c \<and> \<not> white c" using assms(1) by (auto simp: padded_digits_def)
  then show ?thesis unfolding padded_digits_def
    by (intro exI [of _ "u @ ds"] exI [of _ k]) (use assms(2,3) in \<open>auto simp: add.assoc\<close>)
qed

lemma encode_is_digit: "b64_encode (js_and n 0x3F) = [digit (n mod 64)]"
  unfolding and_63 by (rule encode_digit) simp_all

lemma digit_mod: "base64_char (digit (n mod 64)) \<and> \<not> white (digit (n mod 64))"
  by (rule digit_base64) simp_all

lemma padded_written:
  assumes "wf_buffer bs"
  shows "padded_digits (uint8ToBase64 bs)"
  using assms
proof (induction bs rule: uint8ToBase64.induct)
  case (1 x y z rest)
  then have "padded_digits (uint8ToBase64 rest)" by (simp add: wf_buffer_def)
  then show ?case
    unfolding uint8ToBase64.simps by (rule padded_group) (auto simp: tripletToBase64_def encode_is_digit digit_mod)
next
  case (2 x y)
  then have x: "0 \<le> x" "x < 256" "0 \<le> y" "y < 256" by (auto simp: wf_buffer_def)
  define t where "t = js_shl x 8 + y"
  have "t = x * 256 + y" using x shl_small [of x 8] by (simp add: t_def)
  then have "0 \<le> t" "t < 65536" using x by auto
  then have "js_sar t 10 = t div 1024" "0 \<le> t div 1024" "t div 1024 < 64" using sar_small [of t 10] by auto
  then have d: "b64_encode (js_sar t 10) = [digit (t div 1024)]" "base64_char (digit (t div 1024)) \<and> \<not> white (digit (t div 1024))"
    using encode_digit digit_base64 by auto
  have e: "uint8ToBase64 [x, y] = [digit (t div 1024), digit (js_sar t 4 mod 64), digit (js_shl t 2 mod 64)] @ replicate 1 61"
    by (simp add: t_def [symmetric] d(1) encode_is_digit js_eval)
  show ?case unfolding e padded_digits_def
    by (intro exI [of _ "[digit (t div 1024), digit (js_sar t 4 mod 64), digit (js_shl t 2 mod 64)]"] exI [of _ 1])
      (simp add: d(2) digit_mod)
next
  case (3 x)
  then have x: "0 \<le> x" "x < 256" by (auto simp: wf_buffer_def)
  then have "js_sar x 2 = x div 4" "0 \<le> x div 4" "x div 4 < 64" using sar_small [of x 2] by auto
  then have d: "b64_encode (js_sar x 2) = [digit (x div 4)]" "base64_char (digit (x div 4)) \<and> \<not> white (digit (x div 4))"
    using encode_digit digit_base64 by auto
  have e: "uint8ToBase64 [x] = [digit (x div 4), digit (js_shl x 4 mod 64)] @ replicate (Suc (Suc 0)) 61"
    by (simp add: d(1) encode_is_digit js_eval)
  show ?case unfolding e padded_digits_def
    by (intro exI [of _ "[digit (x div 4), digit (js_shl x 4 mod 64)]"] exI [of _ "Suc (Suc 0)"]) (simp add: d(2) digit_mod)
next
  case 4
  show ?case unfolding padded_digits_def by (intro exI [of _ "[]"] exI [of _ 0]) simp
qed

lemma trim_no_white: "\<forall>c \<in> set s. \<not> white c \<Longrightarrow> stringtrim s = s"
proof -
  assume n: "\<forall>c \<in> set s. \<not> white c"
  then have "dropWhile white s = s" "dropWhile white (rev s) = rev s" by (auto simp: dropWhile_eq_self_iff hd_rev)
  then show ?thesis by (simp add: stringtrim_def)
qed

lemma clean_padded:
  assumes "padded_digits s"
  shows "base64clean s = s"
proof -
  obtain ds k where s: "s = ds @ replicate k 61" "k \<le> 2" "(length ds + k) mod 4 = 0"
    "\<forall>c \<in> set ds. base64_char c \<and> \<not> white c" using assms by (auto simp: padded_digits_def)
  have "\<not> white 61" by (simp add: white_def)
  then have "\<forall>c \<in> set s. \<not> white c" using s(1,4) by auto
  then have t: "stringtrim s = s" by (rule trim_no_white)
  have "\<not> base64_char 61" by (simp add: base64_char_def)
  then have f: "filter base64_char s = ds" using s(1,4) by (simp add: filter_empty_conv)
  have p: "(4 - length ds mod 4) mod 4 = k"
  proof -
    define m where "m = length ds mod 4"
    have "m < 4" "(m + k) mod 4 = 0" using s(3) by (simp_all add: m_def mod_add_left_eq)
    moreover have "k = 0 \<or> k = 1 \<or> k = 2" using s(2) by linarith
    moreover have "m = 0 \<or> m = 1 \<or> m = 2 \<or> m = 3" using \<open>m < 4\<close> by linarith
    ultimately show ?thesis unfolding m_def [symmetric] by (elim disjE) simp_all
  qed
  show ?thesis
  proof (cases "length ds < 2")
    case True
    then have "s = []" using s(1-3) by (cases "length ds = 0"; cases "length ds = 1") auto
    then show ?thesis by (simp add: base64clean_def stringtrim_def)
  next
    case False
    then show ?thesis by (simp only: base64clean_def Let_def t f if_False pad_base64_def p s(1) [symmetric])
  qed
qed

lemma base64ToBytes_written: "wf_buffer bs \<Longrightarrow> base64ToBytes (uint8ToBase64 bs) = Inr bs"
  unfolding base64ToBytes_def clean_padded [OF padded_written] by (rule base64_roundtrip)

text \<open>A new buffer of a string: what is written into the bytes is its contents.\<close>

lemma encoding_lower:
  assumes "encoding_named e = Some x"
  shows "encoding_named (toLowerCase e) = Some x \<and> e \<noteq> []"
proof -
  have "e \<in> {js ''hex'', js ''utf8'', js ''utf-8'', js ''ascii'', js ''binary'', js ''base64'', js ''ucs2'', js ''ucs-2'',
      js ''utf16le'', js ''utf-16le''}"
    using assms by (auto simp: encoding_named_def split: if_splits)
  then have "toLowerCase e = e \<and> e \<noteq> []" by (elim insertE) (simp_all add: toLowerCase_def js_eval)
  then show ?thesis using assms by simp
qed

lemma allocate_contents:
  assumes "allocate n p h = (Inr b, h1)" and "length c = n"
  shows "contents h1 b = replicate n 0" and "contents (store_contents b c h1) b = c"
proof -
  have "in_heap h1 b" "byteLength b = n" using assms(1) by (auto simp: allocate_def in_heap_def)
  then show "contents (store_contents b c h1) b = c" using assms(2) by (intro contents_of_store) simp_all
  show "contents h1 b = replicate n 0" using assms(1) by (auto simp: allocate_def contents_def substring_def)
qed

lemma newBuffer_string:
  assumes "buffer_byteLength text (Some e) = Inr (length bs)" and "encoding_named e = Some x"
    and "write_encoded x (replicate (length bs) 0) text 0 (Some (length bs)) = (Inr k, bs)" and "length bs \<le> kMaxLength"
  shows "\<exists>b h'. newBuffer (Of_string text) (Some e) h = (Inr b, h') \<and> contents h' b = bs"
proof -
  let ?p = "if 0 < length bs \<and> length bs \<le> poolSize then RootParent else No_parent"
  obtain b h1 where a: "allocate (length bs) ?p h = (Inr b, h1)" by (simp add: allocate_def)
  have e: "encoding_named (toLowerCase e) = Some x" "e \<noteq> []" using encoding_lower [OF assms(2)] by simp_all
  have "write_bytes (replicate (length bs) 0) text (Number 0) (Text e) Missing = (Inr k, bs)"
    using assms(3) e by (simp add: write_bytes_def write_arguments_def isFinite_def number_or_0_def write_length_def falsy_def arg_text_def)
  then have w: "buffer_write b text (Number 0) (Text e) Missing h1 = (Inr k, store_contents b bs h1)"
    by (simp add: buffer_write_def allocate_contents(1) [OF a refl])
  have "newBuffer (Of_string text) (Some e) h = (Inr b, store_contents b bs h1)"
    using assms(1,4) a w by (simp add: newBuffer_def subject_length_def bindH_def init_buffer_def doneH_def)
  then show ?thesis using allocate_contents(2) [OF a, of bs] by blast
qed

lemma written_back:
  assumes "wf_buffer bs" and "encoding_named e = Some x" and "x \<in> {Hex, Binary, Base64} \<or> x = Utf16le \<and> even (length bs)"
  shows "buffer_byteLength (slice_encoded x bs 0 (length bs)) (Some e) = Inr (length bs)
    \<and> (\<exists>k. write_encoded x (replicate (length bs) 0) (slice_encoded x bs 0 (length bs)) 0 (Some (length bs)) = (Inr k, bs))"
proof -
  have e: "encoding_or_utf8 (Some e) = e" using encoding_lower [OF assms(2)] by (simp add: encoding_or_utf8_def)
  note simps = e assms(2) buffer_byteLength_def slice_encoded_def write_encoded_def
  consider "x = Hex" | "x = Binary" | "x = Base64" | "x = Utf16le" "even (length bs)" using assms(3) by blast
  then show ?thesis
  proof cases
    case 1
    show ?thesis
    proof (cases "bs = []")
      case True
      then show ?thesis using 1 by (simp add: simps hexSlice_def hexWrite_def)
    next
      case False
      then show ?thesis using 1 hexWrite_hexSlice [OF assms(1) False]
        by (simp add: simps hexSlice_def length_hex_text [OF assms(1)])
    qed
  next
    case 2
    then show ?thesis using blit_all [OF assms(1)]
      by (simp add: simps binaryWrite_def asciiWrite_def binary_bytes [OF assms(1)]) (simp add: binarySlice_def)
  next
    case 3
    then show ?thesis using blit_all [OF assms(1)]
      by (simp add: simps base64Write_def base64Slice_def base64ToBytes_written [OF assms(1)])
  next
    case 4
    have "utf16leToBytes (utf16le_units bs) (Some (int (length bs))) = bs"
      using assms(1) 4(2) by (intro utf16le_bytes) simp_all
    moreover have "length (utf16le_units bs) * 2 = length bs"
      using 4(2) by (induction bs rule: utf16le_units.induct) auto
    ultimately show ?thesis using 4 blit_all [OF assms(1)]
      by (simp add: simps utf16leWrite_def utf16leSlice_def)
  qed
qed

text \<open>
  C10: what \<^verbatim>\<open>toString\<close> writes for the bytes of a buffer in \<^verbatim>\<open>hex\<close>, \<^verbatim>\<open>binary\<close>, \<^verbatim>\<open>base64\<close> or (for an even number
  of bytes) \<^verbatim>\<open>ucs2\<close> and its other names, a new buffer of this string in this encoding holds again, byte for
  byte; the constructor makes exactly the room that is needed.
\<close>

theorem encodings_roundtrip:
  assumes "heap_ok h" and "in_heap h a" and "byteLength a \<le> kMaxLength" and "encoding_named e = Some x"
    and "x \<in> {Hex, Binary, Base64} \<or> x = Utf16le \<and> even (byteLength a)"
  shows "\<exists>str b h'. buffer_toString a (Some e) None None h = (Inr str, h)
    \<and> newBuffer (Of_string str) (Some e) h = (Inr b, h') \<and> contents h' b = contents h a"
proof -
  let ?bs = "contents h a"
  let ?str = "slice_encoded x ?bs 0 (length ?bs)"
  have n: "length ?bs = byteLength a" and wf: "wf_buffer ?bs" using assms(1,2) wf_contents by simp_all
  have "?bs = [] \<Longrightarrow> ?str = []" using written_back [OF wf assms(4)] assms(5) n
    by (auto simp: slice_encoded_def hexSlice_def binarySlice_def base64Slice_def utf16leSlice_def)
  then have "buffer_toString a (Some e) None None h = (Inr ?str, h)"
    using assms(4) encoding_lower [OF assms(4)]
    by (cases "?bs = []") (simp_all add: buffer_toString_def bytes_toString_def encoding_or_utf8_def)
  moreover obtain k where "buffer_byteLength ?str (Some e) = Inr (length ?bs)"
    "write_encoded x (replicate (length ?bs) 0) ?str 0 (Some (length ?bs)) = (Inr k, ?bs)"
    using written_back [OF wf assms(4)] assms(5) n by auto
  from newBuffer_string [OF this(1) assms(4) this(2), of h] n assms(3) obtain b h' where
    "newBuffer (Of_string ?str) (Some e) h = (Inr b, h')" "contents h' b = ?bs" by auto
  ultimately show ?thesis by blast
qed

text \<open>UTF-8 with a limit that is large enough.\<close>

lemma mapR_InrE: "mapR f m = Inr y \<Longrightarrow> (\<And>x. m = Inr x \<Longrightarrow> y = f x \<Longrightarrow> P) \<Longrightarrow> P"
  by (cases m) auto

lemma push_code_limit:
  assumes "push_code None c rest = Inr bs" and "int (length bs) \<le> u"
    and "\<And>cs v. \<lbrakk>rest None = Inr cs; int (length cs) \<le> v\<rbrakk> \<Longrightarrow> rest (Some v) = Inr cs"
  shows "push_code (Some u) c rest = Inr bs"
proof -
  obtain b cs where b: "encode_utf8 c = Inr b" "rest None = Inr cs" "bs = b @ cs"
    using assms(1) by (auto simp: push_code_def elim!: bindR_InrE mapR_InrE)
  then have "rest (Some (u - int (length b))) = Inr cs" using assms(2,3) by simp
  then show ?thesis using b assms(2) by (simp add: push_code_def spend_def enough_def)
qed

lemma replacement_limit:
  assumes "mapR (append (replacement None)) m = Inr bs" and "int (length bs) \<le> u"
    and "\<And>cs. \<lbrakk>m = Inr cs; int (length cs) \<le> u - 3\<rbrakk> \<Longrightarrow> m' = Inr cs"
  shows "mapR (append (replacement (Some u))) m' = Inr bs"
  using assms by (auto simp: replacement_def spend_def enough_def elim!: mapR_InrE)

lemma utf8_loop_limit:
  "\<lbrakk>utf8_loop None lead s = Inr bs; int (length bs) \<le> u\<rbrakk> \<Longrightarrow> utf8_loop (Some u) lead s = Inr bs"
proof (induction s arbitrary: lead bs u)
  case (Cons c cs)
  note IH = Cons.IH
  have push: "push_code None k (\<lambda>units. utf8_loop units None cs) = Inr ds \<Longrightarrow> int (length ds) \<le> v \<Longrightarrow>
      push_code (Some v) k (\<lambda>units. utf8_loop units None cs) = Inr ds" for k ds v
    by (rule push_code_limit) (use IH in simp_all)
  have push_last: "push_code None k (\<lambda>units. Inr []) = Inr ds \<Longrightarrow> int (length ds) \<le> v \<Longrightarrow>
      push_code (Some v) k (\<lambda>units. Inr []) = Inr ds" for k ds v
    by (rule push_code_limit) simp_all
  have put: "replacement (Some v) = replacement None" if "int (length (replacement None)) \<le> v" for v
    using that by (simp add: replacement_def spend_def enough_def)
  have spend: "spend 3 (Some v) = Some (v - 3)" for v by (simp add: spend_def)
  show ?case using Cons.prems
    by (auto simp: utf8_loop.simps(2) spend simp del: no_limit(3) split: option.splits if_splits
        intro: push push_last put replacement_limit IH elim!: replacement_limit)
qed simp

text \<open>A new buffer of a string and its text again, in UTF-8.\<close>

text \<open>
  C3: a string in a new buffer in \<^verbatim>\<open>utf8\<close> is read back by \<^verbatim>\<open>toString\<close> with every surrogate that is not in a
  pair replaced by U+FFFD. This holds for strings that do not end in two lead surrogates and have no
  character in planes 2, 4, ..., 16: the code drops the last surrogate of the former and puts the latter one
  plane too low.
\<close>

theorem utf8_roundtrip:
  assumes "units16 s" and "\<not> ends_in_leads s" and "\<forall>v \<in> set (code_points s). v < 0x10000 \<or> odd (v div 0x10000)"
    and "length (encoded s) \<le> kMaxLength"
  shows "\<exists>b h'. newBuffer (Of_string s) (Some (js ''utf8'')) h = (Inr b, h')
    \<and> buffer_toString b (Some (js ''utf8'')) None None h' = (Inr (toWellFormed s), h')"
proof -
  let ?e = "js ''utf8''" and ?bs = "encoded s"
  have e: "encoding_named ?e = Some Utf8" "encoding_or_utf8 (Some ?e) = ?e"
    by (simp_all add: encoding_named_def encoding_or_utf8_def js_eval)
  have b: "utf8ToBytes s None = Inr ?bs" using assms(1,2) by (rule utf8ToBytes_encoded)
  then have limit: "utf8ToBytes s (Some (int (length ?bs))) = Inr ?bs"
    using utf8_loop_limit [of None s ?bs "int (length ?bs)"] by (simp add: utf8ToBytes_def)
  have w: "write_encoded Utf8 (replicate (length ?bs) 0) s 0 (Some (length ?bs)) = (Inr (length ?bs), ?bs)"
    using blit_all [of ?bs] wf_encoded [OF assms(1)] by (simp add: write_encoded_def utf8Write_def limit)
  have "buffer_byteLength s (Some ?e) = Inr (length ?bs)" by (simp add: buffer_byteLength_def e b)
  from newBuffer_string [OF this e(1) w assms(4), of h] obtain c h' where
    n: "newBuffer (Of_string s) (Some ?e) h = (Inr c, h')" "contents h' c = ?bs" by blast
  have t: "utf8Slice ?bs 0 (length ?bs) = toWellFormed s" using assms(1,3) by (rule utf8Slice_wellFormed)
  have "bytes_toString ?bs (Some ?e) None None = Inr (toWellFormed s)"
  proof (cases "?bs = []")
    case True
    then have "toWellFormed s = []" using t by (simp add: utf8Slice_def decodeUtf8Char_def)
    then show ?thesis using True by (simp add: bytes_toString_def)
  next
    case False
    then show ?thesis using t by (simp add: bytes_toString_def e slice_encoded_def)
  qed
  then show ?thesis using n by (simp add: buffer_toString_def)
qed

subsection \<open>Views of one array\<close>

lemma substring_update:
  "\<lbrakk>j < n; p + n \<le> length a\<rbrakk> \<Longrightarrow> substring p (p + n) (a[p + j := y]) = (substring p (p + n) a)[j := y]"
  by (simp add: substring_def drop_update_swap take_update_swap)

lemma contents_set_byte:
  assumes "in_heap h v" and "in_heap h w" and "storage v = storage w" and "i < byteLength v" and "j < byteLength w"
    and "byteOffset v + i = byteOffset w + j"
  shows "contents (set_byte v i x h) w = (contents h w)[j := x mod 256]"
proof -
  let ?a = "arrays h ! storage w"
  have "byteOffset w + j < length ?a" using assms(2,5) by (simp add: in_heap_def)
  then have "put (int (byteOffset v + i)) x ?a = ?a[byteOffset w + j := x mod 256]"
    using assms(6) by (simp add: put_def flip: of_nat_add)
  then show ?thesis using assms by (simp add: set_byte_def contents_def in_heap_def substring_update)
qed

lemma slice_index_within: "slice_index n k \<le> k"
  by (auto simp: slice_index_def Let_def nat_le_iff)

lemma slice_bounds_within: "slice_bounds start end n = (k, l) \<Longrightarrow> k \<le> l \<and> l \<le> n"
  by (auto simp: slice_bounds_def Let_def slice_index_within split: if_splits option.splits)
    (use slice_index_within linorder_not_less in blast)+

lemma buffer_slice_view:
  assumes "in_heap h b" and "buffer_slice b start end h = (Inr v, h')"
    and "slice_bounds start end (byteLength b) = (k, l)"
  shows "storage v = storage b \<and> byteOffset v = byteOffset b + k \<and> byteLength v = l - k \<and> l \<le> byteLength b
    \<and> k \<le> l \<and> arrays h' = arrays h \<and> in_heap h' v \<and> in_heap h' b \<and> contents h' b = contents h b"
  using assms slice_bounds_within [OF assms(3)]
  by (auto simp: buffer_slice_def subarray_def in_heap_def contents_def)

text \<open>
  C9: a slice is a window on the same memory: it shows the bytes between the bounds, what is stored at
  position i of it is stored at position start + i of the buffer and nowhere else there, and the other way
  round.
\<close>

theorem slice_shares_memory:
  assumes "in_heap h b" and "buffer_slice b start end h = (Inr v, h')"
    and "slice_bounds start end (byteLength b) = (k, l)" and "i < byteLength v"
  shows "contents h' v = take (l - k) (drop k (contents h b))
    \<and> contents (set_byte v i x h') b = (contents h b)[k + i := x mod 256]
    \<and> contents (set_byte b (k + i) x h') v = (contents h' v)[i := x mod 256]"
proof (intro conjI)
  note v = buffer_slice_view [OF assms(1-3)]
  show "contents h' v = take (l - k) (drop k (contents h b))"
    using v assms(1) by (simp add: contents_def substring_def take_drop add.commute add.left_commute min_absorb1)
  have i: "k + i < byteLength b" using v assms(4) by auto
  show "contents (set_byte v i x h') b = (contents h b)[k + i := x mod 256]"
    using contents_set_byte [of h' v b i "k + i"] v i assms(4) by simp
  show "contents (set_byte b (k + i) x h') v = (contents h' v)[i := x mod 256]"
    using contents_set_byte [of h' b v "k + i" i] v i assms(4) by simp
qed

subsection \<open>Comparison\<close>

lemma common_length_le: "common_length a b \<le> min (length a) (length b)"
  by (induction a b rule: common_length.induct) auto

lemma compare_bytes_Cons:
  "compare_bytes (x # xs) (y # ys) = (if x < y then - 1 else if y < x then 1 else compare_bytes xs ys)"
  by (auto simp: compare_bytes_def Let_def)

lemma compare_bytes_order: "compare_bytes a b = (if a = b then 0 else if (a, b) \<in> lexord {(x, y). x < y} then - 1 else 1)"
proof (induction a arbitrary: b)
  case Nil
  show ?case by (cases b) (auto simp: compare_bytes_def)
next
  case (Cons x xs)
  then show ?case by (cases b) (auto simp: compare_bytes_Cons, simp add: compare_bytes_def)
qed

text \<open>
  C39: \<^verbatim>\<open>compare\<close> orders buffers like lists of bytes (lexicographically, a prefix first), and \<^verbatim>\<open>equals\<close> holds
  exactly when the bytes are the same.
\<close>

theorem compare_is_lexicographic:
  assumes "identity a = identity b \<longrightarrow> a = b"
  shows "buffer_compare a b h =
      (Inr (if contents h a = contents h b then 0 else if (contents h a, contents h b) \<in> lexord {(x, y). x < y} then - 1 else 1), h)
    \<and> buffer_equals a b h = (Inr (contents h a = contents h b), h)"
  using assms by (auto simp: buffer_equals_def buffer_compare_def bindH_def doneH_def compare_bytes_order)

subsection \<open>Search\<close>

text \<open>While a match is under way, the bytes since its start are those of the needle.\<close>

lemma matched_further:
  assumes "take n (drop p xs) = take n ys" and "p + n < length xs" and "n < length ys" and "xs ! (p + n) = ys ! n"
  shows "take (Suc n) (drop p xs) = take (Suc n) ys"
  using assms by (simp add: take_Suc_conv_app_nth)

lemma find_loop_sound:
  assumes "find_loop arr val off i found = r" and "r \<noteq> - 1"
    and "\<And>f. found = Some f \<Longrightarrow> f < i \<and> i - f < length val \<and> take (i - f) (drop (off + f) arr) = take (i - f) val"
  shows "0 \<le> r \<and> off \<le> nat r \<and> occurs_at val arr (nat r)"
  using assms
proof (induction arr val off i found rule: find_loop.induct)
  case (1 arr val off i found)
  define f where "f = (case found of None \<Rightarrow> i | Some f \<Rightarrow> f)"
  have f: "f \<le> i" "take (i - f) (drop (off + f) arr) = take (i - f) val"
    and k: "(case found of None \<Rightarrow> 0 | Some f \<Rightarrow> i - f) = i - f"
    using 1(5) by (auto simp: f_def split: option.splits)
  have i: "off + i < length arr" using 1(3,4) by (auto simp: find_loop.simps split: if_splits)
  let ?m = "i - f < length val \<and> arr ! (off + i) = val ! (i - f)"
  have step: "find_loop arr val off i found =
      (if ?m then if i - f + 1 = length val then int (off + f) else find_loop arr val off (Suc i) (Some f)
       else find_loop arr val off (Suc i) None)"
    using i by (subst find_loop.simps) (simp add: k f_def [symmetric] Let_def)
  show ?case
  proof (cases ?m)
    case False
    then have e: "find_loop arr val off i found = find_loop arr val off (Suc i) None" using step by (simp only: if_False)
    show ?thesis using 1(2) [OF i refl] 1(3,4) False unfolding k e by simp
  next
    case True
    have t: "take (Suc (i - f)) (drop (off + f) arr) = take (Suc (i - f)) val"
      using f i True by (intro matched_further) simp_all
    show ?thesis
    proof (cases "i - f + 1 = length val")
      case fin: True
      then show ?thesis using 1(3) step True t by (auto simp: occurs_at_def simp flip: of_nat_add)
    next
      case False
      then show ?thesis using 1(1) [OF i refl] 1(3,4) step True t f(1) unfolding k f_def [symmetric]
        by (simp add: Suc_diff_le)
    qed
  qed
qed

lemma find_loop_byte:
  "find_loop arr [x] off i None = (case filter (\<lambda>j. arr ! j = x) [off + i..<length arr] of [] \<Rightarrow> - 1 | j # _ \<Rightarrow> int j)"
proof (induction "length arr - (off + i)" arbitrary: i)
  case 0
  then show ?case by (subst find_loop.simps) simp
next
  case (Suc n)
  then have "[off + i..<length arr] = (off + i) # [off + Suc i..<length arr]" by (simp add: upt_conv_Cons)
  moreover have "off + i < length arr" using Suc(2) by linarith
  ultimately show ?case using Suc(1) [of "Suc i"] Suc(2) by (subst find_loop.simps) simp
qed

text \<open>
  What \<^verbatim>\<open>indexOf\<close> finds is an occurrence of the bytes it looks for, at or after the offset.
\<close>

theorem indexOf_sound:
  assumes "buffer_indexOf this (Needle_buffer b) offset h = (Inr r, h')" and "r \<noteq> - 1"
  shows "0 \<le> r \<and> occurs_at (contents h b) (contents h this) (nat r) \<and> (0 \<le> clamp_offset offset \<longrightarrow> clamp_offset offset \<le> r)"
proof -
  let ?o = "nat (if clamp_offset offset < 0 then max (int (byteLength this) + clamp_offset offset) 0 else clamp_offset offset)"
  have "find_loop (contents h this) (contents h b) ?o 0 None = r"
    using assms by (auto simp: buffer_indexOf_def Let_def split: if_splits)
  from find_loop_sound [OF this assms(2)] show ?thesis by auto
qed

text \<open>
  An occurrence can be missed: after a partial match the search goes on behind the byte that did not match.
\<close>

lemma indexOf_misses: "find_loop [1, 1, 2] [1, 2] 0 0 None = - 1"
  by (simp add: find_loop.simps)

subsection \<open>Copying\<close>

text \<open>The target with \<open>bs\<close> written at \<open>p\<close>.\<close>

definition splice_in :: "buf \<Rightarrow> nat \<Rightarrow> buffer \<Rightarrow> heap \<Rightarrow> heap" where
  "splice_in b p bs h =
     h\<lparr>arrays := (arrays h)[storage b :=
       take (byteOffset b + p) (arrays h ! storage b) @ bs @ drop (byteOffset b + p + length bs) (arrays h ! storage b)]\<rparr>"

lemma splice_in_Nil: "in_heap h b \<Longrightarrow> splice_in b p [] h = h"
  by (simp add: splice_in_def)

lemma set_byte_splice:
  assumes "in_heap h b" and "p + length bs < byteLength b"
  shows "set_byte b (length bs + p) x (splice_in b p bs h) = splice_in b p (bs @ [x mod 256]) h"
proof -
  let ?a = "arrays h ! storage b" and ?p = "byteOffset b + p"
  have l: "?p + length bs < length ?a" using assms by (simp add: in_heap_def)
  then have "put (int (byteOffset b + (length bs + p))) x (take ?p ?a @ bs @ drop (?p + length bs) ?a)
      = take ?p ?a @ (bs @ [x mod 256]) @ drop (?p + length (bs @ [x mod 256])) ?a"
    by (simp add: put_def list_update_append Cons_nth_drop_Suc [symmetric] add.commute add.left_commute min_absorb2
        flip: of_nat_add) 
  then show ?thesis using assms by (simp add: splice_in_def set_byte_def in_heap_def)
qed

text \<open>Where the loop reads what it has not written: another array, or not behind where it writes.\<close>

definition no_overlap :: "buf \<Rightarrow> nat \<Rightarrow> buf \<Rightarrow> nat \<Rightarrow> nat \<Rightarrow> bool" where
  "no_overlap target p this q n \<longleftrightarrow> storage target \<noteq> storage this \<or> byteOffset target + p \<le> byteOffset this + q
     \<or> byteOffset this + q + n \<le> byteOffset target + p"

lemma splice_keeps:
  assumes "in_heap h target" and "in_heap h this" and "no_overlap target p this q n" and "i < n" and "q + n \<le> byteLength this"
    and "p + n \<le> byteLength target" and "length bs = i"
  shows "contents (splice_in target p bs h) this ! (i + q) = contents h this ! (i + q)"
proof -
  have w: "in_heap (splice_in target p bs h) this"
    using assms by (auto simp: in_heap_def splice_in_def nth_list_update)
  have i: "i + q < byteLength this" using assms(4,5) by simp
  show ?thesis
    unfolding nth_contents [OF w i] nth_contents [OF assms(2) i]
    using assms by (auto simp: splice_in_def in_heap_def no_overlap_def nth_list_update nth_append min_absorb2 ac_simps)
qed

lemma copy_loop_splice:
  assumes "in_heap h target" and "in_heap h this" and "heap_ok h" and "no_overlap target p this q n"
    and "q + n \<le> byteLength this" and "p + n \<le> byteLength target" and "i + k = n"
  shows "copy_loop target p this q k i (splice_in target p (take i (drop q (contents h this))) h)
    = splice_in target p (take n (drop q (contents h this))) h"
  using assms(7)
proof (induction k arbitrary: i)
  case (Suc k)
  let ?s = "drop q (contents h this)"
  have l: "length (take i ?s) = i" "i + q < length (contents h this)" using Suc.prems assms(2,5) by simp_all
  then have x: "contents (splice_in target p (take i ?s) h) this ! (i + q) = contents h this ! (i + q)"
    using Suc.prems assms by (intro splice_keeps [where n = n]) simp_all
  have "contents h this ! (i + q) mod 256 = ?s ! i"
    using wf_contents [OF assms(3,2)] l(2) by (simp add: wf_buffer_def add.commute)
  then have "take i ?s @ [contents h this ! (i + q) mod 256] = take (Suc i) ?s"
    using l(2) by (simp add: take_Suc_conv_app_nth)
  then show ?case
    using Suc assms(1,6) set_byte_splice [of h target p "take i ?s" "contents h this ! (i + q)"] l(1) by (simp add: x)
qed simp

lemma contents_splice:
  assumes "in_heap h b" and "p + length bs \<le> byteLength b"
  shows "contents (splice_in b p bs h) b = take p (contents h b) @ bs @ drop (p + length bs) (contents h b)"
proof -
  let ?a = "arrays h ! storage b"
  have "take p (contents h b) = take p (drop (byteOffset b) ?a)"
    "drop (p + length bs) (contents h b) = take (byteLength b - (p + length bs)) (drop (byteOffset b + p + length bs) ?a)"
    using assms(2) by (simp_all add: contents_def substring_def drop_take ac_simps min_absorb1)
  then show ?thesis using assms
    by (simp add: splice_in_def contents_def in_heap_def substring_def take_drop min_absorb1 min_absorb2 ac_simps)
qed

lemma store_splice:
  assumes "in_heap h b" and "p + length bs \<le> byteLength b"
  shows "store_contents b (take p (contents h b) @ bs @ drop (p + length bs) (contents h b)) h = splice_in b p bs h"
proof -
  let ?a = "arrays h ! storage b"
  have "take (byteOffset b) ?a @ take p (contents h b) = take (byteOffset b + p) ?a"
    using assms(2) by (simp add: contents_def substring_def take_add min_absorb1)
  moreover have "drop (p + length bs) (contents h b) @ drop (byteOffset b + byteLength b) ?a
      = drop (byteOffset b + p + length bs) ?a"
  proof -
    have "drop (p + length bs) (contents h b) = take (byteLength b - (p + length bs)) (drop (byteOffset b + p + length bs) ?a)"
      by (simp add: contents_def substring_def drop_take ac_simps)
    moreover have "drop (byteOffset b + byteLength b) ?a
        = drop (byteLength b - (p + length bs)) (drop (byteOffset b + p + length bs) ?a)"
      using assms(2) by (simp add: ac_simps)
    ultimately show ?thesis by (simp only: append_take_drop_id)
  qed
  ultimately show ?thesis by (simp only: store_contents_def splice_in_def Let_def append_assoc [symmetric])
      (simp only: append_assoc)
qed

text \<open>
  C11: \<^verbatim>\<open>copy\<close> with bounds within the buffers moves the bytes that fit into the target, leaves its other bytes and
  all other arrays as they are, and returns the number of bytes. Where both buffers are views of one array,
  this holds when the target does not begin inside the source behind its start, or from 1000 bytes on.
\<close>

theorem copy_moves_bytes:
  assumes "heap_ok h" and "in_heap h target" and "in_heap h this" and "q < e" and "e \<le> byteLength this" and "p \<le> byteLength target"
    and "n = min (e - q) (byteLength target - p)" and "no_overlap target p this q n \<or> 1000 \<le> n"
  shows "\<exists>h'. buffer_copy this target (Some (int p)) (Some (int q)) (Some (int e)) h = (Inr (int n), h')
    \<and> contents h' target = take p (contents h target) @ take n (drop q (contents h this)) @ drop (p + n) (contents h target)
    \<and> (\<forall>i. i \<noteq> storage target \<longrightarrow> arrays h' ! i = arrays h ! i)"
proof -
  let ?s = "take n (drop q (contents h this))"
  have n: "q + n \<le> byteLength this" "p + n \<le> byteLength target" "length ?s = n" using assms(3-7) by auto
  have c: "copy_bytes target p this q n h = splice_in target p ?s h"
  proof (cases "n < 1000")
    case True
    then show ?thesis using copy_loop_splice [of h target this p q n 0 n] assms(1-3,8) n
      by (simp add: copy_bytes_def splice_in_Nil)
  next
    case False
    then show ?thesis using store_splice [of h target p ?s] assms(2) n
      by (simp add: copy_bytes_def Let_def substring_def)
  qed
  have "buffer_copy this target (Some (int p)) (Some (int q)) (Some (int e)) h = (Inr (int n), splice_in target p ?s h)"
  proof (cases "byteLength target = 0")
    case True
    then have "n = 0" "p = 0" using assms(6,7) by auto
    then show ?thesis using True assms(2,4) by (simp add: buffer_copy_def splice_in_Nil)
  next
    case False
    have "nat (int a - int b) = a - b" for a b by arith
    then have "buffer_copy this target (Some (int p)) (Some (int q)) (Some (int e)) h = (Inr (int n), copy_bytes target p this q n h)"
      using False assms(4-7) by (auto simp: buffer_copy_def Let_def min_def of_nat_diff)
    then show ?thesis unfolding c .
  qed
  then show ?thesis using contents_splice [of h target p ?s] assms(2) n
    by (auto simp: splice_in_def nth_list_update)
qed

text \<open>A copy of three bytes to one position further repeats the first byte.\<close>

definition view :: "nat \<Rightarrow> nat \<Rightarrow> buf" where
  "view start n = \<lparr>identity = start, storage = 0, byteOffset = start, byteLength = n, parent = RootParent\<rparr>"

definition sample_heap :: heap where
  "sample_heap = \<lparr>arrays = [[77, 97, 110, 0]], buffers = 4\<rparr>"

lemmas run_buffers = sample_heap_def view_def in_heap_def heap_ok_def wf_buffer_def contents_def substring_def

lemma overlapping_copy_repeats:
  "arrays (snd (buffer_copy (view 0 3) (view 1 3) (Some 0) (Some 0) (Some 3) sample_heap)) = [[77, 77, 77, 77]]"
  by (simp add: buffer_copy_def run_buffers copy_bytes_def numeral_3_eq_3 set_byte_def put_def Let_def)

text \<open>
  Other places where the code does something else than it means: a negative number of bytes copied, a fill up
  to 0 that fills everything, and names of encodings that are known in one place only.
\<close>

lemma copy_negative: "buffer_copy (view 0 3) (view 1 3) (Some 0) (Some 2) (Some 0) sample_heap = (Inr (- 2), sample_heap)"
  by (simp add: buffer_copy_def run_buffers copy_bytes_def Let_def)

lemma fill_to_0: "buffer_fill b v (Some 0) (Some 0) = buffer_fill b v (Some 0) None"
  by (simp add: buffer_fill_def fun_eq_iff)

lemma raw_is_no_encoding: "isEncoding (js ''raw'') \<and> encoding_named (toLowerCase (js ''raw'')) = None"
  by (simp add: isEncoding_def toLowerCase_def encoding_named_def js_eval)

lemma upper_case_length: "buffer_byteLength (js ''6162'') (Some (js ''HEX'')) = Inr 4"
  by (simp add: buffer_byteLength_def encoding_or_utf8_def encoding_named_def js_eval)

theorem encodings_roundtrip_witness:
  "\<exists>str b h'. buffer_toString (view 0 4) (Some (js ''base64'')) None None sample_heap = (Inr str, sample_heap)
    \<and> newBuffer (Of_string str) (Some (js ''base64'')) sample_heap = (Inr b, h') \<and> contents h' b = [77, 97, 110, 0]"
  using encodings_roundtrip [of sample_heap "view 0 4" "js ''base64''" Base64]
  by (simp add: run_buffers kMaxLength_def encoding_named_def js_eval)

theorem utf8_roundtrip_witness:
  "\<exists>b h'. newBuffer (Of_string [0x20AC, 0xD83D, 0xDE00]) (Some (js ''utf8'')) sample_heap = (Inr b, h')
    \<and> buffer_toString b (Some (js ''utf8'')) None None h' = (Inr [0x20AC, 0xD83D, 0xDE00], h')"
  using utf8_roundtrip [of "[0x20AC, 0xD83D, 0xDE00]" sample_heap]
  by (simp add: units16_def lead_unit_def trail_unit_def lone_def pair_point_def encoded_def encoded_as_def utf8_def kMaxLength_def)

theorem slice_shares_memory_witness:
  "\<exists>v h'. buffer_slice (view 0 4) (Some 1) (Some (- 1)) sample_heap = (Inr v, h') \<and> contents h' v = [97, 110]
    \<and> contents (set_byte v 1 5 h') (view 0 4) = [77, 97, 5, 0]"
proof -
  have "slice_bounds (Some 1) (Some (- 1)) 4 = (1, 3)"
    by (simp add: slice_bounds_def slice_index_def int32_def Let_def)
  then have b: "slice_bounds (Some 1) (Some (- 1)) (byteLength (view 0 4)) = (1, 3)" by (simp add: view_def)
  obtain v h' where v: "buffer_slice (view 0 4) (Some 1) (Some (- 1)) sample_heap = (Inr v, h')" "byteLength v = 2"
    by (simp add: buffer_slice_def b subarray_def)
  have "in_heap sample_heap (view 0 4)" by (simp add: run_buffers)
  from slice_shares_memory [OF this v(1) b, of 1 5] v show ?thesis by (simp add: run_buffers)
qed

theorem compare_is_lexicographic_witness:
  "buffer_compare (view 0 2) (view 1 2) sample_heap = (Inr (- 1), sample_heap)"
  using compare_is_lexicographic [of "view 0 2" "view 1 2" sample_heap] by (simp add: run_buffers)

theorem indexOf_sound_witness:
  "occurs_at [97, 110] [77, 97, 110, 0 :: int] 1"
  using indexOf_sound [of "view 0 4" "view 1 2" None sample_heap 1 sample_heap]
  by (simp add: buffer_indexOf_def run_buffers find_loop.simps clamp_offset_def int32_def Let_def)

theorem copy_moves_bytes_witness:
  "\<exists>h'. buffer_copy (view 1 3) (view 0 3) (Some 0) (Some 0) (Some 3) sample_heap = (Inr 3, h')
    \<and> contents h' (view 0 3) = [97, 110, 0]"
  using copy_moves_bytes [of sample_heap "view 0 3" "view 1 3" 0 3 0 3]
  by (auto simp: run_buffers no_overlap_def)

end
