(* ===== verification/EsChars.thy ===== *)
theory EsChars
  imports Prelude
begin

text \<open>
  The character classes and word lists of the scanner in \<^verbatim>\<open>esprima\<close> (\<^verbatim>\<open>isDecimalDigit\<close> to
  \<^verbatim>\<open>isKeyword\<close>), its \<^verbatim>\<open>StringMap\<close>, and the two tables of identifier characters outside ASCII, which
  the source has as regular expressions over ranges of code units.
\<close>

subsection \<open>Tables\<close>

definition NonAsciiIdentifierStart :: "(nat \<times> nat) list" where
  "NonAsciiIdentifierStart = [
    (0x00AA, 0x00AA), (0x00B5, 0x00B5), (0x00BA, 0x00BA), (0x00C0, 0x00D6), (0x00D8, 0x00F6),
    (0x00F8, 0x02C1), (0x02C6, 0x02D1), (0x02E0, 0x02E4), (0x02EC, 0x02EC), (0x02EE, 0x02EE),
    (0x0370, 0x0374), (0x0376, 0x0376), (0x0377, 0x0377), (0x037A, 0x037D), (0x0386, 0x0386),
    (0x0388, 0x038A), (0x038C, 0x038C), (0x038E, 0x03A1), (0x03A3, 0x03F5), (0x03F7, 0x0481),
    (0x048A, 0x0527), (0x0531, 0x0556), (0x0559, 0x0559), (0x0561, 0x0587), (0x05D0, 0x05EA),
    (0x05F0, 0x05F2), (0x0620, 0x064A), (0x066E, 0x066E), (0x066F, 0x066F), (0x0671, 0x06D3),
    (0x06D5, 0x06D5), (0x06E5, 0x06E5), (0x06E6, 0x06E6), (0x06EE, 0x06EE), (0x06EF, 0x06EF),
    (0x06FA, 0x06FC), (0x06FF, 0x06FF), (0x0710, 0x0710), (0x0712, 0x072F), (0x074D, 0x07A5),
    (0x07B1, 0x07B1), (0x07CA, 0x07EA), (0x07F4, 0x07F4), (0x07F5, 0x07F5), (0x07FA, 0x07FA),
    (0x0800, 0x0815), (0x081A, 0x081A), (0x0824, 0x0824), (0x0828, 0x0828), (0x0840, 0x0858),
    (0x08A0, 0x08A0), (0x08A2, 0x08AC), (0x0904, 0x0939), (0x093D, 0x093D), (0x0950, 0x0950),
    (0x0958, 0x0961), (0x0971, 0x0977), (0x0979, 0x097F), (0x0985, 0x098C), (0x098F, 0x098F),
    (0x0990, 0x0990), (0x0993, 0x09A8), (0x09AA, 0x09B0), (0x09B2, 0x09B2), (0x09B6, 0x09B9),
    (0x09BD, 0x09BD), (0x09CE, 0x09CE), (0x09DC, 0x09DC), (0x09DD, 0x09DD), (0x09DF, 0x09E1),
    (0x09F0, 0x09F0), (0x09F1, 0x09F1), (0x0A05, 0x0A0A), (0x0A0F, 0x0A0F), (0x0A10, 0x0A10),
    (0x0A13, 0x0A28), (0x0A2A, 0x0A30), (0x0A32, 0x0A32), (0x0A33, 0x0A33), (0x0A35, 0x0A35),
    (0x0A36, 0x0A36), (0x0A38, 0x0A38), (0x0A39, 0x0A39), (0x0A59, 0x0A5C), (0x0A5E, 0x0A5E),
    (0x0A72, 0x0A74), (0x0A85, 0x0A8D), (0x0A8F, 0x0A91), (0x0A93, 0x0AA8), (0x0AAA, 0x0AB0),
    (0x0AB2, 0x0AB2), (0x0AB3, 0x0AB3), (0x0AB5, 0x0AB9), (0x0ABD, 0x0ABD), (0x0AD0, 0x0AD0),
    (0x0AE0, 0x0AE0), (0x0AE1, 0x0AE1), (0x0B05, 0x0B0C), (0x0B0F, 0x0B0F), (0x0B10, 0x0B10),
    (0x0B13, 0x0B28), (0x0B2A, 0x0B30), (0x0B32, 0x0B32), (0x0B33, 0x0B33), (0x0B35, 0x0B39),
    (0x0B3D, 0x0B3D), (0x0B5C, 0x0B5C), (0x0B5D, 0x0B5D), (0x0B5F, 0x0B61), (0x0B71, 0x0B71),
    (0x0B83, 0x0B83), (0x0B85, 0x0B8A), (0x0B8E, 0x0B90), (0x0B92, 0x0B95), (0x0B99, 0x0B99),
    (0x0B9A, 0x0B9A), (0x0B9C, 0x0B9C), (0x0B9E, 0x0B9E), (0x0B9F, 0x0B9F), (0x0BA3, 0x0BA3),
    (0x0BA4, 0x0BA4), (0x0BA8, 0x0BAA), (0x0BAE, 0x0BB9), (0x0BD0, 0x0BD0), (0x0C05, 0x0C0C),
    (0x0C0E, 0x0C10), (0x0C12, 0x0C28), (0x0C2A, 0x0C33), (0x0C35, 0x0C39), (0x0C3D, 0x0C3D),
    (0x0C58, 0x0C58), (0x0C59, 0x0C59), (0x0C60, 0x0C60), (0x0C61, 0x0C61), (0x0C85, 0x0C8C),
    (0x0C8E, 0x0C90), (0x0C92, 0x0CA8), (0x0CAA, 0x0CB3), (0x0CB5, 0x0CB9), (0x0CBD, 0x0CBD),
    (0x0CDE, 0x0CDE), (0x0CE0, 0x0CE0), (0x0CE1, 0x0CE1), (0x0CF1, 0x0CF1), (0x0CF2, 0x0CF2),
    (0x0D05, 0x0D0C), (0x0D0E, 0x0D10), (0x0D12, 0x0D3A), (0x0D3D, 0x0D3D), (0x0D4E, 0x0D4E),
    (0x0D60, 0x0D60), (0x0D61, 0x0D61), (0x0D7A, 0x0D7F), (0x0D85, 0x0D96), (0x0D9A, 0x0DB1),
    (0x0DB3, 0x0DBB), (0x0DBD, 0x0DBD), (0x0DC0, 0x0DC6), (0x0E01, 0x0E30), (0x0E32, 0x0E32),
    (0x0E33, 0x0E33), (0x0E40, 0x0E46), (0x0E81, 0x0E81), (0x0E82, 0x0E82), (0x0E84, 0x0E84),
    (0x0E87, 0x0E87), (0x0E88, 0x0E88), (0x0E8A, 0x0E8A), (0x0E8D, 0x0E8D), (0x0E94, 0x0E97),
    (0x0E99, 0x0E9F), (0x0EA1, 0x0EA3), (0x0EA5, 0x0EA5), (0x0EA7, 0x0EA7), (0x0EAA, 0x0EAA),
    (0x0EAB, 0x0EAB), (0x0EAD, 0x0EB0), (0x0EB2, 0x0EB2), (0x0EB3, 0x0EB3), (0x0EBD, 0x0EBD),
    (0x0EC0, 0x0EC4), (0x0EC6, 0x0EC6), (0x0EDC, 0x0EDF), (0x0F00, 0x0F00), (0x0F40, 0x0F47),
    (0x0F49, 0x0F6C), (0x0F88, 0x0F8C), (0x1000, 0x102A), (0x103F, 0x103F), (0x1050, 0x1055),
    (0x105A, 0x105D), (0x1061, 0x1061), (0x1065, 0x1065), (0x1066, 0x1066), (0x106E, 0x1070),
    (0x1075, 0x1081), (0x108E, 0x108E), (0x10A0, 0x10C5), (0x10C7, 0x10C7), (0x10CD, 0x10CD),
    (0x10D0, 0x10FA), (0x10FC, 0x1248), (0x124A, 0x124D), (0x1250, 0x1256), (0x1258, 0x1258),
    (0x125A, 0x125D), (0x1260, 0x1288), (0x128A, 0x128D), (0x1290, 0x12B0), (0x12B2, 0x12B5),
    (0x12B8, 0x12BE), (0x12C0, 0x12C0), (0x12C2, 0x12C5), (0x12C8, 0x12D6), (0x12D8, 0x1310),
    (0x1312, 0x1315), (0x1318, 0x135A), (0x1380, 0x138F), (0x13A0, 0x13F4), (0x1401, 0x166C),
    (0x166F, 0x167F), (0x1681, 0x169A), (0x16A0, 0x16EA), (0x16EE, 0x16F0), (0x1700, 0x170C),
    (0x170E, 0x1711), (0x1720, 0x1731), (0x1740, 0x1751), (0x1760, 0x176C), (0x176E, 0x1770),
    (0x1780, 0x17B3), (0x17D7, 0x17D7), (0x17DC, 0x17DC), (0x1820, 0x1877), (0x1880, 0x18A8),
    (0x18AA, 0x18AA), (0x18B0, 0x18F5), (0x1900, 0x191C), (0x1950, 0x196D), (0x1970, 0x1974),
    (0x1980, 0x19AB), (0x19C1, 0x19C7), (0x1A00, 0x1A16), (0x1A20, 0x1A54), (0x1AA7, 0x1AA7),
    (0x1B05, 0x1B33), (0x1B45, 0x1B4B), (0x1B83, 0x1BA0), (0x1BAE, 0x1BAE), (0x1BAF, 0x1BAF),
    (0x1BBA, 0x1BE5), (0x1C00, 0x1C23), (0x1C4D, 0x1C4F), (0x1C5A, 0x1C7D), (0x1CE9, 0x1CEC),
    (0x1CEE, 0x1CF1), (0x1CF5, 0x1CF5), (0x1CF6, 0x1CF6), (0x1D00, 0x1DBF), (0x1E00, 0x1F15),
    (0x1F18, 0x1F1D), (0x1F20, 0x1F45), (0x1F48, 0x1F4D), (0x1F50, 0x1F57), (0x1F59, 0x1F59),
    (0x1F5B, 0x1F5B), (0x1F5D, 0x1F5D), (0x1F5F, 0x1F7D), (0x1F80, 0x1FB4), (0x1FB6, 0x1FBC),
    (0x1FBE, 0x1FBE), (0x1FC2, 0x1FC4), (0x1FC6, 0x1FCC), (0x1FD0, 0x1FD3), (0x1FD6, 0x1FDB),
    (0x1FE0, 0x1FEC), (0x1FF2, 0x1FF4), (0x1FF6, 0x1FFC), (0x2071, 0x2071), (0x207F, 0x207F),
    (0x2090, 0x209C), (0x2102, 0x2102), (0x2107, 0x2107), (0x210A, 0x2113), (0x2115, 0x2115),
    (0x2119, 0x211D), (0x2124, 0x2124), (0x2126, 0x2126), (0x2128, 0x2128), (0x212A, 0x212D),
    (0x212F, 0x2139), (0x213C, 0x213F), (0x2145, 0x2149), (0x214E, 0x214E), (0x2160, 0x2188),
    (0x2C00, 0x2C2E), (0x2C30, 0x2C5E), (0x2C60, 0x2CE4), (0x2CEB, 0x2CEE), (0x2CF2, 0x2CF2),
    (0x2CF3, 0x2CF3), (0x2D00, 0x2D25), (0x2D27, 0x2D27), (0x2D2D, 0x2D2D), (0x2D30, 0x2D67),
    (0x2D6F, 0x2D6F), (0x2D80, 0x2D96), (0x2DA0, 0x2DA6), (0x2DA8, 0x2DAE), (0x2DB0, 0x2DB6),
    (0x2DB8, 0x2DBE), (0x2DC0, 0x2DC6), (0x2DC8, 0x2DCE), (0x2DD0, 0x2DD6), (0x2DD8, 0x2DDE),
    (0x2E2F, 0x2E2F), (0x3005, 0x3007), (0x3021, 0x3029), (0x3031, 0x3035), (0x3038, 0x303C),
    (0x3041, 0x3096), (0x309D, 0x309F), (0x30A1, 0x30FA), (0x30FC, 0x30FF), (0x3105, 0x312D),
    (0x3131, 0x318E), (0x31A0, 0x31BA), (0x31F0, 0x31FF), (0x3400, 0x4DB5), (0x4E00, 0x9FCC),
    (0xA000, 0xA48C), (0xA4D0, 0xA4FD), (0xA500, 0xA60C), (0xA610, 0xA61F), (0xA62A, 0xA62A),
    (0xA62B, 0xA62B), (0xA640, 0xA66E), (0xA67F, 0xA697), (0xA6A0, 0xA6EF), (0xA717, 0xA71F),
    (0xA722, 0xA788), (0xA78B, 0xA78E), (0xA790, 0xA793), (0xA7A0, 0xA7AA), (0xA7F8, 0xA801),
    (0xA803, 0xA805), (0xA807, 0xA80A), (0xA80C, 0xA822), (0xA840, 0xA873), (0xA882, 0xA8B3),
    (0xA8F2, 0xA8F7), (0xA8FB, 0xA8FB), (0xA90A, 0xA925), (0xA930, 0xA946), (0xA960, 0xA97C),
    (0xA984, 0xA9B2), (0xA9CF, 0xA9CF), (0xAA00, 0xAA28), (0xAA40, 0xAA42), (0xAA44, 0xAA4B),
    (0xAA60, 0xAA76), (0xAA7A, 0xAA7A), (0xAA80, 0xAAAF), (0xAAB1, 0xAAB1), (0xAAB5, 0xAAB5),
    (0xAAB6, 0xAAB6), (0xAAB9, 0xAABD), (0xAAC0, 0xAAC0), (0xAAC2, 0xAAC2), (0xAADB, 0xAADD),
    (0xAAE0, 0xAAEA), (0xAAF2, 0xAAF4), (0xAB01, 0xAB06), (0xAB09, 0xAB0E), (0xAB11, 0xAB16),
    (0xAB20, 0xAB26), (0xAB28, 0xAB2E), (0xABC0, 0xABE2), (0xAC00, 0xD7A3), (0xD7B0, 0xD7C6),
    (0xD7CB, 0xD7FB), (0xF900, 0xFA6D), (0xFA70, 0xFAD9), (0xFB00, 0xFB06), (0xFB13, 0xFB17),
    (0xFB1D, 0xFB1D), (0xFB1F, 0xFB28), (0xFB2A, 0xFB36), (0xFB38, 0xFB3C), (0xFB3E, 0xFB3E),
    (0xFB40, 0xFB40), (0xFB41, 0xFB41), (0xFB43, 0xFB43), (0xFB44, 0xFB44), (0xFB46, 0xFBB1),
    (0xFBD3, 0xFD3D), (0xFD50, 0xFD8F), (0xFD92, 0xFDC7), (0xFDF0, 0xFDFB), (0xFE70, 0xFE74),
    (0xFE76, 0xFEFC), (0xFF21, 0xFF3A), (0xFF41, 0xFF5A), (0xFF66, 0xFFBE), (0xFFC2, 0xFFC7),
    (0xFFCA, 0xFFCF), (0xFFD2, 0xFFD7), (0xFFDA, 0xFFDC)]"

definition NonAsciiIdentifierPart :: "(nat \<times> nat) list" where
  "NonAsciiIdentifierPart = [
    (0x00AA, 0x00AA), (0x00B5, 0x00B5), (0x00BA, 0x00BA), (0x00C0, 0x00D6), (0x00D8, 0x00F6),
    (0x00F8, 0x02C1), (0x02C6, 0x02D1), (0x02E0, 0x02E4), (0x02EC, 0x02EC), (0x02EE, 0x02EE),
    (0x0300, 0x0374), (0x0376, 0x0376), (0x0377, 0x0377), (0x037A, 0x037D), (0x0386, 0x0386),
    (0x0388, 0x038A), (0x038C, 0x038C), (0x038E, 0x03A1), (0x03A3, 0x03F5), (0x03F7, 0x0481),
    (0x0483, 0x0487), (0x048A, 0x0527), (0x0531, 0x0556), (0x0559, 0x0559), (0x0561, 0x0587),
    (0x0591, 0x05BD), (0x05BF, 0x05BF), (0x05C1, 0x05C1), (0x05C2, 0x05C2), (0x05C4, 0x05C4),
    (0x05C5, 0x05C5), (0x05C7, 0x05C7), (0x05D0, 0x05EA), (0x05F0, 0x05F2), (0x0610, 0x061A),
    (0x0620, 0x0669), (0x066E, 0x06D3), (0x06D5, 0x06DC), (0x06DF, 0x06E8), (0x06EA, 0x06FC),
    (0x06FF, 0x06FF), (0x0710, 0x074A), (0x074D, 0x07B1), (0x07C0, 0x07F5), (0x07FA, 0x07FA),
    (0x0800, 0x082D), (0x0840, 0x085B), (0x08A0, 0x08A0), (0x08A2, 0x08AC), (0x08E4, 0x08FE),
    (0x0900, 0x0963), (0x0966, 0x096F), (0x0971, 0x0977), (0x0979, 0x097F), (0x0981, 0x0983),
    (0x0985, 0x098C), (0x098F, 0x098F), (0x0990, 0x0990), (0x0993, 0x09A8), (0x09AA, 0x09B0),
    (0x09B2, 0x09B2), (0x09B6, 0x09B9), (0x09BC, 0x09C4), (0x09C7, 0x09C7), (0x09C8, 0x09C8),
    (0x09CB, 0x09CE), (0x09D7, 0x09D7), (0x09DC, 0x09DC), (0x09DD, 0x09DD), (0x09DF, 0x09E3),
    (0x09E6, 0x09F1), (0x0A01, 0x0A03), (0x0A05, 0x0A0A), (0x0A0F, 0x0A0F), (0x0A10, 0x0A10),
    (0x0A13, 0x0A28), (0x0A2A, 0x0A30), (0x0A32, 0x0A32), (0x0A33, 0x0A33), (0x0A35, 0x0A35),
    (0x0A36, 0x0A36), (0x0A38, 0x0A38), (0x0A39, 0x0A39), (0x0A3C, 0x0A3C), (0x0A3E, 0x0A42),
    (0x0A47, 0x0A47), (0x0A48, 0x0A48), (0x0A4B, 0x0A4D), (0x0A51, 0x0A51), (0x0A59, 0x0A5C),
    (0x0A5E, 0x0A5E), (0x0A66, 0x0A75), (0x0A81, 0x0A83), (0x0A85, 0x0A8D), (0x0A8F, 0x0A91),
    (0x0A93, 0x0AA8), (0x0AAA, 0x0AB0), (0x0AB2, 0x0AB2), (0x0AB3, 0x0AB3), (0x0AB5, 0x0AB9),
    (0x0ABC, 0x0AC5), (0x0AC7, 0x0AC9), (0x0ACB, 0x0ACD), (0x0AD0, 0x0AD0), (0x0AE0, 0x0AE3),
    (0x0AE6, 0x0AEF), (0x0B01, 0x0B03), (0x0B05, 0x0B0C), (0x0B0F, 0x0B0F), (0x0B10, 0x0B10),
    (0x0B13, 0x0B28), (0x0B2A, 0x0B30), (0x0B32, 0x0B32), (0x0B33, 0x0B33), (0x0B35, 0x0B39),
    (0x0B3C, 0x0B44), (0x0B47, 0x0B47), (0x0B48, 0x0B48), (0x0B4B, 0x0B4D), (0x0B56, 0x0B56),
    (0x0B57, 0x0B57), (0x0B5C, 0x0B5C), (0x0B5D, 0x0B5D), (0x0B5F, 0x0B63), (0x0B66, 0x0B6F),
    (0x0B71, 0x0B71), (0x0B82, 0x0B82), (0x0B83, 0x0B83), (0x0B85, 0x0B8A), (0x0B8E, 0x0B90),
    (0x0B92, 0x0B95), (0x0B99, 0x0B99), (0x0B9A, 0x0B9A), (0x0B9C, 0x0B9C), (0x0B9E, 0x0B9E),
    (0x0B9F, 0x0B9F), (0x0BA3, 0x0BA3), (0x0BA4, 0x0BA4), (0x0BA8, 0x0BAA), (0x0BAE, 0x0BB9),
    (0x0BBE, 0x0BC2), (0x0BC6, 0x0BC8), (0x0BCA, 0x0BCD), (0x0BD0, 0x0BD0), (0x0BD7, 0x0BD7),
    (0x0BE6, 0x0BEF), (0x0C01, 0x0C03), (0x0C05, 0x0C0C), (0x0C0E, 0x0C10), (0x0C12, 0x0C28),
    (0x0C2A, 0x0C33), (0x0C35, 0x0C39), (0x0C3D, 0x0C44), (0x0C46, 0x0C48), (0x0C4A, 0x0C4D),
    (0x0C55, 0x0C55), (0x0C56, 0x0C56), (0x0C58, 0x0C58), (0x0C59, 0x0C59), (0x0C60, 0x0C63),
    (0x0C66, 0x0C6F), (0x0C82, 0x0C82), (0x0C83, 0x0C83), (0x0C85, 0x0C8C), (0x0C8E, 0x0C90),
    (0x0C92, 0x0CA8), (0x0CAA, 0x0CB3), (0x0CB5, 0x0CB9), (0x0CBC, 0x0CC4), (0x0CC6, 0x0CC8),
    (0x0CCA, 0x0CCD), (0x0CD5, 0x0CD5), (0x0CD6, 0x0CD6), (0x0CDE, 0x0CDE), (0x0CE0, 0x0CE3),
    (0x0CE6, 0x0CEF), (0x0CF1, 0x0CF1), (0x0CF2, 0x0CF2), (0x0D02, 0x0D02), (0x0D03, 0x0D03),
    (0x0D05, 0x0D0C), (0x0D0E, 0x0D10), (0x0D12, 0x0D3A), (0x0D3D, 0x0D44), (0x0D46, 0x0D48),
    (0x0D4A, 0x0D4E), (0x0D57, 0x0D57), (0x0D60, 0x0D63), (0x0D66, 0x0D6F), (0x0D7A, 0x0D7F),
    (0x0D82, 0x0D82), (0x0D83, 0x0D83), (0x0D85, 0x0D96), (0x0D9A, 0x0DB1), (0x0DB3, 0x0DBB),
    (0x0DBD, 0x0DBD), (0x0DC0, 0x0DC6), (0x0DCA, 0x0DCA), (0x0DCF, 0x0DD4), (0x0DD6, 0x0DD6),
    (0x0DD8, 0x0DDF), (0x0DF2, 0x0DF2), (0x0DF3, 0x0DF3), (0x0E01, 0x0E3A), (0x0E40, 0x0E4E),
    (0x0E50, 0x0E59), (0x0E81, 0x0E81), (0x0E82, 0x0E82), (0x0E84, 0x0E84), (0x0E87, 0x0E87),
    (0x0E88, 0x0E88), (0x0E8A, 0x0E8A), (0x0E8D, 0x0E8D), (0x0E94, 0x0E97), (0x0E99, 0x0E9F),
    (0x0EA1, 0x0EA3), (0x0EA5, 0x0EA5), (0x0EA7, 0x0EA7), (0x0EAA, 0x0EAA), (0x0EAB, 0x0EAB),
    (0x0EAD, 0x0EB9), (0x0EBB, 0x0EBD), (0x0EC0, 0x0EC4), (0x0EC6, 0x0EC6), (0x0EC8, 0x0ECD),
    (0x0ED0, 0x0ED9), (0x0EDC, 0x0EDF), (0x0F00, 0x0F00), (0x0F18, 0x0F18), (0x0F19, 0x0F19),
    (0x0F20, 0x0F29), (0x0F35, 0x0F35), (0x0F37, 0x0F37), (0x0F39, 0x0F39), (0x0F3E, 0x0F47),
    (0x0F49, 0x0F6C), (0x0F71, 0x0F84), (0x0F86, 0x0F97), (0x0F99, 0x0FBC), (0x0FC6, 0x0FC6),
    (0x1000, 0x1049), (0x1050, 0x109D), (0x10A0, 0x10C5), (0x10C7, 0x10C7), (0x10CD, 0x10CD),
    (0x10D0, 0x10FA), (0x10FC, 0x1248), (0x124A, 0x124D), (0x1250, 0x1256), (0x1258, 0x1258),
    (0x125A, 0x125D), (0x1260, 0x1288), (0x128A, 0x128D), (0x1290, 0x12B0), (0x12B2, 0x12B5),
    (0x12B8, 0x12BE), (0x12C0, 0x12C0), (0x12C2, 0x12C5), (0x12C8, 0x12D6), (0x12D8, 0x1310),
    (0x1312, 0x1315), (0x1318, 0x135A), (0x135D, 0x135F), (0x1380, 0x138F), (0x13A0, 0x13F4),
    (0x1401, 0x166C), (0x166F, 0x167F), (0x1681, 0x169A), (0x16A0, 0x16EA), (0x16EE, 0x16F0),
    (0x1700, 0x170C), (0x170E, 0x1714), (0x1720, 0x1734), (0x1740, 0x1753), (0x1760, 0x176C),
    (0x176E, 0x1770), (0x1772, 0x1772), (0x1773, 0x1773), (0x1780, 0x17D3), (0x17D7, 0x17D7),
    (0x17DC, 0x17DC), (0x17DD, 0x17DD), (0x17E0, 0x17E9), (0x180B, 0x180D), (0x1810, 0x1819),
    (0x1820, 0x1877), (0x1880, 0x18AA), (0x18B0, 0x18F5), (0x1900, 0x191C), (0x1920, 0x192B),
    (0x1930, 0x193B), (0x1946, 0x196D), (0x1970, 0x1974), (0x1980, 0x19AB), (0x19B0, 0x19C9),
    (0x19D0, 0x19D9), (0x1A00, 0x1A1B), (0x1A20, 0x1A5E), (0x1A60, 0x1A7C), (0x1A7F, 0x1A89),
    (0x1A90, 0x1A99), (0x1AA7, 0x1AA7), (0x1B00, 0x1B4B), (0x1B50, 0x1B59), (0x1B6B, 0x1B73),
    (0x1B80, 0x1BF3), (0x1C00, 0x1C37), (0x1C40, 0x1C49), (0x1C4D, 0x1C7D), (0x1CD0, 0x1CD2),
    (0x1CD4, 0x1CF6), (0x1D00, 0x1DE6), (0x1DFC, 0x1F15), (0x1F18, 0x1F1D), (0x1F20, 0x1F45),
    (0x1F48, 0x1F4D), (0x1F50, 0x1F57), (0x1F59, 0x1F59), (0x1F5B, 0x1F5B), (0x1F5D, 0x1F5D),
    (0x1F5F, 0x1F7D), (0x1F80, 0x1FB4), (0x1FB6, 0x1FBC), (0x1FBE, 0x1FBE), (0x1FC2, 0x1FC4),
    (0x1FC6, 0x1FCC), (0x1FD0, 0x1FD3), (0x1FD6, 0x1FDB), (0x1FE0, 0x1FEC), (0x1FF2, 0x1FF4),
    (0x1FF6, 0x1FFC), (0x200C, 0x200C), (0x200D, 0x200D), (0x203F, 0x203F), (0x2040, 0x2040),
    (0x2054, 0x2054), (0x2071, 0x2071), (0x207F, 0x207F), (0x2090, 0x209C), (0x20D0, 0x20DC),
    (0x20E1, 0x20E1), (0x20E5, 0x20F0), (0x2102, 0x2102), (0x2107, 0x2107), (0x210A, 0x2113),
    (0x2115, 0x2115), (0x2119, 0x211D), (0x2124, 0x2124), (0x2126, 0x2126), (0x2128, 0x2128),
    (0x212A, 0x212D), (0x212F, 0x2139), (0x213C, 0x213F), (0x2145, 0x2149), (0x214E, 0x214E),
    (0x2160, 0x2188), (0x2C00, 0x2C2E), (0x2C30, 0x2C5E), (0x2C60, 0x2CE4), (0x2CEB, 0x2CF3),
    (0x2D00, 0x2D25), (0x2D27, 0x2D27), (0x2D2D, 0x2D2D), (0x2D30, 0x2D67), (0x2D6F, 0x2D6F),
    (0x2D7F, 0x2D96), (0x2DA0, 0x2DA6), (0x2DA8, 0x2DAE), (0x2DB0, 0x2DB6), (0x2DB8, 0x2DBE),
    (0x2DC0, 0x2DC6), (0x2DC8, 0x2DCE), (0x2DD0, 0x2DD6), (0x2DD8, 0x2DDE), (0x2DE0, 0x2DFF),
    (0x2E2F, 0x2E2F), (0x3005, 0x3007), (0x3021, 0x302F), (0x3031, 0x3035), (0x3038, 0x303C),
    (0x3041, 0x3096), (0x3099, 0x3099), (0x309A, 0x309A), (0x309D, 0x309F), (0x30A1, 0x30FA),
    (0x30FC, 0x30FF), (0x3105, 0x312D), (0x3131, 0x318E), (0x31A0, 0x31BA), (0x31F0, 0x31FF),
    (0x3400, 0x4DB5), (0x4E00, 0x9FCC), (0xA000, 0xA48C), (0xA4D0, 0xA4FD), (0xA500, 0xA60C),
    (0xA610, 0xA62B), (0xA640, 0xA66F), (0xA674, 0xA67D), (0xA67F, 0xA697), (0xA69F, 0xA6F1),
    (0xA717, 0xA71F), (0xA722, 0xA788), (0xA78B, 0xA78E), (0xA790, 0xA793), (0xA7A0, 0xA7AA),
    (0xA7F8, 0xA827), (0xA840, 0xA873), (0xA880, 0xA8C4), (0xA8D0, 0xA8D9), (0xA8E0, 0xA8F7),
    (0xA8FB, 0xA8FB), (0xA900, 0xA92D), (0xA930, 0xA953), (0xA960, 0xA97C), (0xA980, 0xA9C0),
    (0xA9CF, 0xA9D9), (0xAA00, 0xAA36), (0xAA40, 0xAA4D), (0xAA50, 0xAA59), (0xAA60, 0xAA76),
    (0xAA7A, 0xAA7A), (0xAA7B, 0xAA7B), (0xAA80, 0xAAC2), (0xAADB, 0xAADD), (0xAAE0, 0xAAEF),
    (0xAAF2, 0xAAF6), (0xAB01, 0xAB06), (0xAB09, 0xAB0E), (0xAB11, 0xAB16), (0xAB20, 0xAB26),
    (0xAB28, 0xAB2E), (0xABC0, 0xABEA), (0xABEC, 0xABEC), (0xABED, 0xABED), (0xABF0, 0xABF9),
    (0xAC00, 0xD7A3), (0xD7B0, 0xD7C6), (0xD7CB, 0xD7FB), (0xF900, 0xFA6D), (0xFA70, 0xFAD9),
    (0xFB00, 0xFB06), (0xFB13, 0xFB17), (0xFB1D, 0xFB28), (0xFB2A, 0xFB36), (0xFB38, 0xFB3C),
    (0xFB3E, 0xFB3E), (0xFB40, 0xFB40), (0xFB41, 0xFB41), (0xFB43, 0xFB43), (0xFB44, 0xFB44),
    (0xFB46, 0xFBB1), (0xFBD3, 0xFD3D), (0xFD50, 0xFD8F), (0xFD92, 0xFDC7), (0xFDF0, 0xFDFB),
    (0xFE00, 0xFE0F), (0xFE20, 0xFE26), (0xFE33, 0xFE33), (0xFE34, 0xFE34), (0xFE4D, 0xFE4F),
    (0xFE70, 0xFE74), (0xFE76, 0xFEFC), (0xFF10, 0xFF19), (0xFF21, 0xFF3A), (0xFF3F, 0xFF3F),
    (0xFF41, 0xFF5A), (0xFF66, 0xFFBE), (0xFFC2, 0xFFC7), (0xFFCA, 0xFFCF), (0xFFD2, 0xFFD7),
    (0xFFDA, 0xFFDC)]"

text \<open>\<^verbatim>\<open>Regex.X.test(String.fromCharCode(ch))\<close>.\<close>

definition in_ranges :: "(nat \<times> nat) list \<Rightarrow> nat \<Rightarrow> bool" where
  "in_ranges rs c = list_ex (\<lambda>(lo, hi). lo \<le> c \<and> c \<le> hi) rs"

subsection \<open>StringMap\<close>

text \<open>
  A map from strings whose keys are stored with a dollar sign in front, so that a name of
  \<^verbatim>\<open>Object.prototype\<close> is never looked up: \<open>data\<close> is the object \<^verbatim>\<open>$data\<close>.
\<close>

record 'v string_map =
  data :: "jsstring \<rightharpoonup> 'v"

definition StringMap :: "'v string_map" where
  "StringMap = \<lparr>data = Map.empty\<rparr>"

definition StringMap_get :: "'v string_map \<Rightarrow> jsstring \<Rightarrow> 'v option" where
  "StringMap_get m key = data m (js ''$'' @ key)"

definition StringMap_set :: "'v string_map \<Rightarrow> jsstring \<Rightarrow> 'v \<Rightarrow> 'v string_map" where
  "StringMap_set m key v = m\<lparr>data := (data m)(js ''$'' @ key \<mapsto> v)\<rparr>"

definition StringMap_has :: "'v string_map \<Rightarrow> jsstring \<Rightarrow> bool" where
  "StringMap_has m key = (data m (js ''$'' @ key) \<noteq> None)"

definition StringMap_delete :: "'v string_map \<Rightarrow> jsstring \<Rightarrow> 'v string_map" where
  "StringMap_delete m key = m\<lparr>data := (data m)(js ''$'' @ key := None)\<rparr>"

subsection \<open>Character classes\<close>

definition isDecimalDigit :: "code_unit \<Rightarrow> bool" where
  "isDecimalDigit ch = (48 \<le> ch \<and> ch \<le> 57)"

definition isHexDigit :: "code_unit \<Rightarrow> bool" where
  "isHexDigit ch = (index_of (js ''0123456789abcdefABCDEF'') ch \<noteq> None)"

definition isOctalDigit :: "code_unit \<Rightarrow> bool" where
  "isOctalDigit ch = (index_of (js ''01234567'') ch \<noteq> None)"

text \<open>
  White space: the test on the list of Unicode spaces is \<^verbatim>\<open>indexOf(...) > 0\<close>, so the first
  character of the list does not count.
\<close>

definition unicode_spaces :: jsstring where
  "unicode_spaces = [0x1680, 0x180E, 0x2000, 0x2001, 0x2002, 0x2003, 0x2004, 0x2005, 0x2006, 0x2007, 0x2008, 0x2009, 0x200A, 0x202F, 0x205F, 0x3000, 0xFEFF]"

definition isWhiteSpace :: "code_unit \<Rightarrow> bool" where
  "isWhiteSpace ch =
     (ch = 32 \<or> ch = 9 \<or> ch = 0xB \<or> ch = 0xC \<or> ch = 0xA0
      \<or> (ch \<ge> 0x1680 \<and> (case index_of unicode_spaces ch of None \<Rightarrow> False | Some i \<Rightarrow> i > 0)))"

definition isLineTerminator :: "code_unit \<Rightarrow> bool" where
  "isLineTerminator ch = (ch = 10 \<or> ch = 13 \<or> ch = 0x2028 \<or> ch = 0x2029)"

definition isIdentifierStart :: "code_unit \<Rightarrow> bool" where
  "isIdentifierStart ch =
     (ch = 36 \<or> ch = 95 \<or> (65 \<le> ch \<and> ch \<le> 90) \<or> (97 \<le> ch \<and> ch \<le> 122) \<or> ch = 92
      \<or> (ch \<ge> 0x80 \<and> in_ranges NonAsciiIdentifierStart ch))"

definition isIdentifierPart :: "code_unit \<Rightarrow> bool" where
  "isIdentifierPart ch =
     (ch = 36 \<or> ch = 95 \<or> (65 \<le> ch \<and> ch \<le> 90) \<or> (97 \<le> ch \<and> ch \<le> 122) \<or> (48 \<le> ch \<and> ch \<le> 57)
      \<or> ch = 92 \<or> (ch \<ge> 0x80 \<and> in_ranges NonAsciiIdentifierPart ch))"

subsection \<open>Words\<close>

definition isFutureReservedWord :: "jsstring \<Rightarrow> bool" where
  "isFutureReservedWord w =
     (w \<in> set (map js [''class'', ''enum'', ''export'', ''extends'', ''import'', ''super'']))"

definition isStrictModeReservedWord :: "jsstring \<Rightarrow> bool" where
  "isStrictModeReservedWord w =
     (w \<in> set (map js [''implements'', ''interface'', ''package'', ''private'', ''protected'', ''public'',
                       ''static'', ''yield'', ''let'']))"

definition isRestrictedWord :: "jsstring \<Rightarrow> bool" where
  "isRestrictedWord w = (w = js ''eval'' \<or> w = js ''arguments'')"

definition isKeyword :: "bool \<Rightarrow> jsstring \<Rightarrow> bool" where
  "isKeyword strict w =
     (if strict \<and> isStrictModeReservedWord w then True
      else if length w = 2 then w = js ''if'' \<or> w = js ''in'' \<or> w = js ''do''
      else if length w = 3 then
        w = js ''var'' \<or> w = js ''for'' \<or> w = js ''new'' \<or> w = js ''try'' \<or> w = js ''let''
      else if length w = 4 then
        w = js ''this'' \<or> w = js ''else'' \<or> w = js ''case'' \<or> w = js ''void'' \<or> w = js ''with''
        \<or> w = js ''enum''
      else if length w = 5 then
        w = js ''while'' \<or> w = js ''break'' \<or> w = js ''catch'' \<or> w = js ''throw'' \<or> w = js ''const''
        \<or> w = js ''class'' \<or> w = js ''super''
      else if length w = 6 then
        w = js ''return'' \<or> w = js ''typeof'' \<or> w = js ''delete'' \<or> w = js ''switch'' \<or> w = js ''export''
        \<or> w = js ''import''
      else if length w = 7 then w = js ''default'' \<or> w = js ''finally'' \<or> w = js ''extends''
      else if length w = 8 then w = js ''function'' \<or> w = js ''continue'' \<or> w = js ''debugger''
      else if length w = 10 then w = js ''instanceof''
      else False)"

subsection \<open>Facts\<close>

text \<open>A name of \<^verbatim>\<open>StringMap\<close> is independent of every other.\<close>

lemma StringMap_get_set [simp]:
  "StringMap_get (StringMap_set m k v) k' = (if k' = k then Some v else StringMap_get m k')"
  "StringMap_has (StringMap_set m k v) k' = (k' = k \<or> StringMap_has m k')"
  "StringMap_has (StringMap_delete m k) k' = (k' \<noteq> k \<and> StringMap_has m k')"
  "StringMap_get StringMap k = None"
  by (auto simp: StringMap_get_def StringMap_set_def StringMap_has_def StringMap_delete_def StringMap_def)

text \<open>The ogham space mark is white space in ECMAScript, but not for the scanner.\<close>

lemma ogham_not_white: "\<not> isWhiteSpace 0x1680" "isWhiteSpace 0x2000"
  by (simp_all add: isWhiteSpace_def unicode_spaces_def)

lemma line_terminator_not_white: "isLineTerminator c \<Longrightarrow> \<not> isWhiteSpace c"
  by (auto simp: isLineTerminator_def isWhiteSpace_def unicode_spaces_def)

lemma line_terminator_not_part: "isLineTerminator c \<Longrightarrow> \<not> isIdentifierPart c"
  unfolding isLineTerminator_def isIdentifierPart_def NonAsciiIdentifierPart_def in_ranges_def
  by (elim disjE) simp_all

lemma not_hex_line: "isHexDigit c \<Longrightarrow> \<not> isLineTerminator c"
  by (auto simp: isHexDigit_def isLineTerminator_def index_of_None js_eval)

lemma not_octal_line: "isOctalDigit c \<Longrightarrow> \<not> isLineTerminator c"
  by (auto simp: isOctalDigit_def isLineTerminator_def index_of_None js_eval)

lemma not_decimal_line: "isDecimalDigit c \<Longrightarrow> \<not> isLineTerminator c"
  by (auto simp: isDecimalDigit_def isLineTerminator_def)

end
