(* ===== verification/EsState.thy ===== *)
theory EsState
  imports EsChars
begin

text \<open>
  The state of \<^verbatim>\<open>esprima\<close>'s scanner: the module variables \<^verbatim>\<open>source\<close>, \<^verbatim>\<open>strict\<close>, \<^verbatim>\<open>index\<close>,
  \<^verbatim>\<open>lineNumber\<close>, \<^verbatim>\<open>lineStart\<close>, \<^verbatim>\<open>lookahead\<close>, the fields of \<^verbatim>\<open>state\<close> the scanner reads and the
  fields of \<^verbatim>\<open>extra\<close> it reads and writes, as one record. \<^verbatim>\<open>length\<close> is always the length of \<^verbatim>\<open>source\<close>.
  A function that may throw gives an \<open>outcome\<close>, which keeps the state in both cases: the callers
  that catch go on with the state the throw left.

  The engine's own functions whose result the scanner only stores are kept symbolic: a numeric
  literal has the text that \<^verbatim>\<open>parseInt\<close> or \<^verbatim>\<open>parseFloat\<close> is applied to.
\<close>

subsection \<open>Tokens\<close>

datatype token_type =
    BooleanLiteral | EOF | Identifier | Keyword | NullLiteral | NumericLiteral | Punctuator
  | StringLiteral | RegularExpression | Template | JSXIdentifier | JSXText

text \<open>\<^verbatim>\<open>TokenName\<close> has no name for templates.\<close>

fun TokenName :: "token_type \<Rightarrow> jsstring option" where
  "TokenName BooleanLiteral = Some (js ''Boolean'')"
| "TokenName EOF = Some (js ''<end>'')"
| "TokenName Identifier = Some (js ''Identifier'')"
| "TokenName Keyword = Some (js ''Keyword'')"
| "TokenName NullLiteral = Some (js ''Null'')"
| "TokenName NumericLiteral = Some (js ''Numeric'')"
| "TokenName Punctuator = Some (js ''Punctuator'')"
| "TokenName StringLiteral = Some (js ''String'')"
| "TokenName JSXIdentifier = Some (js ''JSXIdentifier'')"
| "TokenName JSXText = Some (js ''JSXText'')"
| "TokenName RegularExpression = Some (js ''RegularExpression'')"
| "TokenName Template = None"

definition FnExprTokens :: "jsstring list" where
  "FnExprTokens = map js
     [''('', ''{'', ''['', ''in'', ''typeof'', ''instanceof'', ''new'', ''return'', ''case'', ''delete'',
      ''throw'', ''void'', ''='', ''+='', ''-='', ''*='', ''/='', ''%='', ''<<='', ''>>='', ''>>>='', ''&='',
      ''|='', ''^='', '','', ''+'', ''-'', ''*'', ''/'', ''%'', ''++'', ''--'', ''<<'', ''>>'', ''>>>'', ''&'',
      ''|'', ''^'', ''!'', ''~'', ''&&'', ''||'', ''?'', '':'', ''==='', ''=='', ''>='', ''<='', ''<'', ''>'',
      ''!='', ''!=='']"

text \<open>\<^verbatim>\<open>parseInt(text, radix)\<close> and \<^verbatim>\<open>parseFloat(text)\<close>.\<close>

datatype number = ParseInt jsstring nat | ParseFloat jsstring

text \<open>
  The value of a token: \<^verbatim>\<open>undefined\<close>, a string, a number, a template's \<^verbatim>\<open>cooked\<close> and \<^verbatim>\<open>raw\<close>
  strings, a regular expression object or \<^verbatim>\<open>null\<close>.
\<close>

datatype tvalue =
    NoValue | Text jsstring | Number number | Quasi jsstring jsstring | RegExpObject jsstring jsstring
  | NullValue

record token =
  tok_type :: token_type
  tok_value :: tvalue
  tok_octal :: bool
  tok_tail :: bool
  tok_regex :: "(jsstring \<times> jsstring) option"
  tok_line :: nat
  tok_lineStart :: nat
  tok_range :: "nat \<times> nat"

text \<open>A position (line, column) and a pair of them.\<close>

type_synonym location = "(nat \<times> int) \<times> (nat \<times> int)"

text \<open>An entry of \<^verbatim>\<open>extra.tokens\<close>.\<close>

record entry =
  e_type :: "jsstring option"
  e_value :: jsstring
  e_range :: "(nat \<times> nat) option"
  e_loc :: "location option"
  e_regex :: "(jsstring \<times> jsstring) option"

datatype comment_type = Line | Block

record comment =
  c_type :: comment_type
  c_value :: jsstring
  c_range :: "(nat \<times> nat) option"
  c_loc :: "location option"

subsection \<open>Errors\<close>

text \<open>
  What is thrown: the error \<^verbatim>\<open>throwError\<close> builds (message, index, line, column, description), a
  failed assertion, or the engine's \<^verbatim>\<open>TypeError\<close> for a property of \<^verbatim>\<open>undefined\<close>.
\<close>

datatype thrown =
    Reported jsstring nat nat int jsstring
  | Assertion jsstring
  | PropertyOfUndefined

datatype (plugins only: code) message =
    UnexpectedToken
  | UnexpectedNumber
  | UnexpectedString
  | UnexpectedIdentifier
  | UnexpectedReserved
  | UnexpectedTemplate
  | UnexpectedEOS
  | NewlineAfterThrow
  | InvalidRegExp
  | UnterminatedRegExp
  | InvalidLHSInAssignment
  | InvalidLHSInFormalsList
  | InvalidLHSInForIn
  | MultipleDefaultsInSwitch
  | NoCatchOrFinally
  | UnknownLabel
  | Redeclaration
  | IllegalContinue
  | IllegalBreak
  | IllegalDuplicateClassProperty
  | IllegalClassConstructorProperty
  | IllegalReturn
  | IllegalSpread
  | StrictModeWith
  | StrictCatchVariable
  | StrictVarName
  | StrictParamName
  | StrictParamDupe
  | ParameterAfterRestParameter
  | DefaultRestParameter
  | ElementAfterSpreadElement
  | PropertyAfterSpreadProperty
  | ObjectPatternAsRestParameter
  | ObjectPatternAsSpread
  | StrictFunctionName
  | StrictOctalLiteral
  | StrictDelete
  | StrictDuplicateProperty
  | AccessorDataProperty
  | AccessorGetSet
  | StrictLHSAssignment
  | StrictLHSPostfix
  | StrictLHSPrefix
  | StrictReservedWord
  | MissingFromClause
  | NoAsAfterImportNamespace
  | InvalidModuleSpecifier
  | IllegalImportDeclaration
  | IllegalExportDeclaration
  | NoUninitializedConst
  | ComprehensionRequiresBlock
  | ComprehensionError
  | EachNotAllowed
  | InvalidJSXAttributeValue
  | ExpectedJSXClosingTag
  | AdjacentJSXElements
  | ConfusedAboutFunctionType

primrec Messages :: "message \<Rightarrow> jsstring" where
  "Messages UnexpectedToken = js ''Unexpected token %0''"
| "Messages UnexpectedNumber = js ''Unexpected number''"
| "Messages UnexpectedString = js ''Unexpected string''"
| "Messages UnexpectedIdentifier = js ''Unexpected identifier''"
| "Messages UnexpectedReserved = js ''Unexpected reserved word''"
| "Messages UnexpectedTemplate = js ''Unexpected quasi %0''"
| "Messages UnexpectedEOS = js ''Unexpected end of input''"
| "Messages NewlineAfterThrow = js ''Illegal newline after throw''"
| "Messages InvalidRegExp = js ''Invalid regular expression''"
| "Messages UnterminatedRegExp = js ''Invalid regular expression: missing /''"
| "Messages InvalidLHSInAssignment = js ''Invalid left-hand side in assignment''"
| "Messages InvalidLHSInFormalsList = js ''Invalid left-hand side in formals list''"
| "Messages InvalidLHSInForIn = js ''Invalid left-hand side in for-in''"
| "Messages MultipleDefaultsInSwitch = js ''More than one default clause in switch statement''"
| "Messages NoCatchOrFinally = js ''Missing catch or finally after try''"
| "Messages UnknownLabel = js ''Undefined label '' @ [39] @ js ''%0'' @ [39]"
| "Messages Redeclaration = js ''%0 '' @ [39] @ js ''%1'' @ [39] @ js '' has already been declared''"
| "Messages IllegalContinue = js ''Illegal continue statement''"
| "Messages IllegalBreak = js ''Illegal break statement''"
| "Messages IllegalDuplicateClassProperty = js ''Illegal duplicate property in class definition''"
| "Messages IllegalClassConstructorProperty = js ''Illegal constructor property in class definition''"
| "Messages IllegalReturn = js ''Illegal return statement''"
| "Messages IllegalSpread = js ''Illegal spread element''"
| "Messages StrictModeWith = js ''Strict mode code may not include a with statement''"
| "Messages StrictCatchVariable = js ''Catch variable may not be eval or arguments in strict mode''"
| "Messages StrictVarName = js ''Variable name may not be eval or arguments in strict mode''"
| "Messages StrictParamName = js ''Parameter name eval or arguments is not allowed in strict mode''"
| "Messages StrictParamDupe = js ''Strict mode function may not have duplicate parameter names''"
| "Messages ParameterAfterRestParameter = js ''Rest parameter must be final parameter of an argument list''"
| "Messages DefaultRestParameter = js ''Rest parameter can not have a default value''"
| "Messages ElementAfterSpreadElement = js ''Spread must be the final element of an element list''"
| "Messages PropertyAfterSpreadProperty = js ''A rest property must be the final property of an object literal''"
| "Messages ObjectPatternAsRestParameter = js ''Invalid rest parameter''"
| "Messages ObjectPatternAsSpread = js ''Invalid spread argument''"
| "Messages StrictFunctionName = js ''Function name may not be eval or arguments in strict mode''"
| "Messages StrictOctalLiteral = js ''Octal literals are not allowed in strict mode.''"
| "Messages StrictDelete = js ''Delete of an unqualified identifier in strict mode.''"
| "Messages StrictDuplicateProperty = js ''Duplicate data property in object literal not allowed in strict mode''"
| "Messages AccessorDataProperty = js ''Object literal may not have data and accessor property with the same name''"
| "Messages AccessorGetSet = js ''Object literal may not have multiple get/set accessors with the same name''"
| "Messages StrictLHSAssignment = js ''Assignment to eval or arguments is not allowed in strict mode''"
| "Messages StrictLHSPostfix = js ''Postfix increment/decrement may not have eval or arguments operand in strict mode''"
| "Messages StrictLHSPrefix = js ''Prefix increment/decrement may not have eval or arguments operand in strict mode''"
| "Messages StrictReservedWord = js ''Use of future reserved word in strict mode''"
| "Messages MissingFromClause = js ''Missing from clause''"
| "Messages NoAsAfterImportNamespace = js ''Missing as after import *''"
| "Messages InvalidModuleSpecifier = js ''Invalid module specifier''"
| "Messages IllegalImportDeclaration = js ''Illegal import declaration''"
| "Messages IllegalExportDeclaration = js ''Illegal export declaration''"
| "Messages NoUninitializedConst = js ''Const must be initialized''"
| "Messages ComprehensionRequiresBlock = js ''Comprehension must have at least one block''"
| "Messages ComprehensionError = js ''Comprehension Error''"
| "Messages EachNotAllowed = js ''Each is not supported''"
| "Messages InvalidJSXAttributeValue = js ''JSX value should be either an expression or a quoted JSX text''"
| "Messages ExpectedJSXClosingTag = js ''Expected corresponding JSX closing tag for %0''"
| "Messages AdjacentJSXElements = js ''Adjacent JSX elements must be wrapped in an enclosing tag''"
| "Messages ConfusedAboutFunctionType = js ''Unexpected token =>. It looks like you are trying to write a function type, but you ended up writing a grouped type followed by an =>, which is a syntax error. Remember, function type parameters are named so function types look like (name1: type1, name2: type2) => returnType. You probably wrote (type1) => returnType''"

text \<open>\<^verbatim>\<open>messageFormat.replace(/%(\d)/g, ...)\<close>: a reference without an argument fails an assertion.\<close>

fun format_message :: "jsstring \<Rightarrow> jsstring list \<Rightarrow> thrown + jsstring" where
  "format_message [] args = Inr []"
| "format_message [c] args = Inr [c]"
| "format_message (c # d # rest) args =
     (if c = 37 \<and> isDecimalDigit d then
        (if d - 48 < length args then
           (case format_message rest args of Inl e \<Rightarrow> Inl e | Inr t \<Rightarrow> Inr (args ! (d - 48) @ t))
         else Inl (Assertion (js ''ASSERT: Message reference must be in range'')))
      else (case format_message (d # rest) args of Inl e \<Rightarrow> Inl e | Inr t \<Rightarrow> Inr (c # t)))"

subsection \<open>The state\<close>

text \<open>The variables that say where the scanner is.\<close>

record pos =
  index :: nat
  lineNumber :: nat
  lineStart :: nat

record scanner =
  source :: jsstring
  strict :: bool
  pos :: pos
  lookahead :: "token option"
  inJSXTag :: bool
  inJSXChild :: bool
  inType :: bool
  lastCommentStart :: int
  x_range :: bool
  x_loc :: bool
  x_tokenize :: bool
  x_attachComment :: bool
  x_comments :: "comment list option"
  x_leadingComments :: "comment list"
  x_trailingComments :: "comment list"
  x_errors :: "thrown list option"
  x_tokens :: "entry list option"
  openParenToken :: int
  openCurlyToken :: int

text \<open>
  A function that only moves the position is written over the source and the position; its result
  is a \<open>scan\<close>. A function that also reads or writes the rest of the state gives an \<open>outcome\<close>.
\<close>

datatype 'a scan = Done 'a pos | Fail thrown pos

datatype 'a outcome = Ret 'a scanner | Throw thrown scanner

definition sbind :: "'a scan \<Rightarrow> ('a \<Rightarrow> pos \<Rightarrow> 'b scan) \<Rightarrow> 'b scan" where
  "sbind m f = (case m of Done x p \<Rightarrow> f x p | Fail e p \<Rightarrow> Fail e p)"

definition obind :: "'a outcome \<Rightarrow> ('a \<Rightarrow> scanner \<Rightarrow> 'b outcome) \<Rightarrow> 'b outcome" where
  "obind m f = (case m of Ret x s \<Rightarrow> f x s | Throw e s \<Rightarrow> Throw e s)"

text \<open>The state after a position function.\<close>

definition move :: "scanner \<Rightarrow> 'a scan \<Rightarrow> 'a outcome" where
  "move s m = (case m of Done x p \<Rightarrow> Ret x (s\<lparr>pos := p\<rparr>) | Fail e p \<Rightarrow> Throw e (s\<lparr>pos := p\<rparr>))"

lemma bind_simps [simp]:
  "sbind (Done x p) g = g x p" "sbind (Fail e p) g = Fail e p"
  "obind (Ret y s) f = f y s" "obind (Throw d s) f = Throw d s"
  "move s (Done x p) = Ret x (s\<lparr>pos := p\<rparr>)" "move s (Fail e p) = Throw e (s\<lparr>pos := p\<rparr>)"
  by (simp_all add: obind_def sbind_def move_def)

lemma obind_cong [fundef_cong]:
  assumes "m = m'" and "\<And>x s. m' = Ret x s \<Longrightarrow> f x s = f' x s"
  shows "obind m f = obind m' f'"
  using assms by (cases m') auto

lemma sbind_cong [fundef_cong]:
  assumes "m = m'" and "\<And>x s. m' = Done x s \<Longrightarrow> f x s = f' x s"
  shows "sbind m f = sbind m' f'"
  using assms by (cases m') auto

lemma obind_RetE:
  assumes "obind m f = Ret y t"
  obtains x s where "m = Ret x s" and "f x s = Ret y t"
  using assms by (cases m) auto

lemma sbind_DoneE:
  assumes "sbind m f = Done y t"
  obtains x s where "m = Done x s" and "f x s = Done y t"
  using assms by (cases m) auto

lemma move_RetE:
  assumes "move s m = Ret x t"
  obtains p where "m = Done x p" and "t = s\<lparr>pos := p\<rparr>"
  using assms by (cases m) auto

text \<open>\<^verbatim>\<open>source.charCodeAt(i)\<close> and \<^verbatim>\<open>source[i]\<close>: \<^verbatim>\<open>NaN\<close> or \<^verbatim>\<open>undefined\<close> past the end.\<close>

definition code_at :: "jsstring \<Rightarrow> nat \<Rightarrow> code_unit option" where
  "code_at src i = (if i < length src then Some (src ! i) else None)"

lemma code_at_Some: "code_at src i = Some c \<longleftrightarrow> i < length src \<and> src ! i = c"
  by (simp add: code_at_def)

text \<open>A test that \<^verbatim>\<open>NaN\<close> and \<^verbatim>\<open>undefined\<close> fail.\<close>

definition holds :: "(code_unit \<Rightarrow> bool) \<Rightarrow> code_unit option \<Rightarrow> bool" where
  "holds P c = (case c of None \<Rightarrow> False | Some x \<Rightarrow> P x)"

lemma holds_simps [simp]: "holds P None = False" "holds P (Some x) = P x"
  by (simp_all add: holds_def)

lemma holds_code_at: "holds P (code_at src i) \<longleftrightarrow> i < length src \<and> P (src ! i)"
  by (simp add: code_at_def)

text \<open>\<^verbatim>\<open>while (index < length && P(source[index])) ++index\<close>: the index after the loop.\<close>

function scan_while :: "(code_unit \<Rightarrow> bool) \<Rightarrow> jsstring \<Rightarrow> nat \<Rightarrow> nat" where
  "scan_while P src i = (if i < length src \<and> P (src ! i) then scan_while P src (i + 1) else i)"
  by pat_completeness auto
termination
  by (relation "measure (\<lambda>(P, src, i). length src - i)") auto

declare scan_while.simps [simp del]

definition column :: "pos \<Rightarrow> int" where
  "column p = int (index p) - int (lineStart p)"

text \<open>A new line starts at the current index.\<close>

definition new_line :: "pos \<Rightarrow> pos" where
  "new_line p = p\<lparr>lineNumber := lineNumber p + 1, lineStart := index p\<rparr>"

definition advance_by :: "nat \<Rightarrow> pos \<Rightarrow> pos" where
  "advance_by n p = p\<lparr>index := index p + n\<rparr>"

text \<open>
  The error \<^verbatim>\<open>throwError(token, messageFormat, ...)\<close> throws; \<^verbatim>\<open>{}\<close> as the token is \<open>None\<close>. The
  column is always counted from the \<^verbatim>\<open>lineStart\<close> of the scanner, also when the token has its own.
\<close>

definition error_at :: "token option \<Rightarrow> message \<Rightarrow> jsstring list \<Rightarrow> pos \<Rightarrow> thrown" where
  "error_at token messageFormat args p =
     (case format_message (Messages messageFormat) args of
        Inl e \<Rightarrow> e
      | Inr msg \<Rightarrow>
          (case token of
             Some t \<Rightarrow>
               Reported (js ''Line '' @ dec_digits (tok_line t) @ js '': '' @ msg) (fst (tok_range t))
                        (tok_line t) (int (fst (tok_range t)) - int (lineStart p) + 1) msg
           | None \<Rightarrow>
               Reported (js ''Line '' @ dec_digits (lineNumber p) @ js '': '' @ msg) (index p)
                        (lineNumber p) (int (index p) - int (lineStart p) + 1) msg))"

definition throwError :: "token option \<Rightarrow> message \<Rightarrow> jsstring list \<Rightarrow> scanner \<Rightarrow> 'a outcome" where
  "throwError token messageFormat args s = Throw (error_at token messageFormat args (pos s)) s"

definition throwErrorTolerant :: "token option \<Rightarrow> message \<Rightarrow> jsstring list \<Rightarrow> scanner \<Rightarrow> unit outcome" where
  "throwErrorTolerant token messageFormat args s =
     (case throwError token messageFormat args s of
        Ret x s \<Rightarrow> Ret x s
      | Throw e s \<Rightarrow>
          (case x_errors s of
             Some errors \<Rightarrow> Ret () (s\<lparr>x_errors := Some (errors @ [e])\<rparr>)
           | None \<Rightarrow> Throw e s))"

text \<open>\<^verbatim>\<open>throwError({}, Messages.UnexpectedToken, 'ILLEGAL')\<close>.\<close>

definition illegal :: "pos \<Rightarrow> 'a scan" where
  "illegal p = Fail (error_at None UnexpectedToken [js ''ILLEGAL''] p) p"

lemma illegal_simps [simp]:
  "illegal p \<noteq> Done x q" "sbind (illegal p) f = illegal p"
  "throwError t m args s \<noteq> Ret x s'" "obind (throwError t m args s) g = throwError t m args s"
  by (simp_all add: illegal_def throwError_def)

subsection \<open>Positions\<close>

lemma pos_simps [simp]:
  "index (advance_by n p) = index p + n" "lineNumber (advance_by n p) = lineNumber p"
  "lineStart (advance_by n p) = lineStart p" "advance_by m (advance_by n p) = advance_by (n + m) p"
  "index (new_line p) = index p" "lineNumber (new_line p) = lineNumber p + 1" "lineStart (new_line p) = index p"
  by (simp_all add: advance_by_def new_line_def)

lemma scan_while_bounds: "i \<le> scan_while P src i \<and> (i \<le> length src \<longrightarrow> scan_while P src i \<le> length src)"
proof (induction P src i rule: scan_while.induct)
  case (1 P src i)
  then show ?case by (subst (1 2) scan_while.simps) auto
qed

lemma scan_while_all: "\<lbrakk>i \<le> k; k < scan_while P src i\<rbrakk> \<Longrightarrow> P (src ! k)"
proof (induction P src i rule: scan_while.induct)
  case (1 P src i)
  then show ?case by (subst (asm) (2) scan_while.simps) (cases "k = i"; auto split: if_splits)
qed

lemma scan_while_stop: "scan_while P src i < length src \<Longrightarrow> \<not> P (src ! scan_while P src i)"
proof (induction P src i rule: scan_while.induct)
  case (1 P src i)
  then show ?case by (subst scan_while.simps) (subst (asm) (2) scan_while.simps, auto split: if_splits)
qed

end
