(* ===== verification/EsTrivia.thy ===== *)
theory EsTrivia
  imports EsState
begin

text \<open>
  White space, line terminators and comments: \<^verbatim>\<open>addComment\<close>, \<^verbatim>\<open>skipSingleLineComment\<close>,
  \<^verbatim>\<open>skipMultiLineComment\<close> and \<^verbatim>\<open>skipComment\<close>.
\<close>

definition addComment :: "comment_type \<Rightarrow> jsstring \<Rightarrow> nat \<Rightarrow> nat \<Rightarrow> location \<Rightarrow> scanner \<Rightarrow> scanner" where
  "addComment ctype cvalue start fin location s =
     (if lastCommentStart s \<ge> int start then s
      else
        let s = s\<lparr>lastCommentStart := int start\<rparr>;
            comment = \<lparr>c_type = ctype, c_value = cvalue,
                       c_range = (if x_range s then Some (start, fin) else None),
                       c_loc = (if x_loc s then Some location else None)\<rparr>;
            s = s\<lparr>x_comments := map_option (\<lambda>cs. cs @ [comment]) (x_comments s)\<rparr>
        in if x_attachComment s then
             s\<lparr>x_leadingComments := x_leadingComments s @ [comment],
               x_trailingComments := x_trailingComments s @ [comment]\<rparr>
           else s)"

text \<open>\<^verbatim>\<open>if (extra.comments)\<close> around the call.\<close>

definition note_comment :: "comment_type \<Rightarrow> jsstring \<Rightarrow> nat \<Rightarrow> nat \<Rightarrow> location \<Rightarrow> scanner \<Rightarrow> scanner" where
  "note_comment ctype cvalue start fin location s =
     (if x_comments s \<noteq> None then addComment ctype cvalue start fin location s else s)"

text \<open>
  A line terminator sequence at the index: carriage return and line feed count as one.
\<close>

definition after_terminator :: "jsstring \<Rightarrow> pos \<Rightarrow> pos" where
  "after_terminator src p =
     (if code_at src (index p) = Some 13 \<and> code_at src (index p + 1) = Some 10
      then new_line (advance_by 2 p) else new_line (advance_by 1 p))"

text \<open>
  \<^verbatim>\<open>skipSingleLineComment\<close>, called behind the two slashes: its loop runs to the end of the line or
  of the source.
\<close>

definition skipSingleLineComment :: "scanner \<Rightarrow> scanner" where
  "skipSingleLineComment s =
     (let p = pos s; start = index p - 2; from = (lineNumber p, column p - 2);
          fin = scan_while (\<lambda>c. \<not> isLineTerminator c) (source s) (index p);
          q = p\<lparr>index := fin\<rparr>;
          s = note_comment Line (substring (start + 2) fin (source s)) start fin
                (from, (lineNumber q, column q)) s
      in s\<lparr>pos := (if fin < length (source s) then after_terminator (source s) q else q)\<rparr>)"

text \<open>The loop of \<^verbatim>\<open>skipMultiLineComment\<close>, to the position behind the closing star and slash.\<close>

function block_loop :: "jsstring \<Rightarrow> pos \<Rightarrow> unit scan" where
  "block_loop src p =
     (if index p < length src then
        let ch = src ! index p
        in if isLineTerminator ch then
             let p = after_terminator src p
             in if index p \<ge> length src then illegal p else block_loop src p
           else if ch = 42 then
             (if code_at src (index p + 1) = Some 47 then Done () (advance_by 2 p)
              else block_loop src (advance_by 1 p))
           else block_loop src (advance_by 1 p)
      else illegal p)"
  by pat_completeness auto
termination
  by (relation "measure (\<lambda>(src, p). length src - index p)") (auto simp: after_terminator_def)

definition skipMultiLineComment :: "scanner \<Rightarrow> unit outcome" where
  "skipMultiLineComment s =
     (let start = index (pos s) - 2; from = (lineNumber (pos s), column (pos s) - 2)
      in obind (move s (block_loop (source s) (pos s))) (\<lambda>_ s.
           Ret () (note_comment Block (substring (start + 2) (index (pos s) - 2) (source s)) start
             (index (pos s)) (from, (lineNumber (pos s), column (pos s))) s)))"

declare block_loop.simps [simp del]

lemma comment_simps [simp]:
  "source (note_comment a b c d e s) = source s" "pos (note_comment a b c d e s) = pos s"
  "strict (note_comment a b c d e s) = strict s" "inJSXTag (note_comment a b c d e s) = inJSXTag s"
  "inJSXChild (note_comment a b c d e s) = inJSXChild s" "inType (note_comment a b c d e s) = inType s"
  "x_tokenize (note_comment a b c d e s) = x_tokenize s" "x_tokens (note_comment a b c d e s) = x_tokens s"
  "x_errors (note_comment a b c d e s) = x_errors s" "x_range (note_comment a b c d e s) = x_range s"
  "x_loc (note_comment a b c d e s) = x_loc s" "lookahead (note_comment a b c d e s) = lookahead s"
  "openParenToken (note_comment a b c d e s) = openParenToken s"
  "openCurlyToken (note_comment a b c d e s) = openCurlyToken s"
  by (simp_all add: note_comment_def addComment_def Let_def)

lemma after_terminator_index: "index p < index (after_terminator src p)"
  by (simp add: after_terminator_def)

lemma block_loop_index: "block_loop src p = Done x q \<Longrightarrow> index p \<le> index q"
proof (induction src p rule: block_loop.induct)
  case (1 src p)
  from "1.prems" "1.IH" after_terminator_index [of p src] show ?case
    by (subst (asm) block_loop.simps) (fastforce simp: Let_def split: if_splits)
qed

lemma skipSingleLineComment_index:
  "index (pos s) \<le> index (pos (skipSingleLineComment s))" "source (skipSingleLineComment s) = source s"
  using scan_while_bounds [of "index (pos s)" "\<lambda>c. \<not> isLineTerminator c" "source s"]
  by (auto simp: skipSingleLineComment_def Let_def intro: order_trans [OF _ less_imp_le [OF after_terminator_index]])

lemma skipMultiLineComment_index:
  "skipMultiLineComment s = Ret x t \<Longrightarrow> index (pos s) \<le> index (pos t) \<and> source t = source s"
  by (auto simp: skipMultiLineComment_def Let_def elim!: obind_RetE move_RetE dest: block_loop_index)

function skipComment :: "scanner \<Rightarrow> unit outcome" where
  "skipComment s =
     (if index (pos s) < length (source s) then
        let ch = source s ! index (pos s)
        in if isWhiteSpace ch then skipComment (s\<lparr>pos := advance_by 1 (pos s)\<rparr>)
           else if isLineTerminator ch then
             skipComment (s\<lparr>pos := after_terminator (source s) (pos s)\<rparr>)
           else if ch = 47 then
             (if code_at (source s) (index (pos s) + 1) = Some 47 then
                skipComment (skipSingleLineComment (s\<lparr>pos := advance_by 2 (pos s)\<rparr>))
              else if code_at (source s) (index (pos s) + 1) = Some 42 then
                obind (skipMultiLineComment (s\<lparr>pos := advance_by 2 (pos s)\<rparr>)) (\<lambda>_ s. skipComment s)
              else Ret () s)
           else Ret () s
      else Ret () s)"
  by pat_completeness auto
termination
proof (relation "measure (\<lambda>s. length (source s) - index (pos s))", goal_cases)
  case (3 s ch)
  then show ?case using after_terminator_index [of "pos s" "source s"] by simp
next
  case (4 s ch)
  then show ?case
    using skipSingleLineComment_index [of "s\<lparr>pos := advance_by 2 (pos s)\<rparr>"] by simp
next
  case (5 s ch x t)
  then show ?case by (auto dest!: skipMultiLineComment_index)
qed auto

declare skipComment.simps [simp del]

subsection \<open>Line tracking\<close>

text \<open>
  The positions one reaches by reading the source from its beginning: a line terminator sequence
  starts a new line behind it, any other character moves one on.
\<close>

definition first_line :: "jsstring \<Rightarrow> nat" where
  "first_line src = (if src = [] then 0 else 1)"

inductive tracks :: "jsstring \<Rightarrow> pos \<Rightarrow> bool" where
  beginning: "tracks src \<lparr>index = 0, lineNumber = first_line src, lineStart = 0\<rparr>"
| char: "\<lbrakk>tracks src p; index p < length src; \<not> isLineTerminator (src ! index p)\<rbrakk> \<Longrightarrow> tracks src (advance_by 1 p)"
| line: "\<lbrakk>tracks src p; index p < length src; isLineTerminator (src ! index p)\<rbrakk> \<Longrightarrow> tracks src (after_terminator src p)"

lemma tracks_bounded: "tracks src p \<Longrightarrow> index p \<le> length src"
  by (induction rule: tracks.induct) (auto simp: after_terminator_def code_at_def)

lemma tracks_chars:
  assumes "tracks src p" and "index p \<le> j" and "j \<le> length src"
    and "\<And>k. index p \<le> k \<Longrightarrow> k < j \<Longrightarrow> \<not> isLineTerminator (src ! k)"
  shows "tracks src (p\<lparr>index := j\<rparr>)"
  using assms(2,3,4)
proof (induction j rule: dec_induct)
  case base
  then show ?case using assms(1) by simp
next
  case (step j)
  then have "tracks src (p\<lparr>index := j\<rparr>)" by simp
  then have "tracks src (advance_by 1 (p\<lparr>index := j\<rparr>))" using step by (intro tracks.char) auto
  then show ?case by (simp add: advance_by_def)
qed

text \<open>
  What the position says: the line starts behind the last line terminator, and the line number
  counts the line terminator sequences before the index.
\<close>

definition line_ends :: "jsstring \<Rightarrow> nat \<Rightarrow> nat set" where
  "line_ends src i = {k. k < i \<and> isLineTerminator (src ! k) \<and> \<not> (src ! k = 13 \<and> code_at src (k + 1) = Some 10)}"

lemma line_ends_Suc:
  "line_ends src (Suc i) = (if isLineTerminator (src ! i) \<and> \<not> (src ! i = 13 \<and> code_at src (i + 1) = Some 10)
     then insert i (line_ends src i) else line_ends src i)"
  by (auto simp: line_ends_def less_Suc_eq)

lemma finite_line_ends [simp]: "finite (line_ends src i)"
  by (rule finite_subset [of _ "{..<i}"]) (auto simp: line_ends_def)

lemma line_ends_fresh [simp]: "i \<notin> line_ends src i"
  by (simp add: line_ends_def)

lemma tracks_line:
  assumes "tracks src p"
  shows "lineNumber p = first_line src + card (line_ends src (index p))
    \<and> lineStart p \<le> index p \<and> (\<forall>k. lineStart p \<le> k \<and> k < index p \<longrightarrow> \<not> isLineTerminator (src ! k))
    \<and> (lineStart p = 0 \<or> isLineTerminator (src ! (lineStart p - 1)))"
  using assms
proof (induction rule: tracks.induct)
  case (beginning src)
  show ?case by (simp add: line_ends_def)
next
  case (char src p)
  then show ?case by (auto simp: line_ends_Suc less_Suc_eq)
next
  case (line src p)
  have lf: "isLineTerminator 10" "isLineTerminator 13" by (simp_all add: isLineTerminator_def)
  show ?case
  proof (cases "code_at src (index p) = Some 13 \<and> code_at src (index p + 1) = Some 10")
    case True
    then have c: "src ! index p = 13" "src ! Suc (index p) = 10" by (simp_all add: code_at_Some)
    have "line_ends src (Suc (Suc (index p))) = insert (Suc (index p)) (line_ends src (index p))"
      using True lf by (simp add: line_ends_Suc c)
    moreover have "Suc (index p) \<notin> line_ends src (index p)" by (simp add: line_ends_def)
    ultimately show ?thesis using True line lf c by (simp add: after_terminator_def)
  next
    case False
    then have "\<not> (src ! index p = 13 \<and> code_at src (Suc (index p)) = Some 10)"
      using line by (simp add: code_at_def)
    moreover have "after_terminator src p = new_line (advance_by 1 p)" using False by (simp add: after_terminator_def)
    ultimately show ?thesis using line by (simp add: line_ends_Suc)
  qed
qed

subsection \<open>Trivia\<close>

definition at :: "jsstring \<Rightarrow> nat \<Rightarrow> code_unit \<Rightarrow> code_unit \<Rightarrow> bool" where
  "at src i c d \<longleftrightarrow> code_at src i = Some c \<and> code_at src (i + 1) = Some d"

text \<open>The white space and comments between two indices of the source.\<close>

inductive trivia :: "jsstring \<Rightarrow> nat \<Rightarrow> nat \<Rightarrow> bool" where
  none: "trivia src i i"
| space: "\<lbrakk>i < length src; isWhiteSpace (src ! i) \<or> isLineTerminator (src ! i); trivia src (i + 1) j\<rbrakk>
    \<Longrightarrow> trivia src i j"
| line_comment: "\<lbrakk>at src i 47 47; i + 2 \<le> k; k \<le> length src; \<And>m. i + 2 \<le> m \<Longrightarrow> m < k \<Longrightarrow> \<not> isLineTerminator (src ! m);
    k < length src \<Longrightarrow> isLineTerminator (src ! k); trivia src k j\<rbrakk> \<Longrightarrow> trivia src i j"
| block_comment: "\<lbrakk>at src i 47 42; i + 2 \<le> k; at src k 42 47; \<And>m. i + 2 \<le> m \<Longrightarrow> m < k \<Longrightarrow> \<not> at src m 42 47;
    trivia src (k + 2) j\<rbrakk> \<Longrightarrow> trivia src i j"

definition trivia_starts :: "jsstring \<Rightarrow> nat \<Rightarrow> bool" where
  "trivia_starts src i \<longleftrightarrow> holds (\<lambda>c. isWhiteSpace c \<or> isLineTerminator c) (code_at src i)
     \<or> at src i 47 47 \<or> at src i 47 42"

lemma at_not_line: "at src i c d \<Longrightarrow> \<not> isLineTerminator c \<Longrightarrow> i < length src \<and> \<not> isLineTerminator (src ! i)"
  by (simp add: at_def code_at_Some)

lemma block_loop_result:
  "case block_loop src p of
     Done x q \<Rightarrow> \<exists>k. index p \<le> k \<and> at src k 42 47 \<and> (\<forall>m. index p \<le> m \<and> m < k \<longrightarrow> \<not> at src m 42 47) \<and> index q = k + 2
   | Fail e q \<Rightarrow> \<forall>m \<ge> index p. \<not> at src m 42 47"
proof (induction src p rule: block_loop.induct)
  case (1 src p)
  have nl: "\<not> at src m 42 47" if "code_at src m = Some c" "isLineTerminator c" for m c
    using that by (auto simp: at_def isLineTerminator_def)
  have lf: "isLineTerminator 10" by (simp add: isLineTerminator_def)
  have skip: "case r of Done x q \<Rightarrow> \<exists>k. i \<le> k \<and> at src k 42 47 \<and> (\<forall>m. i \<le> m \<and> m < k \<longrightarrow> \<not> at src m 42 47) \<and> index q = k + 2
     | Fail e q \<Rightarrow> \<forall>m \<ge> i. \<not> at src m 42 47"
    if "i \<le> j" "\<And>m. i \<le> m \<Longrightarrow> m < j \<Longrightarrow> \<not> at src m 42 47"
      "case r of Done x q \<Rightarrow> \<exists>k. j \<le> k \<and> at src k 42 47 \<and> (\<forall>m. j \<le> m \<and> m < k \<longrightarrow> \<not> at src m 42 47) \<and> index q = k + 2
     | Fail e q \<Rightarrow> \<forall>m \<ge> j. \<not> at src m 42 47" for r :: "unit scan" and i j
    using that by (cases r) (auto, metis le_trans not_le, metis not_le)
  show ?case
  proof (cases "index p < length src")
    case False
    then show ?thesis by (subst block_loop.simps) (auto simp: illegal_def at_def code_at_def)
  next
    case inside: True
    let ?c = "src ! index p" and ?q = "after_terminator src p"
    have c: "code_at src (index p) = Some ?c" using inside by (simp add: code_at_def)
    consider (line) "isLineTerminator ?c" | (close) "\<not> isLineTerminator ?c" "at src (index p) 42 47"
      | (char) "\<not> isLineTerminator ?c" "\<not> at src (index p) 42 47" by blast
    then show ?thesis
    proof cases
      case line
      have before: "\<not> at src m 42 47" if "index p \<le> m" "m < index ?q" for m
        using that nl [OF c line] nl [of "Suc (index p)" 10] lf
        by (cases "m = index p") (auto simp: after_terminator_def less_Suc_eq split: if_splits)
      show ?thesis
      proof (cases "index ?q \<ge> length src")
        case True
        have "\<not> at src m 42 47" if "index p \<le> m" for m
          using before [OF that] True by (cases "m < index ?q") (auto simp: at_def code_at_def)
        then show ?thesis using inside line True by (subst block_loop.simps) (auto simp: Let_def illegal_def)
      next
        case False
        have "index p \<le> index ?q" using after_terminator_index by (rule less_imp_le)
        from skip [OF this before 1(1) [OF inside refl line refl False]] inside line False show ?thesis
          by (subst block_loop.simps) (simp add: Let_def)
      qed
    next
      case close
      then show ?thesis using inside by (subst block_loop.simps) (auto simp: Let_def at_def code_at_Some)
    next
      case char
      have e: "block_loop src p = block_loop src (advance_by 1 p)"
        using inside char c by (subst block_loop.simps) (simp add: Let_def at_def)
      have "?c = 42 \<Longrightarrow> code_at src (index p + 1) \<noteq> Some 47" using char(2) c by (simp add: at_def)
      note IH = 1(2) [OF inside refl char(1) _ this] 1(3) [OF inside refl char(1)]
      show ?thesis
      proof (cases "?c = 42")
        case True
        show ?thesis unfolding e using char(2) by (intro skip [OF _ _ IH(1) [OF True True]]) (auto simp: less_Suc_eq)
      next
        case False
        show ?thesis unfolding e using char(2) by (intro skip [OF _ _ IH(2) [OF False]]) (auto simp: less_Suc_eq)
      qed
    qed
  qed
qed

lemma at_chars: "at src i c d \<Longrightarrow> i + 1 < length src \<and> src ! i = c \<and> src ! (i + 1) = d"
  by (simp add: at_def code_at_Some)

lemma tracks_two:
  assumes "tracks src p" and "at src (index p) c d" and "\<not> isLineTerminator c" and "\<not> isLineTerminator d"
  shows "tracks src (advance_by 2 p)"
  using tracks_chars [OF assms(1), of "index p + 2"] at_chars [OF assms(2)] assms(3,4)
  by (auto simp: advance_by_def less_Suc_eq)

lemma slash_star_not_line: "\<not> isLineTerminator 47" "\<not> isLineTerminator 42"
  by (simp_all add: isLineTerminator_def)

lemma block_loop_tracks: "\<lbrakk>tracks src p; block_loop src p = Done x q\<rbrakk> \<Longrightarrow> tracks src q"
proof (induction src p rule: block_loop.induct)
  case (1 src p)
  show ?case
  proof (cases "index p < length src")
    case inside: True
    consider (line) "isLineTerminator (src ! index p)"
      | (close) "\<not> isLineTerminator (src ! index p)" "at src (index p) 42 47"
      | (char) "\<not> isLineTerminator (src ! index p)" "\<not> at src (index p) 42 47" by blast
    then show ?thesis
    proof cases
      case line
      then show ?thesis
        using "1.prems"(2) inside 1(1) [OF inside refl line refl] tracks.line [OF "1.prems"(1) inside line]
        by (subst (asm) block_loop.simps) (simp add: Let_def split: if_splits)
    next
      case close
      then have "q = advance_by 2 p" using "1.prems"(2) inside at_chars [OF close(2)]
        by (subst (asm) block_loop.simps) (simp add: at_def)
      then show ?thesis using tracks_two [OF "1.prems"(1) close(2)] slash_star_not_line by simp
    next
      case char
      then have "block_loop src (advance_by 1 p) = Done x q" using "1.prems"(2) inside
        by (subst (asm) block_loop.simps) (auto simp: at_def code_at_def Let_def split: if_splits)
      moreover have "tracks src (advance_by 1 p)" using tracks.char [OF "1.prems"(1) inside char(1)] .
      moreover have "src ! index p = 42 \<Longrightarrow> code_at src (index p + 1) \<noteq> Some 47"
        using char(2) inside by (simp add: at_def code_at_def)
      ultimately show ?thesis
        using 1(2) [OF inside refl char(1)] 1(3) [OF inside refl char(1)] by blast
    qed
  next
    case False
    then show ?thesis using "1.prems"(2) by (subst (asm) block_loop.simps) simp
  qed
qed

text \<open>What skipping leaves alone: everything but the position and the comments.\<close>

definition frame :: "scanner \<Rightarrow> scanner \<Rightarrow> bool" where
  "frame s t \<longleftrightarrow> source t = source s \<and> strict t = strict s \<and> inJSXTag t = inJSXTag s
     \<and> inJSXChild t = inJSXChild s \<and> inType t = inType s \<and> x_tokenize t = x_tokenize s
     \<and> x_tokens t = x_tokens s \<and> x_range t = x_range s \<and> x_loc t = x_loc s \<and> x_errors t = x_errors s
     \<and> openParenToken t = openParenToken s \<and> openCurlyToken t = openCurlyToken s"

lemma frame_refl [simp]: "frame s s"
  by (simp add: frame_def)

lemma frame_trans [trans]: "frame s t \<Longrightarrow> frame t u \<Longrightarrow> frame s u"
  by (simp add: frame_def)

lemma frame_pos [simp]: "frame s (t\<lparr>pos := p\<rparr>) = frame s t" "frame (s\<lparr>pos := p\<rparr>) t = frame s t"
  by (simp_all add: frame_def)

lemma frame_note_comment [simp]: "frame s (note_comment a b c d e t) = frame s t"
  by (simp add: frame_def)

lemma frame_source: "frame s t \<Longrightarrow> source t = source s"
  by (simp add: frame_def)

lemma trivia_terminator:
  assumes "index q < length src" and "isLineTerminator (src ! index q)"
    and "trivia src (index (after_terminator src q)) j"
  shows "trivia src (index q) j"
proof (cases "code_at src (index q) = Some 13 \<and> code_at src (index q + 1) = Some 10")
  case True
  moreover have "isLineTerminator 10" by (simp add: isLineTerminator_def)
  ultimately have "trivia src (index q + 1) j" using assms(3)
    by (intro trivia.space [of "index q + 1"]) (auto simp: code_at_Some after_terminator_def)
  then show ?thesis using assms(1,2) by (intro trivia.space [of "index q"]) auto
next
  case False
  then have "after_terminator src q = new_line (advance_by 1 q)" by (simp add: after_terminator_def)
  then show ?thesis using assms by (intro trivia.space [of "index q"]) auto
qed

lemma single_line_result:
  assumes "index (pos s) \<le> length (source s)"
  defines "k \<equiv> scan_while (\<lambda>c. \<not> isLineTerminator c) (source s) (index (pos s))"
  shows "frame s (skipSingleLineComment s)"
    and "index (pos s) \<le> k" "k \<le> length (source s)"
    and "\<And>m. \<lbrakk>index (pos s) \<le> m; m < k\<rbrakk> \<Longrightarrow> \<not> isLineTerminator (source s ! m)"
    and "k < length (source s) \<Longrightarrow> isLineTerminator (source s ! k)"
    and "tracks (source s) (pos s) \<Longrightarrow> tracks (source s) (pos (skipSingleLineComment s))"
    and "trivia (source s) (index (pos (skipSingleLineComment s))) j \<Longrightarrow> trivia (source s) k j"
proof -
  let ?P = "\<lambda>c. \<not> isLineTerminator c" and ?src = "source s"
  show "frame s (skipSingleLineComment s)" by (simp add: skipSingleLineComment_def Let_def)
  show b: "index (pos s) \<le> k" "k \<le> length ?src"
    using scan_while_bounds [of "index (pos s)" ?P ?src] assms(1) by (auto simp: k_def)
  show all: "\<not> isLineTerminator (?src ! m)" if "index (pos s) \<le> m" "m < k" for m
    using scan_while_all [of "index (pos s)" m ?P ?src] that by (simp add: k_def)
  show stop: "isLineTerminator (?src ! k)" if "k < length ?src"
    using scan_while_stop [of ?P ?src "index (pos s)"] that by (simp add: k_def)
  let ?q = "(pos s)\<lparr>index := k\<rparr>"
  have e: "pos (skipSingleLineComment s) = (if k < length ?src then after_terminator ?src ?q else ?q)"
    by (simp add: skipSingleLineComment_def Let_def k_def)
  show "tracks ?src (pos (skipSingleLineComment s))" if "tracks ?src (pos s)"
  proof -
    have "tracks ?src ?q" using that b all by (rule tracks_chars)
    then show ?thesis using tracks.line [of ?src ?q] stop by (simp add: e)
  qed
  show "trivia ?src k j" if t: "trivia ?src (index (pos (skipSingleLineComment s))) j"
  proof (cases "k < length ?src")
    case True
    then show ?thesis using trivia_terminator [of ?q ?src j] t stop by (simp add: e)
  next
    case False
    then show ?thesis using t by (simp add: e)
  qed
qed

lemma block_comment_result:
  "case skipMultiLineComment s of
     Ret x t \<Rightarrow> frame s t \<and> (tracks (source s) (pos s) \<longrightarrow> tracks (source s) (pos t))
       \<and> (\<exists>k. index (pos s) \<le> k \<and> at (source s) k 42 47 \<and> (\<forall>m. index (pos s) \<le> m \<and> m < k \<longrightarrow> \<not> at (source s) m 42 47)
            \<and> index (pos t) = k + 2)
   | Throw e t \<Rightarrow> frame s t \<and> (\<forall>m \<ge> index (pos s). \<not> at (source s) m 42 47)"
proof (cases "block_loop (source s) (pos s)")
  case (Done x p)
  then show ?thesis
    using block_loop_result [where src = "source s" and p = "pos s"] block_loop_tracks [OF _ Done]
    by (simp add: skipMultiLineComment_def Let_def)
next
  case (Fail e p)
  then show ?thesis
    using block_loop_result [where src = "source s" and p = "pos s"] by (simp add: skipMultiLineComment_def Let_def)
qed

text \<open>
  \<^verbatim>\<open>skipComment\<close> either stops behind trivia, where no trivia starts, or throws on a block comment
  that is not closed.
\<close>

definition skipped :: "scanner \<Rightarrow> unit outcome \<Rightarrow> bool" where
  "skipped s r = (case r of
     Ret x t \<Rightarrow> frame s t \<and> (tracks (source s) (pos s) \<longrightarrow> tracks (source s) (pos t))
       \<and> trivia (source s) (index (pos s)) (index (pos t)) \<and> \<not> trivia_starts (source s) (index (pos t))
   | Throw e t \<Rightarrow> frame s t \<and>
       (\<exists>k. trivia (source s) (index (pos s)) k \<and> at (source s) k 47 42 \<and> (\<forall>m \<ge> k + 2. \<not> at (source s) m 42 47)))"

lemma skipped_prefix:
  assumes "skipped s' r" and "frame s s'" and "tracks (source s) (pos s) \<Longrightarrow> tracks (source s) (pos s')"
    and "\<And>j. trivia (source s) (index (pos s')) j \<Longrightarrow> trivia (source s) (index (pos s)) j"
  shows "skipped s r"
  using assms(1,3,4) frame_source [OF assms(2)] frame_trans [OF assms(2)]
  by (auto simp: skipped_def split: outcome.splits)

lemma skipComment_skipped: "skipped s (skipComment s)"
proof (induction s rule: skipComment.induct)
  case (1 s)
  let ?src = "source s" and ?i = "index (pos s)"
  let ?c = "?src ! ?i"
  show ?case
  proof (cases "?i < length ?src")
    case inside: True
    then have c: "code_at ?src ?i = Some ?c" by (simp add: code_at_def)
    consider (white) "isWhiteSpace ?c" | (line) "\<not> isWhiteSpace ?c" "isLineTerminator ?c"
      | (slashes) "\<not> isWhiteSpace ?c" "\<not> isLineTerminator ?c" "at ?src ?i 47 47"
      | (block) "\<not> isWhiteSpace ?c" "\<not> isLineTerminator ?c" "at ?src ?i 47 42"
      | (other) "\<not> isWhiteSpace ?c" "\<not> isLineTerminator ?c" "\<not> at ?src ?i 47 47" "\<not> at ?src ?i 47 42" by blast
    then show ?thesis
    proof cases
      case white
      then have "skipComment s = skipComment (s\<lparr>pos := advance_by 1 (pos s)\<rparr>)"
        using inside by (subst skipComment.simps) simp
      moreover have "\<not> isLineTerminator ?c" using white line_terminator_not_white by blast
      ultimately show ?thesis using 1(1) [OF inside refl white] inside white
        by (elim skipped_prefix [THEN back_subst [of "skipped s"]]) (auto simp del: One_nat_def intro: tracks.char trivia.space)
    next
      case line
      let ?t = "s\<lparr>pos := after_terminator ?src (pos s)\<rparr>"
      have e: "skipComment s = skipComment ?t" using inside line by (subst skipComment.simps) simp
      have "trivia ?src ?i j" if "trivia ?src (index (pos ?t)) j" for j
        using that trivia_terminator [of "pos s" ?src j] inside line by simp
      then show ?thesis unfolding e using 1(2) [OF inside refl line] inside line
        by (elim skipped_prefix) (simp_all add: tracks.line)
    next
      case slashes
      let ?s = "s\<lparr>pos := advance_by 2 (pos s)\<rparr>"
      have 47: "?c = 47" "code_at ?src (?i + 1) = Some 47" and l: "?i + 2 \<le> length ?src"
        using slashes(3) by (simp_all add: at_def code_at_Some)
      have e: "skipComment s = skipComment (skipSingleLineComment ?s)"
        using inside slashes 47 by (subst skipComment.simps) simp
      note r = single_line_result [of ?s, simplified, OF l [simplified]]
      let ?k = "scan_while (\<lambda>c. \<not> isLineTerminator c) ?src (Suc (Suc ?i))"
      have "trivia ?src ?i j" if "trivia ?src (index (pos (skipSingleLineComment ?s))) j" for j
        by (rule trivia.line_comment [OF slashes(3), of ?k]) (use r that in simp_all)
      moreover have "tracks ?src (pos (skipSingleLineComment ?s))" if "tracks ?src (pos s)"
        using r(6) tracks_two [OF that slashes(3)] slash_star_not_line by simp
      ultimately show ?thesis unfolding e using 1(3) [OF inside refl slashes(1,2) 47] r(1)
        by (elim skipped_prefix) simp_all
    next
      case block
      let ?s = "s\<lparr>pos := advance_by 2 (pos s)\<rparr>"
      have 47: "?c = 47" "code_at ?src (?i + 1) \<noteq> Some 47" "code_at ?src (?i + 1) = Some 42"
        using block(3) by (simp_all add: at_def code_at_Some)
      have e: "skipComment s = obind (skipMultiLineComment ?s) (\<lambda>_ s. skipComment s)"
        using inside block 47 by (subst skipComment.simps) simp
      show ?thesis
      proof (cases "skipMultiLineComment ?s")
        case (Ret x t)
        have "skipped t (skipComment t)" using 1(4) [OF inside refl block(1,2) 47 Ret] .
        moreover obtain k where k: "Suc (Suc ?i) \<le> k" "at ?src k 42 47" "index (pos t) = k + 2"
            "\<And>m. \<lbrakk>Suc (Suc ?i) \<le> m; m < k\<rbrakk> \<Longrightarrow> \<not> at ?src m 42 47"
          and t: "frame s t" "tracks ?src (advance_by 2 (pos s)) \<longrightarrow> tracks ?src (pos t)"
          using Ret block_comment_result [of ?s] by auto
        have "trivia ?src ?i j" if "trivia ?src (index (pos t)) j" for j
          by (rule trivia.block_comment [OF block(3), of k]) (use k that in simp_all)
        moreover have "tracks ?src (pos t)" if "tracks ?src (pos s)"
          using t(2) tracks_two [OF that block(3)] slash_star_not_line by simp
        ultimately show ?thesis unfolding e Ret using t(1)
          by (simp, elim skipped_prefix) simp_all
      next
        case (Throw err t)
        then show ?thesis unfolding e using block_comment_result [of ?s] block(3)
          by (auto simp: skipped_def intro!: exI [of _ ?i] trivia.none)
      qed
    next
      case other
      then show ?thesis using inside c
        by (subst skipComment.simps) (auto simp: skipped_def Let_def at_def trivia_starts_def intro: trivia.none)
    qed
  next
    case False
    then show ?thesis
      by (subst skipComment.simps) (simp add: skipped_def trivia_starts_def at_def code_at_def trivia.none)
  qed
qed

text \<open>A block comment that is opened at an index and never closed.\<close>

definition unclosed :: "jsstring \<Rightarrow> nat \<Rightarrow> bool" where
  "unclosed src k \<longleftrightarrow> at src k 47 42 \<and> (\<forall>m \<ge> k + 2. \<not> at src m 42 47)"


end
