(* ===== verification/EsWords.thy ===== *)
theory EsWords
  imports EsTrivia
begin

text \<open>
  Identifiers, escapes, punctuators and numeric literals of the scanner: \<^verbatim>\<open>scanHexEscape\<close> to
  \<^verbatim>\<open>scanNumericLiteral\<close>.
\<close>

subsection \<open>Escapes\<close>

definition to_lower :: "code_unit \<Rightarrow> code_unit" where
  "to_lower c = (if 65 \<le> c \<and> c \<le> 90 then c + 32 else c)"

text \<open>\<^verbatim>\<open>'0123456789abcdef'.indexOf(ch.toLowerCase())\<close> of a hexadecimal digit.\<close>

definition hex_value :: "code_unit \<Rightarrow> nat" where
  "hex_value c = (case index_of (js ''0123456789abcdef'') (to_lower c) of Some k \<Rightarrow> k | None \<Rightarrow> 0)"

definition hex_number :: "jsstring \<Rightarrow> nat" where
  "hex_number ds = foldl (\<lambda>code c. code * 16 + hex_value c) 0 ds"

text \<open>
  \<^verbatim>\<open>scanHexEscape(prefix)\<close>: the character of two or four hexadecimal digits and the index behind
  them; the empty string, and the index of the first character that is no digit, otherwise.
\<close>

primrec hex_loop :: "jsstring \<Rightarrow> nat \<Rightarrow> nat \<Rightarrow> nat \<Rightarrow> jsstring \<times> nat" where
  "hex_loop src 0 i code = ([code], i)"
| "hex_loop src (Suc n) i code =
     (if i < length src \<and> isHexDigit (src ! i) then hex_loop src n (i + 1) (code * 16 + hex_value (src ! i))
      else ([], i))"

definition scanHexEscape :: "code_unit \<Rightarrow> jsstring \<Rightarrow> nat \<Rightarrow> jsstring \<times> nat" where
  "scanHexEscape prefix src i = hex_loop src (if prefix = 117 then 4 else 2) i 0"

text \<open>UTF-16 code units of a code point.\<close>

definition utf16 :: "nat \<Rightarrow> jsstring" where
  "utf16 code = (if code \<le> 0xFFFF then [code]
     else [(code - 0x10000) div 1024 + 0xD800, (code - 0x10000) mod 1024 + 0xDC00])"

text \<open>
  \<^verbatim>\<open>scanUnicodeCodePointEscape\<close>, called behind the opening brace. The loop takes the digits and
  the one character behind them.
\<close>

definition scanUnicodeCodePointEscape :: "jsstring \<Rightarrow> pos \<Rightarrow> jsstring scan" where
  "scanUnicodeCodePointEscape src p =
     (if code_at src (index p) = Some 125 then illegal p
      else
        let e = scan_while isHexDigit src (index p);
            code = hex_number (substring (index p) e src);
            q = p\<lparr>index := (if e < length src then e + 1 else e)\<rparr>
        in if code > 0x10FFFF \<or> code_at src e \<noteq> Some 125 then illegal q
           else Done (utf16 code) q)"

subsection \<open>Identifiers\<close>

text \<open>Behind a backslash of an identifier: the letter \<^verbatim>\<open>u\<close> and four digits of an allowed character.\<close>

definition identifier_escape :: "(code_unit \<Rightarrow> bool) \<Rightarrow> jsstring \<Rightarrow> pos \<Rightarrow> jsstring scan" where
  "identifier_escape allowed src p =
     (if code_at src (index p) \<noteq> Some 117 then illegal p
      else case scanHexEscape 117 src (index p + 1) of (ch, i) \<Rightarrow>
        (case ch of
           [] \<Rightarrow> illegal (p\<lparr>index := i\<rparr>)
         | c # _ \<Rightarrow> if c = 92 \<or> \<not> allowed c then illegal (p\<lparr>index := i\<rparr>) else Done ch (p\<lparr>index := i\<rparr>)))"

lemma hex_loop_index: "i \<le> snd (hex_loop src n i code)"
proof (induction n arbitrary: i code)
  case (Suc n)
  then show ?case using Suc [of "Suc i"] by (auto intro: Suc_leD)
qed simp

lemma identifier_escape_index: "identifier_escape P src p = Done x q \<Longrightarrow> index p < index q"
  using hex_loop_index [of "index p + 1" src 4 0]
  by (auto simp: identifier_escape_def scanHexEscape_def split: prod.splits list.splits if_splits)

function identifier_loop :: "jsstring \<Rightarrow> pos \<Rightarrow> jsstring \<Rightarrow> jsstring scan" where
  "identifier_loop src p name =
     (if index p < length src then
        let ch = src ! index p
        in if \<not> isIdentifierPart ch then Done name p
           else if ch = 92 then
             sbind (identifier_escape isIdentifierPart src (advance_by 1 p)) (\<lambda>ch p.
               identifier_loop src p (name @ ch))
           else identifier_loop src (advance_by 1 p) (name @ [ch])
      else Done name p)"
  by pat_completeness auto
termination
  by (relation "measure (\<lambda>(src, p, name). length src - index p)") (auto dest!: identifier_escape_index)

declare identifier_loop.simps [simp del]

text \<open>\<^verbatim>\<open>String.fromCharCode(NaN)\<close> is the character 0.\<close>

definition getEscapedIdentifier :: "jsstring \<Rightarrow> pos \<Rightarrow> jsstring scan" where
  "getEscapedIdentifier src p =
     (let ch = code_at src (index p); p = advance_by 1 p
      in if ch = Some 92 then
           sbind (identifier_escape isIdentifierStart src p) (\<lambda>name p. identifier_loop src p name)
         else identifier_loop src p (case ch of None \<Rightarrow> [0] | Some c \<Rightarrow> [c]))"

text \<open>\<^verbatim>\<open>getIdentifier\<close> starts over with \<^verbatim>\<open>getEscapedIdentifier\<close> when it meets a backslash.\<close>

definition getIdentifier :: "jsstring \<Rightarrow> pos \<Rightarrow> jsstring scan" where
  "getIdentifier src p =
     (let start = index p;
          e = scan_while (\<lambda>c. c \<noteq> 92 \<and> isIdentifierPart c) src (start + 1)
      in if code_at src e = Some 92 then getEscapedIdentifier src p
         else Done (substring start e src) (p\<lparr>index := e\<rparr>))"

definition mk_token :: "token_type \<Rightarrow> tvalue \<Rightarrow> nat \<Rightarrow> pos \<Rightarrow> token" where
  "mk_token ty v start p =
     \<lparr>tok_type = ty, tok_value = v, tok_octal = False, tok_tail = False, tok_regex = None,
      tok_line = lineNumber p, tok_lineStart = lineStart p, tok_range = (start, index p)\<rparr>"

definition identifier_type :: "bool \<Rightarrow> jsstring \<Rightarrow> token_type" where
  "identifier_type is_strict name =
     (if length name = 1 then Identifier
      else if isKeyword is_strict name then Keyword
      else if name = js ''null'' then NullLiteral
      else if name = js ''true'' \<or> name = js ''false'' then BooleanLiteral
      else Identifier)"

definition scanIdentifier :: "bool \<Rightarrow> jsstring \<Rightarrow> pos \<Rightarrow> token scan" where
  "scanIdentifier is_strict src p =
     sbind (if code_at src (index p) = Some 92 then getEscapedIdentifier src p else getIdentifier src p)
       (\<lambda>name q. Done (mk_token (identifier_type is_strict name) (Text name) (index p) q) q)"

subsection \<open>Punctuators\<close>

text \<open>
  \<^verbatim>\<open>scanPunctuator\<close> looks at up to four characters. The switch on the first two, and the tests
  after it; every branch takes as many characters as the value has.
\<close>

definition switch_punctuator :: "code_unit \<Rightarrow> code_unit option \<Rightarrow> code_unit option \<Rightarrow> jsstring option" where
  "switch_punctuator code code2 code3 =
     (if code \<in> {40, 41, 59, 44, 123, 125, 91, 93, 58, 63, 126} then Some [code]
      else if code2 = Some 61 then
        (if code \<in> {37, 38, 42, 43, 45, 47, 60, 62, 94, 124} then Some [code, 61]
         else if code \<in> {33, 61} then (if code3 = Some 61 then Some [code, 61, 61] else Some [code, 61])
         else None)
      else None)"

definition peek_punctuator ::
    "bool \<Rightarrow> code_unit \<Rightarrow> code_unit option \<Rightarrow> code_unit option \<Rightarrow> code_unit option \<Rightarrow> jsstring option" where
  "peek_punctuator in_type ch1 ch2 ch3 ch4 =
     (if ch1 = 62 \<and> ch2 = Some 62 \<and> ch3 = Some 62 \<and> ch4 = Some 61 then Some (js ''>>>='')
      else if ch1 = 62 \<and> ch2 = Some 62 \<and> ch3 = Some 62 \<and> \<not> in_type then Some (js ''>>>'')
      else if ch1 = 60 \<and> ch2 = Some 60 \<and> ch3 = Some 61 then Some (js ''<<='')
      else if ch1 = 62 \<and> ch2 = Some 62 \<and> ch3 = Some 61 then Some (js ''>>='')
      else if ch1 = 46 \<and> ch2 = Some 46 \<and> ch3 = Some 46 then Some (js ''...'')
      else if ch2 = Some ch1 \<and> ch1 \<in> set (js ''+-<>&|'') \<and> \<not> in_type then Some [ch1, ch1]
      else if ch1 = 61 \<and> ch2 = Some 62 then Some (js ''=>'')
      else if ch1 \<in> set (js ''<>=!+-*%&|^/'') then Some [ch1]
      else if ch1 = 46 then Some [ch1]
      else None)"

definition punctuator_text :: "bool \<Rightarrow> bool \<Rightarrow> jsstring \<Rightarrow> nat \<Rightarrow> jsstring option" where
  "punctuator_text in_jsx in_type src i =
     (case code_at src i of
        None \<Rightarrow> None
      | Some code \<Rightarrow>
          if in_jsx \<and> code \<in> {60, 62} then Some [code]
          else case switch_punctuator code (code_at src (i + 1)) (code_at src (i + 2)) of
            Some v \<Rightarrow> Some v
          | None \<Rightarrow> peek_punctuator in_type code (code_at src (i + 1)) (code_at src (i + 2)) (code_at src (i + 3)))"

text \<open>
  When tokenizing, the index in \<^verbatim>\<open>extra.tokens\<close> of the last opening parenthesis and curly brace
  is kept.
\<close>

definition note_open :: "code_unit option \<Rightarrow> scanner \<Rightarrow> unit outcome" where
  "note_open code s =
     (if x_tokenize s \<and> (code = Some 40 \<or> code = Some 123) then
        (case x_tokens s of
           None \<Rightarrow> Throw PropertyOfUndefined s
         | Some tokens \<Rightarrow>
             Ret () (if code = Some 40 then s\<lparr>openParenToken := int (length tokens)\<rparr>
                     else s\<lparr>openCurlyToken := int (length tokens)\<rparr>))
      else Ret () s)"

definition scanPunctuator :: "scanner \<Rightarrow> token outcome" where
  "scanPunctuator s =
     (let start = index (pos s); code = code_at (source s) start
      in case punctuator_text (inJSXTag s \<or> inJSXChild s) (inType s) (source s) start of
           None \<Rightarrow> throwError None UnexpectedToken [js ''ILLEGAL''] s
         | Some v \<Rightarrow>
             let s = s\<lparr>pos := advance_by (length v) (pos s)\<rparr>
             in obind (note_open code s) (\<lambda>_ s. Ret (mk_token Punctuator (Text v) start (pos s)) s))"

subsection \<open>Numeric literals\<close>

definition scanHexLiteral :: "nat \<Rightarrow> jsstring \<Rightarrow> pos \<Rightarrow> token scan" where
  "scanHexLiteral start src p =
     (let e = scan_while isHexDigit src (index p); number = substring (index p) e src; p = p\<lparr>index := e\<rparr>
      in if length number = 0 then illegal p
         else if holds isIdentifierStart (code_at src e) then illegal p
         else Done (mk_token NumericLiteral (Number (ParseInt (js ''0x'' @ number) 16)) start p) p)"

definition scanBinaryLiteral :: "nat \<Rightarrow> jsstring \<Rightarrow> pos \<Rightarrow> token scan" where
  "scanBinaryLiteral start src p =
     (let e = scan_while (\<lambda>c. c = 48 \<or> c = 49) src (index p); number = substring (index p) e src; p = p\<lparr>index := e\<rparr>
      in if length number = 0 then illegal p
         else if holds (\<lambda>c. isIdentifierStart c \<or> isDecimalDigit c) (code_at src e) then illegal p
         else Done (mk_token NumericLiteral (Number (ParseInt number 2)) start p) p)"

text \<open>The index is at the prefix: a first octal digit, or the letter o.\<close>

definition scanOctalLiteral :: "code_unit \<Rightarrow> nat \<Rightarrow> jsstring \<Rightarrow> pos \<Rightarrow> token scan" where
  "scanOctalLiteral prefix start src p =
     (let octal = isOctalDigit prefix; i = index p + 1;
          e = scan_while isOctalDigit src i;
          number = (if octal then js ''0'' @ substring (index p) i src else []) @ substring i e src;
          p = p\<lparr>index := e\<rparr>
      in if \<not> octal \<and> length number = 0 then illegal p
         else if holds (\<lambda>c. isIdentifierStart c \<or> isDecimalDigit c) (code_at src e) then illegal p
         else Done ((mk_token NumericLiteral (Number (ParseInt number 8)) start p)\<lparr>tok_octal := octal\<rparr>) p)"

text \<open>The fraction and the exponent behind the integer digits: the index after each.\<close>

definition fraction_end :: "jsstring \<Rightarrow> nat \<Rightarrow> nat" where
  "fraction_end src i = (if code_at src i = Some 46 then scan_while isDecimalDigit src (i + 1) else i)"

definition exponent :: "jsstring \<Rightarrow> pos \<Rightarrow> unit scan" where
  "exponent src p =
     (let i = index p
      in if code_at src i = Some 101 \<or> code_at src i = Some 69 then
           let j = (if code_at src (i + 1) = Some 43 \<or> code_at src (i + 1) = Some 45 then i + 2 else i + 1)
           in if holds isDecimalDigit (code_at src j) then Done () (p\<lparr>index := scan_while isDecimalDigit src j\<rparr>)
              else illegal (p\<lparr>index := j\<rparr>)
         else Done () p)"

definition decimal_literal :: "nat \<Rightarrow> jsstring \<Rightarrow> pos \<Rightarrow> token scan" where
  "decimal_literal start src p =
     (let p = p\<lparr>index := fraction_end src (index p)\<rparr>
      in sbind (exponent src p) (\<lambda>_ p.
           if holds isIdentifierStart (code_at src (index p)) then illegal p
           else Done (mk_token NumericLiteral (Number (ParseFloat (substring start (index p) src))) start p) p))"

definition scanNumericLiteral :: "jsstring \<Rightarrow> pos \<Rightarrow> token scan" where
  "scanNumericLiteral src p =
     (let start = index p
      in case code_at src start of
           None \<Rightarrow> Fail PropertyOfUndefined p
         | Some first \<Rightarrow>
             if \<not> (isDecimalDigit first \<or> first = 46) then
               Fail (Assertion (js ''ASSERT: Numeric literal must start with a decimal digit or a decimal point'')) p
             else if first = 46 then decimal_literal start src p
             else
               let p = advance_by 1 p; ch = code_at src (index p);
                   decimal = decimal_literal start src (p\<lparr>index := scan_while isDecimalDigit src (index p)\<rparr>)
               in if first = 48 then
                    (if ch = Some 120 \<or> ch = Some 88 then scanHexLiteral start src (advance_by 1 p)
                     else if ch = Some 98 \<or> ch = Some 66 then scanBinaryLiteral start src (advance_by 1 p)
                     else case ch of
                       None \<Rightarrow> decimal
                     | Some c \<Rightarrow>
                         if c = 111 \<or> c = 79 \<or> isOctalDigit c then scanOctalLiteral c start src p
                         else if isDecimalDigit c then illegal p
                         else decimal)
                  else decimal)"

end
