(* ===== verification/EsLiterals.thy ===== *)
theory EsLiterals
  imports EsWords
begin

text \<open>
  String literals, templates and regular expressions of the scanner: \<^verbatim>\<open>scanStringLiteral\<close> to
  \<^verbatim>\<open>scanRegExp\<close>.
\<close>

subsection \<open>Escapes in strings and templates\<close>

definition octal_value :: "code_unit \<Rightarrow> nat" where
  "octal_value c = (case index_of (js ''01234567'') c of Some k \<Rightarrow> k | None \<Rightarrow> 0)"

text \<open>
  An octal escape, behind its first digit \<open>ch\<close>: the code, whether it counts as octal (a lone zero
  does not), and the index behind it. A third digit is only taken after 0, 1, 2 or 3.
\<close>

definition octal_escape :: "jsstring \<Rightarrow> code_unit \<Rightarrow> nat \<Rightarrow> nat \<times> bool \<times> nat" where
  "octal_escape src ch i =
     (let code = octal_value ch; octal = (code \<noteq> 0)
      in if holds isOctalDigit (code_at src i) then
           let code = code * 8 + octal_value (src ! i)
           in if ch \<in> set (js ''0123'') \<and> holds isOctalDigit (code_at src (i + 1)) then
                (code * 8 + octal_value (src ! (i + 1)), True, i + 2)
              else (code, True, i + 1)
         else (code, octal, i))"

text \<open>
  The switch on the character \<open>ch\<close> behind a backslash, which is no line terminator; \<open>p\<close> is behind
  \<open>ch\<close>. The result is the text to append and whether the escape was octal.
\<close>

definition scan_escape :: "jsstring \<Rightarrow> code_unit \<Rightarrow> pos \<Rightarrow> (jsstring \<times> bool) scan" where
  "scan_escape src ch p =
     (if ch = 110 then Done ([10], False) p
      else if ch = 114 then Done ([13], False) p
      else if ch = 116 then Done ([9], False) p
      else if ch = 117 \<or> ch = 120 then
        (if code_at src (index p) = Some 123 then
           sbind (scanUnicodeCodePointEscape src (advance_by 1 p)) (\<lambda>t p. Done (t, False) p)
         else case scanHexEscape ch src (index p) of (unescaped, i) \<Rightarrow>
           if unescaped \<noteq> [] then Done (unescaped, False) (p\<lparr>index := i\<rparr>) else Done ([ch], False) p)
      else if ch = 98 then Done ([8], False) p
      else if ch = 102 then Done ([12], False) p
      else if ch = 118 then Done ([11], False) p
      else if isOctalDigit ch then
        (case octal_escape src ch (index p) of (code, octal, i) \<Rightarrow> Done ([code], octal) (p\<lparr>index := i\<rparr>))
      else Done ([ch], False) p)"

lemma octal_escape_index: "i \<le> snd (snd (octal_escape src ch i))"
  by (simp add: octal_escape_def Let_def)

lemma scanHexEscape_index: "i \<le> snd (scanHexEscape ch src i)"
  unfolding scanHexEscape_def by (rule hex_loop_index)

lemma scan_escape_index: "scan_escape src ch p = Done x q \<Longrightarrow> index p \<le> index q"
  using scanHexEscape_index [of "index p" ch src] octal_escape_index [of "index p" src ch]
    scan_while_bounds [of "index p + 1" isHexDigit src]
  by (auto simp: scan_escape_def scanUnicodeCodePointEscape_def Let_def split: if_splits prod.splits elim!: sbind_DoneE)

lemma after_terminator_back: "index q < index p + 2 \<Longrightarrow> index p \<le> index q \<Longrightarrow> index p < index (after_terminator src q)"
  using after_terminator_index [of q src] by linarith

subsection \<open>String literals\<close>

text \<open>
  The loop of \<^verbatim>\<open>scanStringLiteral\<close>: it ends at the quote; at a line terminator or the end of the
  source the literal is not terminated. Past the end of the source, the character behind a
  backslash is \<^verbatim>\<open>undefined\<close>; then the loop ends and the literal is not terminated either.
\<close>

function string_loop :: "jsstring \<Rightarrow> code_unit \<Rightarrow> pos \<Rightarrow> jsstring \<Rightarrow> bool \<Rightarrow> (jsstring \<times> bool) scan" where
  "string_loop src quote p str octal =
     (if index p < length src then
        let ch = src ! index p; q = advance_by 1 p
        in if ch = quote then Done (str, octal) q
           else if ch = 92 then
             (case code_at src (index q) of
                None \<Rightarrow> illegal (advance_by 1 q)
              | Some c \<Rightarrow>
                  if isLineTerminator c then string_loop src quote (after_terminator src q) str octal
                  else sbind (scan_escape src c (advance_by 1 q)) (\<lambda>r p.
                         string_loop src quote p (str @ fst r) (octal \<or> snd r)))
           else if isLineTerminator ch then illegal q
           else string_loop src quote q (str @ [ch]) octal
      else illegal p)"
  by pat_completeness auto
termination
  by (relation "measure (\<lambda>(src, quote, p, str, octal). length src - index p)")
    (auto dest!: scan_escape_index simp: after_terminator_def)

declare string_loop.simps [simp del]

definition scanStringLiteral :: "jsstring \<Rightarrow> pos \<Rightarrow> token scan" where
  "scanStringLiteral src p =
     (case code_at src (index p) of
        None \<Rightarrow> Fail (Assertion (js ''ASSERT: String literal must starts with a quote'')) p
      | Some quote \<Rightarrow>
          if \<not> (quote = 39 \<or> quote = 34) then
            Fail (Assertion (js ''ASSERT: String literal must starts with a quote'')) p
          else sbind (string_loop src quote (advance_by 1 p) [] False) (\<lambda>(str, octal) q.
                 Done ((mk_token StringLiteral (Text str) (index p) q)\<lparr>tok_octal := octal\<rparr>) q))"

subsection \<open>Templates\<close>

text \<open>
  The loop of \<^verbatim>\<open>scanTemplate\<close>: it ends behind a back quote (the tail) or behind a dollar sign and
  an opening brace. Here the character behind a backslash is used without a test, so a backslash
  at the end of the source makes the engine throw.
\<close>

function template_loop :: "jsstring \<Rightarrow> pos \<Rightarrow> jsstring \<Rightarrow> bool \<Rightarrow> (jsstring \<times> bool \<times> bool) scan" where
  "template_loop src p cooked octal =
     (if index p < length src then
        let ch = src ! index p; q = advance_by 1 p
        in if ch = 96 then Done (cooked, octal, True) q
           else if ch = 36 then
             (if code_at src (index q) = Some 123 then Done (cooked, octal, False) (advance_by 1 q)
              else template_loop src q (cooked @ [ch]) octal)
           else if ch = 92 then
             (case code_at src (index q) of
                None \<Rightarrow> Fail PropertyOfUndefined (advance_by 1 q)
              | Some c \<Rightarrow>
                  if isLineTerminator c then template_loop src (after_terminator src q) cooked octal
                  else sbind (scan_escape src c (advance_by 1 q)) (\<lambda>r p.
                         template_loop src p (cooked @ fst r) (octal \<or> snd r)))
           else if isLineTerminator ch then template_loop src (after_terminator src p) (cooked @ [10]) octal
           else template_loop src q (cooked @ [ch]) octal
      else illegal p)"
  by pat_completeness auto
termination
  by (relation "measure (\<lambda>(src, p, cooked, octal). length src - index p)")
    (auto dest!: scan_escape_index simp: after_terminator_def)

declare template_loop.simps [simp del]

definition scanTemplate :: "jsstring \<Rightarrow> pos \<Rightarrow> token scan" where
  "scanTemplate src p =
     (let start = index p
      in sbind (template_loop src (advance_by 1 p) [] False) (\<lambda>(cooked, octal, tail) q.
           Done ((mk_token Template (Quasi cooked (substring (start + 1) (index q - (if tail then 1 else 2)) src))
                   start q)\<lparr>tok_octal := octal, tok_tail := tail\<rparr>) q))"

subsection \<open>Regular expressions\<close>

text \<open>
  What the scanner needs of the engine: whether \<^verbatim>\<open>new RegExp(pattern, flags)\<close> succeeds (no flags
  is \<open>None\<close>), and the string form of the properties every object inherits from \<^verbatim>\<open>Object.prototype\<close>.
\<close>

record engine =
  RegExp_valid :: "jsstring \<Rightarrow> jsstring option \<Rightarrow> bool"
  inherited :: "jsstring \<Rightarrow> jsstring option"

text \<open>
  The two replacements \<^verbatim>\<open>testRegExp\<close> makes for the flag \<^verbatim>\<open>u\<close>: a code point escape becomes the letter x
  (or throws, when there is no such code point), and so does a surrogate pair.
\<close>

function replace_code_points :: "jsstring \<Rightarrow> jsstring option" where
  "replace_code_points s =
     (case s of
        [] \<Rightarrow> Some []
      | c # r \<Rightarrow>
          let digits = takeWhile isHexDigit (drop 2 r); rest = dropWhile isHexDigit (drop 2 r)
          in if c = 92 \<and> take 2 r = [117, 123] \<and> digits \<noteq> [] \<and> rest \<noteq> [] \<and> hd rest = 125 then
               (if hex_number digits \<le> 0x10FFFF then map_option ((#) 120) (replace_code_points (tl rest))
                else None)
             else map_option ((#) c) (replace_code_points r))"
  by pat_completeness auto
termination
proof (relation "measure length", goal_cases)
  case (2 s c r digits rest)
  have "length (tl rest) \<le> length rest" by simp
  also have "\<dots> \<le> length (drop 2 r)" unfolding 2(3) by (rule length_dropWhile_le)
  also have "\<dots> \<le> length r" by simp
  finally show ?case using 2(1) by simp
qed simp_all

declare replace_code_points.simps [simp del]

fun replace_surrogates :: "jsstring \<Rightarrow> jsstring" where
  "replace_surrogates (c # d # r) =
     (if 0xD800 \<le> c \<and> c \<le> 0xDBFF \<and> 0xDC00 \<le> d \<and> d \<le> 0xDFFF then 120 # replace_surrogates r
      else c # replace_surrogates (d # r))"
| "replace_surrogates s = s"

definition testRegExp :: "engine \<Rightarrow> jsstring \<Rightarrow> jsstring \<Rightarrow> scanner \<Rightarrow> tvalue outcome" where
  "testRegExp eng pattern flags s =
     (let tmp = (if 117 \<in> set flags then map_option replace_surrogates (replace_code_points pattern) else Some pattern)
      in case tmp of
           None \<Rightarrow> throwError None InvalidRegExp [] s
         | Some tmp \<Rightarrow>
             if \<not> RegExp_valid eng tmp None then throwError None InvalidRegExp [] s
             else Ret (if RegExp_valid eng pattern (Some flags) then RegExpObject pattern flags else NullValue) s)"

function body_loop :: "jsstring \<Rightarrow> pos \<Rightarrow> bool \<Rightarrow> unit scan" where
  "body_loop src p classMarker =
     (if index p < length src then
        let ch = src ! index p; q = advance_by 1 p
        in if ch = 92 then
             (case code_at src (index q) of
                None \<Rightarrow> Fail PropertyOfUndefined (advance_by 1 q)
              | Some c \<Rightarrow>
                  if isLineTerminator c then
                    Fail (error_at None UnterminatedRegExp [] (advance_by 1 q)) (advance_by 1 q)
                  else body_loop src (advance_by 1 q) classMarker)
           else if isLineTerminator ch then Fail (error_at None UnterminatedRegExp [] q) q
           else if classMarker then body_loop src q (ch \<noteq> 93)
           else if ch = 47 then Done () q
           else body_loop src q (ch = 91)
      else Fail (error_at None UnterminatedRegExp [] p) p)"
  by pat_completeness auto
termination
  by (relation "measure (\<lambda>(src, p, classMarker). length src - index p)") auto

declare body_loop.simps [simp del]

text \<open>
  \<^verbatim>\<open>scanRegExpBody\<close>: the body without its slashes, and the literal with them. The loop appends
  every character it takes, so the literal is the slice of the source.
\<close>

definition scanRegExpBody :: "jsstring \<Rightarrow> pos \<Rightarrow> (jsstring \<times> jsstring) scan" where
  "scanRegExpBody src p =
     (if code_at src (index p) \<noteq> Some 47 then
        Fail (Assertion (js ''ASSERT: Regular expression literal must start with a slash'')) p
      else sbind (body_loop src (advance_by 1 p) False) (\<lambda>_ q.
        let str = substring (index p) (index q) src
        in Done (take (length str - 2) (drop 1 str), str) q))"

text \<open>
  The loop of \<^verbatim>\<open>scanRegExpFlags\<close>. A backslash among the flags is reported with
  \<^verbatim>\<open>throwErrorTolerant\<close>, which lets the loop go on when errors are collected.
\<close>

lemma throwErrorTolerant_state:
  "throwErrorTolerant t m args s = Ret x s' \<Longrightarrow> \<exists>es. s' = s\<lparr>x_errors := es\<rparr>"
  by (auto simp: throwErrorTolerant_def throwError_def split: option.splits)

function flags_loop :: "scanner \<Rightarrow> jsstring \<Rightarrow> jsstring \<Rightarrow> (jsstring \<times> jsstring) outcome" where
  "flags_loop s flags str =
     (let src = source s; p = pos s
      in if holds isIdentifierPart (code_at src (index p)) then
           let ch = src ! index p; p = advance_by 1 p
           in if ch = 92 \<and> index p < length src then
                (if code_at src (index p) = Some 117 then
                   let restore = index p + 1; hex = scanHexEscape 117 src restore
                   in if fst hex \<noteq> [] then
                        obind (throwErrorTolerant None UnexpectedToken [js ''ILLEGAL''] (s\<lparr>pos := p\<lparr>index := snd hex\<rparr>\<rparr>)) (\<lambda>_ s.
                          flags_loop s (flags @ fst hex) (str @ [92, 117] @ substring restore (snd hex) src))
                      else
                        obind (throwErrorTolerant None UnexpectedToken [js ''ILLEGAL''] (s\<lparr>pos := p\<lparr>index := restore\<rparr>\<rparr>)) (\<lambda>_ s.
                          flags_loop s (flags @ [117]) (str @ [92, 117]))
                 else
                   obind (throwErrorTolerant None UnexpectedToken [js ''ILLEGAL''] (s\<lparr>pos := p\<rparr>)) (\<lambda>_ s.
                     flags_loop s flags (str @ [92])))
              else flags_loop (s\<lparr>pos := p\<rparr>) (flags @ [ch]) (str @ [ch])
         else Ret (flags, str) s)"
  by pat_completeness auto
termination
proof (relation "measure (\<lambda>(s, flags, str). length (source s) - index (pos s))", goal_cases)
  case (2 s flags str src p ch q restore hex x t)
  have "restore \<le> snd hex" using scanHexEscape_index [of restore 117 src] 2 by simp
  then show ?case using 2 by (auto simp: holds_code_at dest!: throwErrorTolerant_state)
qed (auto simp: holds_code_at dest!: throwErrorTolerant_state)

declare flags_loop.simps [simp del]

definition scanRegExpFlags :: "scanner \<Rightarrow> (jsstring \<times> jsstring) outcome" where
  "scanRegExpFlags s = flags_loop s [] []"

text \<open>
  \<^verbatim>\<open>scanRegExp\<close>: a token when tokenizing, otherwise an object with the literal and no line.
\<close>

datatype regexp_result =
    RegToken token
  | RegLiteral jsstring tvalue "jsstring \<times> jsstring" "nat \<times> nat"

definition scanRegExp :: "engine \<Rightarrow> scanner \<Rightarrow> regexp_result outcome" where
  "scanRegExp eng s =
     obind (skipComment (s\<lparr>lookahead := None\<rparr>)) (\<lambda>_ s.
       let start = index (pos s)
       in obind (move s (scanRegExpBody (source s) (pos s))) (\<lambda>(body, literal) s.
            obind (scanRegExpFlags s) (\<lambda>(flags, flags_literal) s.
              obind (testRegExp eng body flags s) (\<lambda>value s.
                if x_tokenize s then
                  Ret (RegToken ((mk_token RegularExpression value start (pos s))\<lparr>tok_regex := Some (body, flags)\<rparr>)) s
                else
                  Ret (RegLiteral (literal @ flags_literal) value (body, flags) (start, index (pos s))) s))))"

end
