(* ===== verification/EsJsx.thy ===== *)
theory EsJsx
  imports EsLiterals
begin

text \<open>
  The scanner inside JSX: identifiers with hyphens, text with entities, attribute strings
  (\<^verbatim>\<open>isJSXIdentifierStart\<close> to \<^verbatim>\<open>advanceJSXChild\<close>), and the table of entity names.
\<close>

subsection \<open>Entities\<close>

text \<open>\<^verbatim>\<open>XHTMLEntities\<close>, in two parts: the character of each name.\<close>

definition entities_latin :: "(jsstring \<times> code_unit) list" where
  "entities_latin = [
    (js ''quot'', 0x0022), (js ''amp'', 0x0026), (js ''apos'', 0x0027), (js ''lt'', 0x003C),
    (js ''gt'', 0x003E), (js ''nbsp'', 0x00A0), (js ''iexcl'', 0x00A1), (js ''cent'', 0x00A2),
    (js ''pound'', 0x00A3), (js ''curren'', 0x00A4), (js ''yen'', 0x00A5), (js ''brvbar'', 0x00A6),
    (js ''sect'', 0x00A7), (js ''uml'', 0x00A8), (js ''copy'', 0x00A9), (js ''ordf'', 0x00AA),
    (js ''laquo'', 0x00AB), (js ''not'', 0x00AC), (js ''shy'', 0x00AD), (js ''reg'', 0x00AE),
    (js ''macr'', 0x00AF), (js ''deg'', 0x00B0), (js ''plusmn'', 0x00B1), (js ''sup2'', 0x00B2),
    (js ''sup3'', 0x00B3), (js ''acute'', 0x00B4), (js ''micro'', 0x00B5), (js ''para'', 0x00B6),
    (js ''middot'', 0x00B7), (js ''cedil'', 0x00B8), (js ''sup1'', 0x00B9), (js ''ordm'', 0x00BA),
    (js ''raquo'', 0x00BB), (js ''frac14'', 0x00BC), (js ''frac12'', 0x00BD), (js ''frac34'', 0x00BE),
    (js ''iquest'', 0x00BF), (js ''Agrave'', 0x00C0), (js ''Aacute'', 0x00C1), (js ''Acirc'', 0x00C2),
    (js ''Atilde'', 0x00C3), (js ''Auml'', 0x00C4), (js ''Aring'', 0x00C5), (js ''AElig'', 0x00C6),
    (js ''Ccedil'', 0x00C7), (js ''Egrave'', 0x00C8), (js ''Eacute'', 0x00C9), (js ''Ecirc'', 0x00CA),
    (js ''Euml'', 0x00CB), (js ''Igrave'', 0x00CC), (js ''Iacute'', 0x00CD), (js ''Icirc'', 0x00CE),
    (js ''Iuml'', 0x00CF), (js ''ETH'', 0x00D0), (js ''Ntilde'', 0x00D1), (js ''Ograve'', 0x00D2),
    (js ''Oacute'', 0x00D3), (js ''Ocirc'', 0x00D4), (js ''Otilde'', 0x00D5), (js ''Ouml'', 0x00D6),
    (js ''times'', 0x00D7), (js ''Oslash'', 0x00D8), (js ''Ugrave'', 0x00D9), (js ''Uacute'', 0x00DA),
    (js ''Ucirc'', 0x00DB), (js ''Uuml'', 0x00DC), (js ''Yacute'', 0x00DD), (js ''THORN'', 0x00DE),
    (js ''szlig'', 0x00DF), (js ''agrave'', 0x00E0), (js ''aacute'', 0x00E1), (js ''acirc'', 0x00E2),
    (js ''atilde'', 0x00E3), (js ''auml'', 0x00E4), (js ''aring'', 0x00E5), (js ''aelig'', 0x00E6),
    (js ''ccedil'', 0x00E7), (js ''egrave'', 0x00E8), (js ''eacute'', 0x00E9), (js ''ecirc'', 0x00EA),
    (js ''euml'', 0x00EB), (js ''igrave'', 0x00EC), (js ''iacute'', 0x00ED), (js ''icirc'', 0x00EE),
    (js ''iuml'', 0x00EF), (js ''eth'', 0x00F0), (js ''ntilde'', 0x00F1), (js ''ograve'', 0x00F2),
    (js ''oacute'', 0x00F3), (js ''ocirc'', 0x00F4), (js ''otilde'', 0x00F5), (js ''ouml'', 0x00F6),
    (js ''divide'', 0x00F7), (js ''oslash'', 0x00F8), (js ''ugrave'', 0x00F9), (js ''uacute'', 0x00FA),
    (js ''ucirc'', 0x00FB), (js ''uuml'', 0x00FC), (js ''yacute'', 0x00FD), (js ''thorn'', 0x00FE),
    (js ''yuml'', 0x00FF), (js ''OElig'', 0x0152), (js ''oelig'', 0x0153), (js ''Scaron'', 0x0160),
    (js ''scaron'', 0x0161), (js ''Yuml'', 0x0178), (js ''fnof'', 0x0192), (js ''circ'', 0x02C6),
    (js ''tilde'', 0x02DC), (js ''Alpha'', 0x0391), (js ''Beta'', 0x0392), (js ''Gamma'', 0x0393),
    (js ''Delta'', 0x0394), (js ''Epsilon'', 0x0395), (js ''Zeta'', 0x0396), (js ''Eta'', 0x0397),
    (js ''Theta'', 0x0398), (js ''Iota'', 0x0399), (js ''Kappa'', 0x039A), (js ''Lambda'', 0x039B),
    (js ''Mu'', 0x039C), (js ''Nu'', 0x039D), (js ''Xi'', 0x039E), (js ''Omicron'', 0x039F),
    (js ''Pi'', 0x03A0), (js ''Rho'', 0x03A1), (js ''Sigma'', 0x03A3), (js ''Tau'', 0x03A4),
    (js ''Upsilon'', 0x03A5), (js ''Phi'', 0x03A6), (js ''Chi'', 0x03A7), (js ''Psi'', 0x03A8),
    (js ''Omega'', 0x03A9), (js ''alpha'', 0x03B1), (js ''beta'', 0x03B2), (js ''gamma'', 0x03B3),
    (js ''delta'', 0x03B4), (js ''epsilon'', 0x03B5), (js ''zeta'', 0x03B6), (js ''eta'', 0x03B7),
    (js ''theta'', 0x03B8), (js ''iota'', 0x03B9), (js ''kappa'', 0x03BA), (js ''lambda'', 0x03BB),
    (js ''mu'', 0x03BC), (js ''nu'', 0x03BD), (js ''xi'', 0x03BE), (js ''omicron'', 0x03BF)]"

definition entities_symbols :: "(jsstring \<times> code_unit) list" where
  "entities_symbols = [
    (js ''pi'', 0x03C0), (js ''rho'', 0x03C1), (js ''sigmaf'', 0x03C2), (js ''sigma'', 0x03C3),
    (js ''tau'', 0x03C4), (js ''upsilon'', 0x03C5), (js ''phi'', 0x03C6), (js ''chi'', 0x03C7),
    (js ''psi'', 0x03C8), (js ''omega'', 0x03C9), (js ''thetasym'', 0x03D1), (js ''upsih'', 0x03D2),
    (js ''piv'', 0x03D6), (js ''ensp'', 0x2002), (js ''emsp'', 0x2003), (js ''thinsp'', 0x2009),
    (js ''zwnj'', 0x200C), (js ''zwj'', 0x200D), (js ''lrm'', 0x200E), (js ''rlm'', 0x200F),
    (js ''ndash'', 0x2013), (js ''mdash'', 0x2014), (js ''lsquo'', 0x2018), (js ''rsquo'', 0x2019),
    (js ''sbquo'', 0x201A), (js ''ldquo'', 0x201C), (js ''rdquo'', 0x201D), (js ''bdquo'', 0x201E),
    (js ''dagger'', 0x2020), (js ''Dagger'', 0x2021), (js ''bull'', 0x2022), (js ''hellip'', 0x2026),
    (js ''permil'', 0x2030), (js ''prime'', 0x2032), (js ''Prime'', 0x2033), (js ''lsaquo'', 0x2039),
    (js ''rsaquo'', 0x203A), (js ''oline'', 0x203E), (js ''frasl'', 0x2044), (js ''euro'', 0x20AC),
    (js ''image'', 0x2111), (js ''weierp'', 0x2118), (js ''real'', 0x211C), (js ''trade'', 0x2122),
    (js ''alefsym'', 0x2135), (js ''larr'', 0x2190), (js ''uarr'', 0x2191), (js ''rarr'', 0x2192),
    (js ''darr'', 0x2193), (js ''harr'', 0x2194), (js ''crarr'', 0x21B5), (js ''lArr'', 0x21D0),
    (js ''uArr'', 0x21D1), (js ''rArr'', 0x21D2), (js ''dArr'', 0x21D3), (js ''hArr'', 0x21D4),
    (js ''forall'', 0x2200), (js ''part'', 0x2202), (js ''exist'', 0x2203), (js ''empty'', 0x2205),
    (js ''nabla'', 0x2207), (js ''isin'', 0x2208), (js ''notin'', 0x2209), (js ''ni'', 0x220B),
    (js ''prod'', 0x220F), (js ''sum'', 0x2211), (js ''minus'', 0x2212), (js ''lowast'', 0x2217),
    (js ''radic'', 0x221A), (js ''prop'', 0x221D), (js ''infin'', 0x221E), (js ''ang'', 0x2220),
    (js ''and'', 0x2227), (js ''or'', 0x2228), (js ''cap'', 0x2229), (js ''cup'', 0x222A),
    (js ''int'', 0x222B), (js ''there4'', 0x2234), (js ''sim'', 0x223C), (js ''cong'', 0x2245),
    (js ''asymp'', 0x2248), (js ''ne'', 0x2260), (js ''equiv'', 0x2261), (js ''le'', 0x2264),
    (js ''ge'', 0x2265), (js ''sub'', 0x2282), (js ''sup'', 0x2283), (js ''nsub'', 0x2284),
    (js ''sube'', 0x2286), (js ''supe'', 0x2287), (js ''oplus'', 0x2295), (js ''otimes'', 0x2297),
    (js ''perp'', 0x22A5), (js ''sdot'', 0x22C5), (js ''lceil'', 0x2308), (js ''rceil'', 0x2309),
    (js ''lfloor'', 0x230A), (js ''rfloor'', 0x230B), (js ''lang'', 0x2329), (js ''rang'', 0x232A),
    (js ''loz'', 0x25CA), (js ''spades'', 0x2660), (js ''clubs'', 0x2663), (js ''hearts'', 0x2665),
    (js ''diams'', 0x2666)]"

definition XHTMLEntities :: "(jsstring \<times> code_unit) list" where
  "XHTMLEntities = entities_latin @ entities_symbols"

text \<open>
  \<^verbatim>\<open>String.fromCharCode(+text)\<close>, or \<open>None\<close> when \<^verbatim>\<open>+text\<close> is \<^verbatim>\<open>NaN\<close>: white space around a number is
  dropped, the empty string is 0, a number may be hexadecimal or decimal with a fraction and an
  exponent; the character has the integer part modulo \<open>2 ^ 16\<close>.
\<close>

definition is_str_white :: "code_unit \<Rightarrow> bool" where
  "is_str_white c = (c \<in> {9, 11, 12, 32, 0xA0} \<union> set unicode_spaces \<or> isLineTerminator c)"

definition str_trim :: "jsstring \<Rightarrow> jsstring" where
  "str_trim t = rev (dropWhile is_str_white (rev (dropWhile is_str_white t)))"

definition decimal_magnitude :: "jsstring \<Rightarrow> nat option" where
  "decimal_magnitude t =
     (let whole = takeWhile isDecimalDigit t; r1 = dropWhile isDecimalDigit t;
          dot = (r1 \<noteq> [] \<and> hd r1 = 46);
          frac = (if dot then takeWhile isDecimalDigit (tl r1) else []);
          r2 = (if dot then dropWhile isDecimalDigit (tl r1) else r1);
          n = dec_value (whole @ frac); shift = length frac
      in if whole @ frac = [] then None
         else case r2 of
           [] \<Rightarrow> Some (n div 10 ^ shift)
         | e # r3 \<Rightarrow>
             let signed = (r3 \<noteq> [] \<and> (hd r3 = 43 \<or> hd r3 = 45)); digits = (if signed then tl r3 else r3)
             in if (e = 101 \<or> e = 69) \<and> digits \<noteq> [] \<and> list_all isDecimalDigit digits then
                  Some (if signed \<and> hd r3 = 45 then n div 10 ^ (shift + dec_value digits)
                        else if shift \<le> dec_value digits then n * 10 ^ (dec_value digits - shift)
                        else n div 10 ^ (shift - dec_value digits))
                else None)"

definition number_char :: "jsstring \<Rightarrow> nat option" where
  "number_char text =
     (let t = str_trim text
      in if t = [] then Some 0
         else if take 2 t = js ''0x'' \<or> take 2 t = js ''0X'' then
           (if drop 2 t \<noteq> [] \<and> list_all isHexDigit (drop 2 t) then Some (hex_number (drop 2 t) mod 65536) else None)
         else
           let neg = (hd t = 45); u = (if hd t = 43 \<or> hd t = 45 then tl t else t)
           in if u = js ''Infinity'' then Some 0
              else map_option (\<lambda>n. if neg then (65536 - n mod 65536) mod 65536 else n mod 65536) (decimal_magnitude u))"

text \<open>\<^verbatim>\<open>str.replace(/^0+(?!$)/, '')\<close>: leading zeros, but for the last character.\<close>

definition strip_zeros :: "jsstring \<Rightarrow> jsstring" where
  "strip_zeros t = (let r = dropWhile ((=) 48) t in if r = [] \<and> t \<noteq> [] then [48] else r)"

text \<open>
  \<^verbatim>\<open>scanJSXEntity\<close> at an ampersand: the semicolon has to be among the next ten characters. The
  result is the text and the index behind it; what is no entity is an ampersand.
\<close>

definition entity_text :: "engine \<Rightarrow> jsstring \<Rightarrow> jsstring option" where
  "entity_text eng str =
     (if str \<noteq> [] \<and> hd str = 35 then
        map_option (\<lambda>c. [c])
          (if code_at str 1 = Some 120 then number_char (js ''0'' @ drop 1 str)
           else number_char (strip_zeros (drop 1 str)))
      else case map_of XHTMLEntities str of Some c \<Rightarrow> Some [c] | None \<Rightarrow> inherited eng str)"

definition scanJSXEntity :: "engine \<Rightarrow> jsstring \<Rightarrow> nat \<Rightarrow> jsstring \<times> nat" where
  "scanJSXEntity eng src start =
     (let near = take 10 (drop (start + 1) src); str = takeWhile (\<lambda>c. c \<noteq> 59) near
      in if length str < length near then
           (case entity_text eng str of
              Some t \<Rightarrow> (t, start + 1 + length str + 1)
            | None \<Rightarrow> (js ''&'', start + 1))
         else (js ''&'', start + 1))"

subsection \<open>Identifiers, text and strings\<close>

definition isJSXIdentifierStart :: "code_unit \<Rightarrow> bool" where
  "isJSXIdentifierStart ch = (ch \<noteq> 92 \<and> isIdentifierStart ch)"

definition isJSXIdentifierPart :: "code_unit \<Rightarrow> bool" where
  "isJSXIdentifierPart ch = (ch \<noteq> 92 \<and> (ch = 45 \<or> isIdentifierPart ch))"

definition scanJSXIdentifier :: "jsstring \<Rightarrow> pos \<Rightarrow> token scan" where
  "scanJSXIdentifier src p =
     (let e = scan_while isJSXIdentifierPart src (index p); q = p\<lparr>index := e\<rparr>
      in Done (mk_token JSXIdentifier (Text (substring (index p) e src)) (index p) q) q)"

lemma scanJSXEntity_index: "start < snd (scanJSXEntity eng src start)"
  by (simp add: scanJSXEntity_def Let_def split: option.split)

function jsx_text_loop :: "engine \<Rightarrow> jsstring \<Rightarrow> code_unit list \<Rightarrow> pos \<Rightarrow> jsstring \<Rightarrow> jsstring \<times> pos" where
  "jsx_text_loop eng src stopChars p str =
     (if index p < length src then
        let ch = src ! index p
        in if ch \<in> set stopChars then (str, p)
           else if ch = 38 then
             let e = scanJSXEntity eng src (index p)
             in jsx_text_loop eng src stopChars (p\<lparr>index := snd e\<rparr>) (str @ fst e)
           else if isLineTerminator ch then
             let q = after_terminator src p
             in jsx_text_loop eng src stopChars q (str @ substring (index p) (index q) src)
           else jsx_text_loop eng src stopChars (advance_by 1 p) (str @ [ch])
      else (str, p))"
  by pat_completeness auto
termination
proof (relation "measure (\<lambda>(eng, src, stops, p, str). length src - index p)", goal_cases)
  case (2 eng src stops p str ch e)
  then show ?case using scanJSXEntity_index [of "index p" eng src] by simp
next
  case (3 eng src stops p str ch q)
  then show ?case using after_terminator_index [of p src] by simp
qed auto

declare jsx_text_loop.simps [simp del]

definition scanJSXText :: "engine \<Rightarrow> jsstring \<Rightarrow> code_unit list \<Rightarrow> pos \<Rightarrow> token scan" where
  "scanJSXText eng src stopChars p =
     (case jsx_text_loop eng src stopChars p [] of (str, q) \<Rightarrow>
        Done (mk_token JSXText (Text str) (index p) q) q)"

definition scanJSXStringLiteral :: "engine \<Rightarrow> jsstring \<Rightarrow> pos \<Rightarrow> token scan" where
  "scanJSXStringLiteral eng src p =
     (case code_at src (index p) of
        None \<Rightarrow> Fail (Assertion (js ''ASSERT: String literal must starts with a quote'')) p
      | Some quote \<Rightarrow>
          if \<not> (quote = 39 \<or> quote = 34) then
            Fail (Assertion (js ''ASSERT: String literal must starts with a quote'')) p
          else sbind (scanJSXText eng src [quote] (advance_by 1 p)) (\<lambda>innerToken q.
                 if code_at src (index q) \<noteq> Some quote then illegal q
                 else let q = advance_by 1 q in Done (innerToken\<lparr>tok_range := (index p, index q)\<rparr>) q))"

definition advanceJSXChild :: "engine \<Rightarrow> scanner \<Rightarrow> token outcome" where
  "advanceJSXChild eng s =
     (if code_at (source s) (index (pos s)) \<notin> {Some 60, Some 62, Some 123, Some 125} then
        move s (scanJSXText eng (source s) [60, 62, 123, 125] (pos s))
      else scanPunctuator s)"

end
