(* ===== verification/EsScanned.thy ===== *)
theory EsScanned
  imports EsJsx
begin

text \<open>
  What every scanning function reads: its token covers the characters from the position it starts
  at to the position it ends at, at least one of them, and the line variables it leaves are those
  of its end.
\<close>

subsection \<open>Stretches without line terminators\<close>

definition plain :: "jsstring \<Rightarrow> nat \<Rightarrow> nat \<Rightarrow> bool" where
  "plain src i j \<longleftrightarrow> i \<le> j \<and> j \<le> length src \<and> (\<forall>k. i \<le> k \<and> k < j \<longrightarrow> \<not> isLineTerminator (src ! k))"

lemma plain_refl: "i \<le> length src \<Longrightarrow> plain src i i"
  by (auto simp: plain_def)

lemma plain_trans [trans]: "plain src i j \<Longrightarrow> plain src j k \<Longrightarrow> plain src i k"
  by (auto simp: plain_def) (metis not_le)

lemma plain_le: "plain src i j \<Longrightarrow> i \<le> j"
  by (simp add: plain_def)

lemma plain_length: "plain src i j \<Longrightarrow> j \<le> length src"
  by (simp add: plain_def)

lemma plain_Suc: "\<lbrakk>code_at src i = Some c; \<not> isLineTerminator c\<rbrakk> \<Longrightarrow> plain src i (Suc i)"
  by (auto simp: plain_def code_at_Some less_Suc_eq)

lemma plain_Suc_trans: "\<lbrakk>code_at src i = Some c; \<not> isLineTerminator c; plain src (Suc i) j\<rbrakk> \<Longrightarrow> plain src i j"
  using plain_Suc plain_trans by blast

lemma plain_while:
  assumes "i \<le> length src" and "\<And>c. P c \<Longrightarrow> \<not> isLineTerminator c"
  shows "plain src i (scan_while P src i)"
  using assms scan_while_bounds [of i P src] scan_while_all [of i _ P src] by (auto simp: plain_def)

lemma tracks_plain: "\<lbrakk>tracks src p; plain src (index p) j\<rbrakk> \<Longrightarrow> tracks src (p\<lparr>index := j\<rparr>)"
  by (rule tracks_chars) (auto simp: plain_def)

lemma code_at_length: "code_at src i = Some c \<Longrightarrow> Suc i \<le> length src"
  by (simp add: code_at_Some)

lemma holds_Some: "holds P c \<longleftrightarrow> (\<exists>x. c = Some x \<and> P x)"
  by (cases c) auto

lemma ascii_not_line: "c < 128 \<Longrightarrow> c \<noteq> 10 \<Longrightarrow> c \<noteq> 13 \<Longrightarrow> \<not> isLineTerminator c"
  by (simp add: isLineTerminator_def)

lemma start_not_line: "isIdentifierStart c \<Longrightarrow> \<not> isLineTerminator c"
  unfolding isLineTerminator_def isIdentifierStart_def NonAsciiIdentifierStart_def in_ranges_def
  by (intro notI, elim disjE) simp_all

lemma part_not_line: "isIdentifierPart c \<Longrightarrow> \<not> isLineTerminator c"
  using line_terminator_not_part by blast

subsection \<open>Tokens\<close>

definition scanned :: "jsstring \<Rightarrow> pos \<Rightarrow> token \<Rightarrow> pos \<Rightarrow> bool" where
  "scanned src p tok q \<longleftrightarrow> tok_range tok = (index p, index q) \<and> index p < index q \<and> tracks src q
     \<and> tok_line tok = lineNumber q \<and> tok_lineStart tok = lineStart q \<and> tok_type tok \<noteq> EOF"

lemma mk_token_simps [simp]:
  "tok_type (mk_token ty v st p) = ty" "tok_value (mk_token ty v st p) = v" "tok_range (mk_token ty v st p) = (st, index p)"
  "tok_line (mk_token ty v st p) = lineNumber p" "tok_lineStart (mk_token ty v st p) = lineStart p"
  by (simp_all add: mk_token_def)

lemma scanned_plain:
  assumes "tracks src p" and "plain src (index p) j" and "index p < j" and "ty \<noteq> EOF"
  shows "scanned src p (mk_token ty v (index p) (p\<lparr>index := j\<rparr>)) (p\<lparr>index := j\<rparr>)"
  using assms tracks_plain by (simp add: scanned_def)

lemma scanned_octal [simp]: "scanned src p (t\<lparr>tok_octal := b\<rparr>) q = scanned src p t q"
  "scanned src p (t\<lparr>tok_tail := b\<rparr>) q = scanned src p t q" "scanned src p (t\<lparr>tok_regex := r\<rparr>) q = scanned src p t q"
  by (simp_all add: scanned_def)

subsection \<open>Escapes\<close>

lemma hex_loop_plain: "i \<le> length src \<Longrightarrow> plain src i (snd (hex_loop src n i code))"
proof (induction n arbitrary: i code)
  case (Suc n)
  show ?case
  proof (cases "i < length src \<and> isHexDigit (src ! i)")
    case True
    then have "plain src i (Suc i)" by (intro plain_Suc [of _ _ "src ! i"]) (auto simp: code_at_Some not_hex_line)
    also have "plain src (Suc i) (snd (hex_loop src n (Suc i) (code * 16 + hex_value (src ! i))))"
      using True by (intro Suc.IH) simp
    finally show ?thesis using True by simp
  next
    case False
    then show ?thesis using Suc.prems by (auto simp: plain_refl)
  qed
qed (simp add: plain_refl)

lemma scanHexEscape_plain: "i \<le> length src \<Longrightarrow> plain src i (snd (scanHexEscape c src i))"
  unfolding scanHexEscape_def by (rule hex_loop_plain)

lemma code_point_plain:
  assumes "scanUnicodeCodePointEscape src p = Done x q" and "index p \<le> length src"
  shows "\<exists>j. q = p\<lparr>index := j\<rparr> \<and> plain src (index p) j"
proof -
  let ?e = "scan_while isHexDigit src (index p)"
  have e: "code_at src ?e = Some 125" and q: "q = p\<lparr>index := ?e + 1\<rparr>"
    using assms(1) by (auto simp: scanUnicodeCodePointEscape_def Let_def code_at_def split: if_splits)
  have "plain src (index p) ?e" by (rule plain_while) (use assms(2) not_hex_line in auto)
  also have "plain src ?e (?e + 1)" using plain_Suc [OF e] by (simp add: ascii_not_line)
  finally show ?thesis using q by blast
qed

lemma scan_escape_plain:
  assumes "scan_escape src ch p = Done x q" and "index p \<le> length src"
  shows "\<exists>j. q = p\<lparr>index := j\<rparr> \<and> plain src (index p) j"
proof -
  have self: "\<exists>j. p = p\<lparr>index := j\<rparr> \<and> plain src (index p) j"
    using plain_refl [OF assms(2)] by (intro exI [of _ "index p"]) simp
  show ?thesis
  proof (cases "(ch = 117 \<or> ch = 120) \<and> code_at src (index p) = Some 123")
    case True
    then have "\<exists>t. scanUnicodeCodePointEscape src (advance_by 1 p) = Done t q"
      using assms(1) by (auto simp: scan_escape_def elim!: sbind_DoneE)
    then obtain t where t: "scanUnicodeCodePointEscape src (advance_by 1 p) = Done t q" ..
    have "plain src (index p) (Suc (index p))" by (rule plain_Suc [of _ _ 123]) (use True in \<open>auto simp: ascii_not_line\<close>)
    moreover obtain j where "q = (advance_by 1 p)\<lparr>index := j\<rparr>" "plain src (Suc (index p)) j"
      using code_point_plain [OF t] True by (auto dest: code_at_length)
    ultimately show ?thesis by (intro exI [of _ j]) (auto simp: advance_by_def intro: plain_trans)
  next
    case False
    show ?thesis
    proof (cases "ch = 117 \<or> ch = 120")
      case True
      then have "q = p \<or> q = p\<lparr>index := snd (scanHexEscape ch src (index p))\<rparr>"
        using assms(1) False by (auto simp: scan_escape_def split: prod.splits if_splits)
      then show ?thesis using self scanHexEscape_plain [OF assms(2), of ch] by auto
    next
      case no: False
      have "plain src i (snd (snd (octal_escape src c i)))" if "i \<le> length src" for i c
      proof -
        have o: "plain src k (Suc k)" if "holds isOctalDigit (code_at src k)" for k
          using that by (auto simp: holds_Some intro: plain_Suc dest: not_octal_line)
        then show ?thesis using that plain_refl [of i src] o [of i] plain_trans [OF o o, of i]
          by (auto simp: octal_escape_def Let_def)
      qed
      moreover have "q = p \<or> q = p\<lparr>index := snd (snd (octal_escape src ch (index p)))\<rparr>"
        using assms(1) no by (auto simp: scan_escape_def split: if_splits prod.splits)
      ultimately show ?thesis using assms(2) self by blast
    qed
  qed
qed

subsection \<open>Identifiers and numbers\<close>

lemma identifier_escape_plain:
  assumes "identifier_escape P src p = Done x q" and "index p \<le> length src"
  shows "\<exists>j. q = p\<lparr>index := j\<rparr> \<and> plain src (index p) j \<and> index p < j"
proof -
  have u: "code_at src (index p) = Some 117"
    and q: "q = p\<lparr>index := snd (scanHexEscape 117 src (index p + 1))\<rparr>"
    using assms(1) by (auto simp: identifier_escape_def split: if_splits prod.splits list.splits)
  have "plain src (index p) (Suc (index p))" using plain_Suc [OF u] by (simp add: ascii_not_line)
  also have "plain src (Suc (index p)) (snd (scanHexEscape 117 src (Suc (index p))))"
    by (rule scanHexEscape_plain) (use u in \<open>simp add: code_at_Some\<close>)
  finally show ?thesis using q identifier_escape_index [OF assms(1)] by auto
qed

lemma identifier_loop_plain:
  "\<lbrakk>identifier_loop src p name = Done x q; index p \<le> length src\<rbrakk> \<Longrightarrow> \<exists>j. q = p\<lparr>index := j\<rparr> \<and> plain src (index p) j"
proof (induction src p name rule: identifier_loop.induct)
  case (1 src p name)
  show ?case
  proof (cases "index p < length src \<and> isIdentifierPart (src ! index p)")
    case stop: False
    then have "q = p" using "1.prems" by (subst (asm) identifier_loop.simps) (auto simp: Let_def split: if_splits)
    then show ?thesis using "1.prems"(2) by (intro exI [of _ "index p"]) (simp add: plain_refl)
  next
    case True
    then have here: "plain src (index p) (Suc (index p))"
      by (intro plain_Suc [of _ _ "src ! index p"]) (auto simp: code_at_Some part_not_line)
    show ?thesis
    proof (cases "src ! index p = 92")
      case esc: True
      obtain t r where t: "identifier_escape isIdentifierPart src (advance_by 1 p) = Done t r"
        and rest: "identifier_loop src r (name @ t) = Done x q"
        using "1.prems"(1) True esc
        by (subst (asm) identifier_loop.simps) (auto simp: Let_def elim!: sbind_DoneE)
      obtain j where j: "r = (advance_by 1 p)\<lparr>index := j\<rparr>" "plain src (Suc (index p)) j"
        using identifier_escape_plain [OF t] True by auto
      then obtain k where "q = r\<lparr>index := k\<rparr>" "plain src j k"
        using 1(1) [OF _ refl _ esc t rest] True by (auto simp: plain_def)
      then show ?thesis using j here by (intro exI [of _ k]) (auto simp: advance_by_def intro: plain_trans)
    next
      case False
      then have rest: "identifier_loop src (advance_by 1 p) (name @ [src ! index p]) = Done x q"
        using "1.prems"(1) True by (subst (asm) identifier_loop.simps) (simp add: Let_def)
      then obtain k where "q = (advance_by 1 p)\<lparr>index := k\<rparr>" "plain src (Suc (index p)) k"
        using 1(2) [OF _ refl _ False rest] True by auto
      then show ?thesis using here by (intro exI [of _ k]) (auto simp: advance_by_def intro: plain_trans)
    qed
  qed
qed

lemma escaped_identifier_plain:
  assumes "getEscapedIdentifier src p = Done x q" and "code_at src (index p) = Some c" and "\<not> isLineTerminator c"
  shows "\<exists>j. q = p\<lparr>index := j\<rparr> \<and> plain src (index p) j \<and> index p < j"
proof -
  have here: "plain src (index p) (Suc (index p))" using assms(2,3) by (rule plain_Suc)
  then have l: "Suc (index p) \<le> length src" by (simp add: plain_def)
  show ?thesis
  proof (cases "c = 92")
    case True
    then obtain t r where t: "identifier_escape isIdentifierStart src (advance_by 1 p) = Done t r"
      and rest: "identifier_loop src r t = Done x q"
      using assms(1,2) by (auto simp: getEscapedIdentifier_def elim!: sbind_DoneE)
    obtain j where j: "r = (advance_by 1 p)\<lparr>index := j\<rparr>" "plain src (Suc (index p)) j"
      using identifier_escape_plain [OF t] l by auto
    then obtain k where k: "q = r\<lparr>index := k\<rparr>" "plain src j k"
      using identifier_loop_plain [OF rest] by (auto simp: plain_def)
    then have "plain src (Suc (index p)) k" using j(2) plain_trans by blast
    then show ?thesis using j k(1) plain_trans [OF here]
      by (intro exI [of _ k]) (auto simp: advance_by_def dest: plain_le)
  next
    case False
    then have rest: "identifier_loop src (advance_by 1 p) [c] = Done x q"
      using assms(1,2) by (simp add: getEscapedIdentifier_def)
    then obtain k where "q = (advance_by 1 p)\<lparr>index := k\<rparr>" "plain src (Suc (index p)) k"
      using identifier_loop_plain [OF rest] l by auto
    then show ?thesis using here plain_trans [OF here]
      by (intro exI [of _ k]) (auto simp: advance_by_def plain_def)
  qed
qed

lemma scanIdentifier_scanned:
  assumes "scanIdentifier b src p = Done tok q" and "tracks src p" and "code_at src (index p) = Some c"
    and "isIdentifierStart c"
  shows "scanned src p tok q"
proof -
  have nl: "\<not> isLineTerminator c" using assms(4) by (rule start_not_line)
  let ?e = "scan_while (\<lambda>c. c \<noteq> 92 \<and> isIdentifierPart c) src (Suc (index p))"
  have here: "plain src (index p) (Suc (index p))" using assms(3) nl by (rule plain_Suc)
  also have e: "plain src (Suc (index p)) ?e"
    by (rule plain_while) (use here part_not_line in \<open>auto simp: plain_def\<close>)
  finally have "plain src (index p) ?e" .
  moreover have "index p < ?e" using e by (simp add: plain_def)
  ultimately have get: "\<exists>j. r = p\<lparr>index := j\<rparr> \<and> plain src (index p) j \<and> index p < j"
    if "getIdentifier src p = Done x r" for x r
    using that escaped_identifier_plain [OF _ assms(3) nl] by (auto simp: getIdentifier_def Let_def split: if_splits)
  obtain name where n: "tok = mk_token (identifier_type b name) (Text name) (index p) q"
    and "getIdentifier src p = Done name q \<or> getEscapedIdentifier src p = Done name q"
    using assms(1) by (auto simp: scanIdentifier_def split: if_splits elim!: sbind_DoneE)
  then obtain j where "q = p\<lparr>index := j\<rparr>" "plain src (index p) j" "index p < j"
    using get escaped_identifier_plain [OF _ assms(3) nl] by metis
  moreover have "identifier_type b name \<noteq> EOF" by (simp add: identifier_type_def)
  ultimately show ?thesis unfolding n using scanned_plain [OF assms(2)] by simp
qed

lemma digits_plain:
  assumes "i \<le> length src" shows "plain src i (scan_while isDecimalDigit src i)"
    "plain src i (scan_while isHexDigit src i)" "plain src i (scan_while isOctalDigit src i)"
    "plain src i (scan_while (\<lambda>c. c = 48 \<or> c = 49) src i)"
  by (rule plain_while [OF assms], auto dest: not_decimal_line not_hex_line not_octal_line simp: ascii_not_line)+

text \<open>The three literals with a prefix: from a position behind the prefix to their end.\<close>

lemma prefixed_scanned:
  assumes "tracks src p" and "plain src (index p) i" and "index p < i"
  shows "scanHexLiteral (index p) src (p\<lparr>index := i\<rparr>) = Done tok q \<Longrightarrow> scanned src p tok q"
    and "scanBinaryLiteral (index p) src (p\<lparr>index := i\<rparr>) = Done tok q \<Longrightarrow> scanned src p tok q"
    and "\<lbrakk>scanOctalLiteral c (index p) src (p\<lparr>index := i\<rparr>) = Done tok q; code_at src i = Some c; \<not> isLineTerminator c\<rbrakk>
      \<Longrightarrow> scanned src p tok q"
proof -
  have ext: "plain src (index p) j \<and> index p < j" if "plain src i j" for j
    using plain_trans [OF assms(2) that] plain_le [OF that] assms(3) by simp
  note l = plain_length [OF assms(2)]
  show "scanned src p tok q" if "scanHexLiteral (index p) src (p\<lparr>index := i\<rparr>) = Done tok q"
    using that ext [OF digits_plain(2) [OF l]] scanned_plain [OF assms(1)]
    by (auto simp: scanHexLiteral_def Let_def split: if_splits)
  show "scanned src p tok q" if "scanBinaryLiteral (index p) src (p\<lparr>index := i\<rparr>) = Done tok q"
    using that ext [OF digits_plain(4) [OF l]] scanned_plain [OF assms(1)]
    by (auto simp: scanBinaryLiteral_def Let_def split: if_splits)
  show "scanned src p tok q"
    if "scanOctalLiteral c (index p) src (p\<lparr>index := i\<rparr>) = Done tok q" "code_at src i = Some c" "\<not> isLineTerminator c"
  proof -
    have "plain src i (Suc i)" using that(2,3) by (rule plain_Suc)
    then have "plain src i (scan_while isOctalDigit src (Suc i))"
      using plain_trans digits_plain(3) plain_length by blast
    then show ?thesis using that(1) ext scanned_plain [OF assms(1)]
      by (auto simp: scanOctalLiteral_def Let_def split: if_splits)
  qed
qed

lemma decimal_scanned:
  assumes "tracks src p" and "plain src (index p) i" and "index p < i \<or> code_at src i = Some 46"
    and "decimal_literal (index p) src (p\<lparr>index := i\<rparr>) = Done tok q"
  shows "scanned src p tok q"
proof -
  let ?j = "fraction_end src i"
  have j: "plain src i ?j \<and> (code_at src i = Some 46 \<longrightarrow> i < ?j)"
  proof (cases "code_at src i = Some 46")
    case True
    then have "plain src i (Suc i)" by (rule plain_Suc) (simp add: ascii_not_line)
    also have "plain src (Suc i) (scan_while isDecimalDigit src (Suc i))"
      by (rule digits_plain) (use True in \<open>simp add: code_at_Some\<close>)
    finally have "plain src i ?j" using True by (simp add: fraction_end_def)
    moreover have "Suc i \<le> ?j" using True scan_while_bounds [of "Suc i" isDecimalDigit src] by (simp add: fraction_end_def)
    ultimately show ?thesis by simp
  next
    case False
    then show ?thesis using plain_refl [OF plain_length [OF assms(2)]] by (simp add: fraction_end_def)
  qed
  then have pj: "plain src (index p) ?j \<and> index p < ?j"
    using assms(2,3) plain_trans plain_le [OF assms(2)] plain_le [of src i ?j] by (metis le_neq_implies_less le_trans less_le_trans)
  have ex: "\<exists>k. r = p\<lparr>index := k\<rparr> \<and> plain src ?j k" if "exponent src (p\<lparr>index := ?j\<rparr>) = Done x r" for x r
  proof (cases "code_at src ?j = Some 101 \<or> code_at src ?j = Some 69")
    case True
    let ?m = "if code_at src (Suc ?j) = Some 43 \<or> code_at src (Suc ?j) = Some 45 then Suc (Suc ?j) else Suc ?j"
    have d: "holds isDecimalDigit (code_at src ?m)" and r: "r = p\<lparr>index := scan_while isDecimalDigit src ?m\<rparr>"
      using that True by (auto simp: exponent_def Let_def split: if_splits)
    have "plain src ?j (Suc ?j)" using True plain_Suc [of src ?j 101] plain_Suc [of src ?j 69] by (auto simp: ascii_not_line)
    also have "plain src (Suc ?j) ?m"
      using True by (auto intro!: plain_Suc plain_refl simp: ascii_not_line code_at_Some)
    also have "plain src ?m (scan_while isDecimalDigit src ?m)"
      by (rule digits_plain) (use d in \<open>auto simp: holds_Some code_at_Some\<close>)
    finally show ?thesis using r by blast
  next
    case False
    then show ?thesis using that plain_refl [OF plain_length, of src _ ?j] pj by (auto simp: exponent_def Let_def)
  qed
  obtain x r where "exponent src (p\<lparr>index := ?j\<rparr>) = Done x r" "q = r"
      "tok = mk_token NumericLiteral (Number (ParseFloat (substring (index p) (index q) src))) (index p) q"
    using assms(4) by (auto simp: decimal_literal_def Let_def split: if_splits elim!: sbind_DoneE)
  with ex obtain k where "q = p\<lparr>index := k\<rparr>" "plain src ?j k"
    and tok: "tok = mk_token NumericLiteral (Number (ParseFloat (substring (index p) (index q) src))) (index p) q" by blast
  moreover have "plain src (index p) k \<and> index p < k"
    using pj plain_trans plain_le \<open>plain src ?j k\<close> by (metis less_le_trans)
  ultimately show ?thesis using scanned_plain [OF assms(1)] by simp
qed

lemma scanNumericLiteral_scanned:
  assumes "scanNumericLiteral src p = Done tok q" and "tracks src p"
  shows "scanned src p tok q"
proof -
  obtain c where c: "code_at src (index p) = Some c" and d: "isDecimalDigit c \<or> c = 46"
    using assms(1) by (auto simp: scanNumericLiteral_def Let_def split: option.splits if_splits)
  have nl: "\<not> isLineTerminator c" using d not_decimal_line by (auto simp: ascii_not_line)
  have here: "plain src (index p) (Suc (index p))" using c nl by (rule plain_Suc)
  have next2: "plain src (index p) (Suc (Suc (index p)))" if "code_at src (Suc (index p)) = Some x" "\<not> isLineTerminator x" for x
    using plain_trans [OF here plain_Suc [OF that]] .
  have dec: "scanned src p tok q" if "decimal_literal (index p) src (p\<lparr>index := scan_while isDecimalDigit src (Suc (index p))\<rparr>) = Done tok q"
  proof -
    have w: "plain src (Suc (index p)) (scan_while isDecimalDigit src (Suc (index p)))"
      by (rule digits_plain) (use plain_length [OF here] in simp)
    show ?thesis by (rule decimal_scanned [OF assms(2) _ _ that]) (use plain_trans [OF here w] plain_le [OF w] in auto)
  qed
  have dot: "scanned src p tok q" if "c = 46" "decimal_literal (index p) src p = Done tok q"
    using decimal_scanned [OF assms(2), of "index p"] that c plain_refl plain_le [OF here] plain_length [OF here] by simp
  have a: "p\<lparr>index := Suc (index p)\<rparr> = advance_by 1 p" "p\<lparr>index := Suc (Suc (index p))\<rparr> = advance_by (Suc (Suc 0)) p"
    "(advance_by (Suc 0) p)\<lparr>index := k\<rparr> = p\<lparr>index := k\<rparr>" for k
    by (simp_all add: advance_by_def)
  note pre = prefixed_scanned [OF assms(2)]
  show ?thesis using assms(1) c d dec dot
      pre(1) [OF next2] pre(2) [OF next2] pre(3) [OF here, where tok = tok and q = q]
    by (auto simp: scanNumericLiteral_def Let_def a ascii_not_line not_octal_line split: if_splits option.splits)
qed

subsection \<open>Strings and templates\<close>

lemma tracks_char_at: "\<lbrakk>tracks src p; code_at src (index p) = Some c; \<not> isLineTerminator c\<rbrakk> \<Longrightarrow> tracks src (advance_by 1 p)"
  by (rule tracks.char) (auto simp: code_at_Some)

lemma tracks_line_at: "\<lbrakk>tracks src p; code_at src (index p) = Some c; isLineTerminator c\<rbrakk> \<Longrightarrow> tracks src (after_terminator src p)"
  by (rule tracks.line) (auto simp: code_at_Some)

lemma scan_escape_tracks:
  assumes "scan_escape src ch p = Done x q" and "tracks src p"
  shows "tracks src q \<and> index p \<le> index q"
  using scan_escape_plain [OF assms(1) tracks_bounded [OF assms(2)]] tracks_plain [OF assms(2)] by (auto dest: plain_le)

lemma string_loop_tracks:
  "\<lbrakk>string_loop src quote p str octal = Done x q; tracks src p; \<not> isLineTerminator quote\<rbrakk>
    \<Longrightarrow> tracks src q \<and> index p < index q"
proof (induction src quote p str octal rule: string_loop.induct)
  case (1 src quote p str octal)
  then have inside: "index p < length src" by (subst (asm) (3) string_loop.simps) (auto split: if_splits)
  then have c: "code_at src (index p) = Some (src ! index p)" by (simp add: code_at_Some)
  consider (quote) "src ! index p = quote" | (esc) "src ! index p \<noteq> quote" "src ! index p = 92"
    | (other) "src ! index p \<noteq> quote" "src ! index p \<noteq> 92" by blast
  then show ?case
  proof cases
    case quote
    then have "q = advance_by 1 p" using "1.prems"(1) inside by (subst (asm) string_loop.simps) simp
    then show ?thesis using tracks_char_at [OF "1.prems"(2) c] quote "1.prems"(3) by simp
  next
    case esc
    have b: "tracks src (advance_by 1 p)" using tracks_char_at [OF "1.prems"(2) c] esc by (simp add: ascii_not_line)
    obtain d where d: "code_at src (index (advance_by 1 p)) = Some d"
      using "1.prems"(1) inside esc by (subst (asm) string_loop.simps) (auto simp: Let_def split: option.splits)
    show ?thesis
    proof (cases "isLineTerminator d")
      case True
      then have "string_loop src quote (after_terminator src (advance_by 1 p)) str octal = Done x q"
        using "1.prems"(1) inside esc d by (subst (asm) string_loop.simps) (simp add: Let_def)
      from 1(1) [OF inside refl refl esc d True this tracks_line_at [OF b d True] "1.prems"(3)]
      show ?thesis using after_terminator_index [of "advance_by 1 p" src] by simp
    next
      case False
      obtain t r where t: "scan_escape src d (advance_by 1 (advance_by 1 p)) = Done t r"
        and rest: "string_loop src quote r (str @ fst t) (octal \<or> snd t) = Done x q"
        using "1.prems"(1) inside esc d False
        by (subst (asm) string_loop.simps) (auto simp: Let_def elim!: sbind_DoneE)
      have "tracks src (advance_by 1 (advance_by 1 p))" using tracks_char_at [OF b d False] .
      from scan_escape_tracks [OF t this] have r: "tracks src r" "index p \<le> index r" by simp_all
      then show ?thesis using 1(2) [OF inside refl refl esc d False t rest r(1) "1.prems"(3)] by simp
    qed
  next
    case other
    then have "\<not> isLineTerminator (src ! index p)"
      and rest: "string_loop src quote (advance_by 1 p) (str @ [src ! index p]) octal = Done x q"
      using "1.prems"(1) inside by (subst (asm) string_loop.simps, auto simp: Let_def split: if_splits)+
    then show ?thesis
      using 1(3) [OF inside refl refl other _ rest _ "1.prems"(3)] tracks_char_at [OF "1.prems"(2) c] by simp
  qed
qed

lemma scanStringLiteral_scanned:
  assumes "scanStringLiteral src p = Done tok q" and "tracks src p"
  shows "scanned src p tok q"
proof -
  obtain quote x where c: "code_at src (index p) = Some quote" and quote: "quote = 39 \<or> quote = 34"
    and l: "string_loop src quote (advance_by 1 p) [] False = Done x q"
    and tok: "tok = (mk_token StringLiteral (Text (fst x)) (index p) q)\<lparr>tok_octal := snd x\<rparr>"
    using assms(1) by (auto simp: scanStringLiteral_def split: option.splits if_splits elim!: sbind_DoneE)
  have nl: "\<not> isLineTerminator quote" using quote by (auto simp: ascii_not_line)
  show ?thesis
    using string_loop_tracks [OF l tracks_char_at [OF assms(2) c nl] nl] by (simp add: tok scanned_def)
qed

lemma template_loop_tracks:
  "\<lbrakk>template_loop src p cooked octal = Done x q; tracks src p\<rbrakk> \<Longrightarrow> tracks src q \<and> index p < index q"
proof (induction src p cooked octal rule: template_loop.induct)
  case (1 src p cooked octal)
  then have inside: "index p < length src" by (subst (asm) (6) template_loop.simps) (auto split: if_splits)
  then have c: "code_at src (index p) = Some (src ! index p)" by (simp add: code_at_Some)
  note step = tracks_char_at [OF "1.prems"(2) c]
  consider (tick) "src ! index p = 96" | (dollar) "src ! index p = 36"
    | (esc) "src ! index p = 92"
    | (line) "src ! index p \<notin> {96, 36, 92}" "isLineTerminator (src ! index p)"
    | (other) "src ! index p \<notin> {96, 36, 92}" "\<not> isLineTerminator (src ! index p)" by blast
  then show ?case
  proof cases
    case tick
    then have "q = advance_by 1 p" using "1.prems"(1) inside by (subst (asm) template_loop.simps) simp
    then show ?thesis using step tick by (simp add: ascii_not_line)
  next
    case dollar
    then have b: "tracks src (advance_by 1 p)" using step by (simp add: ascii_not_line)
    show ?thesis
    proof (cases "code_at src (index (advance_by 1 p)) = Some 123")
      case True
      then have "q = advance_by 1 (advance_by 1 p)" using "1.prems"(1) inside dollar
        by (subst (asm) template_loop.simps) simp
      then show ?thesis using tracks_char_at [OF b True] by (simp add: ascii_not_line)
    next
      case False
      then have rest: "template_loop src (advance_by 1 p) (cooked @ [src ! index p]) octal = Done x q"
        using "1.prems"(1) inside dollar by (subst (asm) template_loop.simps) simp
      then show ?thesis using 1(1) [OF inside refl refl _ _ _ rest b] dollar False by simp
    qed
  next
    case esc
    have b: "tracks src (advance_by 1 p)" using step esc by (simp add: ascii_not_line)
    obtain d where d: "code_at src (index (advance_by 1 p)) = Some d"
      using "1.prems"(1) inside esc by (subst (asm) template_loop.simps) (auto simp: Let_def split: option.splits)
    show ?thesis
    proof (cases "isLineTerminator d")
      case True
      then have rest: "template_loop src (after_terminator src (advance_by 1 p)) cooked octal = Done x q"
        using "1.prems"(1) inside esc d by (subst (asm) template_loop.simps) (simp add: Let_def)
      from 1(2) [OF inside refl refl _ _ esc d True rest tracks_line_at [OF b d True]] esc
      show ?thesis using after_terminator_index [of "advance_by 1 p" src] by simp
    next
      case False
      obtain t r where t: "scan_escape src d (advance_by 1 (advance_by 1 p)) = Done t r"
        and rest: "template_loop src r (cooked @ fst t) (octal \<or> snd t) = Done x q"
        using "1.prems"(1) inside esc d False
        by (subst (asm) template_loop.simps) (auto simp: Let_def elim!: sbind_DoneE)
      have "tracks src (advance_by 1 (advance_by 1 p))" using tracks_char_at [OF b d False] .
      from scan_escape_tracks [OF t this] have r: "tracks src r" "index p \<le> index r" by simp_all
      then show ?thesis using 1(3) [OF inside refl refl _ _ esc d False t rest r(1)] esc by simp
    qed
  next
    case line
    then have rest: "template_loop src (after_terminator src p) (cooked @ [10]) octal = Done x q"
      using "1.prems"(1) inside by (subst (asm) template_loop.simps) (simp add: Let_def)
    from 1(4) [OF inside refl refl _ _ _ line(2) rest tracks_line_at [OF "1.prems"(2) c line(2)]] line(1)
    show ?thesis using after_terminator_index [of p src] by simp
  next
    case other
    then have rest: "template_loop src (advance_by 1 p) (cooked @ [src ! index p]) octal = Done x q"
      using "1.prems"(1) inside by (subst (asm) template_loop.simps) (simp add: Let_def)
    from 1(5) [OF inside refl refl _ _ _ other(2) rest step [OF other(2)]] other(1) show ?thesis by simp
  qed
qed

lemma scanTemplate_scanned:
  assumes "scanTemplate src p = Done tok q" and "tracks src p" and "code_at src (index p) = Some c" and "\<not> isLineTerminator c"
  shows "scanned src p tok q"
proof -
  obtain x v b c' where l: "template_loop src (advance_by 1 p) [] False = Done x q"
    and tok: "tok = (mk_token Template v (index p) q)\<lparr>tok_octal := b, tok_tail := c'\<rparr>"
    using assms(1) by (auto simp: scanTemplate_def Let_def elim!: sbind_DoneE)
  show ?thesis
    using template_loop_tracks [OF l tracks_char_at [OF assms(2-4)]] by (simp add: tok scanned_def)
qed

subsection \<open>Regular expressions\<close>

lemma body_loop_plain:
  "\<lbrakk>body_loop src p m = Done x q; index p \<le> length src\<rbrakk> \<Longrightarrow> \<exists>j. q = p\<lparr>index := j\<rparr> \<and> plain src (index p) j"
proof (induction src p m rule: body_loop.induct)
  case (1 src p m)
  have inside: "index p < length src" using "1.prems"(1) by (subst (asm) body_loop.simps) (auto split: if_splits)
  have nl: "\<not> isLineTerminator (src ! index p)"
    using "1.prems"(1) inside by (subst (asm) body_loop.simps) (auto simp: Let_def ascii_not_line split: if_splits)
  have here: "plain src (index p) (Suc (index p))"
    by (rule plain_Suc [of _ _ "src ! index p"]) (use inside nl in \<open>simp_all add: code_at_Some\<close>)
  show ?case
  proof (cases "src ! index p = 92")
    case esc: True
    obtain c where c: "code_at src (index (advance_by 1 p)) = Some c" "\<not> isLineTerminator c"
      and rest: "body_loop src (advance_by 1 (advance_by 1 p)) m = Done x q"
      using "1.prems"(1) inside esc by (subst (asm) body_loop.simps) (auto simp: Let_def split: option.splits if_splits)
    have two: "plain src (index p) (Suc (Suc (index p)))"
      using plain_trans [OF here plain_Suc, OF _ c(2)] c(1) by simp
    obtain j where "q = (advance_by 1 (advance_by 1 p))\<lparr>index := j\<rparr>" "plain src (Suc (Suc (index p))) j"
      using 1(1) [OF inside refl refl esc c rest] plain_length [OF two] by auto
    then show ?thesis using plain_trans [OF two] by (intro exI [of _ j]) (simp add: advance_by_def)
  next
    case False
    then have e: "body_loop src p m =
        (if m then body_loop src (advance_by 1 p) (src ! index p \<noteq> 93)
         else if src ! index p = 47 then Done () (advance_by 1 p)
         else body_loop src (advance_by 1 p) (src ! index p = 91))"
      using inside nl by (subst body_loop.simps) (simp add: Let_def)
    have l: "index (advance_by 1 p) \<le> length src" using inside by simp
    note IH = 1(2) [OF inside refl refl False nl _ _ l] 1(3) [OF inside refl refl False nl _ _ _ l]
    have "q = advance_by 1 p \<or> (\<exists>j. q = (advance_by 1 p)\<lparr>index := j\<rparr> \<and> plain src (index (advance_by 1 p)) j)"
      using "1.prems"(1) IH unfolding e by (cases m; cases "src ! index p = 47") simp_all
    then show ?thesis
    proof
      assume "q = advance_by 1 p"
      then show ?thesis using here by (intro exI [of _ "Suc (index p)"]) (simp add: advance_by_def)
    next
      assume "\<exists>j. q = (advance_by 1 p)\<lparr>index := j\<rparr> \<and> plain src (index (advance_by 1 p)) j"
      then obtain j where "q = (advance_by 1 p)\<lparr>index := j\<rparr>" "plain src (Suc (index p)) j" by auto
      then show ?thesis using plain_trans [OF here] by (intro exI [of _ j]) (simp add: advance_by_def)
    qed
  qed
qed

text \<open>What scanning leaves alone: like \<^const>\<open>frame\<close>, but errors may be collected.\<close>

definition kept :: "scanner \<Rightarrow> scanner \<Rightarrow> bool" where
  "kept s t \<longleftrightarrow> source t = source s \<and> strict t = strict s \<and> inJSXTag t = inJSXTag s
     \<and> inJSXChild t = inJSXChild s \<and> inType t = inType s \<and> x_tokenize t = x_tokenize s
     \<and> x_tokens t = x_tokens s \<and> x_range t = x_range s \<and> x_loc t = x_loc s
     \<and> (x_errors t = None \<longleftrightarrow> x_errors s = None)"

lemma kept_refl [simp]: "kept s s"
  by (simp add: kept_def)

lemma kept_trans [trans]: "kept s t \<Longrightarrow> kept t u \<Longrightarrow> kept s u"
  by (simp add: kept_def)

lemma kept_pos [simp]: "kept s (t\<lparr>pos := p\<rparr>) = kept s t" "kept (s\<lparr>pos := p\<rparr>) t = kept s t"
  "kept (s\<lparr>lookahead := l\<rparr>) t = kept s t" "kept s (t\<lparr>lookahead := l\<rparr>) = kept s t"
  by (simp_all add: kept_def)

lemma frame_kept: "frame s t \<Longrightarrow> kept s t"
  by (simp add: frame_def kept_def)

lemma kept_source: "kept s t \<Longrightarrow> source t = source s"
  by (simp add: kept_def)

lemma tolerant_kept:
  assumes "throwErrorTolerant a m args s = Ret x t"
  shows "kept s t \<and> pos t = pos s"
  using assms by (auto simp: throwErrorTolerant_def throwError_def kept_def split: option.splits)

lemma flags_loop_plain:
  "\<lbrakk>flags_loop s flags str = Ret x t; index (pos s) \<le> length (source s)\<rbrakk>
    \<Longrightarrow> kept s t \<and> (\<exists>j. pos t = (pos s)\<lparr>index := j\<rparr> \<and> plain (source s) (index (pos s)) j)"
proof (induction s flags str rule: flags_loop.induct)
  case (1 s flags str)
  let ?src = "source s" and ?p = "pos s" and ?q = "advance_by 1 (pos s)"
  have more: "kept s t \<and> (\<exists>j. pos t = (pos s)\<lparr>index := j\<rparr> \<and> plain ?src (index ?p) j)"
    if "kept s u" "pos u = ?p\<lparr>index := i\<rparr>" "plain ?src (index ?p) i"
      "kept u t \<and> (\<exists>j. pos t = (pos u)\<lparr>index := j\<rparr> \<and> plain (source u) (index (pos u)) j)" for u i
    using that kept_trans kept_source [OF that(1)] plain_trans by fastforce
  show ?case
  proof (cases "holds isIdentifierPart (code_at ?src (index ?p))")
    case False
    then have "t = s" using "1.prems"(1) by (subst (asm) flags_loop.simps) simp
    then show ?thesis using "1.prems"(2) by (auto intro!: exI [of _ "index ?p"] plain_refl)
  next
    case part: True
    let ?c = "?src ! index ?p"
    have here: "plain ?src (index ?p) (Suc (index ?p))"
      using part by (auto simp: holds_code_at intro!: plain_Suc [of _ _ ?c] simp: code_at_Some part_not_line)
    have a: "?q\<lparr>index := k\<rparr> = ?p\<lparr>index := k\<rparr>" "?q = ?p\<lparr>index := Suc (index ?p)\<rparr>" for k by (simp_all add: advance_by_def)
    show ?thesis
    proof (cases "?c = 92 \<and> index ?q < length ?src")
      case False
      then have rest: "flags_loop (s\<lparr>pos := ?q\<rparr>) (flags @ [?c]) (str @ [?c]) = Ret x t"
        using "1.prems"(1) part by (subst (asm) flags_loop.simps) (auto simp: Let_def split: if_splits)
      show ?thesis
        by (rule more [of "s\<lparr>pos := ?q\<rparr>", OF _ _ here 1(4) [OF refl refl part refl refl False rest]])
          (use plain_length [OF here] in \<open>simp_all add: a(2)\<close>)
    next
      case esc: True
      show ?thesis
      proof (cases "code_at ?src (index ?q) = Some 117")
        case False
        obtain y u where u: "throwErrorTolerant None UnexpectedToken [js ''ILLEGAL''] (s\<lparr>pos := ?q\<rparr>) = Ret y u"
          and rest: "flags_loop u flags (str @ [92]) = Ret x t"
          using "1.prems"(1) part esc False by (subst (asm) flags_loop.simps) (auto simp: Let_def elim!: obind_RetE)
        have k: "kept s u" "pos u = ?p\<lparr>index := Suc (index ?p)\<rparr>" "source u = ?src"
          using tolerant_kept [OF u] by (auto simp: a(2) dest: kept_source)
        show ?thesis
          by (rule more [OF k(1,2) here 1(3) [OF refl refl part refl refl esc False u rest]])
            (use k plain_length [OF here] in simp)
      next
        case u117: True
        let ?r = "Suc (Suc (index ?p))"
        let ?h = "scanHexEscape 117 ?src ?r"
        let ?i = "if fst ?h \<noteq> [] then snd ?h else ?r"
        have two: "plain ?src (index ?p) ?r"
          by (rule plain_trans [OF here plain_Suc [of _ _ 117]]) (use u117 in \<open>simp_all add: ascii_not_line\<close>)
        have i: "plain ?src (index ?p) ?i"
          using two plain_trans [OF two scanHexEscape_plain [OF plain_length [OF two]]] by simp
        obtain y u f' s' where u: "throwErrorTolerant None UnexpectedToken [js ''ILLEGAL''] (s\<lparr>pos := ?p\<lparr>index := ?i\<rparr>\<rparr>) = Ret y u"
          and rest: "flags_loop u f' s' = Ret x t"
          and IH: "index (pos u) \<le> length (source u) \<Longrightarrow>
            kept u t \<and> (\<exists>j. pos t = (pos u)\<lparr>index := j\<rparr> \<and> plain (source u) (index (pos u)) j)"
        proof (cases "fst ?h \<noteq> []")
          case True
          obtain y u where u: "throwErrorTolerant None UnexpectedToken [js ''ILLEGAL''] (s\<lparr>pos := ?q\<lparr>index := snd ?h\<rparr>\<rparr>) = Ret y u"
            and rest: "flags_loop u (flags @ fst ?h) (str @ [92, 117] @ substring ?r (snd ?h) ?src) = Ret x t"
            using "1.prems"(1) part esc u117 True by (subst (asm) flags_loop.simps) (auto simp: Let_def elim!: obind_RetE)
          show thesis
            by (rule that [OF _ rest 1(1) [OF refl refl part refl refl esc u117 refl refl]]) (use u rest True in \<open>simp_all add: advance_by_def\<close>)
        next
          case False
          obtain y u where u: "throwErrorTolerant None UnexpectedToken [js ''ILLEGAL''] (s\<lparr>pos := ?q\<lparr>index := ?r\<rparr>\<rparr>) = Ret y u"
            and rest: "flags_loop u (flags @ [117]) (str @ [92, 117]) = Ret x t"
            using "1.prems"(1) part esc u117 False by (subst (asm) flags_loop.simps) (auto simp: Let_def elim!: obind_RetE)
          show thesis
            by (rule that [OF _ rest 1(2) [OF refl refl part refl refl esc u117 refl refl]]) (use u rest False in \<open>simp_all add: advance_by_def\<close>)
        qed
        have k: "kept s u" "pos u = ?p\<lparr>index := ?i\<rparr>" "source u = ?src"
          using tolerant_kept [OF u] by (auto dest: kept_source)
        show ?thesis
          by (rule more [OF k(1,2) i IH]) (use k plain_length [OF i] in simp)
      qed
    qed
  qed
qed

lemma scanRegExpBody_plain:
  assumes "scanRegExpBody src p = Done x q"
  shows "\<exists>j. q = p\<lparr>index := j\<rparr> \<and> plain src (index p) j \<and> index p < j"
proof -
  obtain y where c: "code_at src (index p) = Some 47" and l: "body_loop src (advance_by 1 p) False = Done y q"
    using assms by (auto simp: scanRegExpBody_def Let_def split: if_splits elim!: sbind_DoneE)
  have here: "plain src (index p) (Suc (index p))" using c by (rule plain_Suc) (simp add: ascii_not_line)
  obtain j where "q = (advance_by 1 p)\<lparr>index := j\<rparr>" "plain src (Suc (index p)) j"
    using body_loop_plain [OF l] plain_length [OF here] by auto
  then show ?thesis using plain_trans [OF here] by (intro exI [of _ j]) (auto simp: advance_by_def dest: plain_le)
qed

lemma testRegExp_state: "testRegExp eng pattern flags s = Ret v t \<Longrightarrow> t = s"
  by (auto simp: testRegExp_def Let_def split: option.splits if_splits)

lemma skipComment_Ret:
  assumes "skipComment s = Ret x t"
  shows "frame s t" "tracks (source s) (pos s) \<Longrightarrow> tracks (source s) (pos t)"
    "trivia (source s) (index (pos s)) (index (pos t))" "\<not> trivia_starts (source s) (index (pos t))"
  using skipComment_skipped [of s] assms by (simp_all add: skipped_def)

lemma scanRegExp_scanned:
  assumes "scanRegExp eng s = Ret (RegToken tok) t" and "tracks (source s) (pos s)"
  shows "kept s t" "\<exists>u. skipComment (s\<lparr>lookahead := None\<rparr>) = Ret () u \<and> scanned (source s) (pos u) tok (pos t)"
proof -
  obtain x u body lit v w flags fl where u: "skipComment (s\<lparr>lookahead := None\<rparr>) = Ret x u"
    and v: "scanRegExpBody (source u) (pos u) = Done (body, lit) v"
    and w: "flags_loop (u\<lparr>pos := v\<rparr>) [] [] = Ret (flags, fl) t"
    and tok: "tok = (mk_token RegularExpression w (index (pos u)) (pos t))\<lparr>tok_regex := Some (body, flags)\<rparr>"
    using assms(1)
    by (auto simp: scanRegExp_def Let_def scanRegExpFlags_def split: if_splits elim!: obind_RetE move_RetE dest!: testRegExp_state)
  note su = skipComment_Ret [OF u, simplified]
  have src: "source u = source s" using frame_source [OF su(1)] by simp
  obtain j where j: "v = (pos u)\<lparr>index := j\<rparr>" "plain (source s) (index (pos u)) j" "index (pos u) < j"
    using scanRegExpBody_plain [OF v] src by auto
  have k: "kept u t \<and> (\<exists>k. pos t = v\<lparr>index := k\<rparr> \<and> plain (source s) j k)"
    using flags_loop_plain [OF w] plain_length [OF j(2)] j(1) src by simp
  then show "kept s t" using frame_kept [OF su(1)] kept_trans by fastforce
  from k obtain k where "pos t = (pos u)\<lparr>index := k\<rparr>" "plain (source s) (index (pos u)) k" "index (pos u) < k"
    using j plain_trans plain_le by (metis pos.update_convs(1) pos.surjective less_le_trans)
  then have "scanned (source s) (pos u) tok (pos t)"
    using scanned_plain [OF su(2) [OF assms(2)]] by (simp add: tok)
  then show "\<exists>u. skipComment (s\<lparr>lookahead := None\<rparr>) = Ret () u \<and> scanned (source s) (pos u) tok (pos t)"
    using u by auto
qed

subsection \<open>Punctuators\<close>

fun reads :: "jsstring \<Rightarrow> nat \<Rightarrow> jsstring \<Rightarrow> bool" where
  "reads src i [] = True"
| "reads src i (c # w) = (code_at src i = Some c \<and> \<not> isLineTerminator c \<and> reads src (Suc i) w)"

lemma reads_plain:
  "\<lbrakk>reads src i v; i \<le> length src\<rbrakk> \<Longrightarrow> plain src i (i + length v) \<and> substring i (i + length v) src = v"
proof (induction v arbitrary: i)
  case (Cons c w)
  then have here: "plain src i (Suc i)" and one: "substring i (Suc i) src = [c]"
    by (simp_all add: plain_Suc) (simp add: substring_def code_at_Some take_Suc_conv_app_nth Cons_nth_drop_Suc [symmetric])
  have IH: "plain src (Suc i) (Suc i + length w)" "substring (Suc i) (Suc i + length w) src = w"
    using Cons.IH [of "Suc i"] Cons.prems plain_length [OF here] by simp_all
  have "substring i (Suc i) src @ substring (Suc i) (Suc i + length w) src = substring i (Suc i + length w) src"
    by (rule substring_append) simp_all
  then have "substring i (Suc i + length w) src = c # w" using one IH(2) by simp
  then show ?case using plain_trans [OF here IH(1)] by simp
qed (simp add: plain_refl)

lemma switch_reads:
  assumes "code_at src i = Some c" and "switch_punctuator c (code_at src (i + 1)) (code_at src (i + 2)) = Some v"
  shows "v \<noteq> [] \<and> reads src i v"
  using assms by (auto simp: switch_punctuator_def ascii_not_line split: if_splits)

lemma if_SomeE:
  assumes "(if b then Some x else r) = Some v"
  obtains "b" and "v = x" | "r = Some v"
  using assms by (cases b) simp_all

lemma peek_reads:
  assumes "code_at src i = Some c"
    and "peek_punctuator b c (code_at src (i + 1)) (code_at src (i + 2)) (code_at src (i + 3)) = Some v"
  shows "v \<noteq> [] \<and> reads src i v"
proof -
  have codes: "js ''>>>='' = [62, 62, 62, 61]" "js ''>>>'' = [62, 62, 62]" "js ''<<='' = [60, 60, 61]"
    "js ''>>='' = [62, 62, 61]" "js ''...'' = [46, 46, 46]" "js ''=>'' = [61, 62]" by (simp_all add: js_eval)
  have ops: "\<not> isLineTerminator x" if "x \<in> set (js ''+-<>&|'') \<union> set (js ''<>=!+-*%&|^/'')" for x
    using that by (auto simp: js_eval ascii_not_line)
  show ?thesis using assms(2) unfolding peek_punctuator_def
    by (elim if_SomeE) (use assms(1) ops in \<open>simp_all add: codes ascii_not_line numeral_3_eq_3\<close>)
qed

lemma punctuator_plain:
  assumes "punctuator_text in_jsx in_type src i = Some v"
  shows "v \<noteq> [] \<and> plain src i (i + length v) \<and> substring i (i + length v) src = v"
proof -
  obtain c where c: "code_at src i = Some c"
    and "in_jsx \<and> c \<in> {60, 62} \<and> v = [c] \<or> switch_punctuator c (code_at src (i + 1)) (code_at src (i + 2)) = Some v
      \<or> peek_punctuator in_type c (code_at src (i + 1)) (code_at src (i + 2)) (code_at src (i + 3)) = Some v"
    using assms by (auto simp: punctuator_text_def split: option.splits if_splits)
  then have "v \<noteq> [] \<and> reads src i v" using switch_reads peek_reads by (fastforce simp: ascii_not_line)
  then show ?thesis using reads_plain [of src i v] c by (simp add: code_at_Some)
qed

end
