(* ===== verification/EsLexer.thy ===== *)
theory EsLexer
  imports EsScanned
begin

text \<open>
  The lexer of \<^verbatim>\<open>esprima\<close>: \<^verbatim>\<open>advance\<close> picks the scanning function, \<^verbatim>\<open>lex\<close>, \<^verbatim>\<open>peek\<close>, \<^verbatim>\<open>lookahead2\<close> and
  \<^verbatim>\<open>rewind\<close> keep the token of lookahead, \<^verbatim>\<open>collectToken\<close> and \<^verbatim>\<open>collectRegex\<close> record tokens, and
  \<^verbatim>\<open>tokenize\<close> runs over a whole source. The helpers of the parser that only look at tokens
  (\<^verbatim>\<open>expect\<close>, \<^verbatim>\<open>match\<close>, \<^verbatim>\<open>consumeSemicolon\<close>, ...) are here too.

  \<^verbatim>\<open>patch\<close> replaces the variables \<^verbatim>\<open>advance\<close> and \<^verbatim>\<open>scanRegExp\<close> by the collecting functions when
  \<^verbatim>\<open>extra.tokens\<close> is there, and \<^verbatim>\<open>unpatch\<close> puts them back: a call through the variable is
  \<open>call_advance\<close> or \<open>call_scanRegExp\<close>.
\<close>

subsection \<open>Regular expressions in a token stream\<close>

definition isIdentifierName :: "token \<Rightarrow> bool" where
  "isIdentifierName token = (tok_type token \<in> {Identifier, Keyword, BooleanLiteral, NullLiteral})"

text \<open>A record of a regular expression; an entry for the slash just before it is replaced.\<close>

definition drop_slash :: "nat \<Rightarrow> entry list \<Rightarrow> entry list" where
  "drop_slash start tokens =
     (if tokens \<noteq> [] \<and> map_option fst (e_range (last tokens)) = Some start
         \<and> e_type (last tokens) = Some (js ''Punctuator'')
         \<and> (e_value (last tokens) = js ''/'' \<or> e_value (last tokens) = js ''/='')
      then butlast tokens else tokens)"

definition regex_entry :: "regexp_result \<Rightarrow> nat \<Rightarrow> nat \<times> int \<Rightarrow> scanner \<Rightarrow> entry" where
  "regex_entry r start from s =
     \<lparr>e_type = Some (js ''RegularExpression''),
      e_value = (case r of RegLiteral literal v rx rg \<Rightarrow> literal | RegToken t \<Rightarrow> []),
      e_range = Some (start, index (pos s)),
      e_loc = Some (from, (lineNumber (pos s), column (pos s))),
      e_regex = (case r of RegLiteral literal v rx rg \<Rightarrow> Some rx | RegToken t \<Rightarrow> tok_regex t)\<rparr>"

definition collectRegex :: "engine \<Rightarrow> scanner \<Rightarrow> regexp_result outcome" where
  "collectRegex eng s =
     obind (skipComment s) (\<lambda>_ s.
       let start = index (pos s); from = (lineNumber (pos s), column (pos s))
       in obind (scanRegExp eng s) (\<lambda>regex s.
            if x_tokenize s then Ret regex s
            else Ret regex (s\<lparr>x_tokens :=
              map_option (\<lambda>tokens. drop_slash start tokens @ [regex_entry regex start from s]) (x_tokens s)\<rparr>)))"

definition call_scanRegExp :: "engine \<Rightarrow> scanner \<Rightarrow> regexp_result outcome" where
  "call_scanRegExp eng s = (if x_tokens s \<noteq> None then collectRegex eng s else scanRegExp eng s)"

text \<open>The token of a regular expression: \<^verbatim>\<open>advanceSlash\<close> only runs when tokenizing.\<close>

definition regexp_token :: "engine \<Rightarrow> scanner \<Rightarrow> token outcome" where
  "regexp_token eng s =
     obind (call_scanRegExp eng s) (\<lambda>r s.
       case r of RegToken t \<Rightarrow> Ret t s | RegLiteral literal v rx rg \<Rightarrow> Throw PropertyOfUndefined s)"

definition is_keyword_entry :: "entry option \<Rightarrow> bool" where
  "is_keyword_entry t = (case t of None \<Rightarrow> False | Some t \<Rightarrow> e_type t = Some (js ''Keyword''))"

text \<open>
  \<^verbatim>\<open>advanceSlash\<close>: whether a slash starts a regular expression, from the tokens before it. True
  means \<^verbatim>\<open>scanRegExp\<close>, False \<^verbatim>\<open>scanPunctuator\<close>.
\<close>

definition slash_after_paren :: "entry list \<Rightarrow> int \<Rightarrow> bool" where
  "slash_after_paren tokens open_paren =
     (case js_index tokens (open_paren - 1) of
        None \<Rightarrow> False
      | Some t \<Rightarrow> e_type t = Some (js ''Keyword'')
          \<and> (e_value t = js ''if'' \<or> e_value t = js ''while'' \<or> e_value t = js ''for'' \<or> e_value t = js ''with''))"

definition slash_after_curly :: "entry list \<Rightarrow> int \<Rightarrow> bool" where
  "slash_after_curly tokens open_curly =
     (if is_keyword_entry (js_index tokens (open_curly - 3)) then
        (case js_index tokens (open_curly - 4) of
           None \<Rightarrow> False
         | Some t \<Rightarrow> e_value t \<notin> set FnExprTokens)
      else if is_keyword_entry (js_index tokens (open_curly - 4)) then
        (case js_index tokens (open_curly - 5) of
           None \<Rightarrow> True
         | Some t \<Rightarrow> e_value t \<notin> set FnExprTokens)
      else False)"

definition slash_is_regexp :: "entry list \<Rightarrow> int \<Rightarrow> int \<Rightarrow> bool" where
  "slash_is_regexp tokens open_paren open_curly =
     (case js_index tokens (int (length tokens) - 1) of
        None \<Rightarrow> True
      | Some prev \<Rightarrow>
          if e_type prev = Some (js ''Punctuator'') then
            (if e_value prev = js '')'' then slash_after_paren tokens open_paren
             else if e_value prev = js ''}'' then slash_after_curly tokens open_curly
             else True)
          else e_type prev = Some (js ''Keyword'') \<and> e_value prev \<noteq> js ''this'')"

definition advanceSlash :: "engine \<Rightarrow> scanner \<Rightarrow> token outcome" where
  "advanceSlash eng s =
     (case x_tokens s of
        None \<Rightarrow> Throw PropertyOfUndefined s
      | Some tokens \<Rightarrow>
          if slash_is_regexp tokens (openParenToken s) (openCurlyToken s) then regexp_token eng s
          else scanPunctuator s)"

subsection \<open>Advancing\<close>

text \<open>The part of \<^verbatim>\<open>advance\<close> behind \<^verbatim>\<open>skipComment\<close> and outside JSX children.\<close>

definition advance_token :: "engine \<Rightarrow> code_unit \<Rightarrow> scanner \<Rightarrow> token outcome" where
  "advance_token eng ch s =
     (let src = source s; p = pos s
      in if ch = 40 \<or> ch = 41 \<or> ch = 58 then scanPunctuator s
         else if ch = 39 \<or> ch = 34 then
           (if inJSXTag s then move s (scanJSXStringLiteral eng src p) else move s (scanStringLiteral src p))
         else if inJSXTag s \<and> isJSXIdentifierStart ch then move s (scanJSXIdentifier src p)
         else if ch = 96 then move s (scanTemplate src p)
         else if isIdentifierStart ch then move s (scanIdentifier (strict s) src p)
         else if ch = 46 then
           (if holds isDecimalDigit (code_at src (index p + 1)) then move s (scanNumericLiteral src p)
            else scanPunctuator s)
         else if isDecimalDigit ch then move s (scanNumericLiteral src p)
         else if x_tokenize s \<and> ch = 47 then advanceSlash eng s
         else scanPunctuator s)"

definition advance :: "engine \<Rightarrow> scanner \<Rightarrow> token outcome" where
  "advance eng s =
     obind (if \<not> inJSXChild s then skipComment s else Ret () s) (\<lambda>_ s.
       case code_at (source s) (index (pos s)) of
         None \<Rightarrow> Ret (mk_token EOF NoValue (index (pos s)) (pos s)) s
       | Some ch \<Rightarrow> if inJSXChild s then advanceJSXChild eng s else advance_token eng ch s)"

definition token_entry :: "token \<Rightarrow> nat \<times> int \<Rightarrow> scanner \<Rightarrow> entry" where
  "token_entry token from s =
     \<lparr>e_type = TokenName (tok_type token),
      e_value = substring (fst (tok_range token)) (snd (tok_range token)) (source s),
      e_range = Some (tok_range token),
      e_loc = Some (from, (lineNumber (pos s), column (pos s))),
      e_regex = tok_regex token\<rparr>"

definition collectToken :: "engine \<Rightarrow> scanner \<Rightarrow> token outcome" where
  "collectToken eng s =
     obind (if \<not> inJSXChild s then skipComment s else Ret () s) (\<lambda>_ s.
       let from = (lineNumber (pos s), column (pos s))
       in obind (advance eng s) (\<lambda>token s.
            if tok_type token \<noteq> EOF then
              Ret token (s\<lparr>x_tokens := map_option (\<lambda>tokens. tokens @ [token_entry token from s]) (x_tokens s)\<rparr>)
            else Ret token s))"

definition call_advance :: "engine \<Rightarrow> scanner \<Rightarrow> token outcome" where
  "call_advance eng s = (if x_tokens s \<noteq> None then collectToken eng s else advance eng s)"

subsection \<open>Lookahead\<close>

definition after_token :: "token \<Rightarrow> pos" where
  "after_token t = \<lparr>index = snd (tok_range t), lineNumber = tok_line t, lineStart = tok_lineStart t\<rparr>"

text \<open>\<^verbatim>\<open>lex\<close> is called with a token of lookahead.\<close>

definition lex_token :: "engine \<Rightarrow> scanner \<Rightarrow> token outcome" where
  "lex_token eng s =
     (case lookahead s of
        None \<Rightarrow> Throw PropertyOfUndefined s
      | Some token \<Rightarrow>
          obind (call_advance eng (s\<lparr>pos := after_token token\<rparr>)) (\<lambda>next s.
            Ret token (s\<lparr>lookahead := Some next, pos := after_token token\<rparr>)))"

definition peek :: "engine \<Rightarrow> scanner \<Rightarrow> unit outcome" where
  "peek eng s =
     (let start = pos s
      in obind (call_advance eng s) (\<lambda>next s. Ret () (s\<lparr>lookahead := Some next, pos := start\<rparr>)))"

text \<open>\<^verbatim>\<open>lookahead2\<close> scans with the original \<^verbatim>\<open>advance\<close>, so that no token is collected twice.\<close>

definition lookahead2 :: "engine \<Rightarrow> scanner \<Rightarrow> token outcome" where
  "lookahead2 eng s =
     (let start = pos s
      in obind (case lookahead s of
                  Some t \<Rightarrow> Ret t s
                | None \<Rightarrow> obind (advance eng s) (\<lambda>t s. Ret t (s\<lparr>lookahead := Some t\<rparr>))) (\<lambda>t s.
           obind (advance eng (s\<lparr>pos := after_token t\<rparr>)) (\<lambda>result s. Ret result (s\<lparr>pos := start\<rparr>))))"

definition rewind :: "token \<Rightarrow> scanner \<Rightarrow> scanner" where
  "rewind token s =
     s\<lparr>pos := \<lparr>index = fst (tok_range token), lineNumber = tok_line token, lineStart = tok_lineStart token\<rparr>,
       lookahead := Some token\<rparr>"

record marker =
  m_offset :: nat
  m_line :: nat
  m_col :: int

definition marker_here :: "scanner \<Rightarrow> marker" where
  "marker_here s = \<lparr>m_offset = index (pos s), m_line = lineNumber (pos s), m_col = column (pos s)\<rparr>"

definition markerCreate :: "scanner \<Rightarrow> marker option outcome" where
  "markerCreate s =
     (if \<not> x_loc s \<and> \<not> x_range s then Ret None s
      else obind (skipComment s) (\<lambda>_ s. Ret (Some (marker_here s)) s))"

definition markerCreatePreserveWhitespace :: "scanner \<Rightarrow> marker option" where
  "markerCreatePreserveWhitespace s = (if \<not> x_loc s \<and> \<not> x_range s then None else Some (marker_here s))"

definition scanTemplateElement :: "engine \<Rightarrow> bool \<Rightarrow> scanner \<Rightarrow> token outcome" where
  "scanTemplateElement eng head s =
     obind (skipComment (s\<lparr>lookahead := None\<rparr>)) (\<lambda>_ s.
       if code_at (source s) (index (pos s)) \<noteq> Some (if head then 96 else 125) then
         throwError None UnexpectedToken [js ''ILLEGAL''] s
       else obind (move s (scanTemplate (source s) (pos s))) (\<lambda>template s.
         obind (peek eng s) (\<lambda>_ s. Ret template s)))"

definition peekLineTerminator :: "scanner \<Rightarrow> bool outcome" where
  "peekLineTerminator s =
     (let start = pos s
      in obind (skipComment s) (\<lambda>_ s.
           Ret (lineNumber (pos s) \<noteq> lineNumber start) (s\<lparr>pos := start\<rparr>)))"

subsection \<open>Expectations\<close>

text \<open>
  A token's value in a message. (Numbers and templates have messages without the value, or with
  \<^verbatim>\<open>raw\<close>.)
\<close>

definition value_text :: "tvalue \<Rightarrow> jsstring" where
  "value_text v = (case v of
     Text t \<Rightarrow> t
   | RegExpObject pattern flags \<Rightarrow> js ''/'' @ (if pattern = [] then js ''(?:)'' else pattern) @ js ''/'' @ flags
   | NullValue \<Rightarrow> js ''null''
   | NoValue \<Rightarrow> js ''undefined''
   | Number n \<Rightarrow> []
   | Quasi cooked raw \<Rightarrow> [])"

text \<open>
  \<^verbatim>\<open>throwUnexpected\<close>. It returns only for a word that is reserved in strict mode, when errors are
  collected.
\<close>

definition throwUnexpected :: "token \<Rightarrow> scanner \<Rightarrow> unit outcome" where
  "throwUnexpected token s =
     (if tok_type token = EOF then throwError (Some token) UnexpectedEOS [] s
      else if tok_type token = NumericLiteral then throwError (Some token) UnexpectedNumber [] s
      else if tok_type token = StringLiteral \<or> tok_type token = JSXText then throwError (Some token) UnexpectedString [] s
      else if tok_type token = Identifier then throwError (Some token) UnexpectedIdentifier [] s
      else if tok_type token = Keyword \<and> isFutureReservedWord (value_text (tok_value token)) then
        throwError (Some token) UnexpectedReserved [] s
      else if tok_type token = Keyword \<and> strict s \<and> isStrictModeReservedWord (value_text (tok_value token)) then
        throwErrorTolerant (Some token) StrictReservedWord [] s
      else if tok_type token = Template then
        throwError (Some token) UnexpectedTemplate [case tok_value token of Quasi cooked raw \<Rightarrow> raw | _ \<Rightarrow> []] s
      else throwError (Some token) UnexpectedToken [value_text (tok_value token)] s)"

definition is_token :: "token_type \<Rightarrow> jsstring \<Rightarrow> token \<Rightarrow> bool" where
  "is_token ty v t = (tok_type t = ty \<and> tok_value t = Text v)"

definition expect :: "engine \<Rightarrow> jsstring \<Rightarrow> scanner \<Rightarrow> unit outcome" where
  "expect eng v s =
     obind (lex_token eng s) (\<lambda>token s.
       if \<not> is_token Punctuator v token then throwUnexpected token s else Ret () s)"

definition expectKeyword :: "engine \<Rightarrow> jsstring \<Rightarrow> bool \<Rightarrow> scanner \<Rightarrow> unit outcome" where
  "expectKeyword eng keyword contextual s =
     obind (lex_token eng s) (\<lambda>token s.
       if \<not> is_token (if contextual then Identifier else Keyword) keyword token then throwUnexpected token s
       else Ret () s)"

definition expectContextualKeyword :: "engine \<Rightarrow> jsstring \<Rightarrow> scanner \<Rightarrow> unit outcome" where
  "expectContextualKeyword eng keyword s = expectKeyword eng keyword True s"

text \<open>The tests on the token of lookahead; without one they throw, here they fail.\<close>

definition on_lookahead :: "(token \<Rightarrow> bool) \<Rightarrow> scanner \<Rightarrow> bool" where
  "on_lookahead P s = (case lookahead s of None \<Rightarrow> False | Some t \<Rightarrow> P t)"

definition match :: "jsstring \<Rightarrow> scanner \<Rightarrow> bool" where
  "match v s = on_lookahead (is_token Punctuator v) s"

definition matchKeyword :: "jsstring \<Rightarrow> bool \<Rightarrow> scanner \<Rightarrow> bool" where
  "matchKeyword keyword contextual s =
     on_lookahead (is_token (if contextual then Identifier else Keyword) keyword) s"

definition matchContextualKeyword :: "jsstring \<Rightarrow> scanner \<Rightarrow> bool" where
  "matchContextualKeyword keyword s = matchKeyword keyword True s"

definition matchAssign :: "scanner \<Rightarrow> bool" where
  "matchAssign s = on_lookahead (\<lambda>t. tok_type t = Punctuator \<and> tok_value t \<in> set (map (\<lambda>op. Text (js op))
     [''='', ''*='', ''/='', ''%='', ''+='', ''-='', ''<<='', ''>>='', ''>>>='', ''&='', ''^='', ''|=''])) s"

definition matchYield :: "bool \<Rightarrow> scanner \<Rightarrow> bool" where
  "matchYield yieldAllowed s = (yieldAllowed \<and> matchKeyword (js ''yield'') (\<not> strict s) s)"

definition matchAwait :: "bool \<Rightarrow> scanner \<Rightarrow> bool" where
  "matchAwait awaitAllowed s = (awaitAllowed \<and> matchContextualKeyword (js ''await'') s)"

definition matchAsync :: "engine \<Rightarrow> scanner \<Rightarrow> bool outcome" where
  "matchAsync eng s =
     (case lookahead s of
        None \<Rightarrow> Throw PropertyOfUndefined s
      | Some backtrackToken \<Rightarrow>
          if matchContextualKeyword (js ''async'') s then
            obind (lex_token eng s) (\<lambda>_ s.
              obind (peekLineTerminator s) (\<lambda>found s. Ret (\<not> found) (rewind backtrackToken s)))
          else Ret False s)"

definition consumeSemicolon :: "engine \<Rightarrow> scanner \<Rightarrow> unit outcome" where
  "consumeSemicolon eng s =
     (if code_at (source s) (index (pos s)) = Some 59 then obind (lex_token eng s) (\<lambda>_ s. Ret () s)
      else
        let start = pos s; old = lookahead s
        in obind (skipComment s) (\<lambda>_ s.
             if lineNumber (pos s) \<noteq> lineNumber start then Ret () (s\<lparr>pos := start, lookahead := old\<rparr>)
             else if match (js '';'') s then obind (lex_token eng s) (\<lambda>_ s. Ret () s)
             else case lookahead s of
               None \<Rightarrow> Throw PropertyOfUndefined s
             | Some t \<Rightarrow> if tok_type t \<noteq> EOF \<and> \<not> match (js ''}'') s then throwUnexpected t s else Ret () s))"

subsection \<open>One token\<close>

text \<open>
  A token at a position: either it is scanned from there, or it is the end of the source.
\<close>

definition token_at :: "jsstring \<Rightarrow> pos \<Rightarrow> token \<Rightarrow> pos \<Rightarrow> bool" where
  "token_at src p tok q \<longleftrightarrow>
     scanned src p tok q \<or> (tok = mk_token EOF NoValue (index p) p \<and> q = p \<and> index p = length src)"

lemma skipComment_id:
  assumes "\<not> trivia_starts (source s) (index (pos s))"
  shows "skipComment s = Ret () s"
proof (cases "index (pos s) < length (source s)")
  case True
  then show ?thesis using assms
    by (subst skipComment.simps) (auto simp: Let_def trivia_starts_def at_def code_at_Some holds_code_at)
next
  case False
  then show ?thesis by (subst skipComment.simps) simp
qed

lemma scanPunctuator_scanned:
  assumes "scanPunctuator s = Ret tok t" and "tracks (source s) (pos s)"
  shows "kept s t \<and> scanned (source s) (pos s) tok (pos t)"
proof -
  let ?v = "punctuator_text (inJSXTag s \<or> inJSXChild s) (inType s) (source s) (index (pos s))"
  obtain v where v: "?v = Some v" using assms(1) by (auto simp: scanPunctuator_def Let_def split: option.splits)
  define u where "u = s\<lparr>pos := advance_by (length v) (pos s)\<rparr>"
  obtain x where t: "note_open (code_at (source s) (index (pos s))) u = Ret x t"
    and tok: "tok = mk_token Punctuator (Text v) (index (pos s)) (pos t)"
    using assms(1) v by (auto simp: scanPunctuator_def Let_def u_def elim!: obind_RetE)
  have k: "kept s t" "pos t = advance_by (length v) (pos s)"
    using t by (auto simp: note_open_def u_def kept_def split: if_splits option.splits)
  have "plain (source s) (index (pos s)) (index (pos s) + length v)" "v \<noteq> []"
    using punctuator_plain [OF v] by auto
  then show ?thesis
    using k scanned_plain [OF assms(2), of "index (pos s) + length v" Punctuator "Text v"]
    by (simp add: tok advance_by_def)
qed

lemma regexp_token_scanned:
  assumes "regexp_token eng s = Ret tok t" and "tracks (source s) (pos s)"
    and "\<not> trivia_starts (source s) (index (pos s))" and "x_tokenize s"
  shows "kept s t \<and> scanned (source s) (pos s) tok (pos t)"
proof -
  have c: "collectRegex eng s = obind (scanRegExp eng s) (\<lambda>r u. if x_tokenize u then Ret r u
      else Ret r (u\<lparr>x_tokens := map_option (\<lambda>tokens. drop_slash (index (pos s)) tokens
        @ [regex_entry r (index (pos s)) (lineNumber (pos s), column (pos s)) u]) (x_tokens u)\<rparr>))"
    by (simp add: collectRegex_def skipComment_id [OF assms(3)] Let_def)
  obtain r u where u: "call_scanRegExp eng s = Ret r u" and r: "r = RegToken tok" "u = t"
    using assms(1) by (auto simp: regexp_token_def split: regexp_result.splits elim!: obind_RetE)
  obtain u' where u': "scanRegExp eng s = Ret (RegToken tok) u'" and t: "x_tokenize u' \<longrightarrow> t = u'"
    using u r by (auto simp: call_scanRegExp_def c split: if_splits elim!: obind_RetE)
  note k = scanRegExp_scanned [OF u' assms(2)]
  have "t = u'" using t k(1) assms(4) by (simp add: kept_def)
  then show ?thesis using k skipComment_id [of "s\<lparr>lookahead := None\<rparr>"] assms(3) by auto
qed

lemma advance_token_scanned:
  assumes "advance_token eng ch s = Ret tok t" and "tracks (source s) (pos s)"
    and "\<not> trivia_starts (source s) (index (pos s))" and "\<not> inJSXTag s"
    and "code_at (source s) (index (pos s)) = Some ch"
  shows "kept s t \<and> scanned (source s) (pos s) tok (pos t)"
proof -
  define ok where "ok \<longleftrightarrow> kept s t \<and> scanned (source s) (pos s) tok (pos t)"
  have punct: "scanPunctuator s = Ret tok t \<Longrightarrow> ok" using scanPunctuator_scanned [OF _ assms(2)] by (simp add: ok_def)
  have moved: "\<lbrakk>move s m = Ret tok t; \<And>q. m = Done tok q \<Longrightarrow> scanned (source s) (pos s) tok q\<rbrakk> \<Longrightarrow> ok" for m
    by (elim move_RetE) (auto simp: ok_def)
  have slash: "\<lbrakk>advanceSlash eng s = Ret tok t; x_tokenize s\<rbrakk> \<Longrightarrow> ok"
    using regexp_token_scanned [OF _ assms(2,3), folded ok_def] punct
    by (auto simp: advanceSlash_def ok_def split: option.splits if_splits)
  have "ok"
    using assms(1,4,5) unfolding advance_token_def Let_def
    by (auto split: if_splits intro: punct slash
        moved [OF _ scanStringLiteral_scanned [OF _ assms(2)]]
        moved [OF _ scanTemplate_scanned [OF _ assms(2,5) ascii_not_line]]
        moved [OF _ scanIdentifier_scanned [OF _ assms(2,5)]]
        moved [OF _ scanNumericLiteral_scanned [OF _ assms(2)]])
  then show ?thesis by (simp add: ok_def)
qed

lemma advance_token_at:
  assumes "advance eng s = Ret tok t" and "tracks (source s) (pos s)" and "\<not> inJSXTag s" and "\<not> inJSXChild s"
  shows "kept s t \<and> (\<exists>u. skipComment s = Ret () u \<and> token_at (source s) (pos u) tok (pos t))"
proof -
  obtain u where u: "skipComment s = Ret () u"
    and tok: "(case code_at (source u) (index (pos u)) of
         None \<Rightarrow> Ret (mk_token EOF NoValue (index (pos u)) (pos u)) u
       | Some ch \<Rightarrow> if inJSXChild u then advanceJSXChild eng u else advance_token eng ch u) = Ret tok t"
    using assms(1,4) by (auto simp: advance_def elim!: obind_RetE)
  note su = skipComment_Ret [OF u]
  have f: "source u = source s" "\<not> inJSXTag u" "\<not> inJSXChild u" "kept s u"
    using su(1) assms(3,4) frame_kept [OF su(1)] by (auto simp: frame_def)
  have tr: "tracks (source u) (pos u)" using su(2) [OF assms(2)] f(1) by simp
  show ?thesis
  proof (cases "code_at (source u) (index (pos u))")
    case None
    then have "index (pos u) = length (source s)"
      using tracks_bounded [OF tr] f(1) by (simp add: code_at_def split: if_splits)
    then show ?thesis using None tok f u by (auto simp: token_at_def)
  next
    case (Some ch)
    then have "kept u t \<and> scanned (source u) (pos u) tok (pos t)"
      using tok f su(4) by (intro advance_token_scanned [OF _ tr]) auto
    then show ?thesis using u f kept_trans by (auto simp: token_at_def)
  qed
qed

end
