(* ===== verification/EsTokenize.thy ===== *)
theory EsTokenize
  imports EsLexer
begin

text \<open>
  \<^verbatim>\<open>tokenize\<close>: the whole source as a list of tokens. The loop over \<^verbatim>\<open>lex\<close> is a partial function; it
  is shown to end on every source.
\<close>

text \<open>The options, each one true only when the caller gives the boolean true.\<close>

record options =
  o_range :: bool
  o_loc :: bool
  o_comment :: bool
  o_tolerant :: bool

text \<open>The returned array with its properties \<^verbatim>\<open>comments\<close> and \<^verbatim>\<open>errors\<close>.\<close>

record token_array =
  t_tokens :: "entry list"
  t_comments :: "comment list option"
  t_errors :: "thrown list option"

definition filterTokenLocation :: "scanner \<Rightarrow> scanner" where
  "filterTokenLocation s =
     s\<lparr>x_tokens := map_option (map (\<lambda>entry.
         \<lparr>e_type = e_type entry, e_value = e_value entry,
          e_range = (if x_range s then e_range entry else None),
          e_loc = (if x_loc s then e_loc entry else None),
          e_regex = e_regex entry\<rparr>)) (x_tokens s)\<rparr>"

text \<open>
  The state \<^verbatim>\<open>tokenize\<close> sets up. \<^verbatim>\<open>strict\<close> is not among the variables it sets: it is what the last
  parse left.
\<close>

definition tokenize_start :: "bool \<Rightarrow> options \<Rightarrow> jsstring \<Rightarrow> scanner" where
  "tokenize_start is_strict opts code =
     \<lparr>source = code, strict = is_strict,
      pos = \<lparr>index = 0, lineNumber = (if length code > 0 then 1 else 0), lineStart = 0\<rparr>,
      lookahead = None, inJSXTag = False, inJSXChild = False, inType = False, lastCommentStart = - 1,
      x_range = o_range opts, x_loc = o_loc opts, x_tokenize = True, x_attachComment = False,
      x_comments = (if o_comment opts then Some [] else None), x_leadingComments = [], x_trailingComments = [],
      x_errors = (if o_tolerant opts then Some [] else None), x_tokens = Some [],
      openParenToken = - 1, openCurlyToken = - 1\<rparr>"

partial_function (option) lex_loop :: "engine \<Rightarrow> scanner \<Rightarrow> unit outcome option" where
  "lex_loop eng s =
     (if on_lookahead (\<lambda>t. tok_type t \<noteq> EOF) s then
        (case lex_token eng s of
           Ret token s \<Rightarrow> lex_loop eng s
         | Throw lexError s \<Rightarrow>
             Some (case x_errors s of
                Some errors \<Rightarrow> Ret () (s\<lparr>x_errors := Some (errors @ [lexError])\<rparr>)
              | None \<Rightarrow> Throw lexError s))
      else Some (Ret () s))"

definition token_result :: "scanner \<Rightarrow> token_array" where
  "token_result s =
     \<lparr>t_tokens = (case x_tokens s of Some tokens \<Rightarrow> tokens | None \<Rightarrow> []),
      t_comments = x_comments s, t_errors = x_errors s\<rparr>"

text \<open>
  The first token is read by \<^verbatim>\<open>peek\<close> and the second by a call of \<^verbatim>\<open>lex\<close> outside the inner \<^verbatim>\<open>try\<close>. When
  there is no token at all the bare array is returned.
\<close>

definition tokenize :: "engine \<Rightarrow> bool \<Rightarrow> options \<Rightarrow> jsstring \<Rightarrow> (thrown + token_array) option" where
  "tokenize eng is_strict opts code =
     (case peek eng (tokenize_start is_strict opts code) of
        Throw e s \<Rightarrow> Some (Inl e)
      | Ret _ s \<Rightarrow>
          if on_lookahead (\<lambda>t. tok_type t = EOF) s then
            Some (Inr ((token_result s)\<lparr>t_comments := None, t_errors := None\<rparr>))
          else case lex_token eng s of
            Throw e s \<Rightarrow> Some (Inl e)
          | Ret _ s \<Rightarrow>
              (case lex_loop eng s of
                 None \<Rightarrow> None
               | Some (Throw e s) \<Rightarrow> Some (Inl e)
               | Some (Ret _ s) \<Rightarrow> Some (Inr (token_result (filterTokenLocation s)))))"

subsection \<open>The tokens of a source\<close>

text \<open>
  A tiling of the source up to an index: tokens in order, each behind all the white space and the
  comments before it; both ends of a token are tracked positions.
\<close>

inductive tiles :: "jsstring \<Rightarrow> (pos \<times> pos) list \<Rightarrow> nat \<Rightarrow> bool" for src where
  no_token: "tiles src [] 0"
| token: "\<lbrakk>tiles src ps j; trivia src j (index p); \<not> trivia_starts src (index p); tracks src p; tracks src q;
    index p < index q\<rbrakk>
    \<Longrightarrow> tiles src (ps @ [(p, q)]) (index q)"

definition entry_of :: "jsstring \<Rightarrow> pos \<times> pos \<Rightarrow> entry \<Rightarrow> bool" where
  "entry_of src = (\<lambda>(p, q) e. e_value e = substring (index p) (index q) src
     \<and> e_range e = Some (index p, index q)
     \<and> e_loc e = Some ((lineNumber p, column p), (lineNumber q, column q)))"

text \<open>The state between two tokens: the recorded tokens tile the source up to the lookahead.\<close>

definition lexing :: "jsstring \<Rightarrow> scanner \<Rightarrow> bool" where
  "lexing src s \<longleftrightarrow> source s = src \<and> \<not> inJSXTag s \<and> \<not> inJSXChild s
     \<and> (\<exists>tok es ps j. lookahead s = Some tok \<and> x_tokens s = Some es \<and> list_all2 (entry_of src) ps es
          \<and> tiles src ps j \<and> tracks src (after_token tok)
          \<and> (if tok_type tok = EOF then trivia src j (length src) else j = index (after_token tok)))"

lemma kept_tokens: "kept s t \<Longrightarrow> x_tokens t = x_tokens s"
  by (simp add: kept_def)

lemma token_at_after:
  assumes "token_at src p tok q"
  shows "after_token tok = q" "tracks src p \<Longrightarrow> tracks src q" "tok_range tok = (index p, index q)"
  using assms by (auto simp: token_at_def scanned_def after_token_def)

lemma collectToken_at:
  assumes "collectToken eng s = Ret tok t" and "tracks (source s) (pos s)" and "\<not> inJSXTag s" and "\<not> inJSXChild s"
    and "x_tokens s = Some es"
  obtains p where "tracks (source s) p" and "trivia (source s) (index (pos s)) (index p)"
    and "\<not> trivia_starts (source s) (index p)" and "token_at (source s) p tok (pos t)" and "source t = source s" and "\<not> inJSXTag t" and "\<not> inJSXChild t"
    and "x_range t = x_range s" and "x_loc t = x_loc s" and "x_errors t = None \<longleftrightarrow> x_errors s = None"
    and "tok_type tok = EOF \<Longrightarrow> x_tokens t = Some es"
    and "tok_type tok \<noteq> EOF \<Longrightarrow> \<exists>e. x_tokens t = Some (es @ [e]) \<and> entry_of (source s) (p, pos t) e"
proof -
  obtain u v where u: "skipComment s = Ret () u" and v: "advance eng u = Ret tok v"
    and t: "t = (if tok_type tok \<noteq> EOF then v\<lparr>x_tokens := map_option (\<lambda>tokens. tokens
       @ [token_entry tok (lineNumber (pos u), column (pos u)) v]) (x_tokens v)\<rparr> else v)"
    using assms(1,4) by (auto simp: collectToken_def Let_def elim!: obind_RetE split: if_splits)
  note su = skipComment_Ret [OF u]
  have f: "source u = source s" "\<not> inJSXTag u" "\<not> inJSXChild u" "x_tokens u = Some es" "kept s u"
    using su(1) assms(3-5) frame_kept [OF su(1)] by (auto simp: frame_def)
  have tr: "tracks (source u) (pos u)" using su(2) [OF assms(2)] f(1) by simp
  have k: "kept u v" and tok: "token_at (source s) (pos u) tok (pos v)"
    using advance_token_at [OF v tr f(2,3)] skipComment_id [of u] su(4) f(1) by auto
  have kv: "kept s v" using f(5) k by (rule kept_trans)
  show thesis
  proof (rule that [of "pos u"])
    show "tracks (source s) (pos u)" using su(2) [OF assms(2)] .
    show "trivia (source s) (index (pos s)) (index (pos u))" using su(3) .
    show "\<not> trivia_starts (source s) (index (pos u))" using su(4) .
    show "token_at (source s) (pos u) tok (pos t)" using tok by (simp add: t)
    show "tok_type tok = EOF \<Longrightarrow> x_tokens t = Some es" using kv assms(5) by (simp add: t kept_tokens)
    show "\<exists>e. x_tokens t = Some (es @ [e]) \<and> entry_of (source s) (pos u, pos t) e" if "tok_type tok \<noteq> EOF"
      using that kv assms(5) token_at_after(3) [OF tok]
      by (simp add: t kept_tokens entry_of_def token_entry_def kept_source)
  qed (use kv assms(3,4) in \<open>auto simp: t kept_def\<close>)
qed

lemma call_advance_lexing:
  assumes "call_advance eng s = Ret tok t" and "source s = src" and "tracks src (pos s)" and "\<not> inJSXTag s"
    and "\<not> inJSXChild s" and "x_tokens s = Some es" and "list_all2 (entry_of src) ps es" and "tiles src ps (index (pos s))"
  shows "lexing src (t\<lparr>lookahead := Some tok, pos := p\<rparr>) \<and> x_range t = x_range s \<and> x_loc t = x_loc s
    \<and> (x_errors t = None \<longleftrightarrow> x_errors s = None)
    \<and> (tok_type tok \<noteq> EOF \<longrightarrow> index (pos s) < index (after_token tok) \<and> index (after_token tok) \<le> length src)
    \<and> (tok_type tok = EOF \<longrightarrow> x_tokens t = Some es)"
proof -
  have c: "collectToken eng s = Ret tok t" using assms(1,6) by (simp add: call_advance_def)
  obtain p' where p: "tracks src p'" "trivia src (index (pos s)) (index p')" "token_at src p' tok (pos t)" "\<not> trivia_starts src (index p')"
    and f: "source t = src" "\<not> inJSXTag t" "\<not> inJSXChild t" "x_range t = x_range s" "x_loc t = x_loc s"
      "x_errors t = None \<longleftrightarrow> x_errors s = None"
    and e: "tok_type tok = EOF \<Longrightarrow> x_tokens t = Some es"
    and ne: "tok_type tok \<noteq> EOF \<Longrightarrow> \<exists>e. x_tokens t = Some (es @ [e]) \<and> entry_of src (p', pos t) e"
    using collectToken_at [OF c _ assms(4,5,6)] assms(2,3) by metis
  note a = token_at_after [OF p(3)]
  have le: "index (pos s) \<le> index p'" using p(2) by (induction rule: trivia.induct) (auto simp: at_def)
  show ?thesis
  proof (cases "tok_type tok = EOF")
    case True
    then have "index p' = length src" using p(3) by (auto simp: token_at_def scanned_def)
    then show ?thesis using True f e assms(7,8) p(1,2) a unfolding lexing_def by auto
  next
    case False
    then have lt: "index p' < index (pos t)" using p(3) by (auto simp: token_at_def scanned_def)
    obtain x where x: "x_tokens t = Some (es @ [x])" "entry_of src (p', pos t) x" using ne False by blast
    have "tiles src (ps @ [(p', pos t)]) (index (pos t))" using assms(8) p(1,2,4) a lt by (auto intro: tiles.token)
    moreover have "list_all2 (entry_of src) (ps @ [(p', pos t)]) (es @ [x])" using assms(7) x(2) by (simp add: list_all2_appendI)
    ultimately show ?thesis using False f x a lt le p(1) tracks_bounded [of src "pos t"] unfolding lexing_def by auto
  qed
qed

lemma lex_token_lexing:
  assumes "lexing src s" and "lex_token eng s = Ret tok t" and "tok_type tok \<noteq> EOF"
  shows "lexing src t \<and> x_range t = x_range s \<and> x_loc t = x_loc s \<and> (x_errors t = None \<longleftrightarrow> x_errors s = None)
    \<and> (\<exists>next. lookahead s = Some tok \<and> lookahead t = Some next \<and> (tok_type next \<noteq> EOF \<longrightarrow>
        index (after_token tok) < index (after_token next) \<and> index (after_token next) \<le> length src))"
proof -
  obtain es ps where l: "lookahead s = Some tok" and s: "source s = src" "\<not> inJSXTag s" "\<not> inJSXChild s"
    "x_tokens s = Some es" "list_all2 (entry_of src) ps es" "tiles src ps (index (after_token tok))" "tracks src (after_token tok)"
    using assms by (auto simp: lexing_def lex_token_def split: option.splits elim!: obind_RetE)
  obtain nt u where u: "call_advance eng (s\<lparr>pos := after_token tok\<rparr>) = Ret nt u"
    and t: "t = u\<lparr>lookahead := Some nt, pos := after_token tok\<rparr>"
    using assms(2) l by (auto simp: lex_token_def elim!: obind_RetE)
  show ?thesis
    using call_advance_lexing [OF u, of src es ps "after_token tok"] s l by (simp add: t)
qed

subsection \<open>What an exception leaves\<close>

definition keeps :: "scanner \<Rightarrow> 'a outcome \<Rightarrow> bool" where
  "keeps s m = (case m of Ret x t \<Rightarrow> kept s t | Throw e t \<Rightarrow> kept s t)"

lemma keeps_simps [simp]: "keeps s (Ret x t) = kept s t" "keeps s (Throw e t) = kept s t"
  by (simp_all add: keeps_def)

lemma keeps_obind:
  assumes "keeps s m" and "\<And>x t. \<lbrakk>m = Ret x t; kept s t\<rbrakk> \<Longrightarrow> keeps t (f x t)"
  shows "keeps s (obind m f)"
  using assms kept_trans by (cases m; cases "obind m f") (auto simp: keeps_def split: outcome.splits)

lemma keeps_throw [simp]: "keeps s (throwError a m args t) = kept s t"
  by (simp add: throwError_def)

lemma keeps_move [simp]: "keeps s (move t m) = kept s t"
  by (cases m) simp_all

lemma keeps_lookahead [simp]: "keeps (s\<lparr>lookahead := l\<rparr>) m = keeps s m" "keeps (s\<lparr>pos := p\<rparr>) m = keeps s m"
  by (cases m; simp)+

lemma keeps_tolerant: "keeps s (throwErrorTolerant a m args s)"
  by (auto simp: throwErrorTolerant_def throwError_def kept_def split: option.splits)

lemma keeps_skipComment: "keeps s (skipComment s)"
  using skipComment_skipped [of s] by (auto simp: skipped_def frame_kept split: outcome.splits)

lemma keeps_flags_loop: "keeps s (flags_loop s flags str)"
proof (induction "length (source s) - index (pos s)" arbitrary: s flags str rule: less_induct)
  case less
  have t: "keeps s (throwErrorTolerant None UnexpectedToken args (s\<lparr>pos := p\<rparr>))" for args p
    using keeps_tolerant [of "s\<lparr>pos := p\<rparr>"] by simp
  have IH: "keeps t (flags_loop t fl st)"
    if "throwErrorTolerant None UnexpectedToken args (s\<lparr>pos := p\<rparr>) = Ret () t" "index (pos s) < index p"
      "index (pos s) < length (source s)" for t fl st args p
    using that by (intro less) (auto dest!: throwErrorTolerant_state)
  have IH': "keeps s (flags_loop (s\<lparr>pos := advance_by 1 (pos s)\<rparr>) fl st)" if "index (pos s) < length (source s)" for fl st
    using less [of "s\<lparr>pos := advance_by 1 (pos s)\<rparr>"] that by simp
  have B: "keeps s (obind (throwErrorTolerant None UnexpectedToken args (s\<lparr>pos := p\<rparr>)) (\<lambda>_ t. flags_loop t fl st))"
    if "index (pos s) < index p" "index (pos s) < length (source s)" for args p fl st
    using that by (intro keeps_obind t) (auto intro: IH)
  have hex: "Suc (index (pos s)) < snd (scanHexEscape 117 (source s) (index (pos s) + 1 + 1))"
    using scanHexEscape_index [of "index (pos s) + 1 + 1" 117 "source s"] by simp
  show ?case
    by (subst flags_loop.simps)
      (use hex in \<open>auto simp: Let_def IH' [simplified] holds_code_at intro!: B\<close>)
qed

lemma keeps_testRegExp: "keeps s (testRegExp eng pattern flags s)"
  by (simp add: testRegExp_def Let_def split: option.splits)

lemma keeps_scanRegExp: "keeps s (scanRegExp eng s)"
proof -
  have "keeps s (skipComment (s\<lparr>lookahead := None\<rparr>))" using keeps_skipComment [of "s\<lparr>lookahead := None\<rparr>"] by simp
  then show ?thesis unfolding scanRegExp_def Let_def
    by (auto intro!: keeps_obind keeps_flags_loop keeps_testRegExp simp: scanRegExpFlags_def split: prod.splits)
qed

lemma keeps_scanPunctuator: "keeps s (scanPunctuator s)"
  by (auto simp: scanPunctuator_def Let_def note_open_def kept_def split: option.splits)

lemma keeps_regexp_token:
  assumes "x_tokenize s"
  shows "keeps s (regexp_token eng s)"
proof -
  have "x_tokenize t" if "kept s t" for t using that assms by (simp add: kept_def)
  then have "keeps s (collectRegex eng s)"
    unfolding collectRegex_def Let_def
    by (intro keeps_obind keeps_skipComment keeps_scanRegExp) (auto simp: kept_def)
  then show ?thesis unfolding regexp_token_def call_scanRegExp_def
    by (auto intro!: keeps_obind keeps_scanRegExp split: regexp_result.splits)
qed

lemma keeps_advance:
  assumes "\<not> inJSXChild s"
  shows "keeps s (advance eng s)"
proof -
  have t: "keeps t (advance_token eng ch t)" for ch t
    by (simp add: advance_token_def Let_def advanceSlash_def keeps_scanPunctuator keeps_regexp_token split: option.splits)
  have "keeps s (skipComment s)" by (rule keeps_skipComment)
  then show ?thesis unfolding advance_def
    using assms by (auto intro!: keeps_obind t simp: kept_def split: option.splits)
qed

lemma collectToken_Throw:
  assumes "collectToken eng s = Throw e t" and "\<not> inJSXChild s"
  shows "kept s t"
proof (cases "skipComment s")
  case (Ret x u)
  have u: "kept s u" using keeps_skipComment [of s] Ret by simp
  moreover have "\<not> inJSXChild u" using u assms(2) by (simp add: kept_def)
  then have "keeps u (advance eng u)" by (rule keeps_advance)
  moreover have "advance eng u = Throw e t"
    using assms Ret by (cases "advance eng u") (auto simp: collectToken_def Let_def split: if_splits)
  ultimately show ?thesis using kept_trans by auto
next
  case (Throw e' u)
  then show ?thesis using keeps_skipComment [of s] assms by (simp add: collectToken_def)
qed

lemma lex_token_Throw:
  assumes "lex_token eng s = Throw e t" and "\<not> inJSXChild s"
  shows "kept s t"
proof (cases "lookahead s")
  case (Some tok)
  define u where "u = s\<lparr>pos := after_token tok\<rparr>"
  have u: "\<not> inJSXChild u" "kept s u" using assms(2) by (simp_all add: u_def)
  have "call_advance eng u = Throw e t"
    using assms(1) Some by (cases "call_advance eng u") (auto simp: lex_token_def u_def)
  then have "kept u t" using keeps_advance [OF u(1), of eng] collectToken_Throw [OF _ u(1)]
    by (auto simp: call_advance_def split: if_splits)
  then show ?thesis using u(2) kept_trans by blast
qed (use assms in \<open>simp add: lex_token_def\<close>)

text \<open>What the loop leaves: the tokens it collected tile a part of the source, all of it when no error was caught.\<close>

definition collected :: "jsstring \<Rightarrow> scanner \<Rightarrow> bool" where
  "collected src t \<longleftrightarrow> (\<exists>es ps j. x_tokens t = Some es \<and> list_all2 (entry_of src) ps es \<and> tiles src ps j
     \<and> (x_errors t = None \<or> x_errors t = Some [] \<longrightarrow> trivia src j (length src)))"

lemma lex_loop_ends:
  assumes "lexing src s"
  shows "\<exists>out. lex_loop eng s = Some out
    \<and> (\<forall>t. out = Ret () t \<longrightarrow> collected src t \<and> x_range t = x_range s \<and> x_loc t = x_loc s)"
  using assms
proof (induction "length src - index (after_token (the (lookahead s)))" arbitrary: s rule: less_induct)
  case less
  obtain tok where l: "lookahead s = Some tok" and j: "\<not> inJSXChild s" using less.prems by (auto simp: lexing_def)
  show ?case
  proof (cases "tok_type tok = EOF")
    case True
    then have "lex_loop eng s = Some (Ret () s)" by (subst lex_loop.simps) (simp add: on_lookahead_def l)
    moreover have "collected src s" using less.prems l True by (auto simp: lexing_def collected_def)
    ultimately show ?thesis by simp
  next
    case tok: False
    show ?thesis
    proof (cases "lex_token eng s")
      case (Ret x t)
      have x: "x = tok" using Ret l by (auto simp: lex_token_def elim!: obind_RetE)
      note lt = lex_token_lexing [OF less.prems Ret [unfolded x] tok]
      have step: "lex_loop eng s = lex_loop eng t"
        using Ret l tok by (subst lex_loop.simps) (simp add: on_lookahead_def)
      obtain nxt where n: "lookahead t = Some nxt" "tok_type nxt \<noteq> EOF \<Longrightarrow>
          index (after_token tok) < index (after_token nxt) \<and> index (after_token nxt) \<le> length src"
        using lt l by auto
      show ?thesis
      proof (cases "tok_type nxt = EOF")
        case True
        then have "lex_loop eng t = Some (Ret () t)" by (subst lex_loop.simps) (simp add: on_lookahead_def n)
        moreover have "collected src t" using lt n(1) True by (auto simp: lexing_def collected_def)
        ultimately show ?thesis using step lt by simp
      next
        case False
        then have "length src - index (after_token nxt) < length src - index (after_token tok)"
          using n(2) by (simp add: diff_less_mono2)
        then show ?thesis using less.hyps [of t] lt l n(1) step by auto
      qed
    next
      case (Throw e t)
      note k = lex_token_Throw [OF Throw j]
      have "lex_loop eng s = Some (case x_errors t of Some errors \<Rightarrow> Ret () (t\<lparr>x_errors := Some (errors @ [e])\<rparr>)
          | None \<Rightarrow> Throw e t)"
        using Throw l tok by (subst lex_loop.simps) (simp add: on_lookahead_def)
      moreover have "collected src (t\<lparr>x_errors := Some (errors @ [e])\<rparr>)" for errors
        using k less.prems by (auto simp: lexing_def collected_def kept_tokens)
      ultimately show ?thesis using k by (auto simp: kept_def split: option.splits)
    qed
  qed
qed

lemma tokenize_start_facts:
  "source (tokenize_start b opts src) = src" "tracks src (pos (tokenize_start b opts src))"
  "\<not> inJSXTag (tokenize_start b opts src)" "\<not> inJSXChild (tokenize_start b opts src)"
  "x_tokens (tokenize_start b opts src) = Some []" "index (pos (tokenize_start b opts src)) = 0"
  "x_range (tokenize_start b opts src) = o_range opts" "x_loc (tokenize_start b opts src) = o_loc opts"
  using tracks.beginning [of src] by (simp_all add: tokenize_start_def first_line_def split: if_splits)

lemma peek_lexing:
  assumes "peek eng (tokenize_start b opts src) = Ret x t"
  shows "lexing src t \<and> x_range t = o_range opts \<and> x_loc t = o_loc opts
    \<and> (on_lookahead (\<lambda>t. tok_type t = EOF) t \<longrightarrow> x_tokens t = Some [])"
proof -
  define s where "s = tokenize_start b opts src"
  note f = tokenize_start_facts [where b = b and opts = opts and src = src, folded s_def]
  obtain tok u where u: "call_advance eng s = Ret tok u" and t: "t = u\<lparr>lookahead := Some tok, pos := pos s\<rparr>"
    using assms by (auto simp: peek_def Let_def s_def elim!: obind_RetE)
  show ?thesis using call_advance_lexing [OF u f(1-5), of "[]" "pos s"] f tiles.no_token by (simp add: t on_lookahead_def)
qed

text \<open>A token as the result shows it under the options.\<close>

definition shown :: "options \<Rightarrow> jsstring \<Rightarrow> pos \<times> pos \<Rightarrow> entry \<Rightarrow> bool" where
  "shown opts src = (\<lambda>(p, q) e. e_value e = substring (index p) (index q) src
     \<and> e_range e = (if o_range opts then Some (index p, index q) else None)
     \<and> e_loc e = (if o_loc opts then Some ((lineNumber p, column p), (lineNumber q, column q)) else None))"

lemma shown_filter:
  assumes "collected src t" and "x_range t = o_range opts" and "x_loc t = o_loc opts"
    and "r = token_result (filterTokenLocation t)"
  shows "\<exists>ps j. tiles src ps j \<and> list_all2 (shown opts src) ps (t_tokens r)
    \<and> (t_errors r = None \<or> t_errors r = Some [] \<longrightarrow> trivia src j (length src))"
proof -
  obtain es ps j where e: "x_tokens t = Some es" "list_all2 (entry_of src) ps es" "tiles src ps j"
    "x_errors t = None \<or> x_errors t = Some [] \<longrightarrow> trivia src j (length src)"
    using assms(1) by (auto simp: collected_def)
  have "list_all2 (shown opts src) ps (t_tokens r)"
    using e(2) assms(2,3)
    by (auto simp: assms(4) token_result_def filterTokenLocation_def e(1) list_all2_map2 shown_def entry_of_def
        elim!: list_all2_mono)
  moreover have "t_errors r = x_errors t" by (simp add: assms(4) token_result_def filterTokenLocation_def)
  ultimately show ?thesis using e(3,4) by metis
qed

lemma tokenize_cases:
  "\<exists>r. tokenize eng b opts src = Some r \<and> (\<forall>a. r = Inr a \<longrightarrow>
     (\<exists>ps j. tiles src ps j \<and> list_all2 (shown opts src) ps (t_tokens a)
       \<and> (t_errors a = None \<or> t_errors a = Some [] \<longrightarrow> trivia src j (length src))))"
proof (cases "peek eng (tokenize_start b opts src)")
  case (Ret x s)
  note ls = peek_lexing [OF Ret]
  then obtain tok where l: "lookahead s = Some tok" by (auto simp: lexing_def)
  show ?thesis
  proof (cases "tok_type tok = EOF")
    case True
    then have "x_tokens s = Some []" using ls l by (simp add: on_lookahead_def)
    moreover from this obtain j where "tiles src [] j" "trivia src j (length src)"
      using ls l True by (auto simp: lexing_def)
    ultimately show ?thesis
      using Ret l True by (auto simp: tokenize_def on_lookahead_def token_result_def intro!: exI [of _ "[]"])
  next
    case tok: False
    show ?thesis
    proof (cases "lex_token eng s")
      case Rt: (Ret y t)
      have y: "y = tok" using Rt l by (auto simp: lex_token_def elim!: obind_RetE)
      have lt: "lexing src t \<and> x_range t = o_range opts \<and> x_loc t = o_loc opts"
        using lex_token_lexing [OF _ Rt [unfolded y] tok] ls by auto
      obtain out where out: "lex_loop eng t = Some out"
        "\<And>u. out = Ret () u \<Longrightarrow> collected src u \<and> x_range u = o_range opts \<and> x_loc u = o_loc opts"
        using lex_loop_ends [of src t eng] lt by auto
      then have "tokenize eng b opts src = Some (case out of Throw e s \<Rightarrow> Inl e
          | Ret x s \<Rightarrow> Inr (token_result (filterTokenLocation s)))"
        using Ret Rt l tok by (auto simp: tokenize_def on_lookahead_def split: outcome.splits)
      then show ?thesis using shown_filter out(2) by (auto split: outcome.splits)
    qed (use Ret l tok in \<open>simp add: tokenize_def on_lookahead_def\<close>)
  qed
qed (simp add: tokenize_def)

declare lex_loop.simps [code]

text \<open>An engine that takes every pattern, for the examples.\<close>

definition any_engine :: engine where
  "any_engine = \<lparr>RegExp_valid = (\<lambda>p f. True), inherited = (\<lambda>n. None)\<rparr>"

definition range_option :: options where
  "range_option = \<lparr>o_range = True, o_loc = True, o_comment = False, o_tolerant = False\<rparr>"

lemma sample_tokens:
  "\<exists>a. tokenize any_engine False range_option (js ''a b'') = Some (Inr a)
     \<and> map e_value (t_tokens a) = [js ''a'', js ''b''] \<and> t_errors a = None"
proof -
  have "case tokenize any_engine False range_option (js ''a b'') of
      Some (Inr a) \<Rightarrow> map e_value (t_tokens a) = [js ''a'', js ''b''] \<and> Option.is_none (t_errors a)
    | _ \<Rightarrow> False"
    by code_simp
  then show ?thesis by (auto simp: Option.is_none_def split: option.splits sum.splits)
qed

text \<open>
  C17: \<^verbatim>\<open>tokenize\<close> ends on every source, whatever it holds: it returns an array or throws.
\<close>

theorem tokenize_ends: "\<exists>r. tokenize eng is_strict opts src = Some r"
  using tokenize_cases [of eng is_strict opts src] by blast

text \<open>
  C4: the tokens \<^verbatim>\<open>tokenize\<close> returns tile the source: each one stands behind all the white space and
  the comments before it and is at least one character long, its value is its slice of the source,
  and its range and its location (lines and columns counted from the line terminators) are those of
  the slice, when the options ask for them. Without errors only white space and comments follow the
  last one.
\<close>

theorem tokenize_tiles:
  assumes "tokenize eng is_strict opts src = Some (Inr a)"
  shows "\<exists>ps j. tiles src ps j \<and> list_all2 (shown opts src) ps (t_tokens a)
    \<and> (t_errors a = None \<or> t_errors a = Some [] \<longrightarrow> trivia src j (length src))"
  using tokenize_cases [of eng is_strict opts src] assms by auto

theorem tokenize_tiles_witness:
  "\<exists>a ps j. tokenize any_engine False range_option (js ''a b'') = Some (Inr a)
     \<and> map e_value (t_tokens a) = [js ''a'', js ''b'']
     \<and> tiles (js ''a b'') ps j \<and> list_all2 (shown range_option (js ''a b'')) ps (t_tokens a)
     \<and> trivia (js ''a b'') j (length (js ''a b''))"
proof -
  obtain a where a: "tokenize any_engine False range_option (js ''a b'') = Some (Inr a)"
    "map e_value (t_tokens a) = [js ''a'', js ''b'']" "t_errors a = None"
    using sample_tokens by auto
  show ?thesis using tokenize_tiles [OF a(1)] a by auto
qed

end
