(* ===== verification/EsLexical.thy ===== *)
theory EsLexical
  imports EsTokenize "HOL-Library.Sublist"
begin

text \<open>
  What the scanning functions of \<^verbatim>\<open>esprima\<close> read, against the lexical grammar: the longest punctuator,
  string literals and identifiers with escapes, and literals that break off behind a backslash.
\<close>

subsection \<open>Punctuators\<close>

text \<open>
  The punctuators of the language, the longer ones first. Inside JSX the characters \<^verbatim>\<open><\<close> and \<^verbatim>\<open>>\<close>
  stand alone; in a type no punctuator of one repeated character is taken.
\<close>

definition punctuators :: "bool \<Rightarrow> bool \<Rightarrow> jsstring list" where
  "punctuators in_jsx in_type =
     filter (\<lambda>v. (in_jsx \<longrightarrow> length v = 1 \<or> hd v \<notin> {60, 62})
         \<and> (in_type \<longrightarrow> v \<notin> set (map js [''>>>'', ''++'', ''--'', ''<<'', ''>>'', ''&&'', ''||''])))
       (map js [''>>>='', ''==='', ''!=='', ''>>>'', ''<<='', ''>>='', ''...'',
          ''%='', ''&='', ''*='', ''+='', ''-='', ''/='', ''<='', ''>='', ''^='', ''|='', ''!='', ''=='', ''=>'',
          ''++'', ''--'', ''<<'', ''>>'', ''&&'', ''||'',
          ''('', '')'', '';'', '','', ''{'', ''}'', ''['', '']'', '':'', ''?'', ''~'',
          ''<'', ''>'', ''='', ''!'', ''+'', ''-'', ''*'', ''%'', ''&'', ''|'', ''^'', ''/'', ''.''])"

fun lookahead_at :: "jsstring \<Rightarrow> nat \<Rightarrow> code_unit option" where
  "lookahead_at [] k = None"
| "lookahead_at (c # r) 0 = Some c"
| "lookahead_at (c # r) (Suc k) = lookahead_at r k"

lemma code_at_drop: "code_at src (i + k) = lookahead_at (drop i src) k"
proof (induction "drop i src" k arbitrary: i rule: lookahead_at.induct)
  case (1 k)
  then show ?case by (simp add: code_at_def)
next
  case (2 c r)
  then show ?case by (metis add.right_neutral code_at_Some drop_all hd_drop_conv_nth linorder_not_less list.distinct(1) list.sel(1) lookahead_at.simps(2))
next
  case (3 c r k)
  have "drop (Suc i) src = r" using 3(2) by (metis drop_Suc list.sel(3) tl_drop)
  then show ?case using 3(1) [of "Suc i"] 3(2) by (metis add_Suc_right add_Suc lookahead_at.simps(3))
qed

lemma punctuator_text_find:
  "punctuator_text in_jsx in_type src i = List.find (\<lambda>v. prefix v (drop i src)) (punctuators in_jsx in_type)"
proof (cases "drop i src")
  case Nil
  then have "i \<ge> length src" by simp
  then show ?thesis using Nil by (simp add: punctuator_text_def code_at_def punctuators_def js_def)
next
  case (Cons c r)
  have at: "code_at src i = Some c" "code_at src (i + 1) = lookahead_at r 0" "code_at src (i + 2) = lookahead_at r 1"
    "code_at src (i + 3) = lookahead_at r (Suc (Suc 0))"
    using code_at_drop [of src i 0] code_at_drop [of src i 1] code_at_drop [of src i 2] code_at_drop [of src i 3] Cons
    by (simp_all add: numeral_2_eq_2 numeral_3_eq_3)
  have p: "prefix (x # xs) ys \<longleftrightarrow> lookahead_at ys 0 = Some x \<and> prefix xs (tl ys)" for x xs ys
    by (cases ys) auto
  have l: "lookahead_at (tl ys) k = lookahead_at ys (Suc k)" for ys k by (cases ys) auto
  note defs = punctuator_text_def at at [simplified] Cons punctuators_def js_def switch_punctuator_def peek_punctuator_def p l
  consider (twice) "c \<in> {60, 62}" | (more) "c \<in> {61, 33, 46, 43, 45, 38, 124}" | (assign) "c \<in> {37, 42, 47, 94}"
    | (single) "c \<in> {40, 41, 59, 44, 123, 125, 91, 93, 58, 63, 126}"
    | (none) "c \<notin> {60, 62, 61, 33, 46, 43, 45, 38, 124, 37, 42, 47, 94, 40, 41, 59, 44, 123, 125, 91, 93, 58, 63, 126}"
    by blast
  then show ?thesis
  proof cases
    case twice
    then show ?thesis by (elim insertE emptyE; cases in_jsx; cases in_type) (auto simp: defs)
  next
    case more
    then show ?thesis by (elim insertE emptyE; cases in_jsx; cases in_type) (auto simp: defs)
  next
    case assign
    then show ?thesis by (elim insertE emptyE; cases in_jsx; cases in_type) (auto simp: defs)
  next
    case single
    then show ?thesis by (elim insertE emptyE; cases in_jsx; cases in_type) (simp_all add: defs)
  next
    case none
    then show ?thesis by (cases in_jsx; cases in_type) (simp_all add: defs)
  qed
qed

lemma punctuators_sorted: "sorted_wrt (\<lambda>v w. length w \<le> length v) (punctuators in_jsx in_type)"
  unfolding punctuators_def by (intro sorted_wrt_filter) (simp add: js_def)

lemma find_longest:
  assumes "sorted_wrt (\<lambda>v w. length w \<le> length v) vs"
  shows "case List.find P vs of Some v \<Rightarrow> v \<in> set vs \<and> P v \<and> (\<forall>w. w \<in> set vs \<and> P w \<longrightarrow> length w \<le> length v)
    | None \<Rightarrow> \<forall>v. v \<in> set vs \<longrightarrow> \<not> P v"
  using assms by (induction vs) (auto split: option.splits)

lemma note_open_Ret:
  "x_tokenize s \<longrightarrow> x_tokens s \<noteq> None \<Longrightarrow> \<exists>t. note_open code s = Ret () t \<and> pos t = pos s"
  by (cases "x_tokens s") (auto simp: note_open_def)

text \<open>The punctuators at the index of a scanner, and the longest of some strings.\<close>

definition punctuators_at :: "scanner \<Rightarrow> jsstring set" where
  "punctuators_at s = {v \<in> set (punctuators (inJSXTag s \<or> inJSXChild s) (inType s)). prefix v (drop (index (pos s)) (source s))}"

definition longest :: "jsstring set \<Rightarrow> jsstring \<Rightarrow> bool" where
  "longest vs v \<longleftrightarrow> v \<in> vs \<and> (\<forall>w \<in> vs. length w \<le> length v)"

text \<open>
  C21: \<^verbatim>\<open>scanPunctuator\<close> takes the longest punctuator at the index (of those that the context allows:
  inside JSX no longer one that begins with \<^verbatim>\<open><\<close> or \<^verbatim>\<open>>\<close>, in a type no \<^verbatim>\<open>>>\<close> and the like), and
  throws exactly when none is there. When tokenizing, there is a list of tokens.
\<close>

theorem scanPunctuator_longest:
  assumes "x_tokenize s \<longrightarrow> x_tokens s \<noteq> None"
  shows "case scanPunctuator s of
      Ret tok t \<Rightarrow> \<exists>v. longest (punctuators_at s) v \<and> tok_type tok = Punctuator \<and> tok_value tok = Text v
        \<and> tok_range tok = (index (pos s), index (pos s) + length v) \<and> pos t = advance_by (length v) (pos s)
    | Throw e t \<Rightarrow> punctuators_at s = {} \<and> t = s"
proof -
  let ?ps = "punctuators (inJSXTag s \<or> inJSXChild s) (inType s)" and ?P = "\<lambda>v. prefix v (drop (index (pos s)) (source s))"
  note f = find_longest [OF punctuators_sorted [of "inJSXTag s \<or> inJSXChild s" "inType s"], of ?P]
  show ?thesis
  proof (cases "List.find ?P ?ps")
    case None
    then show ?thesis using f by (auto simp: scanPunctuator_def punctuator_text_find throwError_def punctuators_at_def)
  next
    case (Some v)
    obtain t where t: "note_open (code_at (source s) (index (pos s))) (s\<lparr>pos := advance_by (length v) (pos s)\<rparr>) = Ret () t"
      "pos t = advance_by (length v) (pos s)"
      using note_open_Ret [of "s\<lparr>pos := advance_by (length v) (pos s)\<rparr>"] assms by auto
    have "longest (punctuators_at s) v" using f Some by (auto simp: longest_def punctuators_at_def)
    then show ?thesis using t Some by (auto simp: scanPunctuator_def punctuator_text_find Let_def)
  qed
qed

text \<open>In a type, where \<^verbatim>\<open>>>\<close> would close two parameter lists, \<^verbatim>\<open>>>=\<close> is still one punctuator.\<close>

theorem scanPunctuator_longest_witness:
  "\<exists>tok t. scanPunctuator ((tokenize_start False range_option (js ''>>=x''))\<lparr>inType := True\<rparr>) = Ret tok t
     \<and> longest (punctuators_at ((tokenize_start False range_option (js ''>>=x''))\<lparr>inType := True\<rparr>)) (js ''>>='')
     \<and> tok_value tok = Text (js ''>>='')"
proof -
  define s where "s = (tokenize_start False range_option (js ''>>=x''))\<lparr>inType := True\<rparr>"
  have v: "punctuator_text False True (js ''>>=x'') 0 = Some (js ''>>='')" by code_simp
  moreover have "code_at (js ''>>=x'') 0 = Some 62" by code_simp
  ultimately obtain tok t where t: "scanPunctuator s = Ret tok t" "tok_value tok = Text (js ''>>='')"
    by (auto simp: s_def tokenize_start_def scanPunctuator_def note_open_def Let_def)
  moreover have "x_tokenize s \<longrightarrow> x_tokens s \<noteq> None" by (simp add: s_def tokenize_start_def)
  ultimately show ?thesis using scanPunctuator_longest [of s] by (auto simp: s_def)
qed

subsection \<open>String literals\<close>

lemma prefix_code: "prefix (c # w) (drop i src) \<longleftrightarrow> code_at src i = Some c \<and> prefix w (drop (Suc i) src)"
proof (cases "i < length src")
  case True
  then show ?thesis by (subst Cons_nth_drop_Suc [symmetric]) (auto simp: code_at_def)
qed (simp add: code_at_def)

definition hex_char :: "nat \<Rightarrow> code_unit" where
  "hex_char d = js ''0123456789abcdef'' ! d"

lemma hex_char: "d < 16 \<Longrightarrow> isHexDigit (hex_char d) \<and> hex_value (hex_char d) = d"
proof -
  assume "d < 16"
  then have "d \<in> set [0..<16]" by simp
  moreover have "\<forall>d \<in> set [0..<16]. isHexDigit (hex_char d) \<and> hex_value (hex_char d) = d" by code_simp
  ultimately show ?thesis by blast
qed

text \<open>The literal of a string: every character that the literal cannot hold as it is becomes an escape.\<close>

definition unicode_escape :: "code_unit \<Rightarrow> jsstring" where
  "unicode_escape c = [92, 117, hex_char (c div 4096 mod 16), hex_char (c div 256 mod 16), hex_char (c div 16 mod 16), hex_char (c mod 16)]"

definition quoted_char :: "code_unit \<Rightarrow> code_unit \<Rightarrow> jsstring" where
  "quoted_char q c = (if c = q \<or> c = 92 \<or> isLineTerminator c then unicode_escape c else [c])"

definition quoted :: "code_unit \<Rightarrow> jsstring \<Rightarrow> jsstring" where
  "quoted q str = q # concat (map (quoted_char q) str) @ [q]"

lemma hex_loop_four:
  assumes "prefix [a, b, d, e] (drop i src)" and "isHexDigit a" "isHexDigit b" "isHexDigit d" "isHexDigit e"
  shows "hex_loop src (Suc (Suc (Suc (Suc 0)))) i 0
    = ([((hex_value a * 16 + hex_value b) * 16 + hex_value d) * 16 + hex_value e], i + 4)"
  using assms by (simp add: prefix_code code_at_Some)

lemma unicode_escape_read:
  assumes "prefix (unicode_escape c) (drop i src)" and "c < 65536"
  shows "code_at src i = Some 92 \<and> code_at src (i + 1) = Some 117 \<and> scanHexEscape 117 src (i + 2) = ([c], i + 6)
    \<and> scan_escape src 117 (p\<lparr>index := i + 2\<rparr>) = Done ([c], False) (p\<lparr>index := i + 6\<rparr>)"
proof -
  define a b d e where ds: "a = hex_char (c div 4096 mod 16)" "b = hex_char (c div 256 mod 16)"
    "d = hex_char (c div 16 mod 16)" "e = hex_char (c mod 16)"
  have h: "isHexDigit (hex_char (n mod 16))" "hex_value (hex_char (n mod 16)) = n mod 16" for n
    using hex_char [of "n mod 16"] by simp_all
  have at: "code_at src i = Some 92" "code_at src (i + 1) = Some 117" "prefix [a, b, d, e] (drop (i + 2) src)"
    using assms(1) by (simp_all add: unicode_escape_def ds prefix_code)
  have "c div 4096 mod 16 * 16 + c div 256 mod 16 = c div 256"
    using assms(2) div_mult_mod_eq [of "c div 256" 16] by (simp add: div_mult2_eq [symmetric])
  moreover have "c div 256 * 16 + c div 16 mod 16 = c div 16"
    using div_mult_mod_eq [of "c div 16" 16] by (simp add: div_mult2_eq [symmetric])
  ultimately have "((c div 4096 mod 16 * 16 + c div 256 mod 16) * 16 + c div 16 mod 16) * 16 + c mod 16 = c"
    using div_mult_mod_eq [of c 16] by simp
  then have "((hex_value a * 16 + hex_value b) * 16 + hex_value d) * 16 + hex_value e = c"
    unfolding ds h .
  moreover have hd: "isHexDigit a" "isHexDigit b" "isHexDigit d" "isHexDigit e" unfolding ds by (rule h)+
  ultimately have "hex_loop src (Suc (Suc (Suc (Suc 0)))) (i + 2) 0 = ([c], i + 2 + 4)"
    using hex_loop_four [OF at(3)] by simp
  then have "scanHexEscape 117 src (i + 2) = ([c], i + 6)" by (simp add: scanHexEscape_def numeral_eq_Suc)
  moreover have "\<not> isHexDigit 123" by code_simp
  then have "a \<noteq> 123" using hd(1) by metis
  then have "code_at src (i + 2) \<noteq> Some 123" using at(3) by (simp add: prefix_code)
  ultimately show ?thesis using at(1,2) by (simp add: scan_escape_def)
qed

lemma string_loop_quoted:
  assumes "prefix (concat (map (quoted_char q) str) @ [q]) (drop (index p) src)" and "\<forall>c \<in> set str. c < 65536"
    and "q \<noteq> 92" and "\<not> isLineTerminator q"
  shows "string_loop src q p acc oct
    = Done (acc @ str, oct) (p\<lparr>index := index p + length (concat (map (quoted_char q) str)) + 1\<rparr>)"
  using assms(1,2)
proof (induction str arbitrary: p acc)
  case Nil
  then show ?case by (subst string_loop.simps) (simp add: prefix_code code_at_Some advance_by_def)
next
  case (Cons c str)
  define w where "w = quoted_char q c"
  have pre: "prefix w (drop (index p) src)" "prefix (concat (map (quoted_char q) str) @ [q]) (drop (index p + length w) src)"
    using Cons.prems(1) by (auto simp: w_def prefix_def) (metis append_eq_conv_conj drop_drop add.commute)
  have step: "string_loop src q p acc oct = string_loop src q (p\<lparr>index := index p + length w\<rparr>) (acc @ [c]) oct"
  proof (cases "c = q \<or> c = 92 \<or> isLineTerminator c")
    case True
    then have w: "w = unicode_escape c" "length w = 6" by (simp_all add: w_def quoted_char_def unicode_escape_def)
    have "\<not> isLineTerminator 117" by code_simp
    moreover have u: "code_at src (index p) = Some 92" "code_at src (index p + 1) = Some 117"
      "scan_escape src 117 (p\<lparr>index := index p + 2\<rparr>) = Done ([c], False) (p\<lparr>index := index p + 6\<rparr>)"
      using unicode_escape_read [of c "index p" src p] pre(1) Cons.prems(2) w(1) by auto
    moreover have "index p < length src" "src ! index p = 92" using u(1) by (simp_all add: code_at_Some)
    ultimately show ?thesis using assms(3) w(2)
      by (subst string_loop.simps) (simp add: advance_by_def)
  next
    case False
    then show ?thesis using pre(1)
      by (subst string_loop.simps) (auto simp: w_def quoted_char_def prefix_code code_at_Some advance_by_def Let_def)
  qed
  show ?case using Cons.IH [of "p\<lparr>index := index p + length w\<rparr>" "acc @ [c]"] Cons.prems(2) pre(2)
    by (simp add: step w_def add.assoc)
qed

text \<open>
  C23: string literals read back. Every string of 16-bit characters, written between quotes with
  the quote, backslashes and line terminators as Unicode escapes, is scanned as one token with that
  string as its value, whatever follows it in the source.
\<close>

theorem string_literal_roundtrip:
  assumes "q = 39 \<or> q = 34" and "\<forall>c \<in> set str. c < 65536" and "prefix (quoted q str) (drop (index p) src)"
  shows "\<exists>tok. scanStringLiteral src p = Done tok (p\<lparr>index := index p + length (quoted q str)\<rparr>)
    \<and> tok_type tok = StringLiteral \<and> tok_value tok = Text str \<and> \<not> tok_octal tok
    \<and> tok_range tok = (index p, index p + length (quoted q str))"
proof -
  have "q \<noteq> 92" "\<not> isLineTerminator q" using assms(1) by (auto simp: isLineTerminator_def)
  then have "string_loop src q (advance_by 1 p) [] False = Done (str, False) (p\<lparr>index := index p + length (quoted q str)\<rparr>)"
    using string_loop_quoted [of q str "advance_by 1 p" src "[]" False] assms(2,3)
    by (simp add: quoted_def prefix_code advance_by_def)
  moreover have "code_at src (index p) = Some q" using assms(3) by (simp add: quoted_def prefix_code)
  ultimately show ?thesis using assms(1) by (auto simp: scanStringLiteral_def mk_token_def)
qed

theorem string_literal_roundtrip_witness:
  "\<exists>tok. scanStringLiteral (quoted 39 [97, 39, 10]) \<lparr>index = 0, lineNumber = 1, lineStart = 0\<rparr>
      = Done tok \<lparr>index = 15, lineNumber = 1, lineStart = 0\<rparr> \<and> tok_value tok = Text [97, 39, 10]"
proof -
  have "length (quoted 39 [97, 39, 10]) = 15" by code_simp
  then show ?thesis
    using string_literal_roundtrip [of 39 "[97, 39, 10]" "\<lparr>index = 0, lineNumber = 1, lineStart = 0\<rparr>" "quoted 39 [97, 39, 10]"]
    by auto
qed

subsection \<open>A backslash at the end of the source\<close>

lemma drop_head:
  assumes "drop i src = c # w"
  shows "code_at src i = Some c" "drop (Suc i) src = w" "length src = Suc i + length w"
proof -
  show at: "code_at src i = Some c" using assms prefix_code [of c "[]" i src] by simp
  show d: "drop (Suc i) src = w" using assms by (simp add: drop_Suc tl_drop [symmetric])
  show "length src = Suc i + length w" using arg_cong [OF d, of length] at by (simp add: code_at_def split: if_splits)
qed

lemma string_loop_open:
  assumes "drop (index p) src = w @ [92]" and "\<forall>c \<in> set w. c \<notin> {q, 92} \<and> \<not> isLineTerminator c" and "q \<noteq> 92"
  shows "string_loop src q p acc oct = illegal (p\<lparr>index := length src + 1\<rparr>)"
  using assms(1,2)
proof (induction w arbitrary: p acc)
  case Nil
  then have "code_at src (index p) = Some 92" "length src = Suc (index p)"
    using drop_head [of "index p" src 92 "[]"] by auto
  then show ?case using assms(3) by (subst string_loop.simps) (simp add: code_at_def advance_by_def)
next
  case (Cons c w)
  have "code_at src (index p) = Some c" "drop (Suc (index p)) src = w @ [92]"
    using Cons.prems(1) drop_head [of "index p" src c] by auto
  then show ?case using Cons.IH [of "advance_by 1 p"] Cons.prems(2)
    by (subst string_loop.simps) (simp add: code_at_Some advance_by_def)
qed

lemma template_loop_open:
  assumes "drop (index p) src = w @ [92]" and "\<forall>c \<in> set w. c \<notin> {96, 36, 92} \<and> \<not> isLineTerminator c"
  shows "template_loop src p acc oct = Fail PropertyOfUndefined (p\<lparr>index := length src + 1\<rparr>)"
  using assms
proof (induction w arbitrary: p acc)
  case Nil
  then have "code_at src (index p) = Some 92" "length src = Suc (index p)"
    using drop_head [of "index p" src 92 "[]"] by auto
  then show ?case by (subst template_loop.simps) (simp add: code_at_def advance_by_def)
next
  case (Cons c w)
  have "code_at src (index p) = Some c" "drop (Suc (index p)) src = w @ [92]"
    using Cons.prems(1) drop_head [of "index p" src c] by auto
  then show ?case using Cons.IH [of "advance_by 1 p"] Cons.prems(2)
    by (subst template_loop.simps) (simp add: code_at_Some advance_by_def)
qed

lemma body_loop_open:
  assumes "drop (index p) src = w @ [92]" and "\<forall>c \<in> set w. c \<notin> {47, 91, 92} \<and> \<not> isLineTerminator c"
  shows "body_loop src p False = Fail PropertyOfUndefined (p\<lparr>index := length src + 1\<rparr>)"
  using assms
proof (induction w arbitrary: p)
  case Nil
  then have "code_at src (index p) = Some 92" "length src = Suc (index p)"
    using drop_head [of "index p" src 92 "[]"] by auto
  then show ?case by (subst body_loop.simps) (simp add: code_at_def advance_by_def)
next
  case (Cons c w)
  have "code_at src (index p) = Some c" "drop (Suc (index p)) src = w @ [92]"
    using Cons.prems(1) drop_head [of "index p" src c] by auto
  then show ?case using Cons.IH [of "advance_by 1 p"] Cons.prems(2)
    by (subst body_loop.simps) (simp add: code_at_Some advance_by_def)
qed



subsection \<open>Identifiers\<close>

text \<open>An identifier as text, with a choice for each of its characters whether it is written as an escape.\<close>

definition ident_char :: "bool \<times> code_unit \<Rightarrow> jsstring" where
  "ident_char e = (if fst e then unicode_escape (snd e) else [snd e])"

definition ident_text :: "(bool \<times> code_unit) list \<Rightarrow> jsstring" where
  "ident_text es = concat (map ident_char es)"

definition ident_part :: "bool \<times> code_unit \<Rightarrow> bool" where
  "ident_part e \<longleftrightarrow> isIdentifierPart (snd e) \<and> snd e \<noteq> 92 \<and> snd e < 65536"

lemma ident_text_simps [simp]: "ident_text [] = []" "ident_text (e # es) = ident_char e @ ident_text es"
  by (simp_all add: ident_text_def)

lemma prefix_append_drop:
  fixes u :: jsstring
  shows "prefix (u @ v) (drop i src) \<longleftrightarrow> prefix u (drop i src) \<and> prefix v (drop (i + length u) src)"
  by (induction u arbitrary: i) (auto simp: prefix_code)

lemma identifier_escape_read:
  assumes "prefix (unicode_escape c) (drop (index p) src)" and "c < 65536" "c \<noteq> 92" "allowed c"
  shows "code_at src (index p) = Some 92
    \<and> identifier_escape allowed src (advance_by 1 p) = Done [c] (p\<lparr>index := index p + 6\<rparr>)"
proof -
  have "code_at src (index p) = Some 92" "code_at src (index p + 1) = Some 117" "scanHexEscape 117 src (index p + 2) = ([c], index p + 6)"
    using unicode_escape_read [OF assms(1,2)] by auto
  then show ?thesis using assms(3,4) by (simp add: identifier_escape_def advance_by_def)
qed

lemma identifier_loop_text:
  assumes "prefix (ident_text es) (drop (index p) src)" and "\<forall>e \<in> set es. ident_part e"
    and "\<not> holds isIdentifierPart (code_at src (index p + length (ident_text es)))"
  shows "identifier_loop src p name = Done (name @ map snd es) (p\<lparr>index := index p + length (ident_text es)\<rparr>)"
  using assms
proof (induction es arbitrary: p name)
  case Nil
  then show ?case by (subst identifier_loop.simps) (auto simp: holds_code_at)
next
  case (Cons e es)
  note pre = Cons.prems(1) [simplified, unfolded prefix_append_drop]
  have step: "identifier_loop src p name = identifier_loop src (p\<lparr>index := index p + length (ident_char e)\<rparr>) (name @ [snd e])"
  proof (cases "fst e")
    case True
    then have u: "code_at src (index p) = Some 92"
      "identifier_escape isIdentifierPart src (advance_by 1 p) = Done [snd e] (p\<lparr>index := index p + 6\<rparr>)"
      using identifier_escape_read [of "snd e" p src] pre Cons.prems(2) by (auto simp: ident_char_def ident_part_def)
    moreover have "isIdentifierPart 92" by code_simp
    moreover have "length (ident_char e) = 6" using True by (simp add: ident_char_def unicode_escape_def)
    ultimately show ?thesis by (subst identifier_loop.simps) (simp add: code_at_Some)
  next
    case False
    then show ?thesis using pre Cons.prems(2)
      by (subst identifier_loop.simps) (auto simp: ident_char_def ident_part_def prefix_code code_at_Some advance_by_def)
  qed
  show ?case using Cons.IH [of "p\<lparr>index := index p + length (ident_char e)\<rparr>"] pre Cons.prems(2,3)
    by (simp add: step add.assoc)
qed

lemma scan_while_text:
  assumes "prefix (ident_text es) (drop i src)" and "\<forall>e \<in> set es. ident_part e"
    and "\<not> holds isIdentifierPart (code_at src (i + length (ident_text es)))"
  shows "scan_while (\<lambda>c. c \<noteq> 92 \<and> isIdentifierPart c) src i = i + length (takeWhile (\<lambda>e. \<not> fst e) es)"
  using assms
proof (induction es arbitrary: i)
  case Nil
  then show ?case by (subst scan_while.simps) (auto simp: holds_code_at)
next
  case (Cons e es)
  note pre = Cons.prems(1) [simplified, unfolded prefix_append_drop]
  show ?case
  proof (cases "fst e")
    case True
    then have "code_at src i = Some 92" using pre by (simp add: ident_char_def unicode_escape_def prefix_code)
    then show ?thesis using True by (subst scan_while.simps) (simp add: code_at_Some)
  next
    case False
    then have "scan_while (\<lambda>c. c \<noteq> 92 \<and> isIdentifierPart c) src i = scan_while (\<lambda>c. c \<noteq> 92 \<and> isIdentifierPart c) src (i + 1)"
      using pre Cons.prems(2)
      by (subst scan_while.simps) (auto simp: ident_char_def ident_part_def prefix_code code_at_Some)
    then show ?thesis using Cons.IH [of "i + 1"] False pre Cons.prems(2,3) by (simp add: ident_char_def)
  qed
qed

lemma ident_text_plain: "\<forall>e \<in> set es. \<not> fst e \<Longrightarrow> ident_text es = map snd es"
  by (induction es) (auto simp: ident_char_def)

lemma ident_text_escape:
  assumes "\<not> (\<forall>e \<in> set es. \<not> fst e)" and "prefix (ident_text es) (drop i src)"
  shows "code_at src (i + length (takeWhile (\<lambda>e. \<not> fst e) es)) = Some 92"
  using assms
proof (induction es arbitrary: i)
  case (Cons e es)
  then show ?case using Cons.IH [of "Suc i"]
    by (cases "fst e") (auto simp: ident_char_def unicode_escape_def prefix_code)
qed simp

text \<open>
  C24: identifiers read back. A word of identifier characters, with any of them written as Unicode
  escapes, is scanned as one token up to the first character that is no identifier part; its value
  is the word without escapes, and its type (keyword, null, boolean or identifier) is that of the
  word.
\<close>

theorem identifier_roundtrip:
  assumes "es \<noteq> []" and "isIdentifierStart (snd (hd es))" and "\<forall>e \<in> set es. ident_part e"
    and "prefix (ident_text es) (drop (index p) src)"
    and "\<not> holds isIdentifierPart (code_at src (index p + length (ident_text es)))"
    and "q = p\<lparr>index := index p + length (ident_text es)\<rparr>"
  shows "scanIdentifier is_strict src p
    = Done (mk_token (identifier_type is_strict (map snd es)) (Text (map snd es)) (index p) q) q"
proof -
  obtain e r where es: "es = e # r" using assms(1) by (cases es) auto
  note pre = assms(4) [unfolded es ident_text_simps prefix_append_drop]
  have part: "\<forall>x \<in> set r. ident_part x" "ident_part e" using assms(3) by (auto simp: es)
  define p' where "p' = p\<lparr>index := index p + length (ident_char e)\<rparr>"
  have loop: "identifier_loop src p' [snd e] = Done (map snd es) q"
    using identifier_loop_text [of r p' src "[snd e]"] pre part assms(5) by (simp add: p'_def assms(6) es add.assoc)
  have "(if code_at src (index p) = Some 92 then getEscapedIdentifier src p else getIdentifier src p) = Done (map snd es) q"
  proof (cases "fst e")
    case True
    then have "code_at src (index p) = Some 92" "identifier_escape isIdentifierStart src (advance_by 1 p) = Done [snd e] p'"
      using identifier_escape_read [of "snd e" p src isIdentifierStart] pre part assms(2)
      by (auto simp: ident_char_def ident_part_def p'_def es unicode_escape_def)
    then show ?thesis using loop by (simp add: getEscapedIdentifier_def)
  next
    case False
    then have p: "code_at src (index p) = Some (snd e)" "snd e \<noteq> 92" "p' = advance_by 1 p"
      using pre part by (auto simp: ident_char_def prefix_code ident_part_def p'_def advance_by_def)
    have w: "scan_while (\<lambda>c. c \<noteq> 92 \<and> isIdentifierPart c) src (index p + 1) = index p + 1 + length (takeWhile (\<lambda>e. \<not> fst e) r)"
      using scan_while_text [of r "index p + 1" src] pre part assms(5) False by (simp add: es ident_char_def)
    show ?thesis
    proof (cases "\<forall>x \<in> set r. \<not> fst x")
      case True
      then have t: "ident_text es = map snd es" using False by (intro ident_text_plain) (simp add: es)
      have "takeWhile (\<lambda>e. \<not> fst e) r = r" using True by simp
      then have "scan_while (\<lambda>c. c \<noteq> 92 \<and> isIdentifierPart c) src (index p + 1) = index p + length es"
        using w by (simp only: es) simp
      moreover have "substring (index p) (index p + length es) src = map snd es"
        using assms(4) by (auto simp: t substring_def prefix_def)
      moreover have "code_at src (index p + length es) \<noteq> Some 92"
      proof
        assume "code_at src (index p + length es) = Some 92"
        moreover have "isIdentifierPart 92" by code_simp
        ultimately show False using assms(5) by (simp add: t)
      qed
      moreover have "q = p\<lparr>index := index p + length es\<rparr>" using assms(6) t by simp
      ultimately show ?thesis using p(1,2) by (simp add: getIdentifier_def)
    next
      case esc: False
      then show ?thesis using p w loop ident_text_escape [OF esc, of "index p + 1" src] pre False
        by (simp add: getIdentifier_def getEscapedIdentifier_def ident_char_def)
    qed
  qed
  then show ?thesis by (simp add: scanIdentifier_def)
qed

theorem identifier_roundtrip_witness:
  "\<exists>tok. scanIdentifier False (ident_text [(False, 105), (True, 102)] @ [40]) \<lparr>index = 0, lineNumber = 1, lineStart = 0\<rparr>
      = Done tok \<lparr>index = 7, lineNumber = 1, lineStart = 0\<rparr>
     \<and> tok_type tok = Keyword \<and> tok_value tok = Text (js ''if'')"
proof -
  let ?es = "[(False, 105), (True, 102)]"
  have 1: "isIdentifierStart 105" by code_simp
  have 2: "isIdentifierPart 105" "isIdentifierPart 102" by code_simp+
  have 3: "length (ident_text ?es) = 7" by (simp add: ident_char_def unicode_escape_def)
  have 4: "identifier_type False (js ''if'') = Keyword" by code_simp
  have 5: "\<not> isIdentifierPart 40" by code_simp
  have 6: "js ''if'' = [105, 102]" by (simp add: js_def)
  have 7: "\<not> holds isIdentifierPart (code_at (ident_text ?es @ [40]) 7)"
    using 3 5 by (simp add: holds_code_at nth_append del: ident_text_simps)
  show ?thesis
    using identifier_roundtrip [of ?es "\<lparr>index = 0, lineNumber = 1, lineStart = 0\<rparr>" "ident_text ?es @ [40]", OF _ _ _ _ _ refl, of False]
      1 2 3 4 6 7
    by (simp add: ident_part_def del: ident_text_simps)
qed

end
