(* ===== verification/JsValues.thy ===== *)
theory JsValues
  imports Prelude
begin

text \<open>
  The values that syntax trees are made of: what the parser builds and what the visitors read. Reading a
  property of \<^verbatim>\<open>undefined\<close> or \<^verbatim>\<open>null\<close> is an error.
\<close>

subsection \<open>Values\<close>

text \<open>
  Values of the tree. An object has an identity, its \<^verbatim>\<open>range\<close> if it is a node, and its other own
  properties in order; \<open>VOther\<close> is a value without properties of its own that matter (a number that
  is no integer, a regular expression, a function), with its string form.
\<close>

datatype jsvalue =
    VUndef
  | VNull
  | VBool bool
  | VNum int
  | VStr jsstring
  | VOther jsstring
  | VArr "jsvalue list"
  | VObj nat "(nat \<times> nat) option" "(jsstring \<times> jsvalue) list"

definition truthy_value :: "jsvalue \<Rightarrow> bool" where
  "truthy_value v = (case v of
     VUndef \<Rightarrow> False | VNull \<Rightarrow> False | VBool b \<Rightarrow> b | VNum n \<Rightarrow> n \<noteq> 0 | VStr s \<Rightarrow> s \<noteq> [] | _ \<Rightarrow> True)"

definition get_prop :: "jsvalue \<Rightarrow> string \<Rightarrow> jsvalue res" where
  "get_prop v key = (case v of
     VUndef \<Rightarrow> Inl (TypeError (js ''Cannot read property of undefined''))
   | VNull \<Rightarrow> Inl (TypeError (js ''Cannot read property of null''))
   | VObj i r ps \<Rightarrow> Inr (case map_of ps (js key) of None \<Rightarrow> VUndef | Some x \<Rightarrow> x)
   | _ \<Rightarrow> Inr VUndef)"

definition node_range :: "jsvalue \<Rightarrow> (nat \<times> nat) option" where
  "node_range v = (case v of VObj i r ps \<Rightarrow> r | _ \<Rightarrow> None)"

definition node_type :: "jsvalue \<Rightarrow> jsvalue" where
  "node_type v = (case get_prop v ''type'' of Inl e \<Rightarrow> VUndef | Inr t \<Rightarrow> t)"

text \<open>\<^verbatim>\<open>node.type === Syntax.X\<close>, which throws when there is no node.\<close>

definition type_is :: "jsvalue \<Rightarrow> string \<Rightarrow> bool res" where
  "type_is v t = bindR (get_prop v ''type'') (\<lambda>ty. Inr (ty = VStr (js t)))"

definition is_typed :: "jsvalue \<Rightarrow> bool" where
  "is_typed v \<longleftrightarrow> truthy_value (node_type v)"

text \<open>\<^verbatim>\<open>arr.length\<close> in a comparison with 0, and the elements an index loop visits.\<close>

definition elements :: "jsvalue \<Rightarrow> jsvalue list res" where
  "elements v = (case v of
     VUndef \<Rightarrow> Inl (TypeError (js ''Cannot read property 'length' of undefined''))
   | VNull \<Rightarrow> Inl (TypeError (js ''Cannot read property 'length' of null''))
   | VArr vs \<Rightarrow> Inr vs
   | _ \<Rightarrow> Inr [])"

text \<open>A value as the name of a property.\<close>

fun to_key :: "jsvalue \<Rightarrow> jsstring" where
  "to_key VUndef = js ''undefined''"
| "to_key VNull = js ''null''"
| "to_key (VBool b) = (if b then js ''true'' else js ''false'')"
| "to_key (VNum n) = (if n < 0 then js ''-'' @ dec_digits (nat (- n)) else dec_digits (nat n))"
| "to_key (VStr s) = s"
| "to_key (VOther s) = s"
| "to_key (VArr vs) = join_with (js '','') (map (\<lambda>v. if v = VUndef \<or> v = VNull then [] else to_key v) vs)"
| "to_key (VObj i r ps) = js ''[object Object]''"

subsection \<open>Depth\<close>

fun depth :: "jsvalue \<Rightarrow> nat" where
  "depth (VArr vs) = Suc (sum_list (map depth vs))"
| "depth (VObj i r ps) = Suc (sum_list (map (\<lambda>kv. depth (snd kv)) ps))"
| "depth v = 0"

lemma prop_depth: "get_prop node k = Inr x \<Longrightarrow> depth x < depth node \<or> depth x = 0"
proof (cases node)
  case (VObj i r ps)
  assume x: "get_prop node k = Inr x"
  show ?thesis
  proof (cases "map_of ps (js k)")
    case (Some y)
    then have "(js k, y) \<in> set ps" by (rule map_of_SomeD)
    then have "depth y \<le> sum_list (map (\<lambda>kv. depth (snd kv)) ps)"
      using member_le_sum_list [of "depth y" "map (\<lambda>kv. depth (snd kv)) ps"] by force
    then show ?thesis using x VObj Some by (simp add: get_prop_def)
  qed (use x VObj in \<open>simp add: get_prop_def\<close>)
qed (simp_all add: get_prop_def)

lemma typed_depth: "type_is node t = Inr True \<Longrightarrow> 0 < depth node"
  by (cases node) (auto simp: type_is_def get_prop_def)

lemma prop_below: "\<lbrakk>get_prop node k = Inr x; 0 < depth node\<rbrakk> \<Longrightarrow> depth x < depth node"
  using prop_depth by fastforce

lemma prop_below2: "\<lbrakk>get_prop v k = Inr x; depth v < n\<rbrakk> \<Longrightarrow> depth x < n"
  using prop_depth by fastforce

end
