(* ===== verification/EsNodes.thy ===== *)
theory EsNodes
  imports JsValues EsLexer
begin

text \<open>
  \<^verbatim>\<open>SyntaxTreeDelegate\<close>: one function for each kind of node, as the parser calls them. A node is an
  object value; its identity, the last argument, is the number the parser has not used before. The
  properties come in the order of the object literal. \<^verbatim>\<open>range\<close> and \<^verbatim>\<open>loc\<close> are added by \<^verbatim>\<open>markerApply\<close>.
\<close>

subsection \<open>Objects\<close>

definition plain_object :: "(string \<times> jsvalue) list \<Rightarrow> jsvalue" where
  "plain_object props = VObj 0 None (map (\<lambda>(k, v). (js k, v)) props)"

definition node_of :: "string \<Rightarrow> (string \<times> jsvalue) list \<Rightarrow> nat \<Rightarrow> jsvalue" where
  "node_of type props i = VObj i None ((js ''type'', VStr (js type)) # map (\<lambda>(k, v). (js k, v)) props)"

text \<open>\<^verbatim>\<open>node[key] = v\<close>: the value is replaced in its place, or the property is added as the last one.\<close>

fun set_entry :: "jsstring \<Rightarrow> jsvalue \<Rightarrow> (jsstring \<times> jsvalue) list \<Rightarrow> (jsstring \<times> jsvalue) list" where
  "set_entry k v [] = [(k, v)]"
| "set_entry k v ((k', v') # ps) = (if k' = k then (k, v) # ps else (k', v') # set_entry k v ps)"

definition set_prop :: "string \<Rightarrow> jsvalue \<Rightarrow> jsvalue \<Rightarrow> jsvalue" where
  "set_prop key v node = (case node of VObj i r ps \<Rightarrow> VObj i r (set_entry (js key) v ps) | _ \<Rightarrow> node)"

definition set_range :: "nat \<times> nat \<Rightarrow> jsvalue \<Rightarrow> jsvalue" where
  "set_range r node = (case node of VObj i _ ps \<Rightarrow> VObj i (Some r) ps | _ \<Rightarrow> node)"

text \<open>The value of a token as a value of the tree; numbers come from the host.\<close>

definition regex_object :: "jsstring \<times> jsstring \<Rightarrow> jsvalue" where
  "regex_object r = plain_object [(''pattern'', VStr (fst r)), (''flags'', VStr (snd r))]"

definition token_value :: "(number \<Rightarrow> jsvalue) \<Rightarrow> tvalue \<Rightarrow> jsvalue" where
  "token_value num v = (case v of
     NoValue \<Rightarrow> VUndef
   | Text s \<Rightarrow> VStr s
   | Number n \<Rightarrow> num n
   | Quasi cooked raw \<Rightarrow> plain_object [(''cooked'', VStr cooked), (''raw'', VStr raw)]
   | RegExpObject pattern flags \<Rightarrow> VOther (value_text v)
   | NullValue \<Rightarrow> VNull)"

text \<open>\<^verbatim>\<open>funDecl.async = true\<close>, which only an asynchronous function gets.\<close>

definition with_async :: "bool \<Rightarrow> jsvalue \<Rightarrow> jsvalue" where
  "with_async isAsync node = (if isAsync then set_prop ''async'' (VBool True) node else node)"

subsection \<open>Nodes that depend on their arguments\<close>

definition createBinaryExpression :: "jsvalue \<Rightarrow> jsvalue \<Rightarrow> jsvalue \<Rightarrow> nat \<Rightarrow> jsvalue" where
  "createBinaryExpression operator left right =
     node_of (if operator = VStr (js ''||'') \<or> operator = VStr (js ''&&'') then ''LogicalExpression'' else ''BinaryExpression'')
       [(''operator'', operator), (''left'', left), (''right'', right)]"

definition createFunctionDeclaration ::
    "jsvalue \<Rightarrow> jsvalue \<Rightarrow> jsvalue \<Rightarrow> jsvalue \<Rightarrow> jsvalue \<Rightarrow> bool \<Rightarrow> bool \<Rightarrow> bool \<Rightarrow> jsvalue \<Rightarrow> jsvalue \<Rightarrow> nat \<Rightarrow> jsvalue" where
  "createFunctionDeclaration ident params defaults body rest gen expression isAsync returnType typeParameters i =
     with_async isAsync (node_of ''FunctionDeclaration''
       [(''id'', ident), (''params'', params), (''defaults'', defaults), (''body'', body), (''rest'', rest),
        (''generator'', VBool gen), (''expression'', VBool expression), (''returnType'', returnType),
        (''typeParameters'', typeParameters)] i)"

definition createFunctionExpression ::
    "jsvalue \<Rightarrow> jsvalue \<Rightarrow> jsvalue \<Rightarrow> jsvalue \<Rightarrow> jsvalue \<Rightarrow> bool \<Rightarrow> bool \<Rightarrow> bool \<Rightarrow> jsvalue \<Rightarrow> jsvalue \<Rightarrow> nat \<Rightarrow> jsvalue" where
  "createFunctionExpression ident params defaults body rest gen expression isAsync returnType typeParameters i =
     with_async isAsync (node_of ''FunctionExpression''
       [(''id'', ident), (''params'', params), (''defaults'', defaults), (''body'', body), (''rest'', rest),
        (''generator'', VBool gen), (''expression'', VBool expression), (''returnType'', returnType),
        (''typeParameters'', typeParameters)] i)"

definition createArrowFunctionExpression ::
    "jsvalue \<Rightarrow> jsvalue \<Rightarrow> jsvalue \<Rightarrow> jsvalue \<Rightarrow> bool \<Rightarrow> bool \<Rightarrow> nat \<Rightarrow> jsvalue" where
  "createArrowFunctionExpression params defaults body rest expression isAsync i =
     with_async isAsync (node_of ''ArrowFunctionExpression''
       [(''id'', VNull), (''params'', params), (''defaults'', defaults), (''body'', body), (''rest'', rest),
        (''generator'', VBool False), (''expression'', VBool expression)] i)"

definition createUnaryExpression :: "jsvalue \<Rightarrow> jsvalue \<Rightarrow> nat \<Rightarrow> jsvalue" where
  "createUnaryExpression operator argument =
     node_of (if operator = VStr (js ''++'') \<or> operator = VStr (js ''--'') then ''UpdateExpression'' else ''UnaryExpression'')
       [(''operator'', operator), (''argument'', argument), (''prefix'', VBool True)]"

text \<open>\<^verbatim>\<open>raw\<close> is the text of the token in the source.\<close>

definition raw_text :: "jsstring \<Rightarrow> nat \<times> nat \<Rightarrow> jsvalue" where
  "raw_text src r = VStr (substring (fst r) (snd r) src)"

definition createLiteral :: "jsvalue \<Rightarrow> jsvalue \<Rightarrow> (jsstring \<times> jsstring) option \<Rightarrow> nat \<Rightarrow> jsvalue" where
  "createLiteral value raw regex =
     node_of ''Literal'' ([(''value'', value), (''raw'', raw)] @ (case regex of None \<Rightarrow> [] | Some r \<Rightarrow> [(''regex'', regex_object r)]))"

definition createStringLiteralTypeAnnotation :: "jsvalue \<Rightarrow> jsvalue \<Rightarrow> nat \<Rightarrow> jsvalue" where
  "createStringLiteralTypeAnnotation value raw = node_of ''StringLiteralTypeAnnotation'' [(''value'', value), (''raw'', raw)]"

definition createModuleSpecifier :: "jsvalue \<Rightarrow> jsvalue \<Rightarrow> nat \<Rightarrow> jsvalue" where
  "createModuleSpecifier value raw = node_of ''ModuleSpecifier'' [(''value'', value), (''raw'', raw)]"

subsection \<open>The other nodes\<close>

definition createArrayExpression :: "jsvalue \<Rightarrow> nat \<Rightarrow> jsvalue" where
  "createArrayExpression elems = node_of ''ArrayExpression'' [(''elements'', elems)]"

definition createAssignmentExpression :: "jsvalue \<Rightarrow> jsvalue \<Rightarrow> jsvalue \<Rightarrow> nat \<Rightarrow> jsvalue" where
  "createAssignmentExpression operator left right =
     node_of ''AssignmentExpression'' [(''operator'', operator), (''left'', left), (''right'', right)]"

definition createBlockStatement :: "jsvalue \<Rightarrow> nat \<Rightarrow> jsvalue" where
  "createBlockStatement body = node_of ''BlockStatement'' [(''body'', body)]"

definition createBreakStatement :: "jsvalue \<Rightarrow> nat \<Rightarrow> jsvalue" where
  "createBreakStatement label = node_of ''BreakStatement'' [(''label'', label)]"

definition createCallExpression :: "jsvalue \<Rightarrow> jsvalue \<Rightarrow> nat \<Rightarrow> jsvalue" where
  "createCallExpression callee args =
     node_of ''CallExpression'' [(''callee'', callee), (''arguments'', args)]"

definition createCatchClause :: "jsvalue \<Rightarrow> jsvalue \<Rightarrow> nat \<Rightarrow> jsvalue" where
  "createCatchClause param body = node_of ''CatchClause'' [(''param'', param), (''body'', body)]"

definition createConditionalExpression :: "jsvalue \<Rightarrow> jsvalue \<Rightarrow> jsvalue \<Rightarrow> nat \<Rightarrow> jsvalue" where
  "createConditionalExpression test consequent alternate =
     node_of ''ConditionalExpression'' [(''test'', test), (''consequent'', consequent), (''alternate'', alternate)]"

definition createContinueStatement :: "jsvalue \<Rightarrow> nat \<Rightarrow> jsvalue" where
  "createContinueStatement label = node_of ''ContinueStatement'' [(''label'', label)]"

definition createDebuggerStatement :: "nat \<Rightarrow> jsvalue" where
  "createDebuggerStatement = node_of ''DebuggerStatement'' []"

definition createDoWhileStatement :: "jsvalue \<Rightarrow> jsvalue \<Rightarrow> nat \<Rightarrow> jsvalue" where
  "createDoWhileStatement body test = node_of ''DoWhileStatement'' [(''body'', body), (''test'', test)]"

definition createEmptyStatement :: "nat \<Rightarrow> jsvalue" where
  "createEmptyStatement = node_of ''EmptyStatement'' []"

definition createExpressionStatement :: "jsvalue \<Rightarrow> nat \<Rightarrow> jsvalue" where
  "createExpressionStatement expression = node_of ''ExpressionStatement'' [(''expression'', expression)]"

definition createForStatement :: "jsvalue \<Rightarrow> jsvalue \<Rightarrow> jsvalue \<Rightarrow> jsvalue \<Rightarrow> nat \<Rightarrow> jsvalue" where
  "createForStatement init test update body =
     node_of ''ForStatement'' [(''init'', init), (''test'', test), (''update'', update), (''body'', body)]"

definition createForInStatement :: "jsvalue \<Rightarrow> jsvalue \<Rightarrow> jsvalue \<Rightarrow> nat \<Rightarrow> jsvalue" where
  "createForInStatement left right body =
     node_of ''ForInStatement'' [(''left'', left), (''right'', right), (''body'', body), (''each'', VBool False)]"

definition createForOfStatement :: "jsvalue \<Rightarrow> jsvalue \<Rightarrow> jsvalue \<Rightarrow> nat \<Rightarrow> jsvalue" where
  "createForOfStatement left right body =
     node_of ''ForOfStatement'' [(''left'', left), (''right'', right), (''body'', body)]"

definition createIdentifier :: "jsvalue \<Rightarrow> nat \<Rightarrow> jsvalue" where
  "createIdentifier name =
     node_of ''Identifier'' [(''name'', name), (''typeAnnotation'', VUndef), (''optional'', VUndef)]"

definition createTypeAnnotation :: "jsvalue \<Rightarrow> nat \<Rightarrow> jsvalue" where
  "createTypeAnnotation typeAnnotation = node_of ''TypeAnnotation'' [(''typeAnnotation'', typeAnnotation)]"

definition createTypeCast :: "jsvalue \<Rightarrow> jsvalue \<Rightarrow> nat \<Rightarrow> jsvalue" where
  "createTypeCast expression typeAnnotation =
     node_of ''TypeCastExpression'' [(''expression'', expression), (''typeAnnotation'', typeAnnotation)]"

definition createFunctionTypeAnnotation :: "jsvalue \<Rightarrow> jsvalue \<Rightarrow> jsvalue \<Rightarrow> jsvalue \<Rightarrow> nat \<Rightarrow> jsvalue" where
  "createFunctionTypeAnnotation params returnType rest typeParameters =
     node_of ''FunctionTypeAnnotation'' [(''params'', params), (''returnType'', returnType), (''rest'', rest), (''typeParameters'', typeParameters)]"

definition createFunctionTypeParam :: "jsvalue \<Rightarrow> jsvalue \<Rightarrow> jsvalue \<Rightarrow> nat \<Rightarrow> jsvalue" where
  "createFunctionTypeParam name typeAnnotation optional =
     node_of ''FunctionTypeParam'' [(''name'', name), (''typeAnnotation'', typeAnnotation), (''optional'', optional)]"

definition createNullableTypeAnnotation :: "jsvalue \<Rightarrow> nat \<Rightarrow> jsvalue" where
  "createNullableTypeAnnotation typeAnnotation =
     node_of ''NullableTypeAnnotation'' [(''typeAnnotation'', typeAnnotation)]"

definition createArrayTypeAnnotation :: "jsvalue \<Rightarrow> nat \<Rightarrow> jsvalue" where
  "createArrayTypeAnnotation elementType = node_of ''ArrayTypeAnnotation'' [(''elementType'', elementType)]"

definition createGenericTypeAnnotation :: "jsvalue \<Rightarrow> jsvalue \<Rightarrow> nat \<Rightarrow> jsvalue" where
  "createGenericTypeAnnotation ident typeParameters =
     node_of ''GenericTypeAnnotation'' [(''id'', ident), (''typeParameters'', typeParameters)]"

definition createQualifiedTypeIdentifier :: "jsvalue \<Rightarrow> jsvalue \<Rightarrow> nat \<Rightarrow> jsvalue" where
  "createQualifiedTypeIdentifier qualification ident =
     node_of ''QualifiedTypeIdentifier'' [(''qualification'', qualification), (''id'', ident)]"

definition createTypeParameterDeclaration :: "jsvalue \<Rightarrow> nat \<Rightarrow> jsvalue" where
  "createTypeParameterDeclaration params = node_of ''TypeParameterDeclaration'' [(''params'', params)]"

definition createTypeParameterInstantiation :: "jsvalue \<Rightarrow> nat \<Rightarrow> jsvalue" where
  "createTypeParameterInstantiation params = node_of ''TypeParameterInstantiation'' [(''params'', params)]"

definition createAnyTypeAnnotation :: "nat \<Rightarrow> jsvalue" where
  "createAnyTypeAnnotation = node_of ''AnyTypeAnnotation'' []"

definition createBooleanTypeAnnotation :: "nat \<Rightarrow> jsvalue" where
  "createBooleanTypeAnnotation = node_of ''BooleanTypeAnnotation'' []"

definition createNumberTypeAnnotation :: "nat \<Rightarrow> jsvalue" where
  "createNumberTypeAnnotation = node_of ''NumberTypeAnnotation'' []"

definition createStringTypeAnnotation :: "nat \<Rightarrow> jsvalue" where
  "createStringTypeAnnotation = node_of ''StringTypeAnnotation'' []"

definition createVoidTypeAnnotation :: "nat \<Rightarrow> jsvalue" where
  "createVoidTypeAnnotation = node_of ''VoidTypeAnnotation'' []"

definition createTypeofTypeAnnotation :: "jsvalue \<Rightarrow> nat \<Rightarrow> jsvalue" where
  "createTypeofTypeAnnotation argument = node_of ''TypeofTypeAnnotation'' [(''argument'', argument)]"

definition createTupleTypeAnnotation :: "jsvalue \<Rightarrow> nat \<Rightarrow> jsvalue" where
  "createTupleTypeAnnotation types = node_of ''TupleTypeAnnotation'' [(''types'', types)]"

definition createObjectTypeAnnotation :: "jsvalue \<Rightarrow> jsvalue \<Rightarrow> jsvalue \<Rightarrow> nat \<Rightarrow> jsvalue" where
  "createObjectTypeAnnotation properties indexers callProperties =
     node_of ''ObjectTypeAnnotation'' [(''properties'', properties), (''indexers'', indexers), (''callProperties'', callProperties)]"

definition createObjectTypeIndexer :: "jsvalue \<Rightarrow> jsvalue \<Rightarrow> jsvalue \<Rightarrow> jsvalue \<Rightarrow> nat \<Rightarrow> jsvalue" where
  "createObjectTypeIndexer ident key value isStatic =
     node_of ''ObjectTypeIndexer'' [(''id'', ident), (''key'', key), (''value'', value), (''static'', isStatic)]"

definition createObjectTypeCallProperty :: "jsvalue \<Rightarrow> jsvalue \<Rightarrow> nat \<Rightarrow> jsvalue" where
  "createObjectTypeCallProperty value isStatic =
     node_of ''ObjectTypeCallProperty'' [(''value'', value), (''static'', isStatic)]"

definition createObjectTypeProperty :: "jsvalue \<Rightarrow> jsvalue \<Rightarrow> jsvalue \<Rightarrow> jsvalue \<Rightarrow> nat \<Rightarrow> jsvalue" where
  "createObjectTypeProperty key value optional isStatic =
     node_of ''ObjectTypeProperty'' [(''key'', key), (''value'', value), (''optional'', optional), (''static'', isStatic)]"

definition createUnionTypeAnnotation :: "jsvalue \<Rightarrow> nat \<Rightarrow> jsvalue" where
  "createUnionTypeAnnotation types = node_of ''UnionTypeAnnotation'' [(''types'', types)]"

definition createIntersectionTypeAnnotation :: "jsvalue \<Rightarrow> nat \<Rightarrow> jsvalue" where
  "createIntersectionTypeAnnotation types = node_of ''IntersectionTypeAnnotation'' [(''types'', types)]"

definition createTypeAlias :: "jsvalue \<Rightarrow> jsvalue \<Rightarrow> jsvalue \<Rightarrow> nat \<Rightarrow> jsvalue" where
  "createTypeAlias ident typeParameters right =
     node_of ''TypeAlias'' [(''id'', ident), (''typeParameters'', typeParameters), (''right'', right)]"

definition createInterface :: "jsvalue \<Rightarrow> jsvalue \<Rightarrow> jsvalue \<Rightarrow> jsvalue \<Rightarrow> nat \<Rightarrow> jsvalue" where
  "createInterface ident typeParameters body extended =
     node_of ''InterfaceDeclaration'' [(''id'', ident), (''typeParameters'', typeParameters), (''body'', body), (''extends'', extended)]"

definition createInterfaceExtends :: "jsvalue \<Rightarrow> jsvalue \<Rightarrow> nat \<Rightarrow> jsvalue" where
  "createInterfaceExtends ident typeParameters =
     node_of ''InterfaceExtends'' [(''id'', ident), (''typeParameters'', typeParameters)]"

definition createDeclareFunction :: "jsvalue \<Rightarrow> nat \<Rightarrow> jsvalue" where
  "createDeclareFunction ident = node_of ''DeclareFunction'' [(''id'', ident)]"

definition createDeclareVariable :: "jsvalue \<Rightarrow> nat \<Rightarrow> jsvalue" where
  "createDeclareVariable ident = node_of ''DeclareVariable'' [(''id'', ident)]"

definition createDeclareModule :: "jsvalue \<Rightarrow> jsvalue \<Rightarrow> nat \<Rightarrow> jsvalue" where
  "createDeclareModule ident body = node_of ''DeclareModule'' [(''id'', ident), (''body'', body)]"

definition createJSXAttribute :: "jsvalue \<Rightarrow> jsvalue \<Rightarrow> nat \<Rightarrow> jsvalue" where
  "createJSXAttribute name value = node_of ''JSXAttribute'' [(''name'', name), (''value'', if truthy_value value then value else VNull)]"

definition createJSXSpreadAttribute :: "jsvalue \<Rightarrow> nat \<Rightarrow> jsvalue" where
  "createJSXSpreadAttribute argument = node_of ''JSXSpreadAttribute'' [(''argument'', argument)]"

definition createJSXIdentifier :: "jsvalue \<Rightarrow> nat \<Rightarrow> jsvalue" where
  "createJSXIdentifier name = node_of ''JSXIdentifier'' [(''name'', name)]"

definition createJSXNamespacedName :: "jsvalue \<Rightarrow> jsvalue \<Rightarrow> nat \<Rightarrow> jsvalue" where
  "createJSXNamespacedName namespace name =
     node_of ''JSXNamespacedName'' [(''namespace'', namespace), (''name'', name)]"

definition createJSXMemberExpression :: "jsvalue \<Rightarrow> jsvalue \<Rightarrow> nat \<Rightarrow> jsvalue" where
  "createJSXMemberExpression object property =
     node_of ''JSXMemberExpression'' [(''object'', object), (''property'', property)]"

definition createJSXElement :: "jsvalue \<Rightarrow> jsvalue \<Rightarrow> jsvalue \<Rightarrow> nat \<Rightarrow> jsvalue" where
  "createJSXElement openingElement closingElement children =
     node_of ''JSXElement'' [(''openingElement'', openingElement), (''closingElement'', closingElement), (''children'', children)]"

definition createJSXEmptyExpression :: "nat \<Rightarrow> jsvalue" where
  "createJSXEmptyExpression = node_of ''JSXEmptyExpression'' []"

definition createJSXExpressionContainer :: "jsvalue \<Rightarrow> nat \<Rightarrow> jsvalue" where
  "createJSXExpressionContainer expression =
     node_of ''JSXExpressionContainer'' [(''expression'', expression)]"

definition createJSXOpeningElement :: "jsvalue \<Rightarrow> jsvalue \<Rightarrow> jsvalue \<Rightarrow> nat \<Rightarrow> jsvalue" where
  "createJSXOpeningElement name attributes selfClosing =
     node_of ''JSXOpeningElement'' [(''name'', name), (''selfClosing'', selfClosing), (''attributes'', attributes)]"

definition createJSXClosingElement :: "jsvalue \<Rightarrow> nat \<Rightarrow> jsvalue" where
  "createJSXClosingElement name = node_of ''JSXClosingElement'' [(''name'', name)]"

definition createIfStatement :: "jsvalue \<Rightarrow> jsvalue \<Rightarrow> jsvalue \<Rightarrow> nat \<Rightarrow> jsvalue" where
  "createIfStatement test consequent alternate =
     node_of ''IfStatement'' [(''test'', test), (''consequent'', consequent), (''alternate'', alternate)]"

definition createLabeledStatement :: "jsvalue \<Rightarrow> jsvalue \<Rightarrow> nat \<Rightarrow> jsvalue" where
  "createLabeledStatement label body = node_of ''LabeledStatement'' [(''label'', label), (''body'', body)]"

definition createMemberExpression :: "jsvalue \<Rightarrow> jsvalue \<Rightarrow> jsvalue \<Rightarrow> nat \<Rightarrow> jsvalue" where
  "createMemberExpression accessor object property =
     node_of ''MemberExpression'' [(''computed'', VBool (accessor = VStr (js ''[''))), (''object'', object), (''property'', property)]"

definition createNewExpression :: "jsvalue \<Rightarrow> jsvalue \<Rightarrow> nat \<Rightarrow> jsvalue" where
  "createNewExpression callee args = node_of ''NewExpression'' [(''callee'', callee), (''arguments'', args)]"

definition createObjectExpression :: "jsvalue \<Rightarrow> nat \<Rightarrow> jsvalue" where
  "createObjectExpression properties = node_of ''ObjectExpression'' [(''properties'', properties)]"

definition createPostfixExpression :: "jsvalue \<Rightarrow> jsvalue \<Rightarrow> nat \<Rightarrow> jsvalue" where
  "createPostfixExpression operator argument =
     node_of ''UpdateExpression'' [(''operator'', operator), (''argument'', argument), (''prefix'', VBool False)]"

definition createProgram :: "jsvalue \<Rightarrow> nat \<Rightarrow> jsvalue" where
  "createProgram body = node_of ''Program'' [(''body'', body)]"

definition createProperty :: "jsvalue \<Rightarrow> jsvalue \<Rightarrow> jsvalue \<Rightarrow> jsvalue \<Rightarrow> jsvalue \<Rightarrow> jsvalue \<Rightarrow> nat \<Rightarrow> jsvalue" where
  "createProperty kind key value method shorthand computed =
     node_of ''Property'' [(''key'', key), (''value'', value), (''kind'', kind), (''method'', method), (''shorthand'', shorthand), (''computed'', computed)]"

definition createReturnStatement :: "jsvalue \<Rightarrow> nat \<Rightarrow> jsvalue" where
  "createReturnStatement argument = node_of ''ReturnStatement'' [(''argument'', argument)]"

definition createSequenceExpression :: "jsvalue \<Rightarrow> nat \<Rightarrow> jsvalue" where
  "createSequenceExpression expressions = node_of ''SequenceExpression'' [(''expressions'', expressions)]"

definition createSwitchCase :: "jsvalue \<Rightarrow> jsvalue \<Rightarrow> nat \<Rightarrow> jsvalue" where
  "createSwitchCase test consequent = node_of ''SwitchCase'' [(''test'', test), (''consequent'', consequent)]"

definition createSwitchStatement :: "jsvalue \<Rightarrow> jsvalue \<Rightarrow> nat \<Rightarrow> jsvalue" where
  "createSwitchStatement discriminant cases =
     node_of ''SwitchStatement'' [(''discriminant'', discriminant), (''cases'', cases)]"

definition createThisExpression :: "nat \<Rightarrow> jsvalue" where
  "createThisExpression = node_of ''ThisExpression'' []"

definition createThrowStatement :: "jsvalue \<Rightarrow> nat \<Rightarrow> jsvalue" where
  "createThrowStatement argument = node_of ''ThrowStatement'' [(''argument'', argument)]"

definition createTryStatement :: "jsvalue \<Rightarrow> jsvalue \<Rightarrow> jsvalue \<Rightarrow> jsvalue \<Rightarrow> nat \<Rightarrow> jsvalue" where
  "createTryStatement block guardedHandlers handlers finalizer =
     node_of ''TryStatement'' [(''block'', block), (''guardedHandlers'', guardedHandlers), (''handlers'', handlers), (''finalizer'', finalizer)]"

definition createVariableDeclaration :: "jsvalue \<Rightarrow> jsvalue \<Rightarrow> nat \<Rightarrow> jsvalue" where
  "createVariableDeclaration declarations kind =
     node_of ''VariableDeclaration'' [(''declarations'', declarations), (''kind'', kind)]"

definition createVariableDeclarator :: "jsvalue \<Rightarrow> jsvalue \<Rightarrow> nat \<Rightarrow> jsvalue" where
  "createVariableDeclarator ident init = node_of ''VariableDeclarator'' [(''id'', ident), (''init'', init)]"

definition createWhileStatement :: "jsvalue \<Rightarrow> jsvalue \<Rightarrow> nat \<Rightarrow> jsvalue" where
  "createWhileStatement test body = node_of ''WhileStatement'' [(''test'', test), (''body'', body)]"

definition createWithStatement :: "jsvalue \<Rightarrow> jsvalue \<Rightarrow> nat \<Rightarrow> jsvalue" where
  "createWithStatement object body = node_of ''WithStatement'' [(''object'', object), (''body'', body)]"

definition createTemplateElement :: "jsvalue \<Rightarrow> jsvalue \<Rightarrow> nat \<Rightarrow> jsvalue" where
  "createTemplateElement value tail = node_of ''TemplateElement'' [(''value'', value), (''tail'', tail)]"

definition createTemplateLiteral :: "jsvalue \<Rightarrow> jsvalue \<Rightarrow> nat \<Rightarrow> jsvalue" where
  "createTemplateLiteral quasis expressions =
     node_of ''TemplateLiteral'' [(''quasis'', quasis), (''expressions'', expressions)]"

definition createSpreadElement :: "jsvalue \<Rightarrow> nat \<Rightarrow> jsvalue" where
  "createSpreadElement argument = node_of ''SpreadElement'' [(''argument'', argument)]"

definition createSpreadProperty :: "jsvalue \<Rightarrow> nat \<Rightarrow> jsvalue" where
  "createSpreadProperty argument = node_of ''SpreadProperty'' [(''argument'', argument)]"

definition createTaggedTemplateExpression :: "jsvalue \<Rightarrow> jsvalue \<Rightarrow> nat \<Rightarrow> jsvalue" where
  "createTaggedTemplateExpression tag quasi =
     node_of ''TaggedTemplateExpression'' [(''tag'', tag), (''quasi'', quasi)]"

definition createMethodDefinition :: "jsvalue \<Rightarrow> jsvalue \<Rightarrow> jsvalue \<Rightarrow> jsvalue \<Rightarrow> jsvalue \<Rightarrow> nat \<Rightarrow> jsvalue" where
  "createMethodDefinition propertyType kind key value computed =
     node_of ''MethodDefinition'' [(''key'', key), (''value'', value), (''kind'', kind), (''static'', VBool (propertyType = VStr (js ''static''))), (''computed'', computed)]"

definition createClassProperty :: "jsvalue \<Rightarrow> jsvalue \<Rightarrow> jsvalue \<Rightarrow> jsvalue \<Rightarrow> nat \<Rightarrow> jsvalue" where
  "createClassProperty key typeAnnotation computed isStatic =
     node_of ''ClassProperty'' [(''key'', key), (''typeAnnotation'', typeAnnotation), (''computed'', computed), (''static'', isStatic)]"

definition createClassBody :: "jsvalue \<Rightarrow> nat \<Rightarrow> jsvalue" where
  "createClassBody body = node_of ''ClassBody'' [(''body'', body)]"

definition createClassImplements :: "jsvalue \<Rightarrow> jsvalue \<Rightarrow> nat \<Rightarrow> jsvalue" where
  "createClassImplements ident typeParameters =
     node_of ''ClassImplements'' [(''id'', ident), (''typeParameters'', typeParameters)]"

definition createClassExpression :: "jsvalue \<Rightarrow> jsvalue \<Rightarrow> jsvalue \<Rightarrow> jsvalue \<Rightarrow> jsvalue \<Rightarrow> jsvalue \<Rightarrow> nat \<Rightarrow> jsvalue" where
  "createClassExpression ident superClass body typeParameters superTypeParameters implemented =
     node_of ''ClassExpression'' [(''id'', ident), (''superClass'', superClass), (''body'', body), (''typeParameters'', typeParameters), (''superTypeParameters'', superTypeParameters), (''implements'', implemented)]"

definition createClassDeclaration :: "jsvalue \<Rightarrow> jsvalue \<Rightarrow> jsvalue \<Rightarrow> jsvalue \<Rightarrow> jsvalue \<Rightarrow> jsvalue \<Rightarrow> nat \<Rightarrow> jsvalue" where
  "createClassDeclaration ident superClass body typeParameters superTypeParameters implemented =
     node_of ''ClassDeclaration'' [(''id'', ident), (''superClass'', superClass), (''body'', body), (''typeParameters'', typeParameters), (''superTypeParameters'', superTypeParameters), (''implements'', implemented)]"

definition createExportSpecifier :: "jsvalue \<Rightarrow> jsvalue \<Rightarrow> nat \<Rightarrow> jsvalue" where
  "createExportSpecifier ident name = node_of ''ExportSpecifier'' [(''id'', ident), (''name'', name)]"

definition createExportBatchSpecifier :: "nat \<Rightarrow> jsvalue" where
  "createExportBatchSpecifier = node_of ''ExportBatchSpecifier'' []"

definition createImportDefaultSpecifier :: "jsvalue \<Rightarrow> nat \<Rightarrow> jsvalue" where
  "createImportDefaultSpecifier ident = node_of ''ImportDefaultSpecifier'' [(''id'', ident)]"

definition createImportNamespaceSpecifier :: "jsvalue \<Rightarrow> nat \<Rightarrow> jsvalue" where
  "createImportNamespaceSpecifier ident = node_of ''ImportNamespaceSpecifier'' [(''id'', ident)]"

definition createExportDeclaration :: "jsvalue \<Rightarrow> jsvalue \<Rightarrow> jsvalue \<Rightarrow> jsvalue \<Rightarrow> nat \<Rightarrow> jsvalue" where
  "createExportDeclaration isDefault declaration specifiers src =
     node_of ''ExportDeclaration'' [(''default'', VBool (truthy_value isDefault)), (''declaration'', declaration), (''specifiers'', specifiers), (''source'', src)]"

definition createImportSpecifier :: "jsvalue \<Rightarrow> jsvalue \<Rightarrow> nat \<Rightarrow> jsvalue" where
  "createImportSpecifier ident name = node_of ''ImportSpecifier'' [(''id'', ident), (''name'', name)]"

definition createImportDeclaration :: "jsvalue \<Rightarrow> jsvalue \<Rightarrow> jsvalue \<Rightarrow> nat \<Rightarrow> jsvalue" where
  "createImportDeclaration specifiers src isType =
     node_of ''ImportDeclaration'' [(''specifiers'', specifiers), (''source'', src), (''isType'', isType)]"

definition createYieldExpression :: "jsvalue \<Rightarrow> jsvalue \<Rightarrow> nat \<Rightarrow> jsvalue" where
  "createYieldExpression argument dlg =
     node_of ''YieldExpression'' [(''argument'', argument), (''delegate'', dlg)]"

definition createAwaitExpression :: "jsvalue \<Rightarrow> nat \<Rightarrow> jsvalue" where
  "createAwaitExpression argument = node_of ''AwaitExpression'' [(''argument'', argument)]"

definition createComprehensionExpression :: "jsvalue \<Rightarrow> jsvalue \<Rightarrow> jsvalue \<Rightarrow> nat \<Rightarrow> jsvalue" where
  "createComprehensionExpression cond blocks body =
     node_of ''ComprehensionExpression'' [(''filter'', cond), (''blocks'', blocks), (''body'', body)]"

end
