(* ===== verification/EsParseBase.thy ===== *)
theory EsParseBase
  imports EsNodes EsTokenize
begin

text \<open>
  What the productions of the parser are made of: the state (the scanner's and the fields of \<^verbatim>\<open>state\<close>
  that only the parser uses), the outcome of a production, the operations of the lexer as steps, and
  \<^verbatim>\<open>markerApply\<close>.

  Productions call each other in cycles. Such calls go through a record of productions, \<open>grammar\<close>, which
  each production gets as an argument; \<open>EsParse\<close> ties the knot, with fuel for the depth of nested
  productions and for the rounds of each loop. Comments are not attached to nodes (\<^verbatim>\<open>processComment\<close>): the
  option \<^verbatim>\<open>attachComment\<close> is not modelled.
\<close>

subsection \<open>State and outcome\<close>

record pstate =
  scn :: scanner
  allowKeyword :: bool
  allowIn :: bool
  labelSet :: "bool string_map"
  parenthesizedCount :: nat
  inFunctionBody :: bool
  inIteration :: bool
  inSwitch :: bool
  yieldAllowed :: bool
  awaitAllowed :: bool
  sourceType :: "jsstring option"
  locSource :: "jsstring option"
  nextNode :: nat

text \<open>A production runs out of fuel, throws, or gives a value.\<close>

datatype 'a parsed = Diverged | Raised thrown pstate | Parsed 'a pstate

type_synonym 'a parser = "pstate \<Rightarrow> 'a parsed"

definition bindP :: "'a parser \<Rightarrow> ('a \<Rightarrow> 'b parser) \<Rightarrow> 'b parser" where
  "bindP m f s = (case m s of Diverged \<Rightarrow> Diverged | Raised e t \<Rightarrow> Raised e t | Parsed x t \<Rightarrow> f x t)"

definition doneP :: "'a \<Rightarrow> 'a parser" where
  "doneP x s = Parsed x s"

definition getP :: "(pstate \<Rightarrow> 'a) \<Rightarrow> 'a parser" where
  "getP f s = Parsed (f s) s"

definition setP :: "(pstate \<Rightarrow> pstate) \<Rightarrow> unit parser" where
  "setP f s = Parsed () (f s)"

text \<open>A step of the lexer.\<close>

definition liftP :: "(scanner \<Rightarrow> 'a outcome) \<Rightarrow> 'a parser" where
  "liftP f s = (case f (scn s) of Ret x t \<Rightarrow> Parsed x (s\<lparr>scn := t\<rparr>) | Throw e t \<Rightarrow> Raised e (s\<lparr>scn := t\<rparr>))"

text \<open>A value that may be an error of the engine: a property of \<^verbatim>\<open>undefined\<close>.\<close>

definition valueP :: "'a res \<Rightarrow> 'a parser" where
  "valueP r s = (case r of Inl e \<Rightarrow> Raised PropertyOfUndefined s | Inr x \<Rightarrow> Parsed x s)"

definition whenP :: "bool \<Rightarrow> unit parser \<Rightarrow> unit parser" where
  "whenP b m = (if b then m else doneP ())"

definition thenP :: "'a parser \<Rightarrow> 'b parser \<Rightarrow> 'b parser" where
  "thenP m k = bindP m (\<lambda>_. k)"

definition ifP :: "bool parser \<Rightarrow> 'a parser \<Rightarrow> 'a parser \<Rightarrow> 'a parser" where
  "ifP c a b = bindP c (\<lambda>x. if x then a else b)"

definition raiseP :: "thrown \<Rightarrow> 'a parser" where
  "raiseP e = (\<lambda>s. Raised e s)"

text \<open>\<^verbatim>\<open>a || b\<close> and \<^verbatim>\<open>a && b\<close>, which look at \<open>b\<close> only if they have to.\<close>

definition orP :: "bool parser \<Rightarrow> bool parser \<Rightarrow> bool parser" where
  "orP a b = ifP a (doneP True) b"

definition andP :: "bool parser \<Rightarrow> bool parser \<Rightarrow> bool parser" where
  "andP a b = ifP a b (doneP False)"

definition notP :: "bool parser \<Rightarrow> bool parser" where
  "notP a = bindP a (\<lambda>x. doneP (\<not> x))"

text \<open>A loop: a round gives the values for the next round, or the result.\<close>

primrec loopP :: "nat \<Rightarrow> ('a \<Rightarrow> ('a + 'b) parser) \<Rightarrow> 'a \<Rightarrow> 'b parser" where
  "loopP 0 body a = (\<lambda>s. Diverged)"
| "loopP (Suc n) body a = bindP (body a) (\<lambda>r. case r of Inl a \<Rightarrow> loopP n body a | Inr b \<Rightarrow> doneP b)"

subsection \<open>Scopes\<close>

text \<open>
  Parts of the source in which the state says more or other things are allowed. \<open>enter\<close> sets the fields,
  \<open>leave\<close> puts back what the state in front said; a label is taken out of the set. An error leaves the
  fields as they are.
\<close>

datatype scope =
    In_iteration
  | In_switch
  | In_body
  | In_function bool bool
  | In_superclass
  | In_label jsstring
  | In_type

fun enter :: "scope \<Rightarrow> pstate \<Rightarrow> pstate" where
  "enter In_iteration s = s\<lparr>inIteration := True\<rparr>"
| "enter In_switch s = s\<lparr>inSwitch := True\<rparr>"
| "enter In_body s =
     s\<lparr>labelSet := StringMap, parenthesizedCount := 0, inFunctionBody := True, inIteration := False, inSwitch := False\<rparr>"
| "enter (In_function gen isAsync) s = s\<lparr>yieldAllowed := gen, awaitAllowed := isAsync\<rparr>"
| "enter In_superclass s = s\<lparr>yieldAllowed := False\<rparr>"
| "enter (In_label name) s = s\<lparr>labelSet := StringMap_set (labelSet s) name True\<rparr>"
| "enter In_type s = s\<lparr>scn := (scn s)\<lparr>inType := True\<rparr>\<rparr>"

fun leave :: "scope \<Rightarrow> pstate \<Rightarrow> pstate \<Rightarrow> pstate" where
  "leave In_iteration old s = s\<lparr>inIteration := inIteration old\<rparr>"
| "leave In_switch old s = s\<lparr>inSwitch := inSwitch old\<rparr>"
| "leave In_body old s =
     s\<lparr>labelSet := labelSet old, parenthesizedCount := parenthesizedCount old, inFunctionBody := inFunctionBody old,
       inIteration := inIteration old, inSwitch := inSwitch old\<rparr>"
| "leave (In_function gen isAsync) old s =
     s\<lparr>scn := (scn s)\<lparr>strict := strict (scn old)\<rparr>, yieldAllowed := yieldAllowed old, awaitAllowed := awaitAllowed old\<rparr>"
| "leave In_superclass old s = s\<lparr>yieldAllowed := yieldAllowed old\<rparr>"
| "leave (In_label name) old s = s\<lparr>labelSet := StringMap_delete (labelSet s) name\<rparr>"
| "leave In_type old s = s\<lparr>scn := (scn s)\<lparr>inType := inType (scn old)\<rparr>\<rparr>"

definition scoped :: "scope \<Rightarrow> 'a parser \<Rightarrow> 'a parser" where
  "scoped c m =
     bindP (getP id) (\<lambda>old. thenP (setP (enter c)) (bindP m (\<lambda>x. thenP (setP (leave c old)) (doneP x))))"

lemma parser_simps [simp]:
  "bindP (doneP x) f = f x" "doneP x s = Parsed x s" "getP g s = Parsed (g s) s" "setP h s = Parsed () (h s)"
  "valueP (Inr x) = doneP x" "valueP (Inl e) s = Raised PropertyOfUndefined s"
  "whenP True m = m" "whenP False m = doneP ()"
  by (auto simp: bindP_def doneP_def getP_def setP_def valueP_def whenP_def)

lemma bindP_apply:
  "m s = Parsed x t \<Longrightarrow> bindP m f s = f x t" "m s = Raised e t \<Longrightarrow> bindP m f s = Raised e t"
  "m s = Diverged \<Longrightarrow> bindP m f s = Diverged"
  by (simp_all add: bindP_def)

lemma bindP_ParsedE:
  assumes "bindP m f s = Parsed y u"
  obtains x t where "m s = Parsed x t" and "f x t = Parsed y u"
  using assms by (auto simp: bindP_def split: parsed.splits)

subsection \<open>The host and the grammar\<close>

text \<open>What the parser uses of the engine besides the scanner's needs: the values of numeric literals.\<close>

record host =
  eng :: engine
  numberValue :: "number \<Rightarrow> jsvalue"

text \<open>
  The productions that are called in cycles, and the fuel of loops. \<^verbatim>\<open>parseForStatement\<close> has its option
  \<^verbatim>\<open>ignoreBody\<close> as an argument; \<^verbatim>\<open>parseSourceElement\<close> gives \<^verbatim>\<open>undefined\<close> at the end of the source.
\<close>

record grammar =
  host :: host
  fuel :: nat
  r_type :: "jsvalue parser"
  r_prefixType :: "jsvalue parser"
  r_primaryType :: "jsvalue parser"
  r_arrayInitialiser :: "jsvalue parser"
  r_objectInitialiser :: "jsvalue parser"
  r_assignment :: "jsvalue parser"
  r_expression :: "jsvalue parser"
  r_unary :: "jsvalue parser"
  r_leftHandSide :: "jsvalue parser"
  r_leftHandSideAllowCall :: "jsvalue parser"
  r_jsxElement :: "jsvalue parser"
  r_functionBody :: "jsvalue parser"
  r_for :: "bool \<Rightarrow> jsvalue parser"
  r_statement :: "jsvalue parser"
  r_sourceElement :: "jsvalue parser"

definition rounds :: "grammar \<Rightarrow> ('a \<Rightarrow> ('a + 'b) parser) \<Rightarrow> 'a \<Rightarrow> 'b parser" where
  "rounds G = loopP (fuel G)"

subsection \<open>The lexer\<close>

definition engine_of :: "grammar \<Rightarrow> engine" where
  "engine_of G = eng (host G)"

definition lexP :: "grammar \<Rightarrow> token parser" where
  "lexP G = liftP (lex_token (engine_of G))"

definition skipP :: "grammar \<Rightarrow> unit parser" where
  "skipP G = bindP (lexP G) (\<lambda>_. doneP ())"

definition peekP :: "grammar \<Rightarrow> unit parser" where
  "peekP G = liftP (peek (engine_of G))"

definition lookahead2P :: "grammar \<Rightarrow> token parser" where
  "lookahead2P G = liftP (lookahead2 (engine_of G))"

definition expectP :: "grammar \<Rightarrow> string \<Rightarrow> unit parser" where
  "expectP G v = liftP (expect (engine_of G) (js v))"

definition expectKeywordP :: "grammar \<Rightarrow> string \<Rightarrow> unit parser" where
  "expectKeywordP G k = liftP (expectKeyword (engine_of G) (js k) False)"

definition expectContextualP :: "grammar \<Rightarrow> string \<Rightarrow> unit parser" where
  "expectContextualP G k = liftP (expectContextualKeyword (engine_of G) (js k))"

definition matchP :: "string \<Rightarrow> bool parser" where
  "matchP v = getP (\<lambda>s. match (js v) (scn s))"

definition matchKeywordP :: "string \<Rightarrow> bool parser" where
  "matchKeywordP k = getP (\<lambda>s. matchKeyword (js k) False (scn s))"

definition matchContextualP :: "string \<Rightarrow> bool parser" where
  "matchContextualP k = getP (\<lambda>s. matchContextualKeyword (js k) (scn s))"

definition matchAsyncP :: "grammar \<Rightarrow> bool parser" where
  "matchAsyncP G = liftP (matchAsync (engine_of G))"

definition consumeSemicolonP :: "grammar \<Rightarrow> unit parser" where
  "consumeSemicolonP G = liftP (consumeSemicolon (engine_of G))"

definition peekLineTerminatorP :: "bool parser" where
  "peekLineTerminatorP = liftP peekLineTerminator"

definition rewindP :: "token \<Rightarrow> unit parser" where
  "rewindP token = setP (\<lambda>s. s\<lparr>scn := rewind token (scn s)\<rparr>)"

text \<open>The token of lookahead, read for one of its properties.\<close>

definition lookaheadP :: "token parser" where
  "lookaheadP s = (case lookahead (scn s) of None \<Rightarrow> Raised PropertyOfUndefined s | Some t \<Rightarrow> Parsed t s)"

definition strictP :: "bool parser" where
  "strictP = getP (\<lambda>s. strict (scn s))"

definition setStrictP :: "bool \<Rightarrow> unit parser" where
  "setStrictP b = setP (\<lambda>s. s\<lparr>scn := (scn s)\<lparr>strict := b\<rparr>\<rparr>)"

text \<open>\<^verbatim>\<open>index < length\<close>.\<close>

definition moreP :: "bool parser" where
  "moreP = getP (\<lambda>s. index (pos (scn s)) < length (source (scn s)))"

subsection \<open>Errors\<close>

text \<open>
  \<^verbatim>\<open>throwUnexpected(token)\<close> as the last statement of a function: where it returns, the value is
  \<^verbatim>\<open>undefined\<close>.
\<close>

definition unexpectedP :: "token \<Rightarrow> unit parser" where
  "unexpectedP token = liftP (throwUnexpected token)"

definition errorP :: "token option \<Rightarrow> message \<Rightarrow> jsstring list \<Rightarrow> 'a parser" where
  "errorP token m args = liftP (throwError token m args)"

definition tolerantP :: "token option \<Rightarrow> message \<Rightarrow> unit parser" where
  "tolerantP token m = liftP (throwErrorTolerant token m [])"

text \<open>\<^verbatim>\<open>throwError(node, text)\<close>: a node has no line number, so the position is the scanner's.\<close>

definition errorTextP :: "jsstring \<Rightarrow> 'a parser" where
  "errorTextP text s =
     (let p = pos (scn s)
      in Raised (case format_message text [] of
           Inl e \<Rightarrow> e
         | Inr msg \<Rightarrow> Reported (js ''Line '' @ dec_digits (lineNumber p) @ js '': '' @ msg) (index p)
             (lineNumber p) (int (index p) - int (lineStart p) + 1) msg) s)"

subsection \<open>Nodes\<close>

text \<open>\<^verbatim>\<open>markerApply\<close> without the attaching of comments.\<close>

definition place :: "nat \<Rightarrow> int \<Rightarrow> jsvalue" where
  "place line col = plain_object [(''line'', VNum (int line)), (''column'', VNum col)]"

definition loc_object :: "marker \<Rightarrow> pstate \<Rightarrow> jsvalue" where
  "loc_object m s =
     plain_object ([(''start'', place (m_line m) (m_col m)), (''end'', place (lineNumber (pos (scn s))) (column (pos (scn s))))]
       @ (case locSource s of None \<Rightarrow> [] | Some src \<Rightarrow> [(''source'', VStr src)]))"

definition markerApply :: "marker option \<Rightarrow> jsvalue \<Rightarrow> jsvalue parser" where
  "markerApply marker node s =
     (case marker of
        None \<Rightarrow> Parsed node s
      | Some m \<Rightarrow>
          let node = (if x_range (scn s) then set_range (m_offset m, index (pos (scn s))) node else node)
          in Parsed (if x_loc (scn s) then set_prop ''loc'' (loc_object m s) node else node) s)"

definition markerP :: "marker option parser" where
  "markerP = liftP markerCreate"

definition markerPreserveP :: "marker option parser" where
  "markerPreserveP = getP (\<lambda>s. markerCreatePreserveWhitespace (scn s))"

text \<open>A new node, and a new node with its marker.\<close>

definition newP :: "(nat \<Rightarrow> jsvalue) \<Rightarrow> jsvalue parser" where
  "newP node s = Parsed (node (nextNode s)) (s\<lparr>nextNode := nextNode s + 1\<rparr>)"

definition finishP :: "marker option \<Rightarrow> (nat \<Rightarrow> jsvalue) \<Rightarrow> jsvalue parser" where
  "finishP marker node = bindP (newP node) (markerApply marker)"

definition typeP :: "jsvalue \<Rightarrow> string \<Rightarrow> bool parser" where
  "typeP node type = valueP (type_is node type)"

definition propP :: "jsvalue \<Rightarrow> string \<Rightarrow> jsvalue parser" where
  "propP node key = valueP (get_prop node key)"

text \<open>The token's value in the tree, and a literal made of a token.\<close>

definition value_of :: "grammar \<Rightarrow> token \<Rightarrow> jsvalue" where
  "value_of G token = token_value (numberValue (host G)) (tok_value token)"

definition literalP :: "jsvalue \<Rightarrow> token \<Rightarrow> (nat \<Rightarrow> jsvalue) parser" where
  "literalP value token = getP (\<lambda>s. createLiteral value (raw_text (source (scn s)) (tok_range token)) (tok_regex token))"

text \<open>Tests on the value of a token, whatever its type.\<close>

definition has_value :: "string \<Rightarrow> token \<Rightarrow> bool" where
  "has_value v t = (tok_value t = Text (js v))"

definition is_punctuator :: "string \<Rightarrow> token \<Rightarrow> bool" where
  "is_punctuator v t = is_token Punctuator (js v) t"

end
