(* ===== verification/EsParseTypes.thy ===== *)
theory EsParseTypes
  imports EsParseBase
begin

text \<open>
  Productions for identifiers, the keys of properties, and the type annotations of Flow.
\<close>

subsection \<open>Identifiers and keys\<close>

definition parseVariableIdentifier :: "grammar \<Rightarrow> jsvalue parser" where
  "parseVariableIdentifier G =
     bindP markerP (\<lambda>marker.
     bindP (lexP G) (\<lambda>token.
     thenP (whenP (tok_type token \<noteq> Identifier) (unexpectedP token))
       (finishP marker (createIdentifier (value_of G token)))))"

definition parseNonComputedProperty :: "grammar \<Rightarrow> jsvalue parser" where
  "parseNonComputedProperty G =
     bindP markerP (\<lambda>marker.
     bindP (lexP G) (\<lambda>token.
     thenP (whenP (\<not> isIdentifierName token) (unexpectedP token))
       (finishP marker (createIdentifier (value_of G token)))))"

definition parseObjectPropertyKey :: "grammar \<Rightarrow> jsvalue parser" where
  "parseObjectPropertyKey G =
     bindP markerP (\<lambda>marker.
     bindP (lexP G) (\<lambda>token.
       if tok_type token = StringLiteral \<or> tok_type token = NumericLiteral then
         bindP strictP (\<lambda>strict.
         thenP (whenP (strict \<and> tok_octal token) (tolerantP (Some token) StrictOctalLiteral))
           (bindP (literalP (value_of G token) token) (finishP marker)))
       else if is_punctuator ''['' token then
         bindP markerP (\<lambda>marker.
         bindP (r_assignment G) (\<lambda>propertyKey.
         bindP (markerApply marker propertyKey) (\<lambda>result.
         thenP (expectP G '']'') (doneP result))))
       else finishP marker (createIdentifier (value_of G token))))"

definition parseTypeAnnotation :: "grammar \<Rightarrow> jsvalue parser" where
  "parseTypeAnnotation G =
     bindP markerP (\<lambda>marker.
     thenP (expectP G '':'')
       (bindP (r_type G) (\<lambda>type. finishP marker (createTypeAnnotation type))))"

definition parseTypeAnnotatableIdentifier :: "grammar \<Rightarrow> bool \<Rightarrow> bool \<Rightarrow> jsvalue parser" where
  "parseTypeAnnotatableIdentifier G requireTypeAnnotation canBeOptionalParam =
     bindP markerP (\<lambda>marker.
     bindP (parseVariableIdentifier G) (\<lambda>ident.
     bindP (andP (doneP canBeOptionalParam) (matchP ''?'')) (\<lambda>isOptionalParam.
     thenP (whenP isOptionalParam (expectP G ''?''))
       (bindP (ifP (orP (doneP requireTypeAnnotation) (matchP '':''))
                 (bindP (parseTypeAnnotation G) (\<lambda>type. markerApply marker (set_prop ''typeAnnotation'' type ident)))
                 (doneP ident)) (\<lambda>ident.
        if isOptionalParam then markerApply marker (set_prop ''optional'' (VBool True) ident)
        else doneP ident)))))"

subsection \<open>Parameters of types\<close>

text \<open>A list up to a closing bracket, with commas in between: \<^verbatim>\<open>while (!match(close)) {...}\<close>.\<close>

definition until_close :: "grammar \<Rightarrow> string \<Rightarrow> jsvalue parser \<Rightarrow> jsvalue list parser" where
  "until_close G close item =
     rounds G (\<lambda>xs.
       ifP (matchP close) (doneP (Inr xs))
         (bindP item (\<lambda>x.
          thenP (ifP (matchP close) (doneP ()) (expectP G '',''))
            (doneP (Inl (xs @ [x])))))) []"

definition parseTypeParameterDeclaration :: "grammar \<Rightarrow> jsvalue parser" where
  "parseTypeParameterDeclaration G =
     bindP markerP (\<lambda>marker.
     thenP (expectP G ''<'')
       (bindP (until_close G ''>'' (parseTypeAnnotatableIdentifier G False False)) (\<lambda>paramTypes.
        thenP (expectP G ''>'') (finishP marker (createTypeParameterDeclaration (VArr paramTypes))))))"

definition parseTypeParameterInstantiation :: "grammar \<Rightarrow> jsvalue parser" where
  "parseTypeParameterInstantiation G =
     bindP markerP (\<lambda>marker.
     bindP (scoped In_type
              (thenP (expectP G ''<'')
                 (bindP (until_close G ''>'' (r_type G)) (\<lambda>paramTypes.
                  thenP (expectP G ''>'') (doneP paramTypes))))) (\<lambda>paramTypes.
       finishP marker (createTypeParameterInstantiation (VArr paramTypes))))"

text \<open>Parameters that may be there or not; \<open>none\<close> is the value the variable has before.\<close>

definition optional_declaration :: "grammar \<Rightarrow> jsvalue \<Rightarrow> jsvalue parser" where
  "optional_declaration G none = ifP (matchP ''<'') (parseTypeParameterDeclaration G) (doneP none)"

definition optional_instantiation :: "grammar \<Rightarrow> jsvalue \<Rightarrow> jsvalue parser" where
  "optional_instantiation G none = ifP (matchP ''<'') (parseTypeParameterInstantiation G) (doneP none)"

subsection \<open>Function types\<close>

definition parseFunctionTypeParam :: "grammar \<Rightarrow> jsvalue parser" where
  "parseFunctionTypeParam G =
     bindP markerP (\<lambda>marker.
     bindP (parseVariableIdentifier G) (\<lambda>name.
     bindP (matchP ''?'') (\<lambda>optional.
     thenP (whenP optional (skipP G))
    (thenP (expectP G '':'')
       (bindP (r_type G) (\<lambda>typeAnnotation.
          finishP marker (createFunctionTypeParam name typeAnnotation (VBool optional))))))))"

definition parseFunctionTypeParams :: "grammar \<Rightarrow> (jsvalue list \<times> jsvalue) parser" where
  "parseFunctionTypeParams G =
     bindP (rounds G (\<lambda>params.
       bindP lookaheadP (\<lambda>next.
         if tok_type next \<noteq> Identifier then doneP (Inr params)
         else bindP (parseFunctionTypeParam G) (\<lambda>param.
              thenP (ifP (matchP '')'') (doneP ()) (expectP G '',''))
                (doneP (Inl (params @ [param])))))) []) (\<lambda>params.
     ifP (matchP ''...'')
       (thenP (skipP G) (bindP (parseFunctionTypeParam G) (\<lambda>rest. doneP (params, rest))))
       (doneP (params, VNull)))"

text \<open>
  \<^verbatim>\<open>parseObjectTypeMethodish\<close> has its own copy of the loop over the parameters.
\<close>

definition parseObjectTypeMethodish :: "grammar \<Rightarrow> marker option \<Rightarrow> jsvalue parser" where
  "parseObjectTypeMethodish G marker =
     bindP (optional_declaration G VNull) (\<lambda>typeParameters.
     thenP (expectP G ''('')
       (bindP (parseFunctionTypeParams G) (\<lambda>(params, rest).
        thenP (expectP G '')'')
       (thenP (expectP G '':'')
          (bindP (r_type G) (\<lambda>returnType.
             finishP marker (createFunctionTypeAnnotation (VArr params) returnType rest typeParameters)))))))"

subsection \<open>Object types\<close>

definition parseObjectTypeIndexer :: "grammar \<Rightarrow> marker option \<Rightarrow> jsvalue \<Rightarrow> jsvalue parser" where
  "parseObjectTypeIndexer G marker isStatic =
     thenP (expectP G ''['')
       (bindP (parseObjectPropertyKey G) (\<lambda>ident.
        thenP (expectP G '':'')
       (bindP (r_type G) (\<lambda>key.
        thenP (expectP G '']'')
       (thenP (expectP G '':'')
       (bindP (r_type G) (\<lambda>value.
          finishP marker (createObjectTypeIndexer ident key value isStatic))))))))"

definition parseObjectTypeMethod :: "grammar \<Rightarrow> marker option \<Rightarrow> jsvalue \<Rightarrow> jsvalue \<Rightarrow> jsvalue parser" where
  "parseObjectTypeMethod G marker isStatic key =
     bindP (parseObjectTypeMethodish G marker) (\<lambda>value.
       finishP marker (createObjectTypeProperty key value (VBool False) isStatic))"

definition parseObjectTypeCallProperty :: "grammar \<Rightarrow> marker option \<Rightarrow> jsvalue \<Rightarrow> jsvalue parser" where
  "parseObjectTypeCallProperty G marker isStatic =
     bindP markerP (\<lambda>valueMarker.
     bindP (parseObjectTypeMethodish G valueMarker) (\<lambda>value.
       finishP marker (createObjectTypeCallProperty value isStatic)))"

text \<open>
  The variables of the loop of \<^verbatim>\<open>parseObjectType\<close>. \<open>isStatic\<close> and \<open>optional\<close> are declared outside it and
  never reset.
\<close>

record object_type =
  ot_isStatic :: jsvalue
  ot_optional :: bool
  ot_token :: "token option"
  ot_properties :: "jsvalue list"
  ot_indexers :: "jsvalue list"
  ot_callProperties :: "jsvalue list"

text \<open>
  The name of a property \<^verbatim>\<open>static\<close> is the token itself, an object (\<^verbatim>\<open>createIdentifier(token)\<close>).
\<close>

definition object_type_key :: "grammar \<Rightarrow> marker option \<Rightarrow> object_type \<Rightarrow> jsvalue parser" where
  "object_type_key G marker v =
     ifP (andP (doneP (truthy_value (ot_isStatic v))) (matchP '':''))
       (bindP (finishP marker (createIdentifier (VOther (js ''[object Object]'')))) (\<lambda>propertyKey.
        thenP (tolerantP (ot_token v) StrictReservedWord) (doneP propertyKey)))
       (parseObjectPropertyKey G)"

definition object_type_property :: "grammar \<Rightarrow> marker option \<Rightarrow> object_type \<Rightarrow> object_type parser" where
  "object_type_property G marker v =
     bindP (object_type_key G marker v) (\<lambda>propertyKey.
     ifP (orP (matchP ''<'') (matchP ''(''))
       (bindP (parseObjectTypeMethod G marker (ot_isStatic v) propertyKey) (\<lambda>x.
          doneP (v\<lparr>ot_properties := ot_properties v @ [x]\<rparr>)))
       (bindP (matchP ''?'') (\<lambda>question.
        thenP (whenP question (skipP G))
       (thenP (expectP G '':'')
          (bindP (r_type G) (\<lambda>propertyTypeAnnotation.
           bindP (finishP marker (createObjectTypeProperty propertyKey propertyTypeAnnotation
                    (VBool (question \<or> ot_optional v)) (ot_isStatic v))) (\<lambda>x.
             doneP (v\<lparr>ot_optional := question \<or> ot_optional v, ot_properties := ot_properties v @ [x]\<rparr>))))))))"

definition object_type_member :: "grammar \<Rightarrow> jsvalue \<Rightarrow> marker option \<Rightarrow> object_type \<Rightarrow> object_type parser" where
  "object_type_member G allowStatic marker v =
     ifP (matchP ''['')
       (bindP (parseObjectTypeIndexer G marker (ot_isStatic v)) (\<lambda>x.
          doneP (v\<lparr>ot_indexers := ot_indexers v @ [x]\<rparr>)))
       (ifP (orP (matchP ''('') (matchP ''<''))
         (bindP (parseObjectTypeCallProperty G marker allowStatic) (\<lambda>x.
            doneP (v\<lparr>ot_callProperties := ot_callProperties v @ [x]\<rparr>)))
         (object_type_property G marker v))"

definition object_type_round :: "grammar \<Rightarrow> jsvalue \<Rightarrow> object_type \<Rightarrow> (object_type + object_type) parser" where
  "object_type_round G allowStatic v =
     ifP (matchP ''}'') (doneP (Inr v))
       (bindP markerP (\<lambda>marker.
        bindP (ifP strictP (matchKeywordP ''static'') (matchContextualP ''static'')) (\<lambda>matchStatic.
        bindP (if truthy_value allowStatic \<and> matchStatic then
                 bindP (lexP G) (\<lambda>token. doneP (v\<lparr>ot_token := Some token, ot_isStatic := VBool True\<rparr>))
               else doneP v) (\<lambda>v.
        bindP (object_type_member G allowStatic marker v) (\<lambda>v.
        thenP (ifP (matchP '';'') (skipP G)
                (ifP (matchP ''}'') (doneP ()) (bindP lookaheadP unexpectedP)))
          (doneP (Inl v)))))))"

definition parseObjectType :: "grammar \<Rightarrow> jsvalue \<Rightarrow> jsvalue parser" where
  "parseObjectType G allowStatic =
     thenP (expectP G ''{'')
       (bindP (rounds G (object_type_round G allowStatic)
                \<lparr>ot_isStatic = VUndef, ot_optional = False, ot_token = None, ot_properties = [],
                  ot_indexers = [], ot_callProperties = []\<rparr>) (\<lambda>v.
        thenP (expectP G ''}'')
          (newP (createObjectTypeAnnotation (VArr (ot_properties v)) (VArr (ot_indexers v)) (VArr (ot_callProperties v))))))"

subsection \<open>Other types\<close>

definition parseGenericType :: "grammar \<Rightarrow> jsvalue parser" where
  "parseGenericType G =
     bindP markerP (\<lambda>marker.
     bindP (parseVariableIdentifier G) (\<lambda>typeIdentifier.
     bindP (rounds G (\<lambda>typeIdentifier.
       ifP (matchP ''.'')
         (thenP (expectP G ''.'')
           (bindP (parseVariableIdentifier G) (\<lambda>ident.
            bindP (finishP marker (createQualifiedTypeIdentifier typeIdentifier ident)) (\<lambda>x. doneP (Inl x)))))
         (doneP (Inr typeIdentifier))) typeIdentifier) (\<lambda>typeIdentifier.
     bindP (optional_instantiation G VNull) (\<lambda>typeParameters.
       finishP marker (createGenericTypeAnnotation typeIdentifier typeParameters)))))"

definition parseVoidType :: "grammar \<Rightarrow> jsvalue parser" where
  "parseVoidType G =
     bindP markerP (\<lambda>marker. thenP (expectKeywordP G ''void'') (finishP marker createVoidTypeAnnotation))"

definition parseTypeofType :: "grammar \<Rightarrow> jsvalue parser" where
  "parseTypeofType G =
     bindP markerP (\<lambda>marker.
     thenP (expectKeywordP G ''typeof'')
       (bindP (r_primaryType G) (\<lambda>argument. finishP marker (createTypeofTypeAnnotation argument))))"

definition parseTupleType :: "grammar \<Rightarrow> jsvalue parser" where
  "parseTupleType G =
     bindP markerP (\<lambda>marker.
     thenP (expectP G ''['')
       (bindP (rounds G (\<lambda>types.
          ifP (andP moreP (notP (matchP '']'')))
            (bindP (r_type G) (\<lambda>type.
             ifP (matchP '']'') (doneP (Inr (types @ [type])))
               (thenP (expectP G '','') (doneP (Inl (types @ [type]))))))
            (doneP (Inr types))) []) (\<lambda>types.
        thenP (expectP G '']'') (finishP marker (createTupleTypeAnnotation (VArr types))))))"

text \<open>What follows the parameters of a function type.\<close>

definition function_type :: "grammar \<Rightarrow> marker option \<Rightarrow> jsvalue \<Rightarrow> jsvalue parser" where
  "function_type G marker typeParameters =
     bindP (parseFunctionTypeParams G) (\<lambda>(params, rest).
     thenP (expectP G '')'')
    (thenP (expectP G ''=>'')
       (bindP (r_type G) (\<lambda>returnType.
          finishP marker (createFunctionTypeAnnotation (VArr params) returnType rest typeParameters)))))"

definition is_grouped_type :: "grammar \<Rightarrow> bool parser" where
  "is_grouped_type G =
     ifP (andP (notP (matchP '')'')) (notP (matchP ''...'')))
       (bindP lookaheadP (\<lambda>next.
          if tok_type next = Identifier then
            bindP (lookahead2P G) (\<lambda>token. doneP (\<not> has_value ''?'' token \<and> \<not> has_value '':'' token))
          else doneP True))
       (doneP False)"

definition parenthesized_type :: "grammar \<Rightarrow> marker option \<Rightarrow> jsvalue parser" where
  "parenthesized_type G marker =
     thenP (skipP G)
       (ifP (is_grouped_type G)
         (bindP (r_type G) (\<lambda>type.
          thenP (expectP G '')'')
         (thenP (ifP (matchP ''=>'') (errorP None ConfusedAboutFunctionType []) (doneP ()))
            (doneP type))))
         (function_type G marker VNull))"

definition named_type :: "grammar \<Rightarrow> marker option \<Rightarrow> token \<Rightarrow> jsvalue parser" where
  "named_type G marker token =
     (if has_value ''any'' token then thenP (skipP G) (finishP marker createAnyTypeAnnotation)
      else if has_value ''bool'' token \<or> has_value ''boolean'' token then
        thenP (skipP G) (finishP marker createBooleanTypeAnnotation)
      else if has_value ''number'' token then thenP (skipP G) (finishP marker createNumberTypeAnnotation)
      else if has_value ''string'' token then thenP (skipP G) (finishP marker createStringTypeAnnotation)
      else bindP (parseGenericType G) (markerApply marker))"

text \<open>The branches that break lead to \<^verbatim>\<open>throwUnexpected(lookahead)\<close>, after which there is no value.\<close>

definition no_type :: "jsvalue parser" where
  "no_type = thenP (bindP lookaheadP unexpectedP) (doneP VUndef)"

definition punctuator_type :: "grammar \<Rightarrow> marker option \<Rightarrow> token \<Rightarrow> jsvalue parser" where
  "punctuator_type G marker token =
     (if has_value ''{'' token then bindP (parseObjectType G VUndef) (markerApply marker)
      else if has_value ''['' token then parseTupleType G
      else if has_value ''<'' token then
        bindP (parseTypeParameterDeclaration G) (\<lambda>typeParameters.
        thenP (expectP G ''('') (function_type G marker typeParameters))
      else if has_value ''('' token then parenthesized_type G marker
      else no_type)"

definition string_type :: "grammar \<Rightarrow> marker option \<Rightarrow> jsvalue parser" where
  "string_type G marker =
     bindP (lexP G) (\<lambda>token.
     thenP (whenP (tok_octal token) (errorP (Some token) StrictOctalLiteral []))
       (bindP (getP (\<lambda>s. raw_text (source (scn s)) (tok_range token))) (\<lambda>raw.
          finishP marker (createStringLiteralTypeAnnotation (value_of G token) raw))))"

definition parsePrimaryType :: "grammar \<Rightarrow> jsvalue parser" where
  "parsePrimaryType G =
     bindP markerP (\<lambda>marker.
     bindP lookaheadP (\<lambda>token.
       if tok_type token = Identifier then named_type G marker token
       else if tok_type token = Punctuator then punctuator_type G marker token
       else if tok_type token = Keyword then
         (if has_value ''void'' token then bindP (parseVoidType G) (markerApply marker)
          else if has_value ''typeof'' token then bindP (parseTypeofType G) (markerApply marker)
          else no_type)
       else if tok_type token = StringLiteral then string_type G marker
       else no_type))"

definition parsePostfixType :: "grammar \<Rightarrow> jsvalue parser" where
  "parsePostfixType G =
     bindP markerP (\<lambda>marker.
     bindP (parsePrimaryType G) (\<lambda>t.
     ifP (matchP ''['')
       (thenP (expectP G ''['') (thenP (expectP G '']'') (finishP marker (createArrayTypeAnnotation t))))
       (doneP t)))"

definition parsePrefixType :: "grammar \<Rightarrow> jsvalue parser" where
  "parsePrefixType G =
     bindP markerP (\<lambda>marker.
     ifP (matchP ''?'')
       (thenP (skipP G) (bindP (r_prefixType G) (\<lambda>t. finishP marker (createNullableTypeAnnotation t))))
       (parsePostfixType G))"

text \<open>A chain of types with an operator in between; one type stays as it is.\<close>

definition type_chain :: "grammar \<Rightarrow> string \<Rightarrow> jsvalue parser \<Rightarrow> (jsvalue \<Rightarrow> nat \<Rightarrow> jsvalue) \<Rightarrow> jsvalue parser" where
  "type_chain G operator item node =
     bindP markerP (\<lambda>marker.
     bindP item (\<lambda>type.
     bindP (rounds G (\<lambda>types.
       ifP (matchP operator)
         (thenP (skipP G) (bindP item (\<lambda>t. doneP (Inl (types @ [t])))))
         (doneP (Inr types))) [type]) (\<lambda>types.
       if length types = 1 then doneP type else finishP marker (node (VArr types)))))"

definition parseIntersectionType :: "grammar \<Rightarrow> jsvalue parser" where
  "parseIntersectionType G = type_chain G ''&'' (parsePrefixType G) createIntersectionTypeAnnotation"

definition parseUnionType :: "grammar \<Rightarrow> jsvalue parser" where
  "parseUnionType G = type_chain G ''|'' (parseIntersectionType G) createUnionTypeAnnotation"

definition parseType :: "grammar \<Rightarrow> jsvalue parser" where
  "parseType G = scoped In_type (parseUnionType G)"

end
