(* ===== verification/EsParsePatterns.thy ===== *)
theory EsParsePatterns
  imports EsParseTypes
begin

text \<open>
  Expressions that turn out to be patterns: \<^verbatim>\<open>reinterpretAsAssignmentBindingPattern\<close> for the left side of
  an assignment, \<^verbatim>\<open>reinterpretAsDestructuredParameter\<close> and \<^verbatim>\<open>reinterpretAsCoverFormalsList\<close> for
  parameters. The code changes the nodes in place; here the changed tree is the result. No other
  reference to these nodes is used afterwards.
\<close>

subsection \<open>Steps over a tree\<close>

text \<open>
  What may go wrong: \<^verbatim>\<open>throwError({}, message)\<close>, or the engine's error for a property of a value that has
  none.
\<close>

type_synonym 'a reading = "message option + 'a"

definition andThen :: "'a reading \<Rightarrow> ('a \<Rightarrow> 'b reading) \<Rightarrow> 'b reading" where
  "andThen m f = (case m of Inl e \<Rightarrow> Inl e | Inr x \<Rightarrow> f x)"

lemma andThen_simps [simp]: "andThen (Inl e) f = Inl e" "andThen (Inr x) f = f x"
  by (simp_all add: andThen_def)

lemma andThen_cong [fundef_cong]:
  "\<lbrakk>m = m'; \<And>x. m' = Inr x \<Longrightarrow> f x = f' x\<rbrakk> \<Longrightarrow> andThen m f = andThen m' f'"
  by (cases m') simp_all

definition read_prop :: "jsvalue \<Rightarrow> string \<Rightarrow> jsvalue reading" where
  "read_prop v key = (case get_prop v key of Inl e \<Rightarrow> Inl None | Inr x \<Rightarrow> Inr x)"

definition read_type :: "jsvalue \<Rightarrow> string \<Rightarrow> bool reading" where
  "read_type v type = andThen (read_prop v ''type'') (\<lambda>t. Inr (t = VStr (js type)))"

text \<open>The elements of an array that is a property.\<close>

definition read_elements :: "jsvalue \<Rightarrow> string \<Rightarrow> jsvalue list reading" where
  "read_elements v key = andThen (read_prop v key) (\<lambda>x. case elements x of Inl e \<Rightarrow> Inl None | Inr xs \<Rightarrow> Inr xs)"

text \<open>The node at a property, changed; \<open>s\<close> is what the changes carry along.\<close>

definition change_prop :: "string \<Rightarrow> (jsvalue \<Rightarrow> 's \<Rightarrow> (jsvalue \<times> 's) reading) \<Rightarrow> jsvalue \<Rightarrow> 's \<Rightarrow> (jsvalue \<times> 's) reading" where
  "change_prop key f node s =
     andThen (read_prop node key) (\<lambda>x. andThen (f x s) (\<lambda>(y, s). Inr (set_prop key y node, s)))"

primrec change_all :: "('a \<Rightarrow> 's \<Rightarrow> (jsvalue \<times> 's) reading) \<Rightarrow> 'a list \<Rightarrow> 's \<Rightarrow> (jsvalue list \<times> 's) reading" where
  "change_all f [] s = Inr ([], s)"
| "change_all f (x # xs) s =
     andThen (f x s) (\<lambda>(y, s). andThen (change_all f xs s) (\<lambda>(ys, s). Inr (y # ys, s)))"

lemma change_prop_cong [fundef_cong]:
  assumes "key = key'" "node = node'" "s = s'" and "\<And>x t. get_prop node' key' = Inr x \<Longrightarrow> f x t = f' x t"
  shows "change_prop key f node s = change_prop key' f' node' s'"
  using assms by (auto simp: change_prop_def read_prop_def split: sum.splits)

lemma change_all_cong [fundef_cong]:
  assumes "xs = xs'" "s = s'" and "\<And>x t. x \<in> set xs' \<Longrightarrow> f x t = f' x t"
  shows "change_all f xs s = change_all f' xs' s'"
  using assms by (induction xs' arbitrary: xs s s') (auto intro!: andThen_cong)

text \<open>The elements of a list, each with whether it is the last one.\<close>

fun with_last :: "'a list \<Rightarrow> ('a \<times> bool) list" where
  "with_last [] = []"
| "with_last [x] = [(x, True)]"
| "with_last (x # y # xs) = (x, False) # with_last (y # xs)"

lemma with_last_set: "(x, b) \<in> set (with_last xs) \<Longrightarrow> x \<in> set xs"
  by (induction xs rule: with_last.induct) auto

text \<open>An expression for an object or an array as the pattern, with its parts changed.\<close>

definition pattern_of :: "string \<Rightarrow> string \<Rightarrow> jsvalue list \<Rightarrow> jsvalue \<Rightarrow> jsvalue" where
  "pattern_of type key xs node = set_prop key (VArr xs) (set_prop ''type'' (VStr (js type)) node)"

text \<open>
  The two functions have the same walk over objects and arrays; they differ in the message for an
  accessor and in what they do at the leaves.
\<close>

definition property_parts ::
    "message \<Rightarrow> (jsvalue \<Rightarrow> 's \<Rightarrow> (jsvalue \<times> 's) reading) \<Rightarrow> jsvalue \<times> bool \<Rightarrow> 's \<Rightarrow> (jsvalue \<times> 's) reading" where
  "property_parts m f = (\<lambda>(property, last) s.
     andThen (read_type property ''SpreadProperty'') (\<lambda>spread.
       if spread then
         (if last then change_prop ''argument'' f property s else Inl (Some PropertyAfterSpreadProperty))
       else
         andThen (read_prop property ''kind'') (\<lambda>kind.
           if kind \<noteq> VStr (js ''init'') then Inl (Some m)
           else change_prop ''value'' f property s)))"

lemma property_parts_cong [fundef_cong]:
  assumes "m = m'" "p = p'" "s = s'"
    and "\<And>k x t. \<lbrakk>get_prop (fst p') k = Inr x; 0 < depth (fst p')\<rbrakk> \<Longrightarrow> f x t = f' x t"
  shows "property_parts m f p s = property_parts m' f' p' s'"
proof -
  obtain property last where p: "p' = (property, last)" by (cases p')
  have d: "0 < depth property" if "get_prop property k = Inr (VStr t)" for k t
    using that by (cases property) (auto simp: get_prop_def)
  have "read_type property ''SpreadProperty'' = Inr True \<Longrightarrow> 0 < depth property"
    "read_prop property ''kind'' = Inr (VStr (js ''init'')) \<Longrightarrow> 0 < depth property"
    using d by (auto simp: read_type_def read_prop_def andThen_def split: sum.splits)
  then show ?thesis
    using assms unfolding p property_parts_def by (auto intro!: andThen_cong change_prop_cong)
qed

lemma elements_depth: "\<lbrakk>elements v = Inr xs; x \<in> set xs\<rbrakk> \<Longrightarrow> depth x < depth v"
proof (cases v)
  case (VArr vs)
  assume "elements v = Inr xs" "x \<in> set xs"
  then have "depth x \<le> sum_list (map depth vs)" using VArr by (intro member_le_sum_list) (auto simp: elements_def)
  then show ?thesis using VArr by simp
qed (auto simp: elements_def)

lemma read_elements_depth: "\<lbrakk>read_elements v key = Inr xs; x \<in> set xs\<rbrakk> \<Longrightarrow> depth x < depth v"
proof -
  assume a: "read_elements v key = Inr xs" "x \<in> set xs"
  then obtain y where y: "get_prop v key = Inr y" "elements y = Inr xs"
    by (auto simp: read_elements_def read_prop_def andThen_def split: sum.splits)
  have "depth x < depth y" using elements_depth [OF y(2) a(2)] .
  then show ?thesis using prop_depth [OF y(1)] by auto
qed

subsection \<open>The left side of an assignment\<close>

definition is_restricted :: "jsvalue \<Rightarrow> bool" where
  "is_restricted name = (case name of VStr s \<Rightarrow> isRestrictedWord s | _ \<Rightarrow> False)"

function binding_pattern :: "jsvalue \<Rightarrow> 's \<Rightarrow> (jsvalue \<times> 's) reading" where
  "binding_pattern expr u =
     andThen (read_prop expr ''type'') (\<lambda>type.
       if type = VStr (js ''ObjectExpression'') then
         andThen (read_elements expr ''properties'') (\<lambda>properties.
         andThen (change_all (property_parts InvalidLHSInAssignment binding_pattern) (with_last properties) u) (\<lambda>(ps, u).
           Inr (pattern_of ''ObjectPattern'' ''properties'' ps expr, u)))
       else if type = VStr (js ''ArrayExpression'') then
         andThen (read_elements expr ''elements'') (\<lambda>items.
         andThen (change_all (\<lambda>item u. if truthy_value item then binding_pattern item u else Inr (item, u)) items u) (\<lambda>(xs, u).
           Inr (pattern_of ''ArrayPattern'' ''elements'' xs expr, u)))
       else if type = VStr (js ''Identifier'') then
         andThen (read_prop expr ''name'') (\<lambda>name.
           if is_restricted name then Inl (Some InvalidLHSInAssignment) else Inr (expr, u))
       else if type = VStr (js ''SpreadElement'') then
         andThen (change_prop ''argument'' binding_pattern expr u) (\<lambda>(expr, u).
         andThen (read_prop expr ''argument'') (\<lambda>argument.
         andThen (read_type argument ''ObjectPattern'') (\<lambda>object_pattern.
           if object_pattern then Inl (Some ObjectPatternAsSpread) else Inr (expr, u))))
       else if type = VStr (js ''MemberExpression'') \<or> type = VStr (js ''CallExpression'') \<or> type = VStr (js ''NewExpression'')
         then Inr (expr, u)
       else Inl (Some InvalidLHSInAssignment))"
  by pat_completeness auto
termination
proof (relation "measure (\<lambda>(v, u). depth v)", goal_cases)
  case (2 expr u type properties p s k x t)
  then have "depth (fst p) < depth expr"
    using read_elements_depth with_last_set by (cases p) fastforce
  then show ?case using prop_below [of "fst p" k x] 2 by simp
next
  case (3 expr u type items item t)
  then show ?case using read_elements_depth by fastforce
next
  case (4 expr u type x t)
  then have "0 < depth expr" by (cases expr) (auto simp: read_prop_def get_prop_def)
  then show ?case using prop_below [of expr _ x] 4 by simp
qed simp

declare binding_pattern.simps [simp del]

definition reading :: "'a reading \<Rightarrow> 'a parser" where
  "reading r =
     (case r of
        Inl None \<Rightarrow> (\<lambda>s. Raised PropertyOfUndefined s)
      | Inl (Some m) \<Rightarrow> errorP None m []
      | Inr x \<Rightarrow> doneP x)"

definition reinterpretAsAssignmentBindingPattern :: "jsvalue \<Rightarrow> jsvalue parser" where
  "reinterpretAsAssignmentBindingPattern expr = bindP (reading (binding_pattern expr ())) (\<lambda>(node, _). doneP node)"

subsection \<open>Parameters\<close>

text \<open>
  The object \<^verbatim>\<open>options\<close> that \<^verbatim>\<open>parseParams\<close> fills and returns. What is blamed for an error is a token or a
  node; \<^verbatim>\<open>throwError\<close> takes a position only from a token, so a node is \<open>Some None\<close>. A parameter without a
  default has \<^verbatim>\<open>undefined\<close> or \<^verbatim>\<open>null\<close> in the list of defaults.
\<close>

record params =
  p_params :: "jsvalue list"
  p_defaults :: "jsvalue list"
  p_defaultCount :: nat
  p_rest :: jsvalue
  p_stricted :: "token option option"
  p_firstRestricted :: "token option option"
  p_message :: "message option"
  p_paramSet :: "bool string_map"
  p_returnType :: jsvalue

definition no_params :: params where
  "no_params = \<lparr>p_params = [], p_defaults = [], p_defaultCount = 0, p_rest = VNull, p_stricted = None,
     p_firstRestricted = None, p_message = None, p_paramSet = StringMap, p_returnType = VUndef\<rparr>"

definition is_strict_reserved :: "jsvalue \<Rightarrow> bool" where
  "is_strict_reserved name = (case name of VStr s \<Rightarrow> isStrictModeReservedWord s | _ \<Rightarrow> False)"

definition blame :: "token option \<Rightarrow> message \<Rightarrow> params \<Rightarrow> params" where
  "blame param m options = options\<lparr>p_firstRestricted := Some param, p_message := Some m\<rparr>"

definition validateParam :: "bool \<Rightarrow> token option \<Rightarrow> jsvalue \<Rightarrow> params \<Rightarrow> params" where
  "validateParam isStrict param name options =
     (let seen = StringMap_has (p_paramSet options) (to_key name);
          options =
            (if isStrict then
               (let options = (if is_restricted name
                       then options\<lparr>p_stricted := Some param, p_message := Some StrictParamName\<rparr> else options)
                in if seen then options\<lparr>p_stricted := Some param, p_message := Some StrictParamDupe\<rparr> else options)
             else if p_firstRestricted options = None then
               (if is_restricted name then blame param StrictParamName options
                else if is_strict_reserved name then blame param StrictReservedWord options
                else if seen then blame param StrictParamDupe options
                else options)
             else options)
      in options\<lparr>p_paramSet := StringMap_set (p_paramSet options) (to_key name) True\<rparr>)"

function destructured_parameter :: "bool \<Rightarrow> jsvalue \<Rightarrow> params \<Rightarrow> (jsvalue \<times> params) reading" where
  "destructured_parameter isStrict expr options =
     andThen (read_prop expr ''type'') (\<lambda>type.
       if type = VStr (js ''ObjectExpression'') then
         andThen (read_elements expr ''properties'') (\<lambda>properties.
         andThen (change_all (property_parts InvalidLHSInFormalsList (destructured_parameter isStrict)) (with_last properties) options)
           (\<lambda>(ps, options). Inr (pattern_of ''ObjectPattern'' ''properties'' ps expr, options)))
       else if type = VStr (js ''ArrayExpression'') then
         andThen (read_elements expr ''elements'') (\<lambda>items.
         andThen (change_all (\<lambda>item options.
                    if truthy_value item then destructured_parameter isStrict item options else Inr (item, options)) items options)
           (\<lambda>(xs, options). Inr (pattern_of ''ArrayPattern'' ''elements'' xs expr, options)))
       else if type = VStr (js ''Identifier'') then
         andThen (read_prop expr ''name'') (\<lambda>name. Inr (expr, validateParam isStrict None name options))
       else if type = VStr (js ''SpreadElement'') then
         andThen (read_prop expr ''argument'') (\<lambda>argument.
         andThen (read_type argument ''Identifier'') (\<lambda>identifier.
           if \<not> identifier then Inl (Some InvalidLHSInFormalsList)
           else andThen (read_prop argument ''name'') (\<lambda>name. Inr (expr, validateParam isStrict None name options))))
       else Inl (Some InvalidLHSInFormalsList))"
  by pat_completeness auto
termination
proof (relation "measure (\<lambda>(isStrict, v, options). depth v)", goal_cases)
  case (2 isStrict expr options type properties p s k x t)
  then have "depth (fst p) < depth expr"
    using read_elements_depth with_last_set by (cases p) fastforce
  then show ?case using prop_below [of "fst p" k x] 2 by simp
next
  case (3 isStrict expr options type items item t)
  then show ?case using read_elements_depth by fastforce
qed simp

declare destructured_parameter.simps [simp del]

definition reinterpretAsDestructuredParameter :: "params \<Rightarrow> jsvalue \<Rightarrow> (jsvalue \<times> params) parser" where
  "reinterpretAsDestructuredParameter options expr =
     bindP strictP (\<lambda>strict. reading (destructured_parameter strict expr options))"

text \<open>One expression of a list in parentheses; \<open>None\<close> when it cannot be a parameter.\<close>

definition cover_formal :: "bool \<Rightarrow> jsvalue \<Rightarrow> params \<Rightarrow> params option parser" where
  "cover_formal isLast param options =
     bindP strictP (\<lambda>strict.
     bindP (propP param ''type'') (\<lambda>type.
       if type = VStr (js ''Identifier'') then
         bindP (propP param ''name'') (\<lambda>name.
           doneP (Some (validateParam strict None name
             (options\<lparr>p_params := p_params options @ [param], p_defaults := p_defaults options @ [VNull]\<rparr>))))
       else if type = VStr (js ''ObjectExpression'') \<or> type = VStr (js ''ArrayExpression'') then
         bindP (reinterpretAsDestructuredParameter options param) (\<lambda>(param, options).
           doneP (Some (options\<lparr>p_params := p_params options @ [param], p_defaults := p_defaults options @ [VNull]\<rparr>)))
       else if type = VStr (js ''SpreadElement'') then
         thenP (whenP (\<not> isLast)
                  (raiseP (Assertion (js ''ASSERT: It is guaranteed that SpreadElement is last element by parseExpression''))))
           (bindP (propP param ''argument'') (\<lambda>argument.
            bindP (typeP argument ''Identifier'') (\<lambda>identifier.
            thenP (whenP (\<not> identifier) (errorP None InvalidLHSInFormalsList []))
              (bindP (reinterpretAsDestructuredParameter options argument) (\<lambda>(argument, options).
                 doneP (Some (options\<lparr>p_rest := argument\<rparr>)))))))
       else if type = VStr (js ''AssignmentExpression'') then
         bindP (propP param ''left'') (\<lambda>left.
         bindP (propP param ''right'') (\<lambda>right.
         bindP (propP left ''name'') (\<lambda>name.
           doneP (Some (validateParam strict None name
             (options\<lparr>p_params := p_params options @ [left], p_defaults := p_defaults options @ [right],
               p_defaultCount := p_defaultCount options + 1\<rparr>))))))
       else doneP None))"

fun cover_formals :: "(jsvalue \<times> bool) list \<Rightarrow> params \<Rightarrow> params option parser" where
  "cover_formals [] options = doneP (Some options)"
| "cover_formals ((param, isLast) # ps) options =
     bindP (cover_formal isLast param options) (\<lambda>r.
       case r of None \<Rightarrow> doneP None | Some options \<Rightarrow> cover_formals ps options)"

definition blamed :: "token option option \<Rightarrow> token option" where
  "blamed b = (case b of None \<Rightarrow> None | Some t \<Rightarrow> t)"

definition reinterpretAsCoverFormalsList :: "jsvalue list \<Rightarrow> params option parser" where
  "reinterpretAsCoverFormalsList expressions =
     bindP (cover_formals (with_last expressions) no_params) (\<lambda>r.
       case r of
         None \<Rightarrow> doneP None
       | Some options \<Rightarrow>
           bindP strictP (\<lambda>strict.
           thenP (whenP (p_message options = Some StrictParamDupe)
                    (errorP (blamed (if strict then p_stricted options else p_firstRestricted options)) StrictParamDupe []))
             (doneP (Some (if p_defaultCount options = 0 then options\<lparr>p_defaults := []\<rparr> else options)))))"

end
