(* ===== verification/EsParseFunctions.thy ===== *)
theory EsParseFunctions
  imports EsParsePatterns
begin

text \<open>
  Productions for parameters, functions, methods and classes.
\<close>

subsection \<open>Parameters\<close>

text \<open>
  A pattern as a parameter or as the name in a declaration: its type annotation becomes a property of
  it, and the marker is applied again.
\<close>

definition annotated_pattern :: "grammar \<Rightarrow> marker option \<Rightarrow> jsvalue \<Rightarrow> jsvalue parser" where
  "annotated_pattern G marker node =
     ifP (matchP '':'')
       (bindP (parseTypeAnnotation G) (\<lambda>type. markerApply marker (set_prop ''typeAnnotation'' type node)))
       (doneP node)"

text \<open>The parameter itself, up to its default value; \<open>token\<close> is the one that is validated.\<close>

definition parameter_target :: "grammar \<Rightarrow> bool \<Rightarrow> token \<Rightarrow> params \<Rightarrow> (jsvalue \<times> params) parser" where
  "parameter_target G isRest token options =
     ifP (matchP ''['')
       (bindP markerP (\<lambda>marker.
        bindP (r_arrayInitialiser G) (\<lambda>param.
        bindP (reinterpretAsDestructuredParameter options param) (\<lambda>(param, options).
        bindP (annotated_pattern G marker param) (\<lambda>param. doneP (param, options))))))
    (ifP (matchP ''{'')
       (bindP markerP (\<lambda>marker.
        thenP (whenP isRest (errorP None ObjectPatternAsRestParameter []))
       (bindP (r_objectInitialiser G) (\<lambda>param.
        bindP (reinterpretAsDestructuredParameter options param) (\<lambda>(param, options).
        bindP (annotated_pattern G marker param) (\<lambda>param. doneP (param, options)))))))
       (bindP (parseTypeAnnotatableIdentifier G False (\<not> isRest)) (\<lambda>param.
        bindP strictP (\<lambda>strict.
          doneP (param, validateParam strict (Some token) (value_of G token) options)))))"

text \<open>
  \<^verbatim>\<open>parseParam\<close>: whether more parameters follow. The token of a rest parameter is the one that \<^verbatim>\<open>lex\<close>
  returns, the dots.
\<close>

definition parseParam :: "grammar \<Rightarrow> params \<Rightarrow> (bool \<times> params) parser" where
  "parseParam G options =
     bindP lookaheadP (\<lambda>token.
     bindP (if has_value ''...'' token then bindP (lexP G) (\<lambda>token. doneP (True, token)) else doneP (False, token))
       (\<lambda>(isRest, token).
     bindP (parameter_target G isRest token options) (\<lambda>(param, options).
     bindP (ifP (matchP ''='')
              (bindP lookaheadP (\<lambda>next.
               thenP (whenP isRest (tolerantP (Some next) DefaultRestParameter))
              (thenP (skipP G)
                 (bindP (r_assignment G) (\<lambda>def.
                    doneP (def, options\<lparr>p_defaultCount := p_defaultCount options + 1\<rparr>))))))
              (doneP (VUndef, options))) (\<lambda>(def, options).
       if isRest then
         thenP (ifP (matchP '')'') (doneP ()) (errorP None ParameterAfterRestParameter []))
           (doneP (False, options\<lparr>p_rest := param\<rparr>))
       else
         bindP (matchP '')'') (\<lambda>closes.
           doneP (\<not> closes, options\<lparr>p_params := p_params options @ [param], p_defaults := p_defaults options @ [def]\<rparr>))))))"

definition parseParams :: "grammar \<Rightarrow> token option \<Rightarrow> params parser" where
  "parseParams G firstRestricted =
     thenP markerP
    (thenP (expectP G ''('')
       (bindP (ifP (matchP '')'') (doneP (no_params\<lparr>p_firstRestricted := map_option Some firstRestricted\<rparr>))
                (rounds G (\<lambda>options.
                   ifP moreP
                     (bindP (parseParam G options) (\<lambda>(more, options).
                        if more then thenP (expectP G '','') (doneP (Inl options)) else doneP (Inr options)))
                     (doneP (Inr options))) (no_params\<lparr>p_firstRestricted := map_option Some firstRestricted\<rparr>))) (\<lambda>options.
        thenP (expectP G '')'')
          (ifP (matchP '':'')
            (bindP (parseTypeAnnotation G) (\<lambda>type.
               doneP ((if p_defaultCount options = 0 then options\<lparr>p_defaults := []\<rparr> else options)\<lparr>p_returnType := type\<rparr>)))
            (doneP (if p_defaultCount options = 0 then options\<lparr>p_defaults := []\<rparr> else options))))))"

subsection \<open>Bodies\<close>

definition parseConciseBody :: "grammar \<Rightarrow> jsvalue parser" where
  "parseConciseBody G = ifP (matchP ''{'') (r_functionBody G) (r_assignment G)"

text \<open>A body inside a generator or an asynchronous function; both flags are restored behind it.\<close>

definition in_function :: "bool \<Rightarrow> bool \<Rightarrow> 'a parser \<Rightarrow> ('a \<Rightarrow> unit parser) \<Rightarrow> 'a parser" where
  "in_function gen isAsync body check =
     scoped (In_function gen isAsync) (bindP body (\<lambda>x. thenP (check x) (doneP x)))"

text \<open>The options of \<^verbatim>\<open>parsePropertyFunction\<close>.\<close>

record property_function =
  pf_params :: "jsvalue list"
  pf_defaults :: "jsvalue list"
  pf_rest :: jsvalue
  pf_name :: "token option"
  pf_generator :: bool
  pf_async :: bool
  pf_returnType :: jsvalue
  pf_typeParameters :: jsvalue

definition plain_function :: property_function where
  "plain_function = \<lparr>pf_params = [], pf_defaults = [], pf_rest = VNull, pf_name = None, pf_generator = False,
     pf_async = False, pf_returnType = VUndef, pf_typeParameters = VUndef\<rparr>"

definition parsePropertyFunction :: "grammar \<Rightarrow> property_function \<Rightarrow> jsvalue parser" where
  "parsePropertyFunction G options =
     bindP markerP (\<lambda>marker.
     bindP (in_function (pf_generator options) (pf_async options) (parseConciseBody G) (\<lambda>body.
        bindP strictP (\<lambda>strict.
          if pf_name options \<noteq> None \<and> strict then
            bindP (propP (case pf_params options of [] \<Rightarrow> VUndef | p # ps \<Rightarrow> p) ''name'') (\<lambda>name.
              whenP (is_restricted name) (tolerantP (pf_name options) StrictParamName))
          else doneP ()))) (\<lambda>body.
     bindP (typeP body ''BlockStatement'') (\<lambda>block.
       finishP marker (createFunctionExpression VNull (VArr (pf_params options)) (VArr (pf_defaults options)) body
         (if truthy_value (pf_rest options) then pf_rest options else VNull) (pf_generator options) (\<not> block)
         (pf_async options) (pf_returnType options) (pf_typeParameters options)))))"

text \<open>Errors that only strict code has, reported for what was found before it was known to be strict.\<close>

definition report_stricted :: "params \<Rightarrow> message option \<Rightarrow> unit parser" where
  "report_stricted options m =
     (case (p_stricted options, m) of
        (Some t, Some m) \<Rightarrow> tolerantP t m
      | _ \<Rightarrow> doneP ())"

definition parsePropertyMethodFunction :: "grammar \<Rightarrow> bool \<Rightarrow> bool \<Rightarrow> jsvalue \<Rightarrow> jsvalue parser" where
  "parsePropertyMethodFunction G gen isAsync typeParameters =
     bindP strictP (\<lambda>previousStrict.
     thenP (setStrictP True)
       (bindP (parseParams G None) (\<lambda>tmp.
        thenP (report_stricted tmp (p_message tmp))
          (bindP (parsePropertyFunction G \<lparr>pf_params = p_params tmp, pf_defaults = p_defaults tmp, pf_rest = p_rest tmp,
                    pf_name = None, pf_generator = gen, pf_async = isAsync, pf_returnType = p_returnType tmp,
                    pf_typeParameters = typeParameters\<rparr>) (\<lambda>method.
           thenP (setStrictP previousStrict) (doneP method))))))"

subsection \<open>Functions\<close>

text \<open>
  The name of a function in strict code must not be restricted; in other code the token is kept, for the
  case that the body turns out to be strict.
\<close>

definition check_function_name :: "token \<Rightarrow> (token option \<times> message option) parser" where
  "check_function_name token =
     bindP strictP (\<lambda>strict.
       let name = value_text (tok_value token)
       in if strict then
            thenP (whenP (isRestrictedWord name) (tolerantP (Some token) StrictFunctionName)) (doneP (None, None))
          else if isRestrictedWord name then doneP (Some token, Some StrictFunctionName)
          else if isStrictModeReservedWord name then doneP (Some token, Some StrictReservedWord)
          else doneP (None, None))"

text \<open>Parameters and body, with the errors of strict code.\<close>

definition function_rest :: "grammar \<Rightarrow> bool \<Rightarrow> bool \<Rightarrow> token option \<Rightarrow> message option \<Rightarrow> (params \<times> jsvalue) parser" where
  "function_rest G gen isAsync firstRestricted m =
     bindP (parseParams G firstRestricted) (\<lambda>tmp.
       let m = (if p_message tmp \<noteq> None then p_message tmp else m)
       in bindP (in_function gen isAsync (r_functionBody G) (\<lambda>body.
            bindP strictP (\<lambda>strict.
            thenP (case (p_firstRestricted tmp, m) of
                     (Some t, Some m) \<Rightarrow> whenP strict (errorP t m [])
                   | _ \<Rightarrow> doneP ())
              (whenP strict (report_stricted tmp m))))) (\<lambda>body.
          doneP (tmp, body)))"

definition optional_async :: "grammar \<Rightarrow> bool parser" where
  "optional_async G = bindP (matchAsyncP G) (\<lambda>isAsync. thenP (whenP isAsync (skipP G)) (doneP isAsync))"

definition optional_star :: "grammar \<Rightarrow> bool parser" where
  "optional_star G = bindP (matchP ''*'') (\<lambda>gen. thenP (whenP gen (skipP G)) (doneP gen))"

definition parseFunctionDeclaration :: "grammar \<Rightarrow> jsvalue parser" where
  "parseFunctionDeclaration G =
     bindP markerP (\<lambda>marker.
     bindP (optional_async G) (\<lambda>isAsync.
     thenP (expectKeywordP G ''function'')
       (bindP (optional_star G) (\<lambda>gen.
        bindP lookaheadP (\<lambda>token.
        bindP (parseVariableIdentifier G) (\<lambda>ident.
        bindP (optional_declaration G VUndef) (\<lambda>typeParameters.
        bindP (check_function_name token) (\<lambda>(firstRestricted, m).
        bindP (function_rest G gen isAsync firstRestricted m) (\<lambda>(tmp, body).
          finishP marker (createFunctionDeclaration ident (VArr (p_params tmp)) (VArr (p_defaults tmp)) body (p_rest tmp)
            gen False isAsync (p_returnType tmp) typeParameters))))))))))"

definition parseFunctionExpression :: "grammar \<Rightarrow> jsvalue parser" where
  "parseFunctionExpression G =
     bindP markerP (\<lambda>marker.
     bindP (optional_async G) (\<lambda>isAsync.
     thenP (expectKeywordP G ''function'')
       (bindP (optional_star G) (\<lambda>gen.
        bindP (ifP (matchP ''('') (doneP (VNull, None, None, VUndef))
                (bindP (ifP (matchP ''<'') (doneP (VNull, None, None))
                         (bindP lookaheadP (\<lambda>token.
                          bindP (parseVariableIdentifier G) (\<lambda>ident.
                          bindP (check_function_name token) (\<lambda>(firstRestricted, m). doneP (ident, firstRestricted, m))))))
                   (\<lambda>(ident, firstRestricted, m).
                 bindP (optional_declaration G VUndef) (\<lambda>typeParameters.
                   doneP (ident, firstRestricted, m, typeParameters))))) (\<lambda>(ident, firstRestricted, m, typeParameters).
        bindP (function_rest G gen isAsync firstRestricted m) (\<lambda>(tmp, body).
          finishP marker (createFunctionExpression ident (VArr (p_params tmp)) (VArr (p_defaults tmp)) body (p_rest tmp)
            gen False isAsync (p_returnType tmp) typeParameters)))))))"

definition parseArrowFunctionExpression :: "grammar \<Rightarrow> params \<Rightarrow> bool \<Rightarrow> marker option \<Rightarrow> jsvalue parser" where
  "parseArrowFunctionExpression G options isAsync marker =
     thenP (expectP G ''=>'')
       (bindP (in_function False isAsync (parseConciseBody G) (\<lambda>body.
          bindP strictP (\<lambda>strict.
          thenP (case (p_firstRestricted options, p_message options) of
                   (Some t, Some m) \<Rightarrow> whenP strict (errorP t m [])
                 | _ \<Rightarrow> doneP ())
            (whenP strict (report_stricted options (p_message options)))))) (\<lambda>body.
        bindP (typeP body ''BlockStatement'') (\<lambda>block.
          finishP marker (createArrowFunctionExpression (VArr (p_params options)) (VArr (p_defaults options)) body
            (p_rest options) (\<not> block) isAsync))))"

definition parseYieldExpression :: "grammar \<Rightarrow> jsvalue parser" where
  "parseYieldExpression G =
     bindP markerP (\<lambda>marker.
     bindP strictP (\<lambda>strict.
     thenP (liftP (expectKeyword (engine_of G) (js ''yield'') (\<not> strict)))
       (bindP (optional_star G) (\<lambda>delegateFlag.
        bindP (r_assignment G) (\<lambda>expr.
          finishP marker (createYieldExpression expr (VBool delegateFlag)))))))"

definition parseAwaitExpression :: "grammar \<Rightarrow> jsvalue parser" where
  "parseAwaitExpression G =
     bindP markerP (\<lambda>marker.
     thenP (expectContextualP G ''await'')
       (bindP (r_assignment G) (\<lambda>expr. finishP marker (createAwaitExpression expr))))"

definition matchAsyncFuncExprOrDecl :: "grammar \<Rightarrow> bool parser" where
  "matchAsyncFuncExprOrDecl G =
     ifP (matchAsyncP G)
       (bindP (lookahead2P G) (\<lambda>token. doneP (is_token Keyword (js ''function'') token)))
       (doneP False)"

subsection \<open>Classes\<close>

definition getFieldName :: "jsvalue \<Rightarrow> jsvalue parser" where
  "getFieldName key =
     bindP (typeP key ''Identifier'') (\<lambda>identifier.
       if identifier then propP key ''name''
       else bindP (propP key ''value'') (\<lambda>v. doneP (VStr (to_key v))))"

definition specialMethod :: "jsvalue \<Rightarrow> bool parser" where
  "specialMethod methodDefinition =
     bindP (propP methodDefinition ''kind'') (\<lambda>kind.
       if kind = VStr (js ''get'') \<or> kind = VStr (js ''set'') then doneP True
       else bindP (propP methodDefinition ''value'') (\<lambda>value.
            bindP (propP value ''generator'') (\<lambda>gen. doneP (truthy_value gen))))"

text \<open>The parts of an accessor behind its name, for classes and object literals.\<close>

definition optional_annotation :: "grammar \<Rightarrow> jsvalue parser" where
  "optional_annotation G = ifP (matchP '':'') (parseTypeAnnotation G) (doneP VUndef)"

definition getter_function :: "grammar \<Rightarrow> jsvalue parser" where
  "getter_function G =
     thenP (expectP G ''('')
    (thenP (expectP G '')'')
       (bindP (optional_annotation G) (\<lambda>returnType.
          parsePropertyFunction G (plain_function\<lparr>pf_returnType := returnType\<rparr>))))"

definition setter_function :: "grammar \<Rightarrow> jsvalue parser" where
  "setter_function G =
     thenP (expectP G ''('')
       (bindP lookaheadP (\<lambda>token.
        bindP (parseTypeAnnotatableIdentifier G False False) (\<lambda>param.
        thenP (expectP G '')'')
          (bindP (optional_annotation G) (\<lambda>returnType.
             parsePropertyFunction G
               (plain_function\<lparr>pf_params := [param], pf_name := Some token, pf_returnType := returnType\<rparr>))))))"

definition method_node :: "bool \<Rightarrow> bool \<Rightarrow> string \<Rightarrow> jsvalue \<Rightarrow> jsvalue \<Rightarrow> jsvalue parser" where
  "method_node isStatic computed kind key value =
     newP (createMethodDefinition (VStr (js (if isStatic then ''static'' else ''prototype''))) (VStr (js kind)) key value
       (VBool computed))"

definition parseMethodDefinition :: "grammar \<Rightarrow> jsvalue \<Rightarrow> bool \<Rightarrow> bool \<Rightarrow> bool \<Rightarrow> jsvalue parser" where
  "parseMethodDefinition G key isStatic gen computed =
     (if gen then bindP (parsePropertyMethodFunction G True False VUndef) (method_node isStatic computed [] key)
      else
        bindP (typeP key ''Identifier'') (\<lambda>identifier.
        bindP (propP key ''name'') (\<lambda>name.
        bindP (matchP ''('') (\<lambda>opens.
          if identifier \<and> name = VStr (js ''get'') \<and> \<not> opens then
            bindP (parseObjectPropertyKey G) (\<lambda>key.
            bindP (getter_function G) (method_node isStatic computed ''get'' key))
          else if identifier \<and> name = VStr (js ''set'') \<and> \<not> opens then
            bindP (parseObjectPropertyKey G) (\<lambda>key.
            bindP (setter_function G) (method_node isStatic computed ''set'' key))
          else
            bindP (optional_declaration G VUndef) (\<lambda>typeParameters.
            bindP (matchP ''('') (\<lambda>opens.
              let isAsync = (identifier \<and> name = VStr (js ''async'') \<and> \<not> opens)
              in bindP (if isAsync then parseObjectPropertyKey G else doneP key) (\<lambda>key.
                 bindP (parsePropertyMethodFunction G False isAsync typeParameters) (method_node isStatic computed [] key))))))))"

definition parseClassProperty :: "grammar \<Rightarrow> jsvalue \<Rightarrow> bool \<Rightarrow> bool \<Rightarrow> jsvalue parser" where
  "parseClassProperty G key computed isStatic =
     bindP (parseTypeAnnotation G) (\<lambda>typeAnnotation.
     thenP (expectP G '';'')
       (newP (createClassProperty key typeAnnotation (VBool computed) (VBool isStatic))))"

text \<open>\<^verbatim>\<open>parseClassElement\<close>: \<^verbatim>\<open>undefined\<close> for a semicolon.\<close>

definition parseClassElement :: "grammar \<Rightarrow> jsvalue parser" where
  "parseClassElement G =
     bindP markerP (\<lambda>marker.
     ifP (matchP '';'') (thenP (skipP G) (doneP VUndef))
       (bindP lookaheadP (\<lambda>next.
        thenP (whenP (has_value ''static'' next) (skipP G))
       (bindP (optional_star G) (\<lambda>gen.
        bindP (ifP (orP (matchContextualP ''get'') (matchContextualP ''set'')) (lookahead2P G) lookaheadP)
          (\<lambda>possiblyOpenBracketToken.
        let isStatic = has_value ''static'' next; computed = is_punctuator ''['' possiblyOpenBracketToken
        in bindP (parseObjectPropertyKey G) (\<lambda>key.
           bindP lookaheadP (\<lambda>next.
           bindP (if \<not> gen \<and> has_value '':'' next then parseClassProperty G key computed isStatic
                  else parseMethodDefinition G key isStatic gen computed)
             (markerApply marker)))))))))"

text \<open>The check of an element against the ones before; only methods are remembered.\<close>

definition note_element :: "jsvalue \<Rightarrow> bool string_map \<times> bool string_map \<Rightarrow> (bool string_map \<times> bool string_map) parser" where
  "note_element classElement props =
     bindP (propP classElement ''computed'') (\<lambda>computed.
       if truthy_value computed then doneP props
       else
         bindP (bindP (propP classElement ''key'') getFieldName) (\<lambda>propName.
         bindP (propP classElement ''static'') (\<lambda>isStatic.
         bindP (typeP classElement ''MethodDefinition'') (\<lambda>method.
           if propName = VBool False \<or> \<not> method then doneP props
           else
             thenP (if propName = VStr (js ''constructor'') \<and> \<not> truthy_value isStatic then
                      bindP (specialMethod classElement) (\<lambda>special.
                      thenP (whenP special (errorP None IllegalClassConstructorProperty []))
                        (whenP (StringMap_has (snd props) (js ''constructor'')) (errorP None IllegalDuplicateClassProperty [])))
                    else doneP ())
               (doneP (if truthy_value isStatic then (StringMap_set (fst props) (to_key propName) True, snd props)
                       else (fst props, StringMap_set (snd props) (to_key propName) True)))))))"

definition parseClassBody :: "grammar \<Rightarrow> jsvalue parser" where
  "parseClassBody G =
     bindP markerP (\<lambda>marker.
     thenP (expectP G ''{'')
       (bindP (rounds G (\<lambda>(classElements, props).
          ifP (andP moreP (notP (matchP ''}'')))
            (bindP (parseClassElement G) (\<lambda>classElement.
               if classElement = VUndef then doneP (Inl (classElements, props))
               else bindP (note_element classElement props) (\<lambda>props. doneP (Inl (classElements @ [classElement], props)))))
            (doneP (Inr classElements))) ([], StringMap, StringMap)) (\<lambda>classElements.
        thenP (expectP G ''}'') (finishP marker (createClassBody (VArr classElements))))))"

text \<open>A word that is reserved in strict code only: \<^verbatim>\<open>implements\<close>, \<^verbatim>\<open>interface\<close>.\<close>

definition match_strict_word :: "string \<Rightarrow> bool parser" where
  "match_strict_word word = ifP strictP (matchKeywordP word) (matchContextualP word)"

definition expect_strict_word :: "grammar \<Rightarrow> string \<Rightarrow> unit parser" where
  "expect_strict_word G word = ifP strictP (expectKeywordP G word) (expectContextualP G word)"

definition parseClassImplements :: "grammar \<Rightarrow> jsvalue parser" where
  "parseClassImplements G =
     thenP (expect_strict_word G ''implements'')
       (bindP (rounds G (\<lambda>implemented.
          ifP moreP
            (bindP markerP (\<lambda>marker.
             bindP (parseVariableIdentifier G) (\<lambda>ident.
             bindP (optional_instantiation G VNull) (\<lambda>typeParameters.
             bindP (finishP marker (createClassImplements ident typeParameters)) (\<lambda>x.
             ifP (matchP '','') (thenP (expectP G '','') (doneP (Inl (implemented @ [x]))))
               (doneP (Inr (implemented @ [x]))))))))
            (doneP (Inr implemented))) []) (\<lambda>implemented. doneP (VArr implemented)))"

text \<open>What follows the name of a class.\<close>

definition class_rest :: "grammar \<Rightarrow> marker option \<Rightarrow>
    (jsvalue \<Rightarrow> jsvalue \<Rightarrow> jsvalue \<Rightarrow> jsvalue \<Rightarrow> jsvalue \<Rightarrow> jsvalue \<Rightarrow> nat \<Rightarrow> jsvalue) \<Rightarrow> jsvalue \<Rightarrow> jsvalue parser" where
  "class_rest G marker node ident =
     bindP (optional_declaration G VUndef) (\<lambda>typeParameters.
     bindP (ifP (matchKeywordP ''extends'')
              (thenP (expectKeywordP G ''extends'')
                (scoped In_superclass
                   (bindP (r_leftHandSideAllowCall G) (\<lambda>superClass.
                    bindP (optional_instantiation G VUndef) (\<lambda>superTypeParameters.
                      doneP (superClass, superTypeParameters))))))
              (doneP (VNull, VUndef))) (\<lambda>(superClass, superTypeParameters).
     bindP (ifP (match_strict_word ''implements'') (parseClassImplements G) (doneP VUndef)) (\<lambda>implemented.
     bindP (parseClassBody G) (\<lambda>body.
       finishP marker (node ident superClass body typeParameters superTypeParameters implemented)))))"

definition parseClassExpression :: "grammar \<Rightarrow> jsvalue parser" where
  "parseClassExpression G =
     bindP markerP (\<lambda>marker.
     thenP (expectKeywordP G ''class'')
       (bindP (match_strict_word ''implements'') (\<lambda>matchImplements.
        bindP (ifP (andP (notP (matchKeywordP ''extends'')) (andP (doneP (\<not> matchImplements)) (notP (matchP ''{''))))
                 (parseVariableIdentifier G) (doneP VUndef)) (\<lambda>ident.
          class_rest G marker createClassExpression ident))))"

definition parseClassDeclaration :: "grammar \<Rightarrow> jsvalue parser" where
  "parseClassDeclaration G =
     bindP markerP (\<lambda>marker.
     thenP (expectKeywordP G ''class'')
       (bindP (parseVariableIdentifier G) (\<lambda>ident. class_rest G marker createClassDeclaration ident)))"

end
