(* ===== verification/EsParseExpr.thy ===== *)
theory EsParseExpr
  imports EsParseFunctions
begin

text \<open>
  Productions for expressions: array and object literals, templates, primary expressions, members and
  calls, unary and binary operators, and assignments with the arrow functions that start like them.
\<close>

subsection \<open>Lists of expressions\<close>

definition parseSpreadOrAssignmentExpression :: "grammar \<Rightarrow> jsvalue parser" where
  "parseSpreadOrAssignmentExpression G =
     ifP (matchP ''...'')
       (bindP markerP (\<lambda>marker.
        thenP (skipP G) (bindP (r_assignment G) (\<lambda>argument. finishP marker (createSpreadElement argument)))))
       (r_assignment G)"

definition parseArguments :: "grammar \<Rightarrow> jsvalue parser" where
  "parseArguments G =
     thenP (expectP G ''('')
       (bindP (ifP (matchP '')'') (doneP [])
                (rounds G (\<lambda>args.
                   ifP moreP
                     (bindP (parseSpreadOrAssignmentExpression G) (\<lambda>arg.
                      ifP (matchP '')'') (doneP (Inr (args @ [arg])))
                        (bindP (typeP arg ''SpreadElement'') (\<lambda>spread.
                         thenP (whenP spread (errorP None ElementAfterSpreadElement []))
                        (thenP (expectP G '','') (doneP (Inl (args @ [arg]))))))))
                     (doneP (Inr args))) [])) (\<lambda>args.
        thenP (expectP G '')'') (doneP (VArr args))))"

text \<open>The variables of the loop of \<^verbatim>\<open>parseArrayInitialiser\<close>.\<close>

record array_parts =
  ar_elements :: "jsvalue list"
  ar_blocks :: "jsvalue list"
  ar_filter :: jsvalue
  ar_comprehension :: bool

definition lookahead_is :: "token_type \<Rightarrow> string \<Rightarrow> bool parser" where
  "lookahead_is type v = bindP lookaheadP (\<lambda>token. doneP (is_token type (js v) token))"

text \<open>A \<^verbatim>\<open>for\<close> of a comprehension: the statement is turned into a block of the comprehension.\<close>

definition comprehension_block :: "grammar \<Rightarrow> array_parts \<Rightarrow> array_parts parser" where
  "comprehension_block G a =
     thenP (whenP (\<not> ar_comprehension a) (errorP None ComprehensionError []))
       (bindP (r_for G True) (\<lambda>tmp.
        bindP (typeP tmp ''ForOfStatement'') (\<lambda>isOf.
        let tmp = set_prop ''type'' (VStr (js ''ComprehensionBlock'')) (set_prop ''of'' (VBool isOf) tmp)
        in bindP (bindP (propP tmp ''left'') (\<lambda>left. propP left ''kind'')) (\<lambda>kind.
           thenP (whenP (truthy_value kind) (errorP None ComprehensionError []))
             (doneP (a\<lparr>ar_blocks := ar_blocks a @ [tmp]\<rparr>))))))"

definition comprehension_filter :: "grammar \<Rightarrow> array_parts \<Rightarrow> array_parts parser" where
  "comprehension_filter G a =
     thenP (whenP (\<not> ar_comprehension a) (errorP None ComprehensionError []))
    (thenP (expectKeywordP G ''if'')
    (thenP (expectP G ''('')
       (bindP (r_expression G) (\<lambda>cond.
        thenP (expectP G '')'') (doneP (a\<lparr>ar_filter := cond\<rparr>))))))"

definition array_element :: "grammar \<Rightarrow> array_parts \<Rightarrow> array_parts parser" where
  "array_element G a =
     bindP (parseSpreadOrAssignmentExpression G) (\<lambda>tmp.
     let a = a\<lparr>ar_elements := ar_elements a @ [tmp]\<rparr>
     in bindP (if truthy_value tmp then typeP tmp ''SpreadElement'' else doneP False) (\<lambda>spread.
        if spread then
          thenP (ifP (matchP '']'') (doneP ()) (errorP None ElementAfterSpreadElement [])) (doneP a)
        else
          ifP (orP (matchP '']'') (orP (matchKeywordP ''for'') (matchKeywordP ''if'')))
            (doneP a)
            (thenP (expectP G '','') (doneP (a\<lparr>ar_comprehension := False\<rparr>)))))"

definition array_round :: "grammar \<Rightarrow> array_parts \<Rightarrow> (array_parts + array_parts) parser" where
  "array_round G a =
     ifP (matchP '']'') (doneP (Inr a))
       (bindP (ifP (lookahead_is Keyword ''for'') (comprehension_block G a)
                (ifP (lookahead_is Keyword ''if'') (comprehension_filter G a)
                  (ifP (lookahead_is Punctuator '','')
                    (thenP (skipP G) (doneP (a\<lparr>ar_comprehension := False, ar_elements := ar_elements a @ [VNull]\<rparr>)))
                    (array_element G a)))) (\<lambda>a. doneP (Inl a)))"

definition parseArrayInitialiser :: "grammar \<Rightarrow> jsvalue parser" where
  "parseArrayInitialiser G =
     bindP markerP (\<lambda>marker.
     thenP (expectP G ''['')
       (bindP (rounds G (array_round G) \<lparr>ar_elements = [], ar_blocks = [], ar_filter = VNull, ar_comprehension = True\<rparr>) (\<lambda>a.
        thenP (expectP G '']'')
       (thenP (whenP (truthy_value (ar_filter a) \<and> ar_blocks a = []) (errorP None ComprehensionRequiresBlock []))
          (if ar_blocks a \<noteq> [] then
             thenP (whenP (length (ar_elements a) \<noteq> 1) (errorP None ComprehensionError []))
               (finishP marker (createComprehensionExpression (ar_filter a) (VArr (ar_blocks a))
                 (case ar_elements a of [] \<Rightarrow> VUndef | x # xs \<Rightarrow> x)))
           else finishP marker (createArrayExpression (VArr (ar_elements a))))))))"

subsection \<open>Object literals\<close>

text \<open>A property: its kind, key and value, and the flags for a method, a shorthand and a computed key.\<close>

definition property_node :: "marker option \<Rightarrow> string \<Rightarrow> jsvalue \<Rightarrow> bool \<Rightarrow> bool \<Rightarrow> bool \<Rightarrow> jsvalue \<Rightarrow> jsvalue parser" where
  "property_node marker kind key method shorthand computed value =
     finishP marker (createProperty (VStr (js kind)) key value (VBool method) (VBool shorthand) (VBool computed))"

text \<open>\<^verbatim>\<open>lookahead.value === '['\<close>, whatever the type of the token.\<close>

definition accessor_key :: "grammar \<Rightarrow> (bool \<times> jsvalue) parser" where
  "accessor_key G =
     bindP lookaheadP (\<lambda>next.
     bindP (parseObjectPropertyKey G) (\<lambda>key. doneP (has_value ''['' next, key)))"

text \<open>A property that starts with an identifier, a computed key or \<^verbatim>\<open>async\<close>; \<open>token\<close> is its first token.\<close>

definition named_property :: "grammar \<Rightarrow> marker option \<Rightarrow> token \<Rightarrow> bool \<Rightarrow> jsvalue parser" where
  "named_property G marker token computed =
     bindP (parseObjectPropertyKey G) (\<lambda>ident.
     ifP (matchP '':'')
       (thenP (skipP G) (bindP (r_assignment G) (property_node marker ''init'' ident False False computed)))
    (ifP (orP (matchP ''('') (matchP ''<''))
       (bindP (optional_declaration G VUndef) (\<lambda>typeParameters.
        bindP (parsePropertyMethodFunction G False False typeParameters) (property_node marker ''init'' ident True False computed)))
    (if has_value ''get'' token then
       bindP (accessor_key G) (\<lambda>(computed, key).
       bindP (getter_function G) (property_node marker ''get'' key False False computed))
     else if has_value ''set'' token then
       bindP (accessor_key G) (\<lambda>(computed, key).
       bindP (setter_function G) (property_node marker ''set'' key False False computed))
     else if has_value ''async'' token then
       bindP (accessor_key G) (\<lambda>(computed, key).
       bindP (optional_declaration G VUndef) (\<lambda>typeParameters.
       bindP (parsePropertyMethodFunction G False True typeParameters) (property_node marker ''init'' key True False computed)))
     else
       thenP (whenP computed (bindP lookaheadP unexpectedP))
         (property_node marker ''init'' ident False True False ident))))"

text \<open>A generator method: a star, which is the only punctuator a property may start with here.\<close>

definition generator_property :: "grammar \<Rightarrow> marker option \<Rightarrow> token \<Rightarrow> jsvalue parser" where
  "generator_property G marker token =
     thenP (ifP (matchP ''*'') (doneP ()) (unexpectedP token))
    (thenP (skipP G)
       (bindP (lookahead_is Punctuator ''['') (\<lambda>computed.
        bindP (parseObjectPropertyKey G) (\<lambda>ident.
        bindP (optional_declaration G VUndef) (\<lambda>typeParameters.
        thenP (ifP (matchP ''('') (doneP ()) (bindP (lexP G) unexpectedP))
          (bindP (parsePropertyMethodFunction G True False typeParameters)
            (property_node marker ''init'' ident True False computed)))))))"

definition literal_property :: "grammar \<Rightarrow> marker option \<Rightarrow> jsvalue parser" where
  "literal_property G marker =
     bindP (parseObjectPropertyKey G) (\<lambda>key.
     ifP (matchP '':'')
       (thenP (skipP G) (bindP (r_assignment G) (property_node marker ''init'' key False False False)))
    (ifP (orP (matchP ''('') (matchP ''<''))
       (bindP (optional_declaration G VUndef) (\<lambda>typeParameters.
        bindP (parsePropertyMethodFunction G False False typeParameters) (property_node marker ''init'' key True False False)))
       (thenP (bindP (lexP G) unexpectedP) (doneP VUndef))))"

definition parseObjectProperty :: "grammar \<Rightarrow> jsvalue parser" where
  "parseObjectProperty G =
     bindP markerP (\<lambda>marker.
     bindP lookaheadP (\<lambda>token.
     let computed = is_punctuator ''['' token
     in ifP (orP (doneP (tok_type token = Identifier \<or> computed)) (matchAsyncP G))
          (named_property G marker token computed)
          (if tok_type token = EOF \<or> tok_type token = Punctuator then generator_property G marker token
           else literal_property G marker)))"

definition parseObjectSpreadProperty :: "grammar \<Rightarrow> jsvalue parser" where
  "parseObjectSpreadProperty G =
     bindP markerP (\<lambda>marker.
     thenP (expectP G ''...'')
       (bindP (r_assignment G) (\<lambda>argument. finishP marker (createSpreadProperty argument))))"

text \<open>\<^verbatim>\<open>PropertyKind\<close>: \<^verbatim>\<open>Data\<close> is 1, \<^verbatim>\<open>Get\<close> 2 and \<^verbatim>\<open>Set\<close> 4; the map has the kinds seen for a name, joined by \<^verbatim>\<open>|\<close>.\<close>

definition property_kind :: "jsvalue \<Rightarrow> int" where
  "property_kind kind = (if kind = VStr (js ''init'') then 1 else if kind = VStr (js ''get'') then 2 else 4)"

definition property_clash :: "bool \<Rightarrow> int \<Rightarrow> int \<Rightarrow> message option" where
  "property_clash isStrict storedKind kind =
     (if storedKind = 1 then
        (if isStrict \<and> kind = 1 then Some StrictDuplicateProperty
         else if kind \<noteq> 1 then Some AccessorDataProperty else None)
      else if kind = 1 then Some AccessorDataProperty
      else if js_and storedKind kind \<noteq> 0 then Some AccessorGetSet
      else None)"

definition note_property :: "jsvalue \<Rightarrow> int string_map \<Rightarrow> int string_map parser" where
  "note_property property m =
     bindP (propP property ''key'') (\<lambda>key.
     bindP (getFieldName key) (\<lambda>name.
     bindP (propP property ''kind'') (\<lambda>kind.
     let kind = property_kind kind; name = to_key name
     in case StringMap_get m name of
          None \<Rightarrow> doneP (StringMap_set m name kind)
        | Some storedKind \<Rightarrow>
            bindP strictP (\<lambda>strict.
            thenP (case property_clash strict storedKind kind of None \<Rightarrow> doneP () | Some e \<Rightarrow> tolerantP None e)
              (doneP (StringMap_set m name (js_or storedKind kind)))))))"

definition object_round ::
    "grammar \<Rightarrow> jsvalue list \<times> int string_map \<Rightarrow> (jsvalue list \<times> int string_map + jsvalue list) parser" where
  "object_round G = (\<lambda>(properties, m).
     ifP (matchP ''}'') (doneP (Inr properties))
       (bindP (ifP (matchP ''...'')
                (bindP (parseObjectSpreadProperty G) (\<lambda>property. doneP (property, m)))
                (bindP (parseObjectProperty G) (\<lambda>property.
                 bindP (note_property property m) (\<lambda>m. doneP (property, m))))) (\<lambda>(property, m).
        thenP (ifP (matchP ''}'') (doneP ()) (expectP G '',''))
          (doneP (Inl (properties @ [property], m))))))"

definition parseObjectInitialiser :: "grammar \<Rightarrow> jsvalue parser" where
  "parseObjectInitialiser G =
     bindP markerP (\<lambda>marker.
     thenP (expectP G ''{'')
       (bindP (rounds G (object_round G) ([], StringMap)) (\<lambda>properties.
        thenP (expectP G ''}'') (finishP marker (createObjectExpression (VArr properties))))))"

subsection \<open>Templates and primary expressions\<close>

definition parseTemplateElement :: "grammar \<Rightarrow> bool \<Rightarrow> jsvalue parser" where
  "parseTemplateElement G head =
     bindP markerP (\<lambda>marker.
     bindP (liftP (scanTemplateElement (engine_of G) head)) (\<lambda>token.
     bindP strictP (\<lambda>strict.
     thenP (whenP (strict \<and> tok_octal token) (errorP (Some token) StrictOctalLiteral []))
       (case tok_value token of
          Quasi cooked raw \<Rightarrow>
            finishP marker (createTemplateElement (plain_object [(''raw'', VStr raw), (''cooked'', VStr cooked)])
              (VBool (tok_tail token)))
        | _ \<Rightarrow>
            finishP marker (createTemplateElement (plain_object [(''raw'', VUndef), (''cooked'', VUndef)])
              (VBool (tok_tail token)))))))"

definition template_round ::
    "grammar \<Rightarrow> jsvalue list \<times> jsvalue list \<Rightarrow> (jsvalue list \<times> jsvalue list + jsvalue list \<times> jsvalue list) parser" where
  "template_round G = (\<lambda>(quasis, expressions).
     bindP (propP (last quasis) ''tail'') (\<lambda>tail.
       if truthy_value tail then doneP (Inr (quasis, expressions))
       else
         bindP (r_expression G) (\<lambda>expression.
         bindP (parseTemplateElement G False) (\<lambda>quasi.
           doneP (Inl (quasis @ [quasi], expressions @ [expression]))))))"

definition parseTemplateLiteral :: "grammar \<Rightarrow> jsvalue parser" where
  "parseTemplateLiteral G =
     bindP markerP (\<lambda>marker.
     bindP (parseTemplateElement G True) (\<lambda>quasi.
     bindP (rounds G (template_round G) ([quasi], [])) (\<lambda>(quasis, expressions).
       finishP marker (createTemplateLiteral (VArr quasis) (VArr expressions)))))"

definition parseGroupExpression :: "grammar \<Rightarrow> jsvalue parser" where
  "parseGroupExpression G =
     thenP (expectP G ''('')
    (thenP (setP (\<lambda>s. s\<lparr>parenthesizedCount := parenthesizedCount s + 1\<rparr>))
       (bindP markerP (\<lambda>marker.
        bindP (r_expression G) (\<lambda>expr.
        bindP (ifP (matchP '':'')
                 (bindP (parseTypeAnnotation G) (\<lambda>typeAnnotation. finishP marker (createTypeCast expr typeAnnotation)))
                 (doneP expr)) (\<lambda>expr.
        thenP (expectP G '')'') (doneP expr))))))"

text \<open>A regular expression: \<^verbatim>\<open>scanRegExp\<close> gives an object with the fields a literal is made of.\<close>

definition regexp_literal :: "grammar \<Rightarrow> jsvalue parser" where
  "regexp_literal G =
     bindP markerP (\<lambda>marker.
     bindP (liftP (call_scanRegExp (engine_of G))) (\<lambda>r.
     let (v, rx, range) = (case r of RegLiteral literal v rx rg \<Rightarrow> (v, Some rx, rg) | RegToken t \<Rightarrow> (tok_value t, tok_regex t, tok_range t))
     in bindP (getP (\<lambda>s. raw_text (source (scn s)) range)) (\<lambda>raw.
        bindP (newP (createLiteral (token_value (numberValue (host G)) v) raw rx)) (\<lambda>expr.
        thenP (peekP G) (markerApply marker expr)))))"

text \<open>A literal that is one token, with the value the tree gets.\<close>

definition token_literal :: "grammar \<Rightarrow> (token \<Rightarrow> jsvalue) \<Rightarrow> jsvalue parser" where
  "token_literal G value =
     bindP markerP (\<lambda>marker.
     bindP (lexP G) (\<lambda>token.
     bindP (literalP (value token) token) (finishP marker)))"

text \<open>An expression that begins with a keyword; \<open>other\<close> where it is another one.\<close>

definition keyword_expression :: "grammar \<Rightarrow> jsvalue parser \<Rightarrow> jsvalue parser" where
  "keyword_expression G other =
     ifP (matchKeywordP ''this'')
       (bindP markerP (\<lambda>marker. thenP (skipP G) (finishP marker createThisExpression)))
    (ifP (matchKeywordP ''function'') (parseFunctionExpression G)
    (ifP (matchKeywordP ''class'') (parseClassExpression G)
    (ifP (matchKeywordP ''super'')
       (bindP markerP (\<lambda>marker. thenP (skipP G) (finishP marker (createIdentifier (VStr (js ''super''))))))
       other)))"

definition bracket_expression :: "grammar \<Rightarrow> token \<Rightarrow> jsvalue parser" where
  "bracket_expression G next =
     ifP (matchP ''['') (parseArrayInitialiser G)
    (ifP (matchP ''{'') (parseObjectInitialiser G)
    (ifP (matchP ''('') (parseGroupExpression G)
    (ifP (orP (matchP ''/'') (matchP ''/='')) (regexp_literal G)
    (if tok_type next = Template then parseTemplateLiteral G
     else ifP (matchP ''<'') (r_jsxElement G)
       (thenP (bindP (lexP G) unexpectedP) (doneP VUndef))))))"

definition parsePrimaryExpression :: "grammar \<Rightarrow> jsvalue parser" where
  "parsePrimaryExpression G =
     bindP lookaheadP (\<lambda>next.
       if tok_type next = Identifier then
         bindP markerP (\<lambda>marker. bindP (lexP G) (\<lambda>token. finishP marker (createIdentifier (value_of G token))))
       else if tok_type next = StringLiteral \<or> tok_type next = NumericLiteral then
         bindP strictP (\<lambda>strict.
         thenP (whenP (strict \<and> tok_octal next) (tolerantP (Some next) StrictOctalLiteral))
           (token_literal G (value_of G)))
       else if tok_type next = Keyword then
         keyword_expression G (bracket_expression G next)
       else if tok_type next = BooleanLiteral then token_literal G (\<lambda>token. VBool (has_value ''true'' token))
       else if tok_type next = NullLiteral then token_literal G (\<lambda>token. VNull)
       else bracket_expression G next)"

subsection \<open>Members and calls\<close>

definition parseNonComputedMember :: "grammar \<Rightarrow> jsvalue parser" where
  "parseNonComputedMember G = thenP (expectP G ''.'') (parseNonComputedProperty G)"

definition parseComputedMember :: "grammar \<Rightarrow> jsvalue parser" where
  "parseComputedMember G =
     thenP (expectP G ''['') (bindP (r_expression G) (\<lambda>expr. thenP (expectP G '']'') (doneP expr)))"

definition parseNewExpression :: "grammar \<Rightarrow> jsvalue parser" where
  "parseNewExpression G =
     bindP markerP (\<lambda>marker.
     thenP (expectKeywordP G ''new'')
       (bindP (r_leftHandSide G) (\<lambda>callee.
        bindP (ifP (matchP ''('') (parseArguments G) (doneP (VArr []))) (\<lambda>args.
          finishP marker (createNewExpression callee args)))))"

text \<open>One round of the loops over members; the second one, \<open>calls\<close>, also takes arguments.\<close>

definition member_round :: "grammar \<Rightarrow> bool \<Rightarrow> marker option \<Rightarrow> jsvalue \<Rightarrow> (jsvalue + jsvalue) parser" where
  "member_round G calls marker expr =
     ifP (andP (doneP calls) (matchP ''(''))
       (bindP (parseArguments G) (\<lambda>args.
        bindP (finishP marker (createCallExpression expr args)) (\<lambda>x. doneP (Inl x))))
    (ifP (matchP ''['')
       (bindP (parseComputedMember G) (\<lambda>property.
        bindP (finishP marker (createMemberExpression (VStr (js ''['')) expr property)) (\<lambda>x. doneP (Inl x))))
    (ifP (matchP ''.'')
       (bindP (parseNonComputedMember G) (\<lambda>property.
        bindP (finishP marker (createMemberExpression (VStr (js ''.'')) expr property)) (\<lambda>x. doneP (Inl x))))
       (bindP lookaheadP (\<lambda>next.
          if tok_type next = Template then
            bindP (parseTemplateLiteral G) (\<lambda>quasi.
            bindP (finishP marker (createTaggedTemplateExpression expr quasi)) (\<lambda>x. doneP (Inl x)))
          else doneP (Inr expr)))))"

definition new_or_primary :: "grammar \<Rightarrow> jsvalue parser" where
  "new_or_primary G = ifP (matchKeywordP ''new'') (parseNewExpression G) (parsePrimaryExpression G)"

definition parseLeftHandSideExpressionAllowCall :: "grammar \<Rightarrow> jsvalue parser" where
  "parseLeftHandSideExpressionAllowCall G =
     bindP markerP (\<lambda>marker. bindP (new_or_primary G) (rounds G (member_round G True marker)))"

definition parseLeftHandSideExpression :: "grammar \<Rightarrow> jsvalue parser" where
  "parseLeftHandSideExpression G =
     bindP markerP (\<lambda>marker. bindP (new_or_primary G) (rounds G (member_round G False marker)))"

subsection \<open>Unary operators\<close>

definition isLeftHandSide :: "jsvalue \<Rightarrow> bool parser" where
  "isLeftHandSide expr = orP (typeP expr ''Identifier'') (typeP expr ''MemberExpression'')"

definition isAssignableLeftHandSide :: "jsvalue \<Rightarrow> bool parser" where
  "isAssignableLeftHandSide expr =
     orP (isLeftHandSide expr) (orP (typeP expr ''ObjectPattern'') (typeP expr ''ArrayPattern''))"

text \<open>In strict code \<^verbatim>\<open>eval\<close> and \<^verbatim>\<open>arguments\<close> must not be changed.\<close>

definition restricted_target :: "jsvalue \<Rightarrow> bool parser" where
  "restricted_target expr =
     andP strictP (andP (typeP expr ''Identifier'') (bindP (propP expr ''name'') (\<lambda>name. doneP (is_restricted name))))"

definition update_target :: "message \<Rightarrow> jsvalue \<Rightarrow> unit parser" where
  "update_target m expr =
     thenP (ifP (restricted_target expr) (tolerantP None m) (doneP ()))
       (ifP (isLeftHandSide expr) (doneP ()) (errorP None InvalidLHSInAssignment []))"

definition parsePostfixExpression :: "grammar \<Rightarrow> jsvalue parser" where
  "parsePostfixExpression G =
     bindP markerP (\<lambda>marker.
     bindP (parseLeftHandSideExpressionAllowCall G) (\<lambda>expr.
     bindP lookaheadP (\<lambda>next.
       if tok_type next \<noteq> Punctuator then doneP expr
       else
         ifP (andP (orP (matchP ''++'') (matchP ''--'')) (notP peekLineTerminatorP))
           (thenP (update_target StrictLHSPostfix expr)
             (bindP (lexP G) (\<lambda>token. finishP marker (createPostfixExpression (value_of G token) expr))))
           (doneP expr))))"

definition parseUnaryExpression :: "grammar \<Rightarrow> jsvalue parser" where
  "parseUnaryExpression G =
     bindP lookaheadP (\<lambda>next.
       if tok_type next \<noteq> Punctuator \<and> tok_type next \<noteq> Keyword then parsePostfixExpression G
       else
         ifP (orP (matchP ''++'') (matchP ''--''))
           (bindP markerP (\<lambda>marker.
            bindP (lexP G) (\<lambda>token.
            bindP (r_unary G) (\<lambda>expr.
            thenP (update_target StrictLHSPrefix expr)
              (finishP marker (createUnaryExpression (value_of G token) expr))))))
        (ifP (orP (matchP ''+'') (orP (matchP ''-'') (orP (matchP ''~'') (matchP ''!''))))
           (bindP markerP (\<lambda>marker.
            bindP (lexP G) (\<lambda>token.
            bindP (r_unary G) (\<lambda>expr. finishP marker (createUnaryExpression (value_of G token) expr)))))
        (ifP (orP (matchKeywordP ''delete'') (orP (matchKeywordP ''void'') (matchKeywordP ''typeof'')))
           (bindP markerP (\<lambda>marker.
            bindP (lexP G) (\<lambda>token.
            bindP (r_unary G) (\<lambda>argument.
            bindP (finishP marker (createUnaryExpression (value_of G token) argument)) (\<lambda>expr.
            thenP (ifP (andP strictP (andP (doneP (has_value ''delete'' token)) (typeP argument ''Identifier'')))
                     (tolerantP None StrictDelete) (doneP ()))
              (doneP expr))))))
           (parsePostfixExpression G))))"

end
