(* ===== verification/EsParseOperators.thy ===== *)
theory EsParseOperators
  imports EsParseExpr
begin

text \<open>
  Productions for binary operators (by precedence, with a stack), conditional expressions, assignments,
  arrow functions and sequences.
\<close>

subsection \<open>Binary operators\<close>

definition precedences :: "(string list \<times> nat) list" where
  "precedences =
     [([''||''], 1), ([''&&''], 2), ([''|''], 3), ([''^''], 4), ([''&''], 5),
      ([''=='', ''!='', ''==='', ''!==''], 6), ([''<'', ''>'', ''<='', ''>='', ''instanceof''], 7),
      ([''<<'', ''>>'', ''>>>''], 8), ([''+'', ''-''], 9), ([''*'', ''/'', ''%''], 11)]"

definition binaryPrecedence :: "token \<Rightarrow> bool \<Rightarrow> nat" where
  "binaryPrecedence token allow_in =
     (if tok_type token \<noteq> Punctuator \<and> tok_type token \<noteq> Keyword then 0
      else if has_value ''in'' token then (if allow_in then 7 else 0)
      else case find (\<lambda>(ops, prec). list_ex (\<lambda>op. has_value op token) ops) precedences of
             None \<Rightarrow> 0
           | Some (ops, prec) \<Rightarrow> prec)"

text \<open>
  The stack, from the top: an operand with its marker, and below it the operators, each with its
  precedence and the operand on its left. (In the code operands, operators and markers are in two
  arrays.)
\<close>

type_synonym operand = "jsvalue \<times> marker option"
type_synonym operator = "jsvalue \<times> nat"

definition combine :: "operator \<Rightarrow> operand \<Rightarrow> operand \<Rightarrow> operand parser" where
  "combine operator left right =
     bindP (finishP (snd left) (createBinaryExpression (fst operator) (fst left) (fst right))) (\<lambda>expr.
       doneP (expr, snd left))"

text \<open>Operators on the stack that bind at least as tightly as the next one are applied.\<close>

fun reduce_stack :: "nat \<Rightarrow> operand \<Rightarrow> (operator \<times> operand) list \<Rightarrow> (operand \<times> (operator \<times> operand) list) parser" where
  "reduce_stack prec right [] = doneP (right, [])"
| "reduce_stack prec right ((operator, left) # stack) =
     (if prec \<le> snd operator then
        bindP (combine operator left right) (\<lambda>expr. reduce_stack prec expr stack)
      else doneP (right, (operator, left) # stack))"

text \<open>At the end all operators are applied, from the top.\<close>

fun apply_stack :: "operand \<Rightarrow> (operator \<times> operand) list \<Rightarrow> operand parser" where
  "apply_stack right [] = doneP right"
| "apply_stack right ((operator, left) # stack) =
     bindP (combine operator left right) (\<lambda>expr. apply_stack expr stack)"

text \<open>An operator and the operand behind it are read.\<close>

definition read_operand :: "grammar \<Rightarrow> (jsvalue \<times> operand) parser" where
  "read_operand G =
     bindP (lexP G) (\<lambda>token.
     bindP markerP (\<lambda>marker.
     bindP (r_unary G) (\<lambda>expr. doneP (value_of G token, expr, marker))))"

definition binary_round ::
    "grammar \<Rightarrow> bool \<Rightarrow> operand \<times> (operator \<times> operand) list \<Rightarrow>
      (operand \<times> (operator \<times> operand) list + operand \<times> (operator \<times> operand) list) parser" where
  "binary_round G allow_in = (\<lambda>(right, stack).
     bindP lookaheadP (\<lambda>next.
       let prec = binaryPrecedence next allow_in
       in if prec = 0 then doneP (Inr (right, stack))
          else
            bindP (reduce_stack prec right stack) (\<lambda>(left, stack).
            bindP (read_operand G) (\<lambda>(operator, expr).
              doneP (Inl (expr, ((operator, prec), left) # stack))))))"

text \<open>
  \<^verbatim>\<open>allowIn\<close> is restored at the end, but not where the function returns early because no operator
  follows the first operand.
\<close>

definition parseBinaryExpression :: "grammar \<Rightarrow> jsvalue parser" where
  "parseBinaryExpression G =
     bindP (getP allowIn) (\<lambda>previousAllowIn.
     thenP (setP (\<lambda>s. s\<lparr>allowIn := True\<rparr>))
       (bindP markerP (\<lambda>marker.
        bindP (parseUnaryExpression G) (\<lambda>left.
        bindP lookaheadP (\<lambda>token.
        let prec = binaryPrecedence token previousAllowIn
        in if prec = 0 then doneP left
           else
             bindP (read_operand G) (\<lambda>(operator, right).
             bindP (rounds G (binary_round G previousAllowIn) (right, [((operator, prec), (left, marker))])) (\<lambda>(right, stack).
             thenP (setP (\<lambda>s. s\<lparr>allowIn := previousAllowIn\<rparr>))
               (bindP (apply_stack right stack) (\<lambda>expr. doneP (fst expr))))))))))"

subsection \<open>Conditional expressions and assignments\<close>

definition parseConditionalExpression :: "grammar \<Rightarrow> jsvalue parser" where
  "parseConditionalExpression G =
     bindP markerP (\<lambda>marker.
     bindP (parseBinaryExpression G) (\<lambda>expr.
     ifP (matchP ''?'')
       (thenP (skipP G)
         (bindP (getP allowIn) (\<lambda>previousAllowIn.
          thenP (setP (\<lambda>s. s\<lparr>allowIn := True\<rparr>))
            (bindP (r_assignment G) (\<lambda>consequent.
             thenP (setP (\<lambda>s. s\<lparr>allowIn := previousAllowIn\<rparr>))
            (thenP (expectP G '':'')
               (bindP (r_assignment G) (\<lambda>alternate.
                  finishP marker (createConditionalExpression expr consequent alternate)))))))))
       (doneP expr)))"

text \<open>The parameters that an expression before an arrow stands for; \<open>None\<close> when it cannot be any.\<close>

definition arrow_params :: "grammar \<Rightarrow> bool \<Rightarrow> jsvalue \<Rightarrow> params option parser" where
  "arrow_params G startsWithParen expr =
     bindP (propP expr ''type'') (\<lambda>type.
       if type = VStr (js ''Identifier'') then reinterpretAsCoverFormalsList [expr]
       else if type = VStr (js ''AssignmentExpression'') \<or> type = VStr (js ''ArrayExpression'') \<or> type = VStr (js ''ObjectExpression'')
         then thenP (whenP (\<not> startsWithParen) (bindP (lexP G) unexpectedP)) (reinterpretAsCoverFormalsList [expr])
       else if type = VStr (js ''SequenceExpression'') then
         bindP (bindP (propP expr ''expressions'') (\<lambda>es. valueP (elements es))) reinterpretAsCoverFormalsList
       else doneP None)"

text \<open>An assignment operator behind an expression; \<open>token\<close> is the first token of the expression.\<close>

definition assignment_rest :: "grammar \<Rightarrow> marker option \<Rightarrow> token \<Rightarrow> jsvalue \<Rightarrow> jsvalue parser" where
  "assignment_rest G marker token expr =
     ifP (getP (\<lambda>s. matchAssign (scn s)))
       (thenP (ifP (restricted_target expr) (tolerantP (Some token) StrictLHSAssignment) (doneP ()))
         (bindP (ifP (andP (matchP ''='') (orP (typeP expr ''ObjectExpression'') (typeP expr ''ArrayExpression'')))
                  (reinterpretAsAssignmentBindingPattern expr)
                  (ifP (isLeftHandSide expr) (doneP expr) (errorP None InvalidLHSInAssignment []))) (\<lambda>expr.
          bindP (lexP G) (\<lambda>operator.
          bindP (r_assignment G) (\<lambda>right.
            finishP marker (createAssignmentExpression (value_of G operator) expr right))))))
       (doneP expr)"

text \<open>
  The parts of \<^verbatim>\<open>parseAssignmentExpression\<close>: behind \<^verbatim>\<open>async\<close> (which may turn out to be a name) and the
  check for parameters that cannot be an expression.
\<close>

definition assignment_expression :: "grammar \<Rightarrow> marker option \<Rightarrow> token \<Rightarrow> nat \<Rightarrow> bool \<Rightarrow> bool \<Rightarrow> jsvalue parser" where
  "assignment_expression G marker backtrackToken oldParenthesizedCount possiblyAsync startsWithParen =
     bindP lookaheadP (\<lambda>token.
     bindP (andP (doneP possiblyAsync) (andP (notP (matchP ''('')) (doneP (tok_type token \<noteq> Identifier)))) (\<lambda>not_async.
     thenP (whenP not_async (rewindP backtrackToken))
       (let possiblyAsync = (possiblyAsync \<and> \<not> not_async)
        in bindP (parseConditionalExpression G) (\<lambda>expr.
           bindP (ifP (andP (matchP ''=>'') (getP (\<lambda>s. parenthesizedCount s = oldParenthesizedCount
                             \<or> parenthesizedCount s = oldParenthesizedCount + 1)))
                   (arrow_params G startsWithParen expr) (doneP None)) (\<lambda>ps.
             case ps of
               Some params \<Rightarrow> parseArrowFunctionExpression G params possiblyAsync marker
             | None \<Rightarrow>
                 bindP (if possiblyAsync then thenP (rewindP backtrackToken) (parseConditionalExpression G) else doneP expr)
                   (assignment_rest G marker token))))))"

definition arrow_or_assignment :: "grammar \<Rightarrow> marker option \<Rightarrow> token \<Rightarrow> nat \<Rightarrow> bool \<Rightarrow> jsvalue parser" where
  "arrow_or_assignment G marker backtrackToken oldParenthesizedCount possiblyAsync =
     ifP (matchP ''('')
       (bindP (lookahead2P G) (\<lambda>token.
          if is_punctuator '')'' token \<or> has_value ''...'' token then
            bindP (parseParams G None) (\<lambda>params.
            thenP (ifP (matchP ''=>'') (doneP ()) (bindP (lexP G) unexpectedP))
              (parseArrowFunctionExpression G params possiblyAsync marker))
          else assignment_expression G marker backtrackToken oldParenthesizedCount possiblyAsync True))
       (assignment_expression G marker backtrackToken oldParenthesizedCount possiblyAsync False)"

definition parseAssignmentExpression :: "grammar \<Rightarrow> jsvalue parser" where
  "parseAssignmentExpression G =
     bindP lookaheadP (\<lambda>backtrackToken.
     ifP (getP (\<lambda>s. matchYield (yieldAllowed s) (scn s))) (parseYieldExpression G)
    (ifP (getP (\<lambda>s. matchAwait (awaitAllowed s) (scn s))) (parseAwaitExpression G)
       (bindP (getP parenthesizedCount) (\<lambda>oldParenthesizedCount.
        bindP markerP (\<lambda>marker.
        ifP (matchAsyncFuncExprOrDecl G) (parseFunctionExpression G)
          (bindP (optional_async G) (arrow_or_assignment G marker backtrackToken oldParenthesizedCount)))))))"

subsection \<open>Sequences\<close>

definition sequence_round :: "grammar \<Rightarrow> jsvalue list \<Rightarrow> (jsvalue list + jsvalue list \<times> bool) parser" where
  "sequence_round G expressions =
     ifP (andP moreP (matchP '',''))
       (thenP (skipP G)
         (bindP (parseSpreadOrAssignmentExpression G) (\<lambda>expr.
          ifP (typeP expr ''SpreadElement'')
            (thenP (ifP (matchP '')'') (doneP ()) (errorP None ElementAfterSpreadElement []))
              (doneP (Inr (expressions @ [expr], True))))
            (doneP (Inl (expressions @ [expr]))))))
       (doneP (Inr (expressions, False)))"

definition parseExpression :: "grammar \<Rightarrow> jsvalue parser" where
  "parseExpression G =
     bindP markerP (\<lambda>marker.
     bindP (parseAssignmentExpression G) (\<lambda>expr.
     ifP (matchP '','')
       (bindP (rounds G (sequence_round G) [expr]) (\<lambda>(expressions, spreadFound).
        bindP (finishP marker (createSequenceExpression (VArr expressions))) (\<lambda>sequence.
        bindP (if spreadFound then bindP (lookahead2P G) (\<lambda>token. doneP (\<not> has_value ''=>'' token)) else doneP False) (\<lambda>illegal.
        thenP (whenP illegal (errorP None IllegalSpread [])) (doneP sequence)))))
       (doneP expr)))"

end
