(* ===== verification/EsParseJsx.thy ===== *)
theory EsParseJsx
  imports EsParseOperators
begin

text \<open>
  Productions for JSX elements. The scanner's fields \<^verbatim>\<open>inJSXTag\<close> and \<^verbatim>\<open>inJSXChild\<close> say how the next token
  is read, so each production sets them before it consumes the token in front.
\<close>

subsection \<open>Names\<close>

text \<open>
  The name of an element with its namespace or object; \<open>Inl object\<close> when \<open>object\<close> is none of the three
  kinds of name, which \<^verbatim>\<open>throwUnexpected(object)\<close> then reports.
\<close>

function qualified_name :: "jsvalue \<Rightarrow> (jsvalue + jsvalue) res" where
  "qualified_name object =
     bindR (type_is object ''JSXIdentifier'') (\<lambda>isName.
       if isName then bindR (get_prop object ''name'') (\<lambda>name. Inr (Inr name))
       else bindR (type_is object ''JSXNamespacedName'') (\<lambda>isNamespaced.
         if isNamespaced then
           bindR (get_prop object ''namespace'') (\<lambda>ns.
           bindR (get_prop ns ''name'') (\<lambda>space.
           bindR (get_prop object ''name'') (\<lambda>n.
           bindR (get_prop n ''name'') (\<lambda>name.
             Inr (Inr (VStr (to_key space @ js '':'' @ to_key name)))))))
         else bindR (type_is object ''JSXMemberExpression'') (\<lambda>isMember.
           if isMember then
             bindR (get_prop object ''object'') (\<lambda>ob.
             bindR (qualified_name ob) (\<lambda>q. case q of Inl bad \<Rightarrow> Inr (Inl bad) | Inr a \<Rightarrow>
             bindR (get_prop object ''property'') (\<lambda>p.
             bindR (qualified_name p) (\<lambda>q. case q of Inl bad \<Rightarrow> Inr (Inl bad) | Inr b \<Rightarrow>
               Inr (Inr (VStr (to_key a @ js ''.'' @ to_key b)))))))
           else Inr (Inl object))))"
  by pat_completeness auto

termination
  by (relation "measure depth") (auto dest: typed_depth prop_below)

definition getQualifiedJSXName :: "jsvalue \<Rightarrow> jsvalue parser" where
  "getQualifiedJSXName object =
     bindP (valueP (qualified_name object)) (\<lambda>q. case q of
       Inr name \<Rightarrow> doneP name
     | Inl bad \<Rightarrow> bindP (propP bad ''value'') (\<lambda>v. errorP None UnexpectedToken [to_key v]))"

definition parseJSXIdentifier :: "grammar \<Rightarrow> jsvalue parser" where
  "parseJSXIdentifier G =
     bindP markerP (\<lambda>marker.
     bindP lookaheadP (\<lambda>next.
     thenP (whenP (tok_type next \<noteq> JSXIdentifier) (unexpectedP next))
       (bindP (lexP G) (\<lambda>token. finishP marker (createJSXIdentifier (value_of G token))))))"

definition parseJSXNamespacedName :: "grammar \<Rightarrow> jsvalue parser" where
  "parseJSXNamespacedName G =
     bindP markerP (\<lambda>marker.
     bindP (parseJSXIdentifier G) (\<lambda>namespace.
     thenP (expectP G '':'')
       (bindP (parseJSXIdentifier G) (\<lambda>name. finishP marker (createJSXNamespacedName namespace name)))))"

definition jsx_member_round :: "grammar \<Rightarrow> marker option \<Rightarrow> jsvalue \<Rightarrow> (jsvalue + jsvalue) parser" where
  "jsx_member_round G marker expr =
     ifP (matchP ''.'')
       (thenP (skipP G)
         (bindP (parseJSXIdentifier G) (\<lambda>property.
          bindP (finishP marker (createJSXMemberExpression expr property)) (\<lambda>expr. doneP (Inl expr)))))
       (doneP (Inr expr))"

definition parseJSXMemberExpression :: "grammar \<Rightarrow> jsvalue parser" where
  "parseJSXMemberExpression G =
     bindP markerP (\<lambda>marker. bindP (parseJSXIdentifier G) (rounds G (jsx_member_round G marker)))"

definition next_is :: "grammar \<Rightarrow> string \<Rightarrow> bool parser" where
  "next_is G v = bindP (lookahead2P G) (\<lambda>token. doneP (has_value v token))"

definition parseJSXElementName :: "grammar \<Rightarrow> jsvalue parser" where
  "parseJSXElementName G =
     ifP (next_is G '':'') (parseJSXNamespacedName G)
    (ifP (next_is G ''.'') (parseJSXMemberExpression G) (parseJSXIdentifier G))"

definition parseJSXAttributeName :: "grammar \<Rightarrow> jsvalue parser" where
  "parseJSXAttributeName G = ifP (next_is G '':'') (parseJSXNamespacedName G) (parseJSXIdentifier G)"

subsection \<open>Embedded expressions\<close>

definition setJSX :: "bool \<Rightarrow> bool \<Rightarrow> unit parser" where
  "setJSX child tag = setP (\<lambda>s. s\<lparr>scn := (scn s)\<lparr>inJSXChild := child, inJSXTag := tag\<rparr>\<rparr>)"

definition setJSXChild :: "bool \<Rightarrow> unit parser" where
  "setJSXChild child = setP (\<lambda>s. s\<lparr>scn := (scn s)\<lparr>inJSXChild := child\<rparr>\<rparr>)"

definition setJSXTag :: "bool \<Rightarrow> unit parser" where
  "setJSXTag tag = setP (\<lambda>s. s\<lparr>scn := (scn s)\<lparr>inJSXTag := tag\<rparr>\<rparr>)"

text \<open>
  The loop moves the index to the next closing brace, wherever it is; \<^verbatim>\<open>charAt\<close> gives the empty string
  for ever where there is none.
\<close>

definition to_brace :: "unit parser" where
  "to_brace s =
     (let src = source (scn s);
          p = pos (scn s);
          i = index p + length (takeWhile (\<lambda>c. c \<noteq> 125) (drop (index p) src))
      in if i < length src then Parsed () (s\<lparr>scn := (scn s)\<lparr>pos := p\<lparr>index := i\<rparr>\<rparr>\<rparr>) else Diverged)"

definition parseJSXEmptyExpression :: "jsvalue parser" where
  "parseJSXEmptyExpression = bindP markerPreserveP (\<lambda>marker. thenP to_brace (finishP marker createJSXEmptyExpression))"

definition parseJSXExpressionContainer :: "grammar \<Rightarrow> jsvalue parser" where
  "parseJSXExpressionContainer G =
     bindP markerP (\<lambda>marker.
     bindP (getP (inJSXChild \<circ> scn)) (\<lambda>origInJSXChild.
     bindP (getP (inJSXTag \<circ> scn)) (\<lambda>origInJSXTag.
     thenP (setJSX False False)
    (thenP (expectP G ''{'')
       (bindP (ifP (matchP ''}'') parseJSXEmptyExpression (r_expression G)) (\<lambda>expression.
        thenP (setJSX origInJSXChild origInJSXTag)
       (thenP (expectP G ''}'')
          (finishP marker (createJSXExpressionContainer expression)))))))))"

definition parseJSXSpreadAttribute :: "grammar \<Rightarrow> jsvalue parser" where
  "parseJSXSpreadAttribute G =
     bindP markerP (\<lambda>marker.
     bindP (getP (inJSXChild \<circ> scn)) (\<lambda>origInJSXChild.
     bindP (getP (inJSXTag \<circ> scn)) (\<lambda>origInJSXTag.
     thenP (setJSX False False)
    (thenP (expectP G ''{'')
    (thenP (expectP G ''...'')
       (bindP (r_assignment G) (\<lambda>expression.
        thenP (setJSX origInJSXChild origInJSXTag)
       (thenP (expectP G ''}'')
          (finishP marker (createJSXSpreadAttribute expression))))))))))"

subsection \<open>Attributes\<close>

text \<open>A literal of a JSX text, with the marker made before it.\<close>

definition jsx_text_literal :: "grammar \<Rightarrow> marker option \<Rightarrow> jsvalue parser" where
  "jsx_text_literal G marker = bindP (lexP G) (\<lambda>token. bindP (literalP (value_of G token) token) (finishP marker))"

definition looks_like :: "token_type \<Rightarrow> bool parser" where
  "looks_like type = bindP lookaheadP (\<lambda>token. doneP (tok_type token = type))"

definition parseJSXAttributeValue :: "grammar \<Rightarrow> jsvalue parser" where
  "parseJSXAttributeValue G =
     ifP (matchP ''{'')
       (bindP (parseJSXExpressionContainer G) (\<lambda>value.
        bindP (propP value ''expression'') (\<lambda>expression.
        ifP (typeP expression ''JSXEmptyExpression'')
          (errorTextP (js ''JSX attributes must only be assigned a non-empty expression''))
          (doneP value))))
    (ifP (matchP ''<'') (r_jsxElement G)
    (ifP (looks_like JSXText) (bindP markerP (jsx_text_literal G))
       (errorP None InvalidJSXAttributeValue [])))"

definition parseJSXAttribute :: "grammar \<Rightarrow> jsvalue parser" where
  "parseJSXAttribute G =
     ifP (matchP ''{'') (parseJSXSpreadAttribute G)
       (bindP markerP (\<lambda>marker.
        bindP (parseJSXAttributeName G) (\<lambda>name.
        ifP (matchP ''='')
          (thenP (skipP G)
            (bindP (parseJSXAttributeValue G) (\<lambda>value. finishP marker (createJSXAttribute name value))))
          (finishP marker (createJSXAttribute name VUndef)))))"

subsection \<open>Elements\<close>

definition parseJSXChild :: "grammar \<Rightarrow> jsvalue parser" where
  "parseJSXChild G =
     ifP (matchP ''{'') (parseJSXExpressionContainer G)
    (ifP (looks_like JSXText) (bindP markerPreserveP (jsx_text_literal G))
    (ifP (matchP ''<'') (r_jsxElement G)
       (bindP lookaheadP (\<lambda>token. thenP (unexpectedP token) (doneP VUndef)))))"

definition parseJSXClosingElement :: "grammar \<Rightarrow> jsvalue parser" where
  "parseJSXClosingElement G =
     bindP markerP (\<lambda>marker.
     bindP (getP (inJSXChild \<circ> scn)) (\<lambda>origInJSXChild.
     bindP (getP (inJSXTag \<circ> scn)) (\<lambda>origInJSXTag.
     thenP (setJSX False True)
    (thenP (expectP G ''<'')
    (thenP (expectP G ''/'')
       (bindP (parseJSXElementName G) (\<lambda>name.
        thenP (setJSX origInJSXChild origInJSXTag)
       (thenP (expectP G ''>'')
          (finishP marker (createJSXClosingElement name))))))))))"

definition jsx_attribute_round :: "grammar \<Rightarrow> jsvalue list \<Rightarrow> (jsvalue list + jsvalue list) parser" where
  "jsx_attribute_round G attributes =
     ifP (andP moreP (bindP lookaheadP (\<lambda>token. doneP (\<not> has_value ''/'' token \<and> \<not> has_value ''>'' token))))
       (bindP (parseJSXAttribute G) (\<lambda>attribute. doneP (Inl (attributes @ [attribute]))))
       (doneP (Inr attributes))"

definition parseJSXOpeningElement :: "grammar \<Rightarrow> jsvalue parser" where
  "parseJSXOpeningElement G =
     bindP markerP (\<lambda>marker.
     bindP (getP (inJSXChild \<circ> scn)) (\<lambda>origInJSXChild.
     bindP (getP (inJSXTag \<circ> scn)) (\<lambda>origInJSXTag.
     thenP (setJSX False True)
    (thenP (expectP G ''<'')
       (bindP (parseJSXElementName G) (\<lambda>name.
        bindP (rounds G (jsx_attribute_round G) []) (\<lambda>attributes.
        thenP (setJSXTag origInJSXTag)
          (bindP (bindP lookaheadP (\<lambda>token.
                    if has_value ''/'' token then
                      thenP (expectP G ''/'') (thenP (setJSXChild origInJSXChild) (thenP (expectP G ''>'') (doneP True)))
                    else thenP (setJSXChild True) (thenP (expectP G ''>'') (doneP False)))) (\<lambda>selfClosing.
             finishP marker (createJSXOpeningElement name (VArr attributes) (VBool selfClosing)))))))))))"

definition jsx_child_round :: "grammar \<Rightarrow> jsvalue list \<Rightarrow> (jsvalue list + jsvalue list) parser" where
  "jsx_child_round G children =
     ifP moreP
       (thenP (setJSXChild False)
         (ifP (andP (bindP lookaheadP (\<lambda>token. doneP (has_value ''<'' token))) (next_is G ''/''))
           (doneP (Inr children))
           (thenP (setJSXChild True)
             (bindP (parseJSXChild G) (\<lambda>child. doneP (Inl (children @ [child])))))))
       (doneP (Inr children))"

text \<open>The closing tag, which must have the name of the opening one.\<close>

definition jsx_closing :: "grammar \<Rightarrow> jsvalue \<Rightarrow> jsvalue parser" where
  "jsx_closing G openingElement =
     bindP (parseJSXClosingElement G) (\<lambda>closingElement.
     bindP (bindP (propP closingElement ''name'') getQualifiedJSXName) (\<lambda>closed.
     bindP (bindP (propP openingElement ''name'') getQualifiedJSXName) (\<lambda>opened.
       if closed \<noteq> opened then errorP None ExpectedJSXClosingTag [to_key opened] else doneP closingElement)))"

definition parseJSXElement :: "grammar \<Rightarrow> jsvalue parser" where
  "parseJSXElement G =
     bindP markerP (\<lambda>marker.
     bindP (getP (inJSXChild \<circ> scn)) (\<lambda>origInJSXChild.
     bindP (getP (inJSXTag \<circ> scn)) (\<lambda>origInJSXTag.
     bindP (parseJSXOpeningElement G) (\<lambda>openingElement.
     bindP (propP openingElement ''selfClosing'') (\<lambda>selfClosing.
     bindP (if truthy_value selfClosing then doneP (VNull, [])
            else
              bindP (rounds G (jsx_child_round G) []) (\<lambda>children.
              thenP (setJSX origInJSXChild origInJSXTag)
                (bindP (jsx_closing G openingElement) (\<lambda>closingElement. doneP (closingElement, children)))))
       (\<lambda>(closingElement, children).
     thenP (ifP (andP (doneP (\<not> origInJSXChild)) (matchP ''<''))
              (bindP lookaheadP (\<lambda>token. errorP (Some token) AdjacentJSXElements [])) (doneP ()))
       (finishP marker (createJSXElement openingElement closingElement (VArr children)))))))))"

end
