(* ===== verification/EsParseStatements.thy ===== *)
theory EsParseStatements
  imports EsParseJsx
begin

text \<open>
  Productions for statements and function bodies. The flags \<^verbatim>\<open>inIteration\<close>, \<^verbatim>\<open>inSwitch\<close> and
  \<^verbatim>\<open>inFunctionBody\<close> and the set of labels say what a jump may refer to.
\<close>

subsection \<open>Lists of source elements\<close>

text \<open>
  A loop over source elements: it stops where \<open>stops\<close> says so, at the end of the source, and when
  there is no source element.
\<close>

definition element_round :: "bool parser \<Rightarrow> jsvalue parser \<Rightarrow> jsvalue list \<Rightarrow> (jsvalue list + jsvalue list) parser" where
  "element_round stops element_parser es =
     ifP (andP moreP (notP stops))
       (bindP element_parser (\<lambda>e. if e = VUndef then doneP (Inr es) else doneP (Inl (es @ [e]))))
       (doneP (Inr es))"

definition parseStatementList :: "grammar \<Rightarrow> jsvalue list parser" where
  "parseStatementList G = rounds G (element_round (matchP ''}'') (r_sourceElement G)) []"

definition parseBlock :: "grammar \<Rightarrow> jsvalue parser" where
  "parseBlock G =
     bindP markerP (\<lambda>marker.
     thenP (expectP G ''{'')
       (bindP (parseStatementList G) (\<lambda>block.
        thenP (expectP G ''}'') (finishP marker (createBlockStatement (VArr block))))))"

subsection \<open>Variable declarations\<close>

definition binding_target :: "grammar \<Rightarrow> marker option \<Rightarrow> jsvalue parser \<Rightarrow> jsvalue parser" where
  "binding_target G marker pattern =
     bindP (bindP pattern reinterpretAsAssignmentBindingPattern) (annotated_pattern G marker)"

definition parseVariableDeclaration :: "grammar \<Rightarrow> bool \<Rightarrow> jsvalue parser" where
  "parseVariableDeclaration G isConst =
     bindP markerP (\<lambda>marker.
     bindP markerP (\<lambda>typeAnnotationMarker.
     bindP (ifP (matchP ''{'') (binding_target G typeAnnotationMarker (r_objectInitialiser G))
           (ifP (matchP ''['') (binding_target G typeAnnotationMarker (r_arrayInitialiser G))
              (bindP (ifP (getP allowKeyword) (parseNonComputedProperty G) (parseTypeAnnotatableIdentifier G False False)) (\<lambda>ident.
               thenP (ifP (andP strictP (bindP (propP ident ''name'') (\<lambda>name. doneP (is_restricted name))))
                        (tolerantP None StrictVarName) (doneP ()))
                 (doneP ident))))) (\<lambda>ident.
     bindP (if isConst then
              thenP (ifP (matchP ''='') (doneP ()) (errorP None NoUninitializedConst []))
             (thenP (expectP G ''='') (r_assignment G))
            else ifP (matchP ''='') (thenP (skipP G) (r_assignment G)) (doneP VNull)) (\<lambda>init.
       finishP marker (createVariableDeclarator ident init)))))"

definition variable_round :: "grammar \<Rightarrow> bool \<Rightarrow> jsvalue list \<Rightarrow> (jsvalue list + jsvalue list) parser" where
  "variable_round G isConst es =
     bindP (parseVariableDeclaration G isConst) (\<lambda>e.
     ifP (matchP '','')
       (thenP (skipP G) (ifP moreP (doneP (Inl (es @ [e]))) (doneP (Inr (es @ [e])))))
       (doneP (Inr (es @ [e]))))"

definition parseVariableDeclarationList :: "grammar \<Rightarrow> bool \<Rightarrow> jsvalue list parser" where
  "parseVariableDeclarationList G isConst = rounds G (variable_round G isConst) []"

definition parseVariableStatement :: "grammar \<Rightarrow> jsvalue parser" where
  "parseVariableStatement G =
     bindP markerP (\<lambda>marker.
     thenP (expectKeywordP G ''var'')
       (bindP (parseVariableDeclarationList G False) (\<lambda>declarations.
        thenP (consumeSemicolonP G)
          (finishP marker (createVariableDeclaration (VArr declarations) (VStr (js ''var'')))))))"

definition parseConstLetDeclaration :: "grammar \<Rightarrow> string \<Rightarrow> jsvalue parser" where
  "parseConstLetDeclaration G kind =
     bindP markerP (\<lambda>marker.
     thenP (expectKeywordP G kind)
       (bindP (parseVariableDeclarationList G (kind = ''const'')) (\<lambda>declarations.
        thenP (consumeSemicolonP G)
          (finishP marker (createVariableDeclaration (VArr declarations) (VStr (js kind)))))))"

subsection \<open>Simple statements\<close>

definition parseEmptyStatement :: "grammar \<Rightarrow> jsvalue parser" where
  "parseEmptyStatement G = bindP markerP (\<lambda>marker. thenP (expectP G '';'') (finishP marker createEmptyStatement))"

definition parseExpressionStatement :: "grammar \<Rightarrow> jsvalue parser" where
  "parseExpressionStatement G =
     bindP markerP (\<lambda>marker.
     bindP (r_expression G) (\<lambda>expr.
     thenP (consumeSemicolonP G) (finishP marker (createExpressionStatement expr))))"

definition grouped_expression :: "grammar \<Rightarrow> jsvalue parser" where
  "grouped_expression G =
     thenP (expectP G ''('') (bindP (r_expression G) (\<lambda>expr. thenP (expectP G '')'') (doneP expr)))"

definition parseIfStatement :: "grammar \<Rightarrow> jsvalue parser" where
  "parseIfStatement G =
     bindP markerP (\<lambda>marker.
     thenP (expectKeywordP G ''if'')
       (bindP (grouped_expression G) (\<lambda>test.
        bindP (r_statement G) (\<lambda>consequent.
        bindP (ifP (matchKeywordP ''else'') (thenP (skipP G) (r_statement G)) (doneP VNull)) (\<lambda>alternate.
          finishP marker (createIfStatement test consequent alternate))))))"

subsection \<open>Loops\<close>

text \<open>The body of a loop, in which \<^verbatim>\<open>break\<close> and \<^verbatim>\<open>continue\<close> are allowed.\<close>

definition in_iteration :: "'a parser \<Rightarrow> 'a parser" where
  "in_iteration body = scoped In_iteration body"

definition parseDoWhileStatement :: "grammar \<Rightarrow> jsvalue parser" where
  "parseDoWhileStatement G =
     bindP markerP (\<lambda>marker.
     thenP (expectKeywordP G ''do'')
       (bindP (in_iteration (r_statement G)) (\<lambda>body.
        thenP (expectKeywordP G ''while'')
          (bindP (grouped_expression G) (\<lambda>test.
           thenP (ifP (matchP '';'') (skipP G) (doneP ()))
             (finishP marker (createDoWhileStatement body test)))))))"

definition parseWhileStatement :: "grammar \<Rightarrow> jsvalue parser" where
  "parseWhileStatement G =
     bindP markerP (\<lambda>marker.
     thenP (expectKeywordP G ''while'')
       (bindP (grouped_expression G) (\<lambda>test.
        bindP (in_iteration (r_statement G)) (\<lambda>body.
          finishP marker (createWhileStatement test body)))))"

definition parseForVariableDeclaration :: "grammar \<Rightarrow> jsvalue parser" where
  "parseForVariableDeclaration G =
     bindP markerP (\<lambda>marker.
     bindP (lexP G) (\<lambda>token.
     bindP (parseVariableDeclarationList G False) (\<lambda>declarations.
       finishP marker (createVariableDeclaration (VArr declarations) (value_of G token)))))"

text \<open>
  An expression can be \<^verbatim>\<open>undefined\<close> where a reserved word was tolerated; then \<^verbatim>\<open>left\<close> is not set. The head of
  a \<^verbatim>\<open>for\<close> up to \<^verbatim>\<open>in\<close> or \<^verbatim>\<open>of\<close>: \<^verbatim>\<open>init\<close>, and the operator, the left and the right side if
  there is one.
\<close>

type_synonym each_head = "jsvalue \<times> (token \<times> jsvalue \<times> jsvalue) option"

definition without_in :: "'a parser \<Rightarrow> 'a parser" where
  "without_in m =
     thenP (setP (\<lambda>s. s\<lparr>allowIn := False\<rparr>))
       (bindP m (\<lambda>x. thenP (setP (\<lambda>s. s\<lparr>allowIn := True\<rparr>)) (doneP x)))"

definition sole_declaration :: "jsvalue \<Rightarrow> jsvalue option parser" where
  "sole_declaration init =
     bindP (bindP (propP init ''declarations'') (\<lambda>ds. valueP (elements ds))) (\<lambda>ds.
       doneP (case ds of [d] \<Rightarrow> Some d | _ \<Rightarrow> None))"

definition for_declaration :: "grammar \<Rightarrow> each_head parser" where
  "for_declaration G =
     bindP (without_in (parseForVariableDeclaration G)) (\<lambda>init.
     bindP (sole_declaration init) (\<lambda>sole. case sole of
       None \<Rightarrow> doneP (init, None)
     | Some d \<Rightarrow>
         ifP (orP (matchKeywordP ''in'') (matchContextualP ''of''))
           (bindP lookaheadP (\<lambda>operator.
            bindP (propP init ''kind'') (\<lambda>kind.
            bindP (propP d ''init'') (\<lambda>value.
              if \<not> ((has_value ''in'' operator \<or> kind \<noteq> VStr (js ''var'')) \<and> truthy_value value) then
                thenP (skipP G) (bindP (r_expression G) (\<lambda>right. doneP (VNull, Some (operator, init, right))))
              else doneP (init, None)))))
           (doneP (init, None))))"

definition for_expression :: "grammar \<Rightarrow> each_head parser" where
  "for_expression G =
     bindP (without_in (r_expression G)) (\<lambda>init.
     ifP (matchContextualP ''of'')
       (bindP (lexP G) (\<lambda>operator.
        bindP (r_expression G) (\<lambda>right.
          doneP (VNull, if init = VUndef then None else Some (operator, init, right)))))
    (ifP (matchKeywordP ''in'')
       (thenP (ifP (isAssignableLeftHandSide init) (doneP ()) (errorP None InvalidLHSInForIn []))
         (bindP (lexP G) (\<lambda>operator. bindP (r_expression G) (\<lambda>right. doneP (VNull, Some (operator, init, right))))))
       (doneP (init, None))))"

definition for_head :: "grammar \<Rightarrow> each_head parser" where
  "for_head G =
     ifP (matchP '';'') (thenP (skipP G) (doneP (VNull, None)))
       (bindP (ifP (orP (matchKeywordP ''var'') (orP (matchKeywordP ''let'') (matchKeywordP ''const'')))
                (for_declaration G) (for_expression G)) (\<lambda>(init, each).
        thenP (whenP (each = None) (expectP G '';'')) (doneP (init, each))))"

text \<open>\<^verbatim>\<open>test\<close> and \<^verbatim>\<open>update\<close>.\<close>

definition for_rest :: "grammar \<Rightarrow> (jsvalue \<times> jsvalue) parser" where
  "for_rest G =
     bindP (ifP (matchP '';'') (doneP VNull) (r_expression G)) (\<lambda>test.
     thenP (expectP G '';'')
       (bindP (ifP (matchP '')'') (doneP VNull) (r_expression G)) (\<lambda>update. doneP (test, update))))"

definition parseForStatement :: "grammar \<Rightarrow> bool \<Rightarrow> jsvalue parser" where
  "parseForStatement G ignoreBody =
     bindP markerP (\<lambda>marker.
     thenP (expectKeywordP G ''for'')
    (thenP (ifP (matchContextualP ''each'') (errorP None EachNotAllowed []) (doneP ()))
    (thenP (expectP G ''('')
       (bindP (for_head G) (\<lambda>(init, each).
        bindP (if each = None then for_rest G else doneP (VNull, VNull)) (\<lambda>(test, update).
        thenP (expectP G '')'')
          (bindP (in_iteration (if ignoreBody then doneP VUndef else r_statement G)) (\<lambda>body.
             case each of
               None \<Rightarrow> finishP marker (createForStatement init test update body)
             | Some (operator, left, right) \<Rightarrow>
                 if has_value ''in'' operator then finishP marker (createForInStatement left right body)
                 else finishP marker (createForOfStatement left right body)))))))))"

subsection \<open>Jumps\<close>

text \<open>
  \<^verbatim>\<open>parseContinueStatement\<close> and \<^verbatim>\<open>parseBreakStatement\<close> differ in the keyword, in where a jump without a
  label is allowed, in the message and in the node.
\<close>

definition jump_label :: "grammar \<Rightarrow> jsvalue parser" where
  "jump_label G =
     ifP (looks_like Identifier)
       (bindP (parseVariableIdentifier G) (\<lambda>label.
        bindP (propP label ''name'') (\<lambda>name.
        ifP (getP (\<lambda>s. StringMap_has (labelSet s) (to_key name))) (doneP label) (errorP None UnknownLabel [to_key name]))))
       (doneP VNull)"

definition jump_statement ::
    "grammar \<Rightarrow> string \<Rightarrow> (pstate \<Rightarrow> bool) \<Rightarrow> message \<Rightarrow> (jsvalue \<Rightarrow> nat \<Rightarrow> jsvalue) \<Rightarrow> jsvalue parser" where
  "jump_statement G keyword allowed m node =
     bindP markerP (\<lambda>marker.
     thenP (expectKeywordP G keyword)
    (let check = ifP (getP allowed) (doneP ()) (errorP None m [])
     in ifP (getP (\<lambda>s. code_at (source (scn s)) (index (pos (scn s))) = Some 59))
          (thenP (skipP G) (thenP check (finishP marker (node VNull))))
       (ifP peekLineTerminatorP (thenP check (finishP marker (node VNull)))
          (bindP (jump_label G) (\<lambda>label.
           thenP (consumeSemicolonP G)
          (thenP (whenP (label = VNull) check)
             (finishP marker (node label))))))))"

definition parseContinueStatement :: "grammar \<Rightarrow> jsvalue parser" where
  "parseContinueStatement G = jump_statement G ''continue'' inIteration IllegalContinue createContinueStatement"

definition parseBreakStatement :: "grammar \<Rightarrow> jsvalue parser" where
  "parseBreakStatement G =
     jump_statement G ''break'' (\<lambda>s. inIteration s \<or> inSwitch s) IllegalBreak createBreakStatement"

text \<open>The argument of \<^verbatim>\<open>return\<close>, behind a line without one, or up to the end of the statement.\<close>

definition return_argument :: "grammar \<Rightarrow> jsvalue parser" where
  "return_argument G =
     ifP peekLineTerminatorP (doneP VNull)
       (bindP (ifP (orP (matchP '';'') (orP (matchP ''}'') (looks_like EOF))) (doneP VNull) (r_expression G)) (\<lambda>argument.
        thenP (consumeSemicolonP G) (doneP argument)))"

definition parseReturnStatement :: "grammar \<Rightarrow> jsvalue parser" where
  "parseReturnStatement G =
     bindP markerP (\<lambda>marker.
     thenP (expectKeywordP G ''return'')
    (thenP (ifP (getP inFunctionBody) (doneP ()) (tolerantP None IllegalReturn))
       (bindP (ifP (getP (\<lambda>s. let i = index (pos (scn s)); src = source (scn s)
                              in code_at src i = Some 32 \<and> (case code_at src (i + 1) of Some c \<Rightarrow> isIdentifierStart c | None \<Rightarrow> False)))
                (bindP (r_expression G) (\<lambda>argument. thenP (consumeSemicolonP G) (doneP argument)))
                (return_argument G)) (\<lambda>argument.
        finishP marker (createReturnStatement argument)))))"

definition parseThrowStatement :: "grammar \<Rightarrow> jsvalue parser" where
  "parseThrowStatement G =
     bindP markerP (\<lambda>marker.
     thenP (expectKeywordP G ''throw'')
    (thenP (ifP peekLineTerminatorP (errorP None NewlineAfterThrow []) (doneP ()))
       (bindP (r_expression G) (\<lambda>argument.
        thenP (consumeSemicolonP G) (finishP marker (createThrowStatement argument))))))"

definition parseDebuggerStatement :: "grammar \<Rightarrow> jsvalue parser" where
  "parseDebuggerStatement G =
     bindP markerP (\<lambda>marker.
     thenP (expectKeywordP G ''debugger'')
    (thenP (consumeSemicolonP G) (finishP marker createDebuggerStatement)))"

definition parseWithStatement :: "grammar \<Rightarrow> jsvalue parser" where
  "parseWithStatement G =
     bindP markerP (\<lambda>marker.
     thenP (ifP strictP (tolerantP None StrictModeWith) (doneP ()))
    (thenP (expectKeywordP G ''with'')
       (bindP (grouped_expression G) (\<lambda>object.
        bindP (r_statement G) (\<lambda>body. finishP marker (createWithStatement object body))))))"

end
