(* ===== verification/EsParseBlocks.thy ===== *)
theory EsParseBlocks
  imports EsParseStatements
begin

text \<open>
  Statements that hold lists of statements (\<^verbatim>\<open>switch\<close>, \<^verbatim>\<open>try\<close>), labelled statements, the choice among all
  statements, and the bodies of functions.
\<close>

subsection \<open>Switch\<close>

definition parseSwitchCase :: "grammar \<Rightarrow> jsvalue parser" where
  "parseSwitchCase G =
     bindP markerP (\<lambda>marker.
     bindP (ifP (matchKeywordP ''default'') (thenP (skipP G) (doneP VNull))
              (thenP (expectKeywordP G ''case'') (r_expression G))) (\<lambda>test.
     thenP (expectP G '':'')
       (bindP (rounds G (element_round
                 (orP (matchP ''}'') (orP (matchKeywordP ''default'') (matchKeywordP ''case''))) (r_sourceElement G)) [])
          (\<lambda>consequent. finishP marker (createSwitchCase test (VArr consequent))))))"

definition switch_round ::
    "grammar \<Rightarrow> jsvalue list \<times> bool \<Rightarrow> (jsvalue list \<times> bool + jsvalue list) parser" where
  "switch_round G = (\<lambda>(cases, defaultFound).
     ifP (andP moreP (notP (matchP ''}'')))
       (bindP (parseSwitchCase G) (\<lambda>clause.
        bindP (propP clause ''test'') (\<lambda>test.
        thenP (whenP (test = VNull \<and> defaultFound) (errorP None MultipleDefaultsInSwitch []))
          (doneP (Inl (cases @ [clause], defaultFound \<or> test = VNull))))))
       (doneP (Inr cases)))"

definition parseSwitchStatement :: "grammar \<Rightarrow> jsvalue parser" where
  "parseSwitchStatement G =
     bindP markerP (\<lambda>marker.
     thenP (expectKeywordP G ''switch'')
       (bindP (grouped_expression G) (\<lambda>discriminant.
        thenP (expectP G ''{'')
          (ifP (matchP ''}'')
            (thenP (skipP G) (finishP marker (createSwitchStatement discriminant (VArr []))))
            (bindP (scoped In_switch (rounds G (switch_round G) ([], False))) (\<lambda>cases.
             thenP (expectP G ''}'') (finishP marker (createSwitchStatement discriminant (VArr cases)))))))))"

subsection \<open>Try\<close>

definition parseCatchClause :: "grammar \<Rightarrow> jsvalue parser" where
  "parseCatchClause G =
     bindP markerP (\<lambda>marker.
     thenP (expectKeywordP G ''catch'')
    (thenP (expectP G ''('')
    (thenP (ifP (matchP '')'') (bindP lookaheadP unexpectedP) (doneP ()))
       (bindP (r_expression G) (\<lambda>param.
        thenP (ifP (restricted_target param) (tolerantP None StrictCatchVariable) (doneP ()))
       (thenP (expectP G '')'')
          (bindP (parseBlock G) (\<lambda>body. finishP marker (createCatchClause param body)))))))))"

definition parseTryStatement :: "grammar \<Rightarrow> jsvalue parser" where
  "parseTryStatement G =
     bindP markerP (\<lambda>marker.
     thenP (expectKeywordP G ''try'')
       (bindP (parseBlock G) (\<lambda>block.
        bindP (ifP (matchKeywordP ''catch'') (bindP (parseCatchClause G) (\<lambda>c. doneP [c])) (doneP [])) (\<lambda>handlers.
        bindP (ifP (matchKeywordP ''finally'') (thenP (skipP G) (parseBlock G)) (doneP VNull)) (\<lambda>finalizer.
        thenP (whenP (handlers = [] \<and> \<not> truthy_value finalizer) (errorP None NoCatchOrFinally []))
          (finishP marker (createTryStatement block (VArr []) (VArr handlers) finalizer)))))))"

subsection \<open>Statements\<close>

text \<open>The statement behind a label, and a statement that begins with an expression: it may be a label.\<close>

definition labelled :: "grammar \<Rightarrow> jsstring \<Rightarrow> jsvalue parser" where
  "labelled G name =
     ifP (getP (\<lambda>s. StringMap_has (labelSet s) name)) (errorP None Redeclaration [js ''Label'', name])
       (scoped (In_label name) (r_statement G))"

definition labelled_or_expression :: "grammar \<Rightarrow> jsvalue parser" where
  "labelled_or_expression G =
     bindP markerP (\<lambda>marker.
     bindP (r_expression G) (\<lambda>expr.
     ifP (andP (typeP expr ''Identifier'') (matchP '':''))
       (thenP (skipP G)
         (bindP (propP expr ''name'') (\<lambda>name.
          bindP (labelled G (to_key name)) (\<lambda>labeledBody.
            finishP marker (createLabeledStatement expr labeledBody)))))
       (thenP (consumeSemicolonP G) (finishP marker (createExpressionStatement expr)))))"

text \<open>
  The statements that a keyword or a punctuator announces, by the value of the token; \<open>other\<close> where there is
  none for it.
\<close>

primrec pick :: "(string \<times> 'a parser) list \<Rightarrow> token \<Rightarrow> 'a parser \<Rightarrow> 'a parser" where
  "pick [] token other = other"
| "pick (m # ms) token other = (if has_value (fst m) token then snd m else pick ms token other)"

definition keyword_statement :: "grammar \<Rightarrow> token \<Rightarrow> jsvalue parser \<Rightarrow> jsvalue parser" where
  "keyword_statement G = pick
     [(''break'', parseBreakStatement G), (''continue'', parseContinueStatement G), (''debugger'', parseDebuggerStatement G),
      (''do'', parseDoWhileStatement G), (''for'', r_for G False), (''function'', parseFunctionDeclaration G),
      (''class'', parseClassDeclaration G), (''if'', parseIfStatement G), (''return'', parseReturnStatement G),
      (''switch'', parseSwitchStatement G), (''throw'', parseThrowStatement G), (''try'', parseTryStatement G),
      (''var'', parseVariableStatement G), (''while'', parseWhileStatement G), (''with'', parseWithStatement G)]"

definition punctuator_statement :: "grammar \<Rightarrow> token \<Rightarrow> jsvalue parser \<Rightarrow> jsvalue parser" where
  "punctuator_statement G = pick
     [('';'', parseEmptyStatement G), (''{'', parseBlock G), (''('', parseExpressionStatement G)]"

definition parseStatement :: "grammar \<Rightarrow> jsvalue parser" where
  "parseStatement G =
     bindP lookaheadP (\<lambda>token.
     thenP (whenP (tok_type token = EOF) (unexpectedP token))
       (let other = ifP (matchAsyncFuncExprOrDecl G) (parseFunctionDeclaration G) (labelled_or_expression G)
        in if tok_type token = Punctuator then punctuator_statement G token other
           else if tok_type token = Keyword then keyword_statement G token other
           else other))"

subsection \<open>Bodies\<close>

text \<open>
  The directives in front of a body or a program. \<open>restricted\<close> is the first one with an octal escape,
  which \<^verbatim>\<open>'use strict'\<close> behind it forbids.
\<close>

definition directive_round ::
    "jsvalue parser \<Rightarrow> jsvalue list \<times> token option \<Rightarrow> (jsvalue list \<times> token option + jsvalue list) parser" where
  "directive_round element_parser = (\<lambda>(es, restricted).
     ifP (andP moreP (looks_like StringLiteral))
       (bindP lookaheadP (\<lambda>token.
        bindP element_parser (\<lambda>e.
        bindP (propP e ''expression'') (\<lambda>expression.
        ifP (typeP expression ''Literal'')
          (bindP (getP (\<lambda>s. raw_text (source (scn s)) (fst (tok_range token) + 1, snd (tok_range token) - 1))) (\<lambda>directive.
             if directive = VStr (js ''use strict'') then
               thenP (setStrictP True)
              (thenP (whenP (restricted \<noteq> None) (tolerantP restricted StrictOctalLiteral))
                 (doneP (Inl (es @ [e], restricted))))
             else doneP (Inl (es @ [e], if restricted = None \<and> tok_octal token then Some token else restricted))))
          (doneP (Inr (es @ [e])))))))
       (doneP (Inr es)))"

definition parseFunctionSourceElements :: "grammar \<Rightarrow> jsvalue parser" where
  "parseFunctionSourceElements G =
     bindP markerP (\<lambda>marker.
     thenP (expectP G ''{'')
       (bindP (rounds G (directive_round (r_sourceElement G)) ([], None)) (\<lambda>directives.
        bindP (scoped In_body
                 (bindP (rounds G (element_round (matchP ''}'') (r_sourceElement G)) directives) (\<lambda>sourceElements.
                  thenP (expectP G ''}'') (doneP sourceElements)))) (\<lambda>sourceElements.
          finishP marker (createBlockStatement (VArr sourceElements))))))"

end
