(* ===== verification/EsParseModules.thy ===== *)
theory EsParseModules
  imports EsParseBlocks
begin

text \<open>
  Productions for imports and exports, for the declarations of types, and for programs.
\<close>

subsection \<open>Imports and exports\<close>

definition parseModuleSpecifier :: "grammar \<Rightarrow> jsvalue parser" where
  "parseModuleSpecifier G =
     bindP markerP (\<lambda>marker.
     bindP lookaheadP (\<lambda>token.
     thenP (whenP (tok_type token \<noteq> StringLiteral) (errorP None InvalidModuleSpecifier []))
       (bindP (getP (\<lambda>s. raw_text (source (scn s)) (tok_range token))) (\<lambda>raw.
        bindP (newP (createModuleSpecifier (value_of G token) raw)) (\<lambda>specifier.
        thenP (skipP G) (markerApply marker specifier))))))"

definition parseExportBatchSpecifier :: "grammar \<Rightarrow> jsvalue parser" where
  "parseExportBatchSpecifier G =
     bindP markerP (\<lambda>marker. thenP (expectP G ''*'') (finishP marker createExportBatchSpecifier))"

definition parseExportSpecifier :: "grammar \<Rightarrow> jsvalue parser" where
  "parseExportSpecifier G =
     bindP markerP (\<lambda>marker.
     bindP (ifP (matchKeywordP ''default'')
              (thenP (skipP G) (finishP marker (createIdentifier (VStr (js ''default'')))))
              (parseVariableIdentifier G)) (\<lambda>ident.
     bindP (ifP (matchContextualP ''as'') (thenP (skipP G) (parseNonComputedProperty G)) (doneP VNull)) (\<lambda>name.
       finishP marker (createExportSpecifier ident name))))"

text \<open>The error where \<^verbatim>\<open>from\<close> is missing, and the part from \<^verbatim>\<open>from\<close> on.\<close>

definition missing_from :: "grammar \<Rightarrow> 'a parser" where
  "missing_from G =
     bindP lookaheadP (\<lambda>token.
     let value = value_of G token
     in errorP None (if truthy_value value then UnexpectedToken else MissingFromClause) [to_key value])"

definition from_clause :: "grammar \<Rightarrow> jsvalue parser" where
  "from_clause G =
     thenP (skipP G) (bindP (parseModuleSpecifier G) (\<lambda>src. thenP (consumeSemicolonP G) (doneP src)))"

definition finish_export :: "marker option \<Rightarrow> bool \<Rightarrow> jsvalue \<Rightarrow> jsvalue list \<Rightarrow> jsvalue \<Rightarrow> jsvalue parser" where
  "finish_export marker isDefault declaration specifiers src =
     finishP marker (createExportDeclaration (VBool isDefault) declaration (VArr specifiers) src)"

definition default_function_or_class :: "grammar \<Rightarrow> marker option \<Rightarrow> jsvalue parser" where
  "default_function_or_class G marker =
     bindP (lookahead2P G) (\<lambda>possibleIdentifierToken.
       if isIdentifierName possibleIdentifierToken then
         bindP (r_sourceElement G) (\<lambda>sourceElement.
         bindP (propP sourceElement ''id'') (\<lambda>ident.
           finish_export marker True sourceElement [ident] VNull))
       else
         bindP (ifP (matchKeywordP ''class'') (parseClassExpression G) (parseFunctionExpression G)) (\<lambda>declaration.
           finish_export marker True declaration [] VNull))"

definition default_value :: "grammar \<Rightarrow> marker option \<Rightarrow> jsvalue parser" where
  "default_value G marker =
     thenP (ifP (matchContextualP ''from'')
              (bindP lookaheadP (\<lambda>token. errorP None UnexpectedToken [to_key (value_of G token)])) (doneP ()))
       (bindP (ifP (matchP ''{'') (r_objectInitialiser G)
              (ifP (matchP ''['') (r_arrayInitialiser G) (r_assignment G))) (\<lambda>declaration.
        thenP (consumeSemicolonP G) (finish_export marker True declaration [] VNull)))"

definition export_specifier_round ::
    "grammar \<Rightarrow> jsvalue list \<times> bool \<Rightarrow> (jsvalue list \<times> bool + jsvalue list \<times> bool) parser" where
  "export_specifier_round G = (\<lambda>(specifiers, isExportFromIdentifier).
     bindP (orP (doneP isExportFromIdentifier) (matchKeywordP ''default'')) (\<lambda>isExportFromIdentifier.
     bindP (parseExportSpecifier G) (\<lambda>specifier.
     ifP (matchP '','')
       (thenP (skipP G) (doneP (Inl (specifiers @ [specifier], isExportFromIdentifier))))
       (doneP (Inr (specifiers @ [specifier], isExportFromIdentifier))))))"

definition export_list :: "grammar \<Rightarrow> marker option \<Rightarrow> jsvalue parser" where
  "export_list G marker =
     thenP (expectP G ''{'')
       (bindP (ifP (matchP ''}'') (doneP ([], False)) (rounds G (export_specifier_round G) ([], False)))
         (\<lambda>(specifiers, isExportFromIdentifier).
        thenP (expectP G ''}'')
          (bindP (ifP (matchContextualP ''from'') (from_clause G)
                   (if isExportFromIdentifier then missing_from G
                    else thenP (consumeSemicolonP G) (doneP VNull))) (\<lambda>src.
             finish_export marker False VNull specifiers src))))"

definition export_all :: "grammar \<Rightarrow> marker option \<Rightarrow> jsvalue parser" where
  "export_all G marker =
     bindP (parseExportBatchSpecifier G) (\<lambda>specifier.
     thenP (ifP (matchContextualP ''from'') (doneP ()) (missing_from G))
       (bindP (from_clause G) (\<lambda>src. finish_export marker False VNull [specifier] src)))"

text \<open>A declaration that can be exported begins with one of these words.\<close>

definition declares :: "token \<Rightarrow> bool" where
  "declares token = list_ex (\<lambda>v. has_value v token) [''type'', ''let'', ''const'', ''var'', ''class'', ''function'']"

definition parseExportDeclaration :: "grammar \<Rightarrow> jsvalue parser" where
  "parseExportDeclaration G =
     bindP markerP (\<lambda>marker.
     thenP (expectKeywordP G ''export'')
       (ifP (matchKeywordP ''default'')
         (thenP (skipP G)
           (ifP (orP (matchKeywordP ''function'') (matchKeywordP ''class''))
             (default_function_or_class G marker) (default_value G marker)))
      (ifP (andP (orP (looks_like Keyword) (matchContextualP ''type'')) (bindP lookaheadP (\<lambda>token. doneP (declares token))))
         (bindP (r_sourceElement G) (\<lambda>declaration. finish_export marker False declaration [] VNull))
      (ifP (matchP ''*'') (export_all G marker) (export_list G marker)))))"

definition parseImportSpecifier :: "grammar \<Rightarrow> jsvalue parser" where
  "parseImportSpecifier G =
     bindP markerP (\<lambda>marker.
     bindP (parseNonComputedProperty G) (\<lambda>ident.
     bindP (ifP (matchContextualP ''as'') (thenP (skipP G) (parseVariableIdentifier G)) (doneP VNull)) (\<lambda>name.
       finishP marker (createImportSpecifier ident name))))"

definition import_specifier_round :: "grammar \<Rightarrow> jsvalue list \<Rightarrow> (jsvalue list + jsvalue list) parser" where
  "import_specifier_round G specifiers =
     bindP (parseImportSpecifier G) (\<lambda>specifier.
     ifP (matchP '','') (thenP (skipP G) (doneP (Inl (specifiers @ [specifier])))) (doneP (Inr (specifiers @ [specifier]))))"

definition parseNamedImports :: "grammar \<Rightarrow> jsvalue list parser" where
  "parseNamedImports G =
     thenP (expectP G ''{'')
       (bindP (ifP (matchP ''}'') (doneP []) (rounds G (import_specifier_round G) [])) (\<lambda>specifiers.
        thenP (expectP G ''}'') (doneP specifiers)))"

definition parseImportDefaultSpecifier :: "grammar \<Rightarrow> jsvalue parser" where
  "parseImportDefaultSpecifier G =
     bindP markerP (\<lambda>marker.
     bindP (parseNonComputedProperty G) (\<lambda>ident. finishP marker (createImportDefaultSpecifier ident)))"

definition parseImportNamespaceSpecifier :: "grammar \<Rightarrow> jsvalue parser" where
  "parseImportNamespaceSpecifier G =
     bindP markerP (\<lambda>marker.
     thenP (expectP G ''*'')
    (thenP (ifP (matchContextualP ''as'') (doneP ()) (errorP None NoAsAfterImportNamespace []))
    (thenP (skipP G)
       (bindP (parseNonComputedProperty G) (\<lambda>ident. finishP marker (createImportNamespaceSpecifier ident))))))"

text \<open>\<^verbatim>\<open>import type\<close>: the word \<^verbatim>\<open>type\<close> is a keyword only in front of what can be imported.\<close>

definition import_type :: "grammar \<Rightarrow> bool parser" where
  "import_type G =
     ifP (matchContextualP ''type'')
       (bindP (lookahead2P G) (\<lambda>token2.
          if tok_type token2 = Identifier \<and> \<not> has_value ''from'' token2
             \<or> tok_type token2 = Punctuator \<and> (has_value ''{'' token2 \<or> has_value ''*'' token2)
          then thenP (skipP G) (doneP True) else doneP False))
       (doneP False)"

definition import_clause :: "grammar \<Rightarrow> jsvalue list parser" where
  "import_clause G =
     bindP (ifP (andP (notP (matchKeywordP ''default'')) (bindP lookaheadP (\<lambda>token. doneP (isIdentifierName token))))
              (bindP (parseImportDefaultSpecifier G) (\<lambda>specifier.
               thenP (ifP (matchP '','') (skipP G) (doneP ())) (doneP [specifier])))
              (doneP [])) (\<lambda>specifiers.
     ifP (matchP ''*'') (bindP (parseImportNamespaceSpecifier G) (\<lambda>specifier. doneP (specifiers @ [specifier])))
    (ifP (matchP ''{'') (bindP (parseNamedImports G) (\<lambda>more. doneP (specifiers @ more))) (doneP specifiers)))"

definition parseImportDeclaration :: "grammar \<Rightarrow> jsvalue parser" where
  "parseImportDeclaration G =
     bindP markerP (\<lambda>marker.
     thenP (expectKeywordP G ''import'')
       (bindP (import_type G) (\<lambda>isType.
        ifP (looks_like StringLiteral)
          (bindP (parseModuleSpecifier G) (\<lambda>src.
           thenP (consumeSemicolonP G) (finishP marker (createImportDeclaration (VArr []) src (VBool isType)))))
          (bindP (import_clause G) (\<lambda>specifiers.
           thenP (ifP (matchContextualP ''from'') (doneP ()) (missing_from G))
             (bindP (from_clause G) (\<lambda>src.
              finishP marker (createImportDeclaration (VArr specifiers) src (VBool isType)))))))))"

subsection \<open>Declarations of types\<close>

definition parseTypeAlias :: "grammar \<Rightarrow> jsvalue parser" where
  "parseTypeAlias G =
     bindP markerP (\<lambda>marker.
     thenP (expectContextualP G ''type'')
       (bindP (parseVariableIdentifier G) (\<lambda>ident.
        bindP (optional_declaration G VNull) (\<lambda>typeParameters.
        thenP (expectP G ''='')
          (bindP (r_type G) (\<lambda>right.
           thenP (consumeSemicolonP G) (finishP marker (createTypeAlias ident typeParameters right))))))))"

definition parseInterfaceExtends :: "grammar \<Rightarrow> jsvalue parser" where
  "parseInterfaceExtends G =
     bindP markerP (\<lambda>marker.
     bindP (parseVariableIdentifier G) (\<lambda>ident.
     bindP (optional_instantiation G VNull) (\<lambda>typeParameters.
       finishP marker (createInterfaceExtends ident typeParameters))))"

definition extends_round :: "grammar \<Rightarrow> jsvalue list \<Rightarrow> (jsvalue list + jsvalue list) parser" where
  "extends_round G extended =
     ifP moreP
       (bindP (parseInterfaceExtends G) (\<lambda>e.
        ifP (matchP '','') (thenP (expectP G '','') (doneP (Inl (extended @ [e])))) (doneP (Inr (extended @ [e])))))
       (doneP (Inr extended))"

definition parseInterfaceish :: "grammar \<Rightarrow> marker option \<Rightarrow> bool \<Rightarrow> jsvalue parser" where
  "parseInterfaceish G marker allowStatic =
     bindP (parseVariableIdentifier G) (\<lambda>ident.
     bindP (optional_declaration G VNull) (\<lambda>typeParameters.
     bindP (ifP (matchKeywordP ''extends'')
              (thenP (expectKeywordP G ''extends'') (rounds G (extends_round G) [])) (doneP [])) (\<lambda>extended.
     bindP markerP (\<lambda>bodyMarker.
     bindP (bindP (parseObjectType G (VBool allowStatic)) (markerApply bodyMarker)) (\<lambda>body.
       finishP marker (createInterface ident typeParameters body (VArr extended)))))))"

definition parseInterface :: "grammar \<Rightarrow> jsvalue parser" where
  "parseInterface G =
     bindP markerP (\<lambda>marker.
     thenP (ifP strictP (expectKeywordP G ''interface'') (expectContextualP G ''interface''))
       (parseInterfaceish G marker False))"

definition parseDeclareClass :: "grammar \<Rightarrow> jsvalue parser" where
  "parseDeclareClass G =
     bindP markerP (\<lambda>marker.
     thenP (expectContextualP G ''declare'')
    (thenP (expectKeywordP G ''class'')
       (bindP (parseInterfaceish G marker True) (\<lambda>ret. doneP (set_prop ''type'' (VStr (js ''DeclareClass'')) ret)))))"

text \<open>The type of a declared function, from its type parameters on.\<close>

definition declared_type :: "grammar \<Rightarrow> marker option \<Rightarrow> jsvalue parser" where
  "declared_type G valueMarker =
     bindP (optional_declaration G VNull) (\<lambda>typeParameters.
     thenP (expectP G ''('')
       (bindP (parseFunctionTypeParams G) (\<lambda>(params, rest).
        thenP (expectP G '')'')
       (thenP (expectP G '':'')
          (bindP (r_type G) (\<lambda>returnType.
           bindP (finishP valueMarker (createFunctionTypeAnnotation (VArr params) returnType rest typeParameters)) (\<lambda>value.
             finishP valueMarker (createTypeAnnotation value))))))))"

definition parseDeclareFunction :: "grammar \<Rightarrow> jsvalue parser" where
  "parseDeclareFunction G =
     bindP markerP (\<lambda>marker.
     thenP (expectContextualP G ''declare'')
    (thenP (expectKeywordP G ''function'')
       (bindP markerP (\<lambda>idMarker.
        bindP (parseVariableIdentifier G) (\<lambda>ident.
        bindP markerP (\<lambda>valueMarker.
        bindP (declared_type G valueMarker) (\<lambda>type.
        bindP (markerApply idMarker (set_prop ''typeAnnotation'' type ident)) (\<lambda>ident.
        thenP (consumeSemicolonP G) (finishP marker (createDeclareFunction ident))))))))))"

definition parseDeclareVariable :: "grammar \<Rightarrow> jsvalue parser" where
  "parseDeclareVariable G =
     bindP markerP (\<lambda>marker.
     thenP (expectContextualP G ''declare'')
    (thenP (expectKeywordP G ''var'')
       (bindP (parseTypeAnnotatableIdentifier G False False) (\<lambda>ident.
        thenP (consumeSemicolonP G) (finishP marker (createDeclareVariable ident))))))"

definition declared_module_name :: "grammar \<Rightarrow> jsvalue parser" where
  "declared_module_name G =
     bindP lookaheadP (\<lambda>next.
       if tok_type next = StringLiteral then
         bindP strictP (\<lambda>strict.
         thenP (whenP (strict \<and> tok_octal next) (tolerantP (Some next) StrictOctalLiteral))
           (bindP markerP (\<lambda>idMarker.
            bindP (lexP G) (\<lambda>token. bindP (literalP (value_of G token) token) (finishP idMarker)))))
       else parseVariableIdentifier G)"

text \<open>
  A round of the loop over declarations. In strict code a reserved word is only noted if errors are
  tolerated; then the round consumes nothing.
\<close>

definition module_round :: "grammar \<Rightarrow> jsvalue list \<Rightarrow> (jsvalue list + jsvalue list) parser" where
  "module_round G body =
     ifP (andP moreP (notP (matchP ''}'')))
       (bindP (lookahead2P G) (\<lambda>token.
          if has_value ''class'' token then bindP (parseDeclareClass G) (\<lambda>d. doneP (Inl (body @ [d])))
          else if has_value ''function'' token then bindP (parseDeclareFunction G) (\<lambda>d. doneP (Inl (body @ [d])))
          else if has_value ''var'' token then bindP (parseDeclareVariable G) (\<lambda>d. doneP (Inl (body @ [d])))
          else thenP (bindP lookaheadP unexpectedP) (doneP (Inl body))))
       (doneP (Inr body))"

definition parseDeclareModule :: "grammar \<Rightarrow> jsvalue parser" where
  "parseDeclareModule G =
     bindP markerP (\<lambda>marker.
     thenP (expectContextualP G ''declare'')
    (thenP (expectContextualP G ''module'')
       (bindP (declared_module_name G) (\<lambda>ident.
        bindP markerP (\<lambda>bodyMarker.
        thenP (expectP G ''{'')
          (bindP (rounds G (module_round G) []) (\<lambda>body.
           thenP (expectP G ''}'')
             (bindP (finishP bodyMarker (createBlockStatement (VArr body))) (\<lambda>block.
                finishP marker (createDeclareModule ident block))))))))))"

subsection \<open>Source elements and programs\<close>

text \<open>A source element that begins with a keyword.\<close>

definition keyword_element :: "grammar \<Rightarrow> token \<Rightarrow> jsvalue parser" where
  "keyword_element G token =
     (if has_value ''const'' token then parseConstLetDeclaration G ''const''
      else if has_value ''let'' token then parseConstLetDeclaration G ''let''
      else if has_value ''function'' token then parseFunctionDeclaration G
      else if has_value ''export'' token then thenP (tolerantP None IllegalExportDeclaration) (parseExportDeclaration G)
      else if has_value ''import'' token then thenP (tolerantP None IllegalImportDeclaration) (parseImportDeclaration G)
      else if has_value ''interface'' token then
        bindP (lookahead2P G) (\<lambda>t. if tok_type t = Identifier then parseInterface G else r_statement G)
      else r_statement G)"

text \<open>Whether a contextual keyword is followed by a name.\<close>

definition announces :: "grammar \<Rightarrow> string \<Rightarrow> bool parser" where
  "announces G word =
     andP (matchContextualP word) (bindP (lookahead2P G) (\<lambda>token. doneP (tok_type token = Identifier)))"

definition declare_element :: "grammar \<Rightarrow> jsvalue parser \<Rightarrow> jsvalue parser" where
  "declare_element G other =
     ifP (matchContextualP ''declare'')
       (bindP (lookahead2P G) (\<lambda>token.
          if tok_type token = Keyword then
            (if has_value ''class'' token then parseDeclareClass G
             else if has_value ''function'' token then parseDeclareFunction G
             else if has_value ''var'' token then parseDeclareVariable G else other)
          else if tok_type token = Identifier \<and> has_value ''module'' token then parseDeclareModule G else other))
       other"

definition parseSourceElement :: "grammar \<Rightarrow> jsvalue parser" where
  "parseSourceElement G =
     bindP lookaheadP (\<lambda>token.
       if tok_type token = Keyword then keyword_element G token
       else ifP (announces G ''type'') (parseTypeAlias G)
           (ifP (announces G ''interface'') (parseInterface G)
              (declare_element G (ifP (looks_like EOF) (doneP VUndef) (r_statement G)))))"

definition isModule :: "pstate \<Rightarrow> bool" where
  "isModule s = (sourceType s = Some (js ''module'') \<or> sourceType s = Some (js ''nonStrictModule''))"

definition parseProgramElement :: "grammar \<Rightarrow> jsvalue parser" where
  "parseProgramElement G =
     ifP (andP (getP isModule) (matchKeywordP ''export'')) (parseExportDeclaration G)
    (ifP (andP (getP isModule) (matchKeywordP ''import'')) (parseImportDeclaration G)
       (r_sourceElement G))"

definition parseProgramElements :: "grammar \<Rightarrow> jsvalue list parser" where
  "parseProgramElements G =
     bindP (rounds G (directive_round (parseProgramElement G)) ([], None)) (\<lambda>directives.
       rounds G (element_round (doneP False) (parseProgramElement G)) directives)"

definition parseProgram :: "grammar \<Rightarrow> jsvalue parser" where
  "parseProgram G =
     bindP markerP (\<lambda>marker.
     bindP (getP (\<lambda>s. sourceType s = Some (js ''module''))) (\<lambda>is_module.
     thenP (setStrictP is_module)
    (thenP (peekP G)
       (bindP (parseProgramElements G) (\<lambda>body. finishP marker (createProgram (VArr body)))))))"

end
