(* ===== verification/EsParse.thy ===== *)
theory EsParse
  imports EsParseModules
begin

text \<open>
  The productions tied together, and \<^verbatim>\<open>parse\<close>. \<open>grammar_at h n\<close> has the productions for \<open>n\<close> nested calls
  through the record; below that they run out of fuel. The fuel of loops is \<open>n\<close> too.
\<close>

subsection \<open>The grammar\<close>

definition starved :: "'a parser" where
  "starved = (\<lambda>s. Diverged)"

primrec grammar_at :: "host \<Rightarrow> nat \<Rightarrow> grammar" where
  "grammar_at h 0 =
     \<lparr>host = h, fuel = 0, r_type = starved, r_prefixType = starved, r_primaryType = starved,
      r_arrayInitialiser = starved, r_objectInitialiser = starved, r_assignment = starved, r_expression = starved,
      r_unary = starved, r_leftHandSide = starved, r_leftHandSideAllowCall = starved, r_jsxElement = starved,
      r_functionBody = starved, r_for = (\<lambda>b. starved), r_statement = starved, r_sourceElement = starved\<rparr>"
| "grammar_at h (Suc n) =
     (let G = grammar_at h n in
     \<lparr>host = h, fuel = Suc n, r_type = parseType G, r_prefixType = parsePrefixType G, r_primaryType = parsePrimaryType G,
      r_arrayInitialiser = parseArrayInitialiser G, r_objectInitialiser = parseObjectInitialiser G,
      r_assignment = parseAssignmentExpression G, r_expression = parseExpression G,
      r_unary = parseUnaryExpression G, r_leftHandSide = parseLeftHandSideExpression G,
      r_leftHandSideAllowCall = parseLeftHandSideExpressionAllowCall G, r_jsxElement = parseJSXElement G,
      r_functionBody = parseFunctionSourceElements G, r_for = parseForStatement G, r_statement = parseStatement G,
      r_sourceElement = parseSourceElement G\<rparr>)"

subsection \<open>What is returned besides the tree\<close>

definition pair_value :: "nat \<times> int \<Rightarrow> jsvalue" where
  "pair_value p = place (fst p) (snd p)"

definition location_value :: "location \<Rightarrow> jsvalue" where
  "location_value l = plain_object [(''start'', pair_value (fst l)), (''end'', pair_value (snd l))]"

definition optional :: "string \<Rightarrow> ('a \<Rightarrow> jsvalue) \<Rightarrow> 'a option \<Rightarrow> (string \<times> jsvalue) list" where
  "optional key f x = (case x of None \<Rightarrow> [] | Some v \<Rightarrow> [(key, f v)])"

text \<open>Comments and tokens have their range where nodes have it.\<close>

definition ranged :: "(nat \<times> nat) option \<Rightarrow> jsvalue \<Rightarrow> jsvalue" where
  "ranged r v = (case r of None \<Rightarrow> v | Some r \<Rightarrow> set_range r v)"

definition comment_value :: "comment \<Rightarrow> jsvalue" where
  "comment_value c = ranged (c_range c) (plain_object
     ([(''type'', VStr (case c_type c of Line \<Rightarrow> js ''Line'' | Block \<Rightarrow> js ''Block'')), (''value'', VStr (c_value c))]
       @ optional ''loc'' location_value (c_loc c)))"

definition entry_value :: "entry \<Rightarrow> jsvalue" where
  "entry_value e = ranged (e_range e) (plain_object
     ([(''type'', case e_type e of None \<Rightarrow> VUndef | Some t \<Rightarrow> VStr t), (''value'', VStr (e_value e))]
       @ optional ''regex'' regex_object (e_regex e) @ optional ''loc'' location_value (e_loc e)))"

text \<open>The errors that were tolerated, all made by \<^verbatim>\<open>throwError\<close>.\<close>

definition error_value :: "thrown \<Rightarrow> jsvalue" where
  "error_value e = (case e of
     Reported msg i line col description \<Rightarrow>
       plain_object [(''message'', VStr msg), (''index'', VNum (int i)), (''lineNumber'', VNum (int line)),
         (''column'', VNum col), (''description'', VStr description)]
   | Assertion msg \<Rightarrow> plain_object [(''message'', VStr msg)]
   | PropertyOfUndefined \<Rightarrow> VOther (js ''TypeError''))"

definition with_list :: "string \<Rightarrow> ('a \<Rightarrow> jsvalue) \<Rightarrow> 'a list option \<Rightarrow> jsvalue \<Rightarrow> jsvalue" where
  "with_list key f xs program = (case xs of None \<Rightarrow> program | Some xs \<Rightarrow> set_prop key (VArr (map f xs)) program)"

definition parse_result :: "jsvalue \<Rightarrow> scanner \<Rightarrow> jsvalue" where
  "parse_result program s =
     with_list ''errors'' error_value (x_errors s)
    (with_list ''tokens'' entry_value (x_tokens (filterTokenLocation s))
    (with_list ''comments'' comment_value (x_comments s) program))"

subsection \<open>Parsing a source\<close>

text \<open>
  The options without \<^verbatim>\<open>attachComment\<close>. \<open>po_source\<close> is \<^verbatim>\<open>options.source\<close> as a string, \<open>None\<close> if it is \<^verbatim>\<open>null\<close>
  or \<^verbatim>\<open>undefined\<close>; it only matters with \<^verbatim>\<open>loc\<close>.
\<close>

record parse_options =
  po_range :: bool
  po_loc :: bool
  po_source :: "jsstring option"
  po_sourceType :: "jsstring option"
  po_tokens :: bool
  po_comment :: bool
  po_tolerant :: bool

definition parse_start :: "bool \<Rightarrow> parse_options \<Rightarrow> jsstring \<Rightarrow> pstate" where
  "parse_start is_strict opts code =
     \<lparr>scn =
       \<lparr>source = code, strict = is_strict,
        pos = \<lparr>index = 0, lineNumber = (if length code > 0 then 1 else 0), lineStart = 0\<rparr>,
        lookahead = None, inJSXTag = False, inJSXChild = False, inType = False, lastCommentStart = - 1,
        x_range = po_range opts, x_loc = po_loc opts, x_tokenize = False, x_attachComment = False,
        x_comments = (if po_comment opts then Some [] else None), x_leadingComments = [], x_trailingComments = [],
        x_errors = (if po_tolerant opts then Some [] else None),
        x_tokens = (if po_tokens opts then Some [] else None), openParenToken = - 1, openCurlyToken = - 1\<rparr>,
      allowKeyword = False, allowIn = True, labelSet = StringMap, parenthesizedCount = 0, inFunctionBody = False,
      inIteration = False, inSwitch = False, yieldAllowed = False, awaitAllowed = False,
      sourceType = po_sourceType opts, locSource = (if po_loc opts then po_source opts else None), nextNode = 0\<rparr>"

text \<open>The result for \<open>n\<close> levels of fuel: an error or the program; \<open>None\<close> when the fuel is not enough.\<close>

definition parse :: "host \<Rightarrow> nat \<Rightarrow> bool \<Rightarrow> parse_options \<Rightarrow> jsstring \<Rightarrow> (thrown + jsvalue) option" where
  "parse h n is_strict opts code =
     (case parseProgram (grammar_at h n) (parse_start is_strict opts code) of
        Diverged \<Rightarrow> None
      | Raised e s \<Rightarrow> Some (Inl e)
      | Parsed program s \<Rightarrow> Some (Inr (parse_result program (scn s))))"

end
