(* ===== verification/EsFrames.thy ===== *)
theory EsFrames
  imports EsParse
begin

text \<open>
  How two runs of the parser's combinators compare, and what a run keeps of the state. \<open>follows R m m'\<close>:
  wherever \<open>m\<close> does not run out of fuel, \<open>m'\<close> does the same, and where it returns, the state in front and
  the state behind are related by \<open>R\<close>. The locale \<open>framing\<close> has the laws \<open>R\<close> must meet; in it each
  combinator and each step of the lexer is shown to follow itself. The productions are in \<open>EsFrameRules\<close>.
\<close>

named_theorems frames \<open>rules for \<open>follows\<close>, one per combinator, step or production\<close>

subsection \<open>Steps of the lexer\<close>

text \<open>What no step of the lexer changes.\<close>

definition steady :: "scanner \<Rightarrow> scanner \<Rightarrow> bool" where
  "steady s t \<longleftrightarrow> source t = source s \<and> strict t = strict s \<and> inJSXTag t = inJSXTag s \<and> inJSXChild t = inJSXChild s
     \<and> inType t = inType s \<and> x_range t = x_range s \<and> x_loc t = x_loc s \<and> (x_errors t = None \<longleftrightarrow> x_errors s = None)"

lemma steady_refl [simp]: "steady s s"
  by (simp add: steady_def)

lemma steady_trans: "\<lbrakk>steady s t; steady t u\<rbrakk> \<Longrightarrow> steady s u"
  by (simp add: steady_def)

lemma steady_update [simp]:
  "steady s (t\<lparr>pos := p\<rparr>) = steady s t" "steady s (t\<lparr>lookahead := l\<rparr>) = steady s t"
  "steady s (t\<lparr>x_tokens := e\<rparr>) = steady s t"
  "steady (s\<lparr>pos := p\<rparr>) t = steady s t" "steady (s\<lparr>lookahead := l\<rparr>) t = steady s t"
  by (simp_all add: steady_def)

lemma kept_steady: "kept s t \<Longrightarrow> steady s t"
  by (simp add: kept_def steady_def)

definition steadily :: "scanner \<Rightarrow> 'a outcome \<Rightarrow> bool" where
  "steadily s m = (case m of Ret x t \<Rightarrow> steady s t | Throw e t \<Rightarrow> True)"

lemma steadily_simps [simp]:
  "steadily s (Ret x t) = steady s t" "steadily s (Throw e t)" "steadily s (throwError a msg args t)"
  "steadily (s\<lparr>pos := p\<rparr>) m = steadily s m" "steadily (s\<lparr>lookahead := l\<rparr>) m = steadily s m"
  by (auto simp: steadily_def throwError_def split: outcome.splits)

lemma steadily_obind:
  "\<lbrakk>steadily s m; \<And>x t. \<lbrakk>m = Ret x t; steady s t\<rbrakk> \<Longrightarrow> steadily t (f x t)\<rbrakk> \<Longrightarrow> steadily s (obind m f)"
  using steady_trans by (cases m; cases "obind m f") (auto simp: steadily_def split: outcome.splits)

lemma keeps_steadily: "keeps s m \<Longrightarrow> steadily s m"
  by (auto simp: keeps_def steadily_def kept_steady split: outcome.splits)

lemma steadily_advance: "steadily s (advance en s)"
proof (cases "inJSXChild s")
  case True
  then show ?thesis
    by (auto simp: advance_def advanceJSXChild_def Let_def keeps_steadily keeps_scanPunctuator split: option.splits)
qed (simp add: keeps_advance keeps_steadily)

lemma steadily_skipComment: "steadily s (skipComment s)"
  by (simp add: keeps_skipComment keeps_steadily)

lemma steadily_call_advance: "steadily s (call_advance en s)"
  by (auto simp: call_advance_def collectToken_def Let_def
    intro!: steadily_obind steadily_advance steadily_skipComment)

lemma steadily_lex: "steadily s (lex_token en s)"
  using steadily_call_advance [of "s\<lparr>pos := p\<rparr>" en for p]
  by (auto simp: lex_token_def intro!: steadily_obind split: option.splits)

lemma steadily_peek: "steadily s (peek en s)"
  by (auto simp: peek_def Let_def intro!: steadily_obind steadily_call_advance)

lemma steadily_lookahead2: "steadily s (lookahead2 en s)"
  using steadily_advance [of "t\<lparr>pos := p\<rparr>" en for t p]
  by (auto simp: lookahead2_def Let_def intro!: steadily_obind steadily_advance split: option.splits)

lemma steadily_marker: "steadily s (markerCreate s)"
  by (auto simp: markerCreate_def intro!: steadily_obind steadily_skipComment)

lemma steadily_tolerant: "steadily s (throwErrorTolerant token m args s)"
  by (simp add: keeps_tolerant keeps_steadily)

lemma steadily_unexpected: "steadily s (throwUnexpected token s)"
  by (simp add: throwUnexpected_def steadily_tolerant)

lemma steadily_expect: "steadily s (expect en v s)"
  by (auto simp: expect_def intro!: steadily_obind steadily_lex steadily_unexpected)

lemma steadily_expectKeyword: "steadily s (expectKeyword en k c s)"
  by (auto simp: expectKeyword_def intro!: steadily_obind steadily_lex steadily_unexpected)

lemma steadily_peekLineTerminator: "steadily s (peekLineTerminator s)"
  by (auto simp: peekLineTerminator_def Let_def intro!: steadily_obind steadily_skipComment)

lemma steadily_matchAsync: "steadily s (matchAsync en s)"
  by (auto simp: matchAsync_def rewind_def intro!: steadily_obind steadily_lex steadily_peekLineTerminator split: option.splits)

lemma steadily_consumeSemicolon: "steadily s (consumeSemicolon en s)"
  by (auto simp: consumeSemicolon_def Let_def intro!: steadily_obind steadily_lex steadily_skipComment steadily_unexpected
    split: option.splits)

lemma steadily_template: "steadily s (scanTemplateElement en first s)"
proof -
  have m: "steadily t (move t m)" for t and m :: "'a scan"
    by (cases m) simp_all
  show ?thesis
    using steadily_skipComment [of "s\<lparr>lookahead := None\<rparr>"]
    by (auto simp: scanTemplateElement_def Let_def intro!: steadily_obind steadily_peek m)
qed

lemma steadily_scanRegExp: "steadily s (call_scanRegExp en s)"
  by (auto simp: call_scanRegExp_def collectRegex_def Let_def
    intro!: steadily_obind steadily_skipComment keeps_steadily [OF keeps_scanRegExp])

lemmas steadily_steps = steadily_lex steadily_peek steadily_lookahead2 steadily_marker steadily_tolerant
  steadily_unexpected steadily_expect steadily_expectKeyword steadily_peekLineTerminator steadily_matchAsync
  steadily_consumeSemicolon steadily_template steadily_scanRegExp

subsection \<open>Two runs\<close>

definition follows :: "(pstate \<Rightarrow> pstate \<Rightarrow> bool) \<Rightarrow> 'a parser \<Rightarrow> 'a parser \<Rightarrow> bool" where
  "follows R m m' \<longleftrightarrow> (\<forall>s. case m s of
       Diverged \<Rightarrow> True
     | Raised e t \<Rightarrow> m' s = Raised e t
     | Parsed x t \<Rightarrow> m' s = Parsed x t \<and> R s t)"

lemma follows_Parsed: "\<lbrakk>follows R m m'; m s = Parsed x t\<rbrakk> \<Longrightarrow> m' s = Parsed x t \<and> R s t"
  unfolding follows_def by (drule spec [of _ s]) simp

lemma follows_Raised: "\<lbrakk>follows R m m'; m s = Raised e t\<rbrakk> \<Longrightarrow> m' s = Raised e t"
  unfolding follows_def by (drule spec [of _ s]) simp

lemma follows_split [frames]:
  "\<lbrakk>follows R a a'; follows R b b'\<rbrakk> \<Longrightarrow> follows R (if c then a else b) (if c then a' else b')"
  "\<lbrakk>\<And>x y. follows R (f x y) (f' x y)\<rbrakk> \<Longrightarrow> follows R (case_prod f p) (case_prod f' p)"
  "\<lbrakk>follows R a a'; \<And>x. follows R (g x) (g' x)\<rbrakk> \<Longrightarrow> follows R (case_option a g q) (case_option a' g' q)"
  "\<lbrakk>\<And>x. follows R (g x) (g' x); \<And>y. follows R (k y) (k' y)\<rbrakk> \<Longrightarrow> follows R (case_sum g k r) (case_sum g' k' r)"
  "\<lbrakk>\<And>x. follows R (g x) (g' x)\<rbrakk> \<Longrightarrow> follows R (Let v g) (Let v g')"
  by (simp_all add: Let_def split: prod.splits option.splits sum.splits)

lemma follows_split_tvalue [frames]:
  "\<lbrakk>follows R a a'; \<And>x. follows R (b x) (b' x); \<And>x. follows R (c x) (c' x); \<And>x y. follows R (d x y) (d' x y);
      \<And>x y. follows R (e x y) (e' x y); follows R f f'\<rbrakk>
    \<Longrightarrow> follows R (case_tvalue a b c d e f w) (case_tvalue a' b' c' d' e' f' w)"
  by (simp split: tvalue.splits)

text \<open>The grammars of two runs: the second has no less fuel, and its productions follow.\<close>

definition finer :: "(pstate \<Rightarrow> pstate \<Rightarrow> bool) \<Rightarrow> grammar \<Rightarrow> grammar \<Rightarrow> bool" where
  "finer R G H \<longleftrightarrow> host G = host H \<and> fuel G \<le> fuel H
     \<and> follows R (r_type G) (r_type H) \<and> follows R (r_prefixType G) (r_prefixType H)
     \<and> follows R (r_primaryType G) (r_primaryType H) \<and> follows R (r_arrayInitialiser G) (r_arrayInitialiser H)
     \<and> follows R (r_objectInitialiser G) (r_objectInitialiser H) \<and> follows R (r_assignment G) (r_assignment H)
     \<and> follows R (r_expression G) (r_expression H) \<and> follows R (r_unary G) (r_unary H)
     \<and> follows R (r_leftHandSide G) (r_leftHandSide H) \<and> follows R (r_leftHandSideAllowCall G) (r_leftHandSideAllowCall H)
     \<and> follows R (r_jsxElement G) (r_jsxElement H) \<and> follows R (r_functionBody G) (r_functionBody H)
     \<and> (\<forall>b. follows R (r_for G b) (r_for H b)) \<and> follows R (r_statement G) (r_statement H)
     \<and> follows R (r_sourceElement G) (r_sourceElement H)"

lemma finer_rules [frames]:
  assumes "finer R G H"
  shows "follows R (r_type G) (r_type H)" "follows R (r_prefixType G) (r_prefixType H)"
    "follows R (r_primaryType G) (r_primaryType H)" "follows R (r_arrayInitialiser G) (r_arrayInitialiser H)"
    "follows R (r_objectInitialiser G) (r_objectInitialiser H)" "follows R (r_assignment G) (r_assignment H)"
    "follows R (r_expression G) (r_expression H)" "follows R (r_unary G) (r_unary H)"
    "follows R (r_leftHandSide G) (r_leftHandSide H)" "follows R (r_leftHandSideAllowCall G) (r_leftHandSideAllowCall H)"
    "follows R (r_jsxElement G) (r_jsxElement H)" "follows R (r_functionBody G) (r_functionBody H)"
    "follows R (r_for G b) (r_for H b)" "follows R (r_statement G) (r_statement H)"
    "follows R (r_sourceElement G) (r_sourceElement H)"
  using assms by (simp_all add: finer_def)

lemma same_values:
  assumes "finer R G H"
  shows "host G = host H" "value_of G = value_of H" "engine_of G = engine_of H"
  using assms by (simp_all add: finer_def value_of_def engine_of_def fun_eq_iff)

subsection \<open>Laws\<close>

text \<open>
  \<open>R\<close> is a preorder that holds across the steps of the lexer and across changes of the fields that are
  not put back, and that a scope turns into itself.
\<close>

locale framing =
  fixes R :: "pstate \<Rightarrow> pstate \<Rightarrow> bool"
  assumes R_refl: "R s s"
    and R_trans: "\<lbrakk>R s t; R t u\<rbrakk> \<Longrightarrow> R s u"
    and R_steady: "\<lbrakk>source v = source (scn s); x_range v = x_range (scn s); x_loc v = x_loc (scn s);
        inType v = inType (scn s)\<rbrakk> \<Longrightarrow> R s (s\<lparr>scn := v\<rparr>)"
    and R_free: "R s (s\<lparr>allowIn := b, parenthesizedCount := n\<rparr>)" "R s (s\<lparr>nextNode := nextNode s + 1\<rparr>)"
    and R_scope: "\<lbrakk>R (enter c s) t; \<And>name. c = In_label name \<Longrightarrow> \<not> StringMap_has (labelSet s) name\<rbrakk> \<Longrightarrow> R s (leave c s t)"
begin

lemma bind_follows [frames]:
  assumes "follows R m m'" and "\<And>x. follows R (f x) (f' x)"
  shows "follows R (bindP m f) (bindP m' f')"
  unfolding follows_def
proof
  fix s
  show "case bindP m f s of Diverged \<Rightarrow> True | Raised e t \<Rightarrow> bindP m' f' s = Raised e t
      | Parsed x t \<Rightarrow> bindP m' f' s = Parsed x t \<and> R s t"
  proof (cases "m s")
    case (Parsed x t)
    then have t: "m' s = Parsed x t" "R s t" using follows_Parsed [OF assms(1)] by auto
    show ?thesis
    proof (cases "f x t")
      case (Parsed y u)
      then show ?thesis using follows_Parsed [OF assms(2) Parsed] t \<open>m s = Parsed x t\<close> R_trans
        by (auto simp: bindP_def)
    qed (use follows_Raised [OF assms(2)] t \<open>m s = Parsed x t\<close> in \<open>auto simp: bindP_def\<close>)
  qed (use follows_Raised [OF assms(1)] in \<open>auto simp: bindP_def\<close>)
qed

lemma quiet_follows: "(\<And>s x t. m s = Parsed x t \<Longrightarrow> R s t) \<Longrightarrow> follows R m m"
  by (simp add: follows_def split: parsed.splits)

lemma read_follows [frames]:
  "follows R (doneP x) (doneP x)" "follows R (getP f) (getP f)" "follows R (valueP r) (valueP r)"
  "follows R lookaheadP lookaheadP" "follows R (raiseP e) (raiseP e)" "follows R (errorTextP text) (errorTextP text)"
  "follows R (markerApply marker node) (markerApply marker node)" "follows R starved m"
  by (auto intro!: quiet_follows simp: doneP_def getP_def valueP_def lookaheadP_def raiseP_def errorTextP_def Let_def
      markerApply_def R_refl starved_def follows_def split: sum.splits option.splits if_splits)

lemma lift_follows: "(\<And>s. steadily s (f s)) \<Longrightarrow> follows R (liftP f) (liftP f)"
proof (rule quiet_follows)
  fix s x t
  assume f: "\<And>s. steadily s (f s)" and t: "liftP f s = Parsed x t"
  then obtain u where "f (scn s) = Ret x u" and u: "t = s\<lparr>scn := u\<rparr>"
    by (auto simp: liftP_def split: outcome.splits)
  then have "steady (scn s) u" using f [of "scn s"] by simp
  then show "R s t" by (simp add: u steady_def R_steady)
qed

subsection \<open>Combinators\<close>

lemma then_follows [frames]: "\<lbrakk>follows R m m'; follows R k k'\<rbrakk> \<Longrightarrow> follows R (thenP m k) (thenP m' k')"
  unfolding thenP_def by (intro frames)

lemma if_follows [frames]:
  "\<lbrakk>follows R c c'; follows R a a'; follows R b b'\<rbrakk> \<Longrightarrow> follows R (ifP c a b) (ifP c' a' b')"
  unfolding ifP_def by (intro frames)

lemma test_follows [frames]:
  "\<lbrakk>follows R a a'; follows R b b'\<rbrakk> \<Longrightarrow> follows R (orP a b) (orP a' b')"
  "\<lbrakk>follows R a a'; follows R b b'\<rbrakk> \<Longrightarrow> follows R (andP a b) (andP a' b')"
  "follows R a a' \<Longrightarrow> follows R (notP a) (notP a')"
  unfolding orP_def andP_def notP_def by (assumption | rule frames)+

lemma when_follows [frames]: "follows R k k' \<Longrightarrow> follows R (whenP b k) (whenP b k')"
  unfolding whenP_def by (intro frames)

lemma loop_follows:
  assumes "\<And>a. follows R (body a) (body' a)"
  shows "n \<le> n' \<Longrightarrow> follows R (loopP n body a) (loopP n' body' a)"
proof (induction n arbitrary: a n')
  case 0
  then show ?case by (simp add: follows_def)
next
  case (Suc n)
  then obtain k where k: "n' = Suc k" "n \<le> k" by (cases n') auto
  show ?case unfolding k(1) loopP.simps by (intro frames assms Suc.IH k(2))
qed

lemma rounds_follows [frames]:
  "\<lbrakk>finer R G H; \<And>a. follows R (body a) (body' a)\<rbrakk> \<Longrightarrow> follows R (rounds G body a) (rounds H body' a)"
  unfolding rounds_def by (rule loop_follows) (simp_all add: finer_def)

lemma scope_Parsed:
  assumes "follows R m m'" and "scoped c m s = Parsed x t"
    and "\<And>name. c = In_label name \<Longrightarrow> \<not> StringMap_has (labelSet s) name"
  shows "scoped c m' s = Parsed x t \<and> R s t"
proof (cases "m (enter c s)")
  case (Parsed y u)
  then have "x = y" "t = leave c s u" using assms(2) by (simp_all add: scoped_def thenP_def bindP_def)
  then show ?thesis using follows_Parsed [OF assms(1) Parsed] R_scope [OF _ assms(3)]
    by (simp add: scoped_def thenP_def bindP_def)
qed (use assms(2) in \<open>simp_all add: scoped_def thenP_def bindP_def\<close>)

lemma scope_Raised:
  assumes "follows R m m'" and "scoped c m s = Raised e t"
  shows "scoped c m' s = Raised e t"
proof (cases "m (enter c s)")
  case (Raised e' u)
  then show ?thesis using follows_Raised [OF assms(1) Raised] assms(2) by (simp add: scoped_def thenP_def bindP_def)
qed (use assms(2) in \<open>simp_all add: scoped_def thenP_def bindP_def\<close>)

lemma scoped_follows:
  assumes "follows R m m'" and "\<And>name. c \<noteq> In_label name"
  shows "follows R (scoped c m) (scoped c m')"
  unfolding follows_def
proof
  fix s
  show "case scoped c m s of Diverged \<Rightarrow> True | Raised e t \<Rightarrow> scoped c m' s = Raised e t
      | Parsed x t \<Rightarrow> scoped c m' s = Parsed x t \<and> R s t"
    using scope_Parsed [OF assms(1), of c s] scope_Raised [OF assms(1), of c s] assms(2)
    by (cases "scoped c m s") simp_all
qed

lemma scopes_follow [frames]:
  "follows R m m' \<Longrightarrow> follows R (scoped In_type m) (scoped In_type m')"
  "follows R m m' \<Longrightarrow> follows R (scoped In_switch m) (scoped In_switch m')"
  "follows R m m' \<Longrightarrow> follows R (scoped In_body m) (scoped In_body m')"
  "follows R m m' \<Longrightarrow> follows R (scoped In_superclass m) (scoped In_superclass m')"
  by (auto intro: scoped_follows)

subsection \<open>Steps\<close>

lemma lex_follows [frames]:
  assumes "finer R G H"
  shows "follows R (lexP G) (lexP H)" "follows R (peekP G) (peekP H)" "follows R (lookahead2P G) (lookahead2P H)"
    "follows R (expectP G v) (expectP H v)" "follows R (expectKeywordP G v) (expectKeywordP H v)"
    "follows R (expectContextualP G v) (expectContextualP H v)" "follows R (matchAsyncP G) (matchAsyncP H)"
    "follows R (consumeSemicolonP G) (consumeSemicolonP H)"
  unfolding lexP_def peekP_def lookahead2P_def expectP_def expectKeywordP_def expectContextualP_def matchAsyncP_def
    consumeSemicolonP_def expectContextualKeyword_def same_values [OF assms]
  by (intro lift_follows steadily_steps)+

lemma skip_follows [frames]: "finer R G H \<Longrightarrow> follows R (skipP G) (skipP H)"
  unfolding skipP_def by (intro frames)

lemma step_follows [frames]:
  "follows R (liftP (expectKeyword e k c)) (liftP (expectKeyword e k c))"
  "follows R (liftP (scanTemplateElement e first)) (liftP (scanTemplateElement e first))"
  "follows R (liftP (call_scanRegExp e)) (liftP (call_scanRegExp e))"
  "follows R markerP markerP" "follows R peekLineTerminatorP peekLineTerminatorP"
  "follows R (unexpectedP token) (unexpectedP token)" "follows R (tolerantP to m) (tolerantP to m)"
  unfolding markerP_def peekLineTerminatorP_def unexpectedP_def tolerantP_def
  by (intro lift_follows steadily_steps)+

lemma error_follows [frames]: "follows R (errorP to m args) (errorP to m args)"
  unfolding errorP_def by (intro lift_follows) simp

lemma look_follows [frames]:
  "follows R (matchP v) (matchP v)" "follows R (matchKeywordP v) (matchKeywordP v)"
  "follows R (matchContextualP v) (matchContextualP v)" "follows R strictP strictP" "follows R moreP moreP"
  "follows R markerPreserveP markerPreserveP" "follows R (typeP node type) (typeP node type)"
  "follows R (propP node key) (propP node key)" "follows R (literalP value token) (literalP value token)"
  unfolding matchP_def matchKeywordP_def matchContextualP_def strictP_def moreP_def markerPreserveP_def typeP_def
    propP_def literalP_def by (intro frames)+

lemma set_follows [frames]:
  "follows R (rewindP token) (rewindP token)" "follows R (setStrictP b) (setStrictP b)"
  unfolding rewindP_def rewind_def setStrictP_def by (auto intro!: quiet_follows R_steady)

lemma free_follows [frames]:
  "follows R (setP (\<lambda>s. s\<lparr>allowIn := b\<rparr>)) (setP (\<lambda>s. s\<lparr>allowIn := b\<rparr>))"
  "follows R (setP (\<lambda>s. s\<lparr>parenthesizedCount := f s\<rparr>)) (setP (\<lambda>s. s\<lparr>parenthesizedCount := f s\<rparr>))"
proof -
  have "R s (s\<lparr>allowIn := b\<rparr>)" for s using R_free(1) [where s = s and b = b and n = "parenthesizedCount s"] by simp
  then show "follows R (setP (\<lambda>s. s\<lparr>allowIn := b\<rparr>)) (setP (\<lambda>s. s\<lparr>allowIn := b\<rparr>))"
    by (intro quiet_follows) auto
  have "R s (s\<lparr>parenthesizedCount := f s\<rparr>)" for s using R_free(1) [where s = s and b = "allowIn s" and n = "f s"] by simp
  then show "follows R (setP (\<lambda>s. s\<lparr>parenthesizedCount := f s\<rparr>)) (setP (\<lambda>s. s\<lparr>parenthesizedCount := f s\<rparr>))"
    by (intro quiet_follows) auto
qed

lemma new_follows [frames]: "follows R (newP node) (newP node)"
  by (rule quiet_follows) (auto simp: newP_def R_free(2) [simplified])

lemma finish_follows [frames]: "follows R (finishP marker node) (finishP marker node)"
  unfolding finishP_def by (intro frames)

end

end
