(* ===== verification/EsFrameRules.thy ===== *)
theory EsFrameRules
  imports EsFrames
begin

text \<open>
  Each production follows itself over a finer grammar, with the laws of \<open>framing\<close>. The proofs unfold the
  production and apply the rules for its parts.
\<close>

context framing begin

text \<open>Types.\<close>

lemma parseVariableIdentifier_follows [frames]:
  assumes "finer R G H"
  shows "follows R (parseVariableIdentifier G) (parseVariableIdentifier H)"
  unfolding parseVariableIdentifier_def same_values [OF assms] by (intro frames assms)

lemma parseNonComputedProperty_follows [frames]:
  assumes "finer R G H"
  shows "follows R (parseNonComputedProperty G) (parseNonComputedProperty H)"
  unfolding parseNonComputedProperty_def same_values [OF assms] by (intro frames assms)

lemma parseObjectPropertyKey_follows [frames]:
  assumes "finer R G H"
  shows "follows R (parseObjectPropertyKey G) (parseObjectPropertyKey H)"
  unfolding parseObjectPropertyKey_def same_values [OF assms] by (intro frames assms)

lemma parseTypeAnnotation_follows [frames]:
  assumes "finer R G H"
  shows "follows R (parseTypeAnnotation G) (parseTypeAnnotation H)"
  unfolding parseTypeAnnotation_def same_values [OF assms] by (intro frames assms)

lemma parseTypeAnnotatableIdentifier_follows [frames]:
  assumes "finer R G H"
  shows "follows R (parseTypeAnnotatableIdentifier G a1 a2) (parseTypeAnnotatableIdentifier H a1 a2)"
  unfolding parseTypeAnnotatableIdentifier_def same_values [OF assms] by (intro frames assms)

lemma until_close_follows [frames]:
  assumes "finer R G H" and "follows R m1 m1'"
  shows "follows R (until_close G a1 m1) (until_close H a1 m1')"
  unfolding until_close_def same_values [OF assms(1)] by (intro frames assms)

lemma parseTypeParameterDeclaration_follows [frames]:
  assumes "finer R G H"
  shows "follows R (parseTypeParameterDeclaration G) (parseTypeParameterDeclaration H)"
  unfolding parseTypeParameterDeclaration_def same_values [OF assms] by (intro frames assms)

lemma parseTypeParameterInstantiation_follows [frames]:
  assumes "finer R G H"
  shows "follows R (parseTypeParameterInstantiation G) (parseTypeParameterInstantiation H)"
  unfolding parseTypeParameterInstantiation_def same_values [OF assms] by (intro frames assms)

lemma optional_declaration_follows [frames]:
  assumes "finer R G H"
  shows "follows R (optional_declaration G a1) (optional_declaration H a1)"
  unfolding optional_declaration_def same_values [OF assms] by (intro frames assms)

lemma optional_instantiation_follows [frames]:
  assumes "finer R G H"
  shows "follows R (optional_instantiation G a1) (optional_instantiation H a1)"
  unfolding optional_instantiation_def same_values [OF assms] by (intro frames assms)

lemma parseFunctionTypeParam_follows [frames]:
  assumes "finer R G H"
  shows "follows R (parseFunctionTypeParam G) (parseFunctionTypeParam H)"
  unfolding parseFunctionTypeParam_def same_values [OF assms] by (intro frames assms)

lemma parseFunctionTypeParams_follows [frames]:
  assumes "finer R G H"
  shows "follows R (parseFunctionTypeParams G) (parseFunctionTypeParams H)"
  unfolding parseFunctionTypeParams_def same_values [OF assms] by (intro frames assms)

lemma parseObjectTypeMethodish_follows [frames]:
  assumes "finer R G H"
  shows "follows R (parseObjectTypeMethodish G a1) (parseObjectTypeMethodish H a1)"
  unfolding parseObjectTypeMethodish_def same_values [OF assms] by (intro frames assms)

lemma parseObjectTypeIndexer_follows [frames]:
  assumes "finer R G H"
  shows "follows R (parseObjectTypeIndexer G a1 a2) (parseObjectTypeIndexer H a1 a2)"
  unfolding parseObjectTypeIndexer_def same_values [OF assms] by (intro frames assms)

lemma parseObjectTypeMethod_follows [frames]:
  assumes "finer R G H"
  shows "follows R (parseObjectTypeMethod G a1 a2 a3) (parseObjectTypeMethod H a1 a2 a3)"
  unfolding parseObjectTypeMethod_def same_values [OF assms] by (intro frames assms)

lemma parseObjectTypeCallProperty_follows [frames]:
  assumes "finer R G H"
  shows "follows R (parseObjectTypeCallProperty G a1 a2) (parseObjectTypeCallProperty H a1 a2)"
  unfolding parseObjectTypeCallProperty_def same_values [OF assms] by (intro frames assms)

lemma object_type_key_follows [frames]:
  assumes "finer R G H"
  shows "follows R (object_type_key G a1 a2) (object_type_key H a1 a2)"
  unfolding object_type_key_def same_values [OF assms] by (intro frames assms)

lemma object_type_property_follows [frames]:
  assumes "finer R G H"
  shows "follows R (object_type_property G a1 a2) (object_type_property H a1 a2)"
  unfolding object_type_property_def same_values [OF assms] by (intro frames assms)

lemma object_type_member_follows [frames]:
  assumes "finer R G H"
  shows "follows R (object_type_member G a1 a2 a3) (object_type_member H a1 a2 a3)"
  unfolding object_type_member_def same_values [OF assms] by (intro frames assms)

lemma object_type_round_follows [frames]:
  assumes "finer R G H"
  shows "follows R (object_type_round G a1 a2) (object_type_round H a1 a2)"
  unfolding object_type_round_def same_values [OF assms] by (intro frames assms)

lemma parseObjectType_follows [frames]:
  assumes "finer R G H"
  shows "follows R (parseObjectType G a1) (parseObjectType H a1)"
  unfolding parseObjectType_def same_values [OF assms] by (intro frames assms)

lemma parseGenericType_follows [frames]:
  assumes "finer R G H"
  shows "follows R (parseGenericType G) (parseGenericType H)"
  unfolding parseGenericType_def same_values [OF assms] by (intro frames assms)

lemma parseVoidType_follows [frames]:
  assumes "finer R G H"
  shows "follows R (parseVoidType G) (parseVoidType H)"
  unfolding parseVoidType_def same_values [OF assms] by (intro frames assms)

lemma parseTypeofType_follows [frames]:
  assumes "finer R G H"
  shows "follows R (parseTypeofType G) (parseTypeofType H)"
  unfolding parseTypeofType_def same_values [OF assms] by (intro frames assms)

lemma parseTupleType_follows [frames]:
  assumes "finer R G H"
  shows "follows R (parseTupleType G) (parseTupleType H)"
  unfolding parseTupleType_def same_values [OF assms] by (intro frames assms)

lemma function_type_follows [frames]:
  assumes "finer R G H"
  shows "follows R (function_type G a1 a2) (function_type H a1 a2)"
  unfolding function_type_def same_values [OF assms] by (intro frames assms)

lemma is_grouped_type_follows [frames]:
  assumes "finer R G H"
  shows "follows R (is_grouped_type G) (is_grouped_type H)"
  unfolding is_grouped_type_def same_values [OF assms] by (intro frames assms)

lemma parenthesized_type_follows [frames]:
  assumes "finer R G H"
  shows "follows R (parenthesized_type G a1) (parenthesized_type H a1)"
  unfolding parenthesized_type_def same_values [OF assms] by (intro frames assms)

lemma named_type_follows [frames]:
  assumes "finer R G H"
  shows "follows R (named_type G a1 a2) (named_type H a1 a2)"
  unfolding named_type_def same_values [OF assms] by (intro frames assms)

lemma no_type_follows [frames]: "follows R no_type no_type"
  unfolding no_type_def by (intro frames)

lemma punctuator_type_follows [frames]:
  assumes "finer R G H"
  shows "follows R (punctuator_type G a1 a2) (punctuator_type H a1 a2)"
  unfolding punctuator_type_def same_values [OF assms] by (intro frames assms)

lemma string_type_follows [frames]:
  assumes "finer R G H"
  shows "follows R (string_type G a1) (string_type H a1)"
  unfolding string_type_def same_values [OF assms] by (intro frames assms)

lemma parsePrimaryType_follows [frames]:
  assumes "finer R G H"
  shows "follows R (parsePrimaryType G) (parsePrimaryType H)"
  unfolding parsePrimaryType_def same_values [OF assms] by (intro frames assms)

lemma parsePostfixType_follows [frames]:
  assumes "finer R G H"
  shows "follows R (parsePostfixType G) (parsePostfixType H)"
  unfolding parsePostfixType_def same_values [OF assms] by (intro frames assms)

lemma parsePrefixType_follows [frames]:
  assumes "finer R G H"
  shows "follows R (parsePrefixType G) (parsePrefixType H)"
  unfolding parsePrefixType_def same_values [OF assms] by (intro frames assms)

lemma type_chain_follows [frames]:
  assumes "finer R G H" and "follows R m1 m1'"
  shows "follows R (type_chain G a1 m1 a2) (type_chain H a1 m1' a2)"
  unfolding type_chain_def same_values [OF assms(1)] by (intro frames assms)

lemma parseIntersectionType_follows [frames]:
  assumes "finer R G H"
  shows "follows R (parseIntersectionType G) (parseIntersectionType H)"
  unfolding parseIntersectionType_def same_values [OF assms] by (intro frames assms)

lemma parseUnionType_follows [frames]:
  assumes "finer R G H"
  shows "follows R (parseUnionType G) (parseUnionType H)"
  unfolding parseUnionType_def same_values [OF assms] by (intro frames assms)

lemma parseType_follows [frames]:
  assumes "finer R G H"
  shows "follows R (parseType G) (parseType H)"
  unfolding parseType_def same_values [OF assms] by (intro frames assms)


text \<open>Patterns.\<close>

lemma reading_follows [frames]: "follows R (reading r) (reading r)"
  unfolding reading_def by (rule quiet_follows) (auto simp: errorP_def liftP_def throwError_def R_refl split: sum.splits option.splits)

lemma reinterpretAsAssignmentBindingPattern_follows [frames]: "follows R (reinterpretAsAssignmentBindingPattern a1) (reinterpretAsAssignmentBindingPattern a1)"
  unfolding reinterpretAsAssignmentBindingPattern_def by (intro frames)

lemma reinterpretAsDestructuredParameter_follows [frames]: "follows R (reinterpretAsDestructuredParameter a1 a2) (reinterpretAsDestructuredParameter a1 a2)"
  unfolding reinterpretAsDestructuredParameter_def by (intro frames)

lemma cover_formal_follows [frames]: "follows R (cover_formal a1 a2 a3) (cover_formal a1 a2 a3)"
  unfolding cover_formal_def by (intro frames)

lemma cover_formals_follows [frames]: "follows R (cover_formals ps options) (cover_formals ps options)"
proof (induction ps arbitrary: options)
  case (Cons p ps)
  show ?case by (cases p) (simp, intro frames cover_formal_follows Cons.IH)
qed (simp, intro frames)

lemma reinterpretAsCoverFormalsList_follows [frames]: "follows R (reinterpretAsCoverFormalsList a1) (reinterpretAsCoverFormalsList a1)"
  unfolding reinterpretAsCoverFormalsList_def by (intro frames)


text \<open>Functions and classes.\<close>

lemma annotated_pattern_follows [frames]:
  assumes "finer R G H"
  shows "follows R (annotated_pattern G a1 a2) (annotated_pattern H a1 a2)"
  unfolding annotated_pattern_def same_values [OF assms] by (intro frames assms)

lemma parameter_target_follows [frames]:
  assumes "finer R G H"
  shows "follows R (parameter_target G a1 a2 a3) (parameter_target H a1 a2 a3)"
  unfolding parameter_target_def same_values [OF assms] by (intro frames assms)

lemma parseParam_follows [frames]:
  assumes "finer R G H"
  shows "follows R (parseParam G a1) (parseParam H a1)"
  unfolding parseParam_def same_values [OF assms] by (intro frames assms)

lemma parseParams_follows [frames]:
  assumes "finer R G H"
  shows "follows R (parseParams G a1) (parseParams H a1)"
  unfolding parseParams_def same_values [OF assms] by (intro frames assms)

lemma parseConciseBody_follows [frames]:
  assumes "finer R G H"
  shows "follows R (parseConciseBody G) (parseConciseBody H)"
  unfolding parseConciseBody_def same_values [OF assms] by (intro frames assms)

lemma in_function_follows [frames]:
  "\<lbrakk>follows R m m'; \<And>x. follows R (c x) (c' x)\<rbrakk> \<Longrightarrow> follows R (in_function g a m c) (in_function g a m' c')"
  unfolding in_function_def by (intro scoped_follows frames) simp_all

lemma parsePropertyFunction_follows [frames]:
  assumes "finer R G H"
  shows "follows R (parsePropertyFunction G a1) (parsePropertyFunction H a1)"
  unfolding parsePropertyFunction_def same_values [OF assms] by (intro frames assms)

lemma report_stricted_follows [frames]: "follows R (report_stricted a1 a2) (report_stricted a1 a2)"
  unfolding report_stricted_def by (intro frames)

lemma parsePropertyMethodFunction_follows [frames]:
  assumes "finer R G H"
  shows "follows R (parsePropertyMethodFunction G a1 a2 a3) (parsePropertyMethodFunction H a1 a2 a3)"
  unfolding parsePropertyMethodFunction_def same_values [OF assms] by (intro frames assms)

lemma check_function_name_follows [frames]: "follows R (check_function_name a1) (check_function_name a1)"
  unfolding check_function_name_def by (intro frames)

lemma function_rest_follows [frames]:
  assumes "finer R G H"
  shows "follows R (function_rest G a1 a2 a3 a4) (function_rest H a1 a2 a3 a4)"
  unfolding function_rest_def same_values [OF assms] by (intro frames assms)

lemma optional_async_follows [frames]:
  assumes "finer R G H"
  shows "follows R (optional_async G) (optional_async H)"
  unfolding optional_async_def same_values [OF assms] by (intro frames assms)

lemma optional_star_follows [frames]:
  assumes "finer R G H"
  shows "follows R (optional_star G) (optional_star H)"
  unfolding optional_star_def same_values [OF assms] by (intro frames assms)

lemma parseFunctionDeclaration_follows [frames]:
  assumes "finer R G H"
  shows "follows R (parseFunctionDeclaration G) (parseFunctionDeclaration H)"
  unfolding parseFunctionDeclaration_def same_values [OF assms] by (intro frames assms)

lemma parseFunctionExpression_follows [frames]:
  assumes "finer R G H"
  shows "follows R (parseFunctionExpression G) (parseFunctionExpression H)"
  unfolding parseFunctionExpression_def same_values [OF assms] by (intro frames assms)

lemma parseArrowFunctionExpression_follows [frames]:
  assumes "finer R G H"
  shows "follows R (parseArrowFunctionExpression G a1 a2 a3) (parseArrowFunctionExpression H a1 a2 a3)"
  unfolding parseArrowFunctionExpression_def same_values [OF assms] by (intro frames assms)

lemma parseYieldExpression_follows [frames]:
  assumes "finer R G H"
  shows "follows R (parseYieldExpression G) (parseYieldExpression H)"
  unfolding parseYieldExpression_def same_values [OF assms] by (intro frames assms)

lemma parseAwaitExpression_follows [frames]:
  assumes "finer R G H"
  shows "follows R (parseAwaitExpression G) (parseAwaitExpression H)"
  unfolding parseAwaitExpression_def same_values [OF assms] by (intro frames assms)

lemma matchAsyncFuncExprOrDecl_follows [frames]:
  assumes "finer R G H"
  shows "follows R (matchAsyncFuncExprOrDecl G) (matchAsyncFuncExprOrDecl H)"
  unfolding matchAsyncFuncExprOrDecl_def same_values [OF assms] by (intro frames assms)

lemma getFieldName_follows [frames]: "follows R (getFieldName a1) (getFieldName a1)"
  unfolding getFieldName_def by (intro frames)

lemma specialMethod_follows [frames]: "follows R (specialMethod a1) (specialMethod a1)"
  unfolding specialMethod_def by (intro frames)

lemma optional_annotation_follows [frames]:
  assumes "finer R G H"
  shows "follows R (optional_annotation G) (optional_annotation H)"
  unfolding optional_annotation_def same_values [OF assms] by (intro frames assms)

lemma getter_function_follows [frames]:
  assumes "finer R G H"
  shows "follows R (getter_function G) (getter_function H)"
  unfolding getter_function_def same_values [OF assms] by (intro frames assms)

lemma setter_function_follows [frames]:
  assumes "finer R G H"
  shows "follows R (setter_function G) (setter_function H)"
  unfolding setter_function_def same_values [OF assms] by (intro frames assms)

lemma method_node_follows [frames]: "follows R (method_node a1 a2 a3 a4 a5) (method_node a1 a2 a3 a4 a5)"
  unfolding method_node_def by (intro frames)

lemma parseMethodDefinition_follows [frames]:
  assumes "finer R G H"
  shows "follows R (parseMethodDefinition G a1 a2 a3 a4) (parseMethodDefinition H a1 a2 a3 a4)"
  unfolding parseMethodDefinition_def same_values [OF assms] by (intro frames assms)

lemma parseClassProperty_follows [frames]:
  assumes "finer R G H"
  shows "follows R (parseClassProperty G a1 a2 a3) (parseClassProperty H a1 a2 a3)"
  unfolding parseClassProperty_def same_values [OF assms] by (intro frames assms)

lemma parseClassElement_follows [frames]:
  assumes "finer R G H"
  shows "follows R (parseClassElement G) (parseClassElement H)"
  unfolding parseClassElement_def same_values [OF assms] by (intro frames assms)

lemma note_element_follows [frames]: "follows R (note_element a1 a2) (note_element a1 a2)"
  unfolding note_element_def by (intro frames)

lemma parseClassBody_follows [frames]:
  assumes "finer R G H"
  shows "follows R (parseClassBody G) (parseClassBody H)"
  unfolding parseClassBody_def same_values [OF assms] by (intro frames assms)

lemma match_strict_word_follows [frames]: "follows R (match_strict_word a1) (match_strict_word a1)"
  unfolding match_strict_word_def by (intro frames)

lemma expect_strict_word_follows [frames]:
  assumes "finer R G H"
  shows "follows R (expect_strict_word G a1) (expect_strict_word H a1)"
  unfolding expect_strict_word_def same_values [OF assms] by (intro frames assms)

lemma parseClassImplements_follows [frames]:
  assumes "finer R G H"
  shows "follows R (parseClassImplements G) (parseClassImplements H)"
  unfolding parseClassImplements_def same_values [OF assms] by (intro frames assms)

lemma class_rest_follows [frames]:
  assumes "finer R G H"
  shows "follows R (class_rest G a1 a2 a3) (class_rest H a1 a2 a3)"
  unfolding class_rest_def same_values [OF assms] by (intro frames assms)

lemma parseClassExpression_follows [frames]:
  assumes "finer R G H"
  shows "follows R (parseClassExpression G) (parseClassExpression H)"
  unfolding parseClassExpression_def same_values [OF assms] by (intro frames assms)

lemma parseClassDeclaration_follows [frames]:
  assumes "finer R G H"
  shows "follows R (parseClassDeclaration G) (parseClassDeclaration H)"
  unfolding parseClassDeclaration_def same_values [OF assms] by (intro frames assms)


text \<open>Expressions.\<close>

lemma parseSpreadOrAssignmentExpression_follows [frames]:
  assumes "finer R G H"
  shows "follows R (parseSpreadOrAssignmentExpression G) (parseSpreadOrAssignmentExpression H)"
  unfolding parseSpreadOrAssignmentExpression_def same_values [OF assms] by (intro frames assms)

lemma parseArguments_follows [frames]:
  assumes "finer R G H"
  shows "follows R (parseArguments G) (parseArguments H)"
  unfolding parseArguments_def same_values [OF assms] by (intro frames assms)

lemma lookahead_is_follows [frames]: "follows R (lookahead_is a1 a2) (lookahead_is a1 a2)"
  unfolding lookahead_is_def by (intro frames)

lemma comprehension_block_follows [frames]:
  assumes "finer R G H"
  shows "follows R (comprehension_block G a1) (comprehension_block H a1)"
  unfolding comprehension_block_def same_values [OF assms] by (intro frames assms)

lemma comprehension_filter_follows [frames]:
  assumes "finer R G H"
  shows "follows R (comprehension_filter G a1) (comprehension_filter H a1)"
  unfolding comprehension_filter_def same_values [OF assms] by (intro frames assms)

lemma array_element_follows [frames]:
  assumes "finer R G H"
  shows "follows R (array_element G a1) (array_element H a1)"
  unfolding array_element_def same_values [OF assms] by (intro frames assms)

lemma array_round_follows [frames]:
  assumes "finer R G H"
  shows "follows R (array_round G a1) (array_round H a1)"
  unfolding array_round_def same_values [OF assms] by (intro frames assms)

lemma parseArrayInitialiser_follows [frames]:
  assumes "finer R G H"
  shows "follows R (parseArrayInitialiser G) (parseArrayInitialiser H)"
  unfolding parseArrayInitialiser_def same_values [OF assms] by (intro frames assms)

lemma property_node_follows [frames]: "follows R (property_node a1 a2 a3 a4 a5 a6 a7) (property_node a1 a2 a3 a4 a5 a6 a7)"
  unfolding property_node_def by (intro frames)

lemma accessor_key_follows [frames]:
  assumes "finer R G H"
  shows "follows R (accessor_key G) (accessor_key H)"
  unfolding accessor_key_def same_values [OF assms] by (intro frames assms)

lemma named_property_follows [frames]:
  assumes "finer R G H"
  shows "follows R (named_property G a1 a2 a3) (named_property H a1 a2 a3)"
  unfolding named_property_def same_values [OF assms] by (intro frames assms)

lemma generator_property_follows [frames]:
  assumes "finer R G H"
  shows "follows R (generator_property G a1 a2) (generator_property H a1 a2)"
  unfolding generator_property_def same_values [OF assms] by (intro frames assms)

lemma literal_property_follows [frames]:
  assumes "finer R G H"
  shows "follows R (literal_property G a1) (literal_property H a1)"
  unfolding literal_property_def same_values [OF assms] by (intro frames assms)

lemma parseObjectProperty_follows [frames]:
  assumes "finer R G H"
  shows "follows R (parseObjectProperty G) (parseObjectProperty H)"
  unfolding parseObjectProperty_def same_values [OF assms] by (intro frames assms)

lemma parseObjectSpreadProperty_follows [frames]:
  assumes "finer R G H"
  shows "follows R (parseObjectSpreadProperty G) (parseObjectSpreadProperty H)"
  unfolding parseObjectSpreadProperty_def same_values [OF assms] by (intro frames assms)

lemma note_property_follows [frames]: "follows R (note_property a1 a2) (note_property a1 a2)"
  unfolding note_property_def by (intro frames)

lemma object_round_follows [frames]:
  assumes "finer R G H"
  shows "follows R (object_round G a1) (object_round H a1)"
  unfolding object_round_def same_values [OF assms] by (intro frames assms)

lemma parseObjectInitialiser_follows [frames]:
  assumes "finer R G H"
  shows "follows R (parseObjectInitialiser G) (parseObjectInitialiser H)"
  unfolding parseObjectInitialiser_def same_values [OF assms] by (intro frames assms)

lemma parseTemplateElement_follows [frames]:
  assumes "finer R G H"
  shows "follows R (parseTemplateElement G a1) (parseTemplateElement H a1)"
  unfolding parseTemplateElement_def same_values [OF assms] by (intro frames assms)

lemma template_round_follows [frames]:
  assumes "finer R G H"
  shows "follows R (template_round G a1) (template_round H a1)"
  unfolding template_round_def same_values [OF assms] by (intro frames assms)

lemma parseTemplateLiteral_follows [frames]:
  assumes "finer R G H"
  shows "follows R (parseTemplateLiteral G) (parseTemplateLiteral H)"
  unfolding parseTemplateLiteral_def same_values [OF assms] by (intro frames assms)

lemma parseGroupExpression_follows [frames]:
  assumes "finer R G H"
  shows "follows R (parseGroupExpression G) (parseGroupExpression H)"
  unfolding parseGroupExpression_def same_values [OF assms] by (intro frames assms)

lemma regexp_literal_follows [frames]:
  assumes "finer R G H"
  shows "follows R (regexp_literal G) (regexp_literal H)"
  unfolding regexp_literal_def same_values [OF assms] by (intro frames assms)

lemma token_literal_follows [frames]:
  assumes "finer R G H"
  shows "follows R (token_literal G a1) (token_literal H a1)"
  unfolding token_literal_def same_values [OF assms] by (intro frames assms)

lemma keyword_expression_follows [frames]:
  assumes "finer R G H" and "follows R m1 m1'"
  shows "follows R (keyword_expression G m1) (keyword_expression H m1')"
  unfolding keyword_expression_def same_values [OF assms(1)] by (intro frames assms)

lemma bracket_expression_follows [frames]:
  assumes "finer R G H"
  shows "follows R (bracket_expression G a1) (bracket_expression H a1)"
  unfolding bracket_expression_def same_values [OF assms] by (intro frames assms)

lemma parsePrimaryExpression_follows [frames]:
  assumes "finer R G H"
  shows "follows R (parsePrimaryExpression G) (parsePrimaryExpression H)"
  unfolding parsePrimaryExpression_def same_values [OF assms] by (intro frames assms)

lemma parseNonComputedMember_follows [frames]:
  assumes "finer R G H"
  shows "follows R (parseNonComputedMember G) (parseNonComputedMember H)"
  unfolding parseNonComputedMember_def same_values [OF assms] by (intro frames assms)

lemma parseComputedMember_follows [frames]:
  assumes "finer R G H"
  shows "follows R (parseComputedMember G) (parseComputedMember H)"
  unfolding parseComputedMember_def same_values [OF assms] by (intro frames assms)

lemma parseNewExpression_follows [frames]:
  assumes "finer R G H"
  shows "follows R (parseNewExpression G) (parseNewExpression H)"
  unfolding parseNewExpression_def same_values [OF assms] by (intro frames assms)

lemma member_round_follows [frames]:
  assumes "finer R G H"
  shows "follows R (member_round G a1 a2 a3) (member_round H a1 a2 a3)"
  unfolding member_round_def same_values [OF assms] by (intro frames assms)

lemma new_or_primary_follows [frames]:
  assumes "finer R G H"
  shows "follows R (new_or_primary G) (new_or_primary H)"
  unfolding new_or_primary_def same_values [OF assms] by (intro frames assms)

lemma parseLeftHandSideExpressionAllowCall_follows [frames]:
  assumes "finer R G H"
  shows "follows R (parseLeftHandSideExpressionAllowCall G) (parseLeftHandSideExpressionAllowCall H)"
  unfolding parseLeftHandSideExpressionAllowCall_def same_values [OF assms] by (intro frames assms)

lemma parseLeftHandSideExpression_follows [frames]:
  assumes "finer R G H"
  shows "follows R (parseLeftHandSideExpression G) (parseLeftHandSideExpression H)"
  unfolding parseLeftHandSideExpression_def same_values [OF assms] by (intro frames assms)

lemma isLeftHandSide_follows [frames]: "follows R (isLeftHandSide a1) (isLeftHandSide a1)"
  unfolding isLeftHandSide_def by (intro frames)

lemma isAssignableLeftHandSide_follows [frames]: "follows R (isAssignableLeftHandSide a1) (isAssignableLeftHandSide a1)"
  unfolding isAssignableLeftHandSide_def by (intro frames)

lemma restricted_target_follows [frames]: "follows R (restricted_target a1) (restricted_target a1)"
  unfolding restricted_target_def by (intro frames)

lemma update_target_follows [frames]: "follows R (update_target a1 a2) (update_target a1 a2)"
  unfolding update_target_def by (intro frames)

lemma parsePostfixExpression_follows [frames]:
  assumes "finer R G H"
  shows "follows R (parsePostfixExpression G) (parsePostfixExpression H)"
  unfolding parsePostfixExpression_def same_values [OF assms] by (intro frames assms)

lemma parseUnaryExpression_follows [frames]:
  assumes "finer R G H"
  shows "follows R (parseUnaryExpression G) (parseUnaryExpression H)"
  unfolding parseUnaryExpression_def same_values [OF assms] by (intro frames assms)


text \<open>Operators.\<close>

lemma combine_follows [frames]: "follows R (combine a1 a2 a3) (combine a1 a2 a3)"
  unfolding combine_def by (intro frames)

lemma reduce_stack_follows [frames]: "follows R (reduce_stack prec right stack) (reduce_stack prec right stack)"
proof (induction prec right stack rule: reduce_stack.induct)
  case (2 prec right operator left stack)
  show ?case
  proof (cases "prec \<le> snd operator")
    case True
    show ?thesis unfolding reduce_stack.simps if_P [OF True] by (intro frames "2.IH" True)
  next
    case False
    show ?thesis unfolding reduce_stack.simps if_not_P [OF False] by (intro frames)
  qed
qed (unfold reduce_stack.simps, intro frames)

lemma apply_stack_follows [frames]: "follows R (apply_stack right stack) (apply_stack right stack)"
proof (induction right stack rule: apply_stack.induct)
  case (2 right operator left stack)
  show ?case unfolding apply_stack.simps by (intro frames "2.IH")
qed (unfold apply_stack.simps, intro frames)

lemma read_operand_follows [frames]:
  assumes "finer R G H"
  shows "follows R (read_operand G) (read_operand H)"
  unfolding read_operand_def same_values [OF assms] by (intro frames assms)

lemma binary_round_follows [frames]:
  assumes "finer R G H"
  shows "follows R (binary_round G a1 a2) (binary_round H a1 a2)"
  unfolding binary_round_def same_values [OF assms] by (intro frames assms)

lemma parseBinaryExpression_follows [frames]:
  assumes "finer R G H"
  shows "follows R (parseBinaryExpression G) (parseBinaryExpression H)"
  unfolding parseBinaryExpression_def same_values [OF assms] by (intro frames assms)

lemma parseConditionalExpression_follows [frames]:
  assumes "finer R G H"
  shows "follows R (parseConditionalExpression G) (parseConditionalExpression H)"
  unfolding parseConditionalExpression_def same_values [OF assms] by (intro frames assms)

lemma arrow_params_follows [frames]:
  assumes "finer R G H"
  shows "follows R (arrow_params G a1 a2) (arrow_params H a1 a2)"
  unfolding arrow_params_def same_values [OF assms] by (intro frames assms)

lemma assignment_rest_follows [frames]:
  assumes "finer R G H"
  shows "follows R (assignment_rest G a1 a2 a3) (assignment_rest H a1 a2 a3)"
  unfolding assignment_rest_def same_values [OF assms] by (intro frames assms)

lemma assignment_expression_follows [frames]:
  assumes "finer R G H"
  shows "follows R (assignment_expression G a1 a2 a3 a4 a5) (assignment_expression H a1 a2 a3 a4 a5)"
  unfolding assignment_expression_def same_values [OF assms] by (intro frames assms)

lemma arrow_or_assignment_follows [frames]:
  assumes "finer R G H"
  shows "follows R (arrow_or_assignment G a1 a2 a3 a4) (arrow_or_assignment H a1 a2 a3 a4)"
  unfolding arrow_or_assignment_def same_values [OF assms] by (intro frames assms)

lemma parseAssignmentExpression_follows [frames]:
  assumes "finer R G H"
  shows "follows R (parseAssignmentExpression G) (parseAssignmentExpression H)"
  unfolding parseAssignmentExpression_def same_values [OF assms] by (intro frames assms)

lemma sequence_round_follows [frames]:
  assumes "finer R G H"
  shows "follows R (sequence_round G a1) (sequence_round H a1)"
  unfolding sequence_round_def same_values [OF assms] by (intro frames assms)

lemma parseExpression_follows [frames]:
  assumes "finer R G H"
  shows "follows R (parseExpression G) (parseExpression H)"
  unfolding parseExpression_def same_values [OF assms] by (intro frames assms)


text \<open>JSX.\<close>

lemma getQualifiedJSXName_follows [frames]: "follows R (getQualifiedJSXName a1) (getQualifiedJSXName a1)"
  unfolding getQualifiedJSXName_def by (intro frames)

lemma parseJSXIdentifier_follows [frames]:
  assumes "finer R G H"
  shows "follows R (parseJSXIdentifier G) (parseJSXIdentifier H)"
  unfolding parseJSXIdentifier_def same_values [OF assms] by (intro frames assms)

lemma parseJSXNamespacedName_follows [frames]:
  assumes "finer R G H"
  shows "follows R (parseJSXNamespacedName G) (parseJSXNamespacedName H)"
  unfolding parseJSXNamespacedName_def same_values [OF assms] by (intro frames assms)

lemma jsx_member_round_follows [frames]:
  assumes "finer R G H"
  shows "follows R (jsx_member_round G a1 a2) (jsx_member_round H a1 a2)"
  unfolding jsx_member_round_def same_values [OF assms] by (intro frames assms)

lemma parseJSXMemberExpression_follows [frames]:
  assumes "finer R G H"
  shows "follows R (parseJSXMemberExpression G) (parseJSXMemberExpression H)"
  unfolding parseJSXMemberExpression_def same_values [OF assms] by (intro frames assms)

lemma next_is_follows [frames]:
  assumes "finer R G H"
  shows "follows R (next_is G a1) (next_is H a1)"
  unfolding next_is_def same_values [OF assms] by (intro frames assms)

lemma parseJSXElementName_follows [frames]:
  assumes "finer R G H"
  shows "follows R (parseJSXElementName G) (parseJSXElementName H)"
  unfolding parseJSXElementName_def same_values [OF assms] by (intro frames assms)

lemma parseJSXAttributeName_follows [frames]:
  assumes "finer R G H"
  shows "follows R (parseJSXAttributeName G) (parseJSXAttributeName H)"
  unfolding parseJSXAttributeName_def same_values [OF assms] by (intro frames assms)

lemma setJSX_follows [frames]: "follows R (setJSX a b) (setJSX a b)" "follows R (setJSXChild a) (setJSXChild a)"
  "follows R (setJSXTag b) (setJSXTag b)"
  unfolding setJSX_def setJSXChild_def setJSXTag_def by (auto intro!: quiet_follows R_steady)

lemma to_brace_follows [frames]: "follows R to_brace to_brace"
  by (rule quiet_follows) (auto simp: to_brace_def Let_def intro!: R_steady split: if_splits)

lemma parseJSXEmptyExpression_follows [frames]: "follows R parseJSXEmptyExpression parseJSXEmptyExpression"
  unfolding parseJSXEmptyExpression_def by (intro frames)

lemma parseJSXExpressionContainer_follows [frames]:
  assumes "finer R G H"
  shows "follows R (parseJSXExpressionContainer G) (parseJSXExpressionContainer H)"
  unfolding parseJSXExpressionContainer_def same_values [OF assms] by (intro frames assms)

lemma parseJSXSpreadAttribute_follows [frames]:
  assumes "finer R G H"
  shows "follows R (parseJSXSpreadAttribute G) (parseJSXSpreadAttribute H)"
  unfolding parseJSXSpreadAttribute_def same_values [OF assms] by (intro frames assms)

lemma jsx_text_literal_follows [frames]:
  assumes "finer R G H"
  shows "follows R (jsx_text_literal G a1) (jsx_text_literal H a1)"
  unfolding jsx_text_literal_def same_values [OF assms] by (intro frames assms)

lemma looks_like_follows [frames]: "follows R (looks_like a1) (looks_like a1)"
  unfolding looks_like_def by (intro frames)

lemma parseJSXAttributeValue_follows [frames]:
  assumes "finer R G H"
  shows "follows R (parseJSXAttributeValue G) (parseJSXAttributeValue H)"
  unfolding parseJSXAttributeValue_def same_values [OF assms] by (intro frames assms)

lemma parseJSXAttribute_follows [frames]:
  assumes "finer R G H"
  shows "follows R (parseJSXAttribute G) (parseJSXAttribute H)"
  unfolding parseJSXAttribute_def same_values [OF assms] by (intro frames assms)

lemma parseJSXChild_follows [frames]:
  assumes "finer R G H"
  shows "follows R (parseJSXChild G) (parseJSXChild H)"
  unfolding parseJSXChild_def same_values [OF assms] by (intro frames assms)

lemma parseJSXClosingElement_follows [frames]:
  assumes "finer R G H"
  shows "follows R (parseJSXClosingElement G) (parseJSXClosingElement H)"
  unfolding parseJSXClosingElement_def same_values [OF assms] by (intro frames assms)

lemma jsx_attribute_round_follows [frames]:
  assumes "finer R G H"
  shows "follows R (jsx_attribute_round G a1) (jsx_attribute_round H a1)"
  unfolding jsx_attribute_round_def same_values [OF assms] by (intro frames assms)

lemma parseJSXOpeningElement_follows [frames]:
  assumes "finer R G H"
  shows "follows R (parseJSXOpeningElement G) (parseJSXOpeningElement H)"
  unfolding parseJSXOpeningElement_def same_values [OF assms] by (intro frames assms)

lemma jsx_child_round_follows [frames]:
  assumes "finer R G H"
  shows "follows R (jsx_child_round G a1) (jsx_child_round H a1)"
  unfolding jsx_child_round_def same_values [OF assms] by (intro frames assms)

lemma jsx_closing_follows [frames]:
  assumes "finer R G H"
  shows "follows R (jsx_closing G a1) (jsx_closing H a1)"
  unfolding jsx_closing_def same_values [OF assms] by (intro frames assms)

lemma parseJSXElement_follows [frames]:
  assumes "finer R G H"
  shows "follows R (parseJSXElement G) (parseJSXElement H)"
  unfolding parseJSXElement_def same_values [OF assms] by (intro frames assms)


text \<open>Statements.\<close>

lemma element_round_follows [frames]:
  assumes "follows R m1 m1'" and "follows R m2 m2'"
  shows "follows R (element_round m1 m2 a1) (element_round m1' m2' a1)"
  unfolding element_round_def by (intro frames assms)

lemma parseStatementList_follows [frames]:
  assumes "finer R G H"
  shows "follows R (parseStatementList G) (parseStatementList H)"
  unfolding parseStatementList_def same_values [OF assms] by (intro frames assms)

lemma parseBlock_follows [frames]:
  assumes "finer R G H"
  shows "follows R (parseBlock G) (parseBlock H)"
  unfolding parseBlock_def same_values [OF assms] by (intro frames assms)

lemma binding_target_follows [frames]:
  assumes "finer R G H" and "follows R m1 m1'"
  shows "follows R (binding_target G a1 m1) (binding_target H a1 m1')"
  unfolding binding_target_def same_values [OF assms(1)] by (intro frames assms)

lemma parseVariableDeclaration_follows [frames]:
  assumes "finer R G H"
  shows "follows R (parseVariableDeclaration G a1) (parseVariableDeclaration H a1)"
  unfolding parseVariableDeclaration_def same_values [OF assms] by (intro frames assms)

lemma variable_round_follows [frames]:
  assumes "finer R G H"
  shows "follows R (variable_round G a1 a2) (variable_round H a1 a2)"
  unfolding variable_round_def same_values [OF assms] by (intro frames assms)

lemma parseVariableDeclarationList_follows [frames]:
  assumes "finer R G H"
  shows "follows R (parseVariableDeclarationList G a1) (parseVariableDeclarationList H a1)"
  unfolding parseVariableDeclarationList_def same_values [OF assms] by (intro frames assms)

lemma parseVariableStatement_follows [frames]:
  assumes "finer R G H"
  shows "follows R (parseVariableStatement G) (parseVariableStatement H)"
  unfolding parseVariableStatement_def same_values [OF assms] by (intro frames assms)

lemma parseConstLetDeclaration_follows [frames]:
  assumes "finer R G H"
  shows "follows R (parseConstLetDeclaration G a1) (parseConstLetDeclaration H a1)"
  unfolding parseConstLetDeclaration_def same_values [OF assms] by (intro frames assms)

lemma parseEmptyStatement_follows [frames]:
  assumes "finer R G H"
  shows "follows R (parseEmptyStatement G) (parseEmptyStatement H)"
  unfolding parseEmptyStatement_def same_values [OF assms] by (intro frames assms)

lemma parseExpressionStatement_follows [frames]:
  assumes "finer R G H"
  shows "follows R (parseExpressionStatement G) (parseExpressionStatement H)"
  unfolding parseExpressionStatement_def same_values [OF assms] by (intro frames assms)

lemma grouped_expression_follows [frames]:
  assumes "finer R G H"
  shows "follows R (grouped_expression G) (grouped_expression H)"
  unfolding grouped_expression_def same_values [OF assms] by (intro frames assms)

lemma parseIfStatement_follows [frames]:
  assumes "finer R G H"
  shows "follows R (parseIfStatement G) (parseIfStatement H)"
  unfolding parseIfStatement_def same_values [OF assms] by (intro frames assms)

lemma in_iteration_follows [frames]: "follows R m m' \<Longrightarrow> follows R (in_iteration m) (in_iteration m')"
  unfolding in_iteration_def by (intro scoped_follows) simp_all

lemma parseDoWhileStatement_follows [frames]:
  assumes "finer R G H"
  shows "follows R (parseDoWhileStatement G) (parseDoWhileStatement H)"
  unfolding parseDoWhileStatement_def same_values [OF assms] by (intro frames assms)

lemma parseWhileStatement_follows [frames]:
  assumes "finer R G H"
  shows "follows R (parseWhileStatement G) (parseWhileStatement H)"
  unfolding parseWhileStatement_def same_values [OF assms] by (intro frames assms)

lemma parseForVariableDeclaration_follows [frames]:
  assumes "finer R G H"
  shows "follows R (parseForVariableDeclaration G) (parseForVariableDeclaration H)"
  unfolding parseForVariableDeclaration_def same_values [OF assms] by (intro frames assms)

lemma without_in_follows [frames]: "follows R m m' \<Longrightarrow> follows R (without_in m) (without_in m')"
  unfolding without_in_def by (intro frames)

lemma sole_declaration_follows [frames]: "follows R (sole_declaration a1) (sole_declaration a1)"
  unfolding sole_declaration_def by (intro frames)

lemma for_declaration_follows [frames]:
  assumes "finer R G H"
  shows "follows R (for_declaration G) (for_declaration H)"
  unfolding for_declaration_def same_values [OF assms] by (intro frames assms)

lemma for_expression_follows [frames]:
  assumes "finer R G H"
  shows "follows R (for_expression G) (for_expression H)"
  unfolding for_expression_def same_values [OF assms] by (intro frames assms)

lemma for_head_follows [frames]:
  assumes "finer R G H"
  shows "follows R (for_head G) (for_head H)"
  unfolding for_head_def same_values [OF assms] by (intro frames assms)

lemma for_rest_follows [frames]:
  assumes "finer R G H"
  shows "follows R (for_rest G) (for_rest H)"
  unfolding for_rest_def same_values [OF assms] by (intro frames assms)

lemma parseForStatement_follows [frames]:
  assumes "finer R G H"
  shows "follows R (parseForStatement G a1) (parseForStatement H a1)"
  unfolding parseForStatement_def same_values [OF assms] by (intro frames assms)

lemma jump_label_follows [frames]:
  assumes "finer R G H"
  shows "follows R (jump_label G) (jump_label H)"
  unfolding jump_label_def same_values [OF assms] by (intro frames assms)

lemma jump_statement_follows [frames]:
  assumes "finer R G H"
  shows "follows R (jump_statement G a1 a2 a3 a4) (jump_statement H a1 a2 a3 a4)"
  unfolding jump_statement_def same_values [OF assms] Let_def by (intro frames assms)

lemma parseContinueStatement_follows [frames]:
  assumes "finer R G H"
  shows "follows R (parseContinueStatement G) (parseContinueStatement H)"
  unfolding parseContinueStatement_def same_values [OF assms] by (intro frames assms)

lemma parseBreakStatement_follows [frames]:
  assumes "finer R G H"
  shows "follows R (parseBreakStatement G) (parseBreakStatement H)"
  unfolding parseBreakStatement_def same_values [OF assms] by (intro frames assms)

lemma return_argument_follows [frames]:
  assumes "finer R G H"
  shows "follows R (return_argument G) (return_argument H)"
  unfolding return_argument_def same_values [OF assms] by (intro frames assms)

lemma parseReturnStatement_follows [frames]:
  assumes "finer R G H"
  shows "follows R (parseReturnStatement G) (parseReturnStatement H)"
  unfolding parseReturnStatement_def same_values [OF assms] by (intro frames assms)

lemma parseThrowStatement_follows [frames]:
  assumes "finer R G H"
  shows "follows R (parseThrowStatement G) (parseThrowStatement H)"
  unfolding parseThrowStatement_def same_values [OF assms] by (intro frames assms)

lemma parseDebuggerStatement_follows [frames]:
  assumes "finer R G H"
  shows "follows R (parseDebuggerStatement G) (parseDebuggerStatement H)"
  unfolding parseDebuggerStatement_def same_values [OF assms] by (intro frames assms)

lemma parseWithStatement_follows [frames]:
  assumes "finer R G H"
  shows "follows R (parseWithStatement G) (parseWithStatement H)"
  unfolding parseWithStatement_def same_values [OF assms] by (intro frames assms)


text \<open>Blocks.\<close>

lemma parseSwitchCase_follows [frames]:
  assumes "finer R G H"
  shows "follows R (parseSwitchCase G) (parseSwitchCase H)"
  unfolding parseSwitchCase_def same_values [OF assms] by (intro frames assms)

lemma switch_round_follows [frames]:
  assumes "finer R G H"
  shows "follows R (switch_round G a1) (switch_round H a1)"
  unfolding switch_round_def same_values [OF assms] by (intro frames assms)

lemma parseSwitchStatement_follows [frames]:
  assumes "finer R G H"
  shows "follows R (parseSwitchStatement G) (parseSwitchStatement H)"
  unfolding parseSwitchStatement_def same_values [OF assms] by (intro frames assms)

lemma parseCatchClause_follows [frames]:
  assumes "finer R G H"
  shows "follows R (parseCatchClause G) (parseCatchClause H)"
  unfolding parseCatchClause_def same_values [OF assms] by (intro frames assms)

lemma parseTryStatement_follows [frames]:
  assumes "finer R G H"
  shows "follows R (parseTryStatement G) (parseTryStatement H)"
  unfolding parseTryStatement_def same_values [OF assms] by (intro frames assms)

lemma labelled_follows [frames]:
  assumes "finer R G H"
  shows "follows R (labelled G name) (labelled H name)"
proof -
  have m: "follows R (r_statement G) (r_statement H)" using assms by (rule frames)
  show ?thesis unfolding follows_def labelled_def ifP_def
    using scope_Parsed [OF m, of "In_label name"] scope_Raised [OF m, of "In_label name"]
    by (auto simp: bindP_def getP_def errorP_def liftP_def throwError_def split: parsed.splits)
qed

lemma labelled_or_expression_follows [frames]:
  assumes "finer R G H"
  shows "follows R (labelled_or_expression G) (labelled_or_expression H)"
  unfolding labelled_or_expression_def same_values [OF assms] by (intro frames assms)

lemma pick_follows:
  "\<lbrakk>list_all2 (\<lambda>x y. fst x = fst y \<and> follows R (snd x) (snd y)) ms ms'; follows R m m'\<rbrakk>
    \<Longrightarrow> follows R (pick ms token m) (pick ms' token m')"
  by (induction ms ms' rule: list_all2_induct) (auto intro: frames)

lemma keyword_statement_follows [frames]:
  assumes "finer R G H" and "follows R m m'"
  shows "follows R (keyword_statement G token m) (keyword_statement H token m')"
  unfolding keyword_statement_def
  by (intro pick_follows list_all2_Cons [THEN iffD2] conjI list.rel_intros assms) (simp, (intro frames assms(1))?)+

lemma punctuator_statement_follows [frames]:
  assumes "finer R G H" and "follows R m m'"
  shows "follows R (punctuator_statement G token m) (punctuator_statement H token m')"
  unfolding punctuator_statement_def
  by (intro pick_follows list.rel_intros conjI assms) (simp, (intro frames assms(1))?)+

lemma parseStatement_follows [frames]:
  assumes "finer R G H"
  shows "follows R (parseStatement G) (parseStatement H)"
  unfolding parseStatement_def same_values [OF assms] Let_def by (intro frames assms)

lemma directive_round_follows [frames]:
  assumes "follows R m1 m1'"
  shows "follows R (directive_round m1 a1) (directive_round m1' a1)"
  unfolding directive_round_def by (intro frames assms)

lemma parseFunctionSourceElements_follows [frames]:
  assumes "finer R G H"
  shows "follows R (parseFunctionSourceElements G) (parseFunctionSourceElements H)"
  unfolding parseFunctionSourceElements_def same_values [OF assms] by (intro frames assms)


text \<open>Modules and programs.\<close>

lemma parseModuleSpecifier_follows [frames]:
  assumes "finer R G H"
  shows "follows R (parseModuleSpecifier G) (parseModuleSpecifier H)"
  unfolding parseModuleSpecifier_def same_values [OF assms] by (intro frames assms)

lemma parseExportBatchSpecifier_follows [frames]:
  assumes "finer R G H"
  shows "follows R (parseExportBatchSpecifier G) (parseExportBatchSpecifier H)"
  unfolding parseExportBatchSpecifier_def same_values [OF assms] by (intro frames assms)

lemma parseExportSpecifier_follows [frames]:
  assumes "finer R G H"
  shows "follows R (parseExportSpecifier G) (parseExportSpecifier H)"
  unfolding parseExportSpecifier_def same_values [OF assms] by (intro frames assms)

lemma missing_from_follows [frames]:
  assumes "finer R G H"
  shows "follows R (missing_from G) (missing_from H)"
  unfolding missing_from_def same_values [OF assms] by (intro frames assms)

lemma from_clause_follows [frames]:
  assumes "finer R G H"
  shows "follows R (from_clause G) (from_clause H)"
  unfolding from_clause_def same_values [OF assms] by (intro frames assms)

lemma finish_export_follows [frames]: "follows R (finish_export a1 a2 a3 a4 a5) (finish_export a1 a2 a3 a4 a5)"
  unfolding finish_export_def by (intro frames)

lemma default_function_or_class_follows [frames]:
  assumes "finer R G H"
  shows "follows R (default_function_or_class G a1) (default_function_or_class H a1)"
  unfolding default_function_or_class_def same_values [OF assms] by (intro frames assms)

lemma default_value_follows [frames]:
  assumes "finer R G H"
  shows "follows R (default_value G a1) (default_value H a1)"
  unfolding default_value_def same_values [OF assms] by (intro frames assms)

lemma export_specifier_round_follows [frames]:
  assumes "finer R G H"
  shows "follows R (export_specifier_round G a1) (export_specifier_round H a1)"
  unfolding export_specifier_round_def same_values [OF assms] by (intro frames assms)

lemma export_list_follows [frames]:
  assumes "finer R G H"
  shows "follows R (export_list G a1) (export_list H a1)"
  unfolding export_list_def same_values [OF assms] by (intro frames assms)

lemma export_all_follows [frames]:
  assumes "finer R G H"
  shows "follows R (export_all G a1) (export_all H a1)"
  unfolding export_all_def same_values [OF assms] by (intro frames assms)

lemma parseExportDeclaration_follows [frames]:
  assumes "finer R G H"
  shows "follows R (parseExportDeclaration G) (parseExportDeclaration H)"
  unfolding parseExportDeclaration_def same_values [OF assms] by (intro frames assms)

lemma parseImportSpecifier_follows [frames]:
  assumes "finer R G H"
  shows "follows R (parseImportSpecifier G) (parseImportSpecifier H)"
  unfolding parseImportSpecifier_def same_values [OF assms] by (intro frames assms)

lemma import_specifier_round_follows [frames]:
  assumes "finer R G H"
  shows "follows R (import_specifier_round G a1) (import_specifier_round H a1)"
  unfolding import_specifier_round_def same_values [OF assms] by (intro frames assms)

lemma parseNamedImports_follows [frames]:
  assumes "finer R G H"
  shows "follows R (parseNamedImports G) (parseNamedImports H)"
  unfolding parseNamedImports_def same_values [OF assms] by (intro frames assms)

lemma parseImportDefaultSpecifier_follows [frames]:
  assumes "finer R G H"
  shows "follows R (parseImportDefaultSpecifier G) (parseImportDefaultSpecifier H)"
  unfolding parseImportDefaultSpecifier_def same_values [OF assms] by (intro frames assms)

lemma parseImportNamespaceSpecifier_follows [frames]:
  assumes "finer R G H"
  shows "follows R (parseImportNamespaceSpecifier G) (parseImportNamespaceSpecifier H)"
  unfolding parseImportNamespaceSpecifier_def same_values [OF assms] by (intro frames assms)

lemma import_type_follows [frames]:
  assumes "finer R G H"
  shows "follows R (import_type G) (import_type H)"
  unfolding import_type_def same_values [OF assms] by (intro frames assms)

lemma import_clause_follows [frames]:
  assumes "finer R G H"
  shows "follows R (import_clause G) (import_clause H)"
  unfolding import_clause_def same_values [OF assms] by (intro frames assms)

lemma parseImportDeclaration_follows [frames]:
  assumes "finer R G H"
  shows "follows R (parseImportDeclaration G) (parseImportDeclaration H)"
  unfolding parseImportDeclaration_def same_values [OF assms] by (intro frames assms)

lemma parseTypeAlias_follows [frames]:
  assumes "finer R G H"
  shows "follows R (parseTypeAlias G) (parseTypeAlias H)"
  unfolding parseTypeAlias_def same_values [OF assms] by (intro frames assms)

lemma parseInterfaceExtends_follows [frames]:
  assumes "finer R G H"
  shows "follows R (parseInterfaceExtends G) (parseInterfaceExtends H)"
  unfolding parseInterfaceExtends_def same_values [OF assms] by (intro frames assms)

lemma extends_round_follows [frames]:
  assumes "finer R G H"
  shows "follows R (extends_round G a1) (extends_round H a1)"
  unfolding extends_round_def same_values [OF assms] by (intro frames assms)

lemma parseInterfaceish_follows [frames]:
  assumes "finer R G H"
  shows "follows R (parseInterfaceish G a1 a2) (parseInterfaceish H a1 a2)"
  unfolding parseInterfaceish_def same_values [OF assms] by (intro frames assms)

lemma parseInterface_follows [frames]:
  assumes "finer R G H"
  shows "follows R (parseInterface G) (parseInterface H)"
  unfolding parseInterface_def same_values [OF assms] by (intro frames assms)

lemma parseDeclareClass_follows [frames]:
  assumes "finer R G H"
  shows "follows R (parseDeclareClass G) (parseDeclareClass H)"
  unfolding parseDeclareClass_def same_values [OF assms] by (intro frames assms)

lemma declared_type_follows [frames]:
  assumes "finer R G H"
  shows "follows R (declared_type G a1) (declared_type H a1)"
  unfolding declared_type_def same_values [OF assms] by (intro frames assms)

lemma parseDeclareFunction_follows [frames]:
  assumes "finer R G H"
  shows "follows R (parseDeclareFunction G) (parseDeclareFunction H)"
  unfolding parseDeclareFunction_def same_values [OF assms] by (intro frames assms)

lemma parseDeclareVariable_follows [frames]:
  assumes "finer R G H"
  shows "follows R (parseDeclareVariable G) (parseDeclareVariable H)"
  unfolding parseDeclareVariable_def same_values [OF assms] by (intro frames assms)

lemma declared_module_name_follows [frames]:
  assumes "finer R G H"
  shows "follows R (declared_module_name G) (declared_module_name H)"
  unfolding declared_module_name_def same_values [OF assms] by (intro frames assms)

lemma module_round_follows [frames]:
  assumes "finer R G H"
  shows "follows R (module_round G a1) (module_round H a1)"
  unfolding module_round_def same_values [OF assms] by (intro frames assms)

lemma parseDeclareModule_follows [frames]:
  assumes "finer R G H"
  shows "follows R (parseDeclareModule G) (parseDeclareModule H)"
  unfolding parseDeclareModule_def same_values [OF assms] by (intro frames assms)

lemma keyword_element_follows [frames]:
  assumes "finer R G H"
  shows "follows R (keyword_element G a1) (keyword_element H a1)"
  unfolding keyword_element_def same_values [OF assms] by (intro frames assms)

lemma announces_follows [frames]:
  assumes "finer R G H"
  shows "follows R (announces G a1) (announces H a1)"
  unfolding announces_def same_values [OF assms] by (intro frames assms)

lemma declare_element_follows [frames]:
  assumes "finer R G H" and "follows R m1 m1'"
  shows "follows R (declare_element G m1) (declare_element H m1')"
  unfolding declare_element_def same_values [OF assms(1)] by (intro frames assms)

lemma parseSourceElement_follows [frames]:
  assumes "finer R G H"
  shows "follows R (parseSourceElement G) (parseSourceElement H)"
  unfolding parseSourceElement_def same_values [OF assms] by (intro frames assms)

lemma parseProgramElement_follows [frames]:
  assumes "finer R G H"
  shows "follows R (parseProgramElement G) (parseProgramElement H)"
  unfolding parseProgramElement_def same_values [OF assms] by (intro frames assms)

lemma parseProgramElements_follows [frames]:
  assumes "finer R G H"
  shows "follows R (parseProgramElements G) (parseProgramElements H)"
  unfolding parseProgramElements_def same_values [OF assms] by (intro frames assms)

lemma parseProgram_follows [frames]:
  assumes "finer R G H"
  shows "follows R (parseProgram G) (parseProgram H)"
  unfolding parseProgram_def same_values [OF assms] by (intro frames assms)

end

end
