(* ===== verification/EsSamples.thy ===== *)
theory EsSamples
  imports EsParse
begin

text \<open>
  Runs of the parser on small sources, evaluated by the simplifier: tokens by evaluation of the scanner,
  productions by unfolding them where they are applied to a state. The theorems about the parser are
  applied to these runs.
\<close>

subsection \<open>The host, the options and the states\<close>

definition sample_host :: host where
  "sample_host = \<lparr>eng = any_engine, numberValue = (\<lambda>n. VOther [])\<rparr>"

definition no_options :: parse_options where
  "no_options = \<lparr>po_range = False, po_loc = False, po_source = None, po_sourceType = None, po_tokens = False,
     po_comment = False, po_tolerant = False\<rparr>"

text \<open>On the first line of a source, at an index, with a token of lookahead.\<close>

definition on_line :: "nat \<Rightarrow> pos" where
  "on_line i = \<lparr>index = i, lineNumber = 1, lineStart = 0\<rparr>"

definition scanner_at :: "jsstring \<Rightarrow> nat \<Rightarrow> token option \<Rightarrow> scanner" where
  "scanner_at src i l = (scn (parse_start False no_options src))\<lparr>pos := on_line i, lookahead := l\<rparr>"

definition parser_at :: "jsstring \<Rightarrow> nat \<Rightarrow> token option \<Rightarrow> nat \<Rightarrow> pstate" where
  "parser_at src i l n = (parse_start False no_options src)\<lparr>scn := scanner_at src i l, nextNode := n\<rparr>"

definition token_from :: "token_type \<Rightarrow> tvalue \<Rightarrow> nat \<Rightarrow> nat \<Rightarrow> token" where
  "token_from type value i j = mk_token type value i (on_line j)"

lemma scanner_at_simps [simp]:
  "lookahead (scanner_at src i l) = l" "source (scanner_at src i l) = src" "index (pos (scanner_at src i l)) = i"
  "strict (scanner_at src i l) = False" "x_loc (scanner_at src i l) = False" "x_range (scanner_at src i l) = False"
  "(scanner_at src i l)\<lparr>strict := False\<rparr> = scanner_at src i l"
  by (simp_all add: scanner_at_def parse_start_def no_options_def on_line_def)

lemma token_from_simps [simp]:
  "tok_type (token_from type value i j) = type" "tok_value (token_from type value i j) = value"
  by (simp_all add: token_from_def mk_token_def)

lemma parser_at_simps:
  "scn (parser_at src i l n) = scanner_at src i l" "(parser_at src i l n)\<lparr>scn := scanner_at src j k\<rparr> = parser_at src j k n"
  "(parser_at src i l n)\<lparr>nextNode := m\<rparr> = parser_at src i l m" "nextNode (parser_at src i l n) = n"
  "(parser_at src i l n)\<lparr>allowIn := True\<rparr> = parser_at src i l n" "allowIn (parser_at src i l n) = True"
  "sourceType (parser_at src i l n) = None" "inFunctionBody (parser_at src i l n) = False"
  "labelSet (parser_at src i l n) = StringMap"
  by (simp_all add: parser_at_def parse_start_def no_options_def)

lemma parse_start_at: "src \<noteq> [] \<Longrightarrow> parse_start False no_options src = parser_at src 0 None 0"
  by (simp add: parser_at_def scanner_at_def parse_start_def no_options_def on_line_def)

lemma sample_host_engine [simp]: "eng sample_host = any_engine"
  by (simp add: sample_host_def)

subsection \<open>Unfolding\<close>

lemma grammar_at_simps:
  "host (grammar_at h n) = h" "fuel (grammar_at h n) = n"
  "r_statement (grammar_at h (Suc n)) = parseStatement (grammar_at h n)"
  "r_sourceElement (grammar_at h (Suc n)) = parseSourceElement (grammar_at h n)"
  "r_expression (grammar_at h (Suc n)) = parseExpression (grammar_at h n)"
  "r_unary (grammar_at h (Suc n)) = parseUnaryExpression (grammar_at h n)"
  by (cases n; simp add: Let_def)+

lemmas run_combinators = bindP_def thenP_def ifP_def orP_def andP_def notP_def whenP_def rounds_def liftP_def Let_def
  engine_of_def value_of_def token_value_def grammar_at_simps lexP_def skipP_def peekP_def lookahead2P_def expectP_def
  matchP_def matchKeywordP_def matchContextualP_def matchAsyncP_def strictP_def moreP_def setStrictP_def lookaheadP_def
  markerP_def finishP_def newP_def markerApply_def typeP_def propP_def valueP_def parser_at_simps

lemmas run_lexer = obind_def expect_def match_def matchKeyword_def matchContextualKeyword_def matchAsync_def
  on_lookahead_def is_token_def has_value_def is_punctuator_def markerCreate_def

lemmas run_productions = fun_cong [OF parseProgram_def] fun_cong [OF parseProgramElements_def]
  fun_cong [OF fun_cong [OF directive_round_def]] fun_cong [OF element_round_def] fun_cong [OF parseProgramElement_def]
  fun_cong [OF parseSourceElement_def] fun_cong [OF announces_def] fun_cong [OF declare_element_def]
  fun_cong [OF parseStatement_def] fun_cong [OF fun_cong [OF fun_cong [OF punctuator_statement_def]]]
  fun_cong [OF parseEmptyStatement_def] fun_cong [OF looks_like_def]
  fun_cong [OF parseUnaryExpression_def] fun_cong [OF parsePostfixExpression_def]
  fun_cong [OF parseLeftHandSideExpressionAllowCall_def] fun_cong [OF new_or_primary_def]
  fun_cong [OF parsePrimaryExpression_def] fun_cong [OF member_round_def]
  fun_cong [OF parseBinaryExpression_def] fun_cong [OF read_operand_def] fun_cong [OF combine_def]
  fun_cong [OF fun_cong [OF binary_round_def]]

lemmas run_parser = run_combinators run_lexer run_productions

subsection \<open>An empty statement\<close>

definition semicolon :: token where
  "semicolon = token_from Punctuator (Text [59]) 0 1"

definition end_token :: "nat \<Rightarrow> token" where
  "end_token i = token_from EOF NoValue i i"

lemma sample_tokens_simps [simp]:
  "tok_type semicolon = Punctuator" "tok_value semicolon = Text [59]"
  "tok_type (end_token i) = EOF" "tok_value (end_token i) = NoValue"
  by (simp_all add: semicolon_def end_token_def)

lemma semicolon_lexed:
  "peek any_engine (scanner_at [59] 0 None) = Ret () (scanner_at [59] 0 (Some semicolon))"
  "lex_token any_engine (scanner_at [59] 0 (Some semicolon)) = Ret semicolon (scanner_at [59] 1 (Some (end_token 1)))"
  by code_simp+

lemma semicolon_words: "js '';'' = [59]" "js ''break'' \<noteq> [59]" "js '';'' \<noteq> js ''{''"
  by code_simp+

lemma semicolon_statement:
  "\<exists>v. parseStatement (grammar_at sample_host n) (parser_at [59] 0 (Some semicolon) 0)
     = Parsed v (parser_at [59] 1 (Some (end_token 1)) 1)"
  by (simp add: run_parser semicolon_lexed semicolon_words del: One_nat_def)

lemma semicolon_parsed: "\<exists>v. parse sample_host 2 False no_options (js '';'') = Some (Inr v)"
  by (simp add: parse_def parse_start_at semicolon_words numeral_2_eq_2 del: One_nat_def)
    (simp add: run_parser semicolon_lexed semicolon_words del: One_nat_def)

subsection \<open>Operators of two precedences\<close>

text \<open>\<^verbatim>\<open>a*b+c\<close>.\<close>

definition sum_source :: jsstring where
  "sum_source = js ''a*b+c''"

definition sum_token :: "nat \<Rightarrow> token" where
  "sum_token i =
     (if i = 0 then token_from Identifier (Text (js ''a'')) 0 1
      else if i = 1 then token_from Punctuator (Text (js ''*'')) 1 2
      else if i = 2 then token_from Identifier (Text (js ''b'')) 2 3
      else if i = 3 then token_from Punctuator (Text (js ''+'')) 3 4
      else if i = 4 then token_from Identifier (Text (js ''c'')) 4 5
      else end_token 5)"

lemma sum_token_simps [simp]:
  "tok_type (sum_token 0) = Identifier" "tok_value (sum_token 0) = Text (js ''a'')"
  "tok_type (sum_token 1) = Punctuator" "tok_value (sum_token 1) = Text (js ''*'')"
  "tok_type (sum_token 2) = Identifier" "tok_value (sum_token 2) = Text (js ''b'')"
  "tok_type (sum_token 3) = Punctuator" "tok_value (sum_token 3) = Text (js ''+'')"
  "tok_type (sum_token 4) = Identifier" "tok_value (sum_token 4) = Text (js ''c'')"
  "tok_type (sum_token 5) = EOF" "tok_value (sum_token 5) = NoValue"
  by (simp_all add: sum_token_def)

lemma sum_lexed:
  "lex_token any_engine (scanner_at sum_source 0 (Some (sum_token 0))) = Ret (sum_token 0) (scanner_at sum_source 1 (Some (sum_token 1)))"
  "lex_token any_engine (scanner_at sum_source 1 (Some (sum_token 1))) = Ret (sum_token 1) (scanner_at sum_source 2 (Some (sum_token 2)))"
  "lex_token any_engine (scanner_at sum_source 2 (Some (sum_token 2))) = Ret (sum_token 2) (scanner_at sum_source 3 (Some (sum_token 3)))"
  "lex_token any_engine (scanner_at sum_source 3 (Some (sum_token 3))) = Ret (sum_token 3) (scanner_at sum_source 4 (Some (sum_token 4)))"
  "lex_token any_engine (scanner_at sum_source 4 (Some (sum_token 4))) = Ret (sum_token 4) (scanner_at sum_source 5 (Some (sum_token 5)))"
  by code_simp+

lemma sum_expression:
  "\<exists>v t. parseBinaryExpression (grammar_at sample_host (Suc (Suc (Suc n)))) (parser_at sum_source 0 (Some (sum_token 0)) 0) = Parsed v t"
  by (simp add: run_parser sum_lexed binaryPrecedence_def precedences_def js_eq_iff del: One_nat_def)

end
