(* ===== verification/EsPrecedence.thy ===== *)
theory EsPrecedence
  imports EsSamples
begin

text \<open>
  \<^verbatim>\<open>parseBinaryExpression\<close> and its stack: the tree it returns is the one that the precedences of the operators
  and their association to the left prescribe for the operands and operators it reads.
\<close>

subsection \<open>Nodes\<close>

lemma map_of_set_entry: "map_of (set_entry k v ps) = (map_of ps)(k \<mapsto> v)"
  by (induction ps) auto

definition binary_node :: "jsvalue \<Rightarrow> jsvalue \<Rightarrow> jsvalue \<Rightarrow> jsvalue \<Rightarrow> bool" where
  "binary_node operator left right e \<longleftrightarrow>
     get_prop e ''operator'' = Inr operator \<and> get_prop e ''left'' = Inr left \<and> get_prop e ''right'' = Inr right
     \<and> type_is e (if operator = VStr (js ''||'') \<or> operator = VStr (js ''&&'') then ''LogicalExpression''
                  else ''BinaryExpression'') = Inr True"

lemma markerApply_keeps:
  "\<exists>e. markerApply marker (VObj i r ps) s = Parsed e s \<and> (\<forall>key. js key \<noteq> js ''loc'' \<longrightarrow> get_prop e key = get_prop (VObj i r ps) key)"
  by (auto simp: markerApply_def Let_def set_range_def set_prop_def get_prop_def map_of_set_entry split: option.splits)

lemma combine_node:
  "\<exists>e. combine operator left right s = Parsed (e, snd left) (s\<lparr>nextNode := nextNode s + 1\<rparr>)
     \<and> binary_node (fst operator) (fst left) (fst right) e"
proof -
  let ?node = "createBinaryExpression (fst operator) (fst left) (fst right) (nextNode s)"
  obtain i r ps where n: "?node = VObj i r ps" by (simp add: createBinaryExpression_def node_of_def)
  obtain e where e: "markerApply (snd left) (VObj i r ps) (s\<lparr>nextNode := nextNode s + 1\<rparr>) = Parsed e (s\<lparr>nextNode := nextNode s + 1\<rparr>)"
    and keys: "\<And>key. js key \<noteq> js ''loc'' \<Longrightarrow> get_prop e key = get_prop ?node key"
    unfolding n using markerApply_keeps [of "snd left" i r ps "s\<lparr>nextNode := nextNode s + 1\<rparr>"] by blast
  have "combine operator left right s = Parsed (e, snd left) (s\<lparr>nextNode := nextNode s + 1\<rparr>)"
    using e n by (simp add: combine_def finishP_def bindP_def newP_def doneP_def)
  moreover have k: "get_prop e ''operator'' = get_prop ?node ''operator''" "get_prop e ''left'' = get_prop ?node ''left''"
      "get_prop e ''right'' = get_prop ?node ''right''" "get_prop e ''type'' = get_prop ?node ''type''"
    by (simp_all add: keys js_eq_iff)
  have "binary_node (fst operator) (fst left) (fst right) e"
    unfolding binary_node_def type_is_def k
    by (simp add: createBinaryExpression_def node_of_def get_prop_def js_eq_iff)
  ultimately show ?thesis by blast
qed

subsection \<open>The tree that precedences prescribe\<close>

text \<open>
  \<open>bound p e xs os\<close>: \<open>e\<close> is a tree over the operands \<open>xs\<close> with the operators \<open>os\<close> between them, in this order;
  an operation's left part has no looser operator than itself, its right part only tighter ones, and no
  operator outside operands is looser than \<open>p\<close>.
\<close>

inductive bound :: "nat \<Rightarrow> jsvalue \<Rightarrow> jsvalue list \<Rightarrow> operator list \<Rightarrow> bool" where
  operand: "bound p e [e] []"
| operation: "\<lbrakk>p \<le> prec; bound prec left xs os; bound (Suc prec) right ys qs; binary_node operator left right e\<rbrakk>
    \<Longrightarrow> bound p e (xs @ ys) (os @ (operator, prec) # qs)"

lemma bound_weaken: "bound p e xs os \<Longrightarrow> q \<le> p \<Longrightarrow> bound q e xs os"
  by (cases rule: bound.cases) (auto intro: bound.intros)

definition below :: "nat \<Rightarrow> (operator \<times> operand) list \<Rightarrow> bool" where
  "below p stack = (case stack of [] \<Rightarrow> True | (operator, left) # rest \<Rightarrow> snd operator < p)"

text \<open>A stack over operands and operators: precedences grow towards the top.\<close>

inductive stacked :: "(operator \<times> operand) list \<Rightarrow> jsvalue list \<Rightarrow> operator list \<Rightarrow> bool" where
  empty: "stacked [] [] []"
| push: "\<lbrakk>stacked stack xs os; below (snd operator) stack; bound (snd operator) (fst left) ys qs\<rbrakk>
    \<Longrightarrow> stacked ((operator, left) # stack) (xs @ ys) (os @ qs @ [operator])"

inductive_cases stacked_NilE: "stacked [] xs os"
inductive_cases stacked_ConsE: "stacked ((operator, left) # stack) xs os"

lemma bound_combined:
  assumes "bound (snd operator) left xs os" "bound p right ys qs" "snd operator < p" "binary_node (fst operator) left right e"
  shows "bound (snd operator) e (xs @ ys) (os @ operator # qs)"
proof -
  have "bound (Suc (snd operator)) right ys qs" using assms(2,3) by (auto intro: bound_weaken)
  then show ?thesis using bound.operation [OF order_refl assms(1) _ assms(4)] by simp
qed

lemma reduce_stack_bound:
  assumes "stacked stack xs os" "bound p (fst right) ys qs" "below p stack" "prec \<le> p"
  shows "\<exists>left rest n xs' os' ys' qs'. reduce_stack prec right stack s = Parsed (left, rest) (s\<lparr>nextNode := n\<rparr>)
    \<and> stacked rest xs' os' \<and> bound prec (fst left) ys' qs' \<and> below prec rest \<and> xs' @ ys' = xs @ ys \<and> os' @ qs' = os @ qs"
  using assms
proof (induction stack arbitrary: xs os p right ys qs s)
  case Nil
  have e: "xs = []" "os = []" using Nil.prems(1) by (auto elim: stacked_NilE)
  have r: "reduce_stack prec right [] s = Parsed (right, []) (s\<lparr>nextNode := nextNode s\<rparr>)" by simp
  have b: "bound prec (fst right) ys qs" using Nil.prems(2,4) by (rule bound_weaken)
  have n: "below prec []" by (simp add: below_def)
  show ?case using r stacked.empty b n unfolding e by blast
next
  case (Cons entry stack)
  obtain operator left where entry: "entry = (operator, left)" by (cases entry)
  from Cons.prems(1) obtain xs1 os1 ys1 qs1 where st: "stacked stack xs1 os1" "below (snd operator) stack"
      "bound (snd operator) (fst left) ys1 qs1" and xs: "xs = xs1 @ ys1" "os = os1 @ qs1 @ [operator]"
    unfolding entry by (auto elim: stacked_ConsE)
  show ?case
  proof (cases "prec \<le> snd operator")
    case True
    obtain e where e: "combine operator left right s = Parsed (e, snd left) (s\<lparr>nextNode := nextNode s + 1\<rparr>)"
        "binary_node (fst operator) (fst left) (fst right) e"
      using combine_node [of operator left right s] by blast
    have "bound (snd operator) (fst (e, snd left)) (ys1 @ ys) (qs1 @ operator # qs)"
      using bound_combined [OF st(3) Cons.prems(2) _ e(2)] Cons.prems(3) by (simp add: entry below_def)
    from Cons.IH [OF st(1) this st(2) True, of "s\<lparr>nextNode := nextNode s + 1\<rparr>"]
    show ?thesis using True e(1) by (simp add: entry bindP_def xs)
  next
    case False
    then have "reduce_stack prec right (entry # stack) s = Parsed (right, entry # stack) (s\<lparr>nextNode := nextNode s\<rparr>)"
      by (simp add: entry)
    moreover have "bound prec (fst right) ys qs" using Cons.prems(2,4) by (rule bound_weaken)
    moreover have "below prec (entry # stack)" using False by (simp add: entry below_def)
    ultimately show ?thesis using Cons.prems(1) by blast
  qed
qed

lemma apply_stack_bound:
  assumes "stacked stack xs os" "bound p (fst right) ys qs" "below p stack"
  shows "\<exists>e n. apply_stack right stack s = Parsed e (s\<lparr>nextNode := n\<rparr>) \<and> bound 0 (fst e) (xs @ ys) (os @ qs)"
  using assms
proof (induction stack arbitrary: xs os p right ys qs s)
  case Nil
  have e: "xs = []" "os = []" using Nil.prems(1) by (auto elim: stacked_NilE)
  have r: "apply_stack right [] s = Parsed right (s\<lparr>nextNode := nextNode s\<rparr>)" by simp
  have "bound 0 (fst right) ([] @ ys) ([] @ qs)" using bound_weaken [OF Nil.prems(2), of 0] by simp
  then show ?case using r unfolding e by blast
next
  case (Cons entry stack)
  obtain operator left where entry: "entry = (operator, left)" by (cases entry)
  from Cons.prems(1) obtain xs1 os1 ys1 qs1 where st: "stacked stack xs1 os1" "below (snd operator) stack"
      "bound (snd operator) (fst left) ys1 qs1" and xs: "xs = xs1 @ ys1" "os = os1 @ qs1 @ [operator]"
    unfolding entry by (auto elim: stacked_ConsE)
  obtain e where e: "combine operator left right s = Parsed (e, snd left) (s\<lparr>nextNode := nextNode s + 1\<rparr>)"
      "binary_node (fst operator) (fst left) (fst right) e"
    using combine_node [of operator left right s] by blast
  have "bound (snd operator) (fst (e, snd left)) (ys1 @ ys) (qs1 @ operator # qs)"
    using bound_combined [OF st(3) Cons.prems(2) _ e(2)] Cons.prems(3) by (simp add: entry below_def)
  from Cons.IH [OF st(1) this st(2), of "s\<lparr>nextNode := nextNode s + 1\<rparr>"]
  show ?case using e(1) by (simp add: entry bindP_def xs)
qed

subsection \<open>The operands and operators read\<close>

text \<open>
  \<open>reads_operands G allow_in s steps t\<close>: from \<open>s\<close> on, as long as the token of lookahead is a binary operator, it and
  the operand behind it are read; \<open>steps\<close> are the operators with their precedences and the operands. In
  between only the number of the next node changes.
\<close>

inductive reads_operands :: "grammar \<Rightarrow> bool \<Rightarrow> pstate \<Rightarrow> (operator \<times> operand) list \<Rightarrow> pstate \<Rightarrow> bool" for G allow_in where
  stop: "\<lbrakk>lookahead (scn s) = Some token; binaryPrecedence token allow_in = 0\<rbrakk> \<Longrightarrow> reads_operands G allow_in s [] s"
| more: "\<lbrakk>lookahead (scn s) = Some token; binaryPrecedence token allow_in = prec; 0 < prec;
      read_operand G (s\<lparr>nextNode := n\<rparr>) = Parsed (operator, x) t; reads_operands G allow_in t steps u\<rbrakk>
    \<Longrightarrow> reads_operands G allow_in s (((operator, prec), x) # steps) u"

lemma binary_round_more:
  assumes "lookahead (scn s) = Some tok" "binaryPrecedence tok allow_in = prec" "prec \<noteq> 0"
    and "reduce_stack prec right stack s = Parsed (left, rest) t"
  shows "binary_round G allow_in (right, stack) s =
    (case read_operand G t of Diverged \<Rightarrow> Diverged | Raised e u \<Rightarrow> Raised e u
     | Parsed ox u \<Rightarrow> Parsed (Inl (snd ox, ((fst ox, prec), left) # rest)) u)"
  using assms by (auto simp: binary_round_def Let_def bindP_def lookaheadP_def doneP_def split: parsed.splits prod.splits)

lemma binary_loop_reads:
  assumes "loopP n (binary_round G allow_in) (right, stack) s = Parsed (right', stack') t" and "stacked stack xs os"
  shows "\<exists>steps xs' os'. reads_operands G allow_in s steps t \<and> stacked stack' xs' os'
    \<and> xs' @ [fst right'] = xs @ fst right # map (fst \<circ> snd) steps \<and> os' = os @ map fst steps"
  using assms
proof (induction n arbitrary: right stack s xs os)
  case (Suc n)
  from Suc.prems(1) obtain tok where look: "lookahead (scn s) = Some tok"
    by (auto simp: bindP_def binary_round_def lookaheadP_def split: option.splits)
  let ?prec = "binaryPrecedence tok allow_in"
  show ?case
  proof (cases "?prec = 0")
    case True
    then have "right' = right" "stack' = stack" "t = s"
      using Suc.prems(1) look by (simp_all add: bindP_def binary_round_def lookaheadP_def)
    then show ?thesis using reads_operands.stop [OF look True]
      by (intro exI [of _ "[]"] exI [of _ xs] exI [of _ os]) (simp add: Suc.prems(2))
  next
    case False
    have leaf: "bound (max ?prec (Suc (snd (fst (hd stack))))) (fst right) [fst right] []" by (rule bound.operand)
    have top: "below (max ?prec (Suc (snd (fst (hd stack))))) stack" by (auto simp: below_def split: list.splits)
    obtain left rest k xs' os' ys' qs' where r: "reduce_stack ?prec right stack s = Parsed (left, rest) (s\<lparr>nextNode := k\<rparr>)"
        and st: "stacked rest xs' os'" "bound ?prec (fst left) ys' qs'" "below ?prec rest"
        and eqs: "xs' @ ys' = xs @ [fst right]" "os' @ qs' = os @ []"
      using reduce_stack_bound [OF Suc.prems(2) leaf top max.cobounded1, of s] by blast
    from Suc.prems(1) obtain operator x u where o: "read_operand G (s\<lparr>nextNode := k\<rparr>) = Parsed (operator, x) u"
        and loop: "loopP n (binary_round G allow_in) (x, ((operator, ?prec), left) # rest) u = Parsed (right', stack') t"
      using binary_round_more [OF look refl False r, of G] by (auto simp: bindP_def split: parsed.splits)
    have "stacked (((operator, ?prec), left) # rest) (xs' @ ys') (os' @ qs' @ [(operator, ?prec)])"
      using st by (intro stacked.push) simp_all
    from Suc.IH [OF loop this] obtain steps xs2 os2 where s: "reads_operands G allow_in u steps t" "stacked stack' xs2 os2"
        "xs2 @ [fst right'] = (xs' @ ys') @ fst x # map (fst \<circ> snd) steps" "os2 = (os' @ qs' @ [(operator, ?prec)]) @ map fst steps"
      by blast
    have "reads_operands G allow_in s (((operator, ?prec), x) # steps) t"
      using reads_operands.more [OF look refl _ o s(1)] False by simp
    moreover have "xs2 @ [fst right'] = xs @ fst right # map (fst \<circ> snd) (((operator, ?prec), x) # steps)"
      using s(3) eqs(1) by simp
    moreover have "os2 = os @ map fst (((operator, ?prec), x) # steps)"
      using s(4) eqs(2) by (metis append.assoc append_Cons append_Nil append_Nil2 fst_conv list.simps(9))
    ultimately show ?thesis using s(2) by blast
  qed
qed simp

text \<open>
  C2: parseBinaryExpression returns the tree that the precedences of the operators and their association
  to the left prescribe: after the first operand it reads operators and operands up to the first token
  that is no binary operator, and the tree has exactly these operands and operators, in this order, with
  no looser operator below a tighter one and operators of one precedence grouped to the left.
\<close>

theorem operators_bind_by_precedence:
  assumes "parseBinaryExpression G s = Parsed e u"
  shows "\<exists>marker s1 x s2 steps t. markerP (s\<lparr>allowIn := True\<rparr>) = Parsed marker s1
    \<and> parseUnaryExpression G s1 = Parsed x s2 \<and> reads_operands G (allowIn s) s2 steps t
    \<and> bound 0 e (x # map (fst \<circ> snd) steps) (map fst steps)"
proof -
  from assms obtain marker s1 x s2 tok where m: "markerP (s\<lparr>allowIn := True\<rparr>) = Parsed marker s1"
      and x: "parseUnaryExpression G s1 = Parsed x s2" and look: "lookahead (scn s2) = Some tok"
    by (auto simp: parseBinaryExpression_def thenP_def bindP_def lookaheadP_def split: parsed.splits option.splits)
  let ?prec = "binaryPrecedence tok (allowIn s)"
  show ?thesis
  proof (cases "?prec = 0")
    case True
    then have "e = x" using assms m x look by (simp add: parseBinaryExpression_def thenP_def bindP_def lookaheadP_def)
    then show ?thesis using m x reads_operands.stop [OF look True] bound.operand [of 0 x]
      by (metis list.simps(8))
  next
    case False
    from assms obtain operator right s3 right' stack' t e' n where
        o: "read_operand G s2 = Parsed (operator, right) s3"
      and l: "loopP (fuel G) (binary_round G (allowIn s)) (right, [((operator, ?prec), (x, marker))]) s3 = Parsed (right', stack') t"
      and a: "apply_stack right' stack' (t\<lparr>allowIn := allowIn s\<rparr>) = Parsed e' u" "e = fst e'"
      using False m x look
      by (auto simp: parseBinaryExpression_def thenP_def bindP_def lookaheadP_def rounds_def doneP_def split: parsed.splits)
    have "stacked [((operator, ?prec), (x, marker))] ([] @ [x]) ([] @ [] @ [(operator, ?prec)])"
      by (intro stacked.intros) (simp_all add: below_def bound.operand)
    from binary_loop_reads [OF l this] obtain steps xs os where r: "reads_operands G (allowIn s) s3 steps t"
        and st: "stacked stack' xs os" "xs @ [fst right'] = [x] @ fst right # map (fst \<circ> snd) steps"
          "os = [(operator, ?prec)] @ map fst steps"
      by (auto simp del: append_Cons)
    have top: "below (Suc (snd (fst (hd stack')))) stack'" by (auto simp: below_def split: list.splits)
    have "bound 0 e (xs @ [fst right']) (os @ [])"
      using apply_stack_bound [OF st(1) bound.operand top, where right = right' and s = "t\<lparr>allowIn := allowIn s\<rparr>"] a by auto
    moreover have "reads_operands G (allowIn s) s2 (((operator, ?prec), right) # steps) t"
      using reads_operands.more [OF look refl _ _ r, of "nextNode s2"] o False by simp
    ultimately show ?thesis using m x st(2,3) by fastforce
  qed
qed

theorem operators_bind_by_precedence_witness:
  "\<exists>e u. parseBinaryExpression (grammar_at sample_host (Suc (Suc (Suc 0)))) (parser_at sum_source 0 (Some (sum_token 0)) 0)
      = Parsed e u
    \<and> (\<exists>x ys os. bound 0 e (x # ys) os)"
  using sum_expression [of 0] operators_bind_by_precedence
    [of "grammar_at sample_host (Suc (Suc (Suc 0)))" "parser_at sum_source 0 (Some (sum_token 0)) 0"]
  by blast

text \<open>
  Where no operator follows the first operand, \<^verbatim>\<open>allowIn\<close> stays set: \<^verbatim>\<open>parseBinaryExpression\<close> returns before it
  is restored.
\<close>

lemma allowIn_not_restored:
  "\<exists>e u. parseBinaryExpression (grammar_at sample_host (Suc 0)) ((parser_at sum_source 4 (Some (sum_token 4)) 0)\<lparr>allowIn := False\<rparr>)
      = Parsed e u \<and> allowIn u"
proof -
  have s: "(parser_at sum_source 4 (Some (sum_token 4)) 0)\<lparr>allowIn := False, allowIn := True\<rparr>
      = parser_at sum_source 4 (Some (sum_token 4)) 0" by (simp add: parser_at_simps)
  show ?thesis
    by (simp add: run_parser sum_lexed binaryPrecedence_def precedences_def js_eq_iff s del: One_nat_def)
qed

end
