(* ===== verification/EsParseFacts.thy ===== *)
theory EsParseFacts
  imports EsFrameRules EsPrecedence
begin

text \<open>
  What the parser guarantees: its result does not depend on the fuel, it leaves the context of a statement
  as it found it, and operators bind by their precedence.
\<close>

subsection \<open>The grammar\<close>

text \<open>The productions for types, expressions, bodies and statements that other productions call.\<close>

definition main_productions :: "grammar \<Rightarrow> jsvalue parser list" where
  "main_productions G =
     [parseType G, parseUnionType G, parsePrimaryType G, parseTypeParameterInstantiation G, parseObjectInitialiser G,
      parseArrayInitialiser G, parsePrimaryExpression G, parseLeftHandSideExpressionAllowCall G, parseUnaryExpression G,
      parseBinaryExpression G, parseConditionalExpression G, parseAssignmentExpression G, parseExpression G,
      parseFunctionDeclaration G, parseFunctionExpression G, parseClassDeclaration G, parseClassBody G, parseJSXElement G,
      parseBlock G, parseSwitchStatement G, parseDoWhileStatement G, parseWhileStatement G, parseForStatement G False,
      parseStatement G, parseFunctionSourceElements G, parseImportDeclaration G, parseExportDeclaration G,
      parseSourceElement G, parseProgram G]"

context framing begin

lemma grammar_finer: "n \<le> k \<Longrightarrow> finer R (grammar_at h n) (grammar_at h k)"
proof (induction n arbitrary: k)
  case 0
  show ?case by (cases k) (simp_all add: finer_def Let_def, (intro conjI allI frames)+)
next
  case (Suc n)
  then obtain l where l: "k = Suc l" and fin: "finer R (grammar_at h n) (grammar_at h l)" by (cases k) auto
  show ?case unfolding l finer_def
    by (simp add: Let_def Suc.prems [unfolded l, simplified]) (intro conjI allI frames fin)
qed

lemma main_productions_follow: "m \<in> set (main_productions (grammar_at h n)) \<Longrightarrow> follows R m m"
  unfolding main_productions_def by (auto intro!: frames grammar_finer [OF order_refl])

end

subsection \<open>Fuel\<close>

interpretation fuelled: framing "\<lambda>s t. True"
  by unfold_locales simp_all



subsection \<open>Context\<close>

text \<open>
  The fields that say which statements and names are allowed, the options, and the source are the same;
  nodes are only made, never taken back.
\<close>

definition same_context :: "pstate \<Rightarrow> pstate \<Rightarrow> bool" where
  "same_context s t \<longleftrightarrow> source (scn t) = source (scn s) \<and> x_range (scn t) = x_range (scn s) \<and> x_loc (scn t) = x_loc (scn s)
     \<and> inType (scn t) = inType (scn s) \<and> allowKeyword t = allowKeyword s \<and> labelSet t = labelSet s
     \<and> inFunctionBody t = inFunctionBody s \<and> inIteration t = inIteration s \<and> inSwitch t = inSwitch s
     \<and> yieldAllowed t = yieldAllowed s \<and> awaitAllowed t = awaitAllowed s \<and> sourceType t = sourceType s
     \<and> locSource t = locSource s \<and> nextNode s \<le> nextNode t"

lemma delete_set_label: "\<not> StringMap_has m name \<Longrightarrow> StringMap_delete (StringMap_set m name x) name = m"
  by (cases m) (simp add: StringMap_has_def StringMap_set_def StringMap_delete_def fun_upd_idem)

lemma same_context_scope:
  assumes "same_context (enter c s) t" and "\<And>name. c = In_label name \<Longrightarrow> \<not> StringMap_has (labelSet s) name"
  shows "same_context s (leave c s t)"
  using assms by (cases c) (auto simp: same_context_def delete_set_label)

interpretation context_frame: framing same_context
proof unfold_locales
  fix c s t
  assume "same_context (enter c s) t" "\<And>name. c = In_label name \<Longrightarrow> \<not> StringMap_has (labelSet s) name"
  then show "same_context s (leave c s t)" by (rule same_context_scope)
qed (auto simp: same_context_def)

text \<open>
  C5: a production that returns leaves the context of the parser as it found it: what labels there are,
  whether it is in a loop, a switch, a function body, a generator, an asynchronous function or a type, the
  options and the source; it only uses up numbers of nodes. (After an error nothing is put back.)
\<close>

theorem productions_restore_context:
  assumes "m \<in> set (main_productions (grammar_at h n))" and "m s = Parsed x t"
  shows "same_context s t"
  using follows_Parsed [OF context_frame.main_productions_follow [OF assms(1)] assms(2)] by simp

theorem productions_restore_context_witness:
  "\<exists>x. parseStatement (grammar_at sample_host 1) (parser_at [59] 0 (Some semicolon) 0)
      = Parsed x (parser_at [59] 1 (Some (end_token 1)) 1)
    \<and> same_context (parser_at [59] 0 (Some semicolon) 0) (parser_at [59] 1 (Some (end_token 1)) 1)"
proof -
  obtain x where x: "parseStatement (grammar_at sample_host 1) (parser_at [59] 0 (Some semicolon) 0)
      = Parsed x (parser_at [59] 1 (Some (end_token 1)) 1)"
    using semicolon_statement by blast
  moreover have "parseStatement (grammar_at sample_host 1) \<in> set (main_productions (grammar_at sample_host 1))"
    by (simp add: main_productions_def)
  ultimately show ?thesis using productions_restore_context by blast
qed

end
