(* ===== verification/TransformText.thy ===== *)
theory TransformText
  imports SmGenerator JsRegexp
begin

text \<open>
  The part of \<^verbatim>\<open>jstransform/utils\<close> that writes the output: the state of a transformation, \<^verbatim>\<open>catchup\<close> and
  its variants, \<^verbatim>\<open>move\<close>, \<^verbatim>\<open>append\<close>, indentation, the search for a syntactic character and temporary
  variables. Every visitor of the transformer goes through these functions.
\<close>

subsection \<open>State\<close>

text \<open>
  The global part \<^verbatim>\<open>state.g\<close>, shared by all local states: the source and the position in it, the
  buffer, and the line and the column of both for the source map. (The fields that no module
  reads are left out.)
\<close>

record writer =
  w_source :: jsstring
  w_position :: nat
  w_buffer :: jsstring
  w_sourceMap :: "generator option"
  w_sourceMapFilename :: jsstring
  w_sourceLine :: nat
  w_bufferLine :: nat
  w_sourceColumn :: nat
  w_bufferColumn :: nat

text \<open>
  A scope: nodes are of a type of their own, \<open>'n\<close>. A binding also keeps a delegate of the state it
  was made in, which no module reads.
\<close>

record 'n binding =
  boundaryNode :: 'n
  bindingPath :: "'n list option"
  bindingNode :: "'n option"

record 'n scope =
  parentNode :: 'n
  identifiers :: "jsstring \<rightharpoonup> 'n binding"
  tempVarIndex :: nat
  tempVars :: "jsstring list"

text \<open>The local part; \<open>localScope\<close> is the chain of scopes from the innermost one on.\<close>

record ('n, 'o) transform_state =
  localScope :: "'n scope list"
  superClass :: "(jsstring option \<times> jsstring option) option"
  mungeNamespace :: jsstring
  methodNode :: "'n option"
  methodFuncNode :: "'n option"
  className :: "jsstring option"
  scopeIsStrict :: "bool option"
  indentBy :: int
  g_opts :: 'o
  g :: writer

definition createState :: "jsstring \<Rightarrow> 'n \<Rightarrow> 'o \<Rightarrow> ('n, 'o) transform_state" where
  "createState source rootNode transformOptions =
     \<lparr>localScope = [\<lparr>parentNode = rootNode, identifiers = Map.empty, tempVarIndex = 0, tempVars = []\<rparr>],
      superClass = None, mungeNamespace = [], methodNode = None, methodFuncNode = None, className = None,
      scopeIsStrict = None, indentBy = 0, g_opts = transformOptions,
      g = \<lparr>w_source = source, w_position = 0, w_buffer = [], w_sourceMap = None,
           w_sourceMapFilename = js ''source.js'', w_sourceLine = 1, w_bufferLine = 1,
           w_sourceColumn = 0, w_bufferColumn = 0\<rparr>\<rparr>"

subsection \<open>Indentation\<close>

text \<open>
  \<^verbatim>\<open>str.replace(/(^|\n)( {2}|\t)/g, ...)\<close>: the indentation at the beginning of the string and of
  every line, replaced by \<open>f\<close> of it. The match goes on behind the indentation it replaced.
\<close>

fun replace_indents :: "(jsstring \<Rightarrow> jsstring) \<Rightarrow> jsstring \<Rightarrow> jsstring" where
  "replace_indents f [] = []"
| "replace_indents f (c # r) =
     (if c = 10 \<and> take 2 r = [32, 32] then c # f [32, 32] @ replace_indents f (drop 2 r)
      else if c = 10 \<and> take 1 r = [9] then c # f [9] @ replace_indents f (drop 1 r)
      else c # replace_indents f r)"

definition replace_leading :: "(jsstring \<Rightarrow> jsstring) \<Rightarrow> jsstring \<Rightarrow> jsstring" where
  "replace_leading f s =
     (if take 2 s = [32, 32] then f [32, 32] @ replace_indents f (drop 2 s)
      else if take 1 s = [9] then f [9] @ replace_indents f (drop 1 s)
      else replace_indents f s)"

definition updateIndent :: "int \<Rightarrow> jsstring \<Rightarrow> jsstring" where
  "updateIndent by str =
     (if by < 0 then (replace_leading (\<lambda>i. []) ^^ nat (- by)) str
      else (replace_leading (\<lambda>i. i @ i) ^^ nat by) str)"

text \<open>\<^verbatim>\<open>indentBefore\<close>; a start past the end of the source asks \<^verbatim>\<open>undefined\<close> for \<^verbatim>\<open>match\<close>.\<close>

fun indent_loop :: "jsstring \<Rightarrow> nat \<Rightarrow> nat \<Rightarrow> (nat \<times> nat) res" where
  "indent_loop src 0 e = Inr (0, e)"
| "indent_loop src (Suc start) e =
     (case js_index src (int (Suc start)) of
        None \<Rightarrow> Inl (TypeError (js ''Cannot read property 'match' of undefined''))
      | Some c \<Rightarrow>
          if c = 10 then Inr (Suc start, e)
          else indent_loop src start (if c \<noteq> 32 \<and> c \<noteq> 9 then Suc start else e))"

definition indentBefore :: "nat \<Rightarrow> writer \<Rightarrow> jsstring res" where
  "indentBefore start w =
     (case start of
        0 \<Rightarrow> Inr []
      | Suc s \<Rightarrow> bindR (indent_loop (w_source w) s start) (\<lambda>(s, e). Inr (substring (s + 1) e (w_source w))))"

subsection \<open>Writing\<close>

text \<open>A mapping between a position of the buffer and one of the source.\<close>

definition add_position :: "nat \<Rightarrow> nat \<Rightarrow> nat \<Rightarrow> nat \<Rightarrow> writer \<Rightarrow> writer res" where
  "add_position gline gcolumn oline ocolumn w =
     (case w_sourceMap w of
        None \<Rightarrow> Inr w
      | Some m \<Rightarrow>
          bindR (addMapping
              \<lparr>a_generated = Some \<lparr>pline = Some (int gline), pcolumn = Some (int gcolumn)\<rparr>,
               a_original = Some \<lparr>pline = Some (int oline), pcolumn = Some (int ocolumn)\<rparr>,
               a_source = Some (w_sourceMapFilename w), a_name = None\<rparr> m)
            (\<lambda>m. Inr (w\<lparr>w_sourceMap := Some m\<rparr>)))"

text \<open>The loop of \<^verbatim>\<open>catchup\<close> over the inner lines of a piece.\<close>

primrec line_mappings :: "nat \<Rightarrow> writer \<Rightarrow> writer res" where
  "line_mappings 0 w = Inr w"
| "line_mappings (Suc n) w =
     bindR (add_position (w_bufferLine w) 0 (w_sourceLine w) 0 w) (\<lambda>w.
       line_mappings n (w\<lparr>w_sourceLine := w_sourceLine w + 1, w_bufferLine := w_bufferLine w + 1\<rparr>))"

definition map_piece :: "jsstring \<Rightarrow> jsstring \<Rightarrow> writer \<Rightarrow> writer res" where
  "map_piece source transformed w =
     bindR (add_position (w_bufferLine w) (w_bufferColumn w) (w_sourceLine w) (w_sourceColumn w) w) (\<lambda>w.
       let sourceLines = split_on 10 source; transformedLines = split_on 10 transformed
       in bindR (line_mappings (length sourceLines - 2) w) (\<lambda>w.
            let w = (if length sourceLines > 1
                     then w\<lparr>w_sourceLine := w_sourceLine w + 1, w_bufferLine := w_bufferLine w + 1,
                            w_sourceColumn := 0, w_bufferColumn := 0\<rparr> else w)
            in Inr (w\<lparr>w_sourceColumn := w_sourceColumn w + length (last sourceLines),
                      w_bufferColumn := w_bufferColumn w + length (last transformedLines)\<rparr>)))"

definition catchup :: "int \<Rightarrow> nat \<Rightarrow> (jsstring \<Rightarrow> jsstring) option \<Rightarrow> writer \<Rightarrow> writer res" where
  "catchup by end contentTransformer w =
     (if end < w_position w then Inr w
      else
        let source = substring (w_position w) end (w_source w); transformed = updateIndent by source
        in bindR (if w_sourceMap w \<noteq> None \<and> transformed \<noteq> [] then map_piece source transformed w else Inr w) (\<lambda>w.
             Inr (w\<lparr>w_buffer := w_buffer w @ (case contentTransformer of None \<Rightarrow> transformed | Some f \<Rightarrow> f transformed),
                    w_position := end\<rparr>)))"

definition getNodeSourceText :: "nat \<times> nat \<Rightarrow> writer \<Rightarrow> jsstring" where
  "getNodeSourceText r w =
     substring (min (fst r) (snd r)) (max (fst r) (snd r)) (w_source w)"

definition replaceNonWhite :: "jsstring \<Rightarrow> jsstring" where
  "replaceNonWhite value = map (\<lambda>c. if is_space c then c else 32) value"

definition stripNonWhite :: "jsstring \<Rightarrow> jsstring" where
  "stripNonWhite value = filter is_space value"

definition stripNonNewline :: "jsstring \<Rightarrow> jsstring" where
  "stripNonNewline value = filter (\<lambda>c. c = 10) value"

definition catchupWhiteOut :: "int \<Rightarrow> nat \<Rightarrow> writer \<Rightarrow> writer res" where
  "catchupWhiteOut by end w = catchup by end (Some replaceNonWhite) w"

definition catchupWhiteSpace :: "int \<Rightarrow> nat \<Rightarrow> writer \<Rightarrow> writer res" where
  "catchupWhiteSpace by end w = catchup by end (Some stripNonWhite) w"

definition catchupNewlines :: "int \<Rightarrow> nat \<Rightarrow> writer \<Rightarrow> writer res" where
  "catchupNewlines by end w = catchup by end (Some stripNonNewline) w"

text \<open>\<^verbatim>\<open>move\<close>: backwards, the line and the column are counted from the beginning again.\<close>

definition move_to :: "nat \<Rightarrow> writer \<Rightarrow> writer" where
  "move_to end w =
     (if w_sourceMap w \<noteq> None then
        let w = (if end < w_position w then w\<lparr>w_position := 0, w_sourceLine := 1, w_sourceColumn := 0\<rparr> else w);
            sourceLines = split_on 10 (substring (w_position w) end (w_source w));
            w = (if length sourceLines > 1
                 then w\<lparr>w_sourceLine := w_sourceLine w + (length sourceLines - 1), w_sourceColumn := 0\<rparr> else w)
        in w\<lparr>w_sourceColumn := w_sourceColumn w + length (last sourceLines), w_position := end\<rparr>
      else w\<lparr>w_position := end\<rparr>)"

definition append_text :: "jsstring \<Rightarrow> writer \<Rightarrow> writer res" where
  "append_text str w =
     bindR (if w_sourceMap w \<noteq> None \<and> str \<noteq> [] then
              bindR (add_position (w_bufferLine w) (w_bufferColumn w) (w_sourceLine w) (w_sourceColumn w) w) (\<lambda>w.
                let transformedLines = split_on 10 str;
                    w = (if length transformedLines > 1
                         then w\<lparr>w_bufferLine := w_bufferLine w + (length transformedLines - 1), w_bufferColumn := 0\<rparr> else w)
                in Inr (w\<lparr>w_bufferColumn := w_bufferColumn w + length (last transformedLines)\<rparr>))
            else Inr w) (\<lambda>w. Inr (w\<lparr>w_buffer := w_buffer w @ str\<rparr>))"

subsection \<open>Searching\<close>

text \<open>
  The inner loop of \<^verbatim>\<open>getNextSyntacticCharOffset\<close> over one line, from \<open>off\<close> to \<open>e\<close>, both counted in
  the pending source; the second character of a comment mark is looked up in the line itself, with
  the same index. The result is the offset of the character, if it is there, and whether the line
  ends inside a block comment. Behind \<^verbatim>\<open>//\<close> the rest of the line is skipped.
\<close>

function char_loop ::
    "code_unit \<Rightarrow> jsstring \<Rightarrow> jsstring \<Rightarrow> nat \<Rightarrow> nat \<Rightarrow> bool \<Rightarrow> bool \<Rightarrow> nat option \<times> bool" where
  "char_loop ch pending line e off withinBlockComment withinString =
     (if off < e then
        let currChar = js_index pending (int off);
            nextChar = (if off + 1 < e then js_index line (int (off + 1)) else None)
        in if currChar = Some 34 \<or> currChar = Some 39 then
             char_loop ch pending line e (off + 1) withinBlockComment (\<not> withinString)
           else if withinString then char_loop ch pending line e (off + 1) withinBlockComment withinString
           else if currChar = Some 47 \<and> nextChar = Some 47 then (None, withinBlockComment)
           else if currChar = Some 47 \<and> nextChar = Some 42 then char_loop ch pending line e (off + 2) True withinString
           else if currChar = Some 42 \<and> nextChar = Some 47 then char_loop ch pending line e (off + 2) False withinString
           else if \<not> withinBlockComment \<and> currChar = Some ch then (Some off, withinBlockComment)
           else char_loop ch pending line e (off + 1) withinBlockComment withinString
      else (None, withinBlockComment))"
  by pat_completeness auto
termination
  by (relation "measure (\<lambda>(ch, pending, line, e, off, b, s). e - off)") auto

declare char_loop.simps [simp del]

fun line_loop :: "code_unit \<Rightarrow> jsstring \<Rightarrow> jsstring list \<Rightarrow> nat \<Rightarrow> bool \<Rightarrow> nat option" where
  "line_loop ch pending [] off withinBlockComment = None"
| "line_loop ch pending (line # lines) off withinBlockComment =
     (case char_loop ch pending line (off + length line) off withinBlockComment False of
        (Some k, b) \<Rightarrow> Some k
      | (None, b) \<Rightarrow> line_loop ch pending lines (off + length line + 1) b)"

definition getNextSyntacticCharOffset :: "code_unit \<Rightarrow> writer \<Rightarrow> nat res" where
  "getNextSyntacticCharOffset ch w =
     (let pending = drop (w_position w) (w_source w)
      in case line_loop ch pending (split_on 10 pending) 0 False of
           Some k \<Rightarrow> Inr (k + w_position w)
         | None \<Rightarrow> Inl (Error (js ''`'' @ [ch] @ js ''` not found!'')))"

subsection \<open>Scopes and temporary variables\<close>

text \<open>
  The objects \<^verbatim>\<open>identifiers\<close> inherit from \<^verbatim>\<open>Object.prototype\<close>; \<open>inherits\<close> says which names the engine
  has there.
\<close>

definition has_ident :: "(jsstring \<Rightarrow> bool) \<Rightarrow> jsstring \<Rightarrow> 'n scope \<Rightarrow> bool" where
  "has_ident inherits identName scope = (identifiers scope identName \<noteq> None \<or> inherits identName)"

fun identWithinLexicalScope :: "(jsstring \<Rightarrow> bool) \<Rightarrow> jsstring \<Rightarrow> 'n scope list \<Rightarrow> 'n option \<Rightarrow> bool" where
  "identWithinLexicalScope inherits identName [] stopBeforeNode = False"
| "identWithinLexicalScope inherits identName (currScope # parents) stopBeforeNode =
     (if has_ident inherits identName currScope then True
      else if stopBeforeNode = Some (parentNode currScope) then False
      else identWithinLexicalScope inherits identName parents stopBeforeNode)"

definition identInLocalScope :: "(jsstring \<Rightarrow> bool) \<Rightarrow> jsstring \<Rightarrow> 'n scope list \<Rightarrow> bool" where
  "identInLocalScope inherits identName scopes = has_ident inherits identName (hd scopes)"

definition initScopeMetadata :: "'n \<Rightarrow> 'n list option \<Rightarrow> 'n option \<Rightarrow> 'n binding" where
  "initScopeMetadata boundary path node = \<lparr>boundaryNode = boundary, bindingPath = path, bindingNode = node\<rparr>"

text \<open>The change is made in the scope object, so every state that shares the scope sees it.\<close>

definition change_scope :: "('n scope \<Rightarrow> 'n scope) \<Rightarrow> 'n scope list \<Rightarrow> 'n scope list" where
  "change_scope f scopes = (case scopes of [] \<Rightarrow> [] | scope # parents \<Rightarrow> f scope # parents)"

definition declareIdentInLocalScope :: "jsstring \<Rightarrow> 'n binding \<Rightarrow> 'n scope list \<Rightarrow> 'n scope list" where
  "declareIdentInLocalScope identName metaData scopes =
     change_scope (\<lambda>scope. scope\<lparr>identifiers := (identifiers scope)(identName \<mapsto> metaData)\<rparr>) scopes"

definition getTempVar :: "nat \<Rightarrow> jsstring" where
  "getTempVar n = js ''$__'' @ dec_digits n"

definition injectTempVar :: "'n scope list \<Rightarrow> jsstring \<times> 'n scope list" where
  "injectTempVar scopes =
     (let tempVar = js ''$__'' @ dec_digits (tempVarIndex (hd scopes))
      in (tempVar, change_scope (\<lambda>scope. scope\<lparr>tempVarIndex := tempVarIndex scope + 1,
                     tempVars := tempVars scope @ [tempVar]\<rparr>) scopes))"

definition injectTempVarDeclarations ::
    "nat \<Rightarrow> 'n scope list \<Rightarrow> writer \<Rightarrow> 'n scope list \<times> writer" where
  "injectTempVarDeclarations i scopes w =
     (if length (tempVars (hd scopes)) > 0 then
        (change_scope (\<lambda>scope. scope\<lparr>tempVars := []\<rparr>) scopes,
         w\<lparr>w_buffer := take i (w_buffer w) @ js ''var '' @ join_with (js '', '') (tempVars (hd scopes)) @ js '';''
             @ drop i (w_buffer w)\<rparr>)
      else (scopes, w))"

subsection \<open>Lines and columns\<close>

text \<open>The line (from 1) and the column (from 0) of the end of a text.\<close>

definition line_at :: "jsstring \<Rightarrow> nat" where
  "line_at t = length (split_on 10 t)"

definition col_at :: "jsstring \<Rightarrow> nat" where
  "col_at t = length (last (split_on 10 t))"

lemma split_on_append_last:
  "split_on c (s @ t) = butlast (split_on c s) @ (last (split_on c s) @ hd (split_on c t)) # tl (split_on c t)"
  by (induction s) (auto split: list.splits simp: neq_Nil_conv)

lemma line_at_append: "line_at (s @ t) = line_at s + (length (split_on 10 t) - 1)"
proof -
  have "0 < length (split_on 10 s)" "0 < length (split_on 10 t)" by (metis length_greater_0_conv split_on_not_Nil)+
  then show ?thesis unfolding line_at_def split_on_append_last by (simp del: length_greater_0_conv)
qed

lemma col_at_append:
  "col_at (s @ t) = (if length (split_on 10 t) > 1 then length (last (split_on 10 t)) else col_at s + length (last (split_on 10 t)))"
  by (cases "split_on 10 t"; cases "tl (split_on 10 t)") (auto simp: col_at_def split_on_append_last)

lemma line_col_Nil [simp]: "line_at [] = 1" "col_at [] = 0"
  by (simp_all add: line_at_def col_at_def)

lemma line_at_pos [simp]: "0 < line_at t"
  by (simp add: line_at_def)

text \<open>The counters are those of the position in the source and of the end of the buffer.\<close>

definition located :: "writer \<Rightarrow> bool" where
  "located w \<longleftrightarrow> w_sourceLine w = line_at (take (w_position w) (w_source w))
     \<and> w_sourceColumn w = col_at (take (w_position w) (w_source w))
     \<and> w_bufferLine w = line_at (w_buffer w) \<and> w_bufferColumn w = col_at (w_buffer w)"

text \<open>A writer that records a source map.\<close>

definition recording :: "writer \<Rightarrow> bool" where
  "recording w \<longleftrightarrow> w_sourceMap w \<noteq> None \<and> w_sourceMapFilename w \<noteq> []"

text \<open>A text transformer that keeps the lengths of the lines.\<close>

definition keeps_layout :: "(jsstring \<Rightarrow> jsstring) \<Rightarrow> bool" where
  "keeps_layout f \<longleftrightarrow> (\<forall>t. map length (split_on 10 (f t)) = map length (split_on 10 t))"

lemma keeps_layout_last:
  assumes "keeps_layout f"
  shows "length (split_on 10 (f t)) = length (split_on 10 t)" "length (last (split_on 10 (f t))) = length (last (split_on 10 t))"
proof -
  have e: "map length (split_on 10 (f t)) = map length (split_on 10 t)" using assms by (simp add: keeps_layout_def)
  then show "length (split_on 10 (f t)) = length (split_on 10 t)" by (rule map_eq_imp_length_eq)
  have "last (map length (split_on 10 (f t))) = last (map length (split_on 10 t))" by (simp only: e)
  then show "length (last (split_on 10 (f t))) = length (last (split_on 10 t))" by (simp add: last_map)
qed

lemma split_on_replaceNonWhite: "split_on 10 (replaceNonWhite t) = map replaceNonWhite (split_on 10 t)"
  by (induction t) (auto simp: replaceNonWhite_def is_space_def is_line_terminator_def split: list.splits)

lemma replaceNonWhite_layout: "keeps_layout replaceNonWhite"
  by (simp add: keeps_layout_def split_on_replaceNonWhite comp_def) (simp add: replaceNonWhite_def)

subsection \<open>Indentation keeps the lines\<close>

lemma count_line_at: "line_at t = count_list t 10 + 1"
  unfolding line_at_def by (induction t) (auto split: list.splits)

definition no_newlines :: "(jsstring \<Rightarrow> jsstring) \<Rightarrow> bool" where
  "no_newlines f \<longleftrightarrow> (\<forall>i. 10 \<notin> set i \<longrightarrow> 10 \<notin> set (f i))"

lemma count_take: "take n r = u \<Longrightarrow> count_list r c = count_list u c + count_list (drop n r) c"
  by (metis append_take_drop_id count_list_append)

lemma count_list_none: "c \<notin> set t \<Longrightarrow> count_list t c = 0"
  by (simp add: count_list_0_iff)

lemma replace_indents_lines:
  assumes "no_newlines f"
  shows "count_list (replace_indents f t) 10 = count_list t 10"
proof -
  have f: "count_list (f [32, 32]) 10 = 0" "count_list (f [9]) 10 = 0"
    using assms by (auto simp: no_newlines_def count_list_none)
  show ?thesis
  proof (induction "length t" arbitrary: t rule: less_induct)
    case less
    show ?case
    proof (cases t)
      case (Cons c r)
      have "count_list (replace_indents f (drop n r)) 10 = count_list (drop n r) 10" for n
        using less [of "drop n r"] by (simp add: Cons)
      from this [of 2] this [of 1] this [of 0] show ?thesis
        using f count_take [of 2 r "[32, 32]" 10] count_take [of 1 r "[9]" 10] by (auto simp: Cons)
    qed simp
  qed
qed

lemma replace_leading_lines:
  assumes "no_newlines f"
  shows "line_at (replace_leading f t) = line_at t"
  using assms replace_indents_lines [OF assms] count_take [of 2 t "[32, 32]" 10] count_take [of 1 t "[9]" 10]
  by (auto simp: replace_leading_def count_line_at no_newlines_def count_list_none)

lemma updateIndent_lines: "line_at (updateIndent by t) = line_at t"
proof -
  have "line_at ((replace_leading f ^^ n) t) = line_at t" if "no_newlines f" for f n
    by (induction n) (simp_all add: replace_leading_lines that)
  then show ?thesis by (simp add: updateIndent_def no_newlines_def)
qed

lemma replace_leading_Nil: "(\<And>i. i \<noteq> [] \<Longrightarrow> f i \<noteq> []) \<Longrightarrow> replace_leading f t = [] \<longleftrightarrow> t = []"
  by (cases t) (auto simp: replace_leading_def)

lemma updateIndent_Nil: "0 \<le> by \<Longrightarrow> updateIndent by t = [] \<longleftrightarrow> t = []"
proof -
  have "(replace_leading (\<lambda>i. i @ i) ^^ n) t = [] \<longleftrightarrow> t = []" for n
    by (induction n) (simp_all add: replace_leading_Nil)
  then show "0 \<le> by \<Longrightarrow> ?thesis" by (simp add: updateIndent_def)
qed

lemma updateIndent_zero [simp]: "updateIndent 0 t = t"
  by (simp add: updateIndent_def)

subsection \<open>The counters are right\<close>

text \<open>Recording changes nothing but the source map, and never throws.\<close>

lemma add_position_Inr:
  assumes "recording w" and "0 < gl" and "0 < ol"
  shows "\<exists>m. add_position gl gc ol oc w = Inr (w\<lparr>w_sourceMap := Some m\<rparr>)"
  using assms
  by (auto simp: recording_def add_position_def addMapping_def getArg_def validateMapping_def positive_position_def truthy_def Let_def)

lemma recording_update [simp]:
  "recording (w\<lparr>w_sourceMap := Some m\<rparr>) \<longleftrightarrow> w_sourceMapFilename w \<noteq> []"
  "recording (w\<lparr>w_sourceLine := a\<rparr>) = recording w" "recording (w\<lparr>w_bufferLine := a\<rparr>) = recording w"
  "recording (w\<lparr>w_sourceColumn := a\<rparr>) = recording w" "recording (w\<lparr>w_bufferColumn := a\<rparr>) = recording w"
  "recording (w\<lparr>w_position := a\<rparr>) = recording w" "recording (w\<lparr>w_buffer := t\<rparr>) = recording w"
  by (simp_all add: recording_def)

lemma line_mappings_Inr:
  assumes "recording w" and "0 < w_bufferLine w" and "0 < w_sourceLine w"
  shows "\<exists>m. line_mappings n w = Inr (w\<lparr>w_sourceMap := Some m, w_sourceLine := w_sourceLine w + n, w_bufferLine := w_bufferLine w + n\<rparr>)"
  using assms
proof (induction n arbitrary: w)
  case 0
  then obtain m where "w_sourceMap w = Some m" by (auto simp: recording_def)
  then show ?case by (cases w) auto
next
  case (Suc n)
  obtain m where m: "add_position (w_bufferLine w) 0 (w_sourceLine w) 0 w = Inr (w\<lparr>w_sourceMap := Some m\<rparr>)"
    using add_position_Inr Suc.prems by blast
  have "w_sourceMapFilename w \<noteq> []" using Suc.prems(1) by (simp add: recording_def)
  then show ?case using Suc.IH [of "w\<lparr>w_sourceMap := Some m, w_sourceLine := w_sourceLine w + 1, w_bufferLine := w_bufferLine w + 1\<rparr>"]
    by (simp add: m)
qed

lemma map_piece_Inr:
  assumes "recording w" and "0 < w_bufferLine w" and "0 < w_sourceLine w"
  shows "\<exists>m. map_piece s t w = Inr (let n = length (split_on 10 s) in
    w\<lparr>w_sourceMap := Some m, w_sourceLine := w_sourceLine w + (n - 1), w_bufferLine := w_bufferLine w + (n - 1),
      w_sourceColumn := (if n > 1 then 0 else w_sourceColumn w) + length (last (split_on 10 s)),
      w_bufferColumn := (if n > 1 then 0 else w_bufferColumn w) + length (last (split_on 10 t))\<rparr>)"
proof -
  obtain m where m: "add_position (w_bufferLine w) (w_bufferColumn w) (w_sourceLine w) (w_sourceColumn w) w
      = Inr (w\<lparr>w_sourceMap := Some m\<rparr>)"
    using add_position_Inr assms by blast
  have "w_sourceMapFilename w \<noteq> []" using assms(1) by (simp add: recording_def)
  then obtain m' where m': "line_mappings (length (split_on 10 s) - 2) (w\<lparr>w_sourceMap := Some m\<rparr>)
      = Inr (w\<lparr>w_sourceMap := Some m', w_sourceLine := w_sourceLine w + (length (split_on 10 s) - 2),
          w_bufferLine := w_bufferLine w + (length (split_on 10 s) - 2)\<rparr>)"
    using line_mappings_Inr [of "w\<lparr>w_sourceMap := Some m\<rparr>" "length (split_on 10 s) - 2"] assms by auto
  show ?thesis by (rule exI [of _ m']) (simp add: map_piece_def m m' Let_def)
qed

lemma take_catchup: "p \<le> e \<Longrightarrow> take e s = take p s @ substring p e s"
  using substring_append [of 0 p e s] by simp

lemma catchup_located:
  assumes "located w" "recording w" "0 \<le> by"
    and "case tr of None \<Rightarrow> True | Some f \<Rightarrow> keeps_layout f"
  shows "\<exists>w'. catchup by e tr w = Inr w' \<and> located w' \<and> recording w' \<and> w_source w' = w_source w"
proof (cases "e < w_position w")
  case True
  then show ?thesis using assms by (simp add: catchup_def)
next
  case False
  define s where "s = substring (w_position w) e (w_source w)"
  define t where "t = updateIndent by s"
  define u where "u = (case tr of None \<Rightarrow> t | Some f \<Rightarrow> f t)"
  have st: "length (split_on 10 t) = length (split_on 10 s)" "t = [] \<longleftrightarrow> s = []"
    using updateIndent_lines [of "by" s] updateIndent_Nil [OF assms(3)] by (simp_all add: t_def line_at_def)
  have u: "length (split_on 10 u) = length (split_on 10 t)" "length (last (split_on 10 u)) = length (last (split_on 10 t))"
    using assms(4) keeps_layout_last by (auto simp: u_def split: option.splits)
  have src: "take e (w_source w) = take (w_position w) (w_source w) @ s"
    using False take_catchup [of "w_position w" e] by (simp add: s_def)
  have pos: "0 < w_bufferLine w" "0 < w_sourceLine w" using assms(1) by (simp_all add: located_def)
  have c: "catchup by e tr w = bindR (if t \<noteq> [] then map_piece s t w else Inr w)
      (\<lambda>w. Inr (w\<lparr>w_buffer := w_buffer w @ u, w_position := e\<rparr>))"
    using False assms(2) unfolding catchup_def s_def t_def u_def recording_def by (simp add: Let_def split: option.splits)
  show ?thesis
  proof (cases "t = []")
    case True
    then have "s = []" "length (split_on 10 u) = 1" "length (last (split_on 10 u)) = 0" using st u by auto
    then show ?thesis using c True assms(1,2) src
      by (auto simp: located_def line_at_append col_at_append)
  next
    case t: False
    obtain m where "map_piece s t w = Inr (let n = length (split_on 10 s) in
      w\<lparr>w_sourceMap := Some m, w_sourceLine := w_sourceLine w + (n - 1), w_bufferLine := w_bufferLine w + (n - 1),
        w_sourceColumn := (if n > 1 then 0 else w_sourceColumn w) + length (last (split_on 10 s)),
        w_bufferColumn := (if n > 1 then 0 else w_bufferColumn w) + length (last (split_on 10 t))\<rparr>)"
      using map_piece_Inr [OF assms(2) pos] by blast
    then show ?thesis using c t assms(1,2) src st(1) u
      by (auto simp: located_def line_at_append col_at_append Let_def recording_def)
  qed
qed

lemma move_located:
  assumes "located w" "recording w"
  shows "located (move_to e w) \<and> recording (move_to e w) \<and> w_source (move_to e w) = w_source w"
proof -
  define p where "p = (if e < w_position w then 0 else w_position w)"
  define s where "s = substring p e (w_source w)"
  have src: "take e (w_source w) = take p (w_source w) @ s"
    unfolding s_def by (rule take_catchup) (simp add: p_def)
  have m: "w_sourceMap w \<noteq> None" using assms(2) by (simp add: recording_def)
  have "move_to e w = w\<lparr>w_sourceLine := line_at (take p (w_source w)) + (length (split_on 10 s) - 1),
      w_sourceColumn := (if length (split_on 10 s) > 1 then 0 else col_at (take p (w_source w))) + length (last (split_on 10 s)),
      w_position := e\<rparr>"
    using assms(1) m by (cases "e < w_position w"; cases "length (split_on 10 s) > 1")
      (simp_all add: move_to_def p_def s_def located_def Let_def length_Suc_conv_rev)
  then show ?thesis using assms by (simp add: located_def src line_at_append col_at_append)
qed

lemma append_located:
  assumes "located w" "recording w"
  shows "\<exists>w'. append_text str w = Inr w' \<and> located w' \<and> recording w' \<and> w_source w' = w_source w"
proof (cases "str = []")
  case True
  then show ?thesis using assms by (simp add: append_text_def located_def)
next
  case False
  have "0 < w_bufferLine w" "0 < w_sourceLine w" "w_sourceMap w \<noteq> None" using assms by (simp_all add: located_def recording_def)
  moreover from this obtain m where "add_position (w_bufferLine w) (w_bufferColumn w) (w_sourceLine w) (w_sourceColumn w) w
      = Inr (w\<lparr>w_sourceMap := Some m\<rparr>)"
    using add_position_Inr assms(2) by blast
  ultimately show ?thesis using False assms
    by (simp add: append_text_def located_def recording_def Let_def line_at_append col_at_append)
qed

subsection \<open>A sequence of edits\<close>

text \<open>
  What visitors do to the output: copy the source up to a position under an indentation, copy it
  with all its text blanked, skip to a position, and insert a text.
\<close>

datatype edit = Copy int nat | WhiteOut int nat | Skip nat | Insert jsstring

primrec perform :: "edit \<Rightarrow> writer \<Rightarrow> writer res" where
  "perform (Copy by end) w = catchup by end None w"
| "perform (WhiteOut by end) w = catchupWhiteOut by end w"
| "perform (Skip end) w = Inr (move_to end w)"
| "perform (Insert str) w = append_text str w"

primrec edits :: "edit list \<Rightarrow> writer \<Rightarrow> writer res" where
  "edits [] w = Inr w"
| "edits (e # es) w = bindR (perform e w) (edits es)"

text \<open>The indentations that are not negative.\<close>

primrec indents :: "edit \<Rightarrow> bool" where
  "indents (Copy by end) = (0 \<le> by)"
| "indents (WhiteOut by end) = (0 \<le> by)"
| "indents (Skip end) = True"
| "indents (Insert str) = True"

text \<open>The state \<^verbatim>\<open>transform\<close> starts with when a source map is asked for.\<close>

definition start_writer :: "jsstring \<Rightarrow> generator \<Rightarrow> writer" where
  "start_writer source m = (g (createState source () ()))\<lparr>w_sourceMap := Some m\<rparr>"

definition fresh_generator :: generator where
  "fresh_generator = \<lparr>g_file = Some (js ''transformed.js''), g_sourceRoot = None, g_sources = ArraySet_new,
     g_names = ArraySet_new, g_mappings = [], g_sourcesContents = None\<rparr>"

lemma start_located: "located (start_writer src m) \<and> recording (start_writer src m) \<and> w_source (start_writer src m) = src"
  by (simp add: start_writer_def createState_def located_def recording_def js_def)

lemma perform_located:
  assumes "located w" "recording w" "indents e"
  shows "\<exists>w'. perform e w = Inr w' \<and> located w' \<and> recording w' \<and> w_source w' = w_source w"
  using assms catchup_located [OF assms(1,2), where tr = None] catchup_located [OF assms(1,2), where tr = "Some replaceNonWhite"]
    move_located [OF assms(1,2)] append_located [OF assms(1,2)] replaceNonWhite_layout
  by (cases e) (auto simp: catchupWhiteOut_def)

lemma edits_located:
  "\<lbrakk>located w; recording w; \<forall>e \<in> set es. indents e\<rbrakk>
    \<Longrightarrow> \<exists>w'. edits es w = Inr w' \<and> located w' \<and> recording w' \<and> w_source w' = w_source w"
proof (induction es arbitrary: w)
  case (Cons e es)
  then obtain u where "perform e w = Inr u" "located u" "recording u" "w_source u = w_source w"
    using perform_located [of w e] by auto
  then show ?case using Cons.IH [of u] Cons.prems(3) by auto
qed simp

text \<open>
  C18: with a source map, any sequence of edits succeeds (copying and blanking
  under an indentation that is not negative, moving forwards and backwards, inserting), and keeps
  the counters right: \<^verbatim>\<open>sourceLine\<close> and \<^verbatim>\<open>sourceColumn\<close> are the line and the column of the position in
  the source, \<^verbatim>\<open>bufferLine\<close> and \<^verbatim>\<open>bufferColumn\<close> those of the end of the buffer.
\<close>

theorem edits_keep_positions:
  assumes "\<forall>e \<in> set es. indents e"
  shows "\<exists>w. edits es (start_writer src m) = Inr w \<and> located w"
  using edits_located [of "start_writer src m" es] start_located [of src m] assms by auto

theorem edits_keep_positions_witness:
  "\<exists>w. edits [Copy 1 4, Insert [40, 10, 41], Skip 1, WhiteOut 0 6] (start_writer [97, 10, 32, 32, 98, 10, 99] fresh_generator) = Inr w \<and> located w"
  using edits_keep_positions [of "[Copy 1 4, Insert [40, 10, 41], Skip 1, WhiteOut 0 6]" "[97, 10, 32, 32, 98, 10, 99]" fresh_generator] by simp

text \<open>
  C37: \<^verbatim>\<open>catchupNewlines\<close> (like \<^verbatim>\<open>catchupWhiteSpace\<close>) drops characters from what it appends, but counts
  the column of the buffer with them: from then on the recorded columns are too large. Here one
  line with no line break is caught up: nothing is appended, and the column is the length of the
  line.
\<close>

theorem catchupNewlines_column:
  assumes "10 \<notin> set src" and "src \<noteq> []"
  shows "\<exists>w. catchupNewlines 0 (length src) (start_writer src m) = Inr w \<and> w_buffer w = []
    \<and> w_bufferColumn w = length src \<and> \<not> located w"
proof -
  define s where "s = start_writer src m"
  note l = start_located [of src m, folded s_def]
  have f: "w_position s = 0" "w_buffer s = []" "w_bufferColumn s = 0" "w_source s = src"
    by (simp_all add: s_def start_writer_def createState_def)
  have pos: "0 < w_bufferLine s" "0 < w_sourceLine s" using l by (simp_all add: located_def)
  obtain m' where m': "map_piece src src s = Inr (s\<lparr>w_sourceMap := Some m', w_sourceLine := w_sourceLine s,
      w_bufferLine := w_bufferLine s, w_sourceColumn := w_sourceColumn s + length src, w_bufferColumn := length src\<rparr>)"
    using map_piece_Inr [of s src src] l pos f assms(1) by auto
  have "stripNonNewline src = []" using assms(1) by (auto simp: stripNonNewline_def filter_empty_conv)
  moreover have "w_sourceMap s \<noteq> None" using l by (simp add: recording_def)
  ultimately have "catchupNewlines 0 (length src) s = Inr (s\<lparr>w_sourceMap := Some m', w_sourceLine := w_sourceLine s,
      w_bufferLine := w_bufferLine s, w_sourceColumn := w_sourceColumn s + length src, w_bufferColumn := length src,
      w_position := length src\<rparr>)"
    using assms(2) f by (simp add: catchupNewlines_def catchup_def m' Let_def)
  then show ?thesis using assms(2) f by (simp add: located_def s_def)
qed

theorem catchupNewlines_column_witness:
  "\<exists>w. catchupNewlines 0 2 (start_writer [97, 98] fresh_generator) = Inr w \<and> w_buffer w = [] \<and> w_bufferColumn w = 2"
  using catchupNewlines_column [of "[97, 98]" fresh_generator] by (auto simp: numeral_2_eq_2)

text \<open>What a mapping says: generated line and column, original line and column.\<close>

definition says :: "mapping \<Rightarrow> int \<times> int \<times> jsnum \<times> jsnum" where
  "says m = (generatedLine m, generatedColumn m, originalLine m, originalColumn m)"

definition at_positions :: "nat \<Rightarrow> nat \<Rightarrow> nat \<Rightarrow> nat \<Rightarrow> int \<times> int \<times> jsnum \<times> jsnum" where
  "at_positions gl gc ol oc = (int gl, int gc, JNum (int ol), JNum (int oc))"

definition recorded :: "writer \<Rightarrow> (int \<times> int \<times> jsnum \<times> jsnum) list" where
  "recorded w = (case w_sourceMap w of None \<Rightarrow> [] | Some m \<Rightarrow> map says (g_mappings m))"

lemma add_position_recorded:
  assumes "recording w" and "0 < gl" and "0 < ol"
  shows "\<exists>m. add_position gl gc ol oc w = Inr (w\<lparr>w_sourceMap := Some m\<rparr>)
    \<and> map says (g_mappings m) = recorded w @ [at_positions gl gc ol oc]"
  using assms
  by (auto simp: recording_def add_position_def addMapping_def getArg_def validateMapping_def positive_position_def truthy_def
      Let_def recorded_def at_positions_def says_def num_prop_def)

lemma line_mappings_recorded:
  assumes "recording w" and "0 < w_bufferLine w" and "0 < w_sourceLine w" and "line_mappings n w = Inr w'"
  shows "recorded w' = recorded w @ map (\<lambda>i. at_positions (w_bufferLine w + i) 0 (w_sourceLine w + i) 0) [0..<n]"
  using assms
proof (induction n arbitrary: w)
  case (Suc n)
  obtain m where m: "add_position (w_bufferLine w) 0 (w_sourceLine w) 0 w = Inr (w\<lparr>w_sourceMap := Some m\<rparr>)"
    "map says (g_mappings m) = recorded w @ [at_positions (w_bufferLine w) 0 (w_sourceLine w) 0]"
    using add_position_recorded Suc.prems(1-3) by blast
  define u where "u = w\<lparr>w_sourceMap := Some m, w_sourceLine := w_sourceLine w + 1, w_bufferLine := w_bufferLine w + 1\<rparr>"
  have "w_sourceMapFilename w \<noteq> []" using Suc.prems(1) by (simp add: recording_def)
  then have "recorded w' = recorded u @ map (\<lambda>i. at_positions (w_bufferLine u + i) 0 (w_sourceLine u + i) 0) [0..<n]"
    using Suc.IH [of u] Suc.prems(4) m(1) by (simp add: u_def)
  moreover have "recorded u = recorded w @ [at_positions (w_bufferLine w) 0 (w_sourceLine w) 0]"
    using m(2) by (simp add: u_def recorded_def)
  ultimately show ?case
    by (simp add: u_def upt_conv_Cons map_Suc_upt [symmetric] comp_def del: upt_Suc)
qed simp

text \<open>
  C38: which positions \<^verbatim>\<open>catchup\<close> records for a piece of several lines: the place where the piece
  begins, and then the beginnings of lines counted from the line of that place on. So the line
  the piece begins in is recorded twice, and the last of its inner lines not at all. (The comment
  in the loop promises the inner lines.)
\<close>

theorem catchup_records:
  assumes "located w" and "recording w" and "w_position w \<le> end"
    and "n = length (split_on 10 (substring (w_position w) end (w_source w)))" and "n > 1"
  shows "\<exists>w'. catchup 0 end None w = Inr w' \<and> recorded w' = recorded w
    @ at_positions (w_bufferLine w) (w_bufferColumn w) (w_sourceLine w) (w_sourceColumn w)
    # map (\<lambda>i. at_positions (w_bufferLine w + i) 0 (w_sourceLine w + i) 0) [0..<n - 2]"
proof -
  define s where "s = substring (w_position w) end (w_source w)"
  have s: "s \<noteq> []" using assms(4,5) by (auto simp: s_def [symmetric])
  have pos: "0 < w_bufferLine w" "0 < w_sourceLine w" using assms(1) by (simp_all add: located_def)
  obtain m where m: "add_position (w_bufferLine w) (w_bufferColumn w) (w_sourceLine w) (w_sourceColumn w) w
      = Inr (w\<lparr>w_sourceMap := Some m\<rparr>)"
    "map says (g_mappings m) = recorded w @ [at_positions (w_bufferLine w) (w_bufferColumn w) (w_sourceLine w) (w_sourceColumn w)]"
    using add_position_recorded assms(2) pos by blast
  define u where "u = w\<lparr>w_sourceMap := Some m\<rparr>"
  have u: "recording u" "w_bufferLine u = w_bufferLine w" "w_sourceLine u = w_sourceLine w"
    "recorded u = recorded w @ [at_positions (w_bufferLine w) (w_bufferColumn w) (w_sourceLine w) (w_sourceColumn w)]"
    using assms(2) m(2) by (simp_all add: u_def recording_def recorded_def)
  obtain v where v: "line_mappings (n - 2) u = Inr v" using line_mappings_Inr u(1-3) pos by metis
  have r: "recorded v = recorded u @ map (\<lambda>i. at_positions (w_bufferLine w + i) 0 (w_sourceLine w + i) 0) [0..<n - 2]"
    using line_mappings_recorded [OF u(1) _ _ v] u(2,3) pos by simp
  obtain w' where c: "catchup 0 end None w = Inr w'" and "w_sourceMap w' = w_sourceMap v"
    using assms(2,3,5) s m(1) v unfolding catchup_def map_piece_def
    by (auto simp: s_def [symmetric] assms(4) [folded s_def] u_def Let_def recording_def)
  then show ?thesis using r u(4) by (auto simp: recorded_def)
qed

theorem catchup_records_witness:
  "\<exists>w'. catchup 0 7 None (start_writer (js ''a'' @ [10] @ js ''b'' @ [10] @ js ''c'' @ [10] @ js ''d'') fresh_generator) = Inr w'
     \<and> recorded w' = [at_positions 1 0 1 0, at_positions 1 0 1 0, at_positions 2 0 2 0]"
proof -
  let ?src = "js ''a'' @ [10] @ js ''b'' @ [10] @ js ''c'' @ [10] @ js ''d''"
  define w where "w = start_writer ?src fresh_generator"
  have f: "w_position w = 0" "w_source w = ?src" "w_bufferLine w = 1" "w_bufferColumn w = 0" "w_sourceLine w = 1"
    "w_sourceColumn w = 0" "recorded w = []" "located w" "recording w"
    using start_located [of ?src fresh_generator]
    by (simp_all add: w_def start_writer_def createState_def recorded_def fresh_generator_def)
  have n: "(4::nat) = length (split_on 10 (substring 0 7 ?src))" by code_simp
  have "\<exists>w'. catchup 0 7 None w = Inr w' \<and> recorded w' = recorded w
      @ at_positions (w_bufferLine w) (w_bufferColumn w) (w_sourceLine w) (w_sourceColumn w)
      # map (\<lambda>i. at_positions (w_bufferLine w + i) 0 (w_sourceLine w + i) 0) [0..<4 - 2]"
  proof (rule catchup_records [OF f(8,9)])
    show "w_position w \<le> 7" by (simp add: f(1))
    show "4 = length (split_on 10 (substring (w_position w) 7 (w_source w)))" unfolding f(1,2) by (rule n)
  qed simp
  moreover have "[0..<4 - 2] = [0, 1]" by code_simp
  ultimately show ?thesis unfolding w_def [symmetric] f(3-7) by (simp add: numeral_2_eq_2)
qed

subsection \<open>Two slips\<close>

text \<open>
  On every line of the pending source but the first one the second character of a comment mark is
  looked up at a wrong place: the parenthesis in the comment is found.
\<close>

lemma finds_in_comment:
  "getNextSyntacticCharOffset 40 (g (createState (js '' '' @ [10] @ js ''//('' @ [10] @ js ''('') () ())) = Inr 4"
  by code_simp

text \<open>On the first line of the source the first character of the indentation is missing, on others it is there.\<close>

lemma indent_first_line:
  "indentBefore 2 (g (createState (js ''  x'') () ())) = Inr (js '' '')"
  "indentBefore 3 (g (createState ([10] @ js ''  x'') () ())) = Inr (js ''  '')"
  by code_simp+

end
