(* ===== verification/TransformTree.thy ===== *)
theory TransformTree
  imports TransformText JsValues
begin

text \<open>
  The walk over the syntax tree: \<^verbatim>\<open>jstransform\<close> (\<^verbatim>\<open>traverse\<close>, scopes, \<^verbatim>\<open>transform\<close>) and the functions of
  \<^verbatim>\<open>jstransform/utils\<close> that order and search the children of a node. Visitors are parameters; they
  get \<^verbatim>\<open>traverse\<close> as an argument, so a walk has fuel, and is shown to end where it can be.
\<close>

subsection \<open>Children\<close>

fun enqueueNodeWithStartIndex :: "jsvalue \<Rightarrow> (jsvalue \<times> nat) list" where
  "enqueueNodeWithStartIndex (VObj i r ps) =
     (case r of None \<Rightarrow> [] | Some (start, end) \<Rightarrow> [(VObj i r ps, start)])"
| "enqueueNodeWithStartIndex (VArr vs) = concat (map enqueueNodeWithStartIndex vs)"
| "enqueueNodeWithStartIndex v = []"

definition child_queue :: "jsvalue \<Rightarrow> (jsvalue \<times> nat) list" where
  "child_queue node = (case node of
     VObj i r ps \<Rightarrow> concat (map (\<lambda>kv. enqueueNodeWithStartIndex (snd kv)) ps)
   | VArr vs \<Rightarrow> concat (map enqueueNodeWithStartIndex vs)
   | _ \<Rightarrow> [])"

definition start_order :: "jsvalue \<times> nat \<Rightarrow> jsvalue \<times> nat \<Rightarrow> number" where
  "start_order a b = Some (int (snd a) - int (snd b))"

definition getOrderedChildren :: "jsvalue \<Rightarrow> jsvalue list" where
  "getOrderedChildren node = map fst (js_sort start_order (child_queue node))"

lemma enqueue_depth: "(c, k) \<in> set (enqueueNodeWithStartIndex v) \<Longrightarrow> depth c \<le> depth v"
proof (induction v rule: enqueueNodeWithStartIndex.induct)
  case (2 vs)
  then obtain v where v: "v \<in> set vs" "(c, k) \<in> set (enqueueNodeWithStartIndex v)" by auto
  then have "depth c \<le> depth v" by (rule 2(1))
  also have "depth v \<le> sum_list (map depth vs)" using v(1) by (intro member_le_sum_list) auto
  finally show ?case by simp
qed (auto split: option.splits prod.splits)

lemma child_depth: "c \<in> set (getOrderedChildren node) \<Longrightarrow> depth c < depth node"
proof -
  assume "c \<in> set (getOrderedChildren node)"
  then obtain k where "(c, k) \<in> set (child_queue node)" by (auto simp: getOrderedChildren_def)
  moreover have "depth (snd kv) \<le> sum_list (map (\<lambda>kv. depth (snd kv)) ps)" if "kv \<in> set ps" for kv ps
    using that by (intro member_le_sum_list) auto
  moreover have "depth v \<le> sum_list (map depth vs)" if "v \<in> set vs" for v vs
    using that by (intro member_le_sum_list) auto
  ultimately show ?thesis
    by (cases node) (fastforce simp: child_queue_def dest!: enqueue_depth intro: le_imp_less_Suc order_trans)+
qed

function containsChildMatching :: "(jsvalue \<Rightarrow> bool) \<Rightarrow> jsvalue \<Rightarrow> bool" where
  "containsChildMatching matcher node =
     (if is_typed node \<and> matcher node then True
      else list_ex (containsChildMatching matcher) (getOrderedChildren node))"
  by pat_completeness auto
termination
  by (relation "measure (\<lambda>(matcher, node). depth node)") (auto simp: child_depth)

declare containsChildMatching.simps [simp del]

definition containsChildOfType :: "jsvalue \<Rightarrow> jsvalue \<Rightarrow> bool" where
  "containsChildOfType node type = containsChildMatching (\<lambda>node. node_type node = type) node"

subsection \<open>Scopes\<close>

text \<open>A run: \<open>None\<close> when the fuel is used up, otherwise a thrown error or a value.\<close>

type_synonym 'a run = "'a res option"
type_synonym 'o tstate = "(jsvalue, 'o) transform_state"

definition bindO :: "'a run \<Rightarrow> ('a \<Rightarrow> 'b run) \<Rightarrow> 'b run" where
  "bindO m f = (case m of None \<Rightarrow> None | Some (Inl e) \<Rightarrow> Some (Inl e) | Some (Inr x) \<Rightarrow> f x)"

lemma bindO_simps [simp]:
  "bindO None f = None" "bindO (Some (Inl e)) f = Some (Inl e)" "bindO (Some (Inr x)) f = f x"
  by (simp_all add: bindO_def)

lemma bindO_InrE:
  assumes "bindO m f = Some (Inr y)"
  obtains x where "m = Some (Inr x)" and "f x = Some (Inr y)"
  using assms by (cases m) (auto simp: bindO_def split: sum.splits)

lemma bindO_not_None: "bindO m f \<noteq> None \<longleftrightarrow> m \<noteq> None \<and> (\<forall>x. m = Some (Inr x) \<longrightarrow> f x \<noteq> None)"
  by (cases m) (auto simp: bindO_def split: sum.splits)

primrec each :: "('a \<Rightarrow> 's \<Rightarrow> 's run) \<Rightarrow> 'a list \<Rightarrow> 's \<Rightarrow> 's run" where
  "each f [] s = Some (Inr s)"
| "each f (x # xs) s = bindO (f x s) (each f xs)"

definition scopeTypes :: "jsstring list" where
  "scopeTypes = map js [''ArrowFunctionExpression'', ''FunctionExpression'', ''FunctionDeclaration'', ''Program'']"

fun getBoundaryNode :: "jsvalue list \<Rightarrow> jsvalue res" where
  "getBoundaryNode [] = Inl (Error (js ''Expected to find a node with one of the following types in path:'' @ [10] @
     [91] @ join_with (js '','') (map (\<lambda>t. [34] @ t @ [34]) scopeTypes) @ [93]))"
| "getBoundaryNode (node # path) =
     (if to_key (node_type node) \<in> set scopeTypes then Inr node else getBoundaryNode path)"

text \<open>A binding in the innermost scope.\<close>

definition declare_ident :: "jsvalue \<Rightarrow> jsvalue binding \<Rightarrow> 'o tstate \<Rightarrow> 'o tstate" where
  "declare_ident name metaData st =
     st\<lparr>localScope := declareIdentInLocalScope (to_key name) metaData (localScope st)\<rparr>"

definition declare_name_of :: "jsvalue \<Rightarrow> jsvalue binding \<Rightarrow> 'o tstate \<Rightarrow> 'o tstate res" where
  "declare_name_of ident metaData st =
     bindR (get_prop ident ''name'') (\<lambda>name. Inr (declare_ident name metaData st))"

definition nodeIsClosureScopeBoundary :: "jsvalue \<Rightarrow> jsvalue \<Rightarrow> bool res" where
  "nodeIsClosureScopeBoundary node parent =
     bindR (type_is node ''Program'') (\<lambda>program.
       if program then Inr True
       else
         bindR (type_is parent ''FunctionDeclaration'') (\<lambda>declaration.
         bindR (type_is parent ''FunctionExpression'') (\<lambda>expression.
         bindR (type_is parent ''ArrowFunctionExpression'') (\<lambda>arrow.
         bindR (get_prop parent ''body'') (\<lambda>body.
         bindR (type_is node ''BlockStatement'') (\<lambda>block.
           Inr ((declaration \<or> expression \<or> arrow) \<and> (block \<or> (arrow \<and> node = body)))))))))"

definition nodeIsBlockScopeBoundary :: "jsvalue \<Rightarrow> jsvalue \<Rightarrow> bool res" where
  "nodeIsBlockScopeBoundary node parent =
     bindR (type_is node ''Program'') (\<lambda>program.
       if program then Inr False
       else bindR (type_is node ''BlockStatement'') (\<lambda>block.
         if block then type_is parent ''CatchClause'' else Inr False))"

text \<open>\<^verbatim>\<open>analyzeAndTraverse\<close>: an analyzer gives whether to go on to the children.\<close>

definition analyzeAndTraverse ::
    "(jsvalue \<Rightarrow> jsvalue list \<Rightarrow> 's \<Rightarrow> (bool \<times> 's) run) \<Rightarrow> (jsvalue \<Rightarrow> jsvalue list \<Rightarrow> 's \<Rightarrow> 's run)
      \<Rightarrow> jsvalue \<Rightarrow> jsvalue list \<Rightarrow> 's \<Rightarrow> 's run" where
  "analyzeAndTraverse analyzer traverser node path st =
     bindO (Some (get_prop node ''type'')) (\<lambda>ty.
       if truthy_value ty then
         bindO (analyzer node path st) (\<lambda>(continue, st).
           if \<not> continue then Some (Inr st)
           else each (\<lambda>child. traverser child (node # path)) (getOrderedChildren node) st)
       else each (\<lambda>child. traverser child path) (getOrderedChildren node) st)"

definition visitLocalClosureIdentifiers ::
    "jsvalue \<Rightarrow> jsvalue list \<Rightarrow> 'o tstate \<Rightarrow> (bool \<times> 'o tstate) run" where
  "visitLocalClosureIdentifiers node path st = Some (
     let ty = node_type node
     in if ty = VStr (js ''ArrowFunctionExpression'') \<or> ty = VStr (js ''FunctionExpression'') then Inr (False, st)
        else if ty = VStr (js ''ClassDeclaration'') \<or> ty = VStr (js ''ClassExpression'')
             \<or> ty = VStr (js ''FunctionDeclaration'') then
          bindR (get_prop node ''id'') (\<lambda>ident.
            if \<not> truthy_value ident then Inr (False, st)
            else bindR (getBoundaryNode path) (\<lambda>boundary.
                 bindR (declare_name_of ident (initScopeMetadata boundary (Some path) (Some node)) st) (\<lambda>st.
                   Inr (False, st))))
        else if ty = VStr (js ''VariableDeclarator'') then
          bindR (get_prop (case path of [] \<Rightarrow> VUndef | p # _ \<Rightarrow> p) ''kind'') (\<lambda>kind.
            if kind \<noteq> VStr (js ''var'') then Inr (True, st)
            else bindR (getBoundaryNode path) (\<lambda>boundary.
                 bindR (get_prop node ''id'') (\<lambda>ident.
                 bindR (declare_name_of ident (initScopeMetadata boundary (Some path) (Some node)) st) (\<lambda>st.
                   Inr (True, st)))))
        else Inr (True, st))"

definition visitLocalBlockIdentifiers ::
    "jsvalue \<Rightarrow> jsvalue list \<Rightarrow> 'o tstate \<Rightarrow> (bool \<times> 'o tstate) run" where
  "visitLocalBlockIdentifiers node path st = Some (Inr (node_type node \<noteq> VStr (js ''CatchClause''), st))"

primrec collectClosureIdentsAndTraverse :: "nat \<Rightarrow> jsvalue \<Rightarrow> jsvalue list \<Rightarrow> 'o tstate \<Rightarrow> 'o tstate run" where
  "collectClosureIdentsAndTraverse 0 node path st = None"
| "collectClosureIdentsAndTraverse (Suc n) node path st =
     analyzeAndTraverse visitLocalClosureIdentifiers (collectClosureIdentsAndTraverse n) node path st"

primrec collectBlockIdentsAndTraverse :: "nat \<Rightarrow> jsvalue \<Rightarrow> jsvalue list \<Rightarrow> 'o tstate \<Rightarrow> 'o tstate run" where
  "collectBlockIdentsAndTraverse 0 node path st = None"
| "collectBlockIdentsAndTraverse (Suc n) node path st =
     analyzeAndTraverse visitLocalBlockIdentifiers (collectBlockIdentsAndTraverse n) node path st"

subsection \<open>Entering a scope\<close>

text \<open>
  \<^verbatim>\<open>'use strict'\<close> as the first statement of a body. The third argument of \<^verbatim>\<open>initScopeMetadata\<close> for
  the name of a function expression is \<^verbatim>\<open>path.parentNodeslice\<close>, which is undefined.
\<close>

definition uses_strict :: "jsvalue \<Rightarrow> bool res" where
  "uses_strict node =
     bindR (get_prop node ''body'') (\<lambda>body.
     bindR (elements body) (\<lambda>statements.
       case statements of
         [] \<Rightarrow> Inr False
       | first # _ \<Rightarrow>
           bindR (type_is first ''ExpressionStatement'') (\<lambda>statement.
             if \<not> statement then Inr False
             else bindR (get_prop first ''expression'') (\<lambda>expression.
                  bindR (type_is expression ''Literal'') (\<lambda>literal.
                    if \<not> literal then Inr False
                    else bindR (get_prop expression ''value'') (\<lambda>v. Inr (v = VStr (js ''use strict'')))))) ))"

definition strict_inside :: "jsvalue \<Rightarrow> bool option \<Rightarrow> bool option res" where
  "strict_inside node isStrict =
     (if isStrict = Some True then Inr isStrict
      else bindR (type_is node ''BlockStatement'') (\<lambda>block.
           bindR (type_is node ''Program'') (\<lambda>program.
             if block \<or> program then bindR (uses_strict node) (\<lambda>s. Inr (Some s)) else Inr isStrict)))"

definition push_scope :: "jsvalue \<Rightarrow> 'o tstate \<Rightarrow> 'o tstate" where
  "push_scope parent st =
     st\<lparr>localScope := \<lparr>parentNode = parent, identifiers = Map.empty, tempVarIndex = 0, tempVars = []\<rparr> # localScope st\<rparr>"

fun declare_params :: "jsvalue binding \<Rightarrow> jsvalue list \<Rightarrow> 'o tstate \<Rightarrow> 'o tstate res" where
  "declare_params metaData [] st = Inr st"
| "declare_params metaData (param # params) st =
     bindR (type_is param ''Identifier'') (\<lambda>ident.
       bindR (if ident then declare_name_of param metaData st else Inr st) (declare_params metaData params))"

definition declare_function :: "jsvalue \<Rightarrow> jsvalue list \<Rightarrow> 'o tstate \<Rightarrow> 'o tstate res" where
  "declare_function node path st =
     (let parent = hd path; metaData = initScopeMetadata parent (Some (tl path)) (Some parent)
      in bindR (get_prop parent ''params'') (\<lambda>params.
         bindR (elements params) (\<lambda>params.
         bindR (declare_params metaData params
                  (declare_ident (VStr (js ''arguments'')) (initScopeMetadata node None None) st)) (\<lambda>st.
         bindR (get_prop parent ''rest'') (\<lambda>rest.
         bindR (if truthy_value rest then declare_name_of rest metaData st else Inr st) (\<lambda>st.
         bindR (type_is parent ''FunctionExpression'') (\<lambda>expression.
         bindR (get_prop parent ''id'') (\<lambda>ident.
           if expression \<and> truthy_value ident then
             declare_name_of ident (initScopeMetadata parent None (Some parent)) st
           else Inr st))))))))"

text \<open>The state inside, how many scopes were pushed, and where declarations of temporary variables go.\<close>

definition enter_closure ::
    "nat \<Rightarrow> jsvalue \<Rightarrow> jsvalue list \<Rightarrow> 'o tstate \<Rightarrow> (nat option \<times> nat \<times> 'o tstate) run" where
  "enter_closure n node path st =
     bindO (Some (bindR (strict_inside node (scopeIsStrict st)) (\<lambda>isStrict.
              bindR (type_is node ''Program'') (\<lambda>program.
                if program then Inr (Some (length (w_buffer (g st))), 0, st\<lparr>scopeIsStrict := isStrict\<rparr>)
                else bindR (declare_function node path ((push_scope (hd path) st)\<lparr>scopeIsStrict := isStrict\<rparr>)) (\<lambda>inner.
                       Inr (Some (length (w_buffer (g st)) + 1), 1, inner))))))
       (\<lambda>(start, pushed, inner).
          bindO (collectClosureIdentsAndTraverse n node path inner) (\<lambda>inner. Some (Inr (start, pushed, inner))))"

definition enter_block ::
    "nat \<Rightarrow> jsvalue \<Rightarrow> jsvalue list \<Rightarrow> 'o tstate \<Rightarrow> (nat option \<times> nat \<times> 'o tstate) run" where
  "enter_block n node path st =
     (let parent = hd path
      in bindO (Some (bindR (get_prop parent ''param'') (\<lambda>param.
                 declare_name_of param (initScopeMetadata parent (Some (tl path)) (Some parent)) (push_scope parent st))))
           (\<lambda>inner. bindO (collectBlockIdentsAndTraverse n node path inner) (\<lambda>inner.
              Some (Inr (Some (length (w_buffer (g st))), 1, inner)))))"

definition is_array :: "jsvalue \<Rightarrow> bool" where
  "is_array v = (case v of VArr vs \<Rightarrow> True | _ \<Rightarrow> False)"

definition enter_scopes ::
    "nat \<Rightarrow> jsvalue \<Rightarrow> jsvalue list \<Rightarrow> 'o tstate \<Rightarrow> (nat option \<times> nat \<times> 'o tstate) run" where
  "enter_scopes n node path st =
     (let parent = (case path of [] \<Rightarrow> VUndef | p # _ \<Rightarrow> p)
      in if \<not> is_array node \<and> parentNode (hd (localScope st)) \<noteq> parent then
           bindO (Some (nodeIsClosureScopeBoundary node parent)) (\<lambda>closure.
           bindO (if closure then enter_closure n node path st else Some (Inr (None, 0, st))) (\<lambda>(start, pushed, inner).
           bindO (Some (nodeIsBlockScopeBoundary node parent)) (\<lambda>block.
             if block then bindO (enter_block n node path inner) (\<lambda>(start, more, inner). Some (Inr (start, pushed + more, inner)))
             else Some (Inr (start, pushed, inner)))))
         else Some (Inr (None, 0, st)))"

text \<open>Back in the state of the caller: the scopes it sees and the writer keep what happened to them.\<close>

definition leave_scopes :: "'o tstate \<Rightarrow> nat \<Rightarrow> 'o tstate \<Rightarrow> 'o tstate" where
  "leave_scopes st pushed inner = st\<lparr>localScope := drop pushed (localScope inner), g := g inner\<rparr>"

definition inject_declarations :: "nat option \<Rightarrow> 'o tstate \<Rightarrow> 'o tstate" where
  "inject_declarations start st =
     (case start of
        None \<Rightarrow> st
      | Some i \<Rightarrow>
          let r = injectTempVarDeclarations i (localScope st) (g st)
          in st\<lparr>localScope := fst r, g := snd r\<rparr>)"

subsection \<open>The walk\<close>

text \<open>
  A visitor: a test, and what it does with the function to go on with; its result is whether the
  children are to be walked too.
\<close>

record 'o visitor =
  visit_test :: "jsvalue \<Rightarrow> jsvalue list \<Rightarrow> 'o tstate \<Rightarrow> bool res"
  visit :: "(jsvalue \<Rightarrow> jsvalue list \<Rightarrow> 'o tstate \<Rightarrow> 'o tstate run)
    \<Rightarrow> jsvalue \<Rightarrow> jsvalue list \<Rightarrow> 'o tstate \<Rightarrow> (bool \<times> 'o tstate) run"

fun walker ::
    "'o visitor list \<Rightarrow> (jsvalue \<Rightarrow> jsvalue list \<Rightarrow> 'o tstate \<Rightarrow> 'o tstate run)
      \<Rightarrow> jsvalue \<Rightarrow> jsvalue list \<Rightarrow> 'o tstate \<Rightarrow> (bool \<times> 'o tstate) run" where
  "walker [] traverse node path st = Some (Inr (True, st))"
| "walker (v # visitors) traverse node path st =
     (case visit_test v node path st of
        Inl e \<Rightarrow> Some (Inl e)
      | Inr interested \<Rightarrow>
          if interested then visit v traverse node path st else walker visitors traverse node path st)"

definition catchup_state :: "nat \<Rightarrow> 'o tstate \<Rightarrow> 'o tstate run" where
  "catchup_state end st = Some (bindR (catchup (indentBy st) end None (g st)) (\<lambda>w. Inr (st\<lparr>g := w\<rparr>)))"

definition traverser ::
    "(jsvalue \<Rightarrow> jsvalue list \<Rightarrow> 'o tstate \<Rightarrow> 'o tstate run) \<Rightarrow> jsvalue \<Rightarrow> jsvalue list \<Rightarrow> 'o tstate \<Rightarrow> 'o tstate run" where
  "traverser traverse node path st =
     (case node_range node of
        None \<Rightarrow> traverse node path st
      | Some (start, stop) \<Rightarrow>
          bindO (catchup_state start st) (\<lambda>st. bindO (traverse node path st) (catchup_state stop)))"

primrec traverse :: "nat \<Rightarrow> 'o visitor list \<Rightarrow> jsvalue \<Rightarrow> jsvalue list \<Rightarrow> 'o tstate \<Rightarrow> 'o tstate run" where
  "traverse 0 visitors node path st = None"
| "traverse (Suc n) visitors node path st =
     bindO (enter_scopes (Suc n) node path st) (\<lambda>(start, pushed, inner).
       bindO (analyzeAndTraverse (walker visitors (traverse n visitors)) (traverser (traverse n visitors)) node path inner)
         (\<lambda>inner. Some (Inr (leave_scopes st pushed (inject_declarations start inner)))))"

subsection \<open>A whole transformation\<close>

record transform_options =
  o_sourceMap :: bool
  o_filename :: "jsstring option"
  o_disableAstCache :: bool
  o_sourceType :: "jsstring option"

record transformed =
  r_code :: jsstring
  r_sourceMap :: "generator option"
  r_sourceMapFilename :: "jsstring option"

text \<open>
  What is not in this module: the parser (\<^verbatim>\<open>esprima.parse\<close> with the source type), its exception's
  message on the left, and what an object inherits (the cache of trees is an object literal).
\<close>

record world =
  esprima_parse :: "jsstring \<Rightarrow> jsstring option \<Rightarrow> jsstring + jsvalue"
  proto :: "jsstring \<Rightarrow> jsvalue option"

type_synonym ast_cache = "jsstring \<rightharpoonup> jsvalue"

definition cached :: "world \<Rightarrow> ast_cache \<Rightarrow> jsstring \<Rightarrow> jsvalue" where
  "cached env cache source = (case cache source of
     Some ast \<Rightarrow> ast
   | None \<Rightarrow> (case proto env source of Some v \<Rightarrow> v | None \<Rightarrow> VUndef))"

definition getAstForSource ::
    "world \<Rightarrow> jsstring \<Rightarrow> transform_options \<Rightarrow> ast_cache \<Rightarrow> (jsstring + jsvalue) \<times> ast_cache" where
  "getAstForSource env source options cache =
     (if truthy_value (cached env cache source) \<and> \<not> o_disableAstCache options then (Inr (cached env cache source), cache)
      else case esprima_parse env source (o_sourceType options) of
        Inl e \<Rightarrow> (Inl e, cache)
      | Inr ast \<Rightarrow> (Inr ast, if \<not> o_disableAstCache options then cache(source \<mapsto> ast) else cache))"

definition or_else :: "jsstring option \<Rightarrow> string \<Rightarrow> jsstring" where
  "or_else s other = (if truthy s then the s else js other)"

definition transform_ast ::
    "nat \<Rightarrow> transform_options visitor list \<Rightarrow> jsstring \<Rightarrow> jsvalue \<Rightarrow> transform_options \<Rightarrow> transformed run" where
  "transform_ast fuel visitors source ast options =
     (let state = createState source ast options
      in bindO (Some (if o_sourceMap options then
                  bindR (SourceMapGenerator (Some (or_else (o_filename options) ''transformed.js'')) None) (\<lambda>m.
                    Inr (state\<lparr>g := (g state)\<lparr>w_sourceMap := Some m\<rparr>\<rparr>))
                else Inr state)) (\<lambda>state.
         bindO (traverse fuel visitors ast [] state) (\<lambda>state.
         bindO (catchup_state (length source) state) (\<lambda>state.
           Some (Inr \<lparr>r_code = w_buffer (g state),
             r_sourceMap = (if o_sourceMap options then w_sourceMap (g state) else None),
             r_sourceMapFilename = (if o_sourceMap options then Some (or_else (o_filename options) ''source.js'') else None)\<rparr>)))))"

definition transform ::
    "world \<Rightarrow> nat \<Rightarrow> transform_options visitor list \<Rightarrow> jsstring \<Rightarrow> transform_options \<Rightarrow> ast_cache
      \<Rightarrow> transformed run \<times> ast_cache" where
  "transform env fuel visitors source options cache =
     (case getAstForSource env source options cache of
        (Inl message, cache) \<Rightarrow> (Some (Inl (Error (js ''Parse Error: '' @ message))), cache)
      | (Inr ast, cache) \<Rightarrow> (transform_ast fuel visitors source ast options, cache))"

subsection \<open>The children of a node\<close>

text \<open>The nodes directly below a value: in its properties and in arrays there.\<close>

fun nodes_in :: "jsvalue \<Rightarrow> jsvalue list" where
  "nodes_in (VObj i r ps) = (if r = None then [] else [VObj i r ps])"
| "nodes_in (VArr vs) = concat (map nodes_in vs)"
| "nodes_in v = []"

definition child_nodes :: "jsvalue \<Rightarrow> jsvalue list" where
  "child_nodes node = (case node of VObj i r ps \<Rightarrow> concat (map (nodes_in \<circ> snd) ps) | VArr vs \<Rightarrow> nodes_in node | _ \<Rightarrow> [])"

definition node_start :: "jsvalue \<Rightarrow> nat" where
  "node_start node = (case node_range node of None \<Rightarrow> 0 | Some r \<Rightarrow> fst r)"

lemma enqueue_nodes: "enqueueNodeWithStartIndex v = map (\<lambda>c. (c, node_start c)) (nodes_in v)"
  by (induction v rule: nodes_in.induct)
    (auto simp: node_start_def node_range_def map_concat comp_def split: option.splits intro!: arg_cong [of _ _ concat])

lemma child_queue_nodes: "child_queue node = map (\<lambda>c. (c, node_start c)) (child_nodes node)"
  by (cases node) (simp_all add: child_queue_def child_nodes_def ext [OF enqueue_nodes] map_concat comp_def)

lemma start_order_le: "cmp_le start_order a b \<longleftrightarrow> snd a \<le> snd b"
  by (simp add: cmp_le_def start_order_def)

lemma sorted_insert_by_start:
  "sorted_wrt (cmp_le start_order) xs \<Longrightarrow> sorted_wrt (cmp_le start_order) (insert_by start_order x xs)"
proof (induction xs)
  case (Cons y ys)
  have "set (insert_by start_order x ys) = insert x (set ys)" by (metis mset_insert_by set_mset_add_mset_insert set_mset_mset)
  then show ?case using Cons by (auto simp: start_order_le)
qed simp

lemma sorted_by_start: "sorted_wrt (cmp_le start_order) (js_sort start_order xs)"
  by (induction xs) (simp_all add: sorted_insert_by_start)

text \<open>
  \<^verbatim>\<open>getOrderedChildren\<close> gives every node directly below a node exactly as often as it occurs there
  (in its properties, and in arrays in them, however deep), and no other value, in the order of
  the positions where the nodes start.
\<close>

theorem getOrderedChildren_sorted:
  "mset (getOrderedChildren node) = mset (child_nodes node)
   \<and> sorted_wrt (\<lambda>a b. node_start a \<le> node_start b) (getOrderedChildren node)"
proof -
  have s: "snd x = node_start (fst x)" if "x \<in> set (js_sort start_order (child_queue node))" for x
    using that by (auto simp: child_queue_nodes)
  have "mset (getOrderedChildren node) = mset (child_nodes node)"
    by (simp add: getOrderedChildren_def child_queue_nodes multiset.map_comp comp_def)
  moreover have "sorted_wrt (\<lambda>a b. node_start (fst a) \<le> node_start (fst b)) (js_sort start_order (child_queue node))"
    by (rule sorted_wrt_mono_rel [OF _ sorted_by_start]) (simp add: start_order_le s)
  ultimately show ?thesis by (simp add: getOrderedChildren_def sorted_wrt_map)
qed

text \<open>The nodes of a tree: the tree itself and those below its children.\<close>

inductive below :: "jsvalue \<Rightarrow> jsvalue \<Rightarrow> bool" where
  self: "below node node"
| child: "\<lbrakk>c \<in> set (child_nodes node); below c x\<rbrakk> \<Longrightarrow> below node x"

lemma set_ordered_children: "set (getOrderedChildren node) = set (child_nodes node)"
  by (auto simp: getOrderedChildren_def child_queue_nodes image_iff)

text \<open>
  \<^verbatim>\<open>containsChildMatching\<close> is true exactly when the node itself or a node anywhere below it has a
  type and satisfies the matcher.
\<close>

theorem containsChildMatching_iff:
  "containsChildMatching matcher node = (\<exists>x. below node x \<and> is_typed x \<and> matcher x)"
proof (induction matcher node rule: containsChildMatching.induct)
  case (1 matcher node)
  have "containsChildMatching matcher node =
      (is_typed node \<and> matcher node \<or> (\<exists>c \<in> set (child_nodes node). containsChildMatching matcher c))"
    by (subst containsChildMatching.simps) (auto simp: list_ex_iff set_ordered_children)
  also have "\<dots> = (\<exists>x. below node x \<and> is_typed x \<and> matcher x)"
    using 1 by (cases "is_typed node \<and> matcher node")
      (auto simp: set_ordered_children intro: below.intros elim: below.cases)
  finally show ?case .
qed

end
