(* ===== verification/TransformWalk.thy ===== *)
theory TransformWalk
  imports TransformTree
begin

text \<open>
  What a walk does: it pushes the scopes it pops, it ends when no visitor takes an interest, and an
  invariant of the writer that copying keeps holds at its end (a locale, interpreted on two
  invariants). From these: a transformation without an interested visitor is the identity, and the
  counters of the source map survive visitors that edit.
\<close>

subsection \<open>What a walk leaves alone\<close>

text \<open>A step that only adds bindings: the writer, the indentation and the temporary variables stay.\<close>

definition quiet :: "'o tstate \<Rightarrow> 'o tstate \<Rightarrow> bool" where
  "quiet s t \<longleftrightarrow> g t = g s \<and> indentBy t = indentBy s \<and> map tempVars (localScope t) = map tempVars (localScope s)"

lemma quiet_refl [simp]: "quiet s s"
  by (simp add: quiet_def)

lemma quiet_trans: "quiet s t \<Longrightarrow> quiet t u \<Longrightarrow> quiet s u"
  by (simp add: quiet_def)

lemma declare_quiet: "quiet s (declare_ident name m s)"
  by (simp add: quiet_def declare_ident_def declareIdentInLocalScope_def change_scope_def split: list.splits)

lemma declare_name_quiet: "declare_name_of v m s = Inr t \<Longrightarrow> quiet s t"
  by (auto simp: declare_name_of_def declare_quiet elim!: bindR_InrE)

lemma declare_params_quiet: "declare_params m ps s = Inr t \<Longrightarrow> quiet s t"
proof (induction ps arbitrary: s)
  case (Cons p ps)
  then obtain ident u where "(if ident then declare_name_of p m s else Inr s) = Inr u" "declare_params m ps u = Inr t"
    by (auto elim!: bindR_InrE)
  then have "quiet s u" "quiet u t" using Cons.IH declare_name_quiet by (auto split: if_splits)
  then show ?case by (rule quiet_trans)
qed simp

lemma declare_function_quiet:
  assumes "declare_function node path s = Inr t"
  shows "quiet s t"
proof -
  let ?u = "declare_ident (VStr (js ''arguments'')) (initScopeMetadata node None None) s"
  obtain m m' ps rest ident c u v where p: "declare_params m ps ?u = Inr u"
    and v: "(if truthy_value rest then declare_name_of rest m u else Inr u) = Inr v"
    and t: "(if c then declare_name_of ident m' v else Inr v) = Inr t"
    using assms unfolding declare_function_def Let_def by (elim bindR_InrE) (rule that)
  have "quiet s u" by (rule quiet_trans [OF declare_quiet declare_params_quiet [OF p]])
  moreover have "quiet u v" using v declare_name_quiet by (auto split: if_splits)
  moreover have "quiet v t" using t declare_name_quiet by (auto split: if_splits)
  ultimately show ?thesis by (blast intro: quiet_trans)
qed

text \<open>A relation that every step of a walk satisfies, when those of its parts do.\<close>

lemma each_related:
  assumes "each f xs s = Some (Inr t)" and "\<And>x s t. \<lbrakk>I s; f x s = Some (Inr t)\<rbrakk> \<Longrightarrow> I t \<and> R s t" and "I s"
    and "\<And>s. R s s" and "\<And>s t u. \<lbrakk>R s t; R t u\<rbrakk> \<Longrightarrow> R s u"
  shows "I t \<and> R s t"
  using assms(1,3)
proof (induction xs arbitrary: s)
  case (Cons x xs)
  then obtain u where u: "f x s = Some (Inr u)" "each f xs u = Some (Inr t)" by (auto elim: bindO_InrE)
  then show ?case using Cons.IH [of u] assms(2) [OF Cons.prems(2) u(1)] assms(5) by blast
qed (use assms(4) in simp)

lemma analyze_related:
  assumes "analyzeAndTraverse a f node path s = Some (Inr t)"
    and "\<And>s t c. \<lbrakk>I s; a node path s = Some (Inr (c, t))\<rbrakk> \<Longrightarrow> I t \<and> R s t"
    and "\<And>x p s t. \<lbrakk>I s; f x p s = Some (Inr t)\<rbrakk> \<Longrightarrow> I t \<and> R s t" and "I s"
    and "\<And>s. R s s" and "\<And>s t u. \<lbrakk>R s t; R t u\<rbrakk> \<Longrightarrow> R s u"
  shows "I t \<and> R s t"
proof (cases "\<exists>ty. get_prop node ''type'' = Inr ty \<and> truthy_value ty")
  case True
  then obtain c u where u: "a node path s = Some (Inr (c, u))"
    "if \<not> c then Some (Inr u) = Some (Inr t) else each (\<lambda>child. f child (node # path)) (getOrderedChildren node) u = Some (Inr t)"
    using assms(1) by (auto simp: analyzeAndTraverse_def elim!: bindO_InrE split: if_splits)
  have su: "I u" "R s u" using assms(2) [OF assms(4) u(1)] by auto
  show ?thesis
  proof (cases c)
    case True
    then have "I t \<and> R u t" using u(2) su(1)
      by (intro each_related [of "\<lambda>child. f child (node # path)" "getOrderedChildren node" u t I R])
        (auto dest: assms(3) intro: assms(5) assms(6))
    then show ?thesis using assms(6) su(2) by blast
  qed (use u(2) su in auto)
next
  case False
  then have "each (\<lambda>child. f child path) (getOrderedChildren node) s = Some (Inr t)"
    using assms(1) by (auto simp: analyzeAndTraverse_def elim!: bindO_InrE split: if_splits)
  then show ?thesis
    by (intro each_related [of "\<lambda>child. f child path" "getOrderedChildren node" s t I R])
      (auto simp: assms(4) dest: assms(3) intro: assms(5) assms(6))
qed

lemma visitLocalClosure_quiet:
  assumes "visitLocalClosureIdentifiers node path s = Some (Inr (c, t))"
  shows "quiet s t"
  using assms unfolding visitLocalClosureIdentifiers_def Let_def
  by (auto elim!: bindR_InrE split: if_splits intro: declare_name_quiet)

lemma collectClosure_quiet: "collectClosureIdentsAndTraverse n node path s = Some (Inr t) \<Longrightarrow> quiet s t"
proof (induction n arbitrary: node path s t)
  case (Suc n)
  show ?case
    by (rule analyze_related [where I = "\<lambda>s. True" and R = quiet, OF Suc.prems [unfolded collectClosureIdentsAndTraverse.simps], THEN conjunct2])
      (simp_all add: visitLocalClosure_quiet Suc.IH, rule quiet_trans)
qed simp

lemma collectBlock_quiet: "collectBlockIdentsAndTraverse n node path s = Some (Inr t) \<Longrightarrow> quiet s t"
proof (induction n arbitrary: node path s t)
  case (Suc n)
  show ?case
    by (rule analyze_related [where I = "\<lambda>s. True" and R = quiet, OF Suc.prems [unfolded collectBlockIdentsAndTraverse.simps], THEN conjunct2])
      (auto simp: visitLocalBlockIdentifiers_def Suc.IH intro: quiet_trans)
qed simp

text \<open>Entering scopes pushes as many of them as it says, without temporary variables.\<close>

definition entered :: "nat \<Rightarrow> 'o tstate \<Rightarrow> 'o tstate \<Rightarrow> bool" where
  "entered n s t \<longleftrightarrow> g t = g s \<and> indentBy t = indentBy s
     \<and> map tempVars (localScope t) = replicate n [] @ map tempVars (localScope s)"

lemma entered_quiet: "entered n s t \<Longrightarrow> quiet t u \<Longrightarrow> entered n s u"
  by (simp add: entered_def quiet_def)

lemma entered_push: "entered 1 s (push_scope p s)"
  by (simp add: entered_def push_scope_def)

lemma enter_closure_entered: "enter_closure n node path s = Some (Inr (start, k, t)) \<Longrightarrow> entered k s t"
proof -
  assume a: "enter_closure n node path s = Some (Inr (start, k, t))"
  then obtain u where u: "collectClosureIdentsAndTraverse n node path u = Some (Inr t)" "entered k s u"
    unfolding enter_closure_def
    by (auto elim!: bindO_InrE bindR_InrE split: if_splits dest!: declare_function_quiet)
      (auto simp: entered_def quiet_def push_scope_def)
  show ?thesis using entered_quiet [OF u(2) collectClosure_quiet [OF u(1)]] .
qed

lemma enter_block_entered: "enter_block n node path s = Some (Inr (start, k, t)) \<Longrightarrow> entered k s t"
  unfolding enter_block_def Let_def
  by (auto elim!: bindO_InrE bindR_InrE dest!: declare_name_quiet collectBlock_quiet)
    (auto simp: entered_def quiet_def push_scope_def)

lemma enter_scopes_entered: "enter_scopes n node path s = Some (Inr (start, k, t)) \<Longrightarrow> entered k s t"
proof -
  assume a: "enter_scopes n node path s = Some (Inr (start, k, t))"
  have z: "entered 0 s s" by (simp add: entered_def)
  have p: "entered i s u \<Longrightarrow> entered j u t \<Longrightarrow> entered (i + j) s t" for i j u
    by (simp add: entered_def replicate_add [symmetric] add.commute append_assoc [symmetric] del: append_assoc)
  show ?thesis using a z unfolding enter_scopes_def Let_def
    by (auto elim!: bindO_InrE split: if_splits dest!: enter_closure_entered enter_block_entered dest: p)
qed

subsection \<open>The walk ends\<close>

definition ends :: "'a run \<Rightarrow> bool" where
  "ends m \<longleftrightarrow> m \<noteq> None"

lemma ends_Some [simp]: "ends (Some x)"
  by (simp add: ends_def)

lemma bindO_ends: "\<lbrakk>ends m; \<And>x. m = Some (Inr x) \<Longrightarrow> ends (f x)\<rbrakk> \<Longrightarrow> ends (bindO m f)"
  by (cases m) (auto simp: bindO_def ends_def split: sum.splits)

lemma each_ends: "(\<And>x s. x \<in> set xs \<Longrightarrow> ends (f x s)) \<Longrightarrow> ends (each f xs s)"
  by (induction xs arbitrary: s) (simp_all add: bindO_ends)

lemma analyze_ends:
  assumes "\<And>s. ends (a node path s)" and "\<And>x p s. x \<in> set (getOrderedChildren node) \<Longrightarrow> ends (f x p s)"
  shows "ends (analyzeAndTraverse a f node path s)"
  using assms
  by (auto simp: analyzeAndTraverse_def intro!: bindO_ends each_ends)

lemma collectClosure_ends: "depth node < n \<Longrightarrow> ends (collectClosureIdentsAndTraverse n node path s)"
proof (induction n arbitrary: node path s)
  case (Suc n)
  show ?case unfolding collectClosureIdentsAndTraverse.simps
  proof (rule analyze_ends)
    fix x p and s :: "'a tstate"
    assume "x \<in> set (getOrderedChildren node)"
    then have "depth x < depth node" by (rule child_depth)
    then show "ends (collectClosureIdentsAndTraverse n x p s)" using Suc by simp
  qed (simp add: visitLocalClosureIdentifiers_def)
qed simp

lemma collectBlock_ends: "depth node < n \<Longrightarrow> ends (collectBlockIdentsAndTraverse n node path s)"
proof (induction n arbitrary: node path s)
  case (Suc n)
  show ?case unfolding collectBlockIdentsAndTraverse.simps
  proof (rule analyze_ends)
    fix x p and s :: "'a tstate"
    assume "x \<in> set (getOrderedChildren node)"
    then have "depth x < depth node" by (rule child_depth)
    then show "ends (collectBlockIdentsAndTraverse n x p s)" using Suc by simp
  qed (simp add: visitLocalBlockIdentifiers_def)
qed simp

lemma enter_scopes_ends:
  assumes "depth node < n"
  shows "ends (enter_scopes n node path s)"
  using collectClosure_ends [OF assms] collectBlock_ends [OF assms]
  by (auto simp: enter_scopes_def enter_closure_def enter_block_def Let_def intro!: bindO_ends)

text \<open>A visitor that ends when the function it goes on with ends below the node.\<close>

definition ending_visitor :: "'o visitor \<Rightarrow> bool" where
  "ending_visitor v \<longleftrightarrow> (\<forall>f node path s. (\<forall>x p u. depth x < depth node \<longrightarrow> ends (f x p u)) \<longrightarrow>
     visit_test v node path s = Inr True \<longrightarrow> ends (visit v f node path s))"

lemma silent_ending: "(\<And>node path s. visit_test v node path s = Inr False) \<Longrightarrow> ending_visitor v"
  by (simp add: ending_visitor_def)

lemma walker_ends:
  assumes "\<forall>v \<in> set vs. ending_visitor v" and "\<And>x p u. depth x < depth node \<Longrightarrow> ends (f x p u)"
  shows "ends (walker vs f node path s)"
  using assms(1)
proof (induction vs)
  case (Cons v vs)
  show ?case
  proof (cases "visit_test v node path s")
    case (Inr yes)
    then show ?thesis using Cons assms(2) by (auto simp: ending_visitor_def)
  qed simp
qed simp

lemma traverse_ends:
  assumes "\<forall>v \<in> set vs. ending_visitor v" and "depth node < n"
  shows "ends (traverse n vs node path s)"
  using assms(2)
proof (induction n arbitrary: node path s)
  case (Suc n)
  have f: "ends (traverse n vs x p s)" if "depth x < depth node" for x p and s :: "'a tstate"
    using that Suc by simp
  have "ends (analyzeAndTraverse (walker vs (traverse n vs)) (traverser (traverse n vs)) node path u)" for u
  proof (rule analyze_ends)
    fix x p and s :: "'a tstate"
    assume "x \<in> set (getOrderedChildren node)"
    then have "ends (traverse n vs x p s)" for s using f child_depth by blast
    then show "ends (traverser (traverse n vs) x p s)"
      by (auto simp: traverser_def catchup_state_def intro!: bindO_ends split: option.splits)
  qed (rule walker_ends [OF assms(1) f])
  then show ?case using enter_scopes_ends [OF Suc.prems]
    by (auto intro!: bindO_ends)
qed simp

lemma bindO_assoc: "bindO (bindO m f) h = bindO m (\<lambda>x. bindO (f x) h)"
  by (cases m) (auto simp: bindO_def split: sum.splits)

lemma catchup_reaches: "catchup by e None w = Inr w' \<Longrightarrow> e \<le> w_position w'"
  by (cases "e < w_position w") (auto simp: catchup_def Let_def elim!: bindR_InrE)

text \<open>A transformation is a walk from a state at the beginning of the source, and a last copy.\<close>

lemma transform_ast_run:
  obtains s m where "g s = (g (createState source ast options))\<lparr>w_sourceMap := m\<rparr>" and "\<forall>x. m = Some x \<longrightarrow> g_mappings x = []"
    and "indentBy s = 0" and "\<exists>scope. localScope s = [scope] \<and> tempVars scope = []"
    and "transform_ast fuel visitors source ast options = bindO (bindO (traverse fuel visitors ast [] s) (catchup_state (length source)))
      (\<lambda>state. Some (Inr \<lparr>r_code = w_buffer (g state),
         r_sourceMap = (if o_sourceMap options then w_sourceMap (g state) else None),
         r_sourceMapFilename = (if o_sourceMap options then Some (or_else (o_filename options) ''source.js'') else None)\<rparr>))"
proof (cases "o_sourceMap options")
  case True
  let ?s = "createState source ast options"
  obtain m where m: "SourceMapGenerator (Some (or_else (o_filename options) ''transformed.js'')) None = Inr m" "g_mappings m = []"
    by (auto simp: SourceMapGenerator_def getArg_def bindR_def split: option.splits)
  show ?thesis
    by (rule that [of "?s\<lparr>g := (g ?s)\<lparr>w_sourceMap := Some m\<rparr>\<rparr>" "Some m"])
      (use m True in \<open>auto simp: transform_ast_def createState_def bindO_assoc\<close>)
next
  case False
  let ?s = "createState source ast options"
  show ?thesis
    by (rule that [of ?s None]) (use False in \<open>auto simp: transform_ast_def createState_def bindO_assoc\<close>)
qed

subsection \<open>Invariants of the writer\<close>

text \<open>
  The contract between the walk and an invariant of the writer: copying the source up to a
  position keeps it. Then every walk does, with visitors that keep it themselves, and that leave no
  temporary variables behind, when the function they go on with keeps it.
\<close>

locale writer_invariant =
  fixes P :: "int \<Rightarrow> writer \<Rightarrow> bool"
  assumes catchup_keeps: "\<lbrakk>P by w; catchup by end None w = Inr w'\<rbrakk> \<Longrightarrow> P by w'"
begin

definition holds_in :: "'o tstate \<Rightarrow> bool" where
  "holds_in s \<longleftrightarrow> P (indentBy s) (g s) \<and> localScope s \<noteq> [] \<and> (\<forall>scope \<in> set (localScope s). tempVars scope = [])"

definition same_frame :: "'o tstate \<Rightarrow> 'o tstate \<Rightarrow> bool" where
  "same_frame s t \<longleftrightarrow> indentBy t = indentBy s \<and> length (localScope t) = length (localScope s)"

definition keeps_on :: "(jsvalue \<Rightarrow> jsvalue list \<Rightarrow> 'o tstate \<Rightarrow> 'o tstate run) \<Rightarrow> bool" where
  "keeps_on f \<longleftrightarrow> (\<forall>node path s t. holds_in s \<longrightarrow> f node path s = Some (Inr t) \<longrightarrow> holds_in t \<and> same_frame s t)"

definition keeping_visitor :: "'o visitor \<Rightarrow> bool" where
  "keeping_visitor v \<longleftrightarrow> (\<forall>f node path s c t. keeps_on f \<longrightarrow> holds_in s \<longrightarrow> visit_test v node path s = Inr True \<longrightarrow>
     visit v f node path s = Some (Inr (c, t)) \<longrightarrow> holds_in t \<and> same_frame s t)"

lemma same_frame_refl: "same_frame s s"
  by (simp add: same_frame_def)

lemma same_frame_trans: "same_frame s t \<Longrightarrow> same_frame t u \<Longrightarrow> same_frame s u"
  by (simp add: same_frame_def)

lemma catchup_state_keeps: "\<lbrakk>holds_in s; catchup_state e s = Some (Inr t)\<rbrakk> \<Longrightarrow> holds_in t \<and> same_frame s t"
  using catchup_keeps by (auto simp: catchup_state_def holds_in_def same_frame_def elim!: bindR_InrE)

lemma traverser_keeps: "keeps_on f \<Longrightarrow> keeps_on (traverser f)"
proof (unfold keeps_on_def [of "traverser f"], intro allI impI)
  fix node path s t
  assume f: "keeps_on f" and s: "holds_in s" and t: "traverser f node path s = Some (Inr t)"
  show "holds_in t \<and> same_frame s t"
  proof (cases "node_range node")
    case None
    then show ?thesis using f s t by (auto simp: traverser_def keeps_on_def)
  next
    case (Some r)
    then obtain u v where "catchup_state (fst r) s = Some (Inr u)" "f node path u = Some (Inr v)"
      "catchup_state (snd r) v = Some (Inr t)"
      using t by (cases r) (auto simp: traverser_def elim!: bindO_InrE)
    then show ?thesis using f s catchup_state_keeps same_frame_trans unfolding keeps_on_def by meson
  qed
qed

lemma walker_keeps:
  assumes "\<forall>v \<in> set vs. keeping_visitor v" and "keeps_on f" and "holds_in s"
    and "walker vs f node path s = Some (Inr (c, t))"
  shows "holds_in t \<and> same_frame s t"
  using assms(1,4)
proof (induction vs)
  case (Cons v vs)
  obtain yes where yes: "visit_test v node path s = Inr yes"
    "(if yes then visit v f node path s else walker vs f node path s) = Some (Inr (c, t))"
    using Cons.prems(2) by (auto split: sum.splits)
  show ?case
  proof (cases yes)
    case True
    then show ?thesis using Cons.prems(1) assms(2,3) yes unfolding keeping_visitor_def by auto
  next
    case False
    then show ?thesis using Cons yes by simp
  qed
qed (use assms(3) same_frame_refl in simp)

lemma traverse_keeps:
  assumes "\<forall>v \<in> set vs. keeping_visitor v"
  shows "keeps_on (traverse n vs)"
proof (induction n)
  case (Suc n)
  show ?case unfolding keeps_on_def
  proof (intro allI impI)
    fix node path s t
    assume s: "holds_in s" and t: "traverse (Suc n) vs node path s = Some (Inr t)"
    obtain start k u v where u: "enter_scopes (Suc n) node path s = Some (Inr (start, k, u))"
      and v: "analyzeAndTraverse (walker vs (traverse n vs)) (traverser (traverse n vs)) node path u = Some (Inr v)"
      and t': "t = leave_scopes s k (inject_declarations start v)"
      using t by (auto elim!: bindO_InrE)
    have e: "g u = g s" "indentBy u = indentBy s" "map tempVars (localScope u) = replicate k [] @ map tempVars (localScope s)"
      using enter_scopes_entered [OF u] by (simp_all add: entered_def)
    have "length (map tempVars (localScope u)) = k + length (map tempVars (localScope s))" unfolding e(3) by simp
    then have k: "length (localScope u) = k + length (localScope s)" by simp
    have "\<forall>x \<in> set (map tempVars (localScope u)). x = []" using s unfolding e(3) by (auto simp: holds_in_def)
    then have "holds_in u" using s e(1,2) k by (auto simp: holds_in_def)
    then have hv: "holds_in v" "same_frame u v"
      using analyze_related [of "walker vs (traverse n vs)" "traverser (traverse n vs)" node path u v holds_in same_frame]
        v walker_keeps [OF assms Suc] traverser_keeps [OF Suc] same_frame_refl same_frame_trans
      unfolding keeps_on_def by blast+
    have "tempVars (hd (localScope v)) = []" using hv(1) by (cases "localScope v") (auto simp: holds_in_def)
    then have "inject_declarations start v = v"
      by (simp add: inject_declarations_def injectTempVarDeclarations_def split: option.splits)
    moreover have "set (drop k (localScope v)) \<subseteq> set (localScope v)" by (rule set_drop_subset)
    moreover have "length (drop k (localScope v)) = length (localScope s)" using hv(2) k by (simp add: same_frame_def)
    ultimately show "holds_in t \<and> same_frame s t"
      using hv s e(2) by (auto simp: t' leave_scopes_def holds_in_def same_frame_def)
  qed
qed (simp add: keeps_on_def)

lemma silent_keeping: "(\<And>node path s. visit_test v node path s = Inr False) \<Longrightarrow> keeping_visitor v"
  by (simp add: keeping_visitor_def)

text \<open>Rules for the parts of a visitor: a run that starts in \<open>s\<close> and may stop with an error.\<close>

definition keeps_run :: "'o tstate \<Rightarrow> 'o tstate run \<Rightarrow> bool" where
  "keeps_run s m \<longleftrightarrow> (\<forall>t. m = Some (Inr t) \<longrightarrow> holds_in t \<and> same_frame s t)"

lemma run_done: "holds_in s \<Longrightarrow> keeps_run s (Some (Inr s))"
  by (simp add: keeps_run_def same_frame_refl)

lemma run_bind:
  assumes "keeps_run s m" and "\<And>t. holds_in t \<Longrightarrow> keeps_run t (f t)"
  shows "keeps_run s (bindO m f)"
  using assms unfolding keeps_run_def by (blast elim: bindO_InrE intro: same_frame_trans)

lemma run_value: "(\<And>x. m = Inr x \<Longrightarrow> keeps_run s (f x)) \<Longrightarrow> keeps_run s (bindO (Some m) f)"
  by (cases m) (simp_all add: keeps_run_def)

lemma run_catchup: "holds_in s \<Longrightarrow> keeps_run s (catchup_state e s)"
  unfolding keeps_run_def using catchup_state_keeps by blast

lemma run_go_on: "\<lbrakk>keeps_on f; holds_in s\<rbrakk> \<Longrightarrow> keeps_run s (f node path s)"
  unfolding keeps_run_def keeps_on_def by blast

lemma run_if: "\<lbrakk>b \<Longrightarrow> keeps_run s m; \<not> b \<Longrightarrow> keeps_run s m'\<rbrakk> \<Longrightarrow> keeps_run s (if b then m else m')"
  by simp

lemmas run_rules = run_done run_bind run_value run_catchup run_if

text \<open>A whole transformation, from a state that satisfies the invariant.\<close>

lemma transform_keeps:
  assumes "\<forall>v \<in> set vs. keeping_visitor v" and "\<forall>v \<in> set vs. ending_visitor v" and "depth ast < fuel"
    and "\<And>m. \<forall>x. m = Some x \<longrightarrow> g_mappings x = [] \<Longrightarrow> P 0 ((g (createState source ast options))\<lparr>w_sourceMap := m\<rparr>)"
  shows "\<exists>r. transform_ast fuel vs source ast options = Some r \<and> (\<forall>a. r = Inr a \<longrightarrow>
    (\<exists>w. P 0 w \<and> length source \<le> w_position w \<and> r_code a = w_buffer w
      \<and> (\<forall>m. r_sourceMap a = Some m \<longrightarrow> w_sourceMap w = Some m)))"
proof -
  obtain s m where s: "g s = (g (createState source ast options))\<lparr>w_sourceMap := m\<rparr>" "\<forall>x. m = Some x \<longrightarrow> g_mappings x = []"
    "indentBy s = 0" "\<exists>scope. localScope s = [scope] \<and> tempVars scope = []"
    and t: "transform_ast fuel vs source ast options = bindO (bindO (traverse fuel vs ast [] s) (catchup_state (length source)))
      (\<lambda>state. Some (Inr \<lparr>r_code = w_buffer (g state),
         r_sourceMap = (if o_sourceMap options then w_sourceMap (g state) else None),
         r_sourceMapFilename = (if o_sourceMap options then Some (or_else (o_filename options) ''source.js'') else None)\<rparr>))"
    by (rule transform_ast_run)
  let ?walk = "bindO (traverse fuel vs ast [] s) (catchup_state (length source))"
  have "holds_in s" using s assms(4) by (auto simp: holds_in_def)
  moreover have "ends ?walk" using traverse_ends [OF assms(2,3)] by (auto intro!: bindO_ends simp: catchup_state_def)
  moreover have "P 0 (g st) \<and> length source \<le> w_position (g st)" if w: "?walk = Some (Inr st)" for st
  proof -
    obtain u where u: "traverse fuel vs ast [] s = Some (Inr u)" "catchup_state (length source) u = Some (Inr st)"
      using w by (auto elim: bindO_InrE)
    then have "holds_in u \<and> same_frame s u" using traverse_keeps [OF assms(1)] \<open>holds_in s\<close> unfolding keeps_on_def by blast
    then have "holds_in st" "indentBy st = 0" using catchup_state_keeps [OF _ u(2)] s(3) by (auto simp: same_frame_def)
    moreover have "catchup (indentBy u) (length source) None (g u) = Inr (g st)"
      using u(2) by (auto simp: catchup_state_def elim!: bindR_InrE)
    ultimately show ?thesis using catchup_reaches by (auto simp: holds_in_def)
  qed
  moreover obtain r where "?walk = Some r" using calculation(2) by (auto simp: ends_def)
  ultimately show ?thesis unfolding t by (cases r) (auto split: if_splits)
qed

end

subsection \<open>Copying only\<close>

text \<open>Nothing but copies of the source so far, and every recorded mapping is from a position to itself.\<close>

definition same_position :: "int \<times> int \<times> jsnum \<times> jsnum \<Rightarrow> bool" where
  "same_position x \<longleftrightarrow> (\<exists>l c. x = at_positions l c l c)"

definition copies :: "jsstring \<Rightarrow> int \<Rightarrow> writer \<Rightarrow> bool" where
  "copies src by w \<longleftrightarrow> by = 0 \<and> w_source w = src \<and> w_buffer w = take (w_position w) src
     \<and> w_sourceLine w = w_bufferLine w \<and> w_sourceColumn w = w_bufferColumn w
     \<and> (\<forall>x \<in> set (recorded w). same_position x)"

lemma add_position_adds:
  assumes "add_position gl gc ol oc w = Inr u" and "w_sourceMap w \<noteq> None"
  shows "\<exists>m. u = w\<lparr>w_sourceMap := Some m\<rparr> \<and> map says (g_mappings m) = recorded w @ [at_positions gl gc ol oc]"
  using assms
  by (auto simp: add_position_def addMapping_def getArg_def recorded_def at_positions_def says_def num_prop_def Let_def
      elim!: bindR_InrE)

lemma line_mappings_copies:
  assumes "line_mappings n w = Inr u" and "w_sourceMap w \<noteq> None" and "copies src 0 w"
  shows "w_sourceMap u \<noteq> None \<and> copies src 0 u \<and> w_position u = w_position w"
  using assms
proof (induction n arbitrary: w)
  case (Suc n)
  obtain v where v: "add_position (w_bufferLine w) 0 (w_sourceLine w) 0 w = Inr v"
    "line_mappings n (v\<lparr>w_sourceLine := w_sourceLine v + 1, w_bufferLine := w_bufferLine v + 1\<rparr>) = Inr u"
    using Suc.prems(1) by (auto elim!: bindR_InrE)
  obtain m where m: "v = w\<lparr>w_sourceMap := Some m\<rparr>"
    "map says (g_mappings m) = recorded w @ [at_positions (w_bufferLine w) 0 (w_sourceLine w) 0]"
    using add_position_adds [OF v(1) Suc.prems(2)] by blast
  then have "copies src 0 (v\<lparr>w_sourceLine := w_sourceLine v + 1, w_bufferLine := w_bufferLine v + 1\<rparr>)"
    using Suc.prems(3) by (auto simp: copies_def recorded_def same_position_def)
  then show ?case using Suc.IH [OF v(2)] m(1) by simp
qed simp

lemma map_piece_copies:
  assumes "map_piece s s w = Inr u" and "w_sourceMap w \<noteq> None" and "copies src 0 w"
  shows "copies src 0 u \<and> w_position u = w_position w"
proof -
  let ?n = "length (split_on 10 s)"
  obtain v x where v: "add_position (w_bufferLine w) (w_bufferColumn w) (w_sourceLine w) (w_sourceColumn w) w = Inr v"
    and x: "line_mappings (?n - 2) v = Inr x"
    and u: "u = (let x = (if ?n > 1 then x\<lparr>w_sourceLine := w_sourceLine x + 1, w_bufferLine := w_bufferLine x + 1,
                            w_sourceColumn := 0, w_bufferColumn := 0\<rparr> else x)
                in x\<lparr>w_sourceColumn := w_sourceColumn x + length (last (split_on 10 s)),
                     w_bufferColumn := w_bufferColumn x + length (last (split_on 10 s))\<rparr>)"
    using assms(1) by (auto simp: map_piece_def Let_def elim!: bindR_InrE)
  obtain m where m: "v = w\<lparr>w_sourceMap := Some m\<rparr>"
    "map says (g_mappings m) = recorded w @ [at_positions (w_bufferLine w) (w_bufferColumn w) (w_sourceLine w) (w_sourceColumn w)]"
    using add_position_adds [OF v assms(2)] by blast
  then have "copies src 0 v" using assms(3) by (auto simp: copies_def recorded_def same_position_def)
  then have "copies src 0 x" "w_position x = w_position w" using line_mappings_copies [OF x] m(1) by auto
  then show ?thesis by (auto simp: u copies_def recorded_def Let_def)
qed

lemma catchup_copies:
  assumes "copies src by w" and "catchup by e None w = Inr w'"
  shows "copies src by w' \<and> e \<le> w_position w'"
proof (cases "e < w_position w")
  case True
  then show ?thesis using assms by (simp add: catchup_def)
next
  case False
  let ?s = "substring (w_position w) e src"
  have c: "by = 0" "w_source w = src" "copies src 0 w" using assms(1) by (auto simp: copies_def)
  obtain u where u: "(if w_sourceMap w \<noteq> None \<and> ?s \<noteq> [] then map_piece ?s ?s w else Inr w) = Inr u"
    and w': "w' = u\<lparr>w_buffer := w_buffer u @ ?s, w_position := e\<rparr>"
    using assms(2) False c by (auto simp: catchup_def Let_def elim!: bindR_InrE)
  have "copies src 0 u \<and> w_position u = w_position w" using u c(3) map_piece_copies by (auto split: if_splits)
  then show ?thesis using False take_catchup [of "w_position w" e src] c(1) by (auto simp: w' copies_def recorded_def)
qed

interpretation copying: writer_invariant "copies src" for src
  by unfold_locales (use catchup_copies in blast)

interpretation positions: writer_invariant "\<lambda>by w. 0 \<le> by \<and> located w \<and> recording w"
proof unfold_locales
  fix "by" w e w'
  assume "0 \<le> by \<and> located w \<and> recording w" and "catchup by e None w = Inr w'"
  then show "0 \<le> by \<and> located w' \<and> recording w'" using catchup_located [of w "by" None e] by auto
qed

subsection \<open>Transformations\<close>

text \<open>
  C6: without a visitor that takes an interest in a node, \<^verbatim>\<open>transform\<close> gives the source back, whatever
  the tree and its ranges: the walk ends (the fuel is more than the depth of the tree), and when it
  does not throw the code is the source, and every mapping of the source map is from a position to
  the same position.
\<close>

theorem transform_copies:
  assumes "\<forall>v \<in> set visitors. \<forall>node path st. visit_test v node path st = Inr False" and "depth ast < fuel"
  shows "\<exists>r. transform_ast fuel visitors source ast options = Some r
    \<and> (\<forall>a. r = Inr a \<longrightarrow> r_code a = source
        \<and> (\<forall>m. r_sourceMap a = Some m \<longrightarrow> (\<forall>x \<in> set (g_mappings m). same_position (says x))))"
proof -
  have silent: "visit_test v node path st = Inr False" if "v \<in> set visitors" for v node path st using assms(1) that by blast
  have keep: "\<forall>v \<in> set visitors. copying.keeping_visitor source v" and "end": "\<forall>v \<in> set visitors. ending_visitor v"
    using silent copying.silent_keeping silent_ending by blast+
  have start: "copies source 0 ((g (createState source ast options))\<lparr>w_sourceMap := m\<rparr>)"
    if "\<forall>x. m = Some x \<longrightarrow> g_mappings x = []" for m
    using that by (auto simp: copies_def createState_def recorded_def split: option.splits)
  obtain r where r: "transform_ast fuel visitors source ast options = Some r"
    "\<And>a. r = Inr a \<Longrightarrow> \<exists>w. copies source 0 w \<and> length source \<le> w_position w \<and> r_code a = w_buffer w
      \<and> (\<forall>m. r_sourceMap a = Some m \<longrightarrow> w_sourceMap w = Some m)"
    using copying.transform_keeps [OF keep "end" assms(2) start] by blast
  have "r_code a = source \<and> (\<forall>m. r_sourceMap a = Some m \<longrightarrow> (\<forall>x \<in> set (g_mappings m). same_position (says x)))"
    if a: "r = Inr a" for a
  proof -
    obtain w where w: "copies source 0 w" "length source \<le> w_position w" "r_code a = w_buffer w"
      "\<forall>m. r_sourceMap a = Some m \<longrightarrow> w_sourceMap w = Some m" using r(2) [OF a] by blast
    have "same_position (says x)" if "r_sourceMap a = Some m" "x \<in> set (g_mappings m)" for m x
    proof -
      have "says x \<in> set (recorded w)" using that w(4) by (simp add: recorded_def)
      then show ?thesis using w(1) unfolding copies_def by blast
    qed
    then show ?thesis using w(1-3) by (simp add: copies_def)
  qed
  then show ?thesis using r(1) by blast
qed

text \<open>A tree for the examples: a program of one statement, a sum.\<close>

definition tree_node :: "nat \<Rightarrow> nat \<times> nat \<Rightarrow> string \<Rightarrow> (jsstring \<times> jsvalue) list \<Rightarrow> jsvalue" where
  "tree_node i r t ps = VObj i (Some r) ((js ''type'', VStr (js t)) # ps)"

definition sample_tree :: jsvalue where
  "sample_tree = tree_node 0 (0, 5) ''Program'' [(js ''body'', VArr [
     tree_node 1 (0, 5) ''ExpressionStatement'' [(js ''expression'',
       tree_node 2 (0, 5) ''BinaryExpression''
         [(js ''right'', tree_node 4 (4, 5) ''Identifier'' []), (js ''left'', tree_node 3 (0, 1) ''Identifier'' [])])]])]"

definition sample_options :: transform_options where
  "sample_options = \<lparr>o_sourceMap = False, o_filename = None, o_disableAstCache = True, o_sourceType = None\<rparr>"

theorem transform_copies_witness:
  "\<exists>a. transform_ast 20 [] (js ''a + b'') sample_tree sample_options = Some (Inr a) \<and> r_code a = js ''a + b''"
proof -
  have d: "depth sample_tree < 20" by code_simp
  have "case transform_ast 20 [] (js ''a + b'') sample_tree sample_options of Some (Inr a) \<Rightarrow> True | _ \<Rightarrow> False"
    by code_simp
  then obtain a where "transform_ast 20 [] (js ''a + b'') sample_tree sample_options = Some (Inr a)"
    by (auto split: option.splits sum.splits)
  then show ?thesis using transform_copies [of "[]" sample_tree 20 "js ''a + b''" sample_options] d by auto
qed

text \<open>A visitor that edits the output at a node and does not go on below it.\<close>

definition edit_visitor :: "(jsvalue \<Rightarrow> bool) \<Rightarrow> (jsvalue \<Rightarrow> edit list) \<Rightarrow> 'o visitor" where
  "edit_visitor test es = \<lparr>visit_test = (\<lambda>node path st. Inr (test node)),
     visit = (\<lambda>go_on node path st. Some (bindR (edits (es node) (g st)) (\<lambda>w. Inr (False, st\<lparr>g := w\<rparr>))))\<rparr>"

definition recording_state :: "jsstring \<Rightarrow> jsvalue \<Rightarrow> 'o \<Rightarrow> 'o tstate" where
  "recording_state source ast options =
     (createState source ast options)\<lparr>g := start_writer source fresh_generator\<rparr>"

lemma edit_visitor_keeps:
  assumes "\<forall>node. \<forall>e \<in> set (es node). indents e"
  shows "positions.keeping_visitor (edit_visitor test es)"
  unfolding positions.keeping_visitor_def
proof (intro allI impI)
  fix f node path s c t
  assume s: "positions.holds_in s" and "visit (edit_visitor test es) f node path s = Some (Inr (c, t))"
  then obtain w where w: "edits (es node) (g s) = Inr w" "t = s\<lparr>g := w\<rparr>" by (auto simp: edit_visitor_def elim!: bindR_InrE)
  then show "positions.holds_in t \<and> positions.same_frame s t"
    using s edits_located [of "g s" "es node"] assms by (auto simp: positions.holds_in_def positions.same_frame_def)
qed



end
