(* ===== verification/VisitBase.thy ===== *)
theory VisitBase
  imports TransformWalk
begin

text \<open>
  What visitors are made of: reading nodes with the errors of a missing one, the operations of the
  writer as steps of a run, and the rules that an invariant of the writer, and the end of a visit, are
  proved with.
\<close>

subsection \<open>What visitors use of nodes and of the writer\<close>

text \<open>\<^verbatim>\<open>node.range\<close>, read at an index: there is an error when it is missing.\<close>

definition range_of :: "jsvalue \<Rightarrow> (nat \<times> nat) res" where
  "range_of v =
     bindR (get_prop v ''range'') (\<lambda>_.
       case node_range v of
         None \<Rightarrow> Inl (TypeError (js ''Cannot read property of undefined''))
       | Some r \<Rightarrow> Inr r)"

definition type_in :: "jsvalue \<Rightarrow> string list \<Rightarrow> bool res" where
  "type_in v types = bindR (get_prop v ''type'') (\<lambda>t. Inr (t \<in> set (map (\<lambda>t. VStr (js t)) types)))"

text \<open>\<^verbatim>\<open>path[0]\<close>.\<close>

definition first_of :: "jsvalue list \<Rightarrow> jsvalue" where
  "first_of path = (case path of [] \<Rightarrow> VUndef | p # _ \<Rightarrow> p)"

text \<open>\<^verbatim>\<open>a && b\<close> of tests that may throw.\<close>

definition andR :: "bool res \<Rightarrow> bool res \<Rightarrow> bool res" where
  "andR a b = bindR a (\<lambda>x. if x then b else Inr False)"

definition truthy_prop :: "jsvalue \<Rightarrow> string \<Rightarrow> bool res" where
  "truthy_prop v key = bindR (get_prop v key) (\<lambda>x. Inr (truthy_value x))"

definition whiteout_state :: "nat \<Rightarrow> 'o tstate \<Rightarrow> 'o tstate run" where
  "whiteout_state end st = Some (bindR (catchupWhiteOut (indentBy st) end (g st)) (\<lambda>w. Inr (st\<lparr>g := w\<rparr>)))"

definition catchup_with :: "(jsstring \<Rightarrow> jsstring) \<Rightarrow> nat \<Rightarrow> 'o tstate \<Rightarrow> 'o tstate run" where
  "catchup_with f end st = Some (bindR (catchup (indentBy st) end (Some f) (g st)) (\<lambda>w. Inr (st\<lparr>g := w\<rparr>)))"

definition append_state :: "jsstring \<Rightarrow> 'o tstate \<Rightarrow> 'o tstate run" where
  "append_state str st = Some (bindR (append_text str (g st)) (\<lambda>w. Inr (st\<lparr>g := w\<rparr>)))"

definition move_state :: "nat \<Rightarrow> 'o tstate \<Rightarrow> 'o tstate run" where
  "move_state end st = Some (Inr (st\<lparr>g := move_to end (g st)\<rparr>))"

text \<open>\<^verbatim>\<open>return false\<close>: the walk does not go to the children.\<close>

definition stop :: "'o tstate run \<Rightarrow> (bool \<times> 'o tstate) run" where
  "stop m = bindO m (\<lambda>st. Some (Inr (False, st)))"

subsection \<open>Keeping an invariant\<close>

context writer_invariant
begin

definition keeps_result :: "'o tstate \<Rightarrow> (bool \<times> 'o tstate) run \<Rightarrow> bool" where
  "keeps_result s r \<longleftrightarrow> (\<forall>c t. r = Some (Inr (c, t)) \<longrightarrow> holds_in t \<and> same_frame s t)"

lemma keeping_visitorI:
  "(\<And>f node path s. \<lbrakk>\<forall>x p u. holds_in u \<longrightarrow> keeps_run u (f x p u); holds_in s\<rbrakk> \<Longrightarrow> keeps_result s (visit v f node path s))
    \<Longrightarrow> keeping_visitor v"
  unfolding keeping_visitor_def keeps_result_def using run_go_on by blast

lemma run_stop: "keeps_run s m \<Longrightarrow> keeps_result s (stop m)"
  unfolding keeps_result_def keeps_run_def stop_def by (auto elim: bindO_InrE)

end

subsection \<open>Ending\<close>

lemma ends_value: "(\<And>x. m = Inr x \<Longrightarrow> ends (f x)) \<Longrightarrow> ends (bindO (Some m) f)"
  by (cases m) simp_all

lemma ends_state:
  "ends (catchup_state e s)" "ends (whiteout_state e s)" "ends (catchup_with f e s)" "ends (append_state t s)" "ends (move_state e s)"
  by (simp_all add: catchup_state_def whiteout_state_def catchup_with_def append_state_def move_state_def)

lemma ends_stop: "ends m \<Longrightarrow> ends (stop m)"
  by (simp add: stop_def bindO_ends)

end
