(* ===== verification/VisitTypes.thy ===== *)
theory VisitTypes
  imports VisitBase
begin

text \<open>
  The visitors of \<^verbatim>\<open>visitors/type-syntax\<close>, which remove type annotations by writing blanks for them.
  \<open>blanked\<close> is the invariant they keep; by the locale of the walk a whole transformation keeps it.
\<close>

subsection \<open>The visitors\<close>

definition isFunctionNode :: "jsvalue \<Rightarrow> bool res" where
  "isFunctionNode node = type_in node [''FunctionDeclaration'', ''FunctionExpression'', ''ArrowFunctionExpression'']"

definition blank_range :: "nat \<times> nat \<Rightarrow> 'o tstate \<Rightarrow> 'o tstate run" where
  "blank_range r st = bindO (catchup_state (fst r) st) (whiteout_state (snd r))"

text \<open>The body of the visitors that blank a whole node, and of those that blank an annotation.\<close>

definition blank_node :: "jsvalue \<Rightarrow> 'o tstate \<Rightarrow> 'o tstate run" where
  "blank_node node st = bindO (Some (range_of node)) (\<lambda>r. blank_range r st)"

definition blank_up_to :: "jsvalue \<Rightarrow> 'o tstate \<Rightarrow> 'o tstate run" where
  "blank_up_to node st = bindO (Some (range_of node)) (\<lambda>r. whiteout_state (snd r) st)"

definition blank_annotation :: "jsvalue \<Rightarrow> 'o tstate \<Rightarrow> 'o tstate run" where
  "blank_annotation node st =
     bindO (Some (get_prop node ''typeAnnotation'')) (\<lambda>annotation. blank_node annotation st)"

definition visitClassProperty :: "'o visitor" where
  "visitClassProperty =
     \<lparr>visit_test = (\<lambda>node path st. type_is node ''ClassProperty''),
      visit = (\<lambda>traverse node path st. stop (blank_node node st))\<rparr>"

definition visitTypeAlias :: "'o visitor" where
  "visitTypeAlias =
     \<lparr>visit_test = (\<lambda>node path st. type_is node ''TypeAlias''),
      visit = (\<lambda>traverse node path st. stop (blank_up_to node st))\<rparr>"

definition visitTypeCast :: "'o visitor" where
  "visitTypeCast =
     \<lparr>visit_test = (\<lambda>node path st. type_is node ''TypeCastExpression''),
      visit = (\<lambda>traverse node path st. stop (
        bindO (Some (get_prop node ''expression'')) (\<lambda>expression.
        bindO (traverse expression (node # path) st) (blank_annotation node))))\<rparr>"

definition visitInterfaceDeclaration :: "'o visitor" where
  "visitInterfaceDeclaration =
     \<lparr>visit_test = (\<lambda>node path st. type_is node ''InterfaceDeclaration''),
      visit = (\<lambda>traverse node path st. stop (blank_up_to node st))\<rparr>"

definition visitDeclare :: "'o visitor" where
  "visitDeclare =
     \<lparr>visit_test = (\<lambda>node path st.
        type_in node [''DeclareVariable'', ''DeclareFunction'', ''DeclareClass'', ''DeclareModule'']),
      visit = (\<lambda>traverse node path st. stop (blank_up_to node st))\<rparr>"

definition visitFunctionParametricAnnotation :: "'o visitor" where
  "visitFunctionParametricAnnotation =
     \<lparr>visit_test = (\<lambda>node path st.
        andR (type_is node ''TypeParameterDeclaration'')
       (andR (Inr (truthy_value (first_of path)))
       (andR (isFunctionNode (first_of path))
          (bindR (get_prop (first_of path) ''typeParameters'') (\<lambda>params. Inr (node = params)))))),
      visit = (\<lambda>traverse node path st. stop (blank_node node st))\<rparr>"

definition visitFunctionReturnAnnotation :: "'o visitor" where
  "visitFunctionReturnAnnotation =
     \<lparr>visit_test = (\<lambda>node path st.
        andR (Inr (truthy_value (first_of path)))
       (andR (isFunctionNode (first_of path))
          (bindR (get_prop (first_of path) ''returnType'') (\<lambda>returnType. Inr (node = returnType))))),
      visit = (\<lambda>traverse node path st. stop (blank_node node st))\<rparr>"

text \<open>\<^verbatim>\<open>node.name.length\<close>, where the name is a string.\<close>

definition name_length :: "jsvalue \<Rightarrow> nat res" where
  "name_length node =
     bindR (get_prop node ''name'') (\<lambda>name.
       case name of
         VStr s \<Rightarrow> Inr (length s)
       | _ \<Rightarrow> Inl (TypeError (js ''Cannot read property 'length' of undefined'')))"

definition visitOptionalFunctionParameterAnnotation :: "'o visitor" where
  "visitOptionalFunctionParameterAnnotation =
     \<lparr>visit_test = (\<lambda>node path st.
        andR (type_is node ''Identifier'')
       (andR (truthy_prop node ''optional'')
       (andR (Inr (truthy_value (first_of path)))
          (isFunctionNode (first_of path))))),
      visit = (\<lambda>traverse node path st. stop (
        bindO (Some (range_of node)) (\<lambda>r.
        bindO (Some (name_length node)) (\<lambda>n. blank_range (fst r + n, snd r) st))))\<rparr>"

definition visitTypeAnnotatedIdentifier :: "'o visitor" where
  "visitTypeAnnotatedIdentifier =
     \<lparr>visit_test = (\<lambda>node path st. andR (type_is node ''Identifier'') (truthy_prop node ''typeAnnotation'')),
      visit = (\<lambda>traverse node path st. stop (blank_annotation node st))\<rparr>"

definition visitTypeAnnotatedObjectOrArrayPattern :: "'o visitor" where
  "visitTypeAnnotatedObjectOrArrayPattern =
     \<lparr>visit_test = (\<lambda>node path st.
        andR (type_in node [''ObjectPattern'', ''ArrayPattern'']) (truthy_prop node ''typeAnnotation'')),
      visit = (\<lambda>traverse node path st. stop (blank_annotation node st))\<rparr>"

text \<open>\<^verbatim>\<open>x && traverse(x, path, state)\<close>.\<close>

definition if_present ::
    "(jsvalue \<Rightarrow> jsvalue list \<Rightarrow> 'o tstate \<Rightarrow> 'o tstate run) \<Rightarrow> jsvalue \<Rightarrow> jsvalue list \<Rightarrow> 'o tstate \<Rightarrow> 'o tstate run" where
  "if_present go_on x path st = (if truthy_value x then go_on x path st else Some (Inr st))"

definition visitMethod :: "'o visitor" where
  "visitMethod =
     \<lparr>visit_test = (\<lambda>node path st.
        bindR (type_is node ''Property'') (\<lambda>property.
        bindR (type_is node ''MethodDefinition'') (\<lambda>method_definition.
        bindR (truthy_prop node ''method'') (\<lambda>method.
        bindR (get_prop node ''kind'') (\<lambda>kind.
          Inr (property \<and> (method \<or> kind = VStr (js ''set'') \<or> kind = VStr (js ''get'')) \<or> method_definition)))))),
      visit = (\<lambda>traverse node path st. stop (
        bindO (Some (get_prop node ''key'')) (\<lambda>key.
        bindO (traverse key (node # path) st) (\<lambda>st.
        bindO (Some (get_prop node ''value'')) (\<lambda>value.
        bindO (Some (get_prop value ''params'')) (\<lambda>params.
        bindO (traverse params (value # node # path) st) (\<lambda>st.
        bindO (Some (get_prop value ''rest'')) (\<lambda>rest.
        bindO (if_present traverse rest (value # node # path) st) (\<lambda>st.
        bindO (Some (get_prop value ''returnType'')) (\<lambda>returnType.
        bindO (if_present traverse returnType (value # node # path) st) (\<lambda>st.
        bindO (Some (get_prop value ''body'')) (\<lambda>body.
          traverse body (value # node # path) st))))))))))))\<rparr>"

definition visitImportType :: "'o visitor" where
  "visitImportType =
     \<lparr>visit_test = (\<lambda>node path st. andR (type_is node ''ImportDeclaration'') (truthy_prop node ''isType'')),
      visit = (\<lambda>traverse node path st. stop (blank_up_to node st))\<rparr>"

definition typeSyntaxVisitors :: "'o visitor list" where
  "typeSyntaxVisitors =
     [visitClassProperty, visitDeclare, visitImportType, visitInterfaceDeclaration, visitFunctionParametricAnnotation,
      visitFunctionReturnAnnotation, visitMethod, visitOptionalFunctionParameterAnnotation, visitTypeAlias, visitTypeCast,
      visitTypeAnnotatedIdentifier, visitTypeAnnotatedObjectOrArrayPattern]"

subsection \<open>Blanks only\<close>

text \<open>A character of the output is the one of the source at its place, or a blank for it.\<close>

definition blank :: "code_unit \<Rightarrow> code_unit \<Rightarrow> bool" where
  "blank b s \<longleftrightarrow> b = s \<or> (b = 32 \<and> \<not> is_space s)"

text \<open>The invariant of copies, but for the buffer.\<close>

definition blanked :: "jsstring \<Rightarrow> int \<Rightarrow> writer \<Rightarrow> bool" where
  "blanked src by w \<longleftrightarrow> copies src by (w\<lparr>w_buffer := take (w_position w) src\<rparr>)
     \<and> list_all2 blank (w_buffer w) (take (w_position w) src)"

lemma add_position_buffer:
  "add_position a b c d (w\<lparr>w_buffer := x\<rparr>) = mapR (\<lambda>u. u\<lparr>w_buffer := x\<rparr>) (add_position a b c d w)"
  by (auto simp: add_position_def mapR_def bindR_def split: option.splits sum.splits)

lemma line_mappings_buffer:
  "line_mappings n (w\<lparr>w_buffer := x\<rparr>) = mapR (\<lambda>u. u\<lparr>w_buffer := x\<rparr>) (line_mappings n w)"
proof (induction n arbitrary: w)
  case (Suc n)
  show ?case
  proof (cases "add_position (w_bufferLine w) 0 (w_sourceLine w) 0 w")
    case (Inr v)
    let ?v = "v\<lparr>w_sourceLine := Suc (w_sourceLine v), w_bufferLine := Suc (w_bufferLine v)\<rparr>"
    have e: "v\<lparr>w_buffer := x, w_sourceLine := Suc (w_sourceLine v), w_bufferLine := Suc (w_bufferLine v)\<rparr> = ?v\<lparr>w_buffer := x\<rparr>"
      by simp
    show ?thesis using Inr Suc.IH [of ?v] by (simp add: add_position_buffer mapR_def e)
  qed (simp add: add_position_buffer mapR_def)
qed (simp add: mapR_def)

lemma map_piece_buffer:
  "map_piece s t (w\<lparr>w_buffer := x\<rparr>) = mapR (\<lambda>u. u\<lparr>w_buffer := x\<rparr>) (map_piece s t w)"
proof (cases "add_position (w_bufferLine w) (w_bufferColumn w) (w_sourceLine w) (w_sourceColumn w) w")
  case (Inr v)
  then show ?thesis
    by (cases "line_mappings (length (split_on 10 s) - 2) v")
      (simp_all add: map_piece_def add_position_buffer line_mappings_buffer mapR_def Let_def)
qed (simp add: map_piece_def add_position_buffer mapR_def)

lemma map_piece_keeps_buffer: "map_piece s t w = Inr u \<Longrightarrow> w_buffer u = w_buffer w"
proof -
  assume "map_piece s t w = Inr u"
  then have "u = u\<lparr>w_buffer := w_buffer w\<rparr>"
    using map_piece_buffer [where s = s and t = t and w = w and x = "w_buffer w"] by (simp add: mapR_def)
  from arg_cong [OF this, of w_buffer] show ?thesis by simp
qed

lemma catchup_blanked:
  assumes "blanked src by w" and "catchup by e f w = Inr w'"
    and "\<And>t. list_all2 blank (case f of None \<Rightarrow> t | Some f \<Rightarrow> f t) t"
  shows "blanked src by w'"
proof (cases "e < w_position w")
  case True
  then show ?thesis using assms by (simp add: catchup_def)
next
  case False
  let ?s = "substring (w_position w) e src"
  let ?v = "w\<lparr>w_buffer := take (w_position w) src\<rparr>"
  have c: "by = 0" "w_source w = src" "copies src by ?v" "list_all2 blank (w_buffer w) (take (w_position w) src)"
    using assms(1) by (auto simp: blanked_def copies_def)
  obtain u where u: "(if w_sourceMap w \<noteq> None \<and> ?s \<noteq> [] then map_piece ?s ?s w else Inr w) = Inr u"
    and w': "w' = u\<lparr>w_buffer := w_buffer u @ (case f of None \<Rightarrow> ?s | Some f \<Rightarrow> f ?s), w_position := e\<rparr>"
    using assms(2) False c by (auto simp: catchup_def Let_def elim!: bindR_InrE)
  have b: "w_buffer u = w_buffer w"
    using u map_piece_keeps_buffer by (auto split: if_splits)
  have "catchup by e None ?v = Inr (u\<lparr>w_buffer := take (w_position w) src @ ?s, w_position := e\<rparr>)"
    using u False c(1,2) map_piece_buffer [where s = ?s and t = ?s and w = w and x = "take (w_position w) src"]
    by (auto simp: catchup_def Let_def mapR_def split: if_splits sum.splits)
  then have "copies src by (u\<lparr>w_buffer := take (w_position w) src @ ?s, w_position := e\<rparr>)"
    using catchup_copies [OF c(3)] by blast
  moreover have t: "take e src = take (w_position w) src @ ?s" using False take_catchup [of "w_position w" e src] by simp
  ultimately have "copies src by (w'\<lparr>w_buffer := take (w_position w') src\<rparr>)" by (simp add: w' copies_def recorded_def)
  moreover have "list_all2 blank (w_buffer w') (take (w_position w') src)"
    using c(4) assms(3) [of ?s] by (simp add: w' b t list_all2_appendI)
  ultimately show ?thesis by (simp add: blanked_def)
qed

lemma blank_refl: "list_all2 blank t t"
  by (simp add: list.rel_refl blank_def)

lemma blank_replaced: "list_all2 blank (replaceNonWhite t) t"
  by (simp add: replaceNonWhite_def list.rel_map blank_def list_all2_same)

interpretation blanking: writer_invariant "blanked src" for src
  by unfold_locales (use catchup_blanked [where f = None] blank_refl in simp)


lemma run_whiteout: "blanking.holds_in src s \<Longrightarrow> blanking.keeps_run src s (whiteout_state e s)"
  using catchup_blanked [of src "indentBy s" "g s" e "Some replaceNonWhite"] blank_replaced
  by (auto simp: blanking.keeps_run_def blanking.holds_in_def blanking.same_frame_def whiteout_state_def catchupWhiteOut_def
      elim!: bindR_InrE)

lemmas blank_defs = blank_node_def blank_up_to_def blank_range_def blank_annotation_def if_present_def

lemma type_syntax_keeps: "v \<in> set typeSyntaxVisitors \<Longrightarrow> blanking.keeping_visitor src v"
  unfolding typeSyntaxVisitors_def visitClassProperty_def visitDeclare_def visitImportType_def visitInterfaceDeclaration_def
    visitFunctionParametricAnnotation_def visitFunctionReturnAnnotation_def visitMethod_def
    visitOptionalFunctionParameterAnnotation_def visitTypeAlias_def visitTypeCast_def visitTypeAnnotatedIdentifier_def
    visitTypeAnnotatedObjectOrArrayPattern_def
  by (rule blanking.keeping_visitorI)
    (auto simp: blank_defs intro!: run_whiteout blanking.run_stop blanking.run_done blanking.run_bind blanking.run_value blanking.run_catchup)

subsection \<open>The walk with the visitors ends\<close>

lemma method_ends: "ending_visitor visitMethod"
  unfolding ending_visitor_def
proof (intro allI impI)
  fix f :: "jsvalue \<Rightarrow> jsvalue list \<Rightarrow> 'a tstate \<Rightarrow> 'a tstate run" and node path and s :: "'a tstate"
  assume f: "\<forall>x p u. depth x < depth node \<longrightarrow> ends (f x p u)" and "visit_test visitMethod node path s = Inr True"
  then have d: "0 < depth node" by (cases node) (auto simp: visitMethod_def type_is_def get_prop_def truthy_prop_def)
  have "ends (f x p u)" if "get_prop node k = Inr x" for x p u k using f prop_below [OF that d] by blast
  moreover have "ends (f x p u)" if "get_prop node k = Inr v" "get_prop v l = Inr x" for x p u k l v
    using f prop_below2 [OF that(2) prop_below [OF that(1) d]] by blast
  ultimately show "ends (visit visitMethod f node path s)"
    by (auto simp: visitMethod_def if_present_def intro!: ends_value bindO_ends ends_stop)
qed

lemma cast_ends: "ending_visitor visitTypeCast"
  unfolding ending_visitor_def
proof (intro allI impI)
  fix f :: "jsvalue \<Rightarrow> jsvalue list \<Rightarrow> 'a tstate \<Rightarrow> 'a tstate run" and node path and s :: "'a tstate"
  assume f: "\<forall>x p u. depth x < depth node \<longrightarrow> ends (f x p u)" and "visit_test visitTypeCast node path s = Inr True"
  then have d: "0 < depth node" by (simp add: visitTypeCast_def typed_depth)
  have "ends (f x p u)" if "get_prop node k = Inr x" for x p u k using f prop_below [OF that d] by blast
  then show "ends (visit visitTypeCast f node path s)"
    by (auto simp: visitTypeCast_def blank_defs intro!: ends_value bindO_ends ends_stop ends_state)
qed

lemma type_syntax_ends: "v \<in> set typeSyntaxVisitors \<Longrightarrow> ending_visitor v"
proof -
  have "\<forall>v \<in> {visitClassProperty, visitDeclare, visitImportType, visitInterfaceDeclaration, visitFunctionParametricAnnotation,
      visitFunctionReturnAnnotation, visitOptionalFunctionParameterAnnotation, visitTypeAlias, visitTypeAnnotatedIdentifier,
      visitTypeAnnotatedObjectOrArrayPattern}. ending_visitor v"
    unfolding visitClassProperty_def visitDeclare_def visitImportType_def visitInterfaceDeclaration_def
      visitFunctionParametricAnnotation_def visitFunctionReturnAnnotation_def visitOptionalFunctionParameterAnnotation_def
      visitTypeAlias_def visitTypeAnnotatedIdentifier_def visitTypeAnnotatedObjectOrArrayPattern_def ending_visitor_def
    by (simp add: blank_defs ends_value bindO_ends ends_state ends_stop)
  then show "v \<in> set typeSyntaxVisitors \<Longrightarrow> ending_visitor v"
    using method_ends cast_ends by (auto simp: typeSyntaxVisitors_def)
qed

subsection \<open>Type annotations become blanks\<close>

text \<open>
  C14: removing type annotations keeps the layout: with the visitors for type syntax, on any tree,
  \<^verbatim>\<open>transform\<close> ends (the fuel is more than the depth of the tree), and when it does not throw the code
  has the length of the source, and each character is the one of the source or a blank in place of one
  that is no white space; and every mapping of the source map is from a position to the same position.
\<close>

theorem type_syntax_layout:
  assumes "depth ast < fuel"
  shows "\<exists>r. transform_ast fuel typeSyntaxVisitors source ast options = Some r
    \<and> (\<forall>a. r = Inr a \<longrightarrow> list_all2 blank (r_code a) source
        \<and> (\<forall>m. r_sourceMap a = Some m \<longrightarrow> (\<forall>x \<in> set (g_mappings m). same_position (says x))))"
proof -
  have start: "blanked source 0 ((g (createState source ast options))\<lparr>w_sourceMap := m\<rparr>)"
    if "\<forall>x. m = Some x \<longrightarrow> g_mappings x = []" for m
    using that by (auto simp: blanked_def copies_def createState_def recorded_def split: option.splits)
  obtain r where r: "transform_ast fuel typeSyntaxVisitors source ast options = Some r"
    "\<And>a. r = Inr a \<Longrightarrow> \<exists>w. blanked source 0 w \<and> length source \<le> w_position w \<and> r_code a = w_buffer w
      \<and> (\<forall>m. r_sourceMap a = Some m \<longrightarrow> w_sourceMap w = Some m)"
    using blanking.transform_keeps [OF _ _ assms start] type_syntax_keeps type_syntax_ends by blast
  have "list_all2 blank (r_code a) source
      \<and> (\<forall>m. r_sourceMap a = Some m \<longrightarrow> (\<forall>x \<in> set (g_mappings m). same_position (says x)))" if a: "r = Inr a" for a
  proof -
    obtain w where w: "blanked source 0 w" "length source \<le> w_position w" "r_code a = w_buffer w"
      "\<forall>m. r_sourceMap a = Some m \<longrightarrow> w_sourceMap w = Some m" using r(2) [OF a] by blast
    have "same_position (says x)" if "r_sourceMap a = Some m" "x \<in> set (g_mappings m)" for m x
    proof -
      have "says x \<in> set (recorded w)" using that w(4) by (simp add: recorded_def)
      moreover have "recorded (w\<lparr>w_buffer := b\<rparr>) = recorded w" for b by (simp add: recorded_def)
      ultimately show ?thesis using w(1) unfolding blanked_def copies_def by metis
    qed
    then show ?thesis using w(1-3) by (simp add: blanked_def)
  qed
  then show ?thesis using r(1) by blast
qed

theorem type_syntax_layout_witness:
  "\<exists>a. transform_ast 20 typeSyntaxVisitors (js ''a + b'') sample_tree sample_options = Some (Inr a)
     \<and> list_all2 blank (r_code a) (js ''a + b'')"
proof -
  have d: "depth sample_tree < 20" by code_simp
  have "case transform_ast 20 typeSyntaxVisitors (js ''a + b'') sample_tree sample_options of Some (Inr a) \<Rightarrow> True | _ \<Rightarrow> False"
    by code_simp
  then obtain a where "transform_ast 20 typeSyntaxVisitors (js ''a + b'') sample_tree sample_options = Some (Inr a)"
    by (auto split: option.splits sum.splits)
  then show ?thesis using type_syntax_layout [OF d, of "js ''a + b''" sample_options] by auto
qed

end
