(* ===== verification/VisitReserved.thy ===== *)
theory VisitReserved
  imports VisitBase
begin

text \<open>
  Reserved words (\<^verbatim>\<open>reserved-words-helper\<close>) and the visitors that quote them where ES3 does not allow
  them as names of properties (\<^verbatim>\<open>visitors/reserved-words\<close>).
\<close>

subsection \<open>Words\<close>

definition KEYWORDS :: "jsstring list" where
  "KEYWORDS = map js
     [''break'', ''do'', ''in'', ''typeof'', ''case'', ''else'', ''instanceof'', ''var'', ''catch'',
      ''export'', ''new'', ''void'', ''class'', ''extends'', ''return'', ''while'', ''const'',
      ''finally'', ''super'', ''with'', ''continue'', ''for'', ''switch'', ''yield'', ''debugger'',
      ''function'', ''this'', ''default'', ''if'', ''throw'', ''delete'', ''import'', ''try'']"

definition FUTURE_RESERVED_WORDS :: "jsstring list" where
  "FUTURE_RESERVED_WORDS = map js
     [''enum'', ''await'', ''implements'', ''package'', ''protected'', ''static'', ''interface'', ''private'', ''public'']"

definition LITERALS :: "jsstring list" where
  "LITERALS = map js [''null'', ''true'', ''false'']"

definition RESERVED_WORDS :: "jsstring list" where
  "RESERVED_WORDS = KEYWORDS @ FUTURE_RESERVED_WORDS @ LITERALS"

definition ES3_FUTURE_RESERVED_WORDS :: "jsstring list" where
  "ES3_FUTURE_RESERVED_WORDS = map js
     [''enum'', ''implements'', ''package'', ''protected'', ''static'', ''interface'', ''private'', ''public'']"

definition ES3_RESERVED_WORDS :: "jsstring list" where
  "ES3_RESERVED_WORDS = KEYWORDS @ ES3_FUTURE_RESERVED_WORDS @ LITERALS"

text \<open>The maps have no prototype, so the words of the list are their only keys.\<close>

definition isReservedWord :: "jsvalue \<Rightarrow> bool" where
  "isReservedWord word = (to_key word \<in> set RESERVED_WORDS)"

definition isES3ReservedWord :: "jsvalue \<Rightarrow> bool" where
  "isES3ReservedWord word = (to_key word \<in> set ES3_RESERVED_WORDS)"

lemma es3_words_reserved: "isES3ReservedWord w \<Longrightarrow> isReservedWord w"
  by (auto simp: isES3ReservedWord_def isReservedWord_def ES3_RESERVED_WORDS_def RESERVED_WORDS_def
      ES3_FUTURE_RESERVED_WORDS_def FUTURE_RESERVED_WORDS_def)

subsection \<open>Visitors\<close>

text \<open>\<^verbatim>\<open>return false\<close> comes after the steps; \<open>catchupWhiteSpace\<close> drops all but white space.\<close>

definition falsy_prop :: "jsvalue \<Rightarrow> string \<Rightarrow> bool res" where
  "falsy_prop v key = bindR (truthy_prop v key) (\<lambda>x. Inr (\<not> x))"

definition reserved_name :: "jsvalue \<Rightarrow> bool res" where
  "reserved_name ident = bindR (get_prop ident ''name'') (\<lambda>name. Inr (isES3ReservedWord name))"

definition visitProperty :: "'o visitor" where
  "visitProperty =
     \<lparr>visit_test = (\<lambda>node path st.
        andR (type_is node ''Property'')
          (bindR (get_prop node ''key'') (\<lambda>key.
             andR (type_is key ''Identifier'')
            (andR (falsy_prop node ''method'')
            (andR (falsy_prop node ''shorthand'')
            (andR (falsy_prop node ''computed'')
               (reserved_name key))))))),
      visit = (\<lambda>traverse node path st. stop (
        bindO (Some (bindR (get_prop node ''key'') range_of)) (\<lambda>key.
        bindO (catchup_state (fst key) st) (\<lambda>st.
        bindO (append_state [34] st) (\<lambda>st.
        bindO (catchup_state (snd key) st) (\<lambda>st.
        bindO (append_state [34] st) (\<lambda>st.
        bindO (Some (get_prop node ''value'')) (\<lambda>value.
        bindO (Some (range_of value)) (\<lambda>r.
        bindO (catchup_state (fst r) st) (traverse value path))))))))))\<rparr>"

definition visitMemberExpression :: "'o visitor" where
  "visitMemberExpression =
     \<lparr>visit_test = (\<lambda>node path st.
        andR (type_is node ''MemberExpression'')
          (bindR (get_prop node ''property'') (\<lambda>property.
             andR (type_is property ''Identifier'') (reserved_name property)))),
      visit = (\<lambda>traverse node path st. stop (
        bindO (Some (get_prop node ''object'')) (\<lambda>object.
        bindO (traverse object path st) (\<lambda>st.
        bindO (Some (bindR (get_prop node ''property'') range_of)) (\<lambda>property.
        bindO (catchup_state (fst property - 1) st) (\<lambda>st.
        bindO (append_state (js ''['') st) (\<lambda>st.
        bindO (catchup_with stripNonWhite (fst property) st) (\<lambda>st.
        bindO (append_state [34] st) (\<lambda>st.
        bindO (catchup_state (snd property) st)
          (append_state [34, 93]))))))))))\<rparr>"

definition reservedWordsVisitors :: "'o visitor list" where
  "reservedWordsVisitors = [visitProperty, visitMemberExpression]"

lemma property_ends: "ending_visitor visitProperty"
  unfolding ending_visitor_def
proof (intro allI impI)
  fix f :: "jsvalue \<Rightarrow> jsvalue list \<Rightarrow> 'a tstate \<Rightarrow> 'a tstate run" and node path and s :: "'a tstate"
  assume f: "\<forall>x p u. depth x < depth node \<longrightarrow> ends (f x p u)" and "visit_test visitProperty node path s = Inr True"
  then have d: "0 < depth node" by (cases node) (auto simp: visitProperty_def andR_def type_is_def get_prop_def)
  have "ends (f x p u)" if "get_prop node k = Inr x" for x p u k using f prop_below [OF that d] by blast
  then show "ends (visit visitProperty f node path s)"
    by (auto simp: visitProperty_def intro!: ends_value bindO_ends ends_stop ends_state)
qed

lemma member_ends: "ending_visitor visitMemberExpression"
  unfolding ending_visitor_def
proof (intro allI impI)
  fix f :: "jsvalue \<Rightarrow> jsvalue list \<Rightarrow> 'a tstate \<Rightarrow> 'a tstate run" and node path and s :: "'a tstate"
  assume f: "\<forall>x p u. depth x < depth node \<longrightarrow> ends (f x p u)" and "visit_test visitMemberExpression node path s = Inr True"
  then have d: "0 < depth node" by (cases node) (auto simp: visitMemberExpression_def andR_def type_is_def get_prop_def)
  have "ends (f x p u)" if "get_prop node k = Inr x" for x p u k using f prop_below [OF that d] by blast
  then show "ends (visit visitMemberExpression f node path s)"
    by (auto simp: visitMemberExpression_def intro!: ends_value bindO_ends ends_stop ends_state)
qed

end
