(* ===== verification/VisitJsx.thy ===== *)
theory VisitJsx
  imports VisitBase
begin

text \<open>
  The visitors that compile JSX: \<^verbatim>\<open>transforms/jsx\<close> (text, expression containers, names of attributes),
  \<^verbatim>\<open>transforms/react\<close> (elements become calls of \<^verbatim>\<open>React.createElement\<close>) and \<^verbatim>\<open>reactDisplayName\<close>. What
  is written for a text is read back with an evaluator for sums of string literals.
\<close>

subsection \<open>Text of elements\<close>

text \<open>\<^verbatim>\<open>value.split(/\r\n|\n|\r/)\<close>.\<close>

fun split_lines :: "jsstring \<Rightarrow> jsstring list" where
  "split_lines [] = [[]]"
| "split_lines (c # cs) =
     (if c = 13 \<and> take 1 cs = [10] then [] # split_lines (drop 1 cs)
      else if c = 10 \<or> c = 13 then [] # split_lines cs
      else (case split_lines cs of [] \<Rightarrow> [[c]] | l # ls \<Rightarrow> (c # l) # ls))"

definition is_blank :: "code_unit \<Rightarrow> bool" where
  "is_blank c \<longleftrightarrow> c = 32 \<or> c = 9"

definition hex_char :: "nat \<Rightarrow> code_unit" where
  "hex_char d = (if d < 10 then 48 + d else 87 + d)"

text \<open>\<^verbatim>\<open>JSON.stringify\<close> of a string (ECMAScript 5.1, 15.12.3, \<^verbatim>\<open>Quote\<close>).\<close>

definition json_char :: "code_unit \<Rightarrow> jsstring" where
  "json_char c =
     (if c = 34 \<or> c = 92 then [92, c]
      else if c = 8 then [92, 98] else if c = 12 then [92, 102] else if c = 10 then [92, 110]
      else if c = 13 then [92, 114] else if c = 9 then [92, 116]
      else if c < 32 then [92, 117, 48, 48, hex_char (c div 16), hex_char (c mod 16)]
      else [c])"

definition json_quote :: "jsstring \<Rightarrow> jsstring" where
  "json_quote s = [34] @ concat (map json_char s) @ [34]"

definition trim_left :: "(code_unit \<Rightarrow> bool) \<Rightarrow> jsstring \<Rightarrow> jsstring" where
  "trim_left p s = dropWhile p s"

definition trim_right :: "(code_unit \<Rightarrow> bool) \<Rightarrow> jsstring \<Rightarrow> jsstring" where
  "trim_right p s = rev (dropWhile p (rev s))"

definition trimmed_line :: "nat \<Rightarrow> nat \<Rightarrow> jsstring \<Rightarrow> jsstring" where
  "trimmed_line n i line =
     (let trimmedLine = map (\<lambda>c. if c = 9 then 32 else c) line;
          trimmedLine = (if i \<noteq> 0 then trim_left (\<lambda>c. c = 32) trimmedLine else trimmedLine)
      in if Suc i \<noteq> n then trim_right (\<lambda>c. c = 32) trimmedLine else trimmedLine)"

text \<open>The index of the last line with a character that is no blank, or 0.\<close>

definition last_non_empty :: "jsstring list \<Rightarrow> nat" where
  "last_non_empty lines =
     fold (\<lambda>(i, line) n. if list_ex (\<lambda>c. \<not> is_blank c) line then i else n) (enumerate 0 lines) 0"

text \<open>What the second loop appends for one line, call by call.\<close>

definition line_pieces :: "nat \<Rightarrow> nat \<Rightarrow> bool \<Rightarrow> jsstring option \<Rightarrow> nat \<Rightarrow> jsstring \<Rightarrow> jsstring list" where
  "line_pieces n lastNonEmptyLine isLast end i line =
     (let isFirstLine = (i = 0); isLastLine = (Suc i = n); isLastNonEmptyLine = (i = lastNonEmptyLine);
          trimmedLine = trimmed_line n i line
      in (if \<not> isFirstLine then [takeWhile is_blank line] else [])
       @ (if trimmedLine \<noteq> [] \<or> isLastNonEmptyLine then
            [json_quote trimmedLine @ (if \<not> isLastNonEmptyLine then [32, 43, 32, 39, 32, 39, 32, 43] else [])]
            @ (if isLastNonEmptyLine then
                 (if truthy end then [the end] else []) @ (if \<not> isLast then [js '', ''] else [])
               else [])
            @ (if trimmedLine \<noteq> [] \<and> \<not> isLastLine then [rev (takeWhile is_blank (rev line))] else [])
          else [])
       @ (if \<not> isLastLine then [[10]] else []))"

definition literal_pieces :: "jsstring \<Rightarrow> bool \<Rightarrow> jsstring option \<Rightarrow> jsstring option \<Rightarrow> jsstring list" where
  "literal_pieces value isLast start end =
     (let lines = split_lines value
      in (if truthy start then [the start] else [])
       @ concat (map (\<lambda>(i, line). line_pieces (length lines) (last_non_empty lines) isLast end i line) (enumerate 0 lines)))"

definition renderJSXLiteral ::
    "jsvalue \<Rightarrow> bool \<Rightarrow> jsstring option \<Rightarrow> jsstring option \<Rightarrow> 'o tstate \<Rightarrow> 'o tstate run" where
  "renderJSXLiteral object isLast start end st =
     bindO (Some (get_prop object ''value'')) (\<lambda>value.
       case value of
         VStr s \<Rightarrow>
           bindO (each append_state (literal_pieces s isLast start end) st) (\<lambda>st.
           bindO (Some (range_of object)) (\<lambda>r. move_state (snd r) st))
       | _ \<Rightarrow> Some (Inl (TypeError (js ''object.value.split is not a function''))))"

subsection \<open>Expressions and names\<close>

text \<open>\<^verbatim>\<open>trimLeft\<close> of the module: \<^verbatim>\<open>value.replace(/^[ ]+/, '')\<close>.\<close>

definition trimLeft :: "jsstring \<Rightarrow> jsstring" where
  "trimLeft value = dropWhile (\<lambda>c. c = 32) value"

definition renderJSXExpressionContainer ::
    "(jsvalue \<Rightarrow> jsvalue list \<Rightarrow> 'o tstate \<Rightarrow> 'o tstate run) \<Rightarrow> jsvalue \<Rightarrow> bool \<Rightarrow> jsvalue list \<Rightarrow> 'o tstate \<Rightarrow> 'o tstate run" where
  "renderJSXExpressionContainer go_on object isLast path st =
     bindO (Some (range_of object)) (\<lambda>r.
     bindO (move_state (fst r + 1) st) (\<lambda>st.
     bindO (Some (get_prop object ''expression'')) (\<lambda>expression.
     bindO (Some (range_of expression)) (\<lambda>er.
     bindO (catchup_state (fst er) st) (\<lambda>st.
     bindO (go_on expression path st) (\<lambda>st.
     bindO (Some (type_is expression ''JSXEmptyExpression'')) (\<lambda>empty.
     bindO (if \<not> isLast \<and> \<not> empty then bindO (catchup_with trimLeft (snd er) st) (append_state (js '', '')) else Some (Inr st)) (\<lambda>st.
     bindO (catchup_with trimLeft (snd r - 1) st) (\<lambda>st.
       move_state (snd r) st)))))))))"

definition is_letter :: "code_unit \<Rightarrow> bool" where
  "is_letter c \<longleftrightarrow> (97 \<le> c \<and> c \<le> 122) \<or> (65 \<le> c \<and> c \<le> 90)"

text \<open>
  \<^verbatim>\<open>/^[a-z_$][a-z\d_$]*$/i.test(attr)\<close>, where \<^verbatim>\<open>attr\<close> is converted to a string.
\<close>

definition quoteAttrName :: "jsvalue \<Rightarrow> jsstring" where
  "quoteAttrName attr =
     (let s = to_key attr;
          valid = (s \<noteq> [] \<and> (is_letter (hd s) \<or> hd s = 95 \<or> hd s = 36)
            \<and> list_all (\<lambda>c. is_letter c \<or> is_digit c \<or> c = 95 \<or> c = 36) (tl s))
      in if \<not> valid then [34] @ s @ [34] else s)"

definition stripNonWhiteParen :: "jsstring \<Rightarrow> jsstring" where
  "stripNonWhiteParen value = filter (\<lambda>c. is_space c \<or> c = 40 \<or> c = 41) value"

text \<open>\<^verbatim>\<open>/^[a-z]|\-/.test(name)\<close>.\<close>

definition isTagName :: "jsvalue \<Rightarrow> bool" where
  "isTagName name =
     (let s = to_key name in (s \<noteq> [] \<and> 97 \<le> hd s \<and> hd s \<le> 122) \<or> 45 \<in> set s)"

subsection \<open>Elements\<close>

definition appends :: "jsstring list \<Rightarrow> 'o tstate \<Rightarrow> 'o tstate run" where
  "appends strs st = each append_state strs st"

definition if_do :: "bool \<Rightarrow> ('o tstate \<Rightarrow> 'o tstate run) \<Rightarrow> 'o tstate \<Rightarrow> 'o tstate run" where
  "if_do b f st = (if b then f st else Some (Inr st))"

text \<open>The name of the element: a string for a tag, otherwise the text of the source.\<close>

definition render_name :: "jsvalue \<Rightarrow> 'o tstate \<Rightarrow> 'o tstate run" where
  "render_name nameObject st =
     bindO (Some (type_is nameObject ''JSXIdentifier'')) (\<lambda>ident.
     bindO (Some (get_prop nameObject ''name'')) (\<lambda>name.
     bindO (Some (range_of nameObject)) (\<lambda>r.
       if ident \<and> isTagName name then
         bindO (append_state ([34] @ to_key name @ [34]) st) (move_state (snd r))
       else bindO (move_state (fst r) st) (catchup_state (snd r)))))"

definition render_spread ::
    "(jsvalue \<Rightarrow> jsvalue list \<Rightarrow> 'o tstate \<Rightarrow> 'o tstate run) \<Rightarrow> jsvalue list \<Rightarrow> jsvalue \<Rightarrow> bool \<Rightarrow> bool \<Rightarrow> 'o tstate \<Rightarrow> 'o tstate run" where
  "render_spread go_on path attr isLast previousWasSpread st =
     bindO (if_do (\<not> previousWasSpread) (append_state (js ''}, '')) st) (\<lambda>st.
     bindO (Some (range_of attr)) (\<lambda>r.
     bindO (catchup_with stripNonWhiteParen (fst r) st) (\<lambda>st.
     bindO (move_state (fst r + 1) st) (\<lambda>st.
     bindO (Some (get_prop attr ''argument'')) (\<lambda>argument.
     bindO (Some (range_of argument)) (\<lambda>ar.
     bindO (catchup_with stripNonWhiteParen (fst ar) st) (\<lambda>st.
     bindO (go_on argument path st) (\<lambda>st.
     bindO (catchup_state (snd ar) st) (\<lambda>st.
     bindO (catchup_with stripNonWhiteParen (snd r - 1) st) (\<lambda>st.
     bindO (if_do (\<not> isLast) (append_state (js '', '')) st) (\<lambda>st.
       move_state (snd r) st)))))))))))"

text \<open>\<^verbatim>\<open>state.g.buffer += 'true'; state.g.position = end\<close>.\<close>

definition write_true :: "nat \<Rightarrow> 'o tstate \<Rightarrow> 'o tstate" where
  "write_true end st = st\<lparr>g := (g st)\<lparr>w_buffer := w_buffer (g st) @ js ''true'', w_position := end\<rparr>\<rparr>"

definition render_attribute ::
    "(jsvalue \<Rightarrow> jsvalue list \<Rightarrow> 'o tstate \<Rightarrow> 'o tstate run) \<Rightarrow> jsvalue list \<Rightarrow> jsvalue \<Rightarrow> bool \<Rightarrow> bool \<Rightarrow> 'o tstate \<Rightarrow> 'o tstate run" where
  "render_attribute go_on path attr isLast previousWasSpread st =
     bindO (Some (get_prop attr ''name'')) (\<lambda>attr_name.
     bindO (Some (truthy_prop attr_name ''namespace'')) (\<lambda>namespace.
       if namespace then Some (Inl (Error (js ''Namespace attributes are not supported. ReactJSX is not XML.'')))
       else
         bindO (Some (get_prop attr_name ''name'')) (\<lambda>name.
         bindO (Some (range_of attr)) (\<lambda>r.
         bindO (catchup_with trimLeft (fst r) st) (\<lambda>st.
         bindO (if_do previousWasSpread (append_state (js ''{'')) st) (\<lambda>st.
         bindO (append_state (quoteAttrName name) st) (\<lambda>st.
         bindO (append_state (js '': '') st) (\<lambda>st.
         bindO (Some (get_prop attr ''value'')) (\<lambda>value.
         bindO (Some (range_of attr_name)) (\<lambda>nr.
         bindO (if \<not> truthy_value value then
                  if_do (\<not> isLast) (append_state (js '', '')) (write_true (snd nr) st)
                else
                  bindO (move_state (snd nr) st) (\<lambda>st.
                  bindO (Some (range_of value)) (\<lambda>vr.
                  bindO (catchup_with stripNonNewline (fst vr) st) (\<lambda>st.
                  bindO (Some (type_is value ''Literal'')) (\<lambda>literal.
                    if literal then renderJSXLiteral value isLast None None st
                    else renderJSXExpressionContainer go_on value isLast path st))))) (\<lambda>st.
           catchup_with trimLeft (snd r) st)))))))))))"

text \<open>The loop over the attributes; the flag is \<^verbatim>\<open>previousWasSpread\<close>.\<close>

fun render_attributes ::
    "(jsvalue \<Rightarrow> jsvalue list \<Rightarrow> 'o tstate \<Rightarrow> 'o tstate run) \<Rightarrow> jsvalue list \<Rightarrow> jsvalue list \<Rightarrow> bool \<Rightarrow> 'o tstate
      \<Rightarrow> (bool \<times> 'o tstate) run" where
  "render_attributes go_on path [] previousWasSpread st = Some (Inr (previousWasSpread, st))"
| "render_attributes go_on path (attr # attrs) previousWasSpread st =
     bindO (Some (type_is attr ''JSXSpreadAttribute'')) (\<lambda>spread.
       if spread then
         bindO (render_spread go_on path attr (attrs = []) previousWasSpread st) (\<lambda>st.
           render_attributes go_on path attrs True st)
       else
         bindO (case attrs of [] \<Rightarrow> Some (Inr True) | next # _ \<Rightarrow> Some (type_is next ''JSXSpreadAttribute'')) (\<lambda>isLast.
         bindO (render_attribute go_on path attr isLast previousWasSpread st) (\<lambda>st.
           render_attributes go_on path attrs False st)))"

text \<open>\<^verbatim>\<open>value.match(/^[ \t]*[\r\n][ \t\r\n]*$/)\<close>: white space with a line break.\<close>

definition blank_lines :: "jsstring \<Rightarrow> bool" where
  "blank_lines s \<longleftrightarrow> list_all (\<lambda>c. is_blank c \<or> c = 10 \<or> c = 13) s \<and> list_ex (\<lambda>c. c = 10 \<or> c = 13) s"

definition renderable :: "jsvalue \<Rightarrow> bool res" where
  "renderable child =
     bindR (type_is child ''Literal'') (\<lambda>literal.
     bindR (get_prop child ''value'') (\<lambda>value.
       Inr (\<not> (literal \<and> (case value of VStr s \<Rightarrow> blank_lines s | _ \<Rightarrow> False)))))"

text \<open>Whether a child is an expression container without an expression.\<close>

definition empty_container :: "jsvalue \<Rightarrow> bool res" where
  "empty_container child =
     bindR (type_is child ''JSXExpressionContainer'') (\<lambda>container.
       if container then bindR (get_prop child ''expression'') (\<lambda>e. type_is e ''JSXEmptyExpression'') else Inr False)"

primrec filterR :: "('a \<Rightarrow> bool res) \<Rightarrow> 'a list \<Rightarrow> 'a list res" where
  "filterR p [] = Inr []"
| "filterR p (x # xs) = bindR (p x) (\<lambda>b. bindR (filterR p xs) (\<lambda>ys. Inr (if b then x # ys else ys)))"

text \<open>The greatest index of an element without the property.\<close>

fun last_index :: "('a \<Rightarrow> bool res) \<Rightarrow> 'a list \<Rightarrow> nat \<Rightarrow> nat option \<Rightarrow> nat option res" where
  "last_index p [] i r = Inr r"
| "last_index p (x # xs) i r = bindR (p x) (\<lambda>b. last_index p xs (Suc i) (if b then r else Some i))"

definition render_child ::
    "(jsvalue \<Rightarrow> jsvalue list \<Rightarrow> 'o tstate \<Rightarrow> 'o tstate run) \<Rightarrow> jsvalue list \<Rightarrow> bool \<Rightarrow> jsvalue \<Rightarrow> 'o tstate \<Rightarrow> 'o tstate run" where
  "render_child go_on path isLast child st =
     bindO (Some (range_of child)) (\<lambda>r.
     bindO (catchup_with trimLeft (fst r) st) (\<lambda>st.
     bindO (Some (type_is child ''Literal'')) (\<lambda>literal.
     bindO (Some (type_is child ''JSXExpressionContainer'')) (\<lambda>container.
     bindO (if literal then renderJSXLiteral child isLast None None st
            else if container then renderJSXExpressionContainer go_on child isLast path st
            else bindO (go_on child path st) (if_do (\<not> isLast) (append_state (js '', '')))) (\<lambda>st.
       catchup_with trimLeft (snd r) st)))))"

text \<open>\<^verbatim>\<open>index >= lastRenderableIndex\<close> is false for every index when the latter is undefined.\<close>

primrec render_children ::
    "(jsvalue \<Rightarrow> jsvalue list \<Rightarrow> 'o tstate \<Rightarrow> 'o tstate run) \<Rightarrow> jsvalue list \<Rightarrow> nat option \<Rightarrow> (nat \<times> jsvalue) list \<Rightarrow> 'o tstate \<Rightarrow> 'o tstate run" where
  "render_children go_on path lastRenderableIndex [] st = Some (Inr st)"
| "render_children go_on path lastRenderableIndex (c # cs) st =
     bindO (render_child go_on path (case lastRenderableIndex of None \<Rightarrow> False | Some k \<Rightarrow> k \<le> fst c) (snd c) st)
       (render_children go_on path lastRenderableIndex cs)"

definition render_opening ::
    "(jsvalue \<Rightarrow> jsvalue list \<Rightarrow> 'o tstate \<Rightarrow> 'o tstate run) \<Rightarrow> jsvalue list \<Rightarrow> jsvalue \<Rightarrow> 'o tstate \<Rightarrow> 'o tstate run" where
  "render_opening go_on path openingElement st =
     bindO (Some (get_prop openingElement ''name'')) (\<lambda>nameObject.
     bindO (Some (bindR (get_prop openingElement ''attributes'') elements)) (\<lambda>attributesObject.
     bindO (Some (range_of openingElement)) (\<lambda>r.
     bindO (catchup_with trimLeft (fst r) st) (\<lambda>st.
     bindO (Some (andR (type_is nameObject ''JSXNamespacedName'') (truthy_prop nameObject ''namespace''))) (\<lambda>namespaced.
       if namespaced then Some (Inl (Error (js ''Namespace tags are not supported. ReactJSX is not XML.'')))
       else
         bindO (append_state (js ''React.createElement('') st) (\<lambda>st.
         bindO (render_name nameObject st) (\<lambda>st.
         bindO (append_state (js '', '') st) (\<lambda>st.
         bindO (Some (bindR (filterR (\<lambda>attr. type_is attr ''JSXSpreadAttribute'') attributesObject) (\<lambda>s. Inr (s \<noteq> [])))) (\<lambda>hasAtLeastOneSpreadProperty.
         bindO (append_state (if hasAtLeastOneSpreadProperty then js ''React.__spread({''
                              else if attributesObject \<noteq> [] then js ''{'' else js ''null'') st) (\<lambda>st.
         bindO (render_attributes go_on path attributesObject False st) (\<lambda>(previousWasSpread, st).
         bindO (Some (truthy_prop openingElement ''selfClosing'')) (\<lambda>selfClosing.
         bindO (if_do (\<not> selfClosing) (\<lambda>st. bindO (catchup_with trimLeft (snd r - 1) st) (move_state (snd r))) st) (\<lambda>st.
         bindO (if_do (attributesObject \<noteq> [] \<and> \<not> previousWasSpread) (append_state (js ''}'')) st)
           (if_do hasAtLeastOneSpreadProperty (append_state (js '')''))))))))))))))))"

definition visitReactTag_body ::
    "(jsvalue \<Rightarrow> jsvalue list \<Rightarrow> 'o tstate \<Rightarrow> 'o tstate run) \<Rightarrow> jsvalue \<Rightarrow> jsvalue list \<Rightarrow> 'o tstate \<Rightarrow> 'o tstate run" where
  "visitReactTag_body go_on object path st =
     bindO (Some (get_prop object ''openingElement'')) (\<lambda>openingElement.
     bindO (render_opening go_on path openingElement st) (\<lambda>st.
     bindO (Some (bindR (get_prop object ''children'') elements)) (\<lambda>children.
     bindO (Some (filterR renderable children)) (\<lambda>childrenToRender.
     bindO (Some (last_index empty_container childrenToRender 0 None)) (\<lambda>lastRenderableIndex.
     bindO (if_do (lastRenderableIndex \<noteq> None) (append_state (js '', '')) st) (\<lambda>st.
     bindO (render_children go_on path lastRenderableIndex (enumerate 0 childrenToRender) st) (\<lambda>st.
     bindO (Some (truthy_prop openingElement ''selfClosing'')) (\<lambda>selfClosing.
     bindO (if selfClosing then
              bindO (Some (range_of openingElement)) (\<lambda>r.
              bindO (catchup_with trimLeft (snd r - 2) st) (move_state (snd r)))
            else
              bindO (Some (bindR (get_prop object ''closingElement'') range_of)) (\<lambda>r.
              bindO (catchup_with trimLeft (fst r) st) (move_state (snd r)))) (\<lambda>st.
       append_state (js '')'') st)))))))))"

definition visitReactTag :: "'o visitor" where
  "visitReactTag =
     \<lparr>visit_test = (\<lambda>object path st. type_is object ''JSXElement''),
      visit = (\<lambda>go_on object path st. stop (visitReactTag_body go_on object path st))\<rparr>"

subsection \<open>Display names\<close>

definition name_is :: "jsvalue \<Rightarrow> string \<Rightarrow> bool res" where
  "name_is ident name = bindR (get_prop ident ''name'') (\<lambda>n. Inr (n = VStr (js name)))"

text \<open>Whether a value is a call \<^verbatim>\<open>React.createClass({...})\<close>.\<close>

definition is_createClass :: "jsvalue \<Rightarrow> bool res" where
  "is_createClass object =
     andR (Inr (truthy_value object))
    (andR (type_is object ''CallExpression'')
       (bindR (get_prop object ''callee'') (\<lambda>callee.
          andR (type_is callee ''MemberExpression'')
            (bindR (get_prop callee ''object'') (\<lambda>callee_object.
               andR (type_is callee_object ''Identifier'')
              (andR (name_is callee_object ''React'')
                 (bindR (get_prop callee ''property'') (\<lambda>property.
                    andR (type_is property ''Identifier'')
                   (andR (name_is property ''createClass'')
                      (bindR (bindR (get_prop object ''arguments'') elements) (\<lambda>args.
                         if length args = 1 then type_is (hd args) ''ObjectExpression'' else Inr False)))))))))))"

primrec everyR :: "('a \<Rightarrow> bool res) \<Rightarrow> 'a list \<Rightarrow> bool res" where
  "everyR p [] = Inr True"
| "everyR p (x # xs) = andR (p x) (everyR p xs)"

text \<open>The callback of \<^verbatim>\<open>properties.every\<close>; a property without a key (a spread) makes it throw.\<close>

definition not_displayName :: "jsvalue \<Rightarrow> bool res" where
  "not_displayName property =
     bindR (get_prop property ''key'') (\<lambda>key.
     bindR (type_is key ''Identifier'') (\<lambda>ident.
     bindR (get_prop key (if ident then ''name'' else ''value'')) (\<lambda>value. Inr (value \<noteq> VStr (js ''displayName'')))))"

definition addDisplayName :: "jsvalue \<Rightarrow> jsvalue \<Rightarrow> 'o tstate \<Rightarrow> 'o tstate run" where
  "addDisplayName displayName object st =
     bindO (Some (is_createClass object)) (\<lambda>matches.
       if \<not> matches then Some (Inr st)
       else
         bindO (Some (bindR (get_prop object ''arguments'') elements)) (\<lambda>args.
         bindO (Some (bindR (get_prop (hd args) ''properties'') elements)) (\<lambda>properties.
         bindO (Some (everyR not_displayName properties)) (\<lambda>safe.
           if safe then
             bindO (Some (range_of (hd args))) (\<lambda>r.
             bindO (catchup_state (fst r + 1) st)
               (append_state (js ''displayName: '' @ [34] @ to_key displayName @ [34, 44])))
           else Some (Inr st)))))"

definition display_sides :: "jsvalue \<Rightarrow> (jsvalue \<times> jsvalue) res" where
  "display_sides object =
     bindR (get_prop object ''type'') (\<lambda>ty.
       let sides = (\<lambda>l r. bindR (get_prop object l) (\<lambda>left. bindR (get_prop object r) (\<lambda>right. Inr (left, right))))
       in if ty = VStr (js ''AssignmentExpression'') then sides ''left'' ''right''
          else if ty = VStr (js ''Property'') then sides ''key'' ''value''
          else if ty = VStr (js ''VariableDeclarator'') then sides ''id'' ''init''
          else Inr (VUndef, VUndef))"

definition visitReactDisplayName :: "'o visitor" where
  "visitReactDisplayName =
     \<lparr>visit_test = (\<lambda>object path st. type_in object [''AssignmentExpression'', ''Property'', ''VariableDeclarator'']),
      visit = (\<lambda>traverse object path st.
        bindO (Some (display_sides object)) (\<lambda>(left, right).
        bindO (Some (andR (Inr (truthy_value left)) (type_is left ''MemberExpression''))) (\<lambda>member.
        bindO (Some (if member then get_prop left ''property'' else Inr left)) (\<lambda>left.
        bindO (Some (andR (Inr (truthy_value left)) (type_is left ''Identifier''))) (\<lambda>ident.
        bindO (if ident then bindO (Some (get_prop left ''name'')) (\<lambda>name. addDisplayName name right st) else Some (Inr st)) (\<lambda>st.
          Some (Inr (True, st))))))))\<rparr>"

definition reactVisitors :: "'o visitor list" where
  "reactVisitors = [visitReactTag, visitReactDisplayName]"

subsection \<open>What a sum of string literals denotes\<close>

definition hex_digit :: "code_unit \<Rightarrow> nat" where
  "hex_digit d = (if d \<le> 57 then d - 48 else if d \<le> 70 then d - 55 else d - 87)"

definition unescaped :: "code_unit \<Rightarrow> code_unit" where
  "unescaped e = (if e = 98 then 8 else if e = 102 then 12 else if e = 110 then 10 else if e = 114 then 13
     else if e = 116 then 9 else if e = 118 then 11 else e)"

text \<open>The rest of a string literal behind its quote: the value, and what follows it.\<close>

fun string_body :: "code_unit \<Rightarrow> jsstring \<Rightarrow> (jsstring \<times> jsstring) option" where
  "string_body q [] = None"
| "string_body q (c # r) =
     (if c = q then Some ([], r)
      else if c = 92 then
        (case r of
           [] \<Rightarrow> None
         | e # r \<Rightarrow>
             if e = 117 then
               (case r of
                  a # b # c # d # r \<Rightarrow>
                    map_option (\<lambda>(s, rest). ((((hex_digit a * 16 + hex_digit b) * 16 + hex_digit c) * 16 + hex_digit d) # s, rest))
                      (string_body q r)
                | _ \<Rightarrow> None)
             else map_option (\<lambda>(s, rest). (unescaped e # s, rest)) (string_body q r))
      else if is_line_terminator c then None
      else map_option (\<lambda>(s, rest). (c # s, rest)) (string_body q r))"

lemma string_body_shorter: "string_body q r = Some (s, rest) \<Longrightarrow> length rest < length r"
  by (induction q r arbitrary: s rule: string_body.induct) (fastforce split: if_splits list.splits)+

lemma dropWhile_shorter: "dropWhile p t = q # r \<Longrightarrow> length r < length t"
  using length_dropWhile_le [of p t] by simp

text \<open>String literals joined by \<^verbatim>\<open>+\<close>, with white space around them.\<close>

function sum_value :: "jsstring \<Rightarrow> jsstring option" where
  "sum_value t =
     (case dropWhile is_space t of
        [] \<Rightarrow> None
      | q # r \<Rightarrow>
          if q = 34 \<or> q = 39 then
            (case string_body q r of
               None \<Rightarrow> None
             | Some (s, rest) \<Rightarrow>
                 (case dropWhile is_space rest of
                    [] \<Rightarrow> Some s
                  | d # r \<Rightarrow> if d = 43 then map_option ((@) s) (sum_value r) else None))
          else None)"
  by pat_completeness auto
termination
  by (relation "measure length") (auto dest!: string_body_shorter dropWhile_shorter)

declare sum_value.simps [simp del]

text \<open>Text without the two line terminators that a string literal must not have and that are not escaped.\<close>

definition quotable :: "jsstring \<Rightarrow> bool" where
  "quotable s \<longleftrightarrow> (\<forall>c \<in> set s. c \<noteq> 0x2028 \<and> c \<noteq> 0x2029)"

lemma control_digits:
  "c < 32 \<Longrightarrow> ((hex_digit 48 * 16 + hex_digit 48) * 16 + hex_digit (hex_char (c div 16))) * 16 + hex_digit (hex_char (c mod 16)) = c"
proof -
  have "\<forall>c \<in> set [0..<32]. ((hex_digit 48 * 16 + hex_digit 48) * 16 + hex_digit (hex_char (c div 16))) * 16
      + hex_digit (hex_char (c mod 16)) = c" by code_simp
  then show "c < 32 \<Longrightarrow> ?thesis" by simp
qed

lemma body_quote: "quotable s \<Longrightarrow> string_body 34 (concat (map json_char s) @ 34 # r) = Some (s, r)"
proof (induction s)
  case (Cons c s)
  then have s: "string_body 34 (concat (map json_char s) @ 34 # r) = Some (s, r)" and c: "c \<noteq> 0x2028" "c \<noteq> 0x2029"
    by (simp_all add: quotable_def)
  consider "c \<in> {34, 92, 8, 12, 10, 13, 9}" | "c < 32" "c \<notin> {34, 92, 8, 12, 10, 13, 9}" | "c \<ge> 32" "c \<noteq> 34" "c \<noteq> 92" by force
  then show ?case
  proof cases
    case 1
    then show ?thesis using s by (auto simp: json_char_def [of c] unescaped_def is_line_terminator_def)
  next
    case 2
    then show ?thesis using s control_digits [of c] by (simp add: json_char_def [of c] is_line_terminator_def)
  next
    case 3
    then show ?thesis using s c by (simp add: json_char_def [of c] is_line_terminator_def)
  qed
qed simp

lemma sum_skip: "list_all is_space b \<Longrightarrow> sum_value (b @ t) = sum_value t"
  by (subst (1 2) sum_value.simps) (simp add: list_all_iff dropWhile_append3 dropWhile_append2)

lemma sum_literal: "quotable s \<Longrightarrow> sum_value (json_quote s) = Some s"
  by (subst sum_value.simps) (simp add: json_quote_def is_space_def is_line_terminator_def body_quote)

lemma sum_plus:
  "quotable s \<Longrightarrow> sum_value (json_quote s @ [32, 43, 32, 39, 32, 39, 32, 43] @ t) = map_option (\<lambda>v. s @ 32 # v) (sum_value t)"
proof -
  assume s: "quotable s"
  have "sum_value (39 # 32 # 39 # 32 # 43 # t) = map_option ((@) [32]) (sum_value t)"
    by (subst sum_value.simps) (simp add: is_space_def is_line_terminator_def)
  then have "sum_value (32 # 39 # 32 # 39 # 32 # 43 # t) = map_option ((@) [32]) (sum_value t)"
    using sum_skip [of "[32]" "39 # 32 # 39 # 32 # 43 # t"] by (simp add: is_space_def)
  then show ?thesis using s
    by (subst sum_value.simps) (simp add: json_quote_def is_space_def is_line_terminator_def body_quote option.map_comp comp_def)
qed


subsection \<open>Rendered lines\<close>

text \<open>What JSX text means: its lines, trimmed where they touch a line break, joined by blanks, without empty ones.\<close>

definition trimmed_lines :: "jsstring list \<Rightarrow> jsstring list" where
  "trimmed_lines lines = map (\<lambda>(i, line). trimmed_line (length lines) i line) (enumerate 0 lines)"

definition jsx_text :: "jsstring \<Rightarrow> jsstring" where
  "jsx_text value = join_with [32] (filter (\<lambda>l. l \<noteq> []) (trimmed_lines (split_lines value)))"

text \<open>The text of the lines from the \<open>k\<close>-th on, and the strings among them.\<close>

definition text_from :: "nat \<Rightarrow> nat \<Rightarrow> bool \<Rightarrow> nat \<Rightarrow> jsstring list \<Rightarrow> jsstring" where
  "text_from n L isLast k ls = concat (concat (map (\<lambda>(i, line). line_pieces n L isLast None i line) (enumerate k ls)))"

lemma text_from_simps:
  "text_from n L isLast k [] = []"
  "text_from n L isLast k (l # ls) = concat (line_pieces n L isLast None k l) @ text_from n L isLast (Suc k) ls"
  by (simp_all add: text_from_def)

fun strings_from :: "nat \<Rightarrow> nat \<Rightarrow> nat \<Rightarrow> jsstring list \<Rightarrow> jsstring list" where
  "strings_from n L k [] = []"
| "strings_from n L k (l # ls) =
     (if k = L then [trimmed_line n k l]
      else if trimmed_line n k l \<noteq> [] then trimmed_line n k l # strings_from n L (Suc k) ls
      else strings_from n L (Suc k) ls)"

lemma blanks_space: "list_all is_space (takeWhile is_blank s)" "list_all is_space (rev (takeWhile is_blank s))"
  by (auto simp: list_all_iff is_space_def is_line_terminator_def is_blank_def dest!: set_takeWhileD)

lemma text_after:
  assumes "L < k" and "\<forall>(i, l) \<in> set (enumerate k ls). trimmed_line n i l = []"
  shows "list_all is_space (text_from n L isLast k ls)"
  using assms
proof (induction ls arbitrary: k)
  case (Cons l ls)
  then have "list_all is_space (text_from n L isLast (Suc k) ls)" by simp
  then show ?case using Cons.prems blanks_space
    by (simp add: text_from_simps line_pieces_def Let_def) (simp add: is_space_def is_line_terminator_def)
qed (simp add: text_from_simps)

lemma quotable_simps:
  "quotable (map (\<lambda>c. if c = 9 then 32 else c) s) = quotable s"
  by (auto simp: quotable_def)

lemma quotable_trimmed: "quotable l \<Longrightarrow> quotable (trimmed_line n i l)"
proof -
  assume "quotable l"
  then have "quotable (map (\<lambda>c. if c = 9 then 32 else c) l)" by (simp add: quotable_simps)
  moreover have "quotable s \<Longrightarrow> quotable (trim_left p s)" "quotable s \<Longrightarrow> quotable (trim_right p s)" for p s
    by (auto simp: quotable_def trim_left_def trim_right_def dest!: set_dropWhileD)
  ultimately show ?thesis by (simp add: trimmed_line_def Let_def)
qed

lemma strings_from_last: "\<lbrakk>k \<le> L; L < k + length ls\<rbrakk> \<Longrightarrow> strings_from n L k ls \<noteq> []"
  by (induction ls arbitrary: k) auto

lemma text_from_after: "L < k \<Longrightarrow> text_from n L a k ls = text_from n L b k ls"
  by (induction ls arbitrary: k) (simp_all add: text_from_simps line_pieces_def Let_def)

text \<open>The whole text is a sum, an optional comma, and white space.\<close>

lemma text_value:
  assumes "k \<le> L" and "L < k + length ls" and "\<forall>l \<in> set ls. quotable l"
    and "\<forall>(i, l) \<in> set (enumerate k ls). L < i \<longrightarrow> trimmed_line n i l = []"
  shows "\<exists>u v. (\<forall>isLast. text_from n L isLast k ls = u @ (if isLast then [] else js '', '') @ v)
    \<and> sum_value u = Some (join_with [32] (strings_from n L k ls)) \<and> list_all is_space v"
  using assms
proof (induction ls arbitrary: k)
  case (Cons l ls)
  let ?t = "trimmed_line n k l" and ?b = "if k \<noteq> 0 then takeWhile is_blank l else []"
  have b: "list_all is_space ?b" using blanks_space(1) by simp
  have q: "quotable ?t" using Cons.prems(3) by (simp add: quotable_trimmed)
  show ?case
  proof (cases "k = L")
    case True
    let ?w = "(if ?t \<noteq> [] \<and> Suc k \<noteq> n then rev (takeWhile is_blank (rev l)) else []) @ (if Suc k \<noteq> n then [10] else [])"
    have after: "\<forall>(i, l) \<in> set (enumerate (Suc k) ls). trimmed_line n i l = []"
    proof clarify
      fix i x assume m: "(i, x) \<in> set (enumerate (Suc k) ls)"
      then have "L < i" using True by (simp add: in_set_enumerate_eq)
      then show "trimmed_line n i x = []" using Cons.prems(4) m by auto
    qed
    have tf: "text_from n L isLast (Suc k) ls = text_from n L True (Suc k) ls" for isLast
      using True by (intro text_from_after) simp
    let ?v = "?w @ text_from n L True (Suc k) ls"
    have "text_from n L isLast k (l # ls) = (?b @ json_quote ?t) @ (if isLast then [] else js '', '') @ ?v" for isLast
      using True tf [of isLast] by (simp add: text_from_simps line_pieces_def Let_def truthy_def)
    moreover have "sum_value (?b @ json_quote ?t) = Some ?t" using sum_skip [OF b] sum_literal [OF q] by simp
    moreover have "list_all is_space ?v"
      using text_after [OF _ after, of L True] blanks_space True by (simp add: is_space_def is_line_terminator_def)
    ultimately show ?thesis using True by (intro exI [of _ "?b @ json_quote ?t"] exI [of _ ?v]) simp
  next
    case False
    then have k: "Suc k \<le> L" "L < Suc k + length ls" using Cons.prems(1,2) by auto
    obtain u v where uv: "\<And>isLast. text_from n L isLast (Suc k) ls = u @ (if isLast then [] else js '', '') @ v"
      "sum_value u = Some (join_with [32] (strings_from n L (Suc k) ls))" "list_all is_space v"
      using Cons.IH [OF k] Cons.prems(3,4) by auto
    let ?c = "if Suc k \<noteq> n then [10] else []"
    have c: "list_all is_space ?c" by (simp add: is_space_def is_line_terminator_def)
    show ?thesis
    proof (cases "?t = []")
      case True
      have "text_from n L isLast k (l # ls) = (?b @ ?c @ u) @ (if isLast then [] else js '', '') @ v" for isLast
        using True False uv(1) [of isLast] by (simp add: text_from_simps line_pieces_def Let_def)
      moreover have "sum_value (?b @ ?c @ u) = sum_value u" using sum_skip [OF b] sum_skip [OF c] by simp
      ultimately show ?thesis using True False uv by (intro exI [of _ "?b @ ?c @ u"] exI [of _ v]) simp
    next
      case t: False
      let ?w = "(if Suc k \<noteq> n then rev (takeWhile is_blank (rev l)) else []) @ ?c"
      let ?u = "?b @ json_quote ?t @ [32, 43, 32, 39, 32, 39, 32, 43] @ ?w @ u"
      have w: "list_all is_space ?w" using blanks_space c by simp
      have "text_from n L isLast k (l # ls) = ?u @ (if isLast then [] else js '', '') @ v" for isLast
        using t False uv(1) [of isLast] by (simp add: text_from_simps line_pieces_def Let_def)
      moreover have "sum_value ?u = map_option (\<lambda>v. ?t @ 32 # v) (sum_value u)"
        unfolding sum_skip [OF b] sum_plus [OF q] sum_skip [OF w] ..
      ultimately show ?thesis
        using t False uv strings_from_last [OF k] by (intro exI [of _ ?u] exI [of _ v]) (simp add: join_with_Cons)
    qed
  qed
qed simp


subsection \<open>The last line with text\<close>

lemma last_non_empty_snoc:
  "last_non_empty (ls @ [l]) = (if list_ex (\<lambda>c. \<not> is_blank c) l then length ls else last_non_empty ls)"
  by (simp add: last_non_empty_def enumerate_append_eq)

lemma last_non_empty_Nil: "last_non_empty [] = 0"
  by (simp add: last_non_empty_def)

lemma last_non_empty_one: "last_non_empty [l] = 0"
  using last_non_empty_snoc [of "[]" l] by (simp add: last_non_empty_Nil)

lemma last_non_empty_bound: "ls \<noteq> [] \<Longrightarrow> last_non_empty ls < length ls"
proof (induction ls rule: rev_induct)
  case (snoc l ls)
  then show ?case by (cases "ls = []") (auto simp: last_non_empty_snoc last_non_empty_one)
qed simp

lemma blank_after_last: "\<lbrakk>last_non_empty ls < i; i < length ls\<rbrakk> \<Longrightarrow> list_all is_blank (ls ! i)"
  by (induction ls rule: rev_induct)
    (auto simp: last_non_empty_snoc nth_append less_Suc_eq list_all_iff list_ex_iff split: if_splits)

lemma last_has_text: "last_non_empty ls \<noteq> 0 \<Longrightarrow> list_ex (\<lambda>c. \<not> is_blank c) (ls ! last_non_empty ls)"
proof (induction ls rule: rev_induct)
  case (snoc l ls)
  then show ?case using last_non_empty_bound [of ls]
    by (cases "ls = []") (auto simp: last_non_empty_snoc nth_append last_non_empty_one split: if_splits)
qed (simp add: last_non_empty_Nil)

lemma trimmed_blank: "\<lbrakk>i \<noteq> 0; list_all is_blank l\<rbrakk> \<Longrightarrow> trimmed_line n i l = []"
proof -
  assume i: "i \<noteq> 0" and l: "list_all is_blank l"
  then have "dropWhile (\<lambda>c. c = 32) (map (\<lambda>c. if c = 9 then 32 else c) l) = []"
    by (auto simp: list_all_iff is_blank_def)
  then show ?thesis using i by (simp add: trimmed_line_def trim_left_def trim_right_def Let_def del: dropWhile_eq_Nil_conv)
qed

lemma trimmed_text: "list_ex (\<lambda>c. \<not> is_blank c) l \<Longrightarrow> trimmed_line n i l \<noteq> []"
proof -
  assume "list_ex (\<lambda>c. \<not> is_blank c) l"
  then obtain c where c: "c \<in> set l" "c \<noteq> 32" "c \<noteq> 9" by (auto simp: list_ex_iff is_blank_def)
  then have "c \<in> set (map (\<lambda>c. if c = 9 then 32 else c) l)" by auto
  moreover have keep: "c \<in> set s \<Longrightarrow> c \<in> set (dropWhile (\<lambda>c. c = 32) s)" for s
    using c(2) by (induction s) auto
  ultimately have "c \<in> set (trimmed_line n i l)"
    by (auto simp: trimmed_line_def trim_left_def trim_right_def Let_def)
  then show ?thesis by auto
qed

lemma strings_filter:
  assumes "k \<le> L" and "L < k + length ls" and "trimmed_line n L (ls ! (L - k)) \<noteq> []"
    and "\<forall>(i, l) \<in> set (enumerate k ls). L < i \<longrightarrow> trimmed_line n i l = []"
  shows "strings_from n L k ls = filter (\<lambda>l. l \<noteq> []) (map (\<lambda>(i, l). trimmed_line n i l) (enumerate k ls))"
  using assms
proof (induction ls arbitrary: k)
  case (Cons l ls)
  show ?case
  proof (cases "k = L")
    case True
    have "trimmed_line n i x = []" if m: "(i, x) \<in> set (enumerate (Suc k) ls)" for i x
    proof -
      have "L < i" using m True by (simp add: in_set_enumerate_eq)
      then show ?thesis using Cons.prems(4) m by auto
    qed
    then have "filter (\<lambda>l. l \<noteq> []) (map (\<lambda>(i, l). trimmed_line n i l) (enumerate (Suc k) ls)) = []"
      by (auto simp: filter_empty_conv)
    then show ?thesis using True Cons.prems(3) by simp
  next
    case False
    then have "Suc k \<le> L" "L < Suc k + length ls" "trimmed_line n L (ls ! (L - Suc k)) \<noteq> []"
      using Cons.prems(1-3) by (auto simp: nth_Cons' )
    then show ?thesis using Cons.IH [of "Suc k"] Cons.prems(4) False by simp
  qed
qed simp

lemma strings_text:
  assumes "ls \<noteq> []"
  shows "join_with [32] (strings_from (length ls) (last_non_empty ls) 0 ls) = join_with [32] (filter (\<lambda>l. l \<noteq> []) (trimmed_lines ls))"
    and "\<forall>(i, l) \<in> set (enumerate 0 ls). last_non_empty ls < i \<longrightarrow> trimmed_line (length ls) i l = []"
proof -
  let ?L = "last_non_empty ls" and ?n = "length ls"
  have L: "?L < length ls" using assms by (rule last_non_empty_bound)
  show after: "\<forall>(i, l) \<in> set (enumerate 0 ls). ?L < i \<longrightarrow> trimmed_line ?n i l = []"
    using blank_after_last [of ls] by (auto simp: in_set_enumerate_eq intro!: trimmed_blank)
  show "join_with [32] (strings_from ?n ?L 0 ls) = join_with [32] (filter (\<lambda>l. l \<noteq> []) (trimmed_lines ls))"
  proof (cases "trimmed_line ?n ?L (ls ! ?L) = []")
    case False
    then show ?thesis using strings_filter [of 0 ?L ls ?n] L after by (simp add: trimmed_lines_def)
  next
    case True
    then have z: "?L = 0" using last_has_text trimmed_text by blast
    have "trimmed_line ?n i l = []" if m: "(i, l) \<in> set (enumerate 0 ls)" for i l
    proof (cases "i = 0")
      case True
      then show ?thesis using m z \<open>trimmed_line ?n ?L (ls ! ?L) = []\<close> by (simp add: in_set_enumerate_eq)
    qed (use m z after in auto)
    then have "filter (\<lambda>l. l \<noteq> []) (trimmed_lines ls) = []" by (auto simp: trimmed_lines_def filter_empty_conv)
    moreover have "strings_from ?n ?L 0 ls = [[]]" using True z assms by (cases ls) auto
    ultimately show ?thesis by simp
  qed
qed

lemma no_newline_quoted: "10 \<notin> set (json_quote s)"
  by (auto simp: json_quote_def json_char_def hex_char_def split: if_splits)

lemma no_newline_blanks: "10 \<notin> set (takeWhile is_blank s)"
  by (auto simp: is_blank_def dest!: set_takeWhileD)

lemma text_lines:
  "k + length ls = n \<Longrightarrow> count_list (text_from n L isLast k ls) 10 = length ls - 1"
proof (induction ls arbitrary: k)
  case (Cons l ls)
  have z: "count_list (json_quote s) 10 = 0" "count_list (takeWhile is_blank s) 10 = 0"
    "count_list (rev (takeWhile is_blank s)) 10 = 0" "count_list (js '', '') 10 = 0" for s
    using no_newline_quoted no_newline_blanks by (simp_all add: count_list_0_iff js_eval)
  have "count_list (concat (line_pieces n L isLast None k l)) 10 = (if Suc k \<noteq> n then 1 else 0)"
    by (simp add: line_pieces_def Let_def z truthy_def)
  then show ?case using Cons by (cases ls) (auto simp: text_from_simps)
qed (simp add: text_from_simps)

lemma split_lines_not_Nil: "split_lines s \<noteq> []"
  by (induction s rule: split_lines.induct) (auto split: list.splits)

lemma split_lines_subset: "\<lbrakk>l \<in> set (split_lines s); x \<in> set l\<rbrakk> \<Longrightarrow> x \<in> set s"
proof (induction s arbitrary: l rule: split_lines.induct)
  case (2 c cs)
  obtain h t where h: "split_lines cs = h # t" using split_lines_not_Nil [of cs] by (cases "split_lines cs") auto
  have d: "x \<in> set (drop 1 cs) \<Longrightarrow> x \<in> set cs" by (rule in_set_dropD)
  consider "c = 13 \<and> take 1 cs = [10]" | "\<not> (c = 13 \<and> take 1 cs = [10])" "c = 10 \<or> c = 13" | "c \<noteq> 10" "c \<noteq> 13" by blast
  then show ?case
  proof cases
    case 1
    then show ?thesis using 2(1,4,5) d by (auto simp del: One_nat_def)
  next
    case 2
    then show ?thesis using "2.IH"(2) "2.prems" by (auto; blast)
  next
    case 3
    then show ?thesis using "2.IH"(3) "2.prems" h by (auto; fastforce)
  qed
qed simp

lemma split_lines_quotable: "\<lbrakk>quotable s; l \<in> set (split_lines s)\<rbrakk> \<Longrightarrow> quotable l"
  using split_lines_subset [of l s] by (auto simp: quotable_def)


subsection \<open>The rendering of a text\<close>

text \<open>A writer to which appending does not fail: without a source map, or with counters in step.\<close>

definition ready :: "writer \<Rightarrow> bool" where
  "ready w \<longleftrightarrow> w_sourceMap w = None \<or> (located w \<and> recording w)"

lemma add_position_keeps_buffer: "add_position a b c d w = Inr u \<Longrightarrow> w_buffer u = w_buffer w"
  by (auto simp: add_position_def split: option.splits elim!: bindR_InrE)

lemma append_buffer: "append_text str w = Inr u \<Longrightarrow> w_buffer u = w_buffer w @ str"
  by (auto simp: append_text_def Let_def dest: add_position_keeps_buffer split: if_splits elim!: bindR_InrE)

lemma append_ready: "ready w \<Longrightarrow> \<exists>u. append_text str w = Inr u \<and> ready u"
proof (cases "w_sourceMap w = None")
  case True
  then show ?thesis by (simp add: append_text_def ready_def)
next
  case False
  moreover assume "ready w"
  ultimately show ?thesis using append_located [of w str] by (auto simp: ready_def)
qed

lemma append_all:
  "ready (g st) \<Longrightarrow> \<exists>t. each append_state strs st = Some (Inr t) \<and> ready (g t) \<and> w_buffer (g t) = w_buffer (g st) @ concat strs"
proof (induction strs arbitrary: st)
  case (Cons str strs)
  obtain u where u: "append_text str (g st) = Inr u" "ready u" using append_ready [OF Cons.prems] by blast
  then have "ready (g (st\<lparr>g := u\<rparr>))" by simp
  from Cons.IH [OF this] u append_buffer [OF u(1)] show ?case by (auto simp: append_state_def)
qed simp

lemma range_of_Some: "node_range node = Some r \<Longrightarrow> range_of node = Inr r"
  by (cases node) (simp_all add: range_of_def node_range_def get_prop_def)


text \<open>Text over three lines.\<close>

definition text_node :: jsvalue where
  "text_node = tree_node 1 (4, 13) ''Literal'' [(js ''value'', VStr [97, 32, 34, 10, 9, 10, 32, 98])]"


subsection \<open>Rendering ends\<close>

lemma elements_below: "\<lbrakk>elements v = Inr xs; x \<in> set xs\<rbrakk> \<Longrightarrow> depth x < depth v"
proof (cases v)
  case (VArr vs)
  assume "elements v = Inr xs" "x \<in> set xs"
  then have "x \<in> set vs" using VArr by (simp add: elements_def)
  then have "depth x \<le> sum_list (map depth vs)" by (intro member_le_sum_list) auto
  then show ?thesis using VArr by simp
qed (auto simp: elements_def)

lemma prop_elements_below:
  "\<lbrakk>get_prop node k = Inr v; elements v = Inr xs; x \<in> set xs; 0 < depth node\<rbrakk> \<Longrightarrow> depth x < depth node"
  using elements_below prop_below by (meson less_trans)

lemma each_append_ends: "ends (each append_state strs st)"
  by (intro each_ends) (simp add: ends_state)

lemma literal_ends: "ends (renderJSXLiteral object isLast start end st)"
  unfolding renderJSXLiteral_def
  by (intro ends_value) (auto split: jsvalue.splits intro!: bindO_ends each_append_ends ends_value simp: ends_state)

lemma if_do_ends: "(\<And>st. ends (f st)) \<Longrightarrow> ends (if_do b f st)"
  by (simp add: if_do_def)

lemma ends_if: "\<lbrakk>b \<Longrightarrow> ends m; \<not> b \<Longrightarrow> ends m'\<rbrakk> \<Longrightarrow> ends (if b then m else m')"
  by simp

lemma ends_split: "(\<And>a b. x = (a, b) \<Longrightarrow> ends (f a b)) \<Longrightarrow> ends (case x of (a, b) \<Rightarrow> f a b)"
  by (cases x) simp

lemmas ends_rules = ends_value bindO_ends ends_state literal_ends if_do_ends ends_if ends_split

lemma name_ends: "ends (render_name nameObject st)"
  unfolding render_name_def by (intro ends_rules)

lemma container_ends:
  assumes "\<And>x p u. depth x < n \<Longrightarrow> ends (f x p u)" and "depth object < n"
  shows "ends (renderJSXExpressionContainer f object isLast path st)"
  unfolding renderJSXExpressionContainer_def
  by (intro ends_rules) (auto intro: ends_Some assms(1) prop_below2 [OF _ assms(2)])

lemma spread_ends:
  assumes "\<And>x p u. depth x < n \<Longrightarrow> ends (f x p u)" and "depth attr < n"
  shows "ends (render_spread f path attr isLast prev st)"
  unfolding render_spread_def
  by (intro ends_rules) (auto intro: assms(1) prop_below2 [OF _ assms(2)])

lemma attribute_ends:
  assumes "\<And>x p u. depth x < n \<Longrightarrow> ends (f x p u)" and "depth attr < n"
  shows "ends (render_attribute f path attr isLast prev st)"
  unfolding render_attribute_def
  by (intro ends_rules container_ends [OF assms(1)]) (auto intro: ends_Some prop_below2 [OF _ assms(2)])

lemma attributes_ends:
  assumes "\<And>x p u. depth x < n \<Longrightarrow> ends (f x p u)" and "\<forall>a \<in> set attrs. depth a < n"
  shows "ends (render_attributes f path attrs prev st)"
  using assms(2)
proof (induction attrs arbitrary: prev st)
  case (Cons a attrs)
  then show ?case unfolding render_attributes.simps
    by (intro ends_rules spread_ends [OF assms(1)] attribute_ends [OF assms(1)]) (auto split: list.splits)
qed simp

lemma opening_ends:
  assumes "\<And>x p u. depth x < n \<Longrightarrow> ends (f x p u)" and "depth opening < n"
  shows "ends (render_opening f path opening st)"
proof -
  have a: "depth a < n" if m: "bindR (get_prop opening ''attributes'') elements = Inr xs" "a \<in> set xs" for xs a
  proof -
    obtain v where v: "get_prop opening ''attributes'' = Inr v" "elements v = Inr xs" using m(1) by (rule bindR_InrE)
    have "depth v < n" using prop_below2 [OF v(1) assms(2)] .
    then show ?thesis using elements_below [OF v(2) m(2)] by simp
  qed
  show ?thesis unfolding render_opening_def
    by (intro ends_rules name_ends attributes_ends [OF assms(1)]) (auto intro: a)
qed

lemma child_ends:
  assumes "\<And>x p u. depth x < n \<Longrightarrow> ends (f x p u)" and "depth child < n"
  shows "ends (render_child f path isLast child st)"
  unfolding render_child_def
  by (intro ends_rules container_ends [OF assms(1)] assms(1)) (auto simp: assms(2))

lemma children_ends:
  assumes "\<And>x p u. depth x < n \<Longrightarrow> ends (f x p u)" and "\<forall>(i, c) \<in> set cs. depth c < n"
  shows "ends (render_children f path k cs st)"
  using assms(2) by (induction cs arbitrary: st) (auto intro!: bindO_ends child_ends [OF assms(1)])

lemma filterR_subset: "filterR p xs = Inr ys \<Longrightarrow> set ys \<subseteq> set xs"
  by (induction xs arbitrary: ys) (fastforce elim!: bindR_InrE split: if_splits)+

lemma react_tag_ends: "ending_visitor visitReactTag"
  unfolding ending_visitor_def
proof (intro allI impI)
  fix f :: "jsvalue \<Rightarrow> jsvalue list \<Rightarrow> 'a tstate \<Rightarrow> 'a tstate run" and node path and s :: "'a tstate"
  assume f: "\<forall>x p u. depth x < depth node \<longrightarrow> ends (f x p u)" and "visit_test visitReactTag node path s = Inr True"
  then have d: "0 < depth node" by (simp add: visitReactTag_def typed_depth)
  have f': "depth x < depth node \<Longrightarrow> ends (f x p u)" for x p u using f by blast
  have c: "depth c < depth node"
    if m: "bindR (get_prop node ''children'') elements = Inr xs" "filterR renderable xs = Inr ys" "(i, c) \<in> set (enumerate 0 ys)" for xs ys i c
  proof -
    obtain v where "get_prop node ''children'' = Inr v" "elements v = Inr xs" using m(1) by (rule bindR_InrE)
    then have "\<forall>x \<in> set xs. depth x < depth node" using prop_elements_below d by blast
    then have "\<forall>y \<in> set ys. depth y < depth node" using filterR_subset [OF m(2)] by auto
    then show ?thesis using m(3) by (auto simp: in_set_enumerate_eq)
  qed
  show "ends (visit visitReactTag f node path s)"
    unfolding visitReactTag_def visitReactTag_body_def visitor.simps
    by (intro ends_stop ends_rules opening_ends [OF f'] children_ends [OF f'])
      (auto intro: prop_below [OF _ d] c)
qed

lemma display_name_ends: "ending_visitor visitReactDisplayName"
  unfolding ending_visitor_def visitReactDisplayName_def addDisplayName_def
  by (auto intro!: ends_value bindO_ends ends_state)

end
