(* ===== verification/Spec2Isabelle.thy ===== *)
theory Spec2Isabelle
  imports SmCompose PathModule ProcessShim BufferFacts EsLexical EsParseFacts VisitTypes VisitReserved VisitJsx
begin

text \<open>
  Verification of the JavaScript that TreeFrog ships to compile JSX on the server,
  \<^verbatim>\<open>src/defaults/JSXTransformer.js\<close>: a bundle of 41 modules, from the parser to the source map.

  The program. The framework (C++) loads the bundle into its JavaScript engine and calls
  \<^verbatim>\<open>JSXTransformer.transform(source)\<close>. \<^verbatim>\<open>jstransform\<close> gets a syntax tree from \<^verbatim>\<open>esprima\<close>, whose
  scanner cuts the source into tokens, and walks over it; at each node the first visitor that is
  interested edits the output through \<^verbatim>\<open>jstransform/utils\<close>, which copies the source in between and
  records, if asked to, where each piece comes from in a \<^verbatim>\<open>SourceMapGenerator\<close>. That writes its
  mappings in base 64 VLQ, with the sources and names in an \<^verbatim>\<open>ArraySet\<close>, and the \<^verbatim>\<open>SourceMapConsumer\<close>
  reads them back and searches them. \<^verbatim>\<open>Buffer\<close>, \<^verbatim>\<open>base64-js\<close>, \<^verbatim>\<open>path\<close> and \<^verbatim>\<open>process\<close> are the shims for
  the browser that these modules run on.

  The theories, and what each models (line numbers are in the manifest):

  \<^item> Prelude: strings as lists of 16-bit code units, errors as values, the operators that convert to
    32-bit integers, numbers that may be NaN, \<^verbatim>\<open>split\<close>, \<^verbatim>\<open>join\<close>, \<^verbatim>\<open>slice\<close>, \<^verbatim>\<open>substring\<close>.
  \<^item> JsRegexp: regular expressions of the standard (a backtracking matcher and its relation), for the
    patterns of \<^verbatim>\<open>source-map/util\<close> and \<^verbatim>\<open>path\<close>.
  \<^item> Base64Vlq: \<^verbatim>\<open>base64\<close>, \<^verbatim>\<open>base64-vlq\<close>. Writing then reading gives the number back, up to the bound
    of the 32-bit shifts; truncated input throws.
  \<^item> Comparators, BinarySearch: comparison functions and \<^verbatim>\<open>sort\<close> (a stable sort), \<^verbatim>\<open>recursiveSearch\<close>
    and its closest-element contract, as locales for comparators and for needles.
  \<^item> SmUtil, ArraySets, SmGenerator, SmConsumer, SmRoundtrip, SmCompose: the other modules of \<^verbatim>\<open>source-map\<close>. The
    generator keeps its invariant; the lazy consumer with the state a failed parse leaves; the round
    trip is a simulation between the state of the writer and that of the reader; maps can be copied
    and composed.
  \<^item> PathModule: every operation of \<^verbatim>\<open>path\<close>. \<^verbatim>\<open>normalizeArray\<close> against a walk over directories;
    what \<^verbatim>\<open>relative\<close> gives leads to its target.
  \<^item> ProcessShim: \<^verbatim>\<open>nextTick\<close> and \<^verbatim>\<open>drainQueue\<close> as a state machine with callbacks that enqueue and throw.
  \<^item> BufferInts, Base64Js: the integers of \<^verbatim>\<open>Buffer\<close>, one locale for the contract of a reader and
    its writer with an interpretation for each of the ten pairs; the base 64 codec.
  \<^item> EsChars, EsState, EsTrivia, EsWords, EsLiterals, EsJsx, EsLexer, EsTokenize: the scanner of
    \<^verbatim>\<open>esprima\<close> with the module's variables as a record, every throw with the state it leaves, and
    \<^verbatim>\<open>tokenize\<close>. EsScanned: what each scanning function reads and the line variables it leaves.
    EsLexical: the functions against the lexical grammar.
  \<^item> TransformText: the writer of \<^verbatim>\<open>jstransform/utils\<close> (\<^verbatim>\<open>catchup\<close>, \<^verbatim>\<open>move\<close>, \<^verbatim>\<open>append\<close>, indentation) with
    its counters, the search for a character outside comments, and scopes.
  \<^item> TransformTree: syntax trees, their children, and \<^verbatim>\<open>jstransform\<close>: \<^verbatim>\<open>traverse\<close>, the entering of
    scopes, the analysis of identifiers, \<^verbatim>\<open>transform\<close>.
  \<^item> TransformWalk: a locale for invariants of the writer that copying keeps, which every walk then
    keeps; its interpretations on two invariants give the theorems about whole transformations.

  How state and operations correspond. A module's variables are one record and each function takes and
  returns it; a method takes the object as a record. An exception is the left side of a sum (or a
  constructor \<open>Throw\<close> that carries the state, where the caller can see it). Loops are recursive
  functions with their measures. Integers are exact (the code's doubles are exact in the ranges
  used) and each bit operator converts to 32 bits as the standard says. A property read beyond the
  end of a string is \<open>None\<close>.

  Fuel and partial functions. The outer loop of \<^verbatim>\<open>tokenize\<close>, the line loop of the generator and the
  queue loop are partial functions to an option; theorems show when each returns. A walk calls
  visitors with \<^verbatim>\<open>traverse\<close> itself, so it has fuel, one unit for each level of nesting calls; more than
  the depth of the tree is enough where visitors do not start walks of their own at other nodes.

  Parameters, for what is not in the repository: the engine's opinion on a regular expression
  (\<open>RegExp_valid\<close>), the properties an object literal inherits (\<open>inherited\<close>, \<open>inherits\<close>, \<open>proto\<close>), the
  parser seen from \<^verbatim>\<open>jstransform\<close>, the tests and actions of visitors, and the callbacks of \<^verbatim>\<open>nextTick\<close>.
  Buffers are those with typed arrays (\<^verbatim>\<open>TYPED_ARRAY_SUPPORT\<close>); the writers for plain objects are
  modelled and compared beside them. \<^verbatim>\<open>JSON\<close>, \<^verbatim>\<open>parseInt\<close> and \<^verbatim>\<open>parseFloat\<close> stay symbolic.

  Not modelled, with the reason:

  \<^item> the parser of \<^verbatim>\<open>esprima\<close> proper (its productions, over 4,000 lines, build trees with
    \<^verbatim>\<open>SyntaxTreeDelegate\<close>): it is the largest part left, and the tree is a parameter here;
  \<^item> the visitors (\<^verbatim>\<open>es6-*\<close>, \<^verbatim>\<open>es7-*\<close>, \<^verbatim>\<open>reserved-words\<close>, \<^verbatim>\<open>type-syntax\<close>, \<^verbatim>\<open>react\<close>, \<^verbatim>\<open>jsx\<close>): parameters
    of the walk;
  \<^item> the codecs and slices of \<^verbatim>\<open>Buffer\<close>, its floating point accessors and \<^verbatim>\<open>ieee754\<close>: the latter rest on
    the engine's doubles;
  \<^item> \<^verbatim>\<open>source-node\<close>, \<^verbatim>\<open>inline-source-map\<close>, \<^verbatim>\<open>base62\<close>, \<^verbatim>\<open>docblock\<close>, \<^verbatim>\<open>amdefine\<close>: helpers, and loaders of
    modules that the bundle does not run;
  \<^item> the entry points \<^verbatim>\<open>main\<close> and \<^verbatim>\<open>browser\<close>: they read scripts from the page and options, and glue
    the parts together;
  \<^item> the vendored libraries (\<^verbatim>\<open>react*.js\<close>, \<^verbatim>\<open>prototype.js\<close>), the scripts of the documentation, and the
    C++ framework.
\<close>

end
